(* ===== verification/Prelude.thy ===== *)
theory Prelude
  imports Main "HOL-Library.Word" "HOL-Library.State_Monad"
begin

text \<open>
  Shared vocabulary of the development.  A C \<open>char\<close> array is a \<open>char list\<close>; a machine word of
  the code is an \<open>'a word\<close>; little-endian encodings of 2- and 4-byte integers are \<open>le16\<close>,
  \<open>le32\<close> and their readers \<open>un16\<close>, \<open>un32\<close>.  The theory also holds the list and string
  helpers that several components use: \<open>splice\<close> (overwrite part of a file), \<open>zpad\<close> (a
  zero-filled fixed-size array that holds a string), \<open>cstr\<close> (the C string a buffer holds),
  \<open>strstr\<close> and \<open>after_last_slash\<close> (the base name of a path).
\<close>

unbundle bit_operations_syntax

type_synonym bytes = "char list"
type_synonym path = string
type_synonym u8 = "8 word"
type_synonym u16 = "16 word"
type_synonym u32 = "32 word"

named_theorems fs_simps "rewrite rules for file contents and byte strings"

section \<open>C strings in buffers\<close>

definition cstr :: "bytes \<Rightarrow> string" where
  "cstr b = takeWhile (\<lambda>c. c \<noteq> CHR 0x00) b"

definition zpad :: "nat \<Rightarrow> bytes \<Rightarrow> bytes" where
  "zpad n s = take n s @ replicate (n - length s) (CHR 0x00)"

text \<open>\<open>snprintf(buf, n, "%s", s)\<close> over a zeroed array of \<open>n\<close> bytes.\<close>

definition snprintf_s :: "nat \<Rightarrow> string \<Rightarrow> bytes" where
  "snprintf_s n s = zpad n (take (n - 1) (cstr s))"

fun strstr :: "string \<Rightarrow> string \<Rightarrow> bool" where
  "strstr [] ys = (ys = [])"
| "strstr (x # xs) ys = (take (length ys) (x # xs) = ys \<or> strstr xs ys)"

text \<open>
  The loop \<open>for (i = strlen(s); i >= 0; i--) if (s[i] == '/') ...\<close>: the text after the last
  slash, \<open>None\<close> when there is no slash.
\<close>

definition after_last_slash :: "string \<Rightarrow> string option" where
  "after_last_slash s =
     (if CHR ''/'' \<in> set s then Some (rev (takeWhile (\<lambda>c. c \<noteq> CHR ''/'') (rev s))) else None)"

lemma length_zpad [simp]: "length (zpad n s) = n"
  by (simp add: zpad_def)

lemma length_snprintf_s [simp]: "length (snprintf_s n s) = n"
  by (simp add: snprintf_s_def)

definition no_nul :: "string \<Rightarrow> bool" where
  "no_nul s \<longleftrightarrow> CHR 0x00 \<notin> set s"

lemma cstr_append_nul [simp]:
  "no_nul s \<Longrightarrow> 0 < n \<Longrightarrow> cstr (s @ replicate n (CHR 0x00)) = s"
proof -
  assume s: "no_nul s" and n: "0 < n"
  from n obtain m where m: "n = Suc m" by (auto simp: gr0_conv_Suc)
  have "takeWhile (\<lambda>c. c \<noteq> CHR 0x00) (s @ CHR 0x00 # replicate m (CHR 0x00)) = s"
    using s by (subst takeWhile_append2) (auto simp: no_nul_def)
  then show ?thesis by (simp add: cstr_def m)
qed

lemma cstr_no_nul [simp]: "no_nul s \<Longrightarrow> cstr s = s"
  by (auto simp: cstr_def no_nul_def takeWhile_eq_all_conv)

lemma cstr_no_nul_result [simp]: "no_nul (cstr b)"
  by (auto simp: cstr_def no_nul_def dest: set_takeWhileD)

lemma snprintf_s_short: "no_nul s \<Longrightarrow> length s < n \<Longrightarrow> snprintf_s n s = s @ replicate (n - length s) (CHR 0x00)"
  by (simp add: snprintf_s_def zpad_def)

lemma cstr_snprintf_s: "no_nul s \<Longrightarrow> length s < n \<Longrightarrow> cstr (snprintf_s n s) = s"
  by (simp add: snprintf_s_short)

lemma no_nul_after_last_slash:
  "no_nul s \<Longrightarrow> after_last_slash s = Some b \<Longrightarrow> no_nul b"
  using set_takeWhileD [of "CHR 0x00" "\<lambda>c. c \<noteq> CHR ''/''" "rev s"]
  by (auto simp: no_nul_def after_last_slash_def split: if_splits)

lemma length_after_last_slash:
  assumes "after_last_slash s = Some b"
  shows "length b < length s"
proof -
  from assms have sl: "CHR ''/'' \<in> set (rev s)" and b: "b = rev (takeWhile (\<lambda>c. c \<noteq> CHR ''/'') (rev s))"
    by (auto simp: after_last_slash_def split: if_splits)
  have "length (takeWhile (\<lambda>c. c \<noteq> CHR ''/'') (rev s)) \<noteq> length (rev s)"
    using sl by (metis set_takeWhileD takeWhile_eq_take take_all order_refl)
  then show ?thesis
    using length_takeWhile_le [of "\<lambda>c. c \<noteq> CHR ''/''" "rev s"] by (simp add: b)
qed

section \<open>Overwriting part of a byte string\<close>

text \<open>The content of a file after \<open>bs\<close> was written at offset \<open>pos\<close>: a gap is filled with zeros.\<close>

definition splice :: "nat \<Rightarrow> bytes \<Rightarrow> bytes \<Rightarrow> bytes" where
  "splice pos bs d = take pos d @ replicate (pos - length d) (CHR 0x00) @ bs @ drop (pos + length bs) d"

lemma length_splice [simp]: "length (splice pos bs d) = max (length d) (pos + length bs)"
  by (simp add: splice_def)

lemma splice_end [fs_simps, simp]: "splice (length d) bs d = d @ bs"
  by (simp add: splice_def)

lemma splice_take_drop:
  "pos \<le> length d \<Longrightarrow> splice pos bs d = take pos d @ bs @ drop (pos + length bs) d"
  by (simp add: splice_def)

lemma read_splice [fs_simps]: "take (length bs) (drop pos (splice pos bs d)) = bs"
  by (simp add: splice_def)

lemma splice_splice_next:
  assumes "pos \<le> length d"
  shows "splice (pos + length as) bs (splice pos as d) = splice pos (as @ bs) d"
  using assms by (simp add: splice_def ac_simps)

lemma take_splice [simp]: "n \<le> pos \<Longrightarrow> n \<le> length d \<Longrightarrow> take n (splice pos bs d) = take n d"
  by (simp add: splice_def min_def)

lemma drop_splice:
  "pos + length bs \<le> n \<Longrightarrow> drop n (splice pos bs d) = drop n d"
  by (cases "pos \<le> length d") (auto simp: splice_def not_le)

section \<open>Integers in byte strings\<close>

definition le32 :: "u32 \<Rightarrow> bytes" where
  "le32 w = map (\<lambda>i. char_of (unat w div 256 ^ i)) [0, 1, 2, 3]"

definition un32 :: "bytes \<Rightarrow> u32" where
  "un32 b = of_nat (foldr (\<lambda>c a. of_char c + 256 * a) (take 4 b) 0)"

definition le16 :: "u16 \<Rightarrow> bytes" where
  "le16 w = map (\<lambda>i. char_of (unat w div 256 ^ i)) [0, 1]"

definition un16 :: "bytes \<Rightarrow> u16" where
  "un16 b = of_nat (foldr (\<lambda>c a. of_char c + 256 * a) (take 2 b) 0)"

lemma length_le32 [simp]: "length (le32 w) = 4"
  by (simp add: le32_def)

lemma length_le16 [simp]: "length (le16 w) = 2"
  by (simp add: le16_def)

lemma unat_bound: "unat (w :: 'a::len word) < 2 ^ LENGTH('a)"
  by (rule unsigned_less)

lemma of_char_char_of_nat: "of_char (char_of (n :: nat)) = n mod 256"
  by simp

lemma nat_bytes4: "(n::nat) < 256 ^ 4 \<Longrightarrow>
  n mod 256 + 256 * (n div 256 mod 256 + 256 * (n div 256 ^ 2 mod 256 + 256 * (n div 256 ^ 3 mod 256))) = n"
proof -
  assume n: "n < 256 ^ 4"
  have m: "n div 256 ^ 3 mod 256 = n div 256 ^ 3"
    using n by (simp add: less_mult_imp_div_less)
  have e2: "n div 256 ^ 2 = 256 * (n div 256 ^ 3) + n div 256 ^ 2 mod 256"
    using div_mult2_eq [of n "256 ^ 2" 256] mult_div_mod_eq [of 256 "n div 256 ^ 2"] by simp
  have e1: "n div 256 = 256 * (n div 256 ^ 2) + n div 256 mod 256"
    using div_mult2_eq [of n "256" 256] mult_div_mod_eq [of 256 "n div 256"] by simp
  have e0: "n = 256 * (n div 256) + n mod 256"
    by simp
  have s: "n div 256 ^ 2 mod 256 + 256 * (n div 256 ^ 3 mod 256) = n div 256 ^ 2"
    using e2 m by linarith
  have t: "n div 256 mod 256 + 256 * (n div 256 ^ 2) = n div 256"
    using e1 by linarith
  show ?thesis unfolding s t using e0 by linarith
qed

lemma un32_le32 [simp]: "un32 (le32 w) = w"
proof -
  have u: "unat w < 256 ^ 4" using unat_bound [of w] by simp
  have "foldr (\<lambda>c a. of_char c + 256 * a) (take 4 (le32 w)) 0 = unat w"
    using nat_bytes4 [OF u] less_mult_imp_div_less [of "unat w" 256 "256 ^ 3"] u
    by (simp add: le32_def)
  then show ?thesis by (simp add: un32_def)
qed

lemma un32_le32_append [simp]: "un32 (le32 w @ r) = w"
  using un32_le32 [of w] by (simp add: un32_def del: un32_le32)

lemma un16_le16 [simp]: "un16 (le16 w) = w"
proof -
  have u: "unat w < 256 * 256" using unat_bound [of w] by simp
  then have "unat w div 256 mod 256 = unat w div 256" by (simp add: less_mult_imp_div_less)
  then have "foldr (\<lambda>c a. of_char c + 256 * a) (take 2 (le16 w)) 0 = unat w"
    by (simp add: le16_def)
  then show ?thesis by (simp add: un16_def)
qed

lemma un16_le16_append [simp]: "un16 (le16 w @ r) = w"
  using un16_le16 [of w] by (simp add: un16_def del: un16_le16)

text \<open>Two's complement truncation to a 32-bit \<open>int\<close>, as an assignment to an \<open>int\<close> does it.\<close>

definition to_int32 :: "int \<Rightarrow> int" where
  "to_int32 i = (i + 2 ^ 31) mod 2 ^ 32 - 2 ^ 31"

lemma to_int32_small [simp]: "- (2 ^ 31) \<le> i \<Longrightarrow> i < 2 ^ 31 \<Longrightarrow> to_int32 i = i"
  by (simp add: to_int32_def)

lemma to_int32_neg_big: "2 ^ 31 \<le> i \<Longrightarrow> i < 2 ^ 32 \<Longrightarrow> to_int32 i < 0"
proof -
  assume a: "2 ^ 31 \<le> i" "i < 2 ^ 32"
  then have "(i + 2 ^ 31 - 2 ^ 32) mod 2 ^ 32 = i + 2 ^ 31 - 2 ^ 32"
    by (intro mod_pos_pos_trivial) auto
  then have "(i + 2 ^ 31) mod 2 ^ 32 = i + 2 ^ 31 - 2 ^ 32"
    by (metis minus_mod_self2)
  with a show ?thesis by (simp add: to_int32_def)
qed

end
