(* ===== verification/Posix.thy ===== *)
theory Posix
  imports Prelude
begin

text \<open>
  The operating system the library runs on, as far as its C code uses it: files with content,
  descriptors with an offset, mutexes, the heap, and a trace of undefined behaviour.  Every
  system call first takes the next entry of \<open>faults\<close>: \<open>Fail\<close> makes the call fail, \<open>Short n\<close>
  makes a read or write stop after \<open>n\<close> bytes, and an empty list means that no call fails for
  outside reasons.  A theorem over every world is thus a theorem over every pattern of failures.
  The type parameter is the type of the program's own global variables.
\<close>

section \<open>State\<close>

datatype fault = Good | Fail | Short nat

datatype fkind = Reg | Dir | Blk

record inode =
  ikind :: fkind
  idata :: bytes
  iuid :: nat
  igid :: nat
  iperm :: nat

datatype oflag = O_RDONLY | O_WRONLY | O_RDWR | O_CREAT | O_TRUNC | O_SYNC

datatype whence = SEEK_SET | SEEK_CUR | SEEK_END

record fdesc =
  fd_path :: path
  fd_pos :: nat
  fd_rd :: bool
  fd_wr :: bool

datatype lockid = dirlock | backuplock | generateFileVerlock | gFileStartAddrlock | recoverlock

datatype ub_kind = OutOfBounds | BadUnlock | SelfDeadlock | DoubleFree | DivByZero | Uninitialised

record mtd_info =
  mi_size :: u32
  mi_erasesize :: u32
  mi_writesize :: u32

record 'g world =
  fs :: "path \<Rightarrow> inode option"
  fds :: "int \<Rightarrow> fdesc option"
  next_fd :: int
  faults :: "fault list"
  locks :: "lockid set"
  heap :: nat
  ubs :: "ub_kind list"
  clock :: int
  mtd :: "path \<Rightarrow> mtd_info option"
  gl :: 'g

type_synonym ('g, 'a) io = "('g world, 'a) state"

abbreviation ret :: "'a \<Rightarrow> ('s, 'a) state" where
  "ret \<equiv> State_Monad.return"

definition gets :: "('s \<Rightarrow> 'a) \<Rightarrow> ('s, 'a) state" where
  "gets f = State (\<lambda>s. (f s, s))"

definition modify :: "('s \<Rightarrow> 's) \<Rightarrow> ('s, unit) state" where
  "modify f = State (\<lambda>s. ((), f s))"

definition pop_fault :: "'g world \<Rightarrow> fault \<times> 'g world" where
  "pop_fault w = (case faults w of [] \<Rightarrow> (Good, w) | f # fl \<Rightarrow> (f, w\<lparr>faults := fl\<rparr>))"

definition ub :: "ub_kind \<Rightarrow> ('g, unit) io" where
  "ub k = modify (\<lambda>w. w\<lparr>ubs := k # ubs w\<rparr>)"

text \<open>A memory access of the code that is defined only when \<open>c\<close> holds.\<close>

definition check :: "bool \<Rightarrow> ub_kind \<Rightarrow> ('g, unit) io" where
  "check c k = (if c then ret () else ub k)"

section \<open>System calls\<close>

definition limit :: "fault \<Rightarrow> bytes \<Rightarrow> bytes" where
  "limit f b = (case f of Short n \<Rightarrow> take n b | _ \<Rightarrow> b)"

definition parent_dir :: "path \<Rightarrow> path" where
  "parent_dir p = rev (drop 1 (dropWhile (\<lambda>c. c \<noteq> CHR ''/'') (rev p)))"

definition dir_exists :: "(path \<Rightarrow> inode option) \<Rightarrow> path \<Rightarrow> bool" where
  "dir_exists f d = (d = [] \<or> (case f d of Some n \<Rightarrow> ikind n = Dir | None \<Rightarrow> False))"

definition new_inode :: "fkind \<Rightarrow> nat \<Rightarrow> inode" where
  "new_inode k md = \<lparr>ikind = k, idata = [], iuid = 0, igid = 0, iperm = md\<rparr>"

definition wants_write :: "oflag list \<Rightarrow> bool" where
  "wants_write fl = (O_RDWR \<in> set fl \<or> O_WRONLY \<in> set fl)"

definition new_fd :: "path \<Rightarrow> oflag list \<Rightarrow> fdesc" where
  "new_fd p fl = \<lparr>fd_path = p, fd_pos = 0, fd_rd = (O_WRONLY \<notin> set fl), fd_wr = wants_write fl\<rparr>"

definition sys_open :: "path \<Rightarrow> oflag list \<Rightarrow> nat \<Rightarrow> ('g, int) io" where
  "sys_open p fl md = State (\<lambda>w0.
     let (f, w) = pop_fault w0;
         grant = (\<lambda>fs'. (next_fd w, w\<lparr>fs := fs', fds := (fds w)(next_fd w \<mapsto> new_fd p fl),
                                       next_fd := next_fd w + 1\<rparr>))
     in if f = Fail then (-1, w)
        else case fs w p of
          None \<Rightarrow> if O_CREAT \<in> set fl \<and> dir_exists (fs w) (parent_dir p)
                  then grant ((fs w)(p \<mapsto> new_inode Reg md)) else (-1, w)
        | Some n \<Rightarrow> if ikind n = Dir \<and> (wants_write fl \<or> O_CREAT \<in> set fl) then (-1, w)
                    else if O_TRUNC \<in> set fl \<and> ikind n = Reg
                    then grant ((fs w)(p \<mapsto> n\<lparr>idata := []\<rparr>)) else grant (fs w))"

definition sys_close :: "int \<Rightarrow> ('g, int) io" where
  "sys_close fd = State (\<lambda>w0.
     let (f, w) = pop_fault w0
     in if fds w fd = None then (-1, w)
        else (if f = Fail then -1 else 0, w\<lparr>fds := (fds w)(fd := None)\<rparr>))"

text \<open>\<open>read\<close> gives the bytes read, \<open>None\<close> for the result -1.\<close>

definition sys_read :: "int \<Rightarrow> nat \<Rightarrow> ('g, bytes option) io" where
  "sys_read fd n = State (\<lambda>w0.
     let (f, w) = pop_fault w0
     in if f = Fail then (None, w)
        else case fds w fd of None \<Rightarrow> (None, w)
        | Some d \<Rightarrow> (case fs w (fd_path d) of None \<Rightarrow> (None, w)
          | Some i \<Rightarrow> if ikind i = Dir \<or> \<not> fd_rd d then (None, w)
             else let got = limit f (take n (drop (fd_pos d) (idata i)))
                  in (Some got, w\<lparr>fds := (fds w)(fd \<mapsto> d\<lparr>fd_pos := fd_pos d + length got\<rparr>)\<rparr>)))"

definition sys_pread :: "int \<Rightarrow> nat \<Rightarrow> int \<Rightarrow> ('g, bytes option) io" where
  "sys_pread fd n off = State (\<lambda>w0.
     let (f, w) = pop_fault w0
     in if f = Fail \<or> off < 0 then (None, w)
        else case fds w fd of None \<Rightarrow> (None, w)
        | Some d \<Rightarrow> (case fs w (fd_path d) of None \<Rightarrow> (None, w)
          | Some i \<Rightarrow> if ikind i = Dir \<or> \<not> fd_rd d then (None, w)
             else (Some (limit f (take n (drop (nat off) (idata i)))), w)))"

text \<open>What a write of \<open>bs\<close> at \<open>pos\<close> can store: a device cannot grow.\<close>

definition storable :: "inode \<Rightarrow> nat \<Rightarrow> bytes \<Rightarrow> bytes" where
  "storable i pos bs = (if ikind i = Blk then take (length (idata i) - pos) bs else bs)"

definition sys_write :: "int \<Rightarrow> bytes \<Rightarrow> ('g, int) io" where
  "sys_write fd bs = State (\<lambda>w0.
     let (f, w) = pop_fault w0
     in if f = Fail then (-1, w)
        else case fds w fd of None \<Rightarrow> (-1, w)
        | Some d \<Rightarrow> (case fs w (fd_path d) of None \<Rightarrow> (-1, w)
          | Some i \<Rightarrow> if ikind i = Dir \<or> \<not> fd_wr d then (-1, w)
             else let put = storable i (fd_pos d) (limit f bs)
                  in if put = [] \<and> bs \<noteq> [] then (if ikind i = Blk then -1 else 0, w)
                     else (int (length put),
                       w\<lparr>fs := (fs w)(fd_path d \<mapsto> i\<lparr>idata := splice (fd_pos d) put (idata i)\<rparr>),
                         fds := (fds w)(fd \<mapsto> d\<lparr>fd_pos := fd_pos d + length put\<rparr>)\<rparr>)))"

definition sys_pwrite :: "int \<Rightarrow> bytes \<Rightarrow> int \<Rightarrow> ('g, int) io" where
  "sys_pwrite fd bs off = State (\<lambda>w0.
     let (f, w) = pop_fault w0
     in if f = Fail \<or> off < 0 then (-1, w)
        else case fds w fd of None \<Rightarrow> (-1, w)
        | Some d \<Rightarrow> (case fs w (fd_path d) of None \<Rightarrow> (-1, w)
          | Some i \<Rightarrow> if ikind i = Dir \<or> \<not> fd_wr d then (-1, w)
             else let put = storable i (nat off) (limit f bs)
                  in if put = [] \<and> bs \<noteq> [] then (if ikind i = Blk then -1 else 0, w)
                     else (int (length put),
                       w\<lparr>fs := (fs w)(fd_path d \<mapsto> i\<lparr>idata := splice (nat off) put (idata i)\<rparr>)\<rparr>)))"

definition sys_lseek :: "int \<Rightarrow> int \<Rightarrow> whence \<Rightarrow> ('g, int) io" where
  "sys_lseek fd off wh = State (\<lambda>w0.
     let (f, w) = pop_fault w0
     in if f = Fail then (-1, w)
        else case fds w fd of None \<Rightarrow> (-1, w)
        | Some d \<Rightarrow>
            let sz = (case fs w (fd_path d) of None \<Rightarrow> 0 | Some i \<Rightarrow> int (length (idata i)));
                base = (case wh of SEEK_SET \<Rightarrow> 0 | SEEK_CUR \<Rightarrow> int (fd_pos d) | SEEK_END \<Rightarrow> sz);
                pos = base + off
            in if pos < 0 then (-1, w)
               else (pos, w\<lparr>fds := (fds w)(fd \<mapsto> d\<lparr>fd_pos := nat pos\<rparr>)\<rparr>))"

definition sys_stat :: "path \<Rightarrow> ('g, inode option) io" where
  "sys_stat p = State (\<lambda>w0. let (f, w) = pop_fault w0 in (if f = Fail then None else fs w p, w))"

definition sys_fstat :: "int \<Rightarrow> ('g, inode option) io" where
  "sys_fstat fd = State (\<lambda>w0. let (f, w) = pop_fault w0 in
     (if f = Fail then None
      else case fds w fd of None \<Rightarrow> None | Some d \<Rightarrow> fs w (fd_path d), w))"

definition st_size :: "inode \<Rightarrow> int" where
  "st_size i = (if ikind i = Blk then 0 else int (length (idata i)))"

definition sys_unlink :: "path \<Rightarrow> ('g, int) io" where
  "sys_unlink p = State (\<lambda>w0. let (f, w) = pop_fault w0 in
     if f = Fail then (-1, w)
     else case fs w p of None \<Rightarrow> (-1, w)
       | Some i \<Rightarrow> if ikind i = Dir then (-1, w) else (0, w\<lparr>fs := (fs w)(p := None)\<rparr>))"

text \<open>\<open>access(p, F_OK)\<close>, \<open>mkdir\<close> (\<open>Some True\<close>: failed with \<open>EEXIST\<close>; \<open>Some False\<close>: any other
  error; \<open>None\<close>: done), \<open>chown\<close> (-1 keeps an id) and \<open>chmod\<close>.\<close>

definition sys_access :: "path \<Rightarrow> ('g, int) io" where
  "sys_access p = State (\<lambda>w0. let (f, w) = pop_fault w0 in
     (if f = Fail \<or> fs w p = None then -1 else 0, w))"

definition sys_mkdir :: "path \<Rightarrow> nat \<Rightarrow> ('g, bool option) io" where
  "sys_mkdir p md = State (\<lambda>w0. let (f, w) = pop_fault w0 in
     if f = Fail then (Some False, w)
     else if fs w p \<noteq> None then (Some True, w)
     else if \<not> dir_exists (fs w) (parent_dir p) then (Some False, w)
     else (None, w\<lparr>fs := (fs w)(p \<mapsto> new_inode Dir md)\<rparr>))"

definition sys_chown :: "path \<Rightarrow> nat option \<Rightarrow> nat option \<Rightarrow> ('g, int) io" where
  "sys_chown p u g = State (\<lambda>w0. let (f, w) = pop_fault w0 in
     if f = Fail then (-1, w)
     else case fs w p of None \<Rightarrow> (-1, w)
       | Some i \<Rightarrow> (0, w\<lparr>fs := (fs w)(p \<mapsto> i\<lparr>iuid := (case u of None \<Rightarrow> iuid i | Some x \<Rightarrow> x),
                                         igid := (case g of None \<Rightarrow> igid i | Some x \<Rightarrow> x)\<rparr>)\<rparr>))"

definition sys_chmod :: "path \<Rightarrow> nat \<Rightarrow> ('g, int) io" where
  "sys_chmod p md = State (\<lambda>w0. let (f, w) = pop_fault w0 in
     if f = Fail then (-1, w)
     else case fs w p of None \<Rightarrow> (-1, w)
       | Some i \<Rightarrow> (0, w\<lparr>fs := (fs w)(p \<mapsto> i\<lparr>iperm := md\<rparr>)\<rparr>))"

definition sys_fsync :: "int \<Rightarrow> ('g, int) io" where
  "sys_fsync fd = State (\<lambda>w0. let (f, w) = pop_fault w0 in
     (if f = Fail \<or> fds w fd = None then -1 else 0, w))"

text \<open>
  The two MTD requests: \<open>MEMGETINFO\<close> reports the geometry of the device a descriptor is open on,
  \<open>MEMERASE\<close> sets a range of it to 0xFF.
\<close>

definition sys_memgetinfo :: "int \<Rightarrow> ('g, mtd_info option) io" where
  "sys_memgetinfo fd = State (\<lambda>w0. let (f, w) = pop_fault w0 in
     (if f = Fail then None
      else case fds w fd of None \<Rightarrow> None | Some d \<Rightarrow> mtd w (fd_path d), w))"

definition sys_memerase :: "int \<Rightarrow> u32 \<Rightarrow> u32 \<Rightarrow> ('g, int) io" where
  "sys_memerase fd start len = State (\<lambda>w0. let (f, w) = pop_fault w0 in
     if f = Fail then (-1, w)
     else case fds w fd of None \<Rightarrow> (-1, w)
       | Some d \<Rightarrow> (case fs w (fd_path d) of None \<Rightarrow> (-1, w)
         | Some i \<Rightarrow> if ikind i \<noteq> Blk \<or> \<not> fd_wr d \<or> length (idata i) < unat start + unat len then (-1, w)
           else (0, w\<lparr>fs := (fs w)(fd_path d \<mapsto>
                   i\<lparr>idata := splice (unat start) (replicate (unat len) (CHR 0xFF)) (idata i)\<rparr>)\<rparr>)))"

section \<open>Heap and mutexes\<close>

definition sys_malloc :: "int \<Rightarrow> ('g, bool) io" where
  "sys_malloc n = State (\<lambda>w0. let (f, w) = pop_fault w0 in
     if f = Fail \<or> n < 0 then (False, w) else (True, w\<lparr>heap := heap w + 1\<rparr>))"

definition sys_free :: "('g, unit) io" where
  "sys_free = modify (\<lambda>w. if heap w = 0 then w\<lparr>ubs := DoubleFree # ubs w\<rparr> else w\<lparr>heap := heap w - 1\<rparr>)"

text \<open>\<open>free\<close> of a pointer that is NULL when its allocation failed.\<close>

definition free_ptr :: "bool \<Rightarrow> ('g, unit) io" where
  "free_ptr allocated = (if allocated then sys_free else ret ())"

definition mutex_lock :: "lockid \<Rightarrow> ('g, unit) io" where
  "mutex_lock l = modify (\<lambda>w. if l \<in> locks w then w\<lparr>ubs := SelfDeadlock # ubs w\<rparr>
                              else w\<lparr>locks := insert l (locks w)\<rparr>)"

definition mutex_unlock :: "lockid \<Rightarrow> ('g, unit) io" where
  "mutex_unlock l = modify (\<lambda>w. if l \<in> locks w then w\<lparr>locks := locks w - {l}\<rparr>
                                else w\<lparr>ubs := BadUnlock # ubs w\<rparr>)"

text \<open>What a C call leaves behind: its \<open>int\<close> result, and the buffer it read into.\<close>

definition rd_len :: "bytes option \<Rightarrow> int" where
  "rd_len r = (case r of None \<Rightarrow> -1 | Some b \<Rightarrow> int (length b))"

definition rd_buf :: "bytes option \<Rightarrow> bytes \<Rightarrow> bytes" where
  "rd_buf r old = (case r of None \<Rightarrow> old | Some b \<Rightarrow> b @ drop (length b) old)"

end
