(* ===== verification/Resources.thy ===== *)
theory Resources
  imports Posix
begin

text \<open>
  The resource calculus.  \<open>rspec A m Q\<close>: from every well-formed world whose open descriptors,
  live heap blocks and held mutexes are \<open>A\<close>, whatever calls fail, \<open>m\<close> ends with a result and
  resources that satisfy \<open>Q\<close>.  \<open>neutral L m\<close>: unless a mutex of \<open>L\<close> is already held, \<open>m\<close> closes
  every descriptor it opens, frees every block it allocates, releases every mutex it takes, and
  neither locks a mutex it holds nor frees a block twice.  The rules of \<open>rs\<close> compute through a
  function body; \<open>neutral_rs\<close> passes a call whose neutrality is known.
\<close>

record res =
  rfds :: "int set"
  rheap :: nat
  rlocks :: "lockid set"
  rbad :: bool

definition res_of :: "'g world \<Rightarrow> res" where
  "res_of w = \<lparr>rfds = dom (fds w), rheap = heap w, rlocks = locks w,
               rbad = (SelfDeadlock \<in> set (ubs w) \<or> DoubleFree \<in> set (ubs w))\<rparr>"

text \<open>Descriptors are numbered upwards from 1: descriptor 0 is the standard input.\<close>

definition wf_world :: "'g world \<Rightarrow> bool" where
  "wf_world w \<longleftrightarrow> 0 < next_fd w \<and> (\<forall>fd \<in> dom (fds w). 0 \<le> fd \<and> fd < next_fd w)"

definition rspec :: "res \<Rightarrow> ('g, 'a) io \<Rightarrow> ('a \<Rightarrow> res \<Rightarrow> bool) \<Rightarrow> bool" where
  "rspec A m Q \<longleftrightarrow> (\<forall>w. wf_world w \<and> res_of w = A \<longrightarrow>
     wf_world (snd (run_state m w)) \<and> Q (fst (run_state m w)) (res_of (snd (run_state m w))))"

definition neutral :: "lockid set \<Rightarrow> ('g, 'a) io \<Rightarrow> bool" where
  "neutral L m \<longleftrightarrow> (\<forall>A Q. rlocks A \<inter> L = {} \<longrightarrow> (\<forall>r. Q r A) \<longrightarrow> rspec A m Q)"

named_theorems rs "rules of the resource calculus"

lemma rspecI:
  "(\<And>w. wf_world w \<Longrightarrow> res_of w = A \<Longrightarrow>
     wf_world (snd (run_state m w)) \<and> Q (fst (run_state m w)) (res_of (snd (run_state m w)))) \<Longrightarrow> rspec A m Q"
  by (simp add: rspec_def)

lemma rspec_run:
  "rspec A m Q \<Longrightarrow> wf_world w \<Longrightarrow> res_of w = A \<Longrightarrow>
     Q (fst (run_state m w)) (res_of (snd (run_state m w)))"
  by (simp add: rspec_def)

text \<open>Descriptors are never negative.\<close>

lemma rspec_wf:
  fixes m :: "('g, 'a) io"
  assumes m: "(\<And>x. x \<in> rfds A \<Longrightarrow> 0 \<le> x) \<Longrightarrow> rspec A m Q"
  shows "rspec A m Q"
proof (rule rspecI)
  fix w :: "'g world"
  assume w: "wf_world w" "res_of w = A"
  have "0 \<le> x" if "x \<in> rfds A" for x
    using w that unfolding wf_world_def by (metis res.select_convs(1) res_of_def)
  from m [OF this] w
  show "wf_world (snd (run_state m w)) \<and> Q (fst (run_state m w)) (res_of (snd (run_state m w)))"
    by (simp add: rspec_def)
qed

text \<open>Updates of resources in a fixed order of the fields.\<close>

lemma res_order [simp]:
  "A\<lparr>rlocks := l, rfds := f\<rparr> = A\<lparr>rfds := f, rlocks := l\<rparr>"
  "A\<lparr>rheap := h, rfds := f\<rparr> = A\<lparr>rfds := f, rheap := h\<rparr>"
  "A\<lparr>rlocks := l, rheap := h\<rparr> = A\<lparr>rheap := h, rlocks := l\<rparr>"
  "A\<lparr>rbad := b, rfds := f\<rparr> = A\<lparr>rfds := f, rbad := b\<rparr>"
  "A\<lparr>rbad := b, rheap := h\<rparr> = A\<lparr>rheap := h, rbad := b\<rparr>"
  "A\<lparr>rbad := b, rlocks := l\<rparr> = A\<lparr>rlocks := l, rbad := b\<rparr>"
  by simp_all

lemma rs_bind [rs]:
  "rspec A m (\<lambda>r B. rspec B (f r) Q) \<Longrightarrow> rspec A (State_Monad.bind m f) Q"
  by (auto simp: rspec_def case_prod_unfold)

lemma rs_return [rs]: "Q x A \<Longrightarrow> rspec A (ret x) Q"
  by (simp add: rspec_def)

lemma rs_if [rs]:
  "(b \<Longrightarrow> rspec A m Q) \<Longrightarrow> (\<not> b \<Longrightarrow> rspec A n Q) \<Longrightarrow> rspec A (if b then m else n) Q"
  by simp

lemma rs_case_option [rs]:
  "(x = None \<Longrightarrow> rspec A m Q) \<Longrightarrow> (\<And>y. x = Some y \<Longrightarrow> rspec A (f y) Q) \<Longrightarrow>
   rspec A (case x of None \<Rightarrow> m | Some y \<Rightarrow> f y) Q"
  by (cases x) auto

lemma rs_case_prod [rs]:
  "(\<And>a b. x = (a, b) \<Longrightarrow> rspec A (f a b) Q) \<Longrightarrow> rspec A (case x of (a, b) \<Rightarrow> f a b) Q"
  by (cases x) auto

lemma rs_let [rs]: "rspec A (f x) Q \<Longrightarrow> rspec A (let y = x in f y) Q"
  by simp

lemma rs_gets [rs]: "(\<And>r. Q r A) \<Longrightarrow> rspec A (gets f) Q"
  by (simp add: rspec_def gets_def)

lemma rs_modify_gl [rs]: "Q () A \<Longrightarrow> rspec A (modify (gl_update f)) Q"
  by (simp add: rspec_def modify_def res_of_def wf_world_def)

lemma rs_ub [rs]: "k \<noteq> SelfDeadlock \<Longrightarrow> k \<noteq> DoubleFree \<Longrightarrow> Q () A \<Longrightarrow> rspec A (ub k) Q"
  by (auto simp: rspec_def ub_def modify_def res_of_def wf_world_def)

lemma rs_check [rs]: "k \<noteq> SelfDeadlock \<Longrightarrow> k \<noteq> DoubleFree \<Longrightarrow> Q () A \<Longrightarrow> rspec A (check c k) Q"
  by (simp add: check_def rs_return rs_ub)

lemma pop_fault_frame [simp]:
  "fds (snd (pop_fault w)) = fds w" "heap (snd (pop_fault w)) = heap w"
  "locks (snd (pop_fault w)) = locks w" "ubs (snd (pop_fault w)) = ubs w"
  "next_fd (snd (pop_fault w)) = next_fd w" "fs (snd (pop_fault w)) = fs w"
  "mtd (snd (pop_fault w)) = mtd w" "gl (snd (pop_fault w)) = gl w" "clock (snd (pop_fault w)) = clock w"
  by (simp_all add: pop_fault_def split: list.splits)

lemmas io_unfold = res_of_def wf_world_def case_prod_unfold Let_def

text \<open>A call that opens, allocates and locks nothing.\<close>

lemma rs_frame:
  assumes "\<And>w. wf_world w \<Longrightarrow> wf_world (snd (run_state m w)) \<and> res_of (snd (run_state m w)) = res_of w"
    and "\<And>r. Q r A"
  shows "rspec A m Q"
  using assms by (auto simp: rspec_def)

lemma dom_upd_some: "m k = Some y \<Longrightarrow> insert k (dom m) = dom m"
  by auto

lemma rs_open [rs]:
  assumes "Q (-1) A" and "\<And>fd. 0 < fd \<Longrightarrow> fd \<notin> rfds A \<Longrightarrow> Q fd (A\<lparr>rfds := insert fd (rfds A)\<rparr>)"
  shows "rspec A (sys_open p fl md) Q"
proof (rule rspecI)
  fix w :: "'g world"
  assume w: "wf_world w" "res_of w = A"
  have fresh: "0 < next_fd w" "next_fd w \<notin> rfds A"
    using w by (auto simp: wf_world_def res_of_def)
  have le: "\<And>fd d. fds w fd = Some d \<Longrightarrow> fd \<le> next_fd w"
    using w(1) by (meson wf_world_def domI less_imp_le)
  let ?r = "run_state (sys_open p fl md) w"
  have "(fst ?r = -1 \<and> wf_world (snd ?r) \<and> res_of (snd ?r) = A) \<or>
        (fst ?r = next_fd w \<and> wf_world (snd ?r) \<and> res_of (snd ?r) = A\<lparr>rfds := insert (next_fd w) (rfds A)\<rparr>)"
    using w by (auto simp: sys_open_def io_unfold dest: le split: option.splits if_splits)
  then show "wf_world (snd ?r) \<and> Q (fst ?r) (res_of (snd ?r))"
    using assms fresh by auto
qed

lemma rs_close [rs]:
  assumes "\<And>r. Q r (A\<lparr>rfds := rfds A - {fd}\<rparr>)"
  shows "rspec A (sys_close fd) Q"
proof (rule rspecI)
  fix w :: "'g world"
  assume w: "wf_world w" "res_of w = A"
  let ?r = "run_state (sys_close fd) w"
  have "wf_world (snd ?r) \<and> res_of (snd ?r) = A\<lparr>rfds := rfds A - {fd}\<rparr>"
    using w by (auto simp: sys_close_def io_unfold)
  then show "wf_world (snd ?r) \<and> Q (fst ?r) (res_of (snd ?r))"
    using assms by auto
qed

lemma rs_read [rs]: "(\<And>r. Q r A) \<Longrightarrow> rspec A (sys_read fd n) Q"
  by (rule rs_frame) (auto simp: sys_read_def io_unfold dom_upd_some split: option.splits if_splits)

lemma rs_pread [rs]: "(\<And>r. Q r A) \<Longrightarrow> rspec A (sys_pread fd n off) Q"
  by (rule rs_frame) (auto simp: sys_pread_def io_unfold dom_upd_some split: option.splits if_splits)

lemma rs_write [rs]: "(\<And>r. Q r A) \<Longrightarrow> rspec A (sys_write fd bs) Q"
  by (rule rs_frame) (auto simp: sys_write_def io_unfold dom_upd_some split: option.splits if_splits)

lemma rs_pwrite [rs]: "(\<And>r. Q r A) \<Longrightarrow> rspec A (sys_pwrite fd bs off) Q"
  by (rule rs_frame) (auto simp: sys_pwrite_def io_unfold dom_upd_some split: option.splits if_splits)

lemma rs_lseek [rs]: "(\<And>r. Q r A) \<Longrightarrow> rspec A (sys_lseek fd off wh) Q"
  by (rule rs_frame) (auto simp: sys_lseek_def io_unfold dom_upd_some split: option.splits if_splits)

lemma rs_stat [rs]: "(\<And>r. Q r A) \<Longrightarrow> rspec A (sys_stat p) Q"
  by (rule rs_frame) (auto simp: sys_stat_def io_unfold dom_upd_some split: option.splits if_splits)

lemma rs_fstat [rs]: "(\<And>r. Q r A) \<Longrightarrow> rspec A (sys_fstat fd) Q"
  by (rule rs_frame) (auto simp: sys_fstat_def io_unfold dom_upd_some split: option.splits if_splits)

lemma rs_unlink [rs]: "(\<And>r. Q r A) \<Longrightarrow> rspec A (sys_unlink p) Q"
  by (rule rs_frame) (auto simp: sys_unlink_def io_unfold dom_upd_some split: option.splits if_splits)

lemma rs_access [rs]: "(\<And>r. Q r A) \<Longrightarrow> rspec A (sys_access p) Q"
  by (rule rs_frame) (auto simp: sys_access_def io_unfold dom_upd_some split: option.splits if_splits)

lemma rs_mkdir [rs]: "(\<And>r. Q r A) \<Longrightarrow> rspec A (sys_mkdir p md) Q"
  by (rule rs_frame) (auto simp: sys_mkdir_def io_unfold dom_upd_some split: option.splits if_splits)

lemma rs_chown [rs]: "(\<And>r. Q r A) \<Longrightarrow> rspec A (sys_chown p u g) Q"
  by (rule rs_frame) (auto simp: sys_chown_def io_unfold dom_upd_some split: option.splits if_splits)

lemma rs_chmod [rs]: "(\<And>r. Q r A) \<Longrightarrow> rspec A (sys_chmod p md) Q"
  by (rule rs_frame) (auto simp: sys_chmod_def io_unfold dom_upd_some split: option.splits if_splits)

lemma rs_fsync [rs]: "(\<And>r. Q r A) \<Longrightarrow> rspec A (sys_fsync fd) Q"
  by (rule rs_frame) (auto simp: sys_fsync_def io_unfold dom_upd_some split: option.splits if_splits)

lemma rs_memgetinfo [rs]: "(\<And>r. Q r A) \<Longrightarrow> rspec A (sys_memgetinfo fd) Q"
  by (rule rs_frame) (auto simp: sys_memgetinfo_def io_unfold dom_upd_some split: option.splits if_splits)

lemma rs_memerase [rs]: "(\<And>r. Q r A) \<Longrightarrow> rspec A (sys_memerase fd st len) Q"
  by (rule rs_frame) (auto simp: sys_memerase_def io_unfold dom_upd_some split: option.splits if_splits)

lemma rs_malloc [rs]:
  "Q False A \<Longrightarrow> Q True (A\<lparr>rheap := Suc (rheap A)\<rparr>) \<Longrightarrow> rspec A (sys_malloc n) Q"
  by (rule rspecI) (auto simp: sys_malloc_def io_unfold)

lemma rs_free [rs]:
  "Q () (A\<lparr>rheap := rheap A - 1, rbad := (rbad A \<or> rheap A = 0)\<rparr>) \<Longrightarrow> rspec A sys_free Q"
  by (rule rspecI) (auto simp: sys_free_def modify_def io_unfold)

lemma rs_free_ptr [rs]:
  "(ok \<Longrightarrow> Q () (A\<lparr>rheap := rheap A - 1, rbad := (rbad A \<or> rheap A = 0)\<rparr>)) \<Longrightarrow> (\<not> ok \<Longrightarrow> Q () A) \<Longrightarrow>
   rspec A (free_ptr ok) Q"
  by (simp add: free_ptr_def rs_free rs_return)

lemma rs_lock [rs]:
  "Q () (A\<lparr>rlocks := insert l (rlocks A), rbad := (rbad A \<or> l \<in> rlocks A)\<rparr>) \<Longrightarrow> rspec A (mutex_lock l) Q"
  by (rule rspecI) (auto simp: mutex_lock_def modify_def io_unfold insert_absorb)

lemma rs_unlock [rs]:
  "Q () (A\<lparr>rlocks := rlocks A - {l}\<rparr>) \<Longrightarrow> rspec A (mutex_unlock l) Q"
  by (rule rspecI) (auto simp: mutex_unlock_def modify_def io_unfold)

lemma neutralI:
  "(\<And>A Q. rlocks A \<inter> L = {} \<Longrightarrow> (\<And>r. Q r A) \<Longrightarrow> rspec A m Q) \<Longrightarrow> neutral L m"
  by (simp add: neutral_def)

lemma neutral_rs: "neutral L m \<Longrightarrow> rlocks A \<inter> L = {} \<Longrightarrow> (\<And>r. Q r A) \<Longrightarrow> rspec A m Q"
  by (simp add: neutral_def)

lemma neutral_mono: "neutral L m \<Longrightarrow> L \<subseteq> M \<Longrightarrow> neutral M m"
  unfolding neutral_def by blast

text \<open>What neutrality says of a run.\<close>

lemma neutral_run:
  assumes "neutral L m" and "wf_world w" and "locks w \<inter> L = {}"
  shows "res_of (snd (run_state m w)) = res_of w"
proof -
  have "rspec (res_of w) m (\<lambda>r B. B = res_of w)"
    using assms(1,3) by (intro neutral_rs) (auto simp: res_of_def)
  from rspec_run [OF this assms(2)] show ?thesis by simp
qed

lemma res_fd_back [simp]: "fd \<notin> rfds A \<Longrightarrow> A\<lparr>rfds := insert fd (rfds A) - {fd}\<rparr> = A"
  by (cases A) auto

lemma neutral_bind:
  "neutral L m \<Longrightarrow> (\<And>r. neutral L (f r)) \<Longrightarrow> neutral L (State_Monad.bind m f)"
  by (rule neutralI) (auto simp: neutral_def intro!: rs_bind)

lemma neutral_ret: "neutral L (ret x)"
  by (rule neutralI) (auto intro: rs_return)

end
