(* ===== verification/NvTypes.thy ===== *)
theory NvTypes
  imports Resources
begin

text \<open>
  The data of the NVRAM library: the file table entries and enums of \<open>nvram/CFG_file_public.h\<close>,
  \<open>nvram/libfile_op.h\<close> and \<open>nvram/libnvram.h\<close>, the global variables of \<open>nvram/libnvram.c\<close>, and
  the record \<open>plat\<close> of everything the library links against but this repository does not hold
  (the file tables and lists of libcustom_nvram, the answers of libnvram_platform and of the
  fstab reader, Android's user ids, whether \<open>char\<close> is signed on the target, the build switch
  \<open>MTK_NVRAM_AUTO_BACKUP\<close>, and the bytes a fresh heap block or stack array happens to hold).
\<close>

section \<open>File table entries\<close>

datatype file_default_type = MULTIPLE_DEFUALT_REC | SIGNLE_DEFUALT_REC | DEFAULT_ZERO | DEFAULT_FF

text \<open>
  A converter gets the two version numbers, the old content and a zeroed buffer for the new
  one, and returns its \<open>int\<close> result with the new buffer.
\<close>

type_synonym pfConvertFunc = "int \<Rightarrow> int \<Rightarrow> bytes \<Rightarrow> bytes \<Rightarrow> int \<times> bytes"

record tcfg_file =
  cFileName :: string
  cFileVer :: bytes
  i4RecSize :: int
  i4RecNum :: int
  stDefualType :: file_default_type
  pDefualtVaule :: "bytes option"
  bDataProcessingType :: int
  NVM_DataConvertFunc :: "pfConvertFunc option"

abbreviation (input) FILENAMELENGTH :: nat where "FILENAMELENGTH \<equiv> 70"
abbreviation (input) FILEVERLENGTH :: nat where "FILEVERLENGTH \<equiv> 4"
abbreviation (input) VERREC where "VERREC \<equiv> 74"
abbreviation (input) MAX_FILENUM :: nat where "MAX_FILENUM \<equiv> 32767"
abbreviation (input) DataReset :: int where "DataReset \<equiv> 1"

datatype ver_info_update_flag = VerUpdate | VerDel | VerAdd

record special_lid =
  sl_lid :: int
  sl_start :: int
  sl_size :: int

record f_info =
  fi_cFileVer :: bytes
  fi_cFileName :: bytes
  fi_i4RecSize :: int
  fi_i4RecNum :: int
  fi_i4MaxFileLid :: int

record f_id =
  fid_iFileDesc :: int
  fid_ifile_lid :: int
  fid_bIsRead :: bool

record nvram_platform_t =
  log_block :: int
  resv_block :: int
  DM_block :: int
  layout_version :: int
  header_offset :: int

section \<open>What the library links against\<close>

record plat =
  g_akCFG_File :: "tcfg_file list"
  g_akCFG_File_Custom :: "tcfg_file list"
  iCustomBeginLID :: int
  iFileVerInfoLID :: int
  iNvRamFileMaxLID :: int
  aBackupToBinRegion :: "(string \<times> int) list"
  aPerformance :: "(string \<times> int) list"
  g_new_nvram_lid :: "special_lid list"
  md5_support :: bool
  evdo_support :: bool
  ecci_c2k_support :: bool
  emmc_support :: bool
  ufs_support :: bool
  new_partition_support :: bool
  platform_callback :: nvram_platform_t
  multi_storage :: "nvram_platform_t option"
  fstab_of :: "string \<Rightarrow> (string \<Rightarrow> string option) option"
  ro_hardware :: string
  misc_log_block_offset :: int
  AID_ROOT :: nat
  AID_SYSTEM :: nat
  AID_RADIO :: nat
  AID_BLUETOOTH :: nat
  AID_AUDIO :: nat
  char_signed :: bool
  auto_backup :: bool
  fresh_byte :: "nat \<Rightarrow> char"

section \<open>Global variables\<close>

record backup_file_info =
  bi_ulCheckSum :: u32
  bi_iCommonFileNum :: u32
  bi_iCustomFileNum :: u32

record nv_globals =
  g_LOG_DEVICE :: path
  g_MISC_DEVICE :: path
  g_NVRAM_BACKUP_DEVICE :: path
  g_NVRAM_PROINFO_DEVICE :: path
  g_NVRAM_NVDATA_DEVICE :: path
  gFileStartAddr :: u32
  g_i4MaxNvRamLid :: int
  NvRamBlockNum :: int
  nvram_platform_log_block :: int
  nvram_platform_resv_block :: int
  nvram_platform_DM_block :: int
  nvram_platform_layout_version :: int
  nvram_platform_header_offset :: int
  nvram_init_flag :: bool
  nvram_gpt_flag :: int
  BinRegionBlockTotalNum :: int
  stBackupFileInfo :: backup_file_info
  gFileNameArray :: "(string \<times> int) list option"

type_synonym 'a nv = "(nv_globals, 'a) io"

abbreviation getg :: "(nv_globals \<Rightarrow> 'a) \<Rightarrow> 'a nv" where
  "getg f \<equiv> gets (\<lambda>w. f (gl w))"

abbreviation setg :: "(nv_globals \<Rightarrow> nv_globals) \<Rightarrow> unit nv" where
  "setg f \<equiv> modify (gl_update f)"

text \<open>A heap block or local array of \<open>n\<close> bytes that was never set.\<close>

definition garbage :: "plat \<Rightarrow> nat \<Rightarrow> bytes" where
  "garbage P n = map (fresh_byte P) [0..<n]"

lemma length_garbage [simp]: "length (garbage P n) = n"
  by (simp add: garbage_def)

definition g_pcNVM_AllFile :: path where "g_pcNVM_AllFile = ''/nvdata/AllFile''"
definition g_pcNVM_AllMap :: path where "g_pcNVM_AllMap = ''/nvdata/AllMap''"
definition g_pcNVM_Flag :: path where "g_pcNVM_Flag = ''/nvdata/RestoreFlag''"
definition g_pcNVM_BackFlag :: path where "g_pcNVM_BackFlag = ''/nvdata/BackupFlag''"
definition strVerInfo :: string where "strVerInfo = ''NVRAM_VER_INFO''"

text \<open>The permission bits the code passes: \<open>S_IRUSR|S_IWUSR|S_IRGRP|S_IWGRP\<close>, and with \<open>S_IROTH\<close>.\<close>

abbreviation (input) mode660 :: nat where "mode660 \<equiv> 432"
abbreviation (input) mode664 :: nat where "mode664 \<equiv> 436"
abbreviation (input) mode771 :: nat where "mode771 \<equiv> 505"

text \<open>The integer value of a plain \<open>char\<close> in a comparison with an \<open>int\<close> constant.\<close>

definition char_int :: "plat \<Rightarrow> char \<Rightarrow> int" where
  "char_int P c = (if char_signed P then sint (of_char c :: u8) else uint (of_char c :: u8))"

section \<open>The file tables\<close>

text \<open>\<open>NVM_GetCfgFileTable\<close>: \<open>None\<close> is the NULL pointer.\<close>

definition NVM_GetCfgFileTable :: "plat \<Rightarrow> int \<Rightarrow> tcfg_file list option" where
  "NVM_GetCfgFileTable P file_lid =
     (if file_lid \<ge> int (length (g_akCFG_File P)) + int (length (g_akCFG_File_Custom P)) then None
      else if file_lid < iCustomBeginLID P then Some (g_akCFG_File P)
      else Some (g_akCFG_File_Custom P))"

text \<open>
  The element \<open>pCfgFielTable[i]\<close>: an access outside the table is recorded by \<open>check\<close> and reads
  the empty entry.
\<close>

definition null_entry :: tcfg_file where
  "null_entry = \<lparr>cFileName = [], cFileVer = replicate 4 (CHR 0x00), i4RecSize = 0, i4RecNum = 0,
     stDefualType = DEFAULT_ZERO, pDefualtVaule = None, bDataProcessingType = 0,
     NVM_DataConvertFunc = None\<rparr>"

definition in_table :: "tcfg_file list \<Rightarrow> int \<Rightarrow> bool" where
  "in_table t i \<longleftrightarrow> 0 \<le> i \<and> i < int (length t)"

definition entry :: "tcfg_file list \<Rightarrow> int \<Rightarrow> tcfg_file" where
  "entry t i = (if in_table t i then t ! nat i else null_entry)"

definition real_lid :: "plat \<Rightarrow> int \<Rightarrow> int" where
  "real_lid P file_lid = (if file_lid \<ge> iCustomBeginLID P then file_lid - iCustomBeginLID P else file_lid)"

text \<open>The list scans over \<open>aPerformance\<close> and \<open>aBackupToBinRegion\<close>.\<close>

definition in_lid_list :: "(string \<times> int) list \<Rightarrow> int \<Rightarrow> bool" where
  "in_lid_list xs lid = list_ex (\<lambda>(n, l). l = lid) xs"

text \<open>The path of the version file, \<open>g_akCFG_File[iFileVerInfoLID].cFileName\<close>.\<close>

definition ver_path :: "plat \<Rightarrow> path" where
  "ver_path P = cFileName (entry (g_akCFG_File P) (iFileVerInfoLID P))"

section \<open>Well-formed tables\<close>

text \<open>
  What the generated tables of libcustom_nvram promise: lids number the common files first and
  the custom files after them, lid 0 is the version file, and each entry has a four-byte version
  and a NUL-free path with a slash and a base name that fits the name field.
\<close>

definition entry_ok :: "tcfg_file \<Rightarrow> bool" where
  "entry_ok e \<longleftrightarrow> length (cFileVer e) = FILEVERLENGTH \<and> no_nul (cFileName e) \<and>
     length (cFileName e) < FILENAMELENGTH \<and>
     (case after_last_slash (cFileName e) of None \<Rightarrow> False | Some b \<Rightarrow> b \<noteq> [])"

definition all_files :: "plat \<Rightarrow> tcfg_file list" where
  "all_files P = g_akCFG_File P @ g_akCFG_File_Custom P"

definition plat_ok :: "plat \<Rightarrow> bool" where
  "plat_ok P \<longleftrightarrow> iFileVerInfoLID P = 0 \<and> g_akCFG_File P \<noteq> [] \<and>
     iCustomBeginLID P = int (length (g_akCFG_File P)) \<and>
     iNvRamFileMaxLID P = int (length (all_files P)) \<and> length (all_files P) \<le> MAX_FILENUM \<and>
     list_all entry_ok (all_files P)"

lemma lookup_lid:
  assumes "plat_ok P" and "0 \<le> lid" and "lid < int (length (all_files P))"
  shows "NVM_GetCfgFileTable P lid \<noteq> None"
    and "entry (the (NVM_GetCfgFileTable P lid)) (real_lid P lid) = all_files P ! nat lid"
    and "in_table (the (NVM_GetCfgFileTable P lid)) (real_lid P lid)"
  using assms
  by (auto simp: plat_ok_def NVM_GetCfgFileTable_def entry_def real_lid_def all_files_def in_table_def
      nth_append nat_diff_distrib)

lemma entry_ok_lid:
  "plat_ok P \<Longrightarrow> 0 \<le> lid \<Longrightarrow> lid < int (length (all_files P)) \<Longrightarrow> entry_ok (all_files P ! nat lid)"
  by (auto simp: plat_ok_def list_all_length)

end
