(* ===== verification/Running.thy ===== *)
theory Running
  imports Resources
begin

text \<open>
  The system calls in a world where no call fails for outside reasons: each \<open>run_*\<close> rule gives
  the result and the next world as record updates, so that \<open>simp add: run\<close> computes through a
  function body whose files are known.
\<close>

named_theorems run "what a system call does when it is not made to fail"

lemma upd_twice [simp]:
  "(\<lambda>a. if a = k then x else if a = k then y else f a) = (\<lambda>a. if a = k then x else f a)"
  by auto

lemma run_bind [run]:
  "run_state (State_Monad.bind m f) w = run_state (f (fst (run_state m w))) (snd (run_state m w))"
  by (simp add: case_prod_unfold)

lemma run_ret [run]: "run_state (ret x) w = (x, w)"
  by simp

lemma run_gets [run]: "run_state (gets f) w = (f w, w)"
  by (simp add: gets_def)

lemma run_setg [run]: "run_state (modify (gl_update f)) w = ((), w\<lparr>gl := f (gl w)\<rparr>)"
  by (cases w) (simp add: modify_def)

lemma run_check [run]: "c \<Longrightarrow> run_state (check c k) w = ((), w)"
  by (simp add: check_def)

lemma run_ub [run]: "run_state (ub k) w = ((), w\<lparr>ubs := k # ubs w\<rparr>)"
  by (simp add: ub_def modify_def)

lemma pop_none [simp]: "faults w = [] \<Longrightarrow> pop_fault w = (Good, w)"
  by (simp add: pop_fault_def)

lemma limit_good [simp]: "limit Good b = b"
  by (simp add: limit_def)

lemma storable_reg [simp]: "ikind i \<noteq> Blk \<Longrightarrow> storable i pos bs = bs"
  by (simp add: storable_def)

text \<open>An open descriptor \<open>fd\<close> on a readable or writable file.\<close>

definition on_file :: "'g world \<Rightarrow> int \<Rightarrow> fdesc \<Rightarrow> inode \<Rightarrow> bool" where
  "on_file w fd d i \<longleftrightarrow> faults w = [] \<and> fds w fd = Some d \<and> fs w (fd_path d) = Some i \<and> ikind i = Reg"

lemma run_open [run]:
  "faults w = [] \<Longrightarrow> fs w p = Some i \<Longrightarrow> ikind i \<noteq> Dir \<Longrightarrow> O_TRUNC \<notin> set fl \<Longrightarrow>
   run_state (sys_open p fl md) w =
     (next_fd w, w\<lparr>fds := (fds w)(next_fd w \<mapsto> new_fd p fl), next_fd := next_fd w + 1\<rparr>)"
  by (simp add: sys_open_def)

lemma run_open_trunc [run]:
  "faults w = [] \<Longrightarrow> fs w p = Some i \<Longrightarrow> ikind i = Reg \<Longrightarrow> O_TRUNC \<in> set fl \<Longrightarrow>
   run_state (sys_open p fl md) w =
     (next_fd w, w\<lparr>fs := (fs w)(p \<mapsto> i\<lparr>idata := []\<rparr>), fds := (fds w)(next_fd w \<mapsto> new_fd p fl),
        next_fd := next_fd w + 1\<rparr>)"
  by (simp add: sys_open_def)

lemma run_open_create [run]:
  "faults w = [] \<Longrightarrow> fs w p = None \<Longrightarrow> O_CREAT \<in> set fl \<Longrightarrow> dir_exists (fs w) (parent_dir p) \<Longrightarrow>
   run_state (sys_open p fl md) w =
     (next_fd w, w\<lparr>fs := (fs w)(p \<mapsto> new_inode Reg md), fds := (fds w)(next_fd w \<mapsto> new_fd p fl),
        next_fd := next_fd w + 1\<rparr>)"
  by (simp add: sys_open_def)

lemma run_open_missing [run]:
  "faults w = [] \<Longrightarrow> fs w p = None \<Longrightarrow> O_CREAT \<notin> set fl \<Longrightarrow> run_state (sys_open p fl md) w = (-1, w)"
  by (simp add: sys_open_def)

lemma run_close [run]:
  "faults w = [] \<Longrightarrow> fds w fd = Some d \<Longrightarrow> run_state (sys_close fd) w = (0, w\<lparr>fds := (fds w)(fd := None)\<rparr>)"
  by (simp add: sys_close_def)

lemma run_read [run]:
  "faults w = [] \<Longrightarrow> fds w fd = Some d \<Longrightarrow> fs w (fd_path d) = Some i \<Longrightarrow> ikind i \<noteq> Dir \<Longrightarrow> fd_rd d \<Longrightarrow>
   run_state (sys_read fd n) w =
     (Some (take n (drop (fd_pos d) (idata i))),
      w\<lparr>fds := (fds w)(fd \<mapsto> d\<lparr>fd_pos := fd_pos d + min n (length (idata i) - fd_pos d)\<rparr>)\<rparr>)"
  by (simp add: sys_read_def min.commute)

lemma run_pread [run]:
  "faults w = [] \<Longrightarrow> fds w fd = Some d \<Longrightarrow> fs w (fd_path d) = Some i \<Longrightarrow> ikind i \<noteq> Dir \<Longrightarrow> fd_rd d \<Longrightarrow>
   0 \<le> off \<Longrightarrow>
   run_state (sys_pread fd n off) w = (Some (take n (drop (nat off) (idata i))), w)"
  by (simp add: sys_pread_def)

lemma run_write [run]:
  "faults w = [] \<Longrightarrow> fds w fd = Some d \<Longrightarrow> fs w (fd_path d) = Some i \<Longrightarrow> ikind i = Reg \<Longrightarrow> fd_wr d \<Longrightarrow>
   run_state (sys_write fd bs) w =
     (int (length bs),
      w\<lparr>fs := (fs w)(fd_path d \<mapsto> i\<lparr>idata := splice (fd_pos d) bs (idata i)\<rparr>),
        fds := (fds w)(fd \<mapsto> d\<lparr>fd_pos := fd_pos d + length bs\<rparr>)\<rparr>)"
  by (simp add: sys_write_def)

lemma run_pwrite [run]:
  "faults w = [] \<Longrightarrow> fds w fd = Some d \<Longrightarrow> fs w (fd_path d) = Some i \<Longrightarrow> ikind i = Reg \<Longrightarrow> fd_wr d \<Longrightarrow>
   0 \<le> off \<Longrightarrow>
   run_state (sys_pwrite fd bs off) w =
     (int (length bs), w\<lparr>fs := (fs w)(fd_path d \<mapsto> i\<lparr>idata := splice (nat off) bs (idata i)\<rparr>)\<rparr>)"
  by (simp add: sys_pwrite_def)

lemma run_lseek_set [run]:
  "faults w = [] \<Longrightarrow> fds w fd = Some d \<Longrightarrow> 0 \<le> off \<Longrightarrow>
   run_state (sys_lseek fd off SEEK_SET) w = (off, w\<lparr>fds := (fds w)(fd \<mapsto> d\<lparr>fd_pos := nat off\<rparr>)\<rparr>)"
  by (simp add: sys_lseek_def)

lemma run_lseek_end [run]:
  "faults w = [] \<Longrightarrow> fds w fd = Some d \<Longrightarrow> fs w (fd_path d) = Some i \<Longrightarrow> 0 \<le> int (length (idata i)) + off \<Longrightarrow>
   run_state (sys_lseek fd off SEEK_END) w =
     (int (length (idata i)) + off,
      w\<lparr>fds := (fds w)(fd \<mapsto> d\<lparr>fd_pos := nat (int (length (idata i)) + off)\<rparr>)\<rparr>)"
  by (simp add: sys_lseek_def Let_def)

lemma run_lseek_end_neg [run]:
  "faults w = [] \<Longrightarrow> fds w fd = Some d \<Longrightarrow> fs w (fd_path d) = Some i \<Longrightarrow> int (length (idata i)) + off < 0 \<Longrightarrow>
   run_state (sys_lseek fd off SEEK_END) w = (-1, w)"
  by (simp add: sys_lseek_def)

lemma run_stat [run]: "faults w = [] \<Longrightarrow> run_state (sys_stat p) w = (fs w p, w)"
  by (simp add: sys_stat_def)

lemma run_fstat [run]:
  "faults w = [] \<Longrightarrow> fds w fd = Some d \<Longrightarrow> run_state (sys_fstat fd) w = (fs w (fd_path d), w)"
  by (simp add: sys_fstat_def)

lemma run_unlink [run]:
  "faults w = [] \<Longrightarrow> fs w p = Some i \<Longrightarrow> ikind i \<noteq> Dir \<Longrightarrow>
   run_state (sys_unlink p) w = (0, w\<lparr>fs := (fs w)(p := None)\<rparr>)"
  by (simp add: sys_unlink_def)

lemma run_access [run]:
  "faults w = [] \<Longrightarrow> run_state (sys_access p) w = (if fs w p = None then -1 else 0, w)"
  by (simp add: sys_access_def)

lemma run_malloc [run]:
  "faults w = [] \<Longrightarrow> 0 \<le> n \<Longrightarrow> run_state (sys_malloc n) w = (True, w\<lparr>heap := heap w + 1\<rparr>)"
  by (simp add: sys_malloc_def)

lemma run_free [run]: "0 < heap w \<Longrightarrow> run_state sys_free w = ((), w\<lparr>heap := heap w - 1\<rparr>)"
  by (simp add: sys_free_def modify_def)

lemma run_free_ptr [run]:
  "0 < heap w \<Longrightarrow> run_state (free_ptr True) w = ((), w\<lparr>heap := heap w - 1\<rparr>)"
  "run_state (free_ptr False) w = ((), w)"
  by (simp_all add: free_ptr_def run_free)

lemma run_fsync [run]: "faults w = [] \<Longrightarrow> fds w fd = Some d \<Longrightarrow> run_state (sys_fsync fd) w = (0, w)"
  by (simp add: sys_fsync_def)

lemma run_lock [run]: "l \<notin> locks w \<Longrightarrow> run_state (mutex_lock l) w = ((), w\<lparr>locks := insert l (locks w)\<rparr>)"
  by (simp add: mutex_lock_def modify_def)

lemma run_unlock [run]: "l \<in> locks w \<Longrightarrow> run_state (mutex_unlock l) w = ((), w\<lparr>locks := locks w - {l}\<rparr>)"
  by (simp add: mutex_unlock_def modify_def)

lemma rd_len_simps [simp]: "rd_len None = -1" "rd_len (Some b) = int (length b)"
  by (simp_all add: rd_len_def)

lemma rd_buf_simps [simp]: "rd_buf None old = old" "rd_buf (Some b) old = b @ drop (length b) old"
  by (simp_all add: rd_buf_def)

section \<open>Writing at the end of a file\<close>

definition appends :: "'g world \<Rightarrow> int \<Rightarrow> fdesc \<Rightarrow> inode \<Rightarrow> bool" where
  "appends w fd d i \<longleftrightarrow> faults w = [] \<and> fds w fd = Some d \<and> fd_wr d \<and> fs w (fd_path d) = Some i \<and>
     ikind i = Reg \<and> fd_pos d = length (idata i)"

definition app :: "'g world \<Rightarrow> int \<Rightarrow> fdesc \<Rightarrow> inode \<Rightarrow> bytes \<Rightarrow> 'g world" where
  "app w fd d i x = w\<lparr>fs := (fs w)(fd_path d \<mapsto> i\<lparr>idata := idata i @ x\<rparr>),
     fds := (fds w)(fd \<mapsto> d\<lparr>fd_pos := fd_pos d + length x\<rparr>)\<rparr>"

lemma run_write_app: "appends w fd d i \<Longrightarrow> run_state (sys_write fd x) w = (int (length x), app w fd d i x)"
  by (simp add: appends_def app_def run)

lemma appends_app [simp]:
  "appends w fd d i \<Longrightarrow> appends (app w fd d i x) fd (d\<lparr>fd_pos := fd_pos d + length x\<rparr>) (i\<lparr>idata := idata i @ x\<rparr>)"
  by (simp add: appends_def app_def)

lemma app_app [simp]:
  "app (app w fd d i x) fd (d\<lparr>fd_pos := fd_pos d + length x\<rparr>) (i\<lparr>idata := idata i @ x\<rparr>) y = app w fd d i (x @ y)"
  by (simp add: app_def fun_upd_def add.assoc)

section \<open>Fresh descriptors\<close>

lemma fresh_fd [simp]: "wf_world w \<Longrightarrow> fds w (next_fd w) = None"
  by (auto simp: wf_world_def dest: domI)

lemma fresh_fd_ne [simp]: "wf_world w \<Longrightarrow> next_fd w \<noteq> -1" "wf_world w \<Longrightarrow> 0 \<le> next_fd w"
  "wf_world w \<Longrightarrow> 0 < next_fd w" "wf_world w \<Longrightarrow> \<not> next_fd w < 0"
  by (auto simp: wf_world_def)

lemma fresh_fd_plus [simp]: "wf_world w \<Longrightarrow> 0 \<le> n \<Longrightarrow> fds w (next_fd w + n) = None"
proof (rule ccontr)
  assume "wf_world w" "0 \<le> n" "fds w (next_fd w + n) \<noteq> None"
  then have "next_fd w + n < next_fd w" unfolding wf_world_def by (metis domIff)
  with \<open>0 \<le> n\<close> show False by simp
qed

lemma fresh_fd_plus_ne [simp]:
  "wf_world w \<Longrightarrow> 0 \<le> n \<Longrightarrow> next_fd w + n \<noteq> -1"
  "wf_world w \<Longrightarrow> 0 \<le> n \<Longrightarrow> \<not> next_fd w + n < 0"
  "wf_world w \<Longrightarrow> 0 \<le> n \<Longrightarrow> 0 < next_fd w + n"
  by (simp_all add: wf_world_def)

lemma fds_back [simp]: "m k = None \<Longrightarrow> m(k := None) = m"
  by auto

lemma upd_away [simp]: "m k = None \<Longrightarrow> (\<lambda>a. if a = k then None else m a) = m"
  by auto

text \<open>The world after \<open>n\<close> descriptors were opened and closed again.\<close>

definition used :: "int \<Rightarrow> 'g world \<Rightarrow> 'g world" where
  "used n w = w\<lparr>next_fd := next_fd w + n\<rparr>"

lemma used_sel [simp]:
  "fs (used n w) = fs w" "fds (used n w) = fds w" "faults (used n w) = faults w"
  "locks (used n w) = locks w" "heap (used n w) = heap w" "ubs (used n w) = ubs w"
  "mtd (used n w) = mtd w" "gl (used n w) = gl w" "clock (used n w) = clock w"
  "next_fd (used n w) = next_fd w + n"
  by (simp_all add: used_def)

lemma used_0 [simp]: "used 0 w = w"
  by (simp add: used_def)

lemma used_used [simp]: "used n (used m w) = used (m + n) w"
  by (simp add: used_def ac_simps)

lemma used_fs [simp]: "used n (w\<lparr>fs := f\<rparr>) = (used n w)\<lparr>fs := f\<rparr>"
  by (simp add: used_def)

lemma wf_used [simp]: "wf_world w \<Longrightarrow> 0 \<le> n \<Longrightarrow> wf_world (used n w)"
  unfolding wf_world_def used_sel by (intro conjI ballI) (auto dest: domI dest!: bspec)

lemma wf_fs [simp]: "wf_world (w\<lparr>fs := f\<rparr>) = wf_world w"
  by (simp add: wf_world_def)

text \<open>Opening a descriptor keeps a world well formed.\<close>

lemma wf_opened:
  assumes "wf_world w" and "fds w' = (fds w)(fd \<mapsto> d)" and "0 \<le> fd" and "fd < next_fd w'" and "next_fd w \<le> next_fd w'"
  shows "wf_world w'"
  unfolding wf_world_def
proof (intro conjI ballI)
  show "0 < next_fd w'" using assms(3,4) by simp
  fix x assume "x \<in> dom (fds w')"
  then consider "x = fd" | "x \<in> dom (fds w)" using assms(2) by (auto split: if_splits)
  then have "0 \<le> x \<and> x < next_fd w'"
  proof cases
    case 1
    then show ?thesis using assms(3,4) by simp
  next
    case 2
    then have "0 \<le> x \<and> x < next_fd w" using assms(1) unfolding wf_world_def by blast
    then show ?thesis using assms(5) by linarith
  qed
  then show "0 \<le> x" "x < next_fd w'" by auto
qed

lemma wf_later:
  assumes "wf_world w" and "fds w' = fds w" and "next_fd w \<le> next_fd w'"
  shows "wf_world w'"
  using assms unfolding wf_world_def by (metis order.strict_trans2 order.trans)

lemma wf_closed:
  assumes "wf_world w" and "fds w' = (fds w)(fd := None)" and "next_fd w \<le> next_fd w'"
  shows "wf_world w'"
proof -
  have d: "dom (fds w') \<subseteq> dom (fds w)" using assms(2) by (auto split: if_splits)
  show ?thesis
    using assms(1,3) d unfolding wf_world_def by (meson order.strict_trans2 order.trans subsetD)
qed

lemma used_intro: "w\<lparr>next_fd := next_fd w + n\<rparr> = used n w"
  by (simp add: used_def)

text \<open>Updates of a world in one order of its fields.\<close>

lemma world_order:
  "w\<lparr>fds := y0, fs := x0\<rparr> = w\<lparr>fs := x0, fds := y0\<rparr>"
  "w\<lparr>next_fd := y1, fs := x1\<rparr> = w\<lparr>fs := x1, next_fd := y1\<rparr>"
  "w\<lparr>next_fd := y2, fds := x2\<rparr> = w\<lparr>fds := x2, next_fd := y2\<rparr>"
  "w\<lparr>faults := y3, fs := x3\<rparr> = w\<lparr>fs := x3, faults := y3\<rparr>"
  "w\<lparr>faults := y4, fds := x4\<rparr> = w\<lparr>fds := x4, faults := y4\<rparr>"
  "w\<lparr>faults := y5, next_fd := x5\<rparr> = w\<lparr>next_fd := x5, faults := y5\<rparr>"
  "w\<lparr>locks := y6, fs := x6\<rparr> = w\<lparr>fs := x6, locks := y6\<rparr>"
  "w\<lparr>locks := y7, fds := x7\<rparr> = w\<lparr>fds := x7, locks := y7\<rparr>"
  "w\<lparr>locks := y8, next_fd := x8\<rparr> = w\<lparr>next_fd := x8, locks := y8\<rparr>"
  "w\<lparr>locks := y9, faults := x9\<rparr> = w\<lparr>faults := x9, locks := y9\<rparr>"
  "w\<lparr>heap := y10, fs := x10\<rparr> = w\<lparr>fs := x10, heap := y10\<rparr>"
  "w\<lparr>heap := y11, fds := x11\<rparr> = w\<lparr>fds := x11, heap := y11\<rparr>"
  "w\<lparr>heap := y12, next_fd := x12\<rparr> = w\<lparr>next_fd := x12, heap := y12\<rparr>"
  "w\<lparr>heap := y13, faults := x13\<rparr> = w\<lparr>faults := x13, heap := y13\<rparr>"
  "w\<lparr>heap := y14, locks := x14\<rparr> = w\<lparr>locks := x14, heap := y14\<rparr>"
  "w\<lparr>ubs := y15, fs := x15\<rparr> = w\<lparr>fs := x15, ubs := y15\<rparr>"
  "w\<lparr>ubs := y16, fds := x16\<rparr> = w\<lparr>fds := x16, ubs := y16\<rparr>"
  "w\<lparr>ubs := y17, next_fd := x17\<rparr> = w\<lparr>next_fd := x17, ubs := y17\<rparr>"
  "w\<lparr>ubs := y18, faults := x18\<rparr> = w\<lparr>faults := x18, ubs := y18\<rparr>"
  "w\<lparr>ubs := y19, locks := x19\<rparr> = w\<lparr>locks := x19, ubs := y19\<rparr>"
  "w\<lparr>ubs := y20, heap := x20\<rparr> = w\<lparr>heap := x20, ubs := y20\<rparr>"
  "w\<lparr>gl := y21, fs := x21\<rparr> = w\<lparr>fs := x21, gl := y21\<rparr>"
  "w\<lparr>gl := y22, fds := x22\<rparr> = w\<lparr>fds := x22, gl := y22\<rparr>"
  "w\<lparr>gl := y23, next_fd := x23\<rparr> = w\<lparr>next_fd := x23, gl := y23\<rparr>"
  "w\<lparr>gl := y24, faults := x24\<rparr> = w\<lparr>faults := x24, gl := y24\<rparr>"
  "w\<lparr>gl := y25, locks := x25\<rparr> = w\<lparr>locks := x25, gl := y25\<rparr>"
  "w\<lparr>gl := y26, heap := x26\<rparr> = w\<lparr>heap := x26, gl := y26\<rparr>"
  "w\<lparr>gl := y27, ubs := x27\<rparr> = w\<lparr>ubs := x27, gl := y27\<rparr>"
  by simp_all

end
