(* ===== verification/Wp.thy ===== *)
theory Wp
  imports Posix
begin

text \<open>
  Weakest preconditions for programs in the state monad, whatever the state is: \<open>wp m Q w\<close> says that
  the run of \<open>m\<close> from \<open>w\<close> ends in \<open>Q\<close>.  The collection \<open>wps\<close> has one rule per construct; the theories
  of the components add the rules of their own operations.
\<close>

definition wp :: "('s, 'a) state \<Rightarrow> ('a \<Rightarrow> 's \<Rightarrow> bool) \<Rightarrow> 's \<Rightarrow> bool" where
  "wp m Q w \<longleftrightarrow> Q (fst (run_state m w)) (snd (run_state m w))"

named_theorems wps "rules of symbolic execution"

lemma wp_run: "wp m Q w \<Longrightarrow> Q (fst (run_state m w)) (snd (run_state m w))"
  by (simp add: wp_def)

lemma wp_mono: "wp m Q w \<Longrightarrow> (\<And>r w'. Q r w' \<Longrightarrow> R r w') \<Longrightarrow> wp m R w"
  by (simp add: wp_def)

lemma wp_bind [wps]: "wp m (\<lambda>r. wp (f r) Q) w \<Longrightarrow> wp (State_Monad.bind m f) Q w"
  by (simp add: wp_def case_prod_unfold)

lemma wp_return [wps]: "Q x w \<Longrightarrow> wp (ret x) Q w"
  by (simp add: wp_def)

lemma wp_if [wps]: "(b \<Longrightarrow> wp m Q w) \<Longrightarrow> (\<not> b \<Longrightarrow> wp n Q w) \<Longrightarrow> wp (if b then m else n) Q w"
  by simp

lemma wp_let [wps]: "wp (f x) Q w \<Longrightarrow> wp (let y = x in f y) Q w"
  by simp

lemma wp_case_option [wps]:
  "(x = None \<Longrightarrow> wp m Q w) \<Longrightarrow> (\<And>y. x = Some y \<Longrightarrow> wp (f y) Q w) \<Longrightarrow>
   wp (case x of None \<Rightarrow> m | Some y \<Rightarrow> f y) Q w"
  by (cases x) auto

lemma wp_case_prod [wps]:
  "(\<And>a b. x = (a, b) \<Longrightarrow> wp (f a b) Q w) \<Longrightarrow> wp (case x of (a, b) \<Rightarrow> f a b) Q w"
  by (cases x) auto

lemma wp_gets [wps]: "Q (f w) w \<Longrightarrow> wp (gets f) Q w"
  by (simp add: wp_def gets_def)

lemma wp_modify [wps]: "Q () (f w) \<Longrightarrow> wp (modify f) Q w"
  by (simp add: wp_def modify_def)

end
