(* ===== verification/Faulty.thy ===== *)
theory Faulty
  imports Running Wp
begin

text \<open>
  Symbolic execution when any call may fail: the rules of \<open>wps\<close> for the system calls leave the fault list of the next world arbitrary, so what they prove
  holds for every pattern of failing and short calls.
\<close>

lemma wp_check [wps]:
  "(c \<Longrightarrow> Q () w) \<Longrightarrow> (\<not> c \<Longrightarrow> Q () (w\<lparr>ubs := k # ubs w\<rparr>)) \<Longrightarrow> wp (check c k) Q w"
  by (simp add: wp_def check_def ub_def modify_def)

lemma pop_fault_world: "snd (pop_fault w) = w\<lparr>faults := tl (faults w)\<rparr>"
  by (cases "faults w") (simp_all add: pop_fault_def)

lemmas wp_call = wp_def case_prod_unfold Let_def pop_fault_world

lemma wp_stat [wps]:
  "(\<And>fl. Q None (w\<lparr>faults := fl\<rparr>)) \<Longrightarrow> (\<And>fl. Q (fs w p) (w\<lparr>faults := fl\<rparr>)) \<Longrightarrow> wp (sys_stat p) Q w"
  by (simp add: sys_stat_def wp_call)

lemma wp_open [wps]:
  "O_CREAT \<notin> set fl \<Longrightarrow> O_TRUNC \<notin> set fl \<Longrightarrow> (\<And>l. Q (-1) (w\<lparr>faults := l\<rparr>)) \<Longrightarrow>
   (\<And>l i. fs w p = Some i \<Longrightarrow>
      Q (next_fd w) (w\<lparr>faults := l, fds := (fds w)(next_fd w \<mapsto> new_fd p fl), next_fd := next_fd w + 1\<rparr>)) \<Longrightarrow>
   wp (sys_open p fl md) Q w"
  by (auto simp: sys_open_def wp_call split: option.splits)

lemma wp_close [wps]:
  "(\<And>r l. Q r (w\<lparr>faults := l, fds := (fds w)(fd := None)\<rparr>)) \<Longrightarrow> wp (sys_close fd) Q w"
proof -
  have e: "fds w fd = None \<Longrightarrow> (fds w)(fd := None) = fds w" by auto
  assume "\<And>r l. Q r (w\<lparr>faults := l, fds := (fds w)(fd := None)\<rparr>)"
  then show ?thesis by (cases "fds w fd") (auto simp: sys_close_def wp_call e fun_upd_idem)
qed

lemma wp_read [wps]:
  "fds w fd = Some d \<Longrightarrow> fs w (fd_path d) = Some i \<Longrightarrow> (\<And>l. Q None (w\<lparr>faults := l\<rparr>)) \<Longrightarrow>
   (\<And>l k. Q (Some (take k (take n (drop (fd_pos d) (idata i)))))
      (w\<lparr>faults := l, fds := (fds w)(fd \<mapsto> d\<lparr>fd_pos := fd_pos d + length (take k (take n (drop (fd_pos d) (idata i))))\<rparr>)\<rparr>)) \<Longrightarrow>
   wp (sys_read fd n) Q w"
proof -
  assume a: "fds w fd = Some d" "fs w (fd_path d) = Some i" "\<And>l. Q None (w\<lparr>faults := l\<rparr>)"
    and b: "\<And>l k. Q (Some (take k (take n (drop (fd_pos d) (idata i)))))
      (w\<lparr>faults := l, fds := (fds w)(fd \<mapsto> d\<lparr>fd_pos := fd_pos d + length (take k (take n (drop (fd_pos d) (idata i))))\<rparr>)\<rparr>)"
  have "limit f (take n b) = take (case f of Short k \<Rightarrow> k | _ \<Rightarrow> n) (take n b)" for f and b :: bytes
    by (simp add: limit_def split: fault.split)
  then show ?thesis
    using a b by (auto simp: sys_read_def wp_call)
qed

lemma wp_lseek_end [wps]:
  "fds w fd = Some d \<Longrightarrow> fs w (fd_path d) = Some i \<Longrightarrow> (\<And>l. Q (-1) (w\<lparr>faults := l\<rparr>)) \<Longrightarrow>
   (\<And>l. 0 \<le> int (length (idata i)) + off \<Longrightarrow> Q (int (length (idata i)) + off)
      (w\<lparr>faults := l, fds := (fds w)(fd \<mapsto> d\<lparr>fd_pos := nat (int (length (idata i)) + off)\<rparr>)\<rparr>)) \<Longrightarrow>
   wp (sys_lseek fd off SEEK_END) Q w"
  by (auto simp: sys_lseek_def wp_call)

section \<open>Calls that leave the files alone\<close>

definition same :: "'g world \<Rightarrow> 'g world \<Rightarrow> bool" where
  "same w w' \<longleftrightarrow> wf_world w' \<and> fs w' = fs w \<and> fds w' = fds w \<and> gl w' = gl w"

lemma wf_faults [simp]: "wf_world (w\<lparr>faults := l\<rparr>) = wf_world w"
  by (simp add: wf_world_def)

lemma wf_next [simp]: "wf_world w \<Longrightarrow> 0 \<le> n \<Longrightarrow> wf_world (w\<lparr>next_fd := next_fd w + n\<rparr>)"
  using wf_used [of w n] by (simp add: used_def)

end
