(* ===== verification/Samples.thy ===== *)
theory Samples
  imports NvTypes Running
begin

text \<open>
  Concrete platforms and worlds: \<open>P0\<close> is a device with two common files and one custom file,
  \<open>P0_signed\<close> the same on a target whose \<open>char\<close> is signed, and \<open>disk fl\<close> a freshly booted
  system whose regular files and directories are listed.  The instances of the properties are
  stated over them.
\<close>

definition e_ver :: tcfg_file where
  "e_ver = \<lparr>cFileName = ''/nvdata/FILE_VER'', cFileVer = ''000'' @ [CHR 0x00], i4RecSize = 8, i4RecNum = 1,
     stDefualType = DEFAULT_ZERO, pDefualtVaule = None, bDataProcessingType = 0, NVM_DataConvertFunc = None\<rparr>"

definition e_wifi :: tcfg_file where
  "e_wifi = \<lparr>cFileName = ''/nvdata/WIFI'', cFileVer = ''001'' @ [CHR 0x00], i4RecSize = 4, i4RecNum = 2,
     stDefualType = SIGNLE_DEFUALT_REC, pDefualtVaule = Some ''abcdefgh'', bDataProcessingType = 1,
     NVM_DataConvertFunc = None\<rparr>"

definition e_bt :: tcfg_file where
  "e_bt = \<lparr>cFileName = ''/nvdata/BT_Addr'', cFileVer = ''002'' @ [CHR 0x00], i4RecSize = 3, i4RecNum = 2,
     stDefualType = MULTIPLE_DEFUALT_REC, pDefualtVaule = Some ''xyzuvw'', bDataProcessingType = 0,
     NVM_DataConvertFunc = None\<rparr>"

definition P0 :: plat where
  "P0 = \<lparr>g_akCFG_File = [e_ver, e_wifi], g_akCFG_File_Custom = [e_bt], iCustomBeginLID = 2,
     iFileVerInfoLID = 0, iNvRamFileMaxLID = 3, aBackupToBinRegion = [(''WIFI'', 1)],
     aPerformance = [(''BT_Addr'', 2)], g_new_nvram_lid = [], md5_support = False, evdo_support = False,
     ecci_c2k_support = False, emmc_support = True, ufs_support = False, new_partition_support = True,
     platform_callback = \<lparr>log_block = 2, resv_block = 1, DM_block = 1, layout_version = 1, header_offset = 0\<rparr>,
     multi_storage = None, fstab_of = (\<lambda>_. None), ro_hardware = ''mt6735'', misc_log_block_offset = 1,
     AID_ROOT = 0, AID_SYSTEM = 1000, AID_RADIO = 1001, AID_BLUETOOTH = 1002, AID_AUDIO = 1005,
     char_signed = False, auto_backup = True, fresh_byte = (\<lambda>_. CHR 0x55)\<rparr>"

definition P0_signed :: plat where
  "P0_signed = P0\<lparr>char_signed := True\<rparr>"

definition g0 :: nv_globals where
  "g0 = \<lparr>g_LOG_DEVICE = ''/dev/log'', g_MISC_DEVICE = ''/dev/misc'', g_NVRAM_BACKUP_DEVICE = ''/dev/nvram'',
     g_NVRAM_PROINFO_DEVICE = ''/dev/pro_info'', g_NVRAM_NVDATA_DEVICE = ''/nvdata'', gFileStartAddr = 0,
     g_i4MaxNvRamLid = 3, NvRamBlockNum = 8, nvram_platform_log_block = 2, nvram_platform_resv_block = 1,
     nvram_platform_DM_block = 1, nvram_platform_layout_version = 1, nvram_platform_header_offset = 0,
     nvram_init_flag = True, nvram_gpt_flag = 1, BinRegionBlockTotalNum = 0,
     stBackupFileInfo = \<lparr>bi_ulCheckSum = 0, bi_iCommonFileNum = 0, bi_iCustomFileNum = 0\<rparr>,
     gFileNameArray = None\<rparr>"

definition reg :: "bytes \<Rightarrow> inode" where
  "reg d = \<lparr>ikind = Reg, idata = d, iuid = 0, igid = 0, iperm = mode660\<rparr>"

definition blk :: "bytes \<Rightarrow> inode" where
  "blk d = \<lparr>ikind = Blk, idata = d, iuid = 0, igid = 0, iperm = mode660\<rparr>"

definition disk :: "(path \<times> inode) list \<Rightarrow> nv_globals world" where
  "disk fl = \<lparr>fs = map_of ((''/nvdata'', new_inode Dir mode771) # fl), fds = (\<lambda>_. None), next_fd = 3, faults = [],
     locks = {}, heap = 0, ubs = [], clock = 1000, mtd = (\<lambda>_. None), gl = g0\<rparr>"

lemma wf_disk [simp]: "wf_world (disk fl)"
  by (simp add: disk_def wf_world_def)

lemma disk_sel [simp]:
  "faults (disk fl) = []" "locks (disk fl) = {}" "gl (disk fl) = g0" "ubs (disk fl) = []" "heap (disk fl) = 0"
  "next_fd (disk fl) = 3" "fds (disk fl) = (\<lambda>_. None)" "clock (disk fl) = 1000"
  "fs (disk fl) = map_of ((''/nvdata'', new_inode Dir mode771) # fl)"
  by (simp_all add: disk_def)

lemma reg_sel [simp]: "ikind (reg d) = Reg" "idata (reg d) = d"
  by (simp_all add: reg_def)

lemma blk_sel [simp]: "ikind (blk d) = Blk" "idata (blk d) = d"
  by (simp_all add: blk_def)

lemma P0_char [simp]: "char_signed P0 = False" "char_signed P0_signed = True"
  by (simp_all add: P0_def P0_signed_def)

lemma P0_ok [simp]: "plat_ok P0" "plat_ok P0_signed"
  by (simp_all add: P0_signed_def plat_ok_def P0_def all_files_def entry_ok_def e_ver_def e_wifi_def e_bt_def no_nul_def
      after_last_slash_def)

end
