(* ===== verification/Device.thy ===== *)
theory Device
  imports NvTypes Faulty Samples
begin

text \<open>
  Devices and directories: \<open>NVM_GetDeviceInfo\<close>, \<open>NVM_EraseDeviceBlock\<close> and
  \<open>open_file_with_dirs\<close> of \<open>nvram/libnvram.c\<close>, the last of which creates the missing
  directories of a path and hands the file to the right group.
\<close>

section \<open>Raw devices\<close>

text \<open>The name a component copies into its 128-byte buffer before it opens a device.\<close>

definition dev_name :: "string \<Rightarrow> path" where
  "dev_name s = cstr (snprintf_s 128 s)"

lemma dev_name_short [simp]: "no_nul s \<Longrightarrow> length s < 128 \<Longrightarrow> dev_name s = s"
  by (simp add: dev_name_def cstr_snprintf_s)

definition NVM_GetDeviceInfo :: "path \<Rightarrow> mtd_info option nv" where
  "NVM_GetDeviceInfo path = do {
     fd \<leftarrow> sys_open path [O_RDWR] 0;
     if fd < 0 then ret None
     else do {
       gpt \<leftarrow> getg nvram_gpt_flag;
       if gpt = 1
       then do {
         size \<leftarrow> sys_lseek fd 0 SEEK_END;
         _ \<leftarrow> sys_close fd;
         ret (Some \<lparr>mi_size = of_int size, mi_erasesize = 128 * 1024, mi_writesize = 512\<rparr>) }
       else do {
         r \<leftarrow> sys_memgetinfo fd;
         _ \<leftarrow> sys_close fd;
         ret r } } }"

definition NVM_EraseDeviceBlock :: "path \<Rightarrow> u32 \<Rightarrow> u32 \<Rightarrow> bool nv" where
  "NVM_EraseDeviceBlock path start len = do {
     fd \<leftarrow> sys_open path [O_RDWR] 0;
     if fd < 0 then ret False
     else do {
       iRet \<leftarrow> sys_memerase fd start len;
       if iRet < 0 then do { _ \<leftarrow> sys_close fd; ret False }
       else do { _ \<leftarrow> sys_close fd; ret True } } }"

section \<open>Opening a file and its directories\<close>

definition path_group :: "plat \<Rightarrow> path \<Rightarrow> nat" where
  "path_group P tmp = (if strstr tmp ''/media'' then AID_AUDIO P
     else if strstr tmp ''BT_Addr'' then AID_BLUETOOTH P else AID_SYSTEM P)"

text \<open>The scan of the path: \<open>tmp\<close> is what has been copied; \<open>False\<close> is a failed \<open>mkdir\<close>.\<close>

fun make_dirs :: "plat \<Rightarrow> string \<Rightarrow> string \<Rightarrow> bool nv" where
  "make_dirs P tmp [] = ret True"
| "make_dirs P tmp (c # fn) =
     (if c = CHR ''/'' \<and> tmp \<noteq> []
      then do {
        a \<leftarrow> sys_access tmp;
        if a \<noteq> 0
        then do {
          m \<leftarrow> sys_mkdir tmp mode771;
          if m = Some False then ret False
          else do {
            info \<leftarrow> sys_stat tmp;
            _ \<leftarrow> (case info of None \<Rightarrow> ret 0 | Some _ \<Rightarrow> sys_chown tmp None (Some (path_group P tmp)));
            make_dirs P (tmp @ [c]) fn } }
        else make_dirs P (tmp @ [c]) fn }
      else make_dirs P (tmp @ [c]) fn)"

definition open_file_with_dirs :: "plat \<Rightarrow> path \<Rightarrow> oflag list \<Rightarrow> nat \<Rightarrow> int nv" where
  "open_file_with_dirs P fn flag mode = do {
     check (length fn < 4096) OutOfBounds;
     mutex_lock dirlock;
     ok \<leftarrow> make_dirs P [] fn;
     if \<not> ok then do { mutex_unlock dirlock; ret (-1) }
     else do {
       filedesc \<leftarrow> sys_open fn flag mode;
       _ \<leftarrow> (if filedesc \<noteq> -1
        then do {
          info \<leftarrow> sys_stat fn;
          case info of None \<Rightarrow> ret 0
          | Some i \<Rightarrow> do {
              _ \<leftarrow> sys_chown fn None (Some (path_group P fn));
              if ikind i \<noteq> Dir then sys_chmod fn mode else ret 0 } }
        else ret 0);
       mutex_unlock dirlock;
       ret filedesc } }"

section \<open>Resources\<close>

lemma neutral_GetDeviceInfo: "neutral {} (NVM_GetDeviceInfo p)"
  by (rule neutralI) (auto simp: NVM_GetDeviceInfo_def intro!: rs)

lemma neutral_EraseDeviceBlock: "neutral {} (NVM_EraseDeviceBlock p a b)"
  by (rule neutralI) (auto simp: NVM_EraseDeviceBlock_def intro!: rs)

lemma rs_make_dirs:
  assumes "\<And>r. Q r A" shows "rspec A (make_dirs P tmp fn) Q"
  using assms by (induction P tmp fn rule: make_dirs.induct) (auto intro!: rs)

text \<open>As a resource, \<open>open_file_with_dirs\<close> is \<open>open\<close>.\<close>

lemma rs_open_file_with_dirs [rs]:
  assumes "dirlock \<notin> rlocks A" and "Q (-1) A"
    and "\<And>fd. 0 < fd \<Longrightarrow> fd \<notin> rfds A \<Longrightarrow> Q fd (A\<lparr>rfds := insert fd (rfds A)\<rparr>)"
  shows "rspec A (open_file_with_dirs P fn fl md) Q"
proof -
  have l: "A\<lparr>rlocks := rlocks A\<rparr> = A" by (cases A) simp
  show ?thesis
    unfolding open_file_with_dirs_def
    using assms by (auto intro!: rs rs_make_dirs simp: l)
qed

section \<open>What is created\<close>

text \<open>The directories a path goes through.\<close>

fun dir_prefixes :: "string \<Rightarrow> string \<Rightarrow> path list" where
  "dir_prefixes tmp [] = []"
| "dir_prefixes tmp (c # fn) =
     (if c = CHR ''/'' \<and> tmp \<noteq> [] then [tmp] else []) @ dir_prefixes (tmp @ [c]) fn"

definition is_dir :: "(path \<Rightarrow> inode option) \<Rightarrow> path \<Rightarrow> bool" where
  "is_dir f q \<longleftrightarrow> (case f q of None \<Rightarrow> False | Some n \<Rightarrow> ikind n = Dir)"

lemma parent_dir_snoc [simp]:
  "parent_dir (p @ [c]) = (if c = CHR ''/'' then p else parent_dir p)"
  by (simp add: parent_dir_def)

lemma parent_dir_Nil [simp]: "parent_dir [] = []"
  by (simp add: parent_dir_def)

lemma dir_exists_upd: "dir_exists f d \<Longrightarrow> ikind n = Dir \<Longrightarrow> dir_exists (f(q \<mapsto> n)) d"
  by (simp add: dir_exists_def)

lemma run_make_dir:
  assumes "faults w = []" and "dir_exists (fs w) (parent_dir tmp)" and "fs w tmp = None \<or> is_dir (fs w) tmp"
    and "tmp \<noteq> []"
  obtains n where "ikind n = Dir"
    and "run_state (make_dirs P tmp (CHR ''/'' # fn)) w =
      run_state (make_dirs P (tmp @ ''/'') fn) (w\<lparr>fs := (fs w)(tmp \<mapsto> n)\<rparr>)"
proof (cases "fs w tmp")
  case None
  have d: "ikind ((new_inode Dir mode771)\<lparr>igid := path_group P tmp\<rparr>) = Dir"
    by (simp add: new_inode_def)
  show ?thesis
    by (rule that [OF d])
       (use None assms in \<open>simp add: run sys_mkdir_def sys_chown_def new_inode_def\<close>)
next
  case (Some n)
  then show ?thesis
    using assms by (intro that [of n]) (auto simp: run is_dir_def fun_upd_idem)
qed

lemma run_make_dirs:
  assumes "faults w = []" and "dir_exists (fs w) (parent_dir tmp)"
    and "\<forall>q \<in> set (dir_prefixes tmp fn). fs w q = None \<or> is_dir (fs w) q"
  shows "\<exists>f. run_state (make_dirs P tmp fn) w = (True, w\<lparr>fs := f\<rparr>) \<and>
    (\<forall>q \<in> set (dir_prefixes tmp fn). is_dir f q) \<and>
    (\<forall>q. q \<notin> set (dir_prefixes tmp fn) \<longrightarrow> f q = fs w q) \<and> dir_exists f (parent_dir (tmp @ fn))"
  using assms
proof (induction fn arbitrary: tmp w)
  case Nil
  then show ?case by (intro exI [of _ "fs w"]) simp
next
  case (Cons c fn)
  show ?case
  proof (cases "c = CHR ''/'' \<and> tmp \<noteq> []")
    case False
    then have "dir_exists (fs w) (parent_dir (tmp @ [c]))"
      using Cons.prems(2) by (auto simp: dir_exists_def)
    with False Cons.prems Cons.IH [of w "tmp @ [c]"] show ?thesis by auto
  next
    case True
    then have h: "fs w tmp = None \<or> is_dir (fs w) tmp" using Cons.prems(3) by simp
    obtain n where n: "ikind n = Dir"
      and r: "run_state (make_dirs P tmp (CHR ''/'' # fn)) w =
        run_state (make_dirs P (tmp @ ''/'') fn) (w\<lparr>fs := (fs w)(tmp \<mapsto> n)\<rparr>)"
      by (rule run_make_dir [OF Cons.prems(1,2) h, of P fn]) (use True in blast)+
    let ?S = "set (dir_prefixes (tmp @ ''/'') fn)"
    have "\<forall>q \<in> ?S. ((fs w)(tmp \<mapsto> n)) q = None \<or> is_dir ((fs w)(tmp \<mapsto> n)) q"
      using Cons.prems(3) True n by (auto simp: is_dir_def)
    moreover have "dir_exists ((fs w)(tmp \<mapsto> n)) (parent_dir (tmp @ ''/''))"
      using n by (simp add: dir_exists_def)
    ultimately obtain f where
      f: "run_state (make_dirs P (tmp @ ''/'') fn) (w\<lparr>fs := (fs w)(tmp \<mapsto> n)\<rparr>) = (True, w\<lparr>fs := f\<rparr>)"
        "\<forall>q \<in> ?S. is_dir f q" "\<forall>q. q \<notin> ?S \<longrightarrow> f q = ((fs w)(tmp \<mapsto> n)) q"
        "dir_exists f (parent_dir ((tmp @ ''/'') @ fn))"
      using Cons.IH [of "w\<lparr>fs := (fs w)(tmp \<mapsto> n)\<rparr>" "tmp @ ''/''"] Cons.prems(1)
      by (auto simp: fun_upd_def)
    have "is_dir f tmp"
      using f(2,3) n by (cases "tmp \<in> ?S") (simp_all add: is_dir_def)
    then show ?thesis
      using True f r by (intro exI [of _ f]) (simp del: make_dirs.simps)
  qed
qed

lemma dir_prefixes_longer: "q \<in> set (dir_prefixes tmp fn) \<Longrightarrow> length q < length tmp + length fn"
  by (induction tmp fn rule: dir_prefixes.induct) (fastforce split: if_splits)+

lemma not_own_prefix: "fn \<notin> set (dir_prefixes [] fn)"
  using dir_prefixes_longer [of fn "[]" fn] by auto

lemma open_new_file:
  assumes "wf_world w" and "faults w = []" and "dirlock \<notin> locks w" and "length fn < 4096"
    and "O_CREAT \<in> set fl" and "fs w fn = None"
    and "\<forall>q \<in> set (dir_prefixes [] fn). fs w q = None \<or> is_dir (fs w) q"
  obtains f where
    "run_state (open_file_with_dirs P fn fl md) w =
       (next_fd w, w\<lparr>fs := f, fds := (fds w)(next_fd w \<mapsto> new_fd fn fl), next_fd := next_fd w + 1\<rparr>)"
    and "f fn = Some \<lparr>ikind = Reg, idata = [], iuid = 0, igid = path_group P fn, iperm = md\<rparr>"
    and "\<forall>q \<in> set (dir_prefixes [] fn). is_dir f q"
    and "\<forall>q. q \<noteq> fn \<and> q \<notin> set (dir_prefixes [] fn) \<longrightarrow> f q = fs w q"
proof -
  let ?w = "w\<lparr>locks := insert dirlock (locks w)\<rparr>"
  obtain f where f: "run_state (make_dirs P [] fn) ?w = (True, ?w\<lparr>fs := f\<rparr>)"
      "\<forall>q \<in> set (dir_prefixes [] fn). is_dir f q" "\<forall>q. q \<notin> set (dir_prefixes [] fn) \<longrightarrow> f q = fs w q"
      "dir_exists f (parent_dir fn)"
    using run_make_dirs [of ?w "[]" fn P] assms(2,7) by (auto simp: dir_exists_def)
  have n: "f fn = None" using f(3) not_own_prefix assms(6) by simp
  have ne: "\<forall>q \<in> set (dir_prefixes [] fn). q \<noteq> fn"
    using not_own_prefix by auto
  let ?i = "\<lparr>ikind = Reg, idata = [], iuid = 0, igid = path_group P fn, iperm = md\<rparr>"
  have r: "run_state (open_file_with_dirs P fn fl md) w =
      (next_fd w, w\<lparr>fs := f(fn \<mapsto> ?i), fds := (fds w)(next_fd w \<mapsto> new_fd fn fl), next_fd := next_fd w + 1\<rparr>)"
    using assms(1-5) f(1,4) n
    by (simp add: open_file_with_dirs_def run sys_chown_def sys_chmod_def new_inode_def)
  show ?thesis
    by (rule that [OF r]) (use f(2,3) ne in \<open>simp_all add: is_dir_def\<close>)
qed

text \<open>Opened with \<open>O_CREAT\<close> and \<open>O_TRUNC\<close>, a file is empty whether or not it existed.\<close>

lemma open_truncated:
  assumes "wf_world w" and "faults w = []" and "dirlock \<notin> locks w" and "length fn < 4096"
    and "O_CREAT \<in> set fl" and "O_TRUNC \<in> set fl" and "fs w fn = None \<or> (\<exists>j. fs w fn = Some j \<and> ikind j = Reg)"
    and "\<forall>q \<in> set (dir_prefixes [] fn). fs w q = None \<or> is_dir (fs w) q"
  obtains f i where
    "run_state (open_file_with_dirs P fn fl md) w =
       (next_fd w, w\<lparr>fs := f, fds := (fds w)(next_fd w \<mapsto> new_fd fn fl), next_fd := next_fd w + 1\<rparr>)"
    and "f fn = Some i" and "ikind i = Reg" and "idata i = []"
    and "\<forall>q \<in> set (dir_prefixes [] fn). is_dir f q"
    and "\<forall>q. q \<noteq> fn \<and> q \<notin> set (dir_prefixes [] fn) \<longrightarrow> f q = fs w q"
proof (cases "fs w fn")
  case None
  show ?thesis
    by (rule open_new_file [OF assms(1-5) None assms(8), of P md]) (rule that, auto)
next
  case (Some j)
  then have j: "ikind j = Reg" using assms(7) by auto
  let ?w = "w\<lparr>locks := insert dirlock (locks w)\<rparr>"
  obtain f where f: "run_state (make_dirs P [] fn) ?w = (True, ?w\<lparr>fs := f\<rparr>)"
      "\<forall>q \<in> set (dir_prefixes [] fn). is_dir f q" "\<forall>q. q \<notin> set (dir_prefixes [] fn) \<longrightarrow> f q = fs w q"
    using run_make_dirs [of ?w "[]" fn P] assms(2,8) by (auto simp: dir_exists_def)
  have n: "f fn = Some j" using f(3) not_own_prefix Some by simp
  have ne: "\<forall>q \<in> set (dir_prefixes [] fn). q \<noteq> fn"
    using not_own_prefix by auto
  let ?i = "j\<lparr>idata := [], igid := path_group P fn, iperm := md\<rparr>"
  have r: "run_state (open_file_with_dirs P fn fl md) w =
      (next_fd w, w\<lparr>fs := f(fn \<mapsto> ?i), fds := (fds w)(next_fd w \<mapsto> new_fd fn fl), next_fd := next_fd w + 1\<rparr>)"
    using assms(1-6) f(1) n j
    by (simp add: open_file_with_dirs_def run sys_chown_def sys_chmod_def)
  show ?thesis
    by (rule that [OF r, of ?i]) (use f(2,3) ne j in \<open>simp_all add: is_dir_def\<close>)
qed

text \<open>
  Opening a new file through \<open>open_file_with_dirs\<close> makes every directory on its path, creates
  the file empty with the requested permission bits and the group of its kind, returns a fresh
  descriptor for it, releases \<open>dirlock\<close> and touches no other file.
\<close>

theorem open_file_with_dirs_creates:
  assumes "wf_world w" and "faults w = []" and "dirlock \<notin> locks w" and "length fn < 4096"
    and "O_CREAT \<in> set fl" and "fs w fn = None"
    and "\<forall>q \<in> set (dir_prefixes [] fn). fs w q = None \<or> is_dir (fs w) q"
  shows "let (fd, w') = run_state (open_file_with_dirs P fn fl md) w in
    fd = next_fd w \<and> fds w' = (fds w)(fd \<mapsto> new_fd fn fl) \<and> locks w' = locks w \<and> ubs w' = ubs w \<and>
    fs w' fn = Some \<lparr>ikind = Reg, idata = [], iuid = 0, igid = path_group P fn, iperm = md\<rparr> \<and>
    (\<forall>q \<in> set (dir_prefixes [] fn). is_dir (fs w') q) \<and>
    (\<forall>q. q \<noteq> fn \<and> q \<notin> set (dir_prefixes [] fn) \<longrightarrow> fs w' q = fs w q)"
  by (rule open_new_file [OF assms, of P md]) (simp add: Let_def)

theorem open_file_with_dirs_creates_witness:
  "fst (run_state (open_file_with_dirs P0 ''/nvdata/media/x'' [O_CREAT, O_RDWR] mode660) (disk [])) = 3 \<and>
   is_dir (fs (snd (run_state (open_file_with_dirs P0 ''/nvdata/media/x'' [O_CREAT, O_RDWR] mode660) (disk []))))
     ''/nvdata/media''"
  using open_file_with_dirs_creates [of "disk []" "''/nvdata/media/x''" "[O_CREAT, O_RDWR]" P0 mode660]
  by (simp add: case_prod_unfold Let_def is_dir_def new_inode_def)

end
