(* ===== verification/FileVer.thy ===== *)
theory FileVer
  imports Device
begin

text \<open>
  The version file (\<open>NVM_GenerateFileVer\<close>, \<open>NVM_CheckVerFile\<close>, \<open>NVM_UpdateFileVerNo\<close>,
  \<open>NVM_CmpFileVerNo\<close> of \<open>nvram/libnvram.c\<close>): a header record \<open>NVRAM_VER_INFO\<close> and then one
  record of a 70-byte name and a 4-byte version for each file, in the order of the lids.  Files
  written by older releases have bare 4-byte versions; the code still reads and changes those.
\<close>

section \<open>Records\<close>

text \<open>The base name that the code copies into a zeroed array of \<open>FILENAMELENGTH\<close> bytes.\<close>

definition base_name :: "tcfg_file \<Rightarrow> string" where
  "base_name e = (case after_last_slash (cFileName e) of None \<Rightarrow> [] | Some b \<Rightarrow> take 69 b)"

definition name_field :: "tcfg_file \<Rightarrow> bytes" where
  "name_field e = zpad FILENAMELENGTH (base_name e)"

text \<open>An \<open>int\<close> variable that was never assigned.\<close>

definition junk_int :: "plat \<Rightarrow> int" where
  "junk_int P = sint (un32 (garbage P 4))"

text \<open>
  \<open>iResult = read(fd, tempstr, FILENAMELENGTH-1); tempstr[iResult] = 0\<close>: the string now in
  \<open>tempstr\<close>, which held \<open>old\<close>; after a failed read the store goes to \<open>tempstr[-1]\<close>.
\<close>

definition set_str :: "bytes option \<Rightarrow> string \<Rightarrow> string nv" where
  "set_str r old = do {
     check (r \<noteq> None) OutOfBounds;
     ret (case r of None \<Rightarrow> old | Some b \<Rightarrow> cstr b) }"

definition stat_size :: "plat \<Rightarrow> inode option \<Rightarrow> int nv" where
  "stat_size P st = (case st of
     None \<Rightarrow> do { ub Uninitialised; ret (junk_int P) }
   | Some i \<Rightarrow> ret (to_int32 (st_size i)))"

definition ver_entry :: "plat \<Rightarrow> tcfg_file" where
  "ver_entry P = entry (g_akCFG_File P) (iFileVerInfoLID P)"

text \<open>C division of a size by the record length.\<close>

definition record_count :: "int \<Rightarrow> int" where
  "record_count sz = (if sz < 0 then - (- sz div VERREC) else sz div VERREC)"

section \<open>Generating the file\<close>

primrec write_records :: "int \<Rightarrow> tcfg_file list \<Rightarrow> int \<Rightarrow> nat \<Rightarrow> unit nv" where
  "write_records fd t i 0 = ret ()"
| "write_records fd t i (Suc n) = do {
     check (in_table t i) OutOfBounds;
     _ \<leftarrow> sys_write fd (name_field (entry t i));
     _ \<leftarrow> sys_write fd (cFileVer (entry t i));
     write_records fd t (i + 1) n }"

definition NVM_GenerateFileVer :: "plat \<Rightarrow> bool \<Rightarrow> bool nv" where
  "NVM_GenerateFileVer P CPY_File_To_NVM =
    (if \<not> CPY_File_To_NVM then ret True
     else do {
       mutex_lock generateFileVerlock;
       fd0 \<leftarrow> sys_open (ver_path P) [O_CREAT, O_RDWR] mode664;
       iFileDesc \<leftarrow> (if fd0 = -1 then open_file_with_dirs P (ver_path P) [O_CREAT, O_RDWR] mode664 else ret fd0);
       if iFileDesc = -1 then do { mutex_unlock generateFileVerlock; ret False }
       else do {
         _ \<leftarrow> sys_write iFileDesc (zpad FILENAMELENGTH strVerInfo);
         _ \<leftarrow> sys_write iFileDesc (cFileVer (ver_entry P));
         write_records iFileDesc (g_akCFG_File P) (iFileVerInfoLID P) (nat (iCustomBeginLID P - iFileVerInfoLID P));
         write_records iFileDesc (g_akCFG_File_Custom P) 0
           (nat (int (length (g_akCFG_File P)) + int (length (g_akCFG_File_Custom P)) - iCustomBeginLID P));
         _ \<leftarrow> sys_chown (ver_path P) None (Some (AID_SYSTEM P));
         _ \<leftarrow> sys_chmod (ver_path P) mode664;
         _ \<leftarrow> sys_close iFileDesc;
         mutex_unlock generateFileVerlock;
         ret True } })"

definition NVM_CheckVerFile :: "plat \<Rightarrow> bool \<Rightarrow> bool nv" where
  "NVM_CheckVerFile P In_NVM =
    (if In_NVM
     then do {
       statbuf \<leftarrow> sys_stat (ver_path P);
       ret (case statbuf of None \<Rightarrow> False | Some i \<Rightarrow> ikind i = Reg) }
     else ret True)"

section \<open>Comparing a version\<close>

text \<open>
  The search of \<open>NVM_CmpFileVerNo\<close> through \<open>n\<close> records from record \<open>i\<close>: \<open>None\<close> is a failed seek,
  \<open>Some None\<close> not found, \<open>Some (Some v)\<close> the version read.
\<close>

primrec search_ver :: "int \<Rightarrow> string \<Rightarrow> int \<Rightarrow> string \<Rightarrow> nat \<Rightarrow> bytes option option nv" where
  "search_ver fd tempstr1 i tempstr 0 = ret (Some None)"
| "search_ver fd tempstr1 i tempstr (Suc n) = do {
     l \<leftarrow> sys_lseek fd (i * VERREC) SEEK_SET;
     if l = -1 then ret None
     else do {
       r \<leftarrow> sys_read fd 69;
       name \<leftarrow> set_str r tempstr;
       if name = tempstr1
       then do {
         l2 \<leftarrow> sys_lseek fd (i * VERREC + 70) SEEK_SET;
         if l2 = -1 then ret None
         else do {
           v \<leftarrow> sys_read fd 4;
           ret (Some (Some (rd_buf v (replicate 4 (CHR 0x00))))) } }
       else search_ver fd tempstr1 (i + 1) [] n } }"

text \<open>The version found: \<open>None\<close> when the search gives up and the function returns false.\<close>

definition read_version :: "plat \<Rightarrow> int \<Rightarrow> int \<Rightarrow> string \<Rightarrow> bytes option nv" where
  "read_version P fd file_lid tempstr1 = do {
     r \<leftarrow> sys_read fd 69;
     tempstr \<leftarrow> set_str r [];
     if tempstr = strVerInfo
     then do {
       l \<leftarrow> sys_lseek fd ((file_lid + 1) * VERREC) SEEK_SET;
       if l = -1 then ret None
       else do {
         r1 \<leftarrow> sys_read fd 69;
         name \<leftarrow> set_str r1 [];
         if name = tempstr1
         then do {
           l1 \<leftarrow> sys_lseek fd ((file_lid + 1) * VERREC + 70) SEEK_SET;
           if l1 = -1 then ret None
           else do { v \<leftarrow> sys_read fd 4; ret (Some (rd_buf v (replicate 4 (CHR 0x00)))) } }
         else do {
           st \<leftarrow> sys_fstat fd;
           iFileSize \<leftarrow> stat_size P st;
           found \<leftarrow> search_ver fd tempstr1 0 name (nat (record_count iFileSize));
           ret (case found of None \<Rightarrow> None | Some None \<Rightarrow> None | Some (Some v) \<Rightarrow> Some v) } } }
     else do {
       l \<leftarrow> sys_lseek fd (file_lid * 4) SEEK_SET;
       if l = -1 then ret None
       else do { v \<leftarrow> sys_read fd 4; ret (Some (rd_buf v (replicate 4 (CHR 0x00)))) } } }"

definition NVM_CmpFileVerNo :: "plat \<Rightarrow> int \<Rightarrow> bool nv" where
  "NVM_CmpFileVerNo P file_lid = (case NVM_GetCfgFileTable P file_lid of
     None \<Rightarrow> ret False
   | Some pCfgFielTable \<Rightarrow> do {
       let iRealFileLid = real_lid P file_lid;
       check (in_table pCfgFielTable iRealFileLid) OutOfBounds;
       let e = entry pCfgFielTable iRealFileLid;
       case after_last_slash (cFileName e) of None \<Rightarrow> ret False
       | Some _ \<Rightarrow> do {
           exists \<leftarrow> NVM_CheckVerFile P True;
           made \<leftarrow> (if exists then ret True else NVM_GenerateFileVer P True);
           if \<not> made then ret False
           else do {
             iFileDesc \<leftarrow> sys_open (ver_path P) [O_RDONLY] 0;
             if iFileDesc = -1 then ret False
             else do {
               v \<leftarrow> read_version P iFileDesc file_lid (base_name e);
               _ \<leftarrow> sys_close iFileDesc;
               ret (case v of None \<Rightarrow> False | Some cFbyte \<Rightarrow> cFileVer e = cFbyte) } } } })"

section \<open>Updating the file\<close>

text \<open>\<open>g_akCFG_File[file_lid]\<close> or \<open>g_akCFG_File_Custom[file_lid - iCustomBeginLID]\<close>.\<close>

definition lid_entry :: "plat \<Rightarrow> int \<Rightarrow> tcfg_file nv" where
  "lid_entry P file_lid =
    (if file_lid < iCustomBeginLID P
     then do { check (in_table (g_akCFG_File P) file_lid) OutOfBounds; ret (entry (g_akCFG_File P) file_lid) }
     else do {
       check (in_table (g_akCFG_File_Custom P) (file_lid - iCustomBeginLID P)) OutOfBounds;
       ret (entry (g_akCFG_File_Custom P) (file_lid - iCustomBeginLID P)) })"

text \<open>The search for the record to update, by name: the index where it stopped.\<close>

primrec find_name :: "int \<Rightarrow> string \<Rightarrow> int \<Rightarrow> string \<Rightarrow> nat \<Rightarrow> int nv" where
  "find_name fd tempstr1 i tempstr 0 = ret i"
| "find_name fd tempstr1 i tempstr (Suc n) = do {
     r \<leftarrow> sys_pread fd 69 (i * VERREC);
     name \<leftarrow> set_str r tempstr;
     if name = tempstr1 then ret i else find_name fd tempstr1 (i + 1) name n }"

text \<open>
  The first part, for \<open>VerUpdate\<close> only: \<open>None\<close> when the function returns false there, else the
  flag to go on with and \<open>offset\<close>.  When the version file cannot be opened, a mutex that is not
  held is unlocked.
\<close>

definition ver_lookup :: "plat \<Rightarrow> int \<Rightarrow> (ver_info_update_flag \<times> int) option nv" where
  "ver_lookup P file_lid = (case NVM_GetCfgFileTable P file_lid of
     None \<Rightarrow> ret None
   | Some pCfgFileTable \<Rightarrow> do {
       let iRealFileLid = real_lid P file_lid;
       check (in_table pCfgFileTable iRealFileLid) OutOfBounds;
       let tempstr1 = base_name (entry pCfgFileTable iRealFileLid);
       iFileDesc \<leftarrow> sys_open (ver_path P) [O_RDONLY] 0;
       if iFileDesc = -1 then do { mutex_unlock generateFileVerlock; ret None }
       else do {
         st \<leftarrow> sys_fstat iFileDesc;
         iFileSize \<leftarrow> stat_size P st;
         let ilooptime = record_count iFileSize;
         iIndex \<leftarrow> find_name iFileDesc tempstr1 0 [] (nat ilooptime);
         _ \<leftarrow> sys_close iFileDesc;
         ret (Some (if iIndex = ilooptime then (VerAdd, iIndex * VERREC) else (VerUpdate, iIndex * VERREC))) } })"

definition put_record :: "plat \<Rightarrow> int \<Rightarrow> bool \<Rightarrow> int \<Rightarrow> int \<Rightarrow> unit nv" where
  "put_record P fd bIsNewVerInfo file_lid offset = do {
     e \<leftarrow> lid_entry P file_lid;
     _ \<leftarrow> (if bIsNewVerInfo then sys_pwrite fd (name_field e) offset else ret 0);
     _ \<leftarrow> sys_pwrite fd (cFileVer e) (offset + 70);
     ret () }"

text \<open>The two buffers of a rewrite: both or neither.\<close>

definition two_buffers :: "int \<Rightarrow> int \<Rightarrow> bool nv" where
  "two_buffers n1 n2 = do {
     b1 \<leftarrow> sys_malloc n1;
     b2 \<leftarrow> sys_malloc n2;
     if b1 \<and> b2 then ret True
     else do {
       (if b1 then sys_free else ret ());
       (if b2 then sys_free else ret ());
       ret False } }"

text \<open>
  The end of a rewrite, entered without the mutex: truncate the file and put back \<open>buffer2\<close>.  The
  descriptor is returned with the mutex held, \<open>None\<close> after an error with everything given back.
\<close>

definition replace_file :: "plat \<Rightarrow> bytes \<Rightarrow> int \<Rightarrow> int option nv" where
  "replace_file P buffer2 nbytes = do {
     mutex_lock generateFileVerlock;
     fd \<leftarrow> sys_open (ver_path P) [O_TRUNC, O_RDWR] 0;
     if fd = -1 then do { sys_free; sys_free; mutex_unlock generateFileVerlock; ret None }
     else do {
       iResult \<leftarrow> sys_pwrite fd buffer2 0;
       if iResult \<noteq> nbytes
       then do { _ \<leftarrow> sys_close fd; sys_free; sys_free; mutex_unlock generateFileVerlock; ret None }
       else do { sys_free; sys_free; ret (Some fd) } } }"

definition ver_delete :: "plat \<Rightarrow> int \<Rightarrow> bool \<Rightarrow> int \<Rightarrow> int option nv" where
  "ver_delete P iFileDesc bIsNewVerInfo file_lid = do {
     st \<leftarrow> sys_stat (ver_path P);
     case st of None \<Rightarrow> do { _ \<leftarrow> sys_close iFileDesc; mutex_unlock generateFileVerlock; ret None }
     | Some st \<Rightarrow> do {
       let iFileSize = to_int32 (st_size st);
       let rlen = (if bIsNewVerInfo then VERREC else 4);
       let gone = (if bIsNewVerInfo then file_lid + 1 else file_lid);
       ok \<leftarrow> two_buffers iFileSize (iFileSize - rlen);
       if \<not> ok then do { _ \<leftarrow> sys_close iFileDesc; mutex_unlock generateFileVerlock; ret None }
       else do {
         r \<leftarrow> sys_pread iFileDesc (nat iFileSize) 0;
         if rd_len r \<noteq> st_size st
         then do { sys_free; sys_free; _ \<leftarrow> sys_close iFileDesc; mutex_unlock generateFileVerlock; ret None }
         else do {
           _ \<leftarrow> sys_close iFileDesc;
           mutex_unlock generateFileVerlock;
           check (0 \<le> gone \<and> (gone + 1) * rlen \<le> iFileSize) OutOfBounds;
           let buffer1 = the r;
           let buffer2 = take (nat (gone * rlen)) buffer1 @ drop (nat ((gone + 1) * rlen)) buffer1;
           replace_file P buffer2 (iFileSize - rlen) } } } }"

definition ver_add :: "plat \<Rightarrow> int \<Rightarrow> bool \<Rightarrow> int \<Rightarrow> int option nv" where
  "ver_add P iFileDesc bIsNewVerInfo file_lid = do {
     st \<leftarrow> sys_stat (ver_path P);
     case st of None \<Rightarrow> do { _ \<leftarrow> sys_close iFileDesc; mutex_unlock generateFileVerlock; ret None }
     | Some st \<Rightarrow> do {
       let iFileSize = to_int32 (st_size st);
       let rlen = (if bIsNewVerInfo then VERREC else 4);
       let slot = (if bIsNewVerInfo then file_lid + 1 else file_lid);
       if slot * rlen \<ge> iFileSize
       then do { put_record P iFileDesc bIsNewVerInfo file_lid (slot * rlen); ret (Some iFileDesc) }
       else do {
         ok \<leftarrow> two_buffers iFileSize (iFileSize + rlen);
         if \<not> ok then do { _ \<leftarrow> sys_close iFileDesc; mutex_unlock generateFileVerlock; ret None }
         else do {
           _ \<leftarrow> sys_close iFileDesc;
           mutex_unlock generateFileVerlock;
           mutex_lock generateFileVerlock;
           fd \<leftarrow> sys_open (ver_path P) [O_RDWR] 0;
           if fd = -1 then do { mutex_unlock generateFileVerlock; sys_free; sys_free; ret None }
           else do {
             r \<leftarrow> sys_pread fd (nat iFileSize) 0;
             if rd_len r \<noteq> iFileSize
             then do { sys_free; sys_free; _ \<leftarrow> sys_close fd; mutex_unlock generateFileVerlock; ret None }
             else do {
               _ \<leftarrow> sys_close fd;
               mutex_unlock generateFileVerlock;
               check (0 \<le> slot) OutOfBounds;
               e \<leftarrow> lid_entry P file_lid;
               let buffer1 = the r;
               let new = (if bIsNewVerInfo then name_field e @ cFileVer e else cFileVer e);
               let buffer2 = take (nat (slot * rlen)) buffer1 @ new @ drop (nat (slot * rlen)) buffer1;
               replace_file P buffer2 (iFileSize + rlen) } } } } } }"

definition NVM_UpdateFileVerNo :: "plat \<Rightarrow> int \<Rightarrow> ver_info_update_flag \<Rightarrow> bool nv" where
  "NVM_UpdateFileVerNo P file_lid UpdateFlag = do {
     start \<leftarrow> (if UpdateFlag = VerUpdate then ver_lookup P file_lid else ret (Some (UpdateFlag, 0)));
     case start of None \<Rightarrow> ret False
     | Some (flag, offset) \<Rightarrow> do {
       mutex_lock generateFileVerlock;
       iFileDesc \<leftarrow> sys_open (ver_path P) [O_RDWR] 0;
       if iFileDesc = -1 then do { mutex_unlock generateFileVerlock; ret False }
       else do {
         r \<leftarrow> sys_pread iFileDesc 69 0;
         tempstr \<leftarrow> set_str r [];
         let bIsNewVerInfo = (tempstr = strVerInfo);
         fd \<leftarrow> (case flag of
             VerUpdate \<Rightarrow> do {
               put_record P iFileDesc bIsNewVerInfo file_lid
                 (if bIsNewVerInfo then offset else file_lid * 4);
               ret (Some iFileDesc) }
           | VerDel \<Rightarrow> ver_delete P iFileDesc bIsNewVerInfo file_lid
           | VerAdd \<Rightarrow> ver_add P iFileDesc bIsNewVerInfo file_lid);
         case fd of None \<Rightarrow> ret False
         | Some fd \<Rightarrow> do { _ \<leftarrow> sys_close fd; mutex_unlock generateFileVerlock; ret True } } } }"

section \<open>Resources\<close>

lemma rs_set_str [rs]: "(\<And>r. Q r A) \<Longrightarrow> rspec A (set_str b old) Q"
  by (auto simp: set_str_def intro!: rs)

lemma rs_stat_size [rs]: "(\<And>r. Q r A) \<Longrightarrow> rspec A (stat_size P st) Q"
  by (auto simp: stat_size_def intro!: rs)

lemma rs_write_records: "(\<And>r. Q r A) \<Longrightarrow> rspec A (write_records fd t i n) Q"
  by (induction n arbitrary: i) (auto intro!: rs)

lemma rs_search_ver: "(\<And>r. Q r A) \<Longrightarrow> rspec A (search_ver fd nm i old n) Q"
  by (induction n arbitrary: i old) (auto intro!: rs)

lemma rs_find_name: "(\<And>r. Q r A) \<Longrightarrow> rspec A (find_name fd nm i old n) Q"
  by (induction n arbitrary: i old) (auto intro!: rs)

lemma rs_put_record: "(\<And>r. Q r A) \<Longrightarrow> rspec A (put_record P fd new lid off) Q"
  by (auto simp: put_record_def lid_entry_def intro!: rs)

lemma rs_read_version: "(\<And>r. Q r A) \<Longrightarrow> rspec A (read_version P fd lid nm) Q"
  by (auto simp: read_version_def intro!: rs rs_search_ver)

lemma neutral_GenerateFileVer: "neutral {generateFileVerlock, dirlock} (NVM_GenerateFileVer P b)"
  by (rule neutralI) (auto simp: NVM_GenerateFileVer_def intro!: rs rs_write_records)

lemma neutral_CheckVerFile: "neutral {} (NVM_CheckVerFile P b)"
  by (rule neutralI) (auto simp: NVM_CheckVerFile_def intro!: rs)

lemma neutral_CmpFileVerNo: "neutral {generateFileVerlock, dirlock} (NVM_CmpFileVerNo P lid)"
  by (rule neutralI)
     (auto simp: NVM_CmpFileVerNo_def intro!: rs rs_read_version neutral_rs [OF neutral_CheckVerFile]
        neutral_rs [OF neutral_GenerateFileVer])

lemma neutral_ver_lookup: "neutral {generateFileVerlock} (ver_lookup P lid)"
  by (rule neutralI) (auto simp: ver_lookup_def intro!: rs rs_find_name)

text \<open>The rewriting parts take over the descriptor and the mutex.\<close>

lemma rs_two_buffers [rs]:
  "Q False A \<Longrightarrow> Q True (A\<lparr>rheap := Suc (Suc (rheap A))\<rparr>) \<Longrightarrow> rspec A (two_buffers m n) Q"
  by (auto simp: two_buffers_def intro!: rs)

lemma rs_replace_file:
  assumes "Q None (A\<lparr>rheap := rheap A - Suc (Suc 0)\<rparr>)" and "Suc (Suc 0) \<le> rheap A" and "generateFileVerlock \<notin> rlocks A"
    and "\<And>fd. 0 \<le> fd \<Longrightarrow> fd \<notin> rfds A \<Longrightarrow> Q (Some fd)
      (A\<lparr>rfds := insert fd (rfds A), rheap := rheap A - Suc (Suc 0), rlocks := insert generateFileVerlock (rlocks A)\<rparr>)"
  shows "rspec A (replace_file P buf n) Q"
proof -
  have "A\<lparr>rheap := rheap A - Suc (Suc 0), rbad := rbad A\<rparr> = A\<lparr>rheap := rheap A - Suc (Suc 0)\<rparr>" by simp
  then show ?thesis
    using assms by (auto simp: replace_file_def intro!: rs)
qed

lemma rs_ver_delete:
  assumes "generateFileVerlock \<in> rlocks A" and "fd \<in> rfds A"
    and "Q None (A\<lparr>rfds := rfds A - {fd}, rlocks := rlocks A - {generateFileVerlock}\<rparr>)"
    and "\<And>fd'. 0 \<le> fd' \<Longrightarrow> fd' \<notin> rfds A - {fd} \<Longrightarrow> Q (Some fd') (A\<lparr>rfds := insert fd' (rfds A - {fd})\<rparr>)"
  shows "rspec A (ver_delete P fd new lid) Q"
  using assms by (auto simp: ver_delete_def Let_def insert_absorb intro!: rs rs_replace_file)

lemma rs_ver_add:
  assumes "generateFileVerlock \<in> rlocks A" and "fd \<in> rfds A" and "0 \<le> fd"
    and "Q None (A\<lparr>rfds := rfds A - {fd}, rlocks := rlocks A - {generateFileVerlock}\<rparr>)"
    and "\<And>fd'. 0 \<le> fd' \<Longrightarrow> fd' \<notin> rfds A - {fd} \<Longrightarrow> Q (Some fd') (A\<lparr>rfds := insert fd' (rfds A - {fd})\<rparr>)"
  shows "rspec A (ver_add P fd new lid) Q"
proof -
  have "Q (Some fd) A" using assms(5) [of fd] assms(2,3) by (simp add: insert_absorb)
  then show ?thesis
    using assms by (auto simp: ver_add_def lid_entry_def Let_def insert_absorb intro!: rs rs_replace_file rs_put_record)
qed

lemma neutral_UpdateFileVerNo: "neutral {generateFileVerlock} (NVM_UpdateFileVerNo P lid flag)"
proof (rule neutralI)
  fix A and Q :: "bool \<Rightarrow> res \<Rightarrow> bool"
  assume l: "rlocks A \<inter> {generateFileVerlock} = {}" and Q: "\<And>r. Q r A"
  have look: "\<And>R. (\<And>r. R r A) \<Longrightarrow> rspec A (ver_lookup P lid) R"
    by (rule neutral_rs [OF neutral_ver_lookup]) (use l in simp_all)
  show "rspec A (NVM_UpdateFileVerNo P lid flag) Q"
    unfolding NVM_UpdateFileVerNo_def
    using l Q
    by (cases flag)
       (auto split: ver_info_update_flag.splits intro!: rs look rs_put_record rs_ver_delete rs_ver_add)
qed

end
