(* ===== verification/Blocks.thy ===== *)
theory Blocks
  imports Prelude
begin

text \<open>
  Files made of blocks of equal length: reading, overwriting, inserting and deleting a block of
  \<open>concat bl\<close> in terms of the list \<open>bl\<close>.
\<close>

definition blocks :: "nat \<Rightarrow> bytes list \<Rightarrow> bool" where
  "blocks n bl \<longleftrightarrow> (\<forall>b \<in> set bl. length b = n)"

lemma blocks_simps [simp]:
  "blocks n []" "blocks n (b # bl) \<longleftrightarrow> length b = n \<and> blocks n bl"
  "blocks n (bl @ cl) \<longleftrightarrow> blocks n bl \<and> blocks n cl"
  by (auto simp: blocks_def)

lemma blocks_nth: "blocks n bl \<Longrightarrow> k < length bl \<Longrightarrow> length (bl ! k) = n"
  by (simp add: blocks_def)

lemma blocks_update: "blocks n bl \<Longrightarrow> length b = n \<Longrightarrow> blocks n (bl[k := b])"
  by (auto simp: blocks_def dest!: set_update_subset_insert [THEN subsetD])

lemma blocks_take_drop [simp]: "blocks n bl \<Longrightarrow> blocks n (take k bl)" "blocks n bl \<Longrightarrow> blocks n (drop k bl)"
  by (auto simp: blocks_def dest: in_set_takeD in_set_dropD)

lemma blocks_map [simp]: "blocks n (map f xs) \<longleftrightarrow> (\<forall>x \<in> set xs. length (f x) = n)"
  by (auto simp: blocks_def)

lemma length_concat_blocks: "blocks n bl \<Longrightarrow> length (concat bl) = n * length bl"
  by (induction bl) auto

lemma drop_blocks: "blocks n bl \<Longrightarrow> drop (k * n) (concat bl) = concat (drop k bl)"
proof (induction k arbitrary: bl)
  case (Suc k)
  show ?case
  proof (cases bl)
    case (Cons b cl)
    with Suc show ?thesis by simp
  qed simp
qed simp

lemma take_blocks: "blocks n bl \<Longrightarrow> take (k * n) (concat bl) = concat (take k bl)"
proof (induction k arbitrary: bl)
  case (Suc k)
  show ?case
  proof (cases bl)
    case (Cons b cl)
    with Suc show ?thesis by simp
  qed simp
qed simp

text \<open>Reading \<open>m\<close> bytes from offset \<open>j\<close> of block \<open>k\<close>.\<close>

lemma read_block:
  assumes "blocks n bl" and "k < length bl" and "j + m \<le> n"
  shows "take m (drop (k * n + j) (concat bl)) = take m (drop j (bl ! k))"
proof -
  have "drop (k * n + j) (concat bl) = drop j (concat (drop k bl))"
    using drop_blocks [OF assms(1)] by (metis add.commute drop_drop)
  also have "drop k bl = bl ! k # drop (Suc k) bl"
    using assms(2) by (simp add: Cons_nth_drop_Suc)
  finally show ?thesis
    using assms(3) blocks_nth [OF assms(1,2)] by simp
qed

lemma splice_block:
  assumes "blocks n bl" and "k < length bl" and "j + length x \<le> n"
  shows "splice (k * n + j) x (concat bl) = concat (bl[k := splice j x (bl ! k)])"
proof -
  have b: "length (bl ! k) = n" using blocks_nth [OF assms(1,2)] .
  have s: "concat bl = concat (take k bl) @ bl ! k @ concat (drop (Suc k) bl)"
    using assms(2) by (metis id_take_nth_drop concat_append concat.simps(2))
  have l: "length (concat (take k bl)) = k * n"
    using length_concat_blocks [of n "take k bl"] assms(1,2) by (simp add: min_def mult.commute)
  have d: "drop (k * n + (j + length x)) (concat bl) = drop (j + length x) (bl ! k) @ concat (drop (Suc k) bl)"
    using s l b assms(3) by simp
  have t: "take (k * n + j) (concat bl) = concat (take k bl) @ take j (bl ! k)"
    using s l b assms(3) by simp
  have le: "k * n + j \<le> length (concat bl)"
    using s l b assms(3) by simp
  show ?thesis
    using assms(2,3) b le t d
    by (simp add: splice_take_drop upd_conv_take_nth_drop add.assoc)
qed

lemma splice_block_end:
  assumes "blocks n bl"
  shows "splice (length bl * n) x (concat bl) = concat (bl @ [x])"
  using length_concat_blocks [OF assms] splice_end [of "concat bl" x] by (simp add: mult.commute)

end
