(* ===== verification/VerTable.thy ===== *)
theory VerTable
  imports FileVer Blocks
begin

text \<open>
  The version file as a table: its content is \<open>concat bl\<close> for a list \<open>bl\<close> of records of 74 bytes,
  the header first.  The lemmas give \<open>NVM_GenerateFileVer\<close>, \<open>NVM_CmpFileVerNo\<close> and the three
  modes of \<open>NVM_UpdateFileVerNo\<close> as operations on that list, and the locale \<open>version_store\<close>
  states what the rest of the library relies on.
\<close>

section \<open>Records of the table\<close>

definition rec_name :: "bytes \<Rightarrow> string" where
  "rec_name b = cstr (take 69 b)"

definition rec_ver :: "bytes \<Rightarrow> bytes" where
  "rec_ver b = take 4 (drop 70 b)"

definition mkrec :: "tcfg_file \<Rightarrow> bytes" where
  "mkrec e = name_field e @ cFileVer e"

text \<open>The file \<open>p\<close> is a table with records \<open>bl\<close>, the header first.\<close>

definition ver_table :: "plat \<Rightarrow> 'g world \<Rightarrow> bytes list \<Rightarrow> bool" where
  "ver_table P w bl \<longleftrightarrow> (\<exists>i. fs w (ver_path P) = Some i \<and> ikind i = Reg \<and> idata i = concat bl) \<and>
     blocks VERREC bl \<and> bl \<noteq> [] \<and> rec_name (hd bl) = strVerInfo \<and> length bl * VERREC < 2 ^ 31"

lemma base_name_props:
  assumes "entry_ok e"
  shows "no_nul (base_name e)" and "length (base_name e) \<le> 69"
proof -
  have n: "no_nul (cFileName e)" using assms by (simp add: entry_ok_def)
  have "no_nul (take 69 b)" if "after_last_slash (cFileName e) = Some b" for b
    using no_nul_after_last_slash [OF n that] by (auto simp: no_nul_def dest: in_set_takeD)
  then show "no_nul (base_name e)"
    by (auto simp: base_name_def no_nul_def split: option.split)
  show "length (base_name e) \<le> 69"
    by (auto simp: base_name_def split: option.split)
qed

lemma length_name_field [simp]: "length (name_field e) = 70"
  by (simp add: name_field_def)

lemma length_mkrec [simp]: "entry_ok e \<Longrightarrow> length (mkrec e) = 74"
  by (simp add: mkrec_def entry_ok_def)

lemma rec_ver_mkrec [simp]: "entry_ok e \<Longrightarrow> rec_ver (mkrec e) = cFileVer e"
  by (simp add: rec_ver_def mkrec_def entry_ok_def)

lemma cstr_take_zpad:
  assumes "no_nul s" and "length s \<le> 69"
  shows "cstr (take 69 (zpad 70 s)) = s"
proof (cases "length s = 69")
  case True
  then show ?thesis using assms by (simp add: zpad_def)
next
  case False
  then show ?thesis using assms by (simp add: zpad_def min_def)
qed

lemma rec_name_mkrec [simp]: "entry_ok e \<Longrightarrow> rec_name (mkrec e) = base_name e"
  using base_name_props [of e] by (simp add: rec_name_def mkrec_def name_field_def cstr_take_zpad)

text \<open>The place of a name in a table.\<close>

fun index_of :: "string \<Rightarrow> bytes list \<Rightarrow> nat option" where
  "index_of nm [] = None"
| "index_of nm (b # bl) = (if rec_name b = nm then Some 0 else map_option Suc (index_of nm bl))"

lemma index_of_Some: "index_of nm bl = Some k \<Longrightarrow> k < length bl \<and> rec_name (bl ! k) = nm"
  by (induction bl arbitrary: k) (auto split: if_splits)

lemma index_of_first: "index_of nm bl = Some k \<Longrightarrow> j < k \<Longrightarrow> rec_name (bl ! j) \<noteq> nm"
proof (induction bl arbitrary: k j)
  case (Cons b bl)
  then show ?case by (cases j) (auto split: if_splits)
qed simp

lemma index_of_None: "index_of nm bl = None \<longleftrightarrow> nm \<notin> rec_name ` set bl"
  by (induction bl) auto

lemma index_of_unique:
  "distinct (map rec_name bl) \<Longrightarrow> k < length bl \<Longrightarrow> index_of (rec_name (bl ! k)) bl = Some k"
proof (induction bl arbitrary: k)
  case (Cons b bl)
  then show ?case by (cases k) (auto simp: image_iff dest!: bspec)
qed simp

section \<open>Searching\<close>

lemma run_set_str [run]: "run_state (set_str (Some b) old) w = (cstr b, w)"
  by (simp add: set_str_def run)

lemma run_stat_size [run]: "run_state (stat_size P (Some i)) w = (to_int32 (st_size i), w)"
  by (simp add: stat_size_def)

text \<open>A descriptor open for reading on a table of records.\<close>

definition reads :: "'g world \<Rightarrow> int \<Rightarrow> fdesc \<Rightarrow> inode \<Rightarrow> bytes list \<Rightarrow> bool" where
  "reads w fd d i bl \<longleftrightarrow> faults w = [] \<and> fds w fd = Some d \<and> fd_rd d \<and> fs w (fd_path d) = Some i \<and>
     ikind i = Reg \<and> idata i = concat bl \<and> blocks VERREC bl"

definition moved :: "'g world \<Rightarrow> int \<Rightarrow> fdesc \<Rightarrow> nat \<Rightarrow> 'g world" where
  "moved w fd d q = w\<lparr>fds := (fds w)(fd \<mapsto> d\<lparr>fd_pos := q\<rparr>)\<rparr>"

lemma reads_moved [simp]: "reads w fd d i bl \<Longrightarrow> reads (moved w fd d q) fd (d\<lparr>fd_pos := q\<rparr>) i bl"
  by (simp add: reads_def moved_def)

lemma moved_moved [simp]: "moved (moved w fd d q) fd (d\<lparr>fd_pos := q\<rparr>) r = moved w fd d r"
  by (simp add: moved_def fun_upd_def)

lemma reads_at:
  assumes "reads w fd d i bl"
  shows "run_state (sys_lseek fd (int a) SEEK_SET) w = (int a, moved w fd d a)"
    and "run_state (sys_read fd n) w =
      (Some (take n (drop (fd_pos d) (concat bl))), moved w fd d (fd_pos d + min n (length (concat bl) - fd_pos d)))"
    and "0 \<le> off \<Longrightarrow> run_state (sys_pread fd n off) w = (Some (take n (drop (nat off) (concat bl))), w)"
    and "run_state (sys_fstat fd) w = (Some i, w)"
  using assms by (simp_all add: reads_def moved_def run)

lemma rec_name_at:
  "blocks VERREC bl \<Longrightarrow> k < length bl \<Longrightarrow> cstr (take 69 (drop (k * 74) (concat bl))) = rec_name (bl ! k)"
  using read_block [of 74 bl k 0 69] by (simp add: rec_name_def)

lemma rec_ver_at:
  "blocks VERREC bl \<Longrightarrow> k < length bl \<Longrightarrow> take 4 (drop (k * 74 + 70) (concat bl)) = rec_ver (bl ! k)"
  using read_block [of 74 bl k 70 4] by (simp add: rec_ver_def)

lemma length_rec_ver: "blocks VERREC bl \<Longrightarrow> k < length bl \<Longrightarrow> length (rec_ver (bl ! k)) = 4"
  using blocks_nth [of 74 bl k] by (simp add: rec_ver_def)

lemma run_search_ver:
  assumes "reads w fd d i bl" and "j + n = length bl"
  shows "\<exists>q. run_state (search_ver fd nm (int j) old n) w =
    (Some (map_option (\<lambda>k. rec_ver (bl ! (j + k))) (index_of nm (drop j bl))), moved w fd d q)"
  using assms
proof (induction n arbitrary: j old w d)
  case 0
  then have "moved w fd d (fd_pos d) = w"
    by (simp add: moved_def reads_def fun_upd_idem)
  then show ?case using 0 by (intro exI [of _ "fd_pos d"]) simp
next
  case (Suc n)
  have b: "blocks VERREC bl" and j: "j < length bl" using Suc.prems by (simp_all add: reads_def)
  note at1 = reads_at [OF Suc.prems(1)]
  note at2 = reads_at [OF reads_moved [OF Suc.prems(1)], simplified]
  have off: "int j * 74 = int (j * 74)" "int (j * 74) + 70 = int (j * 74 + 70)" by simp_all
  have dj: "drop j bl = bl ! j # drop (Suc j) bl" using j by (simp add: Cons_nth_drop_Suc)
  show ?case
  proof (cases "rec_name (bl ! j) = nm")
    case True
    then show ?thesis
      using rec_name_at [OF b j] rec_ver_at [OF b j] length_rec_ver [OF b j]
      by (auto simp add: off at1 at2 run_set_str dj simp del: of_nat_mult of_nat_add)
  next
    case False
    let ?d = "d\<lparr>fd_pos := j * 74 + min 69 (length (concat bl) - j * 74)\<rparr>"
    obtain q where q: "run_state (search_ver fd nm (int (Suc j)) [] n) (moved w fd d (fd_pos ?d)) =
      (Some (map_option (\<lambda>k. rec_ver (bl ! (Suc j + k))) (index_of nm (drop (Suc j) bl))), moved w fd d q)"
      using Suc.IH [OF reads_moved [OF Suc.prems(1), of "fd_pos ?d"], of "Suc j" "[]"] Suc.prems(2) by auto
    have sj: "int j + 1 = int (Suc j)" by simp
    show ?thesis
      using False q rec_name_at [OF b j]
      by (intro exI [of _ q]) (auto simp add: off at1 at2 run_set_str dj sj option.map_comp comp_def
          simp del: of_nat_mult of_nat_add of_nat_Suc)
  qed
qed

lemma run_find_name:
  assumes "reads w fd d i bl" and "j + n = length bl"
  shows "run_state (find_name fd nm (int j) old n) w =
    (case index_of nm (drop j bl) of None \<Rightarrow> int (length bl) | Some k \<Rightarrow> int (j + k), w)"
  using assms
proof (induction n arbitrary: j old)
  case (Suc n)
  have b: "blocks VERREC bl" and j: "j < length bl" using Suc.prems by (simp_all add: reads_def)
  have off: "int j * 74 = int (j * 74)" "int j + 1 = int (Suc j)" by simp_all
  have dj: "drop j bl = bl ! j # drop (Suc j) bl" using j by (simp add: Cons_nth_drop_Suc)
  have ih: "run_state (find_name fd nm (int (Suc j)) x n) w =
    (case index_of nm (drop (Suc j) bl) of None \<Rightarrow> int (length bl) | Some k \<Rightarrow> int (Suc j + k), w)" for x
    using Suc.IH [of "Suc j" x] Suc.prems by (simp del: of_nat_Suc)
  show ?case
    using rec_name_at [OF b j]
    by (auto simp add: off reads_at(3) [OF Suc.prems(1)] run_set_str dj ih simp del: of_nat_mult of_nat_Suc
        split: option.split)
qed simp

text \<open>The version that \<open>NVM_CmpFileVerNo\<close> finds for lid \<open>k\<close> with base name \<open>nm\<close>.\<close>

definition version_of :: "bytes list \<Rightarrow> nat \<Rightarrow> string \<Rightarrow> bytes option" where
  "version_of bl k nm =
     (if Suc k < length bl \<and> rec_name (bl ! Suc k) = nm then Some (rec_ver (bl ! Suc k))
      else map_option (\<lambda>j. rec_ver (bl ! j)) (index_of nm bl))"

lemma record_count_table: "blocks VERREC bl \<Longrightarrow> length bl * VERREC < 2 ^ 31 \<Longrightarrow> ikind i = Reg \<Longrightarrow> idata i = concat bl \<Longrightarrow>
   record_count (to_int32 (st_size i)) = int (length bl)"
proof -
  assume a: "blocks VERREC bl" "length bl * VERREC < 2 ^ 31" "ikind i = Reg" "idata i = concat bl"
  have "length (concat bl) = 74 * length bl" by (rule length_concat_blocks [OF a(1)])
  then have "to_int32 (st_size i) = 74 * int (length bl)"
    using a by (simp add: st_size_def)
  then show ?thesis by (simp add: record_count_def)
qed

lemma run_read_version:
  assumes "reads w fd d i bl" and "fd_pos d = 0" and "bl \<noteq> []" and "rec_name (hd bl) = strVerInfo"
    and "length bl * VERREC < 2 ^ 31" and "nm \<noteq> []"
  shows "\<exists>q. run_state (read_version P fd (int k) nm) w = (version_of bl k nm, moved w fd d q)"
proof -
  have b: "blocks VERREC bl" and f: "faults w = []" and reg: "ikind i = Reg" "idata i = concat bl"
    using assms(1) by (simp_all add: reads_def)
  note at1 = reads_at [OF assms(1)]
  note at2 = reads_at [OF reads_moved [OF assms(1)], simplified]
  have hd: "cstr (take 69 (concat bl)) = strVerInfo"
    using rec_name_at [OF b, of 0] assms(3,4) by (simp add: hd_conv_nth)
  have off: "int k * 74 + 74 = int (Suc k * 74)" "int k * 74 + 144 = int (Suc k * 74 + 70)"
    "int (Suc k * 74) + 70 = int (Suc k * 74 + 70)" by simp_all
  have rc: "record_count (to_int32 (st_size i)) = int (length bl)"
    by (rule record_count_table [OF b assms(5) reg])
  show ?thesis
  proof (cases "Suc k < length bl \<and> rec_name (bl ! Suc k) = nm")
    case True
    then show ?thesis
      using rec_name_at [OF b, of "Suc k"] rec_ver_at [OF b, of "Suc k"] length_rec_ver [OF b, of "Suc k"] assms(2)
      by (auto simp add: read_version_def run_set_str off at1 at2 hd version_of_def
          simp del: of_nat_mult of_nat_add mult_Suc)
  next
    case False
    have nm: "cstr (take 69 (drop (Suc k * 74) (concat bl))) \<noteq> nm"
    proof (cases "Suc k < length bl")
      case True
      with False rec_name_at [OF b True] show ?thesis by simp
    next
      case notin: False
      then have "length bl * 74 \<le> Suc k * 74" by simp
      then have "drop (Suc k * 74) (concat bl) = []"
        using length_concat_blocks [OF b] by (simp only: drop_eq_Nil mult.commute)
      then show ?thesis using assms(6) by (simp add: cstr_def)
    qed
    have v: "version_of bl k nm = map_option (\<lambda>j. rec_ver (bl ! j)) (index_of nm bl)"
      using False by (auto simp: version_of_def)
    have s: "\<exists>r. run_state (search_ver fd nm 0 old (length bl)) (moved w fd d q) =
        (Some (version_of bl k nm), moved w fd d r)" for old q
      using run_search_ver [OF reads_moved [OF assms(1), of q], of 0 "length bl" nm old] by (simp add: v)
    from s obtain r where r: "run_state (search_ver fd nm 0 (cstr (take 69 (drop (Suc k * 74) (concat bl)))) (length bl))
        (moved w fd d (Suc k * 74 + min 69 (length (concat bl) - Suc k * 74))) =
        (Some (version_of bl k nm), moved w fd d r)" by blast
    show ?thesis
      using assms(2) nm r
      by (intro exI [of _ r])
         (auto simp add: read_version_def run_set_str run_stat_size off at1 at2 hd rc split: option.split
          simp del: of_nat_mult of_nat_add mult_Suc)
  qed
qed

lemma base_name_ne: "entry_ok e \<Longrightarrow> base_name e \<noteq> []"
  by (auto simp: entry_ok_def base_name_def split: option.splits)

section \<open>The operations on a table\<close>

definition file_of :: "plat \<Rightarrow> int \<Rightarrow> tcfg_file" where
  "file_of P lid = all_files P ! nat lid"

definition lid_ok :: "plat \<Rightarrow> int \<Rightarrow> bool" where
  "lid_ok P lid \<longleftrightarrow> plat_ok P \<and> 0 \<le> lid \<and> lid < int (length (all_files P))"

lemma file_ok: "lid_ok P lid \<Longrightarrow> entry_ok (file_of P lid)"
  using entry_ok_lid by (simp add: lid_ok_def file_of_def)

lemma table_lookup:
  assumes "lid_ok P lid"
  obtains t where "NVM_GetCfgFileTable P lid = Some t" and "in_table t (real_lid P lid)"
    and "entry t (real_lid P lid) = file_of P lid"
  using assms lookup_lid [of P lid] unfolding lid_ok_def file_of_def by force

lemma run_lid_entry [run]: "lid_ok P lid \<Longrightarrow> run_state (lid_entry P lid) w = (file_of P lid, w)"
  by (auto simp: lid_entry_def lid_ok_def plat_ok_def file_of_def all_files_def entry_def in_table_def run nth_append
      nat_diff_distrib)

lemma run_CmpFileVerNo [run]:
  assumes "lid_ok P lid" and "wf_world w" and "faults w = []" and "ver_table P w bl"
  shows "run_state (NVM_CmpFileVerNo P lid) w =
    (version_of bl (nat lid) (base_name (file_of P lid)) = Some (cFileVer (file_of P lid)), used 1 w)"
proof -
  let ?e = "file_of P lid"
  obtain t where t: "NVM_GetCfgFileTable P lid = Some t" "in_table t (real_lid P lid)" "entry t (real_lid P lid) = ?e"
    by (rule table_lookup [OF assms(1)])
  obtain i where i: "fs w (ver_path P) = Some i" "ikind i = Reg" "idata i = concat bl"
    and bl: "blocks VERREC bl" "bl \<noteq> []" "rec_name (hd bl) = strVerInfo" "length bl * VERREC < 2 ^ 31"
    using assms(4) by (auto simp: ver_table_def)
  have e: "entry_ok ?e" using file_ok [OF assms(1)] .
  obtain s where s: "after_last_slash (cFileName ?e) = Some s"
    using e by (auto simp: entry_ok_def split: option.splits)
  let ?d = "new_fd (ver_path P) [O_RDONLY]"
  let ?w = "w\<lparr>fds := (fds w)(next_fd w \<mapsto> ?d), next_fd := next_fd w + 1\<rparr>"
  have "reads ?w (next_fd w) ?d i bl"
    using assms(3) i bl by (simp add: reads_def new_fd_def)
  then obtain q where q: "run_state (read_version P (next_fd w) (int (nat lid)) (base_name ?e)) ?w =
      (version_of bl (nat lid) (base_name ?e), moved ?w (next_fd w) ?d q)"
    using run_read_version [of ?w "next_fd w" ?d i bl "base_name ?e" P "nat lid"] bl base_name_ne [OF e]
    by (auto simp: new_fd_def)
  have l: "int (nat lid) = lid" using assms(1) by (simp add: lid_ok_def)
  show ?thesis
    using assms(2,3) t i s q [unfolded l]
    by (auto simp add: NVM_CmpFileVerNo_def NVM_CheckVerFile_def run moved_def used_def Let_def split: option.split)
qed

text \<open>One record of a table overwritten.\<close>

definition with_table :: "plat \<Rightarrow> 'g world \<Rightarrow> bytes list \<Rightarrow> 'g world" where
  "with_table P w bl = (case fs w (ver_path P) of None \<Rightarrow> w
     | Some i \<Rightarrow> w\<lparr>fs := (fs w)(ver_path P \<mapsto> i\<lparr>idata := concat bl\<rparr>)\<rparr>)"

lemma run_ver_lookup:
  assumes "lid_ok P lid" and "wf_world w" and "faults w = []" and "ver_table P w bl"
  shows "run_state (ver_lookup P lid) w =
    (Some (case index_of (base_name (file_of P lid)) bl of
        None \<Rightarrow> (VerAdd, int (length bl * 74)) | Some k \<Rightarrow> (VerUpdate, int (k * 74))), used 1 w)"
proof -
  let ?e = "file_of P lid"
  obtain t where t: "NVM_GetCfgFileTable P lid = Some t" "in_table t (real_lid P lid)" "entry t (real_lid P lid) = ?e"
    by (rule table_lookup [OF assms(1)])
  obtain i where i: "fs w (ver_path P) = Some i" "ikind i = Reg" "idata i = concat bl"
    and bl: "blocks VERREC bl" "length bl * VERREC < 2 ^ 31"
    using assms(4) by (auto simp: ver_table_def)
  let ?d = "new_fd (ver_path P) [O_RDONLY]"
  let ?w = "w\<lparr>fds := (fds w)(next_fd w \<mapsto> ?d), next_fd := next_fd w + 1\<rparr>"
  have "reads ?w (next_fd w) ?d i bl"
    using assms(3) i bl by (simp add: reads_def new_fd_def)
  from run_find_name [OF this, of 0 "length bl" "base_name ?e" "[]"]
  have f: "run_state (find_name (next_fd w) (base_name ?e) 0 [] (length bl)) ?w =
    (case index_of (base_name ?e) bl of None \<Rightarrow> int (length bl) | Some k \<Rightarrow> int k, ?w)" by (simp cong: option.case_cong)
  have rc: "record_count (to_int32 (st_size i)) = int (length bl)"
    by (rule record_count_table [OF bl i(2,3)])
  have lt: "index_of (base_name ?e) bl = Some k \<Longrightarrow> k \<noteq> length bl" for k
    using index_of_Some [of "base_name ?e" bl k] by auto
  have fp: "fd_path ?d = ver_path P" by (simp add: new_fd_def)
  show ?thesis
    using assms(2,3) t i(1,2) f rc lt fp
    by (auto simp add: ver_lookup_def run run_stat_size used_def Let_def split: option.split)
qed

lemma run_put_record:
  assumes "lid_ok P lid" and "faults w = []" and "fds w fd = Some d" and "fd_wr d" and "fd_path d = ver_path P"
    and "fs w (ver_path P) = Some i" and "ikind i = Reg" and "idata i = concat bl" and "blocks VERREC bl"
    and "k \<le> length bl"
  shows "run_state (put_record P fd True lid (int (k * 74))) w =
    ((), with_table P w (if k < length bl then bl[k := mkrec (file_of P lid)] else bl @ [mkrec (file_of P lid)]))"
proof -
  let ?e = "file_of P lid"
  have e: "length (cFileVer ?e) = 4" using file_ok [OF assms(1)] by (simp add: entry_ok_def)
  have off: "int (k * 74) + 70 = int (k * 74 + 70)" by simp
  have r: "run_state (put_record P fd True lid (int (k * 74))) w =
    ((), w\<lparr>fs := (fs w)(ver_path P \<mapsto> i\<lparr>idata :=
        splice (k * 74 + 70) (cFileVer ?e) (splice (k * 74) (name_field ?e) (concat bl))\<rparr>)\<rparr>)"
    using assms(1-8) by (simp add: put_record_def run off del: of_nat_mult of_nat_add)
  have le: "k * 74 \<le> length (concat bl)"
    using length_concat_blocks [OF assms(9)] assms(10) by simp
  have "splice (k * 74 + 70) (cFileVer ?e) (splice (k * 74) (name_field ?e) (concat bl)) = splice (k * 74) (mkrec ?e) (concat bl)"
    using splice_splice_next [OF le, of "name_field ?e" "cFileVer ?e"] by (simp add: mkrec_def)
  also have "\<dots> = concat (if k < length bl then bl[k := mkrec ?e] else bl @ [mkrec ?e])"
  proof (cases "k < length bl")
    case True
    have "splice 0 (mkrec ?e) (bl ! k) = mkrec ?e"
      using blocks_nth [OF assms(9) True] file_ok [OF assms(1)] by (simp add: splice_def)
    then show ?thesis
      using splice_block [OF assms(9) True, of 0 "mkrec ?e"] file_ok [OF assms(1)] True by simp
  next
    case False
    then have "k = length bl" using assms(10) by simp
    then show ?thesis using splice_block_end [OF assms(9), of "mkrec ?e"] by simp
  qed
  finally show ?thesis using r assms(6) by (simp add: with_table_def)
qed

lemma with_table_sel [simp]:
  "faults (with_table P w bl) = faults w" "fds (with_table P w bl) = fds w" "locks (with_table P w bl) = locks w"
  "next_fd (with_table P w bl) = next_fd w" "heap (with_table P w bl) = heap w" "ubs (with_table P w bl) = ubs w"
  "gl (with_table P w bl) = gl w"
  by (simp_all add: with_table_def split: option.split)

lemma with_table_upd [simp]:
  "with_table P (w\<lparr>fds := x\<rparr>) bl = (with_table P w bl)\<lparr>fds := x\<rparr>"
  "with_table P (w\<lparr>locks := y\<rparr>) bl = (with_table P w bl)\<lparr>locks := y\<rparr>"
  "with_table P (w\<lparr>next_fd := z\<rparr>) bl = (with_table P w bl)\<lparr>next_fd := z\<rparr>"
  by (simp_all add: with_table_def split: option.split)

lemma with_table_idem: "ver_table P w bl \<Longrightarrow> with_table P (with_table P w cl) dl = with_table P w dl"
  by (auto simp: ver_table_def with_table_def)

lemma ver_table_with:
  assumes "ver_table P w bl" and "blocks VERREC cl" and "cl \<noteq> []" and "rec_name (hd cl) = strVerInfo"
    and "length cl * VERREC < 2 ^ 31"
  shows "ver_table P (with_table P w cl) cl"
  using assms by (auto simp: ver_table_def with_table_def)

text \<open>What the part of \<open>NVM_UpdateFileVerNo\<close> under the mutex does before it looks at the flag.\<close>

lemma run_UpdateFileVerNo_open:
  assumes "faults w = []" and "wf_world w" and "generateFileVerlock \<notin> locks w" and "ver_table P w bl"
    and "(if flag0 = VerUpdate then run_state (ver_lookup P lid) w else (Some (flag0, 0), w)) = (Some (flag, off), used n w)"
    and "0 \<le> n"
  shows "run_state (NVM_UpdateFileVerNo P lid flag0) w =
    run_state (do {
      fd \<leftarrow> (case flag of
             VerUpdate \<Rightarrow> do { put_record P (next_fd w + n) True lid off; ret (Some (next_fd w + n)) }
           | VerDel \<Rightarrow> ver_delete P (next_fd w + n) True lid
           | VerAdd \<Rightarrow> ver_add P (next_fd w + n) True lid);
      case fd of None \<Rightarrow> ret False
      | Some fd \<Rightarrow> do { _ \<leftarrow> sys_close fd; mutex_unlock generateFileVerlock; ret True } })
    (w\<lparr>locks := insert generateFileVerlock (locks w),
       fds := (fds w)(next_fd w + n \<mapsto> new_fd (ver_path P) [O_RDWR]), next_fd := next_fd w + n + 1\<rparr>)"
proof -
  obtain i where i: "fs w (ver_path P) = Some i" "ikind i = Reg" "idata i = concat bl"
    and bl: "blocks VERREC bl" "bl \<noteq> []" "rec_name (hd bl) = strVerInfo"
    using assms(4) by (auto simp: ver_table_def)
  have hd: "cstr (take 69 (concat bl)) = strVerInfo"
    using rec_name_at [OF bl(1), of 0] bl(2,3) by (simp add: hd_conv_nth)
  have st: "run_state (if flag0 = VerUpdate then ver_lookup P lid else ret (Some (flag0, 0))) w = (Some (flag, off), used n w)"
    using assms(5) by (simp split: if_splits)
  show ?thesis
    using assms(1-3,6) i hd
    by (simp add: NVM_UpdateFileVerNo_def st run new_fd_def run_set_str used_def Let_def cong: ver_info_update_flag.case_cong)
qed

lemma run_VerUpdate_found:
  assumes "lid_ok P lid" and "wf_world w" and "faults w = []" and "generateFileVerlock \<notin> locks w"
    and "ver_table P w bl" and "index_of (base_name (file_of P lid)) bl = Some k"
  shows "run_state (NVM_UpdateFileVerNo P lid VerUpdate) w =
    (True, used 2 (with_table P w (bl[k := mkrec (file_of P lid)])))"
proof -
  obtain i where i: "fs w (ver_path P) = Some i" "ikind i = Reg" "idata i = concat bl" and bl: "blocks VERREC bl"
    using assms(5) by (auto simp: ver_table_def)
  have k: "k < length bl" using index_of_Some [OF assms(6)] by simp
  let ?d = "new_fd (ver_path P) [O_RDWR]"
  let ?w = "w\<lparr>locks := insert generateFileVerlock (locks w),
       fds := (fds w)(next_fd w + 1 \<mapsto> ?d), next_fd := next_fd w + 1 + 1\<rparr>"
  have p: "run_state (put_record P (next_fd w + 1) True lid (int (k * 74))) ?w =
      ((), with_table P ?w (bl[k := mkrec (file_of P lid)]))"
    by (subst run_put_record [where d = ?d and i = i and bl = bl])
       (use assms(1-3) i bl k in \<open>simp_all add: new_fd_def wants_write_def\<close>)
  have l: "insert generateFileVerlock (locks w) - {generateFileVerlock} = locks w"
    using assms(4) by auto
  show ?thesis
    by (subst run_UpdateFileVerNo_open [where bl = bl and n = 1 and flag = VerUpdate and off = "int (k * 74)"])
       (use assms run_ver_lookup [OF assms(1-3,5)] p l in \<open>simp_all add: run used_def new_fd_def with_table_def i\<close>)
qed

text \<open>The block list with block \<open>k\<close> taken out, or \<open>b\<close> put in before it.\<close>

definition without :: "nat \<Rightarrow> 'a list \<Rightarrow> 'a list" where
  "without k xs = take k xs @ drop (Suc k) xs"

definition insert_at :: "nat \<Rightarrow> 'a \<Rightarrow> 'a list \<Rightarrow> 'a list" where
  "insert_at k x xs = take k xs @ x # drop k xs"

lemma run_replace_file:
  assumes "faults w = []" and "wf_world w" and "generateFileVerlock \<notin> locks w" and "fs w (ver_path P) = Some i"
    and "ikind i = Reg" and "2 \<le> heap w"
  shows "run_state (replace_file P b (int (length b))) w =
    (Some (next_fd w), w\<lparr>locks := insert generateFileVerlock (locks w),
       fs := (fs w)(ver_path P \<mapsto> i\<lparr>idata := b\<rparr>), fds := (fds w)(next_fd w \<mapsto> new_fd (ver_path P) [O_TRUNC, O_RDWR]),
       next_fd := next_fd w + 1, heap := heap w - 2\<rparr>)"
  using assms
  by (simp add: replace_file_def run new_fd_def wants_write_def splice_def numeral_2_eq_2)

lemma run_two_buffers [run]:
  "faults w = [] \<Longrightarrow> 0 \<le> m \<Longrightarrow> 0 \<le> n \<Longrightarrow> run_state (two_buffers m n) w = (True, w\<lparr>heap := heap w + 2\<rparr>)"
  by (simp add: two_buffers_def run)

lemma run_ver_delete:
  assumes "faults w = []" and "wf_world w" and "generateFileVerlock \<in> locks w" and "0 \<le> lid"
    and "fds w fd = Some d" and "fd_rd d" and "fd_path d = ver_path P"
    and "fs w (ver_path P) = Some i" and "ikind i = Reg" and "idata i = concat bl" and "blocks VERREC bl"
    and "length bl * VERREC < 2 ^ 31" and "Suc (nat lid) < length bl"
  shows "run_state (ver_delete P fd True lid) w =
    (Some (next_fd w), w\<lparr>fs := (fs w)(ver_path P \<mapsto> i\<lparr>idata := concat (without (Suc (nat lid)) bl)\<rparr>),
       fds := (fds w)(fd := None, next_fd w \<mapsto> new_fd (ver_path P) [O_TRUNC, O_RDWR]), next_fd := next_fd w + 1\<rparr>)"
proof -
  define k where "k = Suc (nat lid)"
  have k: "lid + 1 = int k" "k < length bl" using assms(4,13) by (simp_all add: k_def)
  have len: "length (concat bl) = length bl * 74" using length_concat_blocks [OF assms(11)] by simp
  have sz: "to_int32 (int (length bl * 74)) = int (length bl * 74)"
    using assms(12) by simp
  define b where "b = take (k * 74) (concat bl) @ drop (Suc k * 74) (concat bl)"
  have b: "b = concat (without k bl)"
    using take_blocks [OF assms(11), of k] drop_blocks [OF assms(11), of "Suc k"]
    by (simp add: b_def without_def)
  have lb: "int (length b) = int (length bl * 74) - 74"
    using k(2) by (simp add: b_def len min_def)
  let ?w = "w\<lparr>heap := heap w + 2, fds := (fds w)(fd := None), locks := locks w - {generateFileVerlock}\<rparr>"
  have wf: "wf_world ?w" using assms(2) by (auto simp: wf_world_def)
  have r: "run_state (replace_file P b (int (length b))) ?w =
    (Some (next_fd w), ?w\<lparr>locks := locks w,
       fs := (fs w)(ver_path P \<mapsto> i\<lparr>idata := b\<rparr>), fds := (fds w)(fd := None, next_fd w \<mapsto> new_fd (ver_path P) [O_TRUNC, O_RDWR]),
       next_fd := next_fd w + 1, heap := heap w\<rparr>)"
    by (subst run_replace_file [where i = i]) (use assms wf in \<open>simp_all add: insert_absorb\<close>)
  have off: "nat (int k * 74) = k * 74" "nat (int k * 74 + 74) = Suc k * 74" by (simp_all add: nat_add_distrib)
  have ck: "int k * 74 + 74 \<le> int (length bl * 74)" using k(2) by simp
  have sz2: "0 \<le> int (length bl * 74)" "0 \<le> int (length bl * 74) - 74" using k(2) by simp_all
  have tk: "take (length bl * 74) (concat bl) = concat bl" by (simp add: len)
  show ?thesis
    using assms(1-3,5-10) r sz2
    by (simp add: ver_delete_def run k(1) st_size_def sz len tk off b_def [symmetric] lb [symmetric] ck Let_def b k_def [symmetric]
        del: of_nat_mult mult_Suc)
qed

text \<open>
  Adding in the middle closes and reopens the file twice; the descriptor returned is the third.
\<close>

lemma run_ver_add_middle:
  assumes "faults w = []" and "wf_world w" and "generateFileVerlock \<in> locks w" and "lid_ok P lid"
    and "fds w fd = Some d" and "fd_path d = ver_path P"
    and "fs w (ver_path P) = Some i" and "ikind i = Reg" and "idata i = concat bl" and "blocks VERREC bl"
    and "Suc (length bl) * VERREC < 2 ^ 31" and "Suc (nat lid) < length bl"
  shows "run_state (ver_add P fd True lid) w =
    (Some (next_fd w + 1), w\<lparr>fs := (fs w)(ver_path P \<mapsto> i\<lparr>idata := concat (insert_at (Suc (nat lid)) (mkrec (file_of P lid)) bl)\<rparr>),
       fds := (fds w)(fd := None, next_fd w + 1 \<mapsto> new_fd (ver_path P) [O_TRUNC, O_RDWR]), next_fd := next_fd w + 2\<rparr>)"
proof -
  let ?e = "file_of P lid"
  define k where "k = Suc (nat lid)"
  have k: "lid + 1 = int k" "k < length bl" using assms(4,12) by (simp_all add: k_def lid_ok_def)
  have e: "entry_ok ?e" by (rule file_ok [OF assms(4)])
  have len: "length (concat bl) = length bl * 74" using length_concat_blocks [OF assms(10)] by simp
  have sz: "to_int32 (int (length bl * 74)) = int (length bl * 74)"
    using assms(11) by simp
  define b where "b = take (k * 74) (concat bl) @ name_field ?e @ cFileVer ?e @ drop (k * 74) (concat bl)"
  have b: "b = concat (insert_at k (mkrec ?e) bl)"
    using take_blocks [OF assms(10), of k] drop_blocks [OF assms(10), of k]
    by (simp add: b_def insert_at_def mkrec_def)
  have lb: "int (length b) = int (length bl * 74) + 74"
    using k(2) e by (simp add: b_def len min_def entry_ok_def)
  have fdn: "fds w (next_fd w) = None" "fd \<noteq> next_fd w" "fd \<noteq> next_fd w + 1"
    using assms(2,5) fresh_fd [of w] fresh_fd_plus [of w 1] by auto
  let ?w = "w\<lparr>heap := heap w + 2, next_fd := next_fd w + 1, fds := (fds w)(fd := None), locks := locks w - {generateFileVerlock}\<rparr>"
  have wf: "wf_world ?w" by (rule wf_closed [OF assms(2), of _ fd]) simp_all
  have r: "run_state (replace_file P b (int (length b))) ?w =
    (Some (next_fd w + 1), ?w\<lparr>locks := locks w,
       fs := (fs w)(ver_path P \<mapsto> i\<lparr>idata := b\<rparr>), fds := (fds w)(fd := None, next_fd w + 1 \<mapsto> new_fd (ver_path P) [O_TRUNC, O_RDWR]),
       next_fd := next_fd w + 2, heap := heap w\<rparr>)"
    by (subst run_replace_file [where i = i]) (use assms wf in \<open>simp_all add: insert_absorb\<close>)
  have off: "nat (int k * 74) = k * 74" by simp
  have ck: "\<not> int (length bl * 74) \<le> int k * 74" using k(2) by simp
  have sz2: "0 \<le> int (length bl * 74)" "0 \<le> int (length bl * 74) + 74" by simp_all
  have tk: "take (length bl * 74) (concat bl) = concat bl" by (simp add: len)
  have reclosed: "(fds w)(fd := None, next_fd w := None) = (fds w)(fd := None)" using fdn(1) by auto
  show ?thesis
    using assms(1-3,5-9) r sz2 fdn
    by (simp add: ver_add_def run run_lid_entry [OF assms(4)] k(1) st_size_def sz len tk off b_def [symmetric] lb [symmetric]
        ck Let_def b k_def [symmetric] new_fd_def [where fl = "[O_RDWR]"] insert_absorb reclosed del: of_nat_mult mult_Suc)
qed

lemma run_VerDel:
  assumes "0 \<le> lid" and "wf_world w" and "faults w = []" and "generateFileVerlock \<notin> locks w"
    and "ver_table P w bl" and "Suc (nat lid) < length bl"
  shows "run_state (NVM_UpdateFileVerNo P lid VerDel) w = (True, used 2 (with_table P w (without (Suc (nat lid)) bl)))"
proof -
  obtain i where i: "fs w (ver_path P) = Some i" "ikind i = Reg" "idata i = concat bl"
    and bl: "blocks VERREC bl" "length bl * VERREC < 2 ^ 31"
    using assms(5) by (auto simp: ver_table_def)
  let ?d = "new_fd (ver_path P) [O_RDWR]"
  let ?w = "w\<lparr>locks := insert generateFileVerlock (locks w), fds := (fds w)(next_fd w \<mapsto> ?d), next_fd := next_fd w + 1\<rparr>"
  have wf: "wf_world ?w"
    by (rule wf_opened [OF assms(2), of _ "next_fd w" ?d]) (use assms(2) in simp_all)
  have f2: "(fds w)(next_fd w := None) = fds w" using assms(2) by simp
  have p: "run_state (ver_delete P (next_fd w) True lid) ?w =
    (Some (next_fd w + 1), ?w\<lparr>fs := (fs w)(ver_path P \<mapsto> i\<lparr>idata := concat (without (Suc (nat lid)) bl)\<rparr>),
       fds := (fds w)(next_fd w + 1 \<mapsto> new_fd (ver_path P) [O_TRUNC, O_RDWR]), next_fd := next_fd w + 2\<rparr>)"
    by (subst run_ver_delete [where d = ?d and i = i and bl = bl])
       (use assms(1-3,6) i bl wf f2 in \<open>simp_all add: new_fd_def\<close>)
  have l: "insert generateFileVerlock (locks w) - {generateFileVerlock} = locks w"
    using assms(4) by auto
  show ?thesis
    by (subst run_UpdateFileVerNo_open [where bl = bl and n = 0 and flag = VerDel and off = 0])
       (use assms p l i in \<open>simp_all add: run used_def new_fd_def with_table_def\<close>)
qed

lemma run_VerAdd:
  assumes "lid_ok P lid" and "wf_world w" and "faults w = []" and "generateFileVerlock \<notin> locks w"
    and "ver_table P w bl" and "Suc (nat lid) \<le> length bl" and "Suc (length bl) * VERREC < 2 ^ 31"
  shows "\<exists>n \<ge> 0. run_state (NVM_UpdateFileVerNo P lid VerAdd) w =
    (True, used n (with_table P w (insert_at (Suc (nat lid)) (mkrec (file_of P lid)) bl)))"
proof -
  obtain i where i: "fs w (ver_path P) = Some i" "ikind i = Reg" "idata i = concat bl"
    and bl: "blocks VERREC bl" "length bl * VERREC < 2 ^ 31"
    using assms(5) by (auto simp: ver_table_def)
  let ?d = "new_fd (ver_path P) [O_RDWR]"
  let ?w = "w\<lparr>locks := insert generateFileVerlock (locks w), fds := (fds w)(next_fd w \<mapsto> ?d), next_fd := next_fd w + 1\<rparr>"
  have wf: "wf_world ?w"
    by (rule wf_opened [OF assms(2), of _ "next_fd w" ?d]) (use assms(2) in simp_all)
  have f2: "(fds w)(next_fd w := None) = fds w" using assms(2) by simp
  have l: "insert generateFileVerlock (locks w) - {generateFileVerlock} = locks w"
    using assms(4) by auto
  show ?thesis
  proof (cases "Suc (nat lid) < length bl")
    case True
    have p: "run_state (ver_add P (next_fd w) True lid) ?w =
      (Some (next_fd w + 2), ?w\<lparr>fs := (fs w)(ver_path P \<mapsto> i\<lparr>idata := concat (insert_at (Suc (nat lid)) (mkrec (file_of P lid)) bl)\<rparr>),
       fds := (fds w)(next_fd w + 2 \<mapsto> new_fd (ver_path P) [O_TRUNC, O_RDWR]), next_fd := next_fd w + 3\<rparr>)"
      by (subst run_ver_add_middle [where d = ?d and i = i and bl = bl])
         (use assms(1-3,7) True i bl wf f2 in \<open>simp_all add: new_fd_def add.commute\<close>)
    have "run_state (NVM_UpdateFileVerNo P lid VerAdd) w =
        (True, used 3 (with_table P w (insert_at (Suc (nat lid)) (mkrec (file_of P lid)) bl)))"
      by (subst run_UpdateFileVerNo_open [where bl = bl and n = 0 and flag = VerAdd and off = 0])
         (use assms p l i in \<open>simp_all add: run used_def new_fd_def with_table_def\<close>)
    then show ?thesis by (intro exI [of _ 3]) simp
  next
    case False
    then have k: "Suc (nat lid) = length bl" using assms(6) by simp
    have pos: "lid + 1 = int (length bl)" using assms(1) by (simp add: k [symmetric] lid_ok_def)
    have len: "length (concat bl) = length bl * 74" using length_concat_blocks [OF bl(1)] by simp
    have sz: "to_int32 (int (length bl * 74)) = int (length bl * 74)" using bl(2) by simp
    have q: "run_state (put_record P (next_fd w) True lid (int (length bl * 74))) ?w =
        ((), with_table P ?w (bl @ [mkrec (file_of P lid)]))"
      by (subst run_put_record [where d = ?d and i = i and bl = bl])
         (use assms(1-3) i bl in \<open>simp_all add: new_fd_def wants_write_def\<close>)
    have p: "run_state (ver_add P (next_fd w) True lid) ?w = (Some (next_fd w), with_table P ?w (bl @ [mkrec (file_of P lid)]))"
      using assms(3) i q by (simp add: ver_add_def run st_size_def len sz pos Let_def del: of_nat_mult) (simp add: q)
    have ins: "insert_at (Suc (nat lid)) (mkrec (file_of P lid)) bl = bl @ [mkrec (file_of P lid)]"
      by (simp add: insert_at_def k)
    have "run_state (NVM_UpdateFileVerNo P lid VerAdd) w =
        (True, used 1 (with_table P w (bl @ [mkrec (file_of P lid)])))"
      by (subst run_UpdateFileVerNo_open [where bl = bl and n = 0 and flag = VerAdd and off = 0])
         (use assms p l i in \<open>simp_all add: run used_def new_fd_def with_table_def\<close>)
    then show ?thesis unfolding ins by (intro exI [of _ 1]) simp
  qed
qed

section \<open>Generating the table\<close>

definition header_rec :: "plat \<Rightarrow> bytes" where
  "header_rec P = zpad FILENAMELENGTH strVerInfo @ cFileVer (ver_entry P)"

definition default_table :: "plat \<Rightarrow> bytes list" where
  "default_table P = header_rec P # map mkrec (all_files P)"

lemma run_write_records:
  assumes "appends w fd d i" and "nat j + n \<le> length t" and "0 \<le> j"
  shows "run_state (write_records fd t j n) w = ((), app w fd d i (concat (map mkrec (take n (drop (nat j) t)))))"
  using assms
proof (induction n arbitrary: j w d i)
  case 0
  then show ?case by (simp add: app_def appends_def fun_upd_idem)
next
  case (Suc n)
  let ?e = "t ! nat j"
  have e: "in_table t j" "entry t j = ?e" using Suc.prems by (auto simp: in_table_def entry_def)
  have sp: "take (Suc n) (drop (nat j) t) = ?e # take n (drop (nat (j + 1)) t)"
    using Suc.prems by (simp add: Cons_nth_drop_Suc [symmetric] nat_add_distrib)
  note a1 = appends_app [OF Suc.prems(1), of "name_field ?e"]
  note a2 = appends_app [OF a1, of "cFileVer ?e"]
  have ih: "run_state (write_records fd t (j + 1) n) (app (app w fd d i (name_field ?e)) fd
      (d\<lparr>fd_pos := fd_pos d + length (name_field ?e)\<rparr>) (i\<lparr>idata := idata i @ name_field ?e\<rparr>) (cFileVer ?e)) =
    ((), app w fd d i (concat (map mkrec (take (Suc n) (drop (nat j) t)))))"
    by (subst Suc.IH [OF a2]) (use Suc.prems in \<open>simp_all add: nat_add_distrib sp mkrec_def app_def fun_upd_def ac_simps\<close>)
  show ?case
    using e ih by (simp add: run_check run_write_app [OF Suc.prems(1)] run_write_app [OF a1])
qed

lemma ver_entry_ok: "plat_ok P \<Longrightarrow> entry_ok (ver_entry P)"
  by (cases "g_akCFG_File P") (auto simp: plat_ok_def ver_entry_def entry_def in_table_def all_files_def)

lemma header_rec_props:
  assumes "plat_ok P"
  shows "length (header_rec P) = 74" and "rec_name (header_rec P) = strVerInfo"
proof -
  show "length (header_rec P) = 74" using ver_entry_ok [OF assms] by (simp add: header_rec_def entry_ok_def)
  have "no_nul strVerInfo" "length strVerInfo \<le> 69" by (simp_all add: strVerInfo_def no_nul_def)
  then show "rec_name (header_rec P) = strVerInfo"
    using cstr_take_zpad [of strVerInfo] by (simp add: rec_name_def header_rec_def)
qed

lemma default_table_props:
  assumes "plat_ok P"
  shows "blocks 74 (default_table P)" and "default_table P \<noteq> []" and "rec_name (hd (default_table P)) = strVerInfo"
    and "length (default_table P) * 74 < 2 ^ 31"
  using header_rec_props [OF assms] assms
  by (auto simp: default_table_def plat_ok_def list_all_iff)

lemma open_ver_file:
  assumes "wf_world w" and "faults w = []" and "dirlock \<notin> locks w" and "length p < 4096" and "fs w p = None"
    and "\<forall>q \<in> set (dir_prefixes [] p). fs w q = None \<or> is_dir (fs w) q"
  obtains f i where
    "run_state (do { fd0 \<leftarrow> sys_open p [O_CREAT, O_RDWR] md;
        if fd0 = -1 then open_file_with_dirs P p [O_CREAT, O_RDWR] md else ret fd0 }) w =
      (next_fd w, w\<lparr>fs := f, fds := (fds w)(next_fd w \<mapsto> new_fd p [O_CREAT, O_RDWR]), next_fd := next_fd w + 1\<rparr>)"
    and "f p = Some i" and "ikind i = Reg" and "idata i = []"
proof (cases "dir_exists (fs w) (parent_dir p)")
  case True
  show ?thesis
    by (rule that [of "(fs w)(p \<mapsto> new_inode Reg md)" "new_inode Reg md"])
       (use assms(1,2,5) True in \<open>simp_all add: run new_inode_def\<close>)
next
  case False
  then have r: "run_state (sys_open p [O_CREAT, O_RDWR] md) w = (-1, w)"
    using assms(2,5) by (simp add: sys_open_def)
  obtain f where f: "run_state (open_file_with_dirs P p [O_CREAT, O_RDWR] md) w =
      (next_fd w, w\<lparr>fs := f, fds := (fds w)(next_fd w \<mapsto> new_fd p [O_CREAT, O_RDWR]), next_fd := next_fd w + 1\<rparr>)"
    and i: "f p = Some \<lparr>ikind = Reg, idata = [], iuid = 0, igid = path_group P p, iperm = md\<rparr>"
    by (rule open_new_file [of w p "[O_CREAT, O_RDWR]" P md]) (use assms in simp_all)
  show ?thesis
    by (rule that [of f "\<lparr>ikind = Reg, idata = [], iuid = 0, igid = path_group P p, iperm = md\<rparr>"])
       (simp_all add: r f i)
qed

text \<open>A system without a version file, whose directory is there or can be made.\<close>

definition no_table :: "plat \<Rightarrow> 'g world \<Rightarrow> bool" where
  "no_table P w \<longleftrightarrow> fs w (ver_path P) = None \<and>
     (\<forall>q \<in> set (dir_prefixes [] (ver_path P)). fs w q = None \<or> is_dir (fs w) q)"

lemma run_GenerateFileVer:
  assumes "plat_ok P" and "wf_world w" and "faults w = []" and "dirlock \<notin> locks w" and "generateFileVerlock \<notin> locks w"
    and "no_table P w"
  obtains w' where "run_state (NVM_GenerateFileVer P True) w = (True, w')" and "ver_table P w' (default_table P)"
    and "wf_world w'" and "faults w' = []" and "fds w' = fds w" and "locks w' = locks w" and "heap w' = heap w"
    and "ubs w' = ubs w" and "gl w' = gl w"
proof -
  let ?p = "ver_path P"
  let ?w = "w\<lparr>locks := insert generateFileVerlock (locks w)\<rparr>"
  let ?d = "new_fd ?p [O_CREAT, O_RDWR]"
  have len: "length ?p < 4096"
    using ver_entry_ok [OF assms(1)] by (simp add: ver_path_def ver_entry_def entry_ok_def)
  obtain f i where o: "run_state (do { fd0 \<leftarrow> sys_open ?p [O_CREAT, O_RDWR] mode664;
        if fd0 = -1 then open_file_with_dirs P ?p [O_CREAT, O_RDWR] mode664 else ret fd0 }) ?w =
      (next_fd w, ?w\<lparr>fs := f, fds := (fds w)(next_fd w \<mapsto> ?d), next_fd := next_fd w + 1\<rparr>)"
    and f: "f ?p = Some i" "ikind i = Reg" "idata i = []"
    by (rule open_ver_file [of ?w ?p mode664 P])
       (use assms(2-6) len in \<open>auto simp: no_table_def wf_world_def\<close>)
  let ?w1 = "?w\<lparr>fs := f, fds := (fds w)(next_fd w \<mapsto> ?d), next_fd := next_fd w + 1\<rparr>"
  let ?x = "concat (default_table P)"
  let ?n = "length (g_akCFG_File P)"
  have a1: "appends ?w1 (next_fd w) ?d i"
    using assms(3) f by (simp add: appends_def new_fd_def wants_write_def)
  note a2 = appends_app [OF a1, of "zpad FILENAMELENGTH strVerInfo", unfolded length_zpad]
  note a3 = appends_app [OF a2, of "cFileVer (ver_entry P)"]
  note a4 = appends_app [OF a3, of "concat (map mkrec (g_akCFG_File P))"]
  have lids: "iFileVerInfoLID P = 0" "iCustomBeginLID P = int ?n" using assms(1) by (simp_all add: plat_ok_def)
  have w2: "run_state (write_records (next_fd w) (g_akCFG_File P) 0 ?n)
      (app (app ?w1 (next_fd w) ?d i (zpad FILENAMELENGTH strVerInfo)) (next_fd w)
        (?d\<lparr>fd_pos := fd_pos ?d + FILENAMELENGTH\<rparr>) (i\<lparr>idata := idata i @ zpad FILENAMELENGTH strVerInfo\<rparr>)
        (cFileVer (ver_entry P))) =
    ((), app ?w1 (next_fd w) ?d i (header_rec P @ concat (map mkrec (g_akCFG_File P))))"
    by (subst run_write_records [OF a3]) (simp_all add: header_rec_def app_def fun_upd_def add.assoc)
  define h where "h = header_rec P @ concat (map mkrec (g_akCFG_File P))"
  let ?d1 = "?d\<lparr>fd_pos := fd_pos ?d + length h\<rparr>"
  let ?i1 = "i\<lparr>idata := idata i @ h\<rparr>"
  have a5: "appends (app ?w1 (next_fd w) ?d i h) (next_fd w) ?d1 ?i1"
    by (rule appends_app [OF a1])
  have x: "?x = h @ concat (map mkrec (g_akCFG_File_Custom P))"
    by (simp add: h_def default_table_def all_files_def)
  have w3: "run_state (write_records (next_fd w) (g_akCFG_File_Custom P) 0 (length (g_akCFG_File_Custom P)))
      (app ?w1 (next_fd w) ?d i h) = ((), app ?w1 (next_fd w) ?d i ?x)"
    by (subst run_write_records [OF a5]) (simp_all add: x)
  define A where "A = app ?w1 (next_fd w) ?d i ?x"
  let ?i1 = "i\<lparr>idata := ?x, igid := AID_SYSTEM P\<rparr>"
  let ?i2 = "?i1\<lparr>iperm := mode664\<rparr>"
  have A: "faults A = []" "fs A = f(?p \<mapsto> i\<lparr>idata := ?x\<rparr>)" "locks A = insert generateFileVerlock (locks w)"
      "fds A = (fds w)(next_fd w \<mapsto> ?d\<lparr>fd_pos := length ?x\<rparr>)"
      "A\<lparr>fs := g, fds := h, locks := l\<rparr> = used 1 (w\<lparr>fs := g, fds := h, locks := l\<rparr>)" for g h l
    using assms(3) f by (simp_all add: A_def app_def new_fd_def used_def)
  have c1: "run_state (sys_chown ?p None (Some (AID_SYSTEM P))) A = (0, A\<lparr>fs := f(?p \<mapsto> ?i1)\<rparr>)"
    by (simp add: sys_chown_def A)
  have c2: "run_state (sys_chmod ?p mode664) (A\<lparr>fs := f(?p \<mapsto> ?i1)\<rparr>) = (0, A\<lparr>fs := f(?p \<mapsto> ?i2)\<rparr>)"
    by (simp add: sys_chmod_def A)
  have c3: "run_state (sys_close (next_fd w)) (A\<lparr>fs := f(?p \<mapsto> ?i2)\<rparr>) = (0, A\<lparr>fs := f(?p \<mapsto> ?i2), fds := fds w\<rparr>)"
    using assms(2) by (simp add: run A)
  have l: "insert generateFileVerlock (locks w) - {generateFileVerlock} = locks w" using assms(5) by auto
  have c4: "run_state (mutex_unlock generateFileVerlock) (A\<lparr>fs := f(?p \<mapsto> ?i2), fds := fds w\<rparr>) =
      ((), used 1 (w\<lparr>fs := f(?p \<mapsto> ?i2)\<rparr>))"
    by (simp add: run A l del: used_fs)
  obtain r u where ru: "run_state (sys_open ?p [O_CREAT, O_RDWR] mode664) ?w = (r, u)" by fastforce
  have o2: "run_state (if r = -1 then open_file_with_dirs P ?p [O_CREAT, O_RDWR] mode664 else ret r) u = (next_fd w, ?w1)"
    using o by (simp add: ru)
  have nn: "next_fd w \<noteq> -1" using assms(2) by simp
  have "run_state (NVM_GenerateFileVer P True) w = (True, used 1 (w\<lparr>fs := f(?p \<mapsto> ?i2)\<rparr>))"
    using nn
    by (simp add: NVM_GenerateFileVer_def lids run_lock [OF assms(5)] ru o2 run_write_app [OF a1] run_write_app [OF a2]
        w2 [folded h_def] w3 [folded A_def] c1 c2 c3 c4 del: used_fs app_app)
  then show ?thesis
    by (rule that) (use assms(2,3) default_table_props [OF assms(1)] f in \<open>simp_all add: ver_table_def\<close>)
qed

end
