(* ===== verification/VerStore.thy ===== *)
theory VerStore
  imports VerTable Samples
begin

text \<open>
  What the version file is for, as a contract: the locale \<open>version_store\<close> holds the laws of
  \<open>update\<close> (record the current version of a file) and \<open>current\<close> (is the recorded version the one
  of the table?), and its lemmas follow from them alone.  It is interpreted on
  \<open>NVM_UpdateFileVerNo\<close> and \<open>NVM_CmpFileVerNo\<close>.
\<close>

section \<open>The contract\<close>

locale version_store =
  fixes inv :: "'s \<Rightarrow> bool" and valid :: "'k \<Rightarrow> bool"
    and update :: "'k \<Rightarrow> 's \<Rightarrow> 's" and current :: "'k \<Rightarrow> 's \<Rightarrow> bool"
  assumes update_inv: "inv s \<Longrightarrow> valid k \<Longrightarrow> inv (update k s)"
    and update_same: "inv s \<Longrightarrow> valid k \<Longrightarrow> current k (update k s)"
    and update_other: "inv s \<Longrightarrow> valid k \<Longrightarrow> valid j \<Longrightarrow> j \<noteq> k \<Longrightarrow> current j (update k s) = current j s"

context version_store
begin

lemma updates_inv: "inv s \<Longrightarrow> list_all valid ks \<Longrightarrow> inv (fold update ks s)"
  by (induction ks arbitrary: s) (auto simp: update_inv)

text \<open>A series of updates makes exactly the files it names current.\<close>

lemma updates_current:
  "inv s \<Longrightarrow> list_all valid ks \<Longrightarrow> valid j \<Longrightarrow> current j (fold update ks s) = (j \<in> set ks \<or> current j s)"
proof (induction ks arbitrary: s)
  case (Cons k ks)
  then have "current j (fold update ks (update k s)) = (j \<in> set ks \<or> current j (update k s))"
    by (simp add: update_inv)
  moreover have "current j (update k s) = (j = k \<or> current j s)"
    using Cons.prems update_same update_other by (cases "j = k") auto
  ultimately show ?case by auto
qed simp

lemma update_idem: "inv s \<Longrightarrow> valid k \<Longrightarrow> current j s \<Longrightarrow> valid j \<Longrightarrow> current j (update k s)"
  using update_same update_other by (cases "j = k") auto

end

section \<open>A table in the order of the lids\<close>

definition names :: "plat \<Rightarrow> string list" where
  "names P = strVerInfo # map base_name (all_files P)"

definition in_order :: "plat \<Rightarrow> bytes list \<Rightarrow> bool" where
  "in_order P bl \<longleftrightarrow> map rec_name bl = names P"

text \<open>The state in which the library keeps the version file.\<close>

definition kept :: "plat \<Rightarrow> 'g world \<Rightarrow> bool" where
  "kept P w \<longleftrightarrow> plat_ok P \<and> distinct (names P) \<and> wf_world w \<and> faults w = [] \<and> generateFileVerlock \<notin> locks w \<and>
     (\<exists>bl. ver_table P w bl \<and> in_order P bl)"

lemma in_order_at:
  assumes "in_order P bl" and "lid_ok P lid"
  shows "Suc (nat lid) < length bl" and "rec_name (bl ! Suc (nat lid)) = base_name (file_of P lid)"
proof -
  have n: "nat lid < length (all_files P)" using assms(2) by (simp add: lid_ok_def nat_less_iff)
  have l: "length bl = Suc (length (all_files P))"
    using arg_cong [OF assms(1) [unfolded in_order_def], of length] by (simp add: names_def)
  show "Suc (nat lid) < length bl" using n l by simp
  have "map rec_name bl ! Suc (nat lid) = names P ! Suc (nat lid)" using assms(1) by (simp add: in_order_def)
  then show "rec_name (bl ! Suc (nat lid)) = base_name (file_of P lid)"
    using n l by (simp add: names_def file_of_def)
qed

lemma in_order_index:
  assumes "in_order P bl" and "lid_ok P lid" and "distinct (names P)"
  shows "index_of (base_name (file_of P lid)) bl = Some (Suc (nat lid))"
  using index_of_unique [of bl "Suc (nat lid)"] in_order_at [OF assms(1,2)] assms(1,3)
  by (simp add: in_order_def)

lemma version_of_in_order:
  "in_order P bl \<Longrightarrow> lid_ok P lid \<Longrightarrow>
   version_of bl (nat lid) (base_name (file_of P lid)) = Some (rec_ver (bl ! Suc (nat lid)))"
  using in_order_at by (simp add: version_of_def)

lemma in_order_update:
  assumes "in_order P bl" and "lid_ok P lid"
  shows "in_order P (bl[Suc (nat lid) := mkrec (file_of P lid)])"
proof -
  have "map rec_name (bl[Suc (nat lid) := mkrec (file_of P lid)]) = (map rec_name bl)[Suc (nat lid) := base_name (file_of P lid)]"
    using file_ok [OF assms(2)] by (simp add: map_update)
  also have "\<dots> = map rec_name bl"
    using in_order_at [OF assms] by (simp add: list_update_same_conv)
  finally show ?thesis using assms(1) by (simp add: in_order_def)
qed

lemma run_update_kept:
  assumes "kept P w" and "lid_ok P lid" and "ver_table P w bl" and "in_order P bl"
  shows "run_state (NVM_UpdateFileVerNo P lid VerUpdate) w =
    (True, used 2 (with_table P w (bl[Suc (nat lid) := mkrec (file_of P lid)])))"
  using assms in_order_index by (intro run_VerUpdate_found) (auto simp: kept_def)

lemma kept_table:
  assumes "kept P w"
  obtains bl where "ver_table P w bl" and "in_order P bl"
  using assms by (auto simp: kept_def)

lemma run_cmp_kept:
  assumes "kept P w" and "lid_ok P lid" and "ver_table P w bl" and "in_order P bl"
  shows "run_state (NVM_CmpFileVerNo P lid) w = (rec_ver (bl ! Suc (nat lid)) = cFileVer (file_of P lid), used 1 w)"
  using assms by (simp add: run_CmpFileVerNo version_of_in_order kept_def)

lemma updated_table:
  assumes "kept P w" and "lid_ok P lid" and "ver_table P w bl" and "in_order P bl"
  defines "cl \<equiv> bl[Suc (nat lid) := mkrec (file_of P lid)]"
  shows "ver_table P (used 2 (with_table P w cl)) cl" and "in_order P cl" and "kept P (used 2 (with_table P w cl))"
proof -
  have b: "blocks VERREC bl" "bl \<noteq> []" "rec_name (hd bl) = strVerInfo" "length bl * VERREC < 2 ^ 31"
    using assms(3) by (auto simp: ver_table_def)
  have "hd cl = hd bl" using b(2) by (cases bl) (simp_all add: cl_def)
  then show t: "ver_table P (used 2 (with_table P w cl)) cl"
    using ver_table_with [OF assms(3), of cl] b file_ok [OF assms(2)]
    by (simp add: cl_def blocks_update ver_table_def)
  show o: "in_order P cl" unfolding cl_def by (rule in_order_update [OF assms(4,2)])
  have wf: "wf_world (used 2 (with_table P w cl))"
    by (rule wf_later [where w = w]) (use assms(1) in \<open>simp_all add: kept_def\<close>)
  have "plat_ok P" "distinct (names P)" "faults w = []" "generateFileVerlock \<notin> locks w"
    using assms(1) by (simp_all add: kept_def)
  then show "kept P (used 2 (with_table P w cl))"
    unfolding kept_def using wf t o by (intro conjI exI [of _ cl]) simp_all
qed

lemma kept_used: "kept P w \<Longrightarrow> 0 \<le> n \<Longrightarrow> kept P (used n w)"
  by (auto simp: kept_def ver_table_def)

text \<open>The two operations as a client sees them.\<close>

definition update_ver :: "plat \<Rightarrow> int \<Rightarrow> nv_globals world \<Rightarrow> nv_globals world" where
  "update_ver P lid w = snd (run_state (NVM_UpdateFileVerNo P lid VerUpdate) w)"

definition current_ver :: "plat \<Rightarrow> int \<Rightarrow> nv_globals world \<Rightarrow> bool" where
  "current_ver P lid w = fst (run_state (NVM_CmpFileVerNo P lid) w)"

interpretation vs: version_store "kept P" "lid_ok P" "update_ver P" "current_ver P" for P
proof
  fix w :: "nv_globals world" and lid
  assume k: "kept P w" and l: "lid_ok P lid"
  obtain bl where bl: "ver_table P w bl" "in_order P bl" by (rule kept_table [OF k])
  note u = updated_table [OF k l bl]
  have r: "update_ver P lid w = used 2 (with_table P w (bl[Suc (nat lid) := mkrec (file_of P lid)]))"
    using run_update_kept [OF k l bl] by (simp add: update_ver_def)
  show "kept P (update_ver P lid w)" using u(3) by (simp add: r)
  show "current_ver P lid (update_ver P lid w)"
    using run_cmp_kept [OF u(3) l u(1,2)] in_order_at(1) [OF bl(2) l] file_ok [OF l]
    by (simp add: current_ver_def r)
  fix j assume j: "lid_ok P j" "j \<noteq> lid"
  have "Suc (nat j) \<noteq> Suc (nat lid)" using j l by (simp add: lid_ok_def eq_nat_nat_iff)
  then show "current_ver P j (update_ver P lid w) = current_ver P j w"
    using run_cmp_kept [OF u(3) j(1) u(1,2)] run_cmp_kept [OF k j(1) bl]
    by (simp add: current_ver_def r)
qed

section \<open>Generating\<close>

lemma default_in_order: "plat_ok P \<Longrightarrow> in_order P (default_table P)"
  using header_rec_props [of P]
  by (auto simp: in_order_def default_table_def names_def plat_ok_def list_all_iff)

section \<open>A sample system\<close>

lemma names_P0: "names P0 = [strVerInfo, ''FILE_VER'', ''WIFI'', ''BT_Addr'']"
  by (simp add: names_def all_files_def P0_def e_ver_def e_wifi_def e_bt_def base_name_def after_last_slash_def)

lemma distinct_names_P0 [simp]: "distinct (names P0)"
  by (simp add: names_P0 strVerInfo_def)

lemma ver_path_P0: "ver_path P0 = ''/nvdata/FILE_VER''"
  by (simp add: ver_path_def entry_def in_table_def P0_def e_ver_def)

lemma lid_ok_P0: "lid_ok P0 0" "lid_ok P0 1" "lid_ok P0 2"
  by (simp_all add: lid_ok_def all_files_def) (simp_all add: P0_def)

abbreviation sample_ver :: "nv_globals world" where
  "sample_ver \<equiv> disk [(''/nvdata/FILE_VER'', reg (concat (default_table P0)))]"

lemma kept_sample: "kept P0 sample_ver"
proof -
  have t: "ver_table P0 sample_ver (default_table P0)"
    using default_table_props [of P0] by (simp add: ver_table_def ver_path_P0)
  then show ?thesis
    unfolding kept_def using default_in_order [of P0] by (intro conjI exI [of _ "default_table P0"]) simp_all
qed

lemma default_at: "lid_ok P j \<Longrightarrow> default_table P ! Suc (nat j) = mkrec (file_of P j)"
  by (simp add: default_table_def file_of_def lid_ok_def nat_less_iff)

text \<open>
  On a system without a version file \<open>NVM_GenerateFileVer\<close> makes one in which every file of
  the tables compares as current, and gives back what it used.
\<close>

theorem GenerateFileVer_all_current:
  assumes "plat_ok P" and "distinct (names P)" and "wf_world w" and "faults w = []"
    and "locks w \<inter> {dirlock, generateFileVerlock} = {}" and "no_table P w"
  shows "let (r, w') = run_state (NVM_GenerateFileVer P True) w in
    r \<and> kept P w' \<and> fds w' = fds w \<and> locks w' = locks w \<and>
    (\<forall>j. lid_ok P j \<longrightarrow> fst (run_state (NVM_CmpFileVerNo P j) w'))"
proof -
  have l: "dirlock \<notin> locks w" "generateFileVerlock \<notin> locks w" using assms(5) by auto
  obtain w' where r: "run_state (NVM_GenerateFileVer P True) w = (True, w')" and t: "ver_table P w' (default_table P)"
    and w': "wf_world w'" "faults w' = []" "fds w' = fds w" "locks w' = locks w"
    by (rule run_GenerateFileVer [OF assms(1,3,4) l assms(6)])
  have o: "in_order P (default_table P)" by (rule default_in_order [OF assms(1)])
  have k: "kept P w'"
    unfolding kept_def using assms(1,2) w' l t o by (intro conjI exI [of _ "default_table P"]) simp_all
  have "fst (run_state (NVM_CmpFileVerNo P j) w')" if "lid_ok P j" for j
    using run_cmp_kept [OF k that t o] default_at [OF that] file_ok [OF that] by simp
  then show ?thesis using r k w'(3,4) by simp
qed

theorem GenerateFileVer_all_current_witness:
  "fst (run_state (NVM_CmpFileVerNo P0 2) (snd (run_state (NVM_GenerateFileVer P0 True) (disk []))))"
proof -
  have "no_table P0 (disk [])"
    by (simp add: no_table_def ver_path_P0 is_dir_def new_inode_def)
  then have "let (r, w') = run_state (NVM_GenerateFileVer P0 True) (disk []) in
    r \<and> kept P0 w' \<and> fds w' = fds (disk []) \<and> locks w' = locks (disk []) \<and>
    (\<forall>j. lid_ok P0 j \<longrightarrow> fst (run_state (NVM_CmpFileVerNo P0 j) w'))"
    by (intro GenerateFileVer_all_current) simp_all
  then show ?thesis using lid_ok_P0 by (simp add: case_prod_unfold Let_def)
qed

section \<open>Updating\<close>

text \<open>
  Recording the version of one file succeeds, makes that file current and changes the verdict
  on no other file.
\<close>

theorem UpdateFileVerNo_own_record:
  assumes "kept P w" and "lid_ok P lid" and "lid_ok P j"
  shows "let (r, w') = run_state (NVM_UpdateFileVerNo P lid VerUpdate) w in
    r \<and> kept P w' \<and>
    fst (run_state (NVM_CmpFileVerNo P j) w') = (j = lid \<or> fst (run_state (NVM_CmpFileVerNo P j) w))"
proof -
  obtain bl where bl: "ver_table P w bl" "in_order P bl" by (rule kept_table [OF assms(1)])
  have "fst (run_state (NVM_UpdateFileVerNo P lid VerUpdate) w)"
    by (simp add: run_update_kept [OF assms(1,2) bl])
  then show ?thesis
    using vs.update_inv [OF assms(1,2)] vs.update_same [OF assms(1,2)] vs.update_other [OF assms]
    by (cases "j = lid") (auto simp: update_ver_def current_ver_def case_prod_unfold Let_def)
qed

theorem UpdateFileVerNo_own_record_witness:
  "fst (run_state (NVM_CmpFileVerNo P0 1) (snd (run_state (NVM_UpdateFileVerNo P0 1 VerUpdate) sample_ver)))"
  using UpdateFileVerNo_own_record [OF kept_sample lid_ok_P0(2) lid_ok_P0(2)] by (simp add: case_prod_unfold Let_def)

text \<open>
  C35.  After any series of updates the files named in it are current, and every other file is
  current exactly when it was before.
\<close>

theorem UpdateFileVerNo_series:
  assumes "kept P w" and "list_all (lid_ok P) lids" and "lid_ok P j"
  shows "fst (run_state (NVM_CmpFileVerNo P j)
      (fold (\<lambda>lid w. snd (run_state (NVM_UpdateFileVerNo P lid VerUpdate) w)) lids w)) =
    (j \<in> set lids \<or> fst (run_state (NVM_CmpFileVerNo P j) w))"
  using vs.updates_current [OF assms] by (simp add: update_ver_def [abs_def] current_ver_def)

theorem UpdateFileVerNo_series_witness:
  "fst (run_state (NVM_CmpFileVerNo P0 2)
    (fold (\<lambda>lid w. snd (run_state (NVM_UpdateFileVerNo P0 lid VerUpdate) w)) [1, 2] sample_ver))"
  using UpdateFileVerNo_series [OF kept_sample _ lid_ok_P0(3), of "[1, 2]"] lid_ok_P0 by simp

section \<open>Deleting and adding\<close>

lemma version_of_unique:
  assumes "distinct (map rec_name cl)" and "p < length cl"
  shows "version_of cl x (rec_name (cl ! p)) = Some (rec_ver (cl ! p))"
proof (cases "Suc x < length cl \<and> rec_name (cl ! Suc x) = rec_name (cl ! p)")
  case True
  then have "Suc x = p"
    using assms nth_eq_iff_index_eq [OF assms(1), of "Suc x" p] by simp
  then show ?thesis using True by (simp add: version_of_def)
next
  case False
  then show ?thesis using index_of_unique [OF assms] by (auto simp: version_of_def)
qed

lemma version_of_absent:
  assumes "nm \<notin> rec_name ` set cl"
  shows "version_of cl x nm = None"
proof -
  have "rec_name (cl ! Suc x) \<noteq> nm" if "Suc x < length cl"
    using assms that by (metis image_eqI nth_mem)
  then show ?thesis
    using assms index_of_None [of nm cl] by (auto simp: version_of_def)
qed

lemma without_props:
  assumes "k < length xs"
  shows "length (without k xs) = length xs - 1"
    and "j < k \<Longrightarrow> without k xs ! j = xs ! j"
    and "k < j \<Longrightarrow> j < length xs \<Longrightarrow> without k xs ! (j - 1) = xs ! j"
    and "map f (without k xs) = without k (map f xs)"
    and "insert_at k x (without k xs) = xs[k := x]"
proof -
  show "length (without k xs) = length xs - 1" using assms by (simp add: without_def)
  show "j < k \<Longrightarrow> without k xs ! j = xs ! j" using assms by (simp add: without_def nth_append)
  show "k < j \<Longrightarrow> j < length xs \<Longrightarrow> without k xs ! (j - 1) = xs ! j"
    using assms by (auto simp: without_def nth_append min_def)
  show "map f (without k xs) = without k (map f xs)" by (simp add: without_def take_map drop_map)
  show "insert_at k x (without k xs) = xs[k := x]"
    using assms by (simp add: insert_at_def without_def upd_conv_take_nth_drop min_def)
qed

lemma distinct_without:
  assumes "distinct xs" and "k < length xs"
  shows "distinct (without k xs)" and "xs ! k \<notin> set (without k xs)"
proof -
  have s: "xs = take k xs @ xs ! k # drop (Suc k) xs" using assms(2) by (rule id_take_nth_drop)
  have "distinct (take k xs @ xs ! k # drop (Suc k) xs)" using assms(1) s by simp
  then show "distinct (without k xs)" "xs ! k \<notin> set (without k xs)" by (auto simp: without_def)
qed

lemma deleted_table:
  assumes "kept P w" and "lid_ok P lid" and "ver_table P w bl" and "in_order P bl"
  defines "cl \<equiv> without (Suc (nat lid)) bl"
  shows "run_state (NVM_UpdateFileVerNo P lid VerDel) w = (True, used 2 (with_table P w cl))"
    and "ver_table P (used 2 (with_table P w cl)) cl" and "wf_world (used 2 (with_table P w cl))"
proof -
  note k = in_order_at [OF assms(4,2)]
  have b: "blocks VERREC bl" "bl \<noteq> []" "rec_name (hd bl) = strVerInfo" "length bl * VERREC < 2 ^ 31"
    using assms(3) by (auto simp: ver_table_def)
  show "run_state (NVM_UpdateFileVerNo P lid VerDel) w = (True, used 2 (with_table P w cl))"
    unfolding cl_def using assms(1-3) k(1) by (intro run_VerDel) (simp_all add: kept_def lid_ok_def)
  have "cl \<noteq> [] \<and> hd cl = hd bl" using b(2) by (cases bl) (simp_all add: cl_def without_def)
  then show "ver_table P (used 2 (with_table P w cl)) cl"
    using ver_table_with [OF assms(3), of cl] b k(1)
    by (simp add: cl_def without_props(1) ver_table_def) (simp add: without_def)
  show "wf_world (used 2 (with_table P w cl))"
    by (rule wf_later [where w = w]) (use assms(1) in \<open>simp_all add: kept_def\<close>)
qed

lemma deleted_compare:
  assumes "kept P w" and "lid_ok P lid" and "lid_ok P j" and "ver_table P w bl" and "in_order P bl"
  shows "fst (run_state (NVM_CmpFileVerNo P j) (used 2 (with_table P w (without (Suc (nat lid)) bl)))) =
    (j \<noteq> lid \<and> fst (run_state (NVM_CmpFileVerNo P j) w))"
proof -
  let ?k = "Suc (nat lid)" and ?m = "Suc (nat j)" and ?nm = "base_name (file_of P j)"
  let ?cl = "without ?k bl"
  note k = in_order_at [OF assms(5,2)] and m = in_order_at [OF assms(5,3)]
  have dn: "distinct (map rec_name bl)" using assms(1,5) by (simp add: kept_def in_order_def)
  have dc: "distinct (map rec_name ?cl)" "map rec_name bl ! ?k \<notin> set (map rec_name ?cl)"
    using distinct_without [OF dn, of ?k] k(1) by (simp_all add: without_props(4))
  note t = deleted_table [OF assms(1,2,4,5)]
  have r: "fst (run_state (NVM_CmpFileVerNo P j) (used 2 (with_table P w ?cl))) =
      (version_of ?cl (nat j) ?nm = Some (cFileVer (file_of P j)))"
    using t(2,3) assms(1,3) by (simp add: run_CmpFileVerNo kept_def)
  have r0: "fst (run_state (NVM_CmpFileVerNo P j) w) = (rec_ver (bl ! ?m) = cFileVer (file_of P j))"
    by (simp add: run_cmp_kept [OF assms(1,3,4,5)])
  have inj: "nat j = nat lid \<Longrightarrow> j = lid"
    using assms(2,3) by (simp add: lid_ok_def eq_nat_nat_iff)
  consider "j = lid" | "?m < ?k" "j \<noteq> lid" | "?k < ?m" "j \<noteq> lid"
    using inj by (cases "nat j" "nat lid" rule: linorder_cases) auto
  then show ?thesis
  proof cases
    case 1
    have "?nm \<notin> rec_name ` set ?cl" using dc(2) k 1 by simp
    then show ?thesis unfolding r using 1 by (simp add: version_of_absent)
  next
    case 2
    have "?cl ! ?m = bl ! ?m" by (rule without_props(2) [OF k(1) 2(1)])
    moreover have "?m < length ?cl" unfolding without_props(1) [OF k(1)] using 2(1) k(1) by linarith
    ultimately have "version_of ?cl (nat j) ?nm = Some (rec_ver (bl ! ?m))"
      using version_of_unique [OF dc(1), of ?m "nat j"] m(2) by simp
    then show ?thesis using 2 by (simp add: r r0)
  next
    case 3
    have "?cl ! (?m - 1) = bl ! ?m" by (rule without_props(3) [OF k(1) 3(1) m(1)])
    moreover have "?m - 1 < length ?cl" unfolding without_props(1) [OF k(1)] using 3(1) m(1) by linarith
    ultimately have "version_of ?cl (nat j) ?nm = Some (rec_ver (bl ! ?m))"
      using version_of_unique [OF dc(1), of "?m - 1" "nat j"] m(2) by simp
    then show ?thesis using 3 by (simp add: r r0)
  qed
qed

text \<open>
  Deleting the record of one file succeeds, makes that file compare as changed, and leaves
  the verdict on every other file as it was, although the records behind it have moved.
\<close>

theorem UpdateFileVerNo_delete:
  assumes "kept P w" and "lid_ok P lid" and "lid_ok P j"
  shows "let (r, w') = run_state (NVM_UpdateFileVerNo P lid VerDel) w in
    r \<and> fst (run_state (NVM_CmpFileVerNo P j) w') = (j \<noteq> lid \<and> fst (run_state (NVM_CmpFileVerNo P j) w))"
proof -
  obtain bl where bl: "ver_table P w bl" "in_order P bl" by (rule kept_table [OF assms(1)])
  show ?thesis
    using deleted_table(1) [OF assms(1,2) bl] deleted_compare [OF assms bl] by simp
qed

theorem UpdateFileVerNo_delete_witness:
  "\<not> fst (run_state (NVM_CmpFileVerNo P0 1) (snd (run_state (NVM_UpdateFileVerNo P0 1 VerDel) sample_ver)))"
  using UpdateFileVerNo_delete [OF kept_sample lid_ok_P0(2) lid_ok_P0(2)] by (simp add: case_prod_unfold Let_def)

text \<open>
  Adding the record again after deleting it gives the same table as updating it in place: the
  file is current, every other verdict is unchanged and the table is in the order of the lids.
\<close>

theorem UpdateFileVerNo_delete_add:
  assumes "kept P w" and "lid_ok P lid" and "lid_ok P j"
  shows "let w1 = snd (run_state (NVM_UpdateFileVerNo P lid VerDel) w);
             (r, w2) = run_state (NVM_UpdateFileVerNo P lid VerAdd) w1
    in r \<and> kept P w2 \<and> fst (run_state (NVM_CmpFileVerNo P j) w2) = (j = lid \<or> fst (run_state (NVM_CmpFileVerNo P j) w))"
proof -
  obtain bl where bl: "ver_table P w bl" "in_order P bl" by (rule kept_table [OF assms(1)])
  let ?k = "Suc (nat lid)"
  let ?cl = "without ?k bl" and ?ul = "bl[?k := mkrec (file_of P lid)]"
  let ?w1 = "used 2 (with_table P w ?cl)"
  note k = in_order_at [OF bl(2) assms(2)]
  note d = deleted_table [OF assms(1,2) bl]
  have ins: "insert_at ?k (mkrec (file_of P lid)) ?cl = ?ul" by (rule without_props(5) [OF k(1)])
  have sz: "length bl * 74 < 2 ^ 31" using bl(1) by (simp add: ver_table_def)
  have f: "?k \<le> length ?cl" "Suc (length ?cl) * 74 < 2 ^ 31"
    using k(1) sz by (simp_all add: without_props(1))
  have c: "faults ?w1 = []" "generateFileVerlock \<notin> locks ?w1"
    using assms(1) by (simp_all add: kept_def)
  obtain n where n: "0 \<le> n" and a: "run_state (NVM_UpdateFileVerNo P lid VerAdd) ?w1 = (True, used n (with_table P ?w1 ?ul))"
    using run_VerAdd [OF assms(2) d(3) c d(2) f] by (auto simp: ins)
  have e: "used n (with_table P ?w1 ?ul) = used n (used 2 (with_table P w ?ul))"
    using with_table_idem [OF bl(1)] by (simp add: used_def with_table_def split: option.split)
  note u = updated_table [OF assms(1,2) bl]
  have kn: "kept P (used n (used 2 (with_table P w ?ul)))"
    by (rule kept_used [OF u(3) n])
  have tn: "ver_table P (used n (used 2 (with_table P w ?ul))) ?ul" using u(1) by (simp add: ver_table_def)
  have "fst (run_state (NVM_CmpFileVerNo P j) (used n (used 2 (with_table P w ?ul)))) =
      (j = lid \<or> fst (run_state (NVM_CmpFileVerNo P j) w))"
    using run_cmp_kept [OF kn assms(3) tn u(2)] run_cmp_kept [OF assms(1,3) bl] k(1) file_ok [OF assms(2)] assms(2,3)
    by (auto simp: nth_list_update lid_ok_def eq_nat_nat_iff)
  then show ?thesis using d(1) a kn by (simp add: e)
qed

theorem UpdateFileVerNo_delete_add_witness:
  "fst (run_state (NVM_CmpFileVerNo P0 1) (snd (run_state (NVM_UpdateFileVerNo P0 1 VerAdd)
     (snd (run_state (NVM_UpdateFileVerNo P0 1 VerDel) sample_ver)))))"
  using UpdateFileVerNo_delete_add [OF kept_sample lid_ok_P0(2) lid_ok_P0(2)] by (simp add: case_prod_unfold Let_def)

section \<open>Corners\<close>

text \<open>
  Without a version file an update unlocks a mutex nobody holds, and the result is false; a failed
  read of the header stores a NUL before the start of the buffer.
\<close>

lemma update_without_file_unlocks:
  "let (r, w') = run_state (NVM_UpdateFileVerNo P0 1 VerUpdate) (disk []) in \<not> r \<and> ubs w' = [BadUnlock]"
proof -
  obtain t where t: "NVM_GetCfgFileTable P0 1 = Some t" "in_table t (real_lid P0 1)"
    by (rule table_lookup [OF lid_ok_P0(2)])
  show ?thesis
    using t by (simp add: NVM_UpdateFileVerNo_def ver_lookup_def run ver_path_P0 mutex_unlock_def modify_def Let_def)
qed

lemma failed_read_underflows: "OutOfBounds \<in> set (ubs (snd (run_state (set_str None old) w)))"
  by (simp add: set_str_def check_def ub_def modify_def)

text \<open>
  In the old format an update is always turned into an insertion: the version of lid 1 is put in
  front of the old one, and the versions behind it belong to the wrong files.
\<close>

lemma old_format_update_shifts:
  "idata (the (fs (snd (run_state (NVM_UpdateFileVerNo P0 1 VerUpdate)
      (disk [(''/nvdata/FILE_VER'', reg (''v0..v1..v2..''))]))) ''/nvdata/FILE_VER'')) =
   ''v0..'' @ cFileVer e_wifi @ ''v1..v2..''"
proof -
  obtain t where t: "NVM_GetCfgFileTable P0 1 = Some t" "in_table t (real_lid P0 1)"
    by (rule table_lookup [OF lid_ok_P0(2)])
  have e: "file_of P0 1 = e_wifi" by (simp add: file_of_def all_files_def P0_def)
  show ?thesis
    using t
    by (simp add: NVM_UpdateFileVerNo_def ver_lookup_def run ver_path_P0 run_stat_size st_size_def record_count_def
        run_set_str new_fd_def wants_write_def strVerInfo_def cstr_def ver_add_def run_lid_entry [OF lid_ok_P0(2)]
        replace_file_def e splice_def Let_def)
qed

end
