(* ===== verification/Checksum.thy ===== *)
theory Checksum
  imports NvTypes
begin

text \<open>
  The alternating checksum that \<open>nvram/libnvram.c\<close> uses in four places (check byte of a file,
  check byte of the backup flag, checksum of the collected backup): two operations applied in
  turn to an accumulator.  The locale states what makes it an error-detecting code: both
  operations are injective in each argument.
\<close>

section \<open>The alternating fold\<close>

fun alt_fold :: "('a \<Rightarrow> 'a \<Rightarrow> 'a) \<Rightarrow> ('a \<Rightarrow> 'a \<Rightarrow> 'a) \<Rightarrow> 'a \<Rightarrow> 'a list \<Rightarrow> 'a" where
  "alt_fold f g c [] = c"
| "alt_fold f g c (x # xs) = alt_fold g f (f c x) xs"

text \<open>Which operation comes next after \<open>xs\<close>.\<close>

lemma alt_fold_append:
  "alt_fold f g c (xs @ ys) =
     (if even (length xs) then alt_fold f g (alt_fold f g c xs) ys
      else alt_fold g f (alt_fold f g c xs) ys)"
  by (induction xs arbitrary: f g c) auto

locale alternating =
  fixes f g :: "'a \<Rightarrow> 'a \<Rightarrow> 'a"
  assumes f_acc: "f c x = f d x \<Longrightarrow> c = d"
    and f_val: "f c x = f c y \<Longrightarrow> x = y"
    and g_acc: "g c x = g d x \<Longrightarrow> c = d"
    and g_val: "g c x = g c y \<Longrightarrow> x = y"

lemma alternating_swap:
  assumes "alternating f g"
  shows "alternating g f"
  by (rule alternating.intro)
     (erule alternating.f_acc [OF assms] alternating.f_val [OF assms]
        alternating.g_acc [OF assms] alternating.g_val [OF assms])+

lemma alternating_acc:
  "alternating f g \<Longrightarrow> alt_fold f g c xs = alt_fold f g d xs \<Longrightarrow> c = d"
proof (induction xs arbitrary: f g c d)
  case (Cons x xs)
  have "f c x = f d x"
    by (rule Cons.IH [OF alternating_swap [OF Cons.prems(1)]]) (use Cons.prems(2) in simp)
  with Cons.prems(1) show ?case by (rule alternating.f_acc)
qed simp

lemma alternating_val:
  assumes "alternating f g" and "alt_fold f g c (x # xs) = alt_fold f g c (y # xs)"
  shows "x = y"
proof -
  have "f c x = f c y"
    by (rule alternating_acc [OF alternating_swap [OF assms(1)]]) (use assms(2) in simp)
  with assms(1) show ?thesis by (rule alternating.f_val)
qed

context alternating
begin

lemma start_determined: "alt_fold f g c xs = alt_fold f g d xs \<Longrightarrow> c = d"
  by (rule alternating_acc [OF alternating_axioms])

text \<open>Changing one element always changes the result.\<close>

lemma one_change:
  assumes "alt_fold f g c (xs @ x # ys) = alt_fold f g c (xs @ y # ys)"
  shows "x = y"
proof (cases "even (length xs)")
  case True
  with assms show ?thesis
    by (simp only: alt_fold_append if_True) (rule alternating_val [OF alternating_axioms])
next
  case False
  with assms show ?thesis
    by (simp only: alt_fold_append if_False)
       (rule alternating_val [OF alternating_swap [OF alternating_axioms]])
qed

lemma one_update:
  assumes "i < length xs" and "v \<noteq> xs ! i"
  shows "alt_fold f g c (xs[i := v]) \<noteq> alt_fold f g c xs"
proof
  assume "alt_fold f g c (xs[i := v]) = alt_fold f g c xs"
  then have "alt_fold f g c (take i xs @ v # drop (Suc i) xs) = alt_fold f g c (take i xs @ xs ! i # drop (Suc i) xs)"
    using assms(1) by (simp add: upd_conv_take_nth_drop id_take_nth_drop [symmetric])
  then have "v = xs ! i" by (rule one_change)
  with assms(2) show False ..
qed

end

lemma xor_cancel_acc: "(a :: 'a::len word) XOR x = b XOR x \<Longrightarrow> a = b"
  by (metis xor.assoc xor.right_neutral xor_self_eq)

lemma xor_cancel_val: "(a :: 'a::len word) XOR x = a XOR y \<Longrightarrow> x = y"
  by (metis xor.commute xor_cancel_acc)

lemma alternating_plus_xor: "alternating ((+) :: 'a::len word \<Rightarrow> _) (XOR)"
  by unfold_locales (auto dest: xor_cancel_acc xor_cancel_val)

text \<open>Bytes as checksum operands.\<close>

abbreviation b8 :: "char \<Rightarrow> u8" where "b8 c \<equiv> of_char c"

definition c8 :: "u8 \<Rightarrow> char" where
  "c8 w = char_of (unat w)"

lemma unat_b8: "unat (b8 c) = of_char c"
proof -
  have "b8 c = word_of_nat (of_char c)" by (rule of_nat_of_char [symmetric])
  then have "unat (b8 c) = take_bit 8 (of_char c)" by (simp only: unsigned_of_nat) simp
  then show ?thesis by (simp add: take_bit_eq_mod)
qed

lemma c8_b8 [simp]: "c8 (b8 c) = c"
  by (simp add: c8_def unat_b8)

lemma b8_c8 [simp]: "b8 (c8 w) = w"
proof -
  have "unat (b8 (c8 w)) = unat w"
    using unat_bound [of w] by (simp add: unat_b8) (simp add: c8_def)
  then show ?thesis by (simp only: word_unat_eq_iff)
qed

lemma of_char_u8_inject [simp]: "b8 c = b8 d \<longleftrightarrow> c = d"
  by (metis c8_b8)

lemma c8_inject [simp]: "c8 v = c8 w \<longleftrightarrow> v = w"
  by (metis b8_c8)

lemma c8_0 [simp]: "c8 0 = CHR 0x00"
  by (simp add: c8_def char_of_def)

lemma c8_eq_0 [simp]: "CHR 0x00 = c8 w \<longleftrightarrow> w = 0" "c8 w = CHR 0x00 \<longleftrightarrow> w = 0"
  using c8_inject [of 0 w] c8_inject [of w 0] by (simp_all del: c8_inject)

lemma eq_b8: "x = b8 c \<longleftrightarrow> c = c8 x"
  by (metis b8_c8 c8_b8)

end
