(* ===== verification/CheckNo.thy ===== *)
theory CheckNo
  imports Checksum Faulty Samples
begin

text \<open>
  The check byte of an NVRAM file (\<open>NVM_ComputeCheckNo\<close>, \<open>NVM_CheckFileSize\<close>,
  \<open>NVM_SetCheckNo\<close>, \<open>NVM_CheckFile\<close> of \<open>nvram/libnvram.c\<close>): a protected file ends with the flag
  byte 0xAA and a checksum of everything before it.  \<open>check_no\<close> is the checksum as a function
  of the content; the lemmas \<open>run_*\<close> give each operation as a function of the file system when
  no call fails, and \<open>CheckFile_sound\<close> covers every pattern of failing calls.
\<close>

section \<open>Operations\<close>

text \<open>The loop of \<open>NVM_ComputeCheckNo\<close>: \<open>None\<close> is a failed one-byte read.\<close>

primrec check_loop :: "int \<Rightarrow> nat \<Rightarrow> bool \<Rightarrow> u8 \<Rightarrow> u8 option nv" where
  "check_loop fd 0 flag cCheckNo = ret (Some cCheckNo)"
| "check_loop fd (Suc n) flag cCheckNo = do {
     r \<leftarrow> sys_read fd 1;
     if rd_len r = 1
     then let buf = b8 (hd (the r))
          in if flag then check_loop fd n False (cCheckNo XOR buf)
             else check_loop fd n True (cCheckNo + buf)
     else ret None }"

text \<open>The result is the value returned and the flag left in \<open>*pCheckNo_flag\<close>.\<close>

definition NVM_ComputeCheckNo :: "path option \<Rightarrow> char \<Rightarrow> bool \<Rightarrow> (u8 \<times> char) nv" where
  "NVM_ComputeCheckNo filepath flag0 IS_OLD_FILE = (case filepath of
     None \<Rightarrow> ret (0, flag0)
   | Some p \<Rightarrow> do {
       st \<leftarrow> sys_stat p;
       case st of
         None \<Rightarrow> ret (0, CHR 0xFF)
       | Some st \<Rightarrow> do {
           iFileDesc \<leftarrow> sys_open p [O_RDONLY] 0;
           if iFileDesc = -1 then ret (0, CHR 0xFF)
           else do {
             let ilooptimes = (if IS_OLD_FILE then st_size st - 2 else st_size st) mod 2 ^ 32;
             r \<leftarrow> check_loop iFileDesc (nat ilooptimes) False 0;
             _ \<leftarrow> sys_close iFileDesc;
             case r of None \<Rightarrow> ret (0, CHR 0xFF) | Some cCheckNo \<Rightarrow> ret (cCheckNo, flag0) } } })"

text \<open>Sizes are compared as the code does it: an \<open>int\<close> product against a signed file size, and
  against the unsigned 64-bit \<open>st_size - 2 * sizeof(char)\<close>.\<close>

definition table_size :: "tcfg_file \<Rightarrow> int" where
  "table_size e = (case stDefualType e of
     MULTIPLE_DEFUALT_REC \<Rightarrow> to_int32 (i4RecNum e * i4RecNum e * i4RecSize e)
   | _ \<Rightarrow> to_int32 (i4RecNum e * i4RecSize e))"

definition NVM_CheckFileSize :: "int \<Rightarrow> tcfg_file list \<Rightarrow> int nv" where
  "NVM_CheckFileSize iRealFileLid pCfgFielTable = do {
     check (in_table pCfgFielTable iRealFileLid) OutOfBounds;
     let e = entry pCfgFielTable iRealFileLid;
     st \<leftarrow> sys_stat (cFileName e);
     case st of None \<Rightarrow> ret (-1)
     | Some st \<Rightarrow>
         if table_size e = st_size st then ret 0
         else if table_size e mod 2 ^ 64 = (st_size st - 2) mod 2 ^ 64 then ret 1
         else ret (-1) }"

definition NVM_SetCheckNo :: "plat \<Rightarrow> path option \<Rightarrow> bool \<Rightarrow> bool nv" where
  "NVM_SetCheckNo P filepath isOldFile = do {
     (cCheckNo, cCheckFlag) \<leftarrow> NVM_ComputeCheckNo filepath (CHR 0x00) isOldFile;
     if char_int P cCheckFlag = 0xFF then ret False
     else do {
       iFileDesc \<leftarrow> (case filepath of None \<Rightarrow> ret (-1) | Some p \<Rightarrow> sys_open p [O_RDWR, O_SYNC] 0);
       if iFileDesc = -1 then ret False
       else do {
         pos \<leftarrow> (if isOldFile then sys_lseek iFileDesc (-2) SEEK_END
                 else sys_lseek iFileDesc 0 SEEK_END);
         if pos < 0 then do { _ \<leftarrow> sys_close iFileDesc; ret False }
         else do {
           n \<leftarrow> sys_write iFileDesc [CHR 0xAA];
           if n \<noteq> 1 then do { _ \<leftarrow> sys_close iFileDesc; ret False }
           else do {
             m \<leftarrow> sys_write iFileDesc [c8 cCheckNo];
             if m = 1 then do { _ \<leftarrow> sys_close iFileDesc; ret True }
             else do { _ \<leftarrow> sys_close iFileDesc; ret False } } } } } }"

definition NVM_CheckFile :: "plat \<Rightarrow> path option \<Rightarrow> bool nv" where
  "NVM_CheckFile P filepath = (case filepath of
     None \<Rightarrow> ret False
   | Some p \<Rightarrow> do {
       (cCheckNo, cCheckFlag) \<leftarrow> NVM_ComputeCheckNo (Some p) (CHR 0x00) True;
       if char_int P cCheckFlag = 0xFF then ret False
       else do {
         iFileDesc \<leftarrow> sys_open p [O_RDONLY] 0;
         if iFileDesc = -1 then ret False
         else do {
           pos \<leftarrow> sys_lseek iFileDesc (-2) SEEK_END;
           if pos < 0 then do { _ \<leftarrow> sys_close iFileDesc; ret False }
           else do {
             r \<leftarrow> sys_read iFileDesc 2;
             if rd_len r = 2
             then let cCheckNo_file = the r
                  in if cCheckNo_file ! 0 = CHR 0xAA
                     then if cCheckNo_file ! 1 = c8 cCheckNo
                          then do { _ \<leftarrow> sys_close iFileDesc; ret True }
                          else do { _ \<leftarrow> sys_close iFileDesc; ret False }
                     else do { _ \<leftarrow> sys_close iFileDesc; ret False }
             else do { _ \<leftarrow> sys_close iFileDesc; ret False } } } } })"

section \<open>Resources\<close>

lemma neutral_check_loop: "neutral {} (check_loop fd n flag c)"
proof (rule neutralI)
  fix A and Q :: "u8 option \<Rightarrow> res \<Rightarrow> bool"
  assume "\<And>r. Q r A"
  then show "rspec A (check_loop fd n flag c) Q"
    by (induction n arbitrary: flag c) (auto intro!: rs simp: Let_def)
qed

lemma neutral_ComputeCheckNo: "neutral {} (NVM_ComputeCheckNo p f b)"
  by (rule neutralI)
     (auto simp: NVM_ComputeCheckNo_def intro!: rs neutral_rs [OF neutral_check_loop])

lemma neutral_CheckFileSize: "neutral {} (NVM_CheckFileSize lid t)"
  by (rule neutralI) (auto simp: NVM_CheckFileSize_def intro!: rs)

lemma neutral_SetCheckNo: "neutral {} (NVM_SetCheckNo P p b)"
  by (rule neutralI)
     (auto simp: NVM_SetCheckNo_def intro!: rs neutral_rs [OF neutral_ComputeCheckNo])

lemma neutral_CheckFile: "neutral {} (NVM_CheckFile P p)"
  by (rule neutralI)
     (auto simp: NVM_CheckFile_def intro!: rs neutral_rs [OF neutral_ComputeCheckNo])

section \<open>The checksum as a function of the content\<close>

definition check_no :: "bytes \<Rightarrow> u8" where
  "check_no d = alt_fold (+) (XOR) 0 (map b8 d)"

text \<open>A file that carries a valid check pair.\<close>

definition checked :: "bytes \<Rightarrow> bool" where
  "checked d \<longleftrightarrow> 2 \<le> length d \<and> d ! (length d - 2) = CHR 0xAA \<and>
     d ! (length d - 1) = c8 (check_no (take (length d - 2) d))"

interpretation byte_sum: alternating "(+) :: u8 \<Rightarrow> u8 \<Rightarrow> u8" "(XOR)"
  by (rule alternating_plus_xor)

lemma check_no_update:
  "i < length d \<Longrightarrow> v \<noteq> d ! i \<Longrightarrow> check_no (d[i := v]) \<noteq> check_no d"
  unfolding check_no_def map_update by (rule byte_sum.one_update) simp_all

lemma checked_append: "checked (d @ [a, b]) \<longleftrightarrow> a = CHR 0xAA \<and> b = c8 (check_no d)"
  by (simp add: checked_def nth_append)

lemma drop_hd: "i < length xs \<Longrightarrow> take (Suc 0) (drop i xs) = [xs ! i]"
  by (simp add: take_Suc_conv_app_nth hd_drop_conv_nth [symmetric] take_Suc)

lemma take_drop_Suc:
  "i < length xs \<Longrightarrow> take (Suc n) (drop i xs) = xs ! i # take n (drop (Suc i) xs)"
  by (simp add: Cons_nth_drop_Suc [symmetric])

lemma run_check_loop:
  assumes "faults w = []" and "fds w fd = Some d" and "fs w (fd_path d) = Some i" and "ikind i \<noteq> Dir"
    and "fd_rd d" and "fd_pos d + n \<le> length (idata i)"
  shows "run_state (check_loop fd n flag c) w =
    (Some (if flag then alt_fold (XOR) (+) c (map b8 (take n (drop (fd_pos d) (idata i))))
           else alt_fold (+) (XOR) c (map b8 (take n (drop (fd_pos d) (idata i))))),
     w\<lparr>fds := (fds w)(fd \<mapsto> d\<lparr>fd_pos := fd_pos d + n\<rparr>)\<rparr>)"
  using assms
proof (induction n arbitrary: w d flag c)
  case 0
  then have "(fds w)(fd \<mapsto> d) = fds w" by auto
  then show ?case by simp
next
  case (Suc n)
  define w' where "w' = w\<lparr>fds := (fds w)(fd \<mapsto> d\<lparr>fd_pos := Suc (fd_pos d)\<rparr>)\<rparr>"
  have r: "run_state (sys_read fd (Suc 0)) w = (Some [idata i ! fd_pos d], w')"
    using Suc.prems by (simp add: run drop_hd w'_def)
  have step: "run_state (check_loop fd n b x) w' =
     (Some (if b then alt_fold (XOR) (+) x (map b8 (take n (drop (Suc (fd_pos d)) (idata i))))
            else alt_fold (+) (XOR) x (map b8 (take n (drop (Suc (fd_pos d)) (idata i))))),
      w\<lparr>fds := (fds w)(fd \<mapsto> d\<lparr>fd_pos := fd_pos d + Suc n\<rparr>)\<rparr>)" for b x
    using Suc.prems by (subst Suc.IH [where d = "d\<lparr>fd_pos := Suc (fd_pos d)\<rparr>"]) (simp_all add: w'_def)
  show ?case
    using Suc.prems by (cases flag) (simp_all add: r step take_drop_Suc Let_def fun_upd_def)
qed

section \<open>The operations when no call fails\<close>

text \<open>How many bytes the check covers.\<close>

definition covered :: "bool \<Rightarrow> bytes \<Rightarrow> bytes" where
  "covered old d = (if old then take (length d - 2) d else d)"

lemma run_ComputeCheckNo [run]:
  assumes "wf_world w" and "faults w = []" and "fs w p = Some i" and "ikind i = Reg"
    and "length (idata i) < 2 ^ 32" and "old \<longrightarrow> 2 \<le> length (idata i)"
  shows "run_state (NVM_ComputeCheckNo (Some p) f old) w = ((check_no (covered old (idata i)), f), used 1 w)"
proof -
  have n: "nat ((if old then st_size i - 2 else st_size i) mod 2 ^ 32) =
      (if old then length (idata i) - 2 else length (idata i))"
    using assms by (auto simp: st_size_def nat_diff_distrib mod_pos_pos_trivial)
  show ?thesis
    using assms n
    by (cases old) (simp_all add: NVM_ComputeCheckNo_def run new_fd_def run_check_loop check_no_def covered_def
        used_def Let_def)
qed

lemma run_SetCheckNo [run]:
  assumes "wf_world w" and "faults w = []" and "fs w p = Some i" and "ikind i = Reg"
    and "length (idata i) < 2 ^ 32" and "old \<longrightarrow> 2 \<le> length (idata i)"
  shows "run_state (NVM_SetCheckNo P (Some p) old) w =
    (True, used 2 (w\<lparr>fs := (fs w)(p \<mapsto> i\<lparr>idata :=
        covered old (idata i) @ [CHR 0xAA, c8 (check_no (covered old (idata i)))]\<rparr>)\<rparr>))"
  using assms
  by (cases old) (simp_all add: NVM_SetCheckNo_def run new_fd_def wants_write_def char_int_def covered_def used_def
      splice_def nat_diff_distrib Suc_diff_le)

lemma run_CheckFile [run]:
  assumes "wf_world w" and "faults w = []" and "fs w p = Some i" and "ikind i = Reg"
    and "length (idata i) < 2 ^ 32" and "2 \<le> length (idata i)"
  shows "run_state (NVM_CheckFile P (Some p)) w = (checked (idata i), used 2 w)"
proof -
  have e: "Suc (length (idata i) - 2) = length (idata i) - Suc 0"
    using assms by simp
  show ?thesis
    using assms
    by (simp add: NVM_CheckFile_def run new_fd_def char_int_def covered_def used_def checked_def nat_diff_distrib e)
qed

text \<open>A file in which one byte was changed.\<close>

definition poke :: "path \<Rightarrow> nat \<Rightarrow> char \<Rightarrow> 'g world \<Rightarrow> 'g world" where
  "poke p k v w = (case fs w p of None \<Rightarrow> w
     | Some i \<Rightarrow> w\<lparr>fs := (fs w)(p \<mapsto> i\<lparr>idata := (idata i)[k := v]\<rparr>)\<rparr>)"

lemma last_two:
  assumes "2 \<le> length d"
  shows "take (length d - 2) d @ [d ! (length d - 2), d ! (length d - 1)] = d"
proof (rule nth_equalityI)
  have e: "length d - Suc 0 = Suc (length d - 2)" using assms by simp
  fix j assume "j < length (take (length d - 2) d @ [d ! (length d - 2), d ! (length d - 1)])"
  then consider "j < length d - 2" | "j = length d - 2" | "j = length d - 1"
    using assms by fastforce
  then show "(take (length d - 2) d @ [d ! (length d - 2), d ! (length d - 1)]) ! j = d ! j"
    using assms by cases (simp_all add: nth_append e)
qed (use assms in simp)

lemma checked_cases:
  assumes "checked d"
  obtains x where "d = x @ [CHR 0xAA, c8 (check_no x)]"
  using assms last_two [of d] by (metis checked_def)

lemma checked_update:
  assumes "checked d" and "k < length d" and "v \<noteq> d ! k"
  shows "\<not> checked (d[k := v])"
proof -
  from assms(1) obtain x where d: "d = x @ [CHR 0xAA, c8 (check_no x)]" by (rule checked_cases)
  consider "k < length x" | "k = length x" | "k = Suc (length x)"
    using assms(2) d by fastforce
  then show ?thesis
    using assms(3) d
    by cases (auto simp: list_update_append checked_append nth_append dest: check_no_update)
qed

text \<open>
  C4.  Protecting a file succeeds and the protected file passes the check; after that, changing
  any single byte of it - in the payload, the flag byte or the check byte - makes the check fail.
\<close>

theorem SetCheckNo_detects_corruption:
  assumes "wf_world w" and "faults w = []" and "fs w p = Some i" and "ikind i = Reg"
    and "length (idata i) + 2 < 2 ^ 32"
  shows "let (r, w1) = run_state (NVM_SetCheckNo P (Some p) False) w in
    r \<and> fst (run_state (NVM_CheckFile P (Some p)) w1) \<and>
    (\<forall>k v. k < length (idata i) + 2 \<and> v \<noteq> idata (the (fs w1 p)) ! k \<longrightarrow>
       \<not> fst (run_state (NVM_CheckFile P (Some p)) (poke p k v w1)))"
proof -
  define d where "d = idata i @ [CHR 0xAA, c8 (check_no (idata i))]"
  have r: "run_state (NVM_SetCheckNo P (Some p) False) w =
      (True, used 2 (w\<lparr>fs := (fs w)(p \<mapsto> i\<lparr>idata := d\<rparr>)\<rparr>))"
    using assms by (simp add: run covered_def d_def)
  have ok: "checked d" and l: "length d = length (idata i) + 2"
    by (simp_all add: d_def checked_append)
  show ?thesis
    using assms ok by (simp add: r run poke_def l checked_update)
qed

theorem SetCheckNo_detects_corruption_witness:
  "\<not> fst (run_state (NVM_CheckFile P0 (Some ''/nvdata/WIFI''))
      (poke ''/nvdata/WIFI'' 1 (CHR ''z'')
        (snd (run_state (NVM_SetCheckNo P0 (Some ''/nvdata/WIFI'') False)
          (disk [(''/nvdata/WIFI'', reg ''abcd'')])))))"
proof -
  have "idata (the (fs (snd (run_state (NVM_SetCheckNo P0 (Some ''/nvdata/WIFI'') False)
          (disk [(''/nvdata/WIFI'', reg ''abcd'')]))) ''/nvdata/WIFI'')) ! 1 = CHR ''b''"
    by (simp add: run covered_def)
  then show ?thesis
    using SetCheckNo_detects_corruption
      [of "disk [(''/nvdata/WIFI'', reg ''abcd'')]" "''/nvdata/WIFI''" "reg ''abcd''" P0]
    by (auto simp: case_prod_unfold Let_def dest!: spec [of _ "Suc 0"] spec [of _ "CHR ''z''"])
qed

section \<open>The check when calls may fail\<close>

lemma wp_check_loop:
  assumes "fds w fd = Some d" and "fs w (fd_path d) = Some i" and "fd_pos d \<le> length (idata i)"
    and "\<And>l k. Q None (w\<lparr>faults := l, fds := (fds w)(fd \<mapsto> d\<lparr>fd_pos := k\<rparr>)\<rparr>)"
    and "\<And>l. fd_pos d + n \<le> length (idata i) \<Longrightarrow>
      Q (Some (if flag then alt_fold (XOR) (+) c (map b8 (take n (drop (fd_pos d) (idata i))))
               else alt_fold (+) (XOR) c (map b8 (take n (drop (fd_pos d) (idata i))))))
        (w\<lparr>faults := l, fds := (fds w)(fd \<mapsto> d\<lparr>fd_pos := fd_pos d + n\<rparr>)\<rparr>)"
  shows "wp (check_loop fd n flag c) Q w"
  using assms
proof (induction n arbitrary: w d flag c Q)
  case 0
  have e: "(\<lambda>a. if a = fd then Some d else fds w a) = fds w" "(fds w)(fd \<mapsto> d) = fds w"
    using 0(1) by auto
  have "Q (Some c) w" using 0(5) [of "faults w"] by (simp add: e 0(3) split: if_splits)
  then show ?case by (simp add: wp_return)
next
  case (Suc n)
  have m: "min (length (idata i) - fd_pos d) (min k (Suc 0)) = Suc 0 \<Longrightarrow> fd_pos d < length (idata i)" for k
    by (simp add: min_def split: if_splits)
  have h: "fd_pos d < length (idata i) \<Longrightarrow> hd (drop (fd_pos d) (idata i)) = idata i ! fd_pos d"
    by (simp add: hd_drop_conv_nth)
  have none: "Q None (w\<lparr>faults := l, fds := (fds w)(fd \<mapsto> d\<lparr>fd_pos := k\<rparr>)\<rparr>)" for l k
    by (rule Suc.prems(4))
  have none0: "Q None (w\<lparr>faults := l\<rparr>)" for l
    using none [where l = l and k = "fd_pos d"] Suc.prems(1) by (simp add: fun_upd_idem)
  have step: "wp (check_loop fd n b x) Q (w\<lparr>faults := l, fds := (fds w)(fd \<mapsto> d\<lparr>fd_pos := Suc (fd_pos d)\<rparr>)\<rparr>)"
    if "fd_pos d < length (idata i)" and "x = (if flag then c XOR b8 (idata i ! fd_pos d) else c + b8 (idata i ! fd_pos d))"
      and "b = (\<not> flag)" for l b x
    using Suc.prems that
    by (intro Suc.IH [where d = "d\<lparr>fd_pos := Suc (fd_pos d)\<rparr>"]) (auto simp: take_drop_Suc fun_upd_def split: if_splits)
  show ?case
    using Suc.prems(1,2)
    by (auto intro!: wps step none none0 simp: h dest!: m split: if_splits)
qed

lemma wp_ComputeCheckNo:
  assumes "wf_world w" and "fs w p = Some i" and "ikind i = Reg" and "length (idata i) < 2 ^ 32"
    and "\<And>w'. same w w' \<Longrightarrow> Q (0, CHR 0xFF) w'"
    and "\<And>w'. same w w' \<Longrightarrow> 2 \<le> length (idata i) \<Longrightarrow> Q (check_no (covered True (idata i)), f) w'"
  shows "wp (NVM_ComputeCheckNo (Some p) f True) Q w"
proof -
  define n where "n = nat ((st_size i - 2) mod 2 ^ 32)"
  have n: "n = length (idata i) - 2 \<and> 2 \<le> length (idata i)" if "n \<le> length (idata i)"
  proof (cases "2 \<le> length (idata i)")
    case True
    then show ?thesis
      using assms(3,4) by (simp add: n_def st_size_def nat_diff_distrib mod_pos_pos_trivial)
  next
    case False
    then consider "length (idata i) = 0" | "length (idata i) = 1" by linarith
    then show ?thesis
      using that assms(3) by cases (simp_all add: n_def st_size_def)
  qed
  have n': "nat ((st_size i - 2) mod 4294967296) \<le> length (idata i) \<Longrightarrow>
      nat ((st_size i - 2) mod 4294967296) = length (idata i) - 2 \<and> 2 \<le> length (idata i)"
    using n by (simp add: n_def)
  show ?thesis
    unfolding NVM_ComputeCheckNo_def
    using assms(1-3)
    by (auto intro!: wps wp_check_loop [where i = i] assms(5)
        assms(6) [unfolded check_no_def covered_def if_True] simp: new_fd_def same_def dest!: n')
qed

text \<open>
  C36.  With an unsigned \<open>char\<close>, whatever system calls fail or stop short, a file that
  \<open>NVM_CheckFile\<close> accepts carries a valid check pair.
\<close>

theorem CheckFile_sound:
  assumes "\<not> char_signed P" and "wf_world w" and "fs w p = Some i" and "ikind i = Reg"
    and "length (idata i) < 2 ^ 32" and "fst (run_state (NVM_CheckFile P (Some p)) w)"
  shows "checked (idata i)"
proof -
  have e: "Suc (length (idata i) - 2) = length (idata i) - Suc 0" if "2 \<le> length (idata i)"
    using that by simp
  have "wp (NVM_CheckFile P (Some p)) (\<lambda>r w'. r \<longrightarrow> checked (idata i)) w"
    unfolding NVM_CheckFile_def
    using assms(1-5)
    by (auto intro!: wps wp_ComputeCheckNo [where i = i]
        simp: same_def new_fd_def char_int_def checked_def covered_def nat_diff_distrib e)
  from wp_run [OF this] assms(6) show ?thesis by simp
qed

theorem CheckFile_sound_witness:
  "checked (''abcd'' @ [CHR 0xAA, c8 (check_no ''abcd'')])"
  using CheckFile_sound [of P0 "disk [(''/nvdata/WIFI'', reg (''abcd'' @ [CHR 0xAA, c8 (check_no ''abcd'')]))]"
      "''/nvdata/WIFI''" "reg (''abcd'' @ [CHR 0xAA, c8 (check_no ''abcd'')])"]
    checked_append [of "''abcd''" "CHR 0xAA" "c8 (check_no ''abcd'')"]
  by (simp add: run)

text \<open>
  With a signed \<open>char\<close> the comparison of the failure flag with 0xFF is never true: after a failed
  \<open>stat\<close> the check goes on with checksum 0 and accepts a file whose check byte is 0.
\<close>

lemma signed_char_hides_failure:
  "fst (run_state (NVM_CheckFile P0_signed (Some ''/nvdata/WIFI''))
     ((disk [(''/nvdata/WIFI'', reg (''ab'' @ [CHR 0xAA, CHR 0x00]))])\<lparr>faults := [Fail]\<rparr>)) \<and>
   \<not> checked (''ab'' @ [CHR 0xAA, CHR 0x00])"
  by (simp add: NVM_CheckFile_def NVM_ComputeCheckNo_def sys_stat_def pop_fault_def run new_fd_def char_int_def
      checked_def check_no_def)

section \<open>Protecting a file\<close>

lemma run_CheckFileSize [run]:
  "faults w = [] \<Longrightarrow> in_table t lid \<Longrightarrow> fs w (cFileName (entry t lid)) = Some i \<Longrightarrow> ikind i = Reg \<Longrightarrow>
   run_state (NVM_CheckFileSize lid t) w =
     (if table_size (entry t lid) = int (length (idata i)) then 0
      else if table_size (entry t lid) mod 2 ^ 64 = (int (length (idata i)) - 2) mod 2 ^ 64 then 1 else -1, w)"
  by (simp add: NVM_CheckFileSize_def run st_size_def Let_def)

text \<open>
  A file of the table's size (result 0 of \<open>NVM_CheckFileSize\<close>) is, once protected, recognised
  as protected (result 1) and correct; protecting it again as an old file changes nothing.
\<close>

theorem SetCheckNo_size_transition:
  assumes "wf_world w" and "faults w = []" and "in_table t lid" and "cFileName (entry t lid) = p"
    and "fs w p = Some i" and "ikind i = Reg" and "length (idata i) + 2 < 2 ^ 32"
    and "fst (run_state (NVM_CheckFileSize lid t) w) = 0"
  shows "let w1 = snd (run_state (NVM_SetCheckNo P (Some p) False) w);
             w2 = snd (run_state (NVM_SetCheckNo P (Some p) True) w1)
         in fst (run_state (NVM_CheckFileSize lid t) w1) = 1 \<and>
            fst (run_state (NVM_CheckFile P (Some p)) w1) \<and> fs w2 = fs w1"
proof -
  have ts: "table_size (entry t lid) = int (length (idata i))"
    using assms by (simp add: run split: if_splits)
  define d where "d = idata i @ [CHR 0xAA, c8 (check_no (idata i))]"
  have d: "checked d" "length d = length (idata i) + 2" "take (length d - 2) d = idata i"
    by (simp_all add: d_def checked_append)
  have r1: "run_state (NVM_SetCheckNo P (Some p) False) w = (True, used 2 (w\<lparr>fs := (fs w)(p \<mapsto> i\<lparr>idata := d\<rparr>)\<rparr>))"
    using assms(1-7) by (simp add: run_SetCheckNo covered_def d_def)
  have r2: "run_state (NVM_SetCheckNo P (Some p) True) (used 2 (w\<lparr>fs := (fs w)(p \<mapsto> i\<lparr>idata := d\<rparr>)\<rparr>)) =
      (True, used 4 (w\<lparr>fs := (fs w)(p \<mapsto> i\<lparr>idata := d\<rparr>)\<rparr>))"
    using assms(1-7) d by (subst run_SetCheckNo [where i = "i\<lparr>idata := d\<rparr>"]) (simp_all add: covered_def d_def)
  show ?thesis
    using assms(1-7) ts d(1,2) by (simp add: r1 r2 Let_def run_CheckFileSize run_CheckFile del: used_fs)
qed

theorem SetCheckNo_size_transition_witness:
  "fst (run_state (NVM_CheckFileSize 1 (g_akCFG_File P0))
     (snd (run_state (NVM_SetCheckNo P0 (Some ''/nvdata/WIFI'') False)
       (disk [(''/nvdata/WIFI'', reg ''abcdefgh'')])))) = 1"
proof -
  have e: "entry (g_akCFG_File P0) 1 = e_wifi" "in_table (g_akCFG_File P0) 1"
    by (simp_all add: P0_def entry_def in_table_def)
  have "let w1 = snd (run_state (NVM_SetCheckNo P0 (Some ''/nvdata/WIFI'') False)
               (disk [(''/nvdata/WIFI'', reg ''abcdefgh'')]));
             w2 = snd (run_state (NVM_SetCheckNo P0 (Some ''/nvdata/WIFI'') True) w1)
         in fst (run_state (NVM_CheckFileSize 1 (g_akCFG_File P0)) w1) = 1 \<and>
            fst (run_state (NVM_CheckFile P0 (Some ''/nvdata/WIFI'')) w1) \<and> fs w2 = fs w1"
    by (rule SetCheckNo_size_transition [where i = "reg ''abcdefgh''"])
       (simp_all add: e run_CheckFileSize e_wifi_def table_size_def)
  then show ?thesis unfolding Let_def by (rule conjunct1)
qed

end
