(* ===== verification/BackupFlag.thy ===== *)
theory BackupFlag
  imports CheckNo Device
begin

text \<open>
  The count of files changed since the last backup, kept in \<open>/nvdata/BackupFlag\<close> as four bytes
  and a check byte, with the binary region as fallback: \<open>NVM_CheckBackFlag\<close>,
  \<open>NVM_CheckMDBackFlag\<close>, \<open>NVM_ComputeBackflagCheckSum\<close>, \<open>NVM_GetBackupFileNum\<close>,
  \<open>NVM_AddBackupNum\<close> and \<open>NVM_AddBackupFileNum\<close> of \<open>nvram/libnvram.c\<close>.  The checksum loop is
  \<open>check_loop\<close>, here entered with the exclusive-or step first.
\<close>

section \<open>Checking and setting the check byte\<close>

definition NVM_CheckBackFlag :: "int \<Rightarrow> bool nv" where
  "NVM_CheckBackFlag iFileDesc =
     (if iFileDesc = -1 then ret False
      else do {
        buf \<leftarrow> sys_fstat iFileDesc;
        case buf of None \<Rightarrow> ret False
        | Some buf \<Rightarrow>
            if st_size buf \<noteq> 5 then ret False
            else do {
              s \<leftarrow> check_loop iFileDesc 4 True 0;
              case s of None \<Rightarrow> ret False
              | Some cChecksum \<Rightarrow> do {
                  r \<leftarrow> sys_read iFileDesc 1;
                  if rd_len r \<noteq> 1 then ret False
                  else ret (cChecksum = b8 (hd (the r))) } } })"

text \<open>The two bytes of the modem's checksum are summed separately.\<close>

primrec md_loop :: "int \<Rightarrow> nat \<Rightarrow> bool \<Rightarrow> u8 \<times> u8 \<Rightarrow> (u8 \<times> u8) option nv" where
  "md_loop fd 0 upper byte_checksum = ret (Some byte_checksum)"
| "md_loop fd (Suc n) upper byte_checksum = do {
     r \<leftarrow> sys_read fd 1;
     if rd_len r = 1
     then let cBuf = b8 (hd (the r)); (lo, hi) = byte_checksum
          in md_loop fd n (\<not> upper) (if upper then (lo, hi + cBuf) else (lo + cBuf, hi))
     else ret None }"

definition NVM_CheckMDBackFlag :: "int \<Rightarrow> bool nv" where
  "NVM_CheckMDBackFlag iFileDesc =
     (if iFileDesc = -1 then ret False
      else do {
        buf \<leftarrow> sys_fstat iFileDesc;
        case buf of None \<Rightarrow> ret False
        | Some buf \<Rightarrow>
            if st_size buf \<noteq> 4 then ret False
            else do {
              s \<leftarrow> md_loop iFileDesc 2 False (0, 0);
              case s of None \<Rightarrow> ret False
              | Some byte_checksum \<Rightarrow> do {
                  r \<leftarrow> sys_read iFileDesc 2;
                  if rd_len r \<noteq> 2 then ret False
                  else let cChecksum = un16 [c8 (fst byte_checksum), c8 (snd byte_checksum)];
                           savedchecksum = un16 (the r)
                       in ret (cChecksum = savedchecksum \<or> savedchecksum = 0xCDEF \<and> cChecksum = 0) } } })"

definition NVM_ComputeBackflagCheckSum :: "int \<Rightarrow> bool nv" where
  "NVM_ComputeBackflagCheckSum iFileDesc =
     (if iFileDesc = -1 then ret False
      else do {
        l \<leftarrow> sys_lseek iFileDesc 0 SEEK_SET;
        if l = -1 then ret False
        else do {
          s \<leftarrow> check_loop iFileDesc 4 True 0;
          case s of None \<Rightarrow> ret False
          | Some cChecksum \<Rightarrow> do {
              iResult \<leftarrow> sys_write iFileDesc [c8 cChecksum];
              ret (iResult = 1) } } })"

section \<open>Reading the count from the binary region\<close>

text \<open>
  The search for the bad-block bitmap, from the last block down: a block holds it when its first
  three runs of \<open>NvRamBlockNum\<close> bytes agree.  \<open>None\<close>: a read failed; \<open>Some None\<close>: not found;
  \<open>Some (Some (bitmap, n))\<close>: found in block \<open>n\<close>.
\<close>

fun bitmap_loop :: "int \<Rightarrow> nat \<Rightarrow> int \<Rightarrow> bytes \<Rightarrow> nat \<Rightarrow> (bytes \<times> nat) option option nv" where
  "bitmap_loop fd N iBlockSize tempBuffer 0 = ret (Some None)"
| "bitmap_loop fd N iBlockSize tempBuffer (Suc iBlockNum) = do {
     _ \<leftarrow> sys_lseek fd (to_int32 (int iBlockNum * iBlockSize)) SEEK_SET;
     r \<leftarrow> sys_read fd (nat iBlockSize);
     if rd_len r \<le> 0 then ret None
     else do {
       check (int (3 * N) \<le> iBlockSize) OutOfBounds;
       let buf = rd_buf r tempBuffer;
           tempBitmap1 = take N buf
       in if tempBitmap1 \<noteq> take N (drop N buf) then bitmap_loop fd N iBlockSize buf iBlockNum
          else if tempBitmap1 \<noteq> take N (drop (2 * N) buf) then bitmap_loop fd N iBlockSize buf iBlockNum
          else ret (Some (Some (tempBitmap1, iBlockNum))) } }"

text \<open>The first block the bitmap calls good, \<open>n\<close> when there is none below \<open>n\<close>.\<close>

definition first_good :: "bytes \<Rightarrow> nat \<Rightarrow> nat" where
  "first_good bitmap n = length (takeWhile (\<lambda>c. c \<noteq> CHR 0x00) (take n bitmap))"

definition bin_region_blocks :: "int \<Rightarrow> int \<Rightarrow> int \<Rightarrow> mtd_info \<Rightarrow> int" where
  "bin_region_blocks layout log resv info =
     (if layout = 0 then to_int32 (uint (mi_size info div mi_erasesize info) - log - resv)
      else to_int32 (uint (mi_size info div mi_erasesize info)))"

text \<open>The clean-up of every exit after the three allocations.\<close>

definition give_back :: "int \<Rightarrow> 'a \<Rightarrow> 'a nv" where
  "give_back fd x = do { _ \<leftarrow> sys_close fd; sys_free; sys_free; sys_free; ret x }"

text \<open>
  What follows the search: the map file in the first good block tells where the two counts are.
  \<open>ap\<close> and \<open>md\<close> are what the caller's pointers point to before the call, and the result holds
  what they point to after it.
\<close>

definition read_counts :: "int \<Rightarrow> int \<Rightarrow> u32 \<Rightarrow> u16 \<Rightarrow> bytes \<Rightarrow> nat \<Rightarrow> (bool \<times> u32 option \<times> u16 option) nv" where
  "read_counts fd iBlockSize ap md tempBitmap1 iBlockNum = (
     let fail = (False, Some ap, Some md);
         pos = first_good tempBitmap1 iBlockNum
     in if pos = iBlockNum then give_back fd fail else do {
       let start = to_int32 (int pos * iBlockSize);
       l \<leftarrow> sys_lseek fd start SEEK_SET;
       if to_int32 l \<noteq> start then give_back fd fail else do {
       r \<leftarrow> sys_read fd 4;
       if rd_len r \<noteq> 4 then give_back fd fail else do {
       let iMapFileSize = un32 (the r);
       if iMapFileSize = 0 then give_back fd fail else do {
       _ \<leftarrow> sys_lseek fd (start + 12 + uint iMapFileSize) SEEK_SET;
       ra \<leftarrow> sys_read fd 4;
       let ap' = un32 (rd_buf ra (le32 ap));
       if rd_len ra \<noteq> 4 then give_back fd (False, Some ap', Some md) else do {
       rm \<leftarrow> sys_read fd 2;
       let md' = un16 (rd_buf rm (le16 md));
       if rd_len rm \<noteq> 2 then give_back fd (False, Some ap', Some md')
       else give_back fd (True, Some ap', Some md') } } } } })"

text \<open>
  The two arguments are the pointers of the caller (\<open>None\<close> is NULL) with what they point to; the
  result is the return value and what they point to afterwards.
\<close>

definition NVM_GetBackupFileNum :: "plat \<Rightarrow> u32 option \<Rightarrow> u16 option \<Rightarrow> (bool \<times> u32 option \<times> u16 option) nv" where
  "NVM_GetBackupFileNum P iAPBackupFileNum iMDBackupFileNum =
    (if iAPBackupFileNum = None \<or> iMDBackupFileNum = None
     then ret (False, iAPBackupFileNum, iMDBackupFileNum)
     else do {
       let ap = the iAPBackupFileNum;
       let md = the iMDBackupFileNum;
       let fail = (False, iAPBackupFileNum, iMDBackupFileNum);
       dev \<leftarrow> getg g_NVRAM_BACKUP_DEVICE;
       let cMtdDevName = dev_name dev;
       bRet \<leftarrow> NVM_GetDeviceInfo cMtdDevName;
       case bRet of None \<Rightarrow> ret fail
       | Some info \<Rightarrow> do {
       fd \<leftarrow> sys_open cMtdDevName [O_RDWR] 0;
       if fd < 0 then ret fail else do {
       let iBlockSize = sint (mi_erasesize info);
       layout \<leftarrow> getg nvram_platform_layout_version;
       logb \<leftarrow> getg nvram_platform_log_block;
       resv \<leftarrow> getg nvram_platform_resv_block;
       if layout \<noteq> 0 \<and> layout \<noteq> 1 then do { _ \<leftarrow> sys_close fd; ret fail } else do {
       check (mi_erasesize info \<noteq> 0) DivByZero;
       setg (\<lambda>g. g\<lparr>BinRegionBlockTotalNum := bin_region_blocks layout logb resv info\<rparr>);
       setg (\<lambda>g. g\<lparr>NvRamBlockNum := to_int32 (BinRegionBlockTotalNum g - nvram_platform_DM_block g)\<rparr>);
       n \<leftarrow> getg NvRamBlockNum;
       m0 \<leftarrow> sys_malloc iBlockSize;
       if \<not> m0 then do { _ \<leftarrow> sys_close fd; ret fail } else do {
       m1 \<leftarrow> sys_malloc n;
       if \<not> m1 then do { sys_free; _ \<leftarrow> sys_close fd; ret fail } else do {
       m2 \<leftarrow> sys_malloc n;
       if \<not> m2 then do { sys_free; _ \<leftarrow> sys_close fd; sys_free; ret fail } else do {
       found \<leftarrow> bitmap_loop fd (nat n) iBlockSize (garbage P (nat iBlockSize)) (nat n);
       case found of None \<Rightarrow> give_back fd fail
       | Some None \<Rightarrow> give_back fd fail
       | Some (Some (tempBitmap1, iBlockNum)) \<Rightarrow> read_counts fd iBlockSize ap md tempBitmap1 iBlockNum } } } } } } })"

section \<open>Counting modified files\<close>

text \<open>The label \<open>read_from_bin\<close>: reopen the flag file empty and take the count from the region.\<close>

definition read_from_bin :: "plat \<Rightarrow> int \<Rightarrow> u32 \<Rightarrow> (int \<times> u32) nv" where
  "read_from_bin P iFileDesc iSavedFileNum = do {
     _ \<leftarrow> sys_close iFileDesc;
     fd \<leftarrow> sys_open g_pcNVM_BackFlag [O_TRUNC, O_RDWR] 0;
     (ok, ap, _) \<leftarrow> NVM_GetBackupFileNum P (Some iSavedFileNum) (Some 0);
     ret (fd, if \<not> ok \<or> the ap = 0xFFFFFFFF then 0 else the ap) }"

text \<open>The label \<open>read_done\<close>: store the new count and its check byte, or remove the file.\<close>

definition store_count :: "int \<Rightarrow> u32 \<Rightarrow> bool nv" where
  "store_count iFileDesc iSavedFileNum = do {
     l \<leftarrow> sys_lseek iFileDesc 0 SEEK_SET;
     if l = -1
     then do { _ \<leftarrow> sys_unlink g_pcNVM_BackFlag; _ \<leftarrow> sys_close iFileDesc; mutex_unlock backuplock; ret False }
     else do {
       iResult \<leftarrow> sys_write iFileDesc (le32 iSavedFileNum);
       if iResult \<noteq> 4
       then do { _ \<leftarrow> sys_unlink g_pcNVM_BackFlag; _ \<leftarrow> sys_close iFileDesc; mutex_unlock backuplock; ret False }
       else do {
         ok \<leftarrow> NVM_ComputeBackflagCheckSum iFileDesc;
         if \<not> ok
         then do { _ \<leftarrow> sys_unlink g_pcNVM_BackFlag; _ \<leftarrow> sys_close iFileDesc; mutex_unlock backuplock; ret False }
         else do { mutex_unlock backuplock; _ \<leftarrow> sys_close iFileDesc; ret True } } } }"

definition NVM_AddBackupNum :: "plat \<Rightarrow> u32 \<Rightarrow> bool nv" where
  "NVM_AddBackupNum P iModifiedFileNum =
    (if \<not> auto_backup P then ret True
     else if iModifiedFileNum = 0 then ret False
     else do {
       mutex_lock backuplock;
       iFileDesc \<leftarrow> sys_open g_pcNVM_BackFlag [O_RDWR] 0;
       if iFileDesc = -1
       then do {
         fd \<leftarrow> open_file_with_dirs P g_pcNVM_BackFlag [O_CREAT, O_RDWR] mode660;
         if fd = -1 then do { mutex_unlock backuplock; ret False }
         else store_count fd (0 + iModifiedFileNum) }
       else do {
         valid \<leftarrow> NVM_CheckBackFlag iFileDesc;
         (fd, iSavedFileNum) \<leftarrow>
           (if \<not> valid then read_from_bin P iFileDesc 0
            else do {
              l \<leftarrow> sys_lseek iFileDesc 0 SEEK_SET;
              if l = -1 then read_from_bin P iFileDesc 0
              else do {
                r \<leftarrow> sys_read iFileDesc 4;
                if rd_len r \<noteq> 4 then read_from_bin P iFileDesc (un32 (rd_buf r (le32 0)))
                else ret (iFileDesc, un32 (the r)) } });
         store_count fd (iSavedFileNum + iModifiedFileNum) } })"

text \<open>The loop over \<open>aBackupToBinRegion\<close>; the result of the call is only logged.\<close>

fun add_matching :: "plat \<Rightarrow> int \<Rightarrow> (string \<times> int) list \<Rightarrow> unit nv" where
  "add_matching P iLid [] = ret ()"
| "add_matching P iLid ((name, lid) # rest) =
     (if iLid = lid then do { _ \<leftarrow> NVM_AddBackupNum P 1; add_matching P iLid rest }
      else add_matching P iLid rest)"

definition NVM_AddBackupFileNum :: "plat \<Rightarrow> int \<Rightarrow> bool nv" where
  "NVM_AddBackupFileNum P iLid = do { add_matching P iLid (aBackupToBinRegion P); ret True }"

section \<open>Resources\<close>

lemma rs_check_loop: "(\<And>r. Q r A) \<Longrightarrow> rspec A (check_loop fd n flag c) Q"
  by (rule neutral_rs [OF neutral_check_loop]) simp_all

lemma rs_md_loop: "(\<And>r. Q r A) \<Longrightarrow> rspec A (md_loop fd n u b) Q"
  by (induction n arbitrary: u b) (auto intro!: rs)

lemma rs_bitmap_loop: "(\<And>r. Q r A) \<Longrightarrow> rspec A (bitmap_loop fd N bs buf n) Q"
  by (induction fd N bs buf n rule: bitmap_loop.induct) (auto intro!: rs simp: Let_def)

lemma neutral_CheckBackFlag: "neutral {} (NVM_CheckBackFlag fd)"
  by (rule neutralI) (auto simp: NVM_CheckBackFlag_def intro!: rs rs_check_loop)

lemma neutral_CheckMDBackFlag: "neutral {} (NVM_CheckMDBackFlag fd)"
  by (rule neutralI) (auto simp: NVM_CheckMDBackFlag_def intro!: rs rs_md_loop)

lemma neutral_ComputeBackflagCheckSum: "neutral {} (NVM_ComputeBackflagCheckSum fd)"
  by (rule neutralI) (auto simp: NVM_ComputeBackflagCheckSum_def intro!: rs rs_check_loop)

lemma neutral_GetBackupFileNum: "neutral {} (NVM_GetBackupFileNum P a b)"
  by (rule neutralI)
     (auto simp: NVM_GetBackupFileNum_def read_counts_def give_back_def Let_def
        intro!: rs rs_bitmap_loop neutral_rs [OF neutral_GetDeviceInfo])

lemma rs_store_count:
  "Q False (A\<lparr>rfds := rfds A - {fd}, rlocks := rlocks A - {backuplock}\<rparr>) \<Longrightarrow>
   Q True (A\<lparr>rfds := rfds A - {fd}, rlocks := rlocks A - {backuplock}\<rparr>) \<Longrightarrow> rspec A (store_count fd n) Q"
  by (auto simp: store_count_def intro!: rs neutral_rs [OF neutral_ComputeBackflagCheckSum])

lemma rs_read_from_bin:
  assumes "\<And>n. Q (-1, n) (A\<lparr>rfds := rfds A - {fd}\<rparr>)"
    and "\<And>fd' n. 0 \<le> fd' \<Longrightarrow> fd' \<notin> rfds A - {fd} \<Longrightarrow> Q (fd', n) (A\<lparr>rfds := insert fd' (rfds A - {fd})\<rparr>)"
  shows "rspec A (read_from_bin P fd n) Q"
  using assms by (auto simp: read_from_bin_def intro!: rs neutral_rs [OF neutral_GetBackupFileNum])

lemma res_split [simp]:
  "A\<lparr>rfds := rfds A\<rparr> = A" "A\<lparr>rlocks := rlocks A\<rparr> = A" "A\<lparr>rfds := rfds A, rlocks := rlocks A\<rparr> = A"
  by simp_all

lemma neutral_AddBackupNum: "neutral {backuplock, dirlock} (NVM_AddBackupNum P k)"
proof (rule neutralI)
  fix A and Q :: "bool \<Rightarrow> res \<Rightarrow> bool"
  assume l: "rlocks A \<inter> {backuplock, dirlock} = {}" and Q: "\<And>r. Q r A"
  show "rspec A (NVM_AddBackupNum P k) Q"
  proof (rule rspec_wf)
    assume nn: "\<And>x. x \<in> rfds A \<Longrightarrow> 0 \<le> x"
    have "-1 \<notin> rfds A" using nn by force
    then show "rspec A (NVM_AddBackupNum P k) Q"
      using l Q
      by (auto simp: NVM_AddBackupNum_def intro!: rs rs_store_count rs_read_from_bin
          neutral_rs [OF neutral_CheckBackFlag])
  qed
qed

lemma neutral_AddBackupFileNum: "neutral {backuplock, dirlock} (NVM_AddBackupFileNum P lid)"
proof -
  have "neutral {backuplock, dirlock} (add_matching P lid xs)" for xs
    by (induction P lid xs rule: add_matching.induct)
       (auto intro: neutral_bind neutral_AddBackupNum neutral_ret)
  then show ?thesis
    by (auto simp: NVM_AddBackupFileNum_def intro: neutral_bind neutral_ret)
qed

section \<open>The flag file\<close>

definition flag_sum :: "bytes \<Rightarrow> u8" where
  "flag_sum d = alt_fold (XOR) (+) 0 (map b8 d)"

definition flag_image :: "u32 \<Rightarrow> bytes" where
  "flag_image n = le32 n @ [c8 (flag_sum (le32 n))]"

definition valid_flag :: "bytes \<Rightarrow> bool" where
  "valid_flag d \<longleftrightarrow> length d = 5 \<and> d ! 4 = c8 (flag_sum (take 4 d))"

lemma valid_flag_image [simp]: "valid_flag (flag_image n)"
  by (simp add: valid_flag_def flag_image_def nth_append)

lemma run_CheckBackFlag [run]:
  assumes "faults w = []" and "fds w fd = Some d" and "fd_pos d = 0" and "fd_rd d" and "fd \<noteq> -1"
    and "fs w (fd_path d) = Some i" and "ikind i = Reg"
  shows "run_state (NVM_CheckBackFlag fd) w =
    (valid_flag (idata i), w\<lparr>fds := (fds w)(fd \<mapsto> d\<lparr>fd_pos := if length (idata i) = 5 then 5 else 0\<rparr>)\<rparr>)"
proof -
  have e: "(fds w)(fd \<mapsto> d\<lparr>fd_pos := 0\<rparr>) = fds w"
    using assms(2,3) by (auto simp: fun_eq_iff)
  have h: "length (idata i) = 5 \<Longrightarrow> hd (drop 4 (idata i)) = idata i ! 4"
    by (simp add: hd_drop_conv_nth)
  show ?thesis
    using assms
    by (simp add: NVM_CheckBackFlag_def run run_check_loop valid_flag_def flag_sum_def st_size_def e h eq_b8)
qed

lemma run_ComputeBackflagCheckSum [run]:
  assumes "faults w = []" and "fds w fd = Some d" and "fd_rd d" and "fd_wr d" and "fd \<noteq> -1"
    and "fs w (fd_path d) = Some i" and "ikind i = Reg" and "4 \<le> length (idata i)"
  shows "run_state (NVM_ComputeBackflagCheckSum fd) w =
    (True, w\<lparr>fs := (fs w)(fd_path d \<mapsto> i\<lparr>idata := splice 4 [c8 (flag_sum (take 4 (idata i)))] (idata i)\<rparr>),
             fds := (fds w)(fd \<mapsto> d\<lparr>fd_pos := 5\<rparr>)\<rparr>)"
  using assms
  by (simp add: NVM_ComputeBackflagCheckSum_def run run_check_loop flag_sum_def)

lemma run_store_count [run]:
  assumes "faults w = []" and "fds w fd = Some d" and "fd_rd d" and "fd_wr d" and "fd \<noteq> -1"
    and "fd_path d = g_pcNVM_BackFlag" and "fs w g_pcNVM_BackFlag = Some i" and "ikind i = Reg"
    and "length (idata i) \<le> 5" and "backuplock \<in> locks w"
  shows "run_state (store_count fd n) w =
    (True, w\<lparr>fs := (fs w)(g_pcNVM_BackFlag \<mapsto> i\<lparr>idata := flag_image n\<rparr>), fds := (fds w)(fd := None),
             locks := locks w - {backuplock}\<rparr>)"
proof -
  have "splice 4 [c8 (flag_sum (le32 n))] (splice 0 (le32 n) (idata i)) = flag_image n"
    using assms(9) by (simp add: splice_def flag_image_def)
  then show ?thesis
    using assms by (simp add: store_count_def run splice_def)
qed

section \<open>The binary region\<close>

text \<open>A block that holds three equal copies of a bitmap of \<open>N\<close> bytes.\<close>

definition triple :: "nat \<Rightarrow> bytes \<Rightarrow> bool" where
  "triple N b \<longleftrightarrow> take N b = take N (drop N b) \<and> take N b = take N (drop (2 * N) b)"

definition block :: "nat \<Rightarrow> bytes \<Rightarrow> nat \<Rightarrow> bytes" where
  "block bs data j = take bs (drop (j * bs) data)"

lemma run_bitmap_loop:
  assumes "faults w = []" and "fds w fd = Some d" and "fd_rd d"
    and "fs w (fd_path d) = Some i" and "ikind i \<noteq> Dir" and "n * bs \<le> length (idata i)"
    and "n * bs < 2 ^ 31" and "0 < bs" and "3 * N \<le> bs" and "length buf = bs"
    and "k < n" and "triple N (block bs (idata i) k)"
    and "\<forall>j. k < j \<and> j < n \<longrightarrow> \<not> triple N (block bs (idata i) j)"
  shows "run_state (bitmap_loop fd N (int bs) buf n) w =
    (Some (Some (take N (block bs (idata i) k), k)), w\<lparr>fds := (fds w)(fd \<mapsto> d\<lparr>fd_pos := k * bs + bs\<rparr>)\<rparr>)"
  using assms
proof (induction n arbitrary: w d buf)
  case (Suc n)
  let ?b = "block bs (idata i) n"
  define w' where "w' = w\<lparr>fds := (fds w)(fd \<mapsto> d\<lparr>fd_pos := n * bs + bs\<rparr>)\<rparr>"
  have le: "bs \<le> length (idata i) - n * bs"
    using Suc.prems(6) by simp
  then have len: "length (take bs (drop (n * bs) (idata i))) = bs" and mn: "min bs (length (idata i) - n * bs) = bs"
    by simp_all
  have small: "to_int32 (int n * int bs) = int (n * bs)"
    using Suc.prems(7) by (subst to_int32_small) (simp_all flip: of_nat_mult)
  have l: "run_state (sys_lseek fd (int (n * bs)) SEEK_SET) w =
      (int (n * bs), w\<lparr>fds := (fds w)(fd \<mapsto> d\<lparr>fd_pos := n * bs\<rparr>)\<rparr>)"
    using Suc.prems(1,2) by (subst run_lseek_set) (auto simp del: of_nat_mult)
  have r: "run_state (sys_read fd bs) (w\<lparr>fds := (fds w)(fd \<mapsto> d\<lparr>fd_pos := n * bs\<rparr>)\<rparr>) = (Some ?b, w')"
    using Suc.prems mn by (simp add: run_read w'_def block_def fun_upd_def)
  have lb: "length ?b = bs" using len by (simp add: block_def)
  have step: "run_state (bitmap_loop fd N (int bs) buf (Suc n)) w =
      (if triple N ?b then (Some (Some (take N ?b, n)), w') else run_state (bitmap_loop fd N (int bs) ?b n) w')"
    using Suc.prems(8-10) lb by (auto simp add: small l r triple_def run_check Let_def simp del: of_nat_mult)
  show ?case
  proof (cases "triple N ?b")
    case True
    with Suc.prems(11,13) have "k = n" by (metis less_SucE lessI)
    with True show ?thesis unfolding step by (simp add: w'_def fun_upd_def)
  next
    case False
    with Suc.prems(11,12) have k: "k < n" by (metis less_SucE)
    have "run_state (bitmap_loop fd N (int bs) ?b n) w' =
      (Some (Some (take N (block bs (idata i) k), k)), w\<lparr>fds := (fds w)(fd \<mapsto> d\<lparr>fd_pos := k * bs + bs\<rparr>)\<rparr>)"
      using Suc.prems k lb
      by (subst Suc.IH [where d = "d\<lparr>fd_pos := n * bs + bs\<rparr>"]) (simp_all add: w'_def fun_upd_def)
    with False show ?thesis by (simp only: step if_False)
  qed
qed simp

text \<open>
  A region as the backup writer leaves it: \<open>B\<close> erase blocks of 128 KiB, \<open>DM\<close> of them at the end
  not for the region, the bitmap of the other \<open>N\<close> in block \<open>k\<close>, and in the first good block a map
  file of \<open>msz\<close> bytes followed, after three words, by the two counts.
\<close>

definition region_image :: "bytes \<Rightarrow> nat \<Rightarrow> nat \<Rightarrow> nat \<Rightarrow> u32 \<Rightarrow> u32 \<Rightarrow> u16 \<Rightarrow> bool" where
  "region_image data B N k msz ap md \<longleftrightarrow>
     (let bs = 131072; bm = take N (block bs data k); pos = first_good bm k
      in length data = B * bs \<and> B * bs < 2 ^ 31 \<and> k < N \<and> N \<le> B \<and> 3 * N \<le> bs \<and>
         triple N (block bs data k) \<and> (\<forall>j. k < j \<and> j < N \<longrightarrow> \<not> triple N (block bs data j)) \<and>
         pos < k \<and> msz \<noteq> 0 \<and> take 4 (drop (pos * bs) data) = le32 msz \<and>
         take 6 (drop (pos * bs + 12 + unat msz) data) = le32 ap @ le16 md)"

lemma run_GetDeviceInfo [run]:
  "wf_world w \<Longrightarrow> faults w = [] \<Longrightarrow> fs w p = Some i \<Longrightarrow> ikind i \<noteq> Dir \<Longrightarrow> nvram_gpt_flag (gl w) = 1 \<Longrightarrow>
   run_state (NVM_GetDeviceInfo p) w =
     (Some \<lparr>mi_size = of_nat (length (idata i)), mi_erasesize = 131072, mi_writesize = 512\<rparr>, used 1 w)"
  by (simp add: NVM_GetDeviceInfo_def run used_def new_fd_def)

lemma length_block: "(n + 1) * bs \<le> length data \<Longrightarrow> length (block bs data n) = bs"
  by (simp add: block_def)

lemma bin_region_blocks_gpt:
  assumes "B * 131072 < 2 ^ 31"
  shows "bin_region_blocks 1 a b \<lparr>mi_size = of_nat (B * 131072), mi_erasesize = 131072, mi_writesize = 512\<rparr> = int B"
proof -
  have "unat (of_nat (B * 131072) :: u32) = B * 131072"
    using assms by (simp only: unsigned_of_nat) (simp add: take_bit_eq_mod del: of_nat_mult)
  then have "unat (of_nat (B * 131072) div 131072 :: u32) = B"
    by (simp only: unat_div) simp
  then have "uint (of_nat (B * 131072) div 131072 :: u32) = int B"
    by (simp only: uint_nat)
  then show ?thesis using assms by (simp add: bin_region_blocks_def)
qed

lemma take_split:
  assumes "take (length a + length b) xs = a @ b"
  shows "take (length a) xs = a" and "take (length b) (drop (length a) xs) = b"
proof -
  have "take (length a) (take (length a + length b) xs) = a" using assms by simp
  then show "take (length a) xs = a" by (simp add: min_def)
  have "drop (length a) (take (length a + length b) xs) = b" using assms by simp
  then show "take (length b) (drop (length a) xs) = b" by (simp add: drop_take)
qed

lemma run_read_counts:
  assumes "faults w = []" and "fds w fd = Some d" and "fd_rd d" and "fs w (fd_path d) = Some i" and "ikind i \<noteq> Dir"
    and "3 \<le> heap w" and "pos = first_good bm k" and "pos < k" and "pos * 131072 < 2 ^ 31" and "msz \<noteq> 0"
    and "take 4 (drop (pos * 131072) (idata i)) = le32 msz"
    and "take 6 (drop (pos * 131072 + 12 + unat msz) (idata i)) = le32 ap @ le16 md"
  shows "run_state (read_counts fd 131072 a m bm k) w =
    ((True, Some ap, Some md), w\<lparr>fds := (fds w)(fd := None), heap := heap w - 3\<rparr>)"
proof -
  note a4 = take_split [of "le32 ap" "le16 md" "drop (pos * 131072 + 12 + unat msz) (idata i)", simplified]
  have ra: "take 4 (drop (pos * 131072 + 12 + unat msz) (idata i)) = le32 ap"
    "take 2 (drop (pos * 131072 + 12 + unat msz + 4) (idata i)) = le16 md"
    using a4 assms(12) by (simp_all add: add.commute)
  have la: "min 4 (length (idata i) - (pos * 131072 + 12 + unat msz)) = 4"
    "min 4 (length (idata i) - pos * 131072) = 4"
    using arg_cong [OF ra(1), of length] arg_cong [OF assms(11), of length] by (simp_all add: min.commute)
  have e: "pos * 131072 + 12 + unat msz + 4 = 16 + (pos * 131072 + unat msz)" by simp
  note rm = ra(2) [unfolded e]
  have lm: "min (length (idata i) - (16 + (pos * 131072 + unat msz))) 2 = 2"
    using arg_cong [OF rm, of length] by simp
  have small: "to_int32 (int pos * 131072) = int (pos * 131072)" "to_int32 (int (pos * 131072)) = int (pos * 131072)"
    using assms(9) by simp_all
  have off: "nat (int (pos * 131072) + 12 + uint msz) = pos * 131072 + 12 + unat msz" "0 \<le> int (pos * 131072) + 12 + uint msz"
    by (simp_all add: nat_add_distrib)
  show ?thesis
    using assms(1-6,8,10)
    by (simp add: read_counts_def run assms(7) [symmetric] small ra(1) rm lm la off assms(11) give_back_def Let_def
        del: of_nat_mult)
qed

lemma run_GetBackupFileNum:
  assumes "wf_world w" and "faults w = []" and "nvram_gpt_flag (gl w) = 1"
    and "nvram_platform_layout_version (gl w) = 1" and "nvram_platform_DM_block (gl w) = int B - int N"
    and "fs w (dev_name (g_NVRAM_BACKUP_DEVICE (gl w))) = Some i" and "ikind i = Blk"
    and "region_image (idata i) B N k msz ap md"
  shows "run_state (NVM_GetBackupFileNum P (Some a) (Some m)) w =
    ((True, Some ap, Some md), used 2 (w\<lparr>gl := (gl w)\<lparr>BinRegionBlockTotalNum := int B, NvRamBlockNum := int N\<rparr>\<rparr>))"
proof -
  define bm where "bm = take N (block 131072 (idata i) k)"
  define pos where "pos = first_good bm k"
  have im: "length (idata i) = B * 131072" "B * 131072 < 2 ^ 31" "k < N" "N \<le> B" "3 * N \<le> 131072"
      "triple N (block 131072 (idata i) k)" "\<forall>j. k < j \<and> j < N \<longrightarrow> \<not> triple N (block 131072 (idata i) j)"
      "pos < k" "msz \<noteq> 0" "take 4 (drop (pos * 131072) (idata i)) = le32 msz"
      "take 6 (drop (pos * 131072 + 12 + unat msz) (idata i)) = le32 ap @ le16 md"
    using assms(8) by (simp_all add: region_image_def Let_def bm_def pos_def)
  have p: "pos * 131072 < 2 ^ 31" using im(2-4,8) by linarith
  have bs: "sint (131072 :: u32) = 131072" by simp
  have N: "to_int32 (int N) = int N" using im(2,4) by simp
  have bl: "run_state (bitmap_loop fd N 131072 (garbage P 131072) N) w' =
      (Some (Some (bm, k)), w'\<lparr>fds := (fds w')(fd \<mapsto> d\<lparr>fd_pos := k * 131072 + 131072\<rparr>)\<rparr>)"
    if "faults w' = []" "fds w' fd = Some d" "fd_rd d" "fs w' (fd_path d) = Some i" for w' fd d
    using run_bitmap_loop [of w' fd d i N 131072 N "garbage P 131072" k] that assms(7) im(1-7)
    by (simp add: bm_def)
  have rc: "run_state (read_counts fd 131072 a m bm k) w' =
      ((True, Some ap, Some md), w'\<lparr>fds := (fds w')(fd := None), heap := heap w' - 3\<rparr>)"
    if "faults w' = []" "fds w' fd = Some d" "fd_rd d" "fs w' (fd_path d) = Some i" "3 \<le> heap w'" for w' fd d
    by (rule run_read_counts [where i = i and pos = pos and msz = msz])
       (use that assms(7) im(8-11) p in \<open>simp_all add: pos_def\<close>)
  have br: "bin_region_blocks 1 x y \<lparr>mi_size = of_nat (length (idata i)), mi_erasesize = 131072, mi_writesize = 512\<rparr> = int B" for x y
    using bin_region_blocks_gpt [OF im(2)] by (simp add: im(1))
  show ?thesis
    using assms(1-7)
    by (simp add: NVM_GetBackupFileNum_def run_GetDeviceInfo run new_fd_def bs bl rc br N used_def Let_def)
qed

section \<open>What the counter promises\<close>

text \<open>The flag file stores the count \<open>n\<close>.\<close>

definition counted :: "'g world \<Rightarrow> u32 \<Rightarrow> bool" where
  "counted w n \<longleftrightarrow> (\<exists>i. fs w g_pcNVM_BackFlag = Some i \<and> ikind i = Reg \<and> idata i = flag_image n)"

text \<open>A world in which a client of the counter may run: nothing fails and the mutexes are free.\<close>

definition calm :: "'g world \<Rightarrow> bool" where
  "calm w \<longleftrightarrow> wf_world w \<and> faults w = [] \<and> locks w = {}"

lemma run_AddBackupNum_valid:
  assumes "calm w" and "auto_backup P" and "k \<noteq> 0"
    and "fs w g_pcNVM_BackFlag = Some i" and "ikind i = Reg" and "idata i = flag_image n"
  shows "run_state (NVM_AddBackupNum P k) w =
    (True, used 1 (w\<lparr>fs := (fs w)(g_pcNVM_BackFlag \<mapsto> i\<lparr>idata := flag_image (n + k)\<rparr>)\<rparr>))"
proof -
  have v: "valid_flag (flag_image n)" "length (flag_image n) = 5" "take 4 (flag_image n) = le32 n"
    by (rule valid_flag_image) (simp_all add: flag_image_def)
  show ?thesis
    using assms v
    by (simp add: NVM_AddBackupNum_def calm_def run new_fd_def wants_write_def used_def)
qed

lemma run_AddBackupNum_missing:
  assumes "calm w" and "auto_backup P" and "k \<noteq> 0" and "fs w g_pcNVM_BackFlag = None"
    and "fs w ''/nvdata'' = None \<or> is_dir (fs w) ''/nvdata''"
  obtains f i where "run_state (NVM_AddBackupNum P k) w = (True, used 1 (w\<lparr>fs := f\<rparr>))"
    and "f g_pcNVM_BackFlag = Some i" and "ikind i = Reg" and "idata i = flag_image k"
proof -
  let ?w = "w\<lparr>locks := {backuplock}\<rparr>"
  have pre: "dir_prefixes [] g_pcNVM_BackFlag = [''/nvdata'']" and l: "length g_pcNVM_BackFlag < 4096"
    by (simp_all add: g_pcNVM_BackFlag_def)
  obtain f where f: "run_state (open_file_with_dirs P g_pcNVM_BackFlag [O_CREAT, O_RDWR] mode660) ?w =
       (next_fd w, ?w\<lparr>fs := f, fds := (fds w)(next_fd w \<mapsto> new_fd g_pcNVM_BackFlag [O_CREAT, O_RDWR]),
          next_fd := next_fd w + 1\<rparr>)"
    and i: "f g_pcNVM_BackFlag = Some \<lparr>ikind = Reg, idata = [], iuid = 0,
        igid = path_group P g_pcNVM_BackFlag, iperm = mode660\<rparr>"
    by (rule open_new_file [of ?w g_pcNVM_BackFlag "[O_CREAT, O_RDWR]" P mode660])
       (use assms pre l in \<open>auto simp: calm_def wf_world_def\<close>)
  have "run_state (NVM_AddBackupNum P k) w = (True, used 1 (w\<lparr>fs := f(g_pcNVM_BackFlag \<mapsto>
      \<lparr>ikind = Reg, idata = flag_image k, iuid = 0, igid = path_group P g_pcNVM_BackFlag, iperm = mode660\<rparr>)\<rparr>))"
    using assms f i
    by (simp add: NVM_AddBackupNum_def calm_def run new_fd_def wants_write_def used_def)
  then show ?thesis by (rule that) simp+
qed

lemma calm_used [simp]: "0 \<le> n \<Longrightarrow> calm w \<Longrightarrow> calm ((used n w)\<lparr>fs := f\<rparr>)"
  by (simp add: calm_def)

text \<open>
  Counting: from a flag file that stores \<open>n\<close>, or with no flag file from 0,
  \<open>NVM_AddBackupNum\<close> succeeds, stores the old count plus the argument (modulo \<open>2 ^ 32\<close>) with a
  valid check byte, and leaves the mutexes and descriptors as they were.
\<close>

theorem AddBackupNum_counts:
  assumes "calm w" and "auto_backup P" and "k \<noteq> 0" and "is_dir (fs w) ''/nvdata''"
    and "counted w n \<or> fs w g_pcNVM_BackFlag = None \<and> n = 0"
  shows "let (r, w') = run_state (NVM_AddBackupNum P k) w in
    r \<and> counted w' (n + k) \<and> calm w' \<and> fds w' = fds w"
  using assms(5)
proof
  assume "counted w n"
  then show ?thesis
    using assms(1-3) by (auto simp: counted_def run_AddBackupNum_valid)
next
  assume n: "fs w g_pcNVM_BackFlag = None \<and> n = 0"
  then obtain f i where "run_state (NVM_AddBackupNum P k) w = (True, used 1 (w\<lparr>fs := f\<rparr>))"
    "f g_pcNVM_BackFlag = Some i" "ikind i = Reg" "idata i = flag_image k"
    using run_AddBackupNum_missing [OF assms(1-3)] assms(4) by metis
  then show ?thesis using assms(1) n by (simp add: counted_def)
qed

theorem AddBackupNum_counts_witness:
  "counted (snd (run_state (NVM_AddBackupNum P0 7) (disk []))) 7"
  using AddBackupNum_counts [of "disk []" P0 7 0]
  by (simp add: case_prod_unfold Let_def calm_def is_dir_def new_inode_def g_pcNVM_BackFlag_def P0_def)

text \<open>How many entries of the list \<open>aBackupToBinRegion\<close> name \<open>lid\<close>.\<close>

definition matches :: "int \<Rightarrow> (string \<times> int) list \<Rightarrow> nat" where
  "matches lid xs = length (filter (\<lambda>(n, l). l = lid) xs)"

lemma add_matching_counted:
  "calm w \<Longrightarrow> auto_backup P \<Longrightarrow> counted w n \<Longrightarrow>
   let w' = snd (run_state (add_matching P lid xs) w) in counted w' (n + of_nat (matches lid xs)) \<and> calm w'"
proof (induction P lid xs arbitrary: w n rule: add_matching.induct)
  case (1 P lid)
  then show ?case by (simp add: matches_def)
next
  case (2 P lid name l rest)
  show ?case
  proof (cases "lid = l")
    case True
    obtain i where i: "fs w g_pcNVM_BackFlag = Some i" "ikind i = Reg" "idata i = flag_image n"
      using "2.prems"(3) by (auto simp: counted_def)
    define w1 where "w1 = used 1 (w\<lparr>fs := (fs w)(g_pcNVM_BackFlag \<mapsto> i\<lparr>idata := flag_image (n + 1)\<rparr>)\<rparr>)"
    have r: "run_state (NVM_AddBackupNum P 1) w = (True, w1)"
      unfolding w1_def by (rule run_AddBackupNum_valid) (use "2.prems" i in simp_all)
    have "calm w1" "counted w1 (n + 1)"
      using "2.prems"(1) i by (simp_all add: w1_def counted_def)
    from "2.IH"(1) [OF True this(1) "2.prems"(2) this(2)] show ?thesis
      using True r by (simp add: matches_def Let_def ac_simps)
  next
    case False
    with "2.IH"(2) [OF False "2.prems"] show ?thesis by (simp add: matches_def)
  qed
qed

text \<open>
  \<open>NVM_AddBackupFileNum\<close> adds to a valid flag file one for every entry of the backup list
  that names the file: a file that is not backed up leaves the count alone.
\<close>

theorem AddBackupFileNum_counts_matches:
  assumes "calm w" and "auto_backup P" and "counted w n"
  shows "counted (snd (run_state (NVM_AddBackupFileNum P lid) w)) (n + of_nat (matches lid (aBackupToBinRegion P)))"
  using add_matching_counted [OF assms, of lid "aBackupToBinRegion P"]
  by (simp add: NVM_AddBackupFileNum_def case_prod_unfold Let_def)

theorem AddBackupFileNum_counts_matches_witness:
  "counted (snd (run_state (NVM_AddBackupFileNum P0 1) (disk [(g_pcNVM_BackFlag, reg (flag_image 4))]))) 5"
  using AddBackupFileNum_counts_matches [of "disk [(g_pcNVM_BackFlag, reg (flag_image 4))]" P0 4 1]
  by (simp add: calm_def counted_def matches_def P0_def g_pcNVM_BackFlag_def)

text \<open>A region of three blocks: a map file of one byte in block 0, the bitmap in block 1.\<close>

definition sample_region :: "u32 \<Rightarrow> u16 \<Rightarrow> bytes" where
  "sample_region ap md = le32 1 @ replicate 9 (CHR 0x00) @ le32 ap @ le16 md @ replicate 393197 (CHR 0x00)"

lemma sample_region_ok: "region_image (sample_region ap md) 3 2 1 1 ap md"
proof -
  define n :: nat where "n = 393197"
  have d: "sample_region ap md = le32 1 @ replicate 9 (CHR 0x00) @ le32 ap @ le16 md @ replicate n (CHR 0x00)"
    by (simp add: sample_region_def n_def)
  have b: "block 131072 (sample_region ap md) 1 = replicate 131072 (CHR 0x00)"
    by (simp add: d block_def n_def)
  have l: "length (sample_region ap md) = 3 * 131072"
    by (simp add: d n_def)
  have t: "triple 2 (replicate 131072 (CHR 0x00))"
    by (simp add: triple_def)
  have g: "first_good (take 2 (replicate 131072 (CHR 0x00))) 1 = 0"
    by (simp add: first_good_def numeral_2_eq_2)
  have no: "\<forall>j. 1 < j \<and> j < 2 \<longrightarrow> \<not> triple 2 (block 131072 (sample_region ap md) j)"
    by auto
  have h: "take 4 (sample_region ap md) = le32 1" "take 6 (drop 13 (sample_region ap md)) = le32 ap @ le16 md"
    by (simp_all add: d)
  show ?thesis
    unfolding region_image_def Let_def b g
    using l t no h by simp
qed

lemmas sample_region_ok' = sample_region_ok [unfolded One_nat_def]

text \<open>
  The counts stored in a well-formed binary region are the ones \<open>NVM_GetBackupFileNum\<close>
  returns, with its descriptors closed and its buffers freed.
\<close>

theorem GetBackupFileNum_reads_region:
  assumes "wf_world w" and "faults w = []" and "nvram_gpt_flag (gl w) = 1"
    and "nvram_platform_layout_version (gl w) = 1" and "nvram_platform_DM_block (gl w) = int B - int N"
    and "fs w (dev_name (g_NVRAM_BACKUP_DEVICE (gl w))) = Some i" and "ikind i = Blk"
    and "region_image (idata i) B N k msz ap md"
  shows "let (r, w') = run_state (NVM_GetBackupFileNum P (Some a) (Some m)) w in
    r = (True, Some ap, Some md) \<and> fds w' = fds w \<and> heap w' = heap w \<and> fs w' = fs w \<and>
    NvRamBlockNum (gl w') = int N"
  using run_GetBackupFileNum [OF assms, of P a m] by simp

theorem GetBackupFileNum_reads_region_witness:
  "fst (run_state (NVM_GetBackupFileNum P0 (Some 0) (Some 0)) (disk [(''/dev/nvram'', blk (sample_region 9 8))])) =
    (True, Some 9, Some 8)"
proof -
  have n: "dev_name ''/dev/nvram'' = ''/dev/nvram''" by (simp add: no_nul_def)
  then show ?thesis
    using GetBackupFileNum_reads_region [of "disk [(''/dev/nvram'', blk (sample_region 9 8))]" 3 2
        "blk (sample_region 9 8)" 1 1 9 8 P0 0 0]
    by (simp add: sample_region_ok' g0_def case_prod_unfold Let_def del: dev_name_short)
qed

text \<open>
  C37.  A flag file whose check byte is wrong is thrown away and the count is taken from the binary
  region, from 0 when the region says 0xFFFFFFFF (never written).
\<close>

theorem AddBackupNum_recovers:
  assumes "calm w" and "auto_backup P" and "k \<noteq> 0" and "fs w g_pcNVM_BackFlag = Some j" and "ikind j = Reg"
    and "\<not> valid_flag (idata j)" and "nvram_gpt_flag (gl w) = 1"
    and "nvram_platform_layout_version (gl w) = 1" and "nvram_platform_DM_block (gl w) = int B - int N"
    and "dev_name (g_NVRAM_BACKUP_DEVICE (gl w)) \<noteq> g_pcNVM_BackFlag"
    and "fs w (dev_name (g_NVRAM_BACKUP_DEVICE (gl w))) = Some i" and "ikind i = Blk"
    and "region_image (idata i) B N b msz ap md"
  shows "let (r, w') = run_state (NVM_AddBackupNum P k) w in
    r \<and> counted w' ((if ap = 0xFFFFFFFF then 0 else ap) + k) \<and> calm w' \<and> fds w' = fds w"
proof -
  let ?d = "\<lparr>fd_path = g_pcNVM_BackFlag, fd_pos = 0, fd_rd = True, fd_wr = True\<rparr>"
  let ?w = "w\<lparr>locks := {backuplock}, fs := (fs w)(g_pcNVM_BackFlag \<mapsto> j\<lparr>idata := []\<rparr>),
      fds := (fds w)(next_fd w + 1 \<mapsto> ?d), next_fd := 2 + next_fd w\<rparr>"
  have wf: "wf_world ?w"
    by (rule wf_opened [where w = w and fd = "next_fd w + 1" and d = ?d]) (use assms(1) in \<open>auto simp: calm_def\<close>)
  have g: "run_state (NVM_GetBackupFileNum P (Some 0) (Some 0)) ?w =
    ((True, Some ap, Some md), used 2 (?w\<lparr>gl := (gl ?w)\<lparr>BinRegionBlockTotalNum := int B, NvRamBlockNum := int N\<rparr>\<rparr>))"
    by (rule run_GetBackupFileNum [where B = B and i = i and k = b and msz = msz])
       (use assms wf in \<open>simp_all add: calm_def\<close>)
  have fresh: "fds w (2 + next_fd w) = None" "fds w (3 + next_fd w) = None"
    using assms(1) fresh_fd_plus [of w 2] fresh_fd_plus [of w 3] by (simp_all add: calm_def add.commute)
  show ?thesis
    using assms g
    by (simp add: NVM_AddBackupNum_def calm_def read_from_bin_def run new_fd_def wants_write_def counted_def used_def)
       (auto intro: wf_later [where w = w])
qed

theorem AddBackupNum_recovers_witness:
  "counted (snd (run_state (NVM_AddBackupNum P0 1)
     (disk [(''/dev/nvram'', blk (sample_region 9 8)), (g_pcNVM_BackFlag, reg ''junk'')]))) 10"
proof -
  have n: "dev_name ''/dev/nvram'' = ''/dev/nvram''" by (simp add: no_nul_def)
  then show ?thesis
    using AddBackupNum_recovers [of "disk [(''/dev/nvram'', blk (sample_region 9 8)), (g_pcNVM_BackFlag, reg ''junk'')]" P0 1
        "reg ''junk''" 3 2 "blk (sample_region 9 8)" 1 1 9 8]
    by (simp add: sample_region_ok' g0_def case_prod_unfold Let_def calm_def P0_def g_pcNVM_BackFlag_def valid_flag_def
        del: dev_name_short)
qed

end
