(* ===== verification/Boot.thy ===== *)
theory Boot
  imports VerStore BackupFlag
begin

text \<open>
  Start-up: the partition paths (\<open>read_fstab\<close>, \<open>get_device_path\<close>, \<open>get_partition_path\<close>),
  \<open>NVM_Init\<close>, the search for a lid by name (\<open>NVM_GetLIDByName\<close>), the check of the version file at
  first boot (\<open>Check_FileVerinFirstBoot\<close>), the ownership check after an upgrade
  (\<open>Check_UpdateStatus\<close>) and the list of files in the new partition (\<open>NVM_InSpecialLidList\<close>), all of
  \<open>nvram/libnvram.c\<close>.  The fstab reader, the platform callback and the storage query are
  parameters of \<open>plat\<close>.
\<close>

section \<open>Partition paths\<close>

text \<open>The mount points are \<open>NVRAM_MNT_POINT\<close> and its siblings; a path is kept in 128 bytes.\<close>

definition fstab_file :: "plat \<Rightarrow> string" where
  "fstab_file P = ''/nvdata/fstab.'' @ ro_hardware P"

definition read_fstab :: "plat \<Rightarrow> (string \<Rightarrow> string option) option" where
  "read_fstab P = fstab_of P (fstab_file P)"

definition get_device_path :: "(string \<Rightarrow> string option) \<Rightarrow> string \<Rightarrow> string option" where
  "get_device_path fstab mount_point = (case fstab mount_point of None \<Rightarrow> None | Some blk_device \<Rightarrow> Some blk_device)"

definition set_when :: "string option \<Rightarrow> (path \<Rightarrow> nv_globals \<Rightarrow> nv_globals) \<Rightarrow> unit nv" where
  "set_when source_path upd = (case source_path of None \<Rightarrow> ret () | Some s \<Rightarrow> setg (upd (dev_name s)))"

definition get_partition_path :: "plat \<Rightarrow> int nv" where
  "get_partition_path P =
    (if emmc_support P \<or> ufs_support P
     then case read_fstab P of
       None \<Rightarrow> ret (-1)
     | Some fstab \<Rightarrow> do {
         set_when (get_device_path fstab ''/nvram'') (\<lambda>p g. g\<lparr>g_LOG_DEVICE := p, g_NVRAM_BACKUP_DEVICE := p\<rparr>);
         set_when (get_device_path fstab ''/misc'') (\<lambda>p g. g\<lparr>g_MISC_DEVICE := p\<rparr>);
         set_when (get_device_path fstab ''/nvdata'') (\<lambda>p g. g\<lparr>g_NVRAM_NVDATA_DEVICE := p\<rparr>);
         set_when (get_device_path fstab ''/proinfo'') (\<lambda>p g. g\<lparr>g_NVRAM_PROINFO_DEVICE := p\<rparr>);
         ret 0 }
     else do {
       setg (\<lambda>g. g\<lparr>g_LOG_DEVICE := ''/dev/nvram'', g_NVRAM_BACKUP_DEVICE := ''/dev/nvram'',
                   g_MISC_DEVICE := ''/dev/misc'', g_NVRAM_PROINFO_DEVICE := ''/dev/pro_info''\<rparr>);
       ret 0 })"

section \<open>Initialisation\<close>

definition set_platform :: "nvram_platform_t \<Rightarrow> unit nv" where
  "set_platform p = setg (\<lambda>g. g\<lparr>nvram_platform_log_block := log_block p, nvram_platform_resv_block := resv_block p,
     nvram_platform_DM_block := DM_block p, nvram_platform_layout_version := layout_version p,
     nvram_platform_header_offset := header_offset p\<rparr>)"

definition NVM_Init :: "plat \<Rightarrow> int nv" where
  "NVM_Init P = do {
     done \<leftarrow> getg nvram_init_flag;
     if done then getg g_i4MaxNvRamLid
     else do {
       r \<leftarrow> get_partition_path P;
       if r < 0 then ret (-1)
       else do {
         set_platform (platform_callback P);
         _ \<leftarrow> (case multi_storage P of None \<Rightarrow> ret () | Some p \<Rightarrow> set_platform p);
         setg (\<lambda>g. g\<lparr>g_i4MaxNvRamLid := to_int32 (int (length (g_akCFG_File P)) + int (length (g_akCFG_File_Custom P)))\<rparr>);
         setg (\<lambda>g. g\<lparr>nvram_gpt_flag := (if \<not> strstr (g_NVRAM_BACKUP_DEVICE g) ''block'' then 0 else 1)\<rparr>);
         setg (\<lambda>g. g\<lparr>nvram_init_flag := True\<rparr>);
         getg g_i4MaxNvRamLid } } }"

section \<open>The lid of a name\<close>

text \<open>
  The array of names: 70 bytes of the common names are copied, 128 of the custom ones.
\<close>

definition common_names :: "plat \<Rightarrow> (string \<times> int) list" where
  "common_names P = map (\<lambda>i. (cstr (snprintf_s FILENAMELENGTH (cFileName (g_akCFG_File P ! i))), int i))
     [0..<length (g_akCFG_File P)]"

definition custom_names :: "plat \<Rightarrow> (string \<times> int) list" where
  "custom_names P = map (\<lambda>i. (dev_name (cFileName (entry (g_akCFG_File_Custom P) (int i - iCustomBeginLID P))), int i))
     [length (g_akCFG_File P)..<length (g_akCFG_File P) + length (g_akCFG_File_Custom P)]"

text \<open>The loop over the first \<open>n\<close> names of the array, from name \<open>i\<close>.\<close>

fun find_lid :: "string \<Rightarrow> (string \<times> int) list \<Rightarrow> int" where
  "find_lid filename [] = -1"
| "find_lid filename ((n, iLID) # ns) = (if strstr n filename then iLID else find_lid filename ns)"

definition NVM_GetLIDByName :: "plat \<Rightarrow> string option \<Rightarrow> int nv" where
  "NVM_GetLIDByName P filename = do {
     i \<leftarrow> NVM_Init P;
     if i < 0 then ret (-1)
     else do {
       a \<leftarrow> getg gFileNameArray;
       mx \<leftarrow> getg g_i4MaxNvRamLid;
       ok \<leftarrow> (if a = None
         then do {
           m \<leftarrow> sys_malloc (mx * 132);
           if \<not> m then ret False
           else do {
             setg (\<lambda>g. g\<lparr>gFileNameArray := Some (common_names P @ custom_names P)\<rparr>);
             ret True } }
         else ret True);
       if \<not> ok then ret (-1)
       else do {
         arr \<leftarrow> getg gFileNameArray;
         case filename of
           None \<Rightarrow> ret (-1)
         | Some f \<Rightarrow>
             if strstr f ''Reserved'' \<or> FILENAMELENGTH < length f \<or> length f = 0 then ret (-1)
             else do {
               check (mx \<le> int (length (the arr))) OutOfBounds;
               ret (find_lid f (take (nat mx) (the arr))) } } } }"

section \<open>Checks at boot\<close>

definition Check_FileVerinFirstBoot :: "plat \<Rightarrow> bool nv" where
  "Check_FileVerinFirstBoot P = do {
     max_lid_num \<leftarrow> NVM_Init P;
     if max_lid_num \<le> 0 then ret False
     else do {
       flag \<leftarrow> sys_stat g_pcNVM_Flag;
       if flag = None
       then do {
         statbuf \<leftarrow> sys_stat (ver_path P);
         if (case statbuf of None \<Rightarrow> True
             | Some i \<Rightarrow> ikind i \<noteq> Reg \<or> st_size i \<noteq> VERREC * (max_lid_num + 1))
         then NVM_GenerateFileVer P True
         else ret True }
       else ret True } }"

definition g_pcNVM :: path where "g_pcNVM = ''/nvdata''"
definition g_pcNVM_BT :: path where "g_pcNVM_BT = ''/nvdata/APCFG/APRDEB/BT_Addr''"
definition g_pcNVM_MD :: path where "g_pcNVM_MD = ''/nvdata/md/NVRAM''"

text \<open>The condition under which the owner of \<open>/nvdata\<close> is changed.\<close>

definition upgraded :: "plat \<Rightarrow> inode \<Rightarrow> inode option \<Rightarrow> bool" where
  "upgraded P info statbuf \<longleftrightarrow>
     igid info \<noteq> AID_SYSTEM P \<or>
     (case statbuf of None \<Rightarrow> False | Some s \<Rightarrow> iuid s \<noteq> AID_RADIO P \<and> iuid s \<noteq> AID_SYSTEM P \<and> iuid s \<noteq> AID_ROOT P) \<or>
     (case statbuf of None \<Rightarrow> False | Some s \<Rightarrow> igid s \<noteq> AID_RADIO P \<and> igid s \<noteq> AID_SYSTEM P)"

text \<open>\<open>chmod(a) || chmod(b) || ...\<close>: false as soon as one fails.\<close>

primrec chmod_all :: "(path \<times> nat) list \<Rightarrow> bool nv" where
  "chmod_all [] = ret True"
| "chmod_all (x # xs) = do {
     r \<leftarrow> sys_chmod (fst x) (snd x);
     if r \<noteq> 0 then ret False else chmod_all xs }"

definition bt_modes :: "(path \<times> nat) list" where
  "bt_modes = [(''/nvdata/APCFG'', mode771), (''/nvdata/APCFG/APRDEB'', mode771), (''/nvdata/APCFG/APRDCL'', mode771),
     (''/nvdata/APCFG/APRDCL/FILE_VER'', mode664)]"

definition Check_UpdateStatus :: "plat \<Rightarrow> bool nv" where
  "Check_UpdateStatus P = do {
     val \<leftarrow> sys_stat g_pcNVM;
     case val of
       None \<Rightarrow> ret True
     | Some info \<Rightarrow> do {
         statbuf \<leftarrow> sys_stat g_pcNVM_MD;
         c \<leftarrow> (if upgraded P info statbuf then sys_chown ''/nvdata'' (Some (AID_ROOT P)) (Some (AID_SYSTEM P)) else ret 0);
         if c \<noteq> 0 then ret False
         else do {
           vre \<leftarrow> sys_stat g_pcNVM_BT;
           if (case vre of None \<Rightarrow> False | Some stb \<Rightarrow> igid stb \<noteq> AID_BLUETOOTH P)
           then do {
             c \<leftarrow> sys_chown g_pcNVM_BT (Some (AID_ROOT P)) (Some (AID_BLUETOOTH P));
             if c \<noteq> 0 then ret False
             else chmod_all bt_modes }
           else ret True } } }"

text \<open>The search for a lid in the list of the new partition: the index of its entry.\<close>

fun find_special :: "int \<Rightarrow> nat \<Rightarrow> special_lid list \<Rightarrow> nat option" where
  "find_special file_lid i [] = None"
| "find_special file_lid i (x # xs) = (if file_lid = sl_lid x then Some i else find_special file_lid (Suc i) xs)"

definition NVM_InSpecialLidList :: "plat \<Rightarrow> int \<Rightarrow> nat option" where
  "NVM_InSpecialLidList P file_lid =
     (if length (g_new_nvram_lid P) = 0 then None else find_special file_lid 0 (g_new_nvram_lid P))"

section \<open>Resources\<close>

lemma neutral_get_partition_path: "neutral {} (get_partition_path P)"
  by (rule neutralI) (auto simp: get_partition_path_def set_when_def intro!: rs)

lemma neutral_Init: "neutral {} (NVM_Init P)"
  by (rule neutralI)
     (auto simp: NVM_Init_def set_platform_def intro!: rs neutral_rs [OF neutral_get_partition_path])

lemma neutral_Check_FileVerinFirstBoot: "neutral {dirlock, generateFileVerlock} (Check_FileVerinFirstBoot P)"
  by (rule neutralI)
     (auto simp: Check_FileVerinFirstBoot_def intro!: rs neutral_rs [OF neutral_Init] neutral_rs [OF neutral_GenerateFileVer])

lemma neutral_chmod_all: "neutral {} (chmod_all xs)"
proof (rule neutralI)
  fix A and Q :: "bool \<Rightarrow> res \<Rightarrow> bool"
  assume "\<And>r. Q r A"
  then show "rspec A (chmod_all xs) Q" by (induction xs) (auto intro!: rs)
qed

lemma neutral_Check_UpdateStatus: "neutral {} (Check_UpdateStatus P)"
  by (rule neutralI) (auto simp: Check_UpdateStatus_def intro!: rs neutral_rs [OF neutral_chmod_all])

section \<open>Initialisation happens once\<close>

text \<open>What \<open>NVM_Init\<close> leaves in the globals.\<close>

definition initialised :: "plat \<Rightarrow> nv_globals \<Rightarrow> bool" where
  "initialised P g \<longleftrightarrow> nvram_init_flag g \<and>
     g_i4MaxNvRamLid g = to_int32 (int (length (g_akCFG_File P)) + int (length (g_akCFG_File_Custom P)))"

lemma run_Init_again [run]: "nvram_init_flag (gl w) \<Longrightarrow> run_state (NVM_Init P) w = (g_i4MaxNvRamLid (gl w), w)"
  by (simp add: NVM_Init_def run)

lemma run_set_when_state: "run_state (set_when s u) w = ((), w\<lparr>gl := (case s of None \<Rightarrow> gl w | Some p \<Rightarrow> u (dev_name p) (gl w))\<rparr>)"
  by (cases s) (simp_all add: set_when_def run)

text \<open>
  \<open>NVM_Init\<close> is idempotent: a second call returns the value of the first and changes nothing,
  whether the first one succeeded or failed.
\<close>

theorem Init_idempotent:
  "run_state (NVM_Init P) (snd (run_state (NVM_Init P) w)) = run_state (NVM_Init P) w"
proof (cases "nvram_init_flag (gl w)")
  case False
  have p: "run_state (get_partition_path P) w = (-1, w) \<or> (\<exists>g. run_state (get_partition_path P) w = (0, w\<lparr>gl := g\<rparr>))"
  proof (cases "emmc_support P \<or> ufs_support P")
    case True
    then show ?thesis
      by (cases "read_fstab P")
        (simp_all add: get_partition_path_def run_bind run_ret run_set_when_state, blast)
  qed (simp add: get_partition_path_def run_bind run_ret run_setg, blast)
  have s: "\<exists>h. run_state (case multi_storage P of None \<Rightarrow> ret () | Some p \<Rightarrow> set_platform p) v = ((), v\<lparr>gl := h\<rparr>)" for v
  proof (cases "multi_storage P")
    case None
    then show ?thesis by (intro exI [of _ "gl v"]) (simp add: run_ret)
  qed (simp add: set_platform_def run_setg, blast)
  have "run_state (NVM_Init P) w = (-1, w) \<or>
      (\<exists>v. nvram_init_flag (gl v) \<and> run_state (NVM_Init P) w = (g_i4MaxNvRamLid (gl v), v))"
    using p
  proof
    assume "run_state (get_partition_path P) w = (-1, w)"
    then show ?thesis using False by (simp add: NVM_Init_def run)
  next
    assume "\<exists>g. run_state (get_partition_path P) w = (0, w\<lparr>gl := g\<rparr>)"
    then obtain g where g: "run_state (get_partition_path P) w = (0, w\<lparr>gl := g\<rparr>)" ..
    obtain v where v: "run_state (set_platform (platform_callback P)) (w\<lparr>gl := g\<rparr>) = ((), v)"
      by (cases "run_state (set_platform (platform_callback P)) (w\<lparr>gl := g\<rparr>)") auto
    obtain h where h: "run_state (case multi_storage P of None \<Rightarrow> ret () | Some p \<Rightarrow> set_platform p) v = ((), v\<lparr>gl := h\<rparr>)"
      using s by blast
    show ?thesis
      using False by (simp add: NVM_Init_def run_bind run_gets run_setg g v h)
  qed
  then show ?thesis
    by (auto simp: run_Init_again)
next
  case True
  then show ?thesis by (simp add: run_Init_again)
qed

section \<open>Finding a lid\<close>

lemma find_lid_first:
  assumes "map snd xs = map int [k..<k + length xs]"
  shows "find_lid f xs = -1 \<and> (\<forall>j < length xs. \<not> strstr (fst (xs ! j)) f) \<or>
    (\<exists>j < length xs. find_lid f xs = int (k + j) \<and> strstr (fst (xs ! j)) f \<and>
       (\<forall>i < j. \<not> strstr (fst (xs ! i)) f))"
  using assms
proof (induction xs arbitrary: k)
  case (Cons x xs)
  obtain n l where x: "x = (n, l)" by force
  have l: "l = int k" and t: "map snd xs = map int [Suc k..<Suc k + length xs]"
    using Cons.prems by (simp_all add: x upt_conv_Cons del: upt_Suc)
  show ?case
  proof (cases "strstr n f")
    case True
    then show ?thesis by (intro disjI2 exI [of _ 0]) (simp add: x l)
  next
    case False
    from Cons.IH [OF t] show ?thesis
    proof
      assume "find_lid f xs = -1 \<and> (\<forall>j < length xs. \<not> strstr (fst (xs ! j)) f)"
      with False show ?thesis by (auto simp: x nth_Cons split: nat.split)
    next
      assume "\<exists>j < length xs. find_lid f xs = int (Suc k + j) \<and> strstr (fst (xs ! j)) f \<and>
        (\<forall>i < j. \<not> strstr (fst (xs ! i)) f)"
      then obtain j where "j < length xs" "find_lid f xs = int (Suc k + j)" "strstr (fst (xs ! j)) f"
        "\<forall>i < j. \<not> strstr (fst (xs ! i)) f" by auto
      with False show ?thesis
        by (intro disjI2 exI [of _ "Suc j"]) (auto simp: x nth_Cons split: nat.split)
    qed
  qed
qed simp

lemma names_array:
  assumes "plat_ok P"
  shows "map fst (common_names P @ custom_names P) = map cFileName (all_files P)"
    and "map snd (common_names P @ custom_names P) = map int [0..<length (all_files P)]"
proof -
  have ok: "no_nul (cFileName e)" "length (cFileName e) < FILENAMELENGTH" if "e \<in> set (all_files P)" for e
    using assms that by (auto simp: plat_ok_def entry_ok_def list_all_iff)
  have a: "map fst (common_names P) = map cFileName (g_akCFG_File P)"
    using ok by (intro nth_equalityI) (simp_all add: common_names_def all_files_def cstr_snprintf_s)
  have beg: "iCustomBeginLID P = int (length (g_akCFG_File P))"
    using assms by (simp add: plat_ok_def)
  have b: "map fst (custom_names P) = map cFileName (g_akCFG_File_Custom P)"
  proof (rule nth_equalityI)
    fix i assume "i < length (map fst (custom_names P))"
    then have i: "i < length (g_akCFG_File_Custom P)" by (simp add: custom_names_def)
    then have e: "g_akCFG_File_Custom P ! i \<in> set (all_files P)" by (simp add: all_files_def)
    have "dev_name (cFileName (g_akCFG_File_Custom P ! i)) = cFileName (g_akCFG_File_Custom P ! i)"
      using ok [OF e] by (intro dev_name_short) simp_all
    with i show "map fst (custom_names P) ! i = map cFileName (g_akCFG_File_Custom P) ! i"
      by (simp add: custom_names_def beg entry_def in_table_def)
  qed (simp add: custom_names_def)
  show "map fst (common_names P @ custom_names P) = map cFileName (all_files P)"
    by (simp add: a b all_files_def)
  show "map snd (common_names P @ custom_names P) = map int [0..<length (all_files P)]"
    by (simp add: common_names_def custom_names_def all_files_def o_def upt_add_eq_append [of 0 "length (g_akCFG_File P)"])
qed

text \<open>
  In an initialised process \<open>NVM_GetLIDByName\<close> returns the smallest lid whose path contains
  the name, and -1 when no path does (or the name is empty, too long or reserved).
\<close>

theorem GetLIDByName_first:
  assumes "plat_ok P" and "faults w = []" and "nvram_init_flag (gl w)"
    and "g_i4MaxNvRamLid (gl w) = int (length (all_files P))"
    and "gFileNameArray (gl w) = None \<or> gFileNameArray (gl w) = Some (common_names P @ custom_names P)"
  shows "let r = fst (run_state (NVM_GetLIDByName P (Some f)) w);
             valid = (\<not> strstr f ''Reserved'' \<and> length f \<le> FILENAMELENGTH \<and> f \<noteq> []);
             contains = (\<lambda>j. strstr (cFileName (all_files P ! j)) f)
    in if valid \<and> (\<exists>j < length (all_files P). contains j)
       then 0 \<le> r \<and> nat r < length (all_files P) \<and> contains (nat r) \<and> (\<forall>i < nat r. \<not> contains i)
       else r = -1"
proof -
  let ?a = "common_names P @ custom_names P"
  let ?n = "length (all_files P)"
  have l: "length ?a = ?n"
    using arg_cong [OF names_array(1) [OF assms(1)], of length] by simp
  have nm: "fst (?a ! j) = cFileName (all_files P ! j)" if "j < ?n" for j
    using names_array(1) [OF assms(1)] that l by (metis length_map nth_map)
  have r: "fst (run_state (NVM_GetLIDByName P (Some f)) w) =
      (if strstr f ''Reserved'' \<or> FILENAMELENGTH < length f \<or> length f = 0 then -1 else find_lid f ?a)"
    using assms(5)
  proof
    assume "gFileNameArray (gl w) = None"
    with assms(2-4) l show ?thesis
      by (simp add: NVM_GetLIDByName_def run_bind run_Init_again run_gets run_malloc run_setg run_ret run_check)
  next
    assume "gFileNameArray (gl w) = Some ?a"
    with assms(2-4) l show ?thesis
      by (simp add: NVM_GetLIDByName_def run_bind run_Init_again run_gets run_ret run_check)
  qed
  have "map snd ?a = map int [0..<0 + length ?a]"
    using names_array(2) [OF assms(1)] l by simp
  from find_lid_first [OF this, of f] show ?thesis
    unfolding Let_def r using nm l by auto
qed

theorem GetLIDByName_first_witness:
  "fst (run_state (NVM_GetLIDByName P0 (Some ''BT'')) (disk [])) = 2"
proof -
  have f: "all_files P0 = [e_ver, e_wifi, e_bt]" by (simp add: all_files_def P0_def)
  have n: "cFileName e_ver = ''/nvdata/FILE_VER''" "cFileName e_wifi = ''/nvdata/WIFI''" "cFileName e_bt = ''/nvdata/BT_Addr''"
    by (simp_all add: e_ver_def e_wifi_def e_bt_def)
  show ?thesis
    using GetLIDByName_first [of P0 "disk []" "''BT''"]
    by (simp add: Let_def f n g0_def numeral_3_eq_3 Ex_less_Suc All_less_Suc split: if_splits)
       (auto simp: less_Suc_eq n)
qed

section \<open>First boot\<close>

lemma run_Init_ready: "nvram_init_flag (gl w) \<Longrightarrow> g_i4MaxNvRamLid (gl w) = n \<Longrightarrow> run_state (NVM_Init P) w = (n, w)"
  by (simp add: run_Init_again)

text \<open>A version file with one record for every file and the header passes.\<close>

lemma run_FirstBoot_pass:
  assumes "faults w = []" and "nvram_init_flag (gl w)" and "g_i4MaxNvRamLid (gl w) = int n" and "0 < n"
    and "ver_table P w bl" and "length bl = Suc n"
  shows "run_state (Check_FileVerinFirstBoot P) w = (True, w)"
proof -
  obtain i where i: "fs w (ver_path P) = Some i" "ikind i = Reg" "idata i = concat bl" and b: "blocks VERREC bl"
    using assms(5) by (auto simp: ver_table_def)
  have "st_size i = VERREC * (int n + 1)"
    using i length_concat_blocks [OF b] assms(6) by (simp add: st_size_def)
  with assms(1-4) i show ?thesis
    by (simp add: Check_FileVerinFirstBoot_def run_bind run_Init_again run_stat run_ret)
qed

text \<open>
  On a first boot (no \<open>RestoreFlag\<close>) without a version file \<open>Check_FileVerinFirstBoot\<close> leaves a
  version file in which every file of the tables compares as current, and running the check again
  succeeds and changes nothing.
\<close>

theorem FirstBoot_version_file:
  assumes "plat_ok P" and "distinct (names P)" and "wf_world w" and "faults w = []"
    and "locks w \<inter> {dirlock, generateFileVerlock} = {}" and "no_table P w"
    and "nvram_init_flag (gl w)" and "g_i4MaxNvRamLid (gl w) = int (length (all_files P))"
    and "fs w g_pcNVM_Flag = None"
  shows "let (r, w') = run_state (Check_FileVerinFirstBoot P) w in
    r \<and> kept P w' \<and> (\<forall>j. lid_ok P j \<longrightarrow> fst (run_state (NVM_CmpFileVerNo P j) w')) \<and>
    run_state (Check_FileVerinFirstBoot P) w' = (True, w')"
proof -
  have l: "dirlock \<notin> locks w" "generateFileVerlock \<notin> locks w" using assms(5) by auto
  have n: "0 < length (all_files P)" using assms(1) by (simp add: plat_ok_def all_files_def)
  obtain w' where r: "run_state (NVM_GenerateFileVer P True) w = (True, w')" and t: "ver_table P w' (default_table P)"
    and w': "wf_world w'" "faults w' = []" "fds w' = fds w" "locks w' = locks w" "gl w' = gl w"
    by (rule run_GenerateFileVer [OF assms(1,3,4) l assms(6)])
  have o: "in_order P (default_table P)" by (rule default_in_order [OF assms(1)])
  have k: "kept P w'"
    unfolding kept_def using assms(1,2) w' l t o by (intro conjI exI [of _ "default_table P"]) simp_all
  have c: "fst (run_state (NVM_CmpFileVerNo P j) w')" if "lid_ok P j" for j
    using run_cmp_kept [OF k that t o] default_at [OF that] file_ok [OF that] by simp
  have b: "run_state (Check_FileVerinFirstBoot P) w = (True, w')"
    using assms(4,6-9) n
    by (simp add: Check_FileVerinFirstBoot_def run_bind run_Init_again run_stat r no_table_def)
  have "length (default_table P) = Suc (length (all_files P))" by (simp add: default_table_def)
  then have again: "run_state (Check_FileVerinFirstBoot P) w' = (True, w')"
    using assms(7,8) w'(2,5) n t by (intro run_FirstBoot_pass) simp_all
  show ?thesis using b k c again by simp
qed

theorem FirstBoot_version_file_witness:
  "fst (run_state (NVM_CmpFileVerNo P0 1) (snd (run_state (Check_FileVerinFirstBoot P0) (disk []))))"
proof -
  have n: "no_table P0 (disk [])"
    by (simp add: no_table_def ver_path_P0 is_dir_def new_inode_def)
  have g: "nvram_init_flag g0" "g_i4MaxNvRamLid g0 = 3" "length (all_files P0) = 3"
    by (simp_all add: g0_def all_files_def P0_def)
  show ?thesis
    using FirstBoot_version_file [OF P0_ok(1) distinct_names_P0 wf_disk disk_sel(1) _ n] lid_ok_P0 g
    by (simp add: g_pcNVM_Flag_def case_prod_unfold Let_def)
qed

section \<open>Ownership after an upgrade\<close>

text \<open>Everything but the permission bits.\<close>

definition core_of :: "inode \<Rightarrow> fkind \<times> bytes \<times> nat \<times> nat" where
  "core_of i = (ikind i, idata i, iuid i, igid i)"

lemma core_of_upd [simp]: "core_of (i\<lparr>iperm := m\<rparr>) = core_of i"
  by (simp add: core_of_def)

lemma run_chmod_all:
  assumes "faults w = []"
  shows "\<exists>r f. run_state (chmod_all xs) w = (r, w\<lparr>fs := f\<rparr>) \<and> (\<forall>p. map_option core_of (f p) = map_option core_of (fs w p))"
  using assms
proof (induction xs arbitrary: w)
  case Nil
  show ?case by (intro exI [of _ True] exI [of _ "fs w"]) (simp add: run_ret)
next
  case (Cons x xs)
  show ?case
  proof (cases "fs w (fst x)")
    case None
    then show ?thesis
      using Cons.prems by (intro exI [of _ False] exI [of _ "fs w"]) (simp add: run_bind run_ret sys_chmod_def)
  next
    case (Some i)
    let ?w = "w\<lparr>fs := (fs w)(fst x \<mapsto> i\<lparr>iperm := snd x\<rparr>)\<rparr>"
    obtain r f where "run_state (chmod_all xs) ?w = (r, ?w\<lparr>fs := f\<rparr>)"
      "\<forall>p. map_option core_of (f p) = map_option core_of (fs ?w p)"
      using Cons.IH [of ?w] Cons.prems by auto
    then show ?thesis
      using Cons.prems Some
      by (intro exI [of _ r] exI [of _ f]) (auto simp: run_bind sys_chmod_def core_of_upd)
  qed
qed

lemma core_eqD:
  assumes "\<forall>p. map_option core_of (f p) = map_option core_of (g p)" and "g p = Some i"
  obtains j where "f p = Some j" and "igid j = igid i" and "idata j = idata i" and "ikind j = ikind i"
  using assms(1) [rule_format, of p] assms(2) by (auto simp: core_of_def map_option_eq_Some)

text \<open>
  C38.  When no call fails, a check of the update status that succeeds leaves \<open>/nvdata\<close> in the group
  of the system and the Bluetooth address file in the group of Bluetooth, and neither it nor a
  failed check changes the content of a file.
\<close>

theorem UpdateStatus_groups:
  assumes "faults w = []"
  shows "let (r, w') = run_state (Check_UpdateStatus P) w in
    (\<forall>p. map_option (\<lambda>i. (ikind i, idata i)) (fs w' p) = map_option (\<lambda>i. (ikind i, idata i)) (fs w p)) \<and>
    (r \<longrightarrow> (\<forall>i. fs w' g_pcNVM = Some i \<longrightarrow> igid i = AID_SYSTEM P) \<and>
       (fs w g_pcNVM \<noteq> None \<longrightarrow> (\<forall>i. fs w' g_pcNVM_BT = Some i \<longrightarrow> igid i = AID_BLUETOOTH P)))"
proof (cases "fs w g_pcNVM")
  case None
  then show ?thesis using assms by (simp add: Check_UpdateStatus_def run_bind run_stat run_ret)
next
  case (Some i)
  have d: "''/nvdata'' = g_pcNVM" "g_pcNVM_BT \<noteq> g_pcNVM" by (simp_all add: g_pcNVM_def g_pcNVM_BT_def)
  let ?i = "if upgraded P i (fs w g_pcNVM_MD) then i\<lparr>iuid := AID_ROOT P, igid := AID_SYSTEM P\<rparr> else i"
  let ?w = "w\<lparr>fs := (fs w)(g_pcNVM \<mapsto> ?i)\<rparr>"
  define bt where "bt = do { vre \<leftarrow> sys_stat g_pcNVM_BT;
           if (case vre of None \<Rightarrow> False | Some stb \<Rightarrow> igid stb \<noteq> AID_BLUETOOTH P)
           then do {
             c \<leftarrow> sys_chown g_pcNVM_BT (Some (AID_ROOT P)) (Some (AID_BLUETOOTH P));
             if c \<noteq> 0 then ret False
             else chmod_all bt_modes }
           else ret True }"
  have g: "igid ?i = AID_SYSTEM P" by (simp add: upgraded_def)
  have same: "w\<lparr>fs := (fs w)(g_pcNVM \<mapsto> i)\<rparr> = w" using Some by (simp add: map_upd_triv)
  have r: "run_state (Check_UpdateStatus P) w = run_state bt ?w"
    using assms Some same
    by (cases "upgraded P i (fs w g_pcNVM_MD)")
      (simp_all add: Check_UpdateStatus_def bt_def [symmetric] run_bind run_stat run_ret sys_chown_def d(1) del: fun_upd_apply)
  show ?thesis
  proof (cases "\<exists>s. fs w g_pcNVM_BT = Some s \<and> igid s \<noteq> AID_BLUETOOTH P")
    case False
    then have "run_state bt ?w = (True, ?w)"
      using assms d(2) by (auto simp: bt_def run_bind run_stat run_ret split: option.split)
    then show ?thesis using r False Some g d(2) by auto
  next
    case True
    then obtain s where s: "fs w g_pcNVM_BT = Some s" "igid s \<noteq> AID_BLUETOOTH P" by blast
    let ?v = "?w\<lparr>fs := (fs ?w)(g_pcNVM_BT \<mapsto> s\<lparr>iuid := AID_ROOT P, igid := AID_BLUETOOTH P\<rparr>)\<rparr>"
    obtain b f where f: "run_state (chmod_all bt_modes) ?v = (b, ?v\<lparr>fs := f\<rparr>)"
      "\<forall>p. map_option core_of (f p) = map_option core_of (fs ?v p)"
      using run_chmod_all [of ?v bt_modes] assms by auto
    have v: "run_state bt ?w = (b, ?v\<lparr>fs := f\<rparr>)"
      using assms s d(2) f(1) by (simp add: bt_def run_bind run_stat sys_chown_def)
    have "map_option (\<lambda>i. (ikind i, idata i)) (f p) = map_option (\<lambda>i. (ikind i, idata i)) (fs w p)" for p
      using f(2) [rule_format, of p] Some s(1) d(2)
      by (cases "f p"; cases "fs w p") (auto simp: core_of_def split: if_splits)
    moreover have "igid j = AID_SYSTEM P" if "f g_pcNVM = Some j" for j
      using f(2) [rule_format, of g_pcNVM] that g d(2) by (auto simp: core_of_def split: if_splits)
    moreover have "igid j = AID_BLUETOOTH P" if "f g_pcNVM_BT = Some j" for j
      using f(2) [rule_format, of g_pcNVM_BT] that d(2) by (auto simp: core_of_def)
    ultimately show ?thesis using r v by simp
  qed
qed

theorem UpdateStatus_groups_witness:
  "map_option igid (fs (snd (run_state (Check_UpdateStatus P0) (disk []))) g_pcNVM) = Some 1000"
proof -
  have p: "fs (disk []) g_pcNVM = Some (new_inode Dir mode771)" by (simp add: g_pcNVM_def)
  have m: "fs (disk []) g_pcNVM_MD = None" "fs (disk []) g_pcNVM_BT = None" by (simp_all add: g_pcNVM_MD_def g_pcNVM_BT_def)
  have r: "fst (run_state (Check_UpdateStatus P0) (disk []))"
    using p m by (auto simp: Check_UpdateStatus_def run_bind run_stat run_ret sys_chown_def g_pcNVM_def g_pcNVM_BT_def)
  have k: "map_option ikind (fs (snd (run_state (Check_UpdateStatus P0) (disk []))) g_pcNVM) \<noteq> None"
    using UpdateStatus_groups [of "disk []" P0] p by (auto simp: Let_def case_prod_unfold dest!: spec [of _ g_pcNVM])
  have a: "AID_SYSTEM P0 = 1000" by (simp add: P0_def)
  show ?thesis
    using UpdateStatus_groups [of "disk []" P0] r k by (auto simp: Let_def case_prod_unfold a)
qed

end
