(* ===== verification/AllFile.thy ===== *)
theory AllFile
  imports BackupFlag
begin

text \<open>
  The checksum of the collected backup \<open>/nvdata/AllFile\<close> and its place in \<open>/nvdata/AllMap\<close>:
  \<open>NVM_ComputeCheckSum\<close> (with the word-at-a-time version it replaced, kept in the source under
  \<open>#if 0\<close>), \<open>NVM_GetCheckSum\<close>, \<open>NVM_SetCheckSum\<close> and \<open>NVM_CompareCheckSum\<close> of
  \<open>nvram/libnvram.c\<close>.  \<open>all_sum\<close> is the checksum as a function of the content.
\<close>

section \<open>Operations\<close>

text \<open>The 32-bit words of a buffer whose length is a multiple of 4.\<close>

fun words :: "bytes \<Rightarrow> u32 list" where
  "words (a # b # c # d # r) = un32 [a, b, c, d] # words r"
| "words _ = []"

text \<open>The variables \<open>flag\<close> and \<open>ulCheckSum\<close>, and the inner loop over \<open>tempBuf\<close>.\<close>

fun sum_words :: "bool \<times> u32 \<Rightarrow> u32 list \<Rightarrow> bool \<times> u32" where
  "sum_words s [] = s"
| "sum_words (flag, ulCheckSum) (x # xs) =
     (if flag then sum_words (False, ulCheckSum XOR x) xs else sum_words (True, ulCheckSum + x) xs)"

abbreviation (input) Loop_num :: nat where "Loop_num \<equiv> 4096"

text \<open>The outer loop with \<open>n\<close> rounds to go: only the last one is shorter.\<close>

primrec sum_chunks :: "int \<Rightarrow> nat \<Rightarrow> nat \<Rightarrow> bool \<times> u32 \<Rightarrow> (bool \<times> u32) option nv" where
  "sum_chunks fd looptime 0 s = ret (Some s)"
| "sum_chunks fd looptime (Suc n) s = do {
     let jloop_num = (if n \<noteq> 0 then Loop_num else looptime mod Loop_num);
     r \<leftarrow> sys_read fd (jloop_num * 4);
     if rd_len r \<noteq> int (jloop_num * 4) then ret None
     else sum_chunks fd looptime n (sum_words s (words (the r))) }"

text \<open>The last one to three bytes, read into a zeroed word.\<close>

definition sum_tail :: "int \<Rightarrow> nat \<Rightarrow> u32 \<Rightarrow> u32 nv" where
  "sum_tail fd iLength ulCheckSum = do {
     r \<leftarrow> sys_read fd iLength;
     _ \<leftarrow> sys_close fd;
     ret (if rd_len r \<noteq> int iLength then 0 else ulCheckSum + un32 (the r)) }"

definition NVM_ComputeCheckSum :: "u32 nv" where
  "NVM_ComputeCheckSum = do {
     st \<leftarrow> sys_stat g_pcNVM_AllFile;
     case st of None \<Rightarrow> ret 0
     | Some st \<Rightarrow> do {
         let iFileSize = nat (st_size st mod 2 ^ 32);
         let looptime = iFileSize div 4;
         fd \<leftarrow> sys_open g_pcNVM_AllFile [O_RDWR] 0;
         if fd < 0 then ret 0
         else do {
           s \<leftarrow> sum_chunks fd looptime (looptime div Loop_num + 1) (True, 0);
           case s of None \<Rightarrow> do { _ \<leftarrow> sys_close fd; ret 0 }
           | Some (flag, ulCheckSum) \<Rightarrow> sum_tail fd (iFileSize mod 4) ulCheckSum } } }"

text \<open>The version under \<open>#if 0\<close>: one read per word.\<close>

primrec sum_single :: "int \<Rightarrow> nat \<Rightarrow> bool \<times> u32 \<Rightarrow> (bool \<times> u32) option nv" where
  "sum_single fd 0 s = ret (Some s)"
| "sum_single fd (Suc n) s = do {
     r \<leftarrow> sys_read fd 4;
     if rd_len r \<noteq> 4 then ret None
     else let (flag, ulCheckSum) = s
          in if flag then sum_single fd n (False, ulCheckSum XOR un32 (the r))
             else sum_single fd n (True, ulCheckSum + un32 (the r)) }"

definition NVM_ComputeCheckSum_old :: "u32 nv" where
  "NVM_ComputeCheckSum_old = do {
     st \<leftarrow> sys_stat g_pcNVM_AllFile;
     case st of None \<Rightarrow> ret 0
     | Some st \<Rightarrow> do {
         let iFileSize = nat (st_size st mod 2 ^ 32);
         let looptime = iFileSize div 4;
         fd \<leftarrow> sys_open g_pcNVM_AllFile [O_RDWR] 0;
         if fd < 0 then ret 0
         else do {
           s \<leftarrow> sum_single fd looptime (True, 0);
           case s of None \<Rightarrow> do { _ \<leftarrow> sys_close fd; ret 0 }
           | Some (flag, ulCheckSum) \<Rightarrow> sum_tail fd (iFileSize mod 4) ulCheckSum } } }"

text \<open>A read into a 32-bit global: a short read changes only its first bytes.\<close>

definition read_u32 :: "bytes option \<Rightarrow> u32 \<Rightarrow> u32" where
  "read_u32 r old = un32 (rd_buf r (le32 old))"

definition NVM_GetCheckSum :: "bool nv" where
  "NVM_GetCheckSum = do {
     fd \<leftarrow> sys_open g_pcNVM_AllMap [O_RDONLY] 0;
     if fd < 0 then ret False
     else do {
       r \<leftarrow> sys_read fd 4;
       setg (stBackupFileInfo_update (\<lambda>b. b\<lparr>bi_ulCheckSum := read_u32 r (bi_ulCheckSum b)\<rparr>));
       if rd_len r \<noteq> 4 then do { _ \<leftarrow> sys_close fd; ret False }
       else do {
         r \<leftarrow> sys_read fd 4;
         setg (stBackupFileInfo_update (\<lambda>b. b\<lparr>bi_iCommonFileNum := read_u32 r (bi_iCommonFileNum b)\<rparr>));
         if rd_len r \<noteq> 4 then do { _ \<leftarrow> sys_close fd; ret False }
         else do {
           r \<leftarrow> sys_read fd 4;
           setg (stBackupFileInfo_update (\<lambda>b. b\<lparr>bi_iCustomFileNum := read_u32 r (bi_iCustomFileNum b)\<rparr>));
           _ \<leftarrow> sys_close fd;
           ret (rd_len r = 4) } } } }"

definition NVM_SetCheckSum :: "plat \<Rightarrow> u32 \<Rightarrow> bool nv" where
  "NVM_SetCheckSum P ulCheckSum0 = do {
     let iOldCommonFileNum = (of_nat (length (g_akCFG_File P)) :: u32);
     let iOldCustomFileNum = (of_nat (length (g_akCFG_File_Custom P)) :: u32);
     mutex_lock gFileStartAddrlock;
     a \<leftarrow> getg gFileStartAddr;
     let ulCheckSum = ulCheckSum0 XOR a;
     setg (gFileStartAddr_update (\<lambda>_. 0));
     mutex_unlock gFileStartAddrlock;
     fd \<leftarrow> sys_open g_pcNVM_AllMap [O_WRONLY] 0;
     if fd < 0 then ret False
     else do {
       n \<leftarrow> sys_write fd (le32 ulCheckSum);
       if n \<noteq> 4 then do { _ \<leftarrow> sys_close fd; ret False }
       else do {
         n \<leftarrow> sys_write fd (le32 iOldCommonFileNum);
         if n \<noteq> 4 then do { _ \<leftarrow> sys_close fd; ret False }
         else do {
           n \<leftarrow> sys_write fd (le32 iOldCustomFileNum);
           _ \<leftarrow> sys_close fd;
           ret (n = 4) } } } }"

definition NVM_CompareCheckSum :: "u32 \<Rightarrow> u32 \<Rightarrow> bool" where
  "NVM_CompareCheckSum ulCheckSum1 ulCheckSum2 = (if ulCheckSum1 \<noteq> ulCheckSum2 then False else True)"

section \<open>Resources\<close>

lemma neutral_sum_chunks: "neutral {} (sum_chunks fd l n s)"
proof (rule neutralI)
  fix A and Q :: "(bool \<times> u32) option \<Rightarrow> res \<Rightarrow> bool"
  assume "\<And>r. Q r A"
  then show "rspec A (sum_chunks fd l n s) Q"
  proof (induction n arbitrary: s)
    case (Suc n)
    show ?case unfolding sum_chunks.simps Let_def by (intro rs Suc.IH Suc.prems)
  qed (auto intro: rs)
qed

lemma neutral_sum_single: "neutral {} (sum_single fd n s)"
proof (rule neutralI)
  fix A and Q :: "(bool \<times> u32) option \<Rightarrow> res \<Rightarrow> bool"
  assume "\<And>r. Q r A"
  then show "rspec A (sum_single fd n s) Q"
    by (induction n arbitrary: s) (auto intro!: rs simp: Let_def)
qed

lemma neutral_ComputeCheckSum: "neutral {} NVM_ComputeCheckSum"
  by (rule neutralI)
     (auto simp: NVM_ComputeCheckSum_def sum_tail_def Let_def intro!: rs neutral_rs [OF neutral_sum_chunks])

lemma neutral_ComputeCheckSum_old: "neutral {} NVM_ComputeCheckSum_old"
  by (rule neutralI)
     (auto simp: NVM_ComputeCheckSum_old_def sum_tail_def Let_def intro!: rs neutral_rs [OF neutral_sum_single])

lemma neutral_GetCheckSum: "neutral {} NVM_GetCheckSum"
  by (rule neutralI) (auto simp: NVM_GetCheckSum_def intro!: rs)

lemma neutral_SetCheckSum: "neutral {gFileStartAddrlock} (NVM_SetCheckSum P c)"
proof (rule neutralI)
  fix A and Q :: "bool \<Rightarrow> res \<Rightarrow> bool"
  assume "rlocks A \<inter> {gFileStartAddrlock} = {}" and "\<And>r. Q r A"
  moreover have "A\<lparr>rlocks := rlocks A\<rparr> = A" by (cases A) simp
  ultimately show "rspec A (NVM_SetCheckSum P c) Q"
    by (auto simp: NVM_SetCheckSum_def Let_def intro!: rs)
qed

section \<open>The checksum as a function of the content\<close>

definition all_sum :: "bytes \<Rightarrow> u32" where
  "all_sum d = alt_fold (XOR) (+) 0 (words d) + un32 (drop (length d - length d mod 4) d)"

lemma sum_words_fold:
  "snd (sum_words (flag, c) xs) = (if flag then alt_fold (XOR) (+) c xs else alt_fold (+) (XOR) c xs)"
  by (induction xs arbitrary: flag c) simp_all

lemma sum_words_append: "sum_words s (xs @ ys) = sum_words (sum_words s xs) ys"
  by (induction s xs rule: sum_words.induct) simp_all

lemma four_bytes:
  assumes "length q = 4"
  obtains a b c e where "q = [a, b, c, e]"
proof -
  have "length q = Suc (Suc (Suc (Suc 0)))" using assms by simp
  then show ?thesis using that by (auto simp: length_Suc_conv)
qed

lemma words_append: "length a mod 4 = 0 \<Longrightarrow> words (a @ b) = words a @ words b"
proof (induction a rule: words.induct)
  case (1 a b c d r)
  then show ?case by (simp add: mod_Suc split: if_splits)
qed auto

lemma length_words [simp]: "length (words d) = length d div 4"
  by (induction d rule: words.induct) auto

lemma words_take: "words (take (length d - length d mod 4) d) = words d"
proof -
  have l: "length d - length d mod 4 = 4 * (length d div 4)" by (rule minus_mod_eq_mult_div)
  have "words d = words (take (length d - length d mod 4) d @ drop (length d - length d mod 4) d)"
    by (simp only: append_take_drop_id)
  also have "\<dots> = words (take (length d - length d mod 4) d) @ words (drop (length d - length d mod 4) d)"
    by (rule words_append) (simp add: l min.absorb2)
  also have "words (drop (length d - length d mod 4) d) = []"
  proof -
    have "length (drop (length d - length d mod 4) d) = length d mod 4" by simp
    then have "length (words (drop (length d - length d mod 4) d)) = 0" by (simp only: length_words)
    then show ?thesis by (simp only: length_0_conv)
  qed
  finally show ?thesis by simp
qed

interpretation word_sum: alternating "(XOR) :: u32 \<Rightarrow> u32 \<Rightarrow> u32" "(+)"
  by (rule alternating_swap [OF alternating_plus_xor])

text \<open>Little-endian decoding is injective on strings of one length.\<close>

lemma bytes_val_bound: "foldr (\<lambda>c a. of_char c + 256 * a) b (0::nat) < 256 ^ length b"
proof (induction b)
  case (Cons c b)
  have "of_char c < (256::nat)" by simp
  moreover have "256 * foldr (\<lambda>c a. of_char c + 256 * a) b (0::nat) + 256 \<le> 256 * 256 ^ length b"
    using Cons by simp
  ultimately have "of_char c + 256 * foldr (\<lambda>c a. of_char c + 256 * a) b (0::nat) < 256 * 256 ^ length b"
    by linarith
  then show ?case by simp
qed simp

lemma bytes_val_inj:
  "length a = length b \<Longrightarrow>
   foldr (\<lambda>c a. of_char c + 256 * a) a (0::nat) = foldr (\<lambda>c a. of_char c + 256 * a) b 0 \<Longrightarrow> a = b"
proof (induction a b rule: list_induct2)
  case (Cons x xs y ys)
  let ?f = "\<lambda>zs. foldr (\<lambda>c a. of_char c + 256 * a) zs (0::nat)"
  have e: "of_char x + 256 * ?f xs = of_char y + 256 * ?f ys"
    using Cons.prems by simp
  have "(of_char x + 256 * ?f xs) mod 256 = (of_char y + 256 * ?f ys) mod 256"
    by (simp only: e)
  then have c: "(of_char x :: nat) = of_char y" by simp
  with e have "?f xs = ?f ys" by linarith
  with c Cons.IH show ?case by simp
qed simp

lemma un32_inj: "un32 a = un32 b \<Longrightarrow> length a = length b \<Longrightarrow> length b \<le> 4 \<Longrightarrow> a = b"
proof -
  assume e: "un32 a = un32 b" and l: "length a = length b" "length b \<le> 4"
  let ?f = "\<lambda>zs. foldr (\<lambda>c a. of_char c + 256 * a) zs (0::nat)"
  have "?f zs < 2 ^ 32" if "length zs \<le> 4" for zs :: bytes
    using bytes_val_bound [of zs] power_increasing [OF that, of "256 :: nat"] by simp
  then have "?f a = ?f b"
    using e l by (simp add: un32_def of_nat_inverse word_of_nat_eq_iff take_bit_nat_eq_self)
  with l(1) show "a = b" by (rule bytes_val_inj)
qed

text \<open>Every byte of the file counts: changing one changes the checksum.\<close>

lemma all_sum_update:
  assumes "i < length d" and "v \<noteq> d ! i"
  shows "all_sum (d[i := v]) \<noteq> all_sum d"
proof -
  define m where "m = length d - length d mod 4"
  have m: "m mod 4 = 0" "m \<le> length d" "length d - m < 4"
    by (simp_all add: m_def minus_mod_eq_mult_div) 
  have s: "all_sum x = alt_fold (XOR) (+) 0 (words (take m x)) + un32 (drop m x)" if "length x = length d" for x
    using that words_take [of x] by (simp add: all_sum_def m_def)
  have ne: "d[i := v] \<noteq> d" using assms by (metis nth_list_update_eq)
  show ?thesis
  proof (cases "i < m")
    case False
    then have "drop m (d[i := v]) \<noteq> drop m d"
      using ne by (metis append_take_drop_id not_less take_update_cancel)
    then have "un32 (drop m (d[i := v])) \<noteq> un32 (drop m d)"
      using un32_inj [of "drop m (d[i := v])" "drop m d"] m(3) by auto
    with False show ?thesis by (simp add: s)
  next
    case True
    define k where "k = 4 * (i div 4)"
    have k: "k \<le> i" "i < k + 4" "k + 4 \<le> m" "k mod 4 = 0"
      using True m(1) by (auto simp: k_def) presburger+
    have split: "take m x = take k x @ take 4 (drop k x) @ take (m - (k + 4)) (drop (k + 4) x)" for x :: bytes
      using k(3) by (metis (no_types) add_diff_inverse_nat append.assoc le_add1 not_less order_trans take_add)
    have w: "words (take m x) = words (take k x) @ un32 (take 4 (drop k x)) # words (take (m - (k + 4)) (drop (k + 4) x))"
      if "length x = length d" for x
    proof -
      have "length (take 4 (drop k x)) = 4" using that k(3) m(2) by simp
      then obtain a b c e where q: "take 4 (drop k x) = [a, b, c, e]" by (rule four_bytes)
      have "words (take m x) = words (take k x) @ words ([a, b, c, e] @ take (m - (k + 4)) (drop (k + 4) x))"
        unfolding split [of x] q using that k m(2) by (subst words_append) simp_all
      with q show ?thesis by simp
    qed
    have "take k (d[i := v]) = take k d" "drop (k + 4) (d[i := v]) = drop (k + 4) d" "drop m (d[i := v]) = drop m d"
      using k by simp_all
    moreover have "take 4 (drop k (d[i := v])) \<noteq> take 4 (drop k d)"
    proof
      assume "take 4 (drop k (d[i := v])) = take 4 (drop k d)"
      then have "take 4 (drop k (d[i := v])) ! (i - k) = take 4 (drop k d) ! (i - k)" by (rule arg_cong)
      with assms k(1,2) show False by simp
    qed
    then have "un32 (take 4 (drop k (d[i := v]))) \<noteq> un32 (take 4 (drop k d))"
      using un32_inj [of "take 4 (drop k (d[i := v]))" "take 4 (drop k d)"] by auto
    ultimately show ?thesis
      using word_sum.one_change by (auto simp: s w)
  qed
qed

section \<open>The operations when no call fails\<close>

lemma words_of_take:
  assumes "n mod 4 = 0" and "n \<le> length d"
  shows "words (take (n + k) d) = words (take n d) @ words (take k (drop n d))"
  using assms by (simp add: take_add words_append)

lemma run_sum_chunks:
  assumes "faults w = []" and "fds w fd = Some d" and "fs w (fd_path d) = Some i" and "ikind i \<noteq> Dir"
    and "fd_rd d" and "fd_pos d + 4 * (4096 * n + l mod 4096) \<le> length (idata i)"
  shows "run_state (sum_chunks fd l (Suc n) s) w =
    (Some (sum_words s (words (take (4 * (4096 * n + l mod 4096)) (drop (fd_pos d) (idata i))))),
     w\<lparr>fds := (fds w)(fd \<mapsto> d\<lparr>fd_pos := fd_pos d + 4 * (4096 * n + l mod 4096)\<rparr>)\<rparr>)"
  using assms
proof (induction n arbitrary: w d s)
  case 0
  define m where "m = l mod 4096"
  have "run_state (sys_read fd (m * 4)) w = (Some (take (m * 4) (drop (fd_pos d) (idata i))),
      w\<lparr>fds := (fds w)(fd \<mapsto> d\<lparr>fd_pos := fd_pos d + m * 4\<rparr>)\<rparr>)"
    using 0 by (simp add: run m_def [symmetric] mult.commute)
  moreover have "length (take (m * 4) (drop (fd_pos d) (idata i))) = m * 4"
    using 0(6) by (simp add: m_def [symmetric])
  ultimately show ?case
    by (simp add: m_def [symmetric] run_bind mult.commute fun_upd_def del: length_take)
next
  case (Suc n)
  define w1 where "w1 = w\<lparr>fds := (fds w)(fd \<mapsto> d\<lparr>fd_pos := fd_pos d + 16384\<rparr>)\<rparr>"
  have r: "run_state (sys_read fd 16384) w = (Some (take 16384 (drop (fd_pos d) (idata i))), w1)"
    using Suc.prems by (simp add: run w1_def)
  have e: "4 * (4096 * Suc n + l mod 4096) = 16384 + 4 * (4096 * n + l mod 4096)" by simp
  have "run_state (sum_chunks fd l (Suc n) (sum_words s (words (take 16384 (drop (fd_pos d) (idata i)))))) w1 =
    (Some (sum_words (sum_words s (words (take 16384 (drop (fd_pos d) (idata i)))))
       (words (take (4 * (4096 * n + l mod 4096)) (drop (fd_pos d + 16384) (idata i))))),
     w1\<lparr>fds := (fds w1)(fd \<mapsto> d\<lparr>fd_pos := fd_pos d + 16384 + 4 * (4096 * n + l mod 4096)\<rparr>)\<rparr>)"
    by (subst Suc.IH [where d = "d\<lparr>fd_pos := fd_pos d + 16384\<rparr>"]) (use Suc.prems in \<open>simp_all add: w1_def\<close>)
  then show ?case
    using Suc.prems unfolding e
    by (subst sum_chunks.simps)
       (simp add: r run_bind Let_def words_of_take sum_words_append w1_def fun_upd_def ac_simps
          del: sum_chunks.simps)
qed

lemma run_sum_single:
  assumes "faults w = []" and "fds w fd = Some d" and "fs w (fd_path d) = Some i" and "ikind i \<noteq> Dir"
    and "fd_rd d" and "fd_pos d + 4 * n \<le> length (idata i)"
  shows "run_state (sum_single fd n s) w =
    (Some (sum_words s (words (take (4 * n) (drop (fd_pos d) (idata i))))),
     w\<lparr>fds := (fds w)(fd \<mapsto> d\<lparr>fd_pos := fd_pos d + 4 * n\<rparr>)\<rparr>)"
  using assms
proof (induction n arbitrary: w d s)
  case 0
  then have "(fds w)(fd \<mapsto> d) = fds w" by auto
  then show ?case by simp
next
  case (Suc n)
  define w1 where "w1 = w\<lparr>fds := (fds w)(fd \<mapsto> d\<lparr>fd_pos := fd_pos d + 4\<rparr>)\<rparr>"
  define q where "q = take 4 (drop (fd_pos d) (idata i))"
  have r: "run_state (sys_read fd 4) w = (Some q, w1)"
    using Suc.prems by (simp add: run w1_def q_def)
  have lq: "length q = 4" using Suc.prems(6) by (simp add: q_def)
  then obtain a b c e where q: "q = [a, b, c, e]" by (rule four_bytes)
  have step: "run_state (sum_single fd n s) w1 =
    (Some (sum_words s (words (take (4 * n) (drop (fd_pos d + 4) (idata i))))),
     w1\<lparr>fds := (fds w1)(fd \<mapsto> d\<lparr>fd_pos := fd_pos d + 4 + 4 * n\<rparr>)\<rparr>)" for s
    by (subst Suc.IH [where d = "d\<lparr>fd_pos := fd_pos d + 4\<rparr>"]) (use Suc.prems in \<open>simp_all add: w1_def\<close>)
  have ws: "words (take (4 + 4 * n) (drop (fd_pos d) (idata i))) =
      un32 q # words (take (4 * n) (drop (fd_pos d + 4) (idata i)))"
    using words_of_take [of 4 "drop (fd_pos d) (idata i)" "4 * n"] Suc.prems(6)
    by (simp add: q [unfolded q_def] q add.commute)
  show ?case
    by (cases s) (simp add: ws r run_bind Let_def lq step, simp add: w1_def fun_upd_def add.assoc)
qed

lemma run_ComputeCheckSum:
  assumes "wf_world w" and "faults w = []" and "fs w g_pcNVM_AllFile = Some i" and "ikind i = Reg"
    and "length (idata i) < 2 ^ 32"
  shows "run_state NVM_ComputeCheckSum w = (all_sum (idata i), used 1 w)"
    and "run_state NVM_ComputeCheckSum_old w = (all_sum (idata i), used 1 w)"
proof -
  let ?l = "length (idata i)"
  have n: "nat (st_size i mod 2 ^ 32) = ?l"
    using assms by (simp add: st_size_def mod_pos_pos_trivial)
  have e: "4096 * (?l div 4 div 4096) + ?l div 4 mod 4096 = ?l div 4" by simp
  have m: "4 * (?l div 4) = ?l - ?l mod 4" by (simp add: minus_mod_eq_mult_div)
  have c: "snd (sum_words (True, 0) (words (take (?l - ?l mod 4) (idata i)))) + un32 (drop (?l - ?l mod 4) (idata i)) =
      all_sum (idata i)"
    by (simp add: sum_words_fold words_take all_sum_def)
  show "run_state NVM_ComputeCheckSum w = (all_sum (idata i), used 1 w)"
    using assms n c
    by (simp add: NVM_ComputeCheckSum_def sum_tail_def run new_fd_def Let_def run_sum_chunks e m used_def
        case_prod_unfold del: sum_chunks.simps)
  show "run_state NVM_ComputeCheckSum_old w = (all_sum (idata i), used 1 w)"
    using assms n c
    by (simp add: NVM_ComputeCheckSum_old_def sum_tail_def run new_fd_def Let_def run_sum_single m used_def
        case_prod_unfold)
qed

text \<open>
  C30.  The chunked \<open>NVM_ComputeCheckSum\<close> and the word-at-a-time version it replaced return the
  same value and leave the same world, whether the collected backup exists or not.
\<close>

theorem ComputeCheckSum_equiv_old:
  assumes "wf_world w" and "faults w = []"
    and "\<forall>i. fs w g_pcNVM_AllFile = Some i \<longrightarrow> ikind i = Reg \<and> length (idata i) < 2 ^ 32"
  shows "run_state NVM_ComputeCheckSum w = run_state NVM_ComputeCheckSum_old w"
proof (cases "fs w g_pcNVM_AllFile")
  case None
  with assms(2) show ?thesis by (simp add: NVM_ComputeCheckSum_def NVM_ComputeCheckSum_old_def run)
next
  case (Some i)
  with assms show ?thesis by (simp add: run_ComputeCheckSum)
qed

theorem ComputeCheckSum_equiv_old_witness:
  "run_state NVM_ComputeCheckSum (disk [(g_pcNVM_AllFile, reg ''abcdefghij'')]) =
   run_state NVM_ComputeCheckSum_old (disk [(g_pcNVM_AllFile, reg ''abcdefghij'')])"
  by (rule ComputeCheckSum_equiv_old) (simp_all add: g_pcNVM_AllFile_def)

text \<open>
  The checksum detects the change of any single byte of the collected backup, the odd bytes
  at its end included.
\<close>

theorem ComputeCheckSum_detects_change:
  assumes "wf_world w" and "faults w = []" and "fs w g_pcNVM_AllFile = Some i" and "ikind i = Reg"
    and "length (idata i) < 2 ^ 32" and "k < length (idata i)" and "v \<noteq> idata i ! k"
  shows "fst (run_state NVM_ComputeCheckSum (poke g_pcNVM_AllFile k v w)) \<noteq> fst (run_state NVM_ComputeCheckSum w)"
  using assms by (simp add: poke_def run_ComputeCheckSum all_sum_update)

theorem ComputeCheckSum_detects_change_witness:
  "fst (run_state NVM_ComputeCheckSum (poke g_pcNVM_AllFile 5 (CHR ''!'') (disk [(g_pcNVM_AllFile, reg ''abcdef'')]))) \<noteq>
   fst (run_state NVM_ComputeCheckSum (disk [(g_pcNVM_AllFile, reg ''abcdef'')]))"
  by (rule ComputeCheckSum_detects_change [where i = "reg ''abcdef''"]) (simp_all add: g_pcNVM_AllFile_def)

text \<open>The globals after \<open>NVM_SetCheckSum\<close> and \<open>NVM_GetCheckSum\<close>.\<close>

definition map_image :: "plat \<Rightarrow> u32 \<Rightarrow> bytes" where
  "map_image P c = le32 c @ le32 (of_nat (length (g_akCFG_File P))) @ le32 (of_nat (length (g_akCFG_File_Custom P)))"

lemma splice_three:
  "length a = 4 \<Longrightarrow> length b = 4 \<Longrightarrow> length c = 4 \<Longrightarrow>
   splice 8 c (splice 4 b (splice 0 a d)) = a @ b @ c @ drop 12 d"
  using splice_splice_next [of 0 d a b] splice_splice_next [of 0 d "a @ b" c]
  by (simp add: splice_take_drop)

lemma run_SetCheckSum [run]:
  assumes "wf_world w" and "faults w = []" and "gFileStartAddrlock \<notin> locks w"
    and "fs w g_pcNVM_AllMap = Some i" and "ikind i = Reg"
  shows "run_state (NVM_SetCheckSum P c) w =
    (True, used 1 (w\<lparr>fs := (fs w)(g_pcNVM_AllMap \<mapsto> i\<lparr>idata := map_image P (c XOR gFileStartAddr (gl w)) @ drop 12 (idata i)\<rparr>),
                     gl := (gl w)\<lparr>gFileStartAddr := 0\<rparr>\<rparr>))"
  using assms
  by (simp add: NVM_SetCheckSum_def Let_def run new_fd_def wants_write_def splice_three map_image_def used_def)

lemma run_GetCheckSum [run]:
  assumes "wf_world w" and "faults w = []" and "fs w g_pcNVM_AllMap = Some i" and "ikind i = Reg"
    and "idata i = le32 a @ le32 b @ le32 c @ r"
  shows "run_state NVM_GetCheckSum w =
    (True, used 1 (w\<lparr>gl := (gl w)\<lparr>stBackupFileInfo := \<lparr>bi_ulCheckSum = a, bi_iCommonFileNum = b, bi_iCustomFileNum = c\<rparr>\<rparr>\<rparr>))"
proof -
  have e: "(un32 (le32 x @ [])) = x" for x by simp
  show ?thesis
    using assms
    by (simp add: NVM_GetCheckSum_def Let_def run new_fd_def used_def read_u32_def)
qed

text \<open>
  What \<open>NVM_SetCheckSum\<close> stores in the map file, \<open>NVM_GetCheckSum\<close> reads back: the checksum
  combined with the start address, and the numbers of common and custom files.  The start address
  is consumed, its mutex released, and the rest of the map file kept.
\<close>

theorem SetCheckSum_roundtrip:
  assumes "calm w" and "fs w g_pcNVM_AllMap = Some i" and "ikind i = Reg"
  shows "let (r1, w1) = run_state (NVM_SetCheckSum P c) w; (r2, w2) = run_state NVM_GetCheckSum w1 in
    r1 \<and> r2 \<and> calm w2 \<and> fds w2 = fds w \<and> gFileStartAddr (gl w2) = 0 \<and>
    stBackupFileInfo (gl w2) = \<lparr>bi_ulCheckSum = c XOR gFileStartAddr (gl w),
      bi_iCommonFileNum = of_nat (length (g_akCFG_File P)), bi_iCustomFileNum = of_nat (length (g_akCFG_File_Custom P))\<rparr> \<and>
    drop 12 (idata (the (fs w2 g_pcNVM_AllMap))) = drop 12 (idata i)"
proof -
  let ?i = "i\<lparr>idata := map_image P (c XOR gFileStartAddr (gl w)) @ drop 12 (idata i)\<rparr>"
  let ?w = "used 1 (w\<lparr>fs := (fs w)(g_pcNVM_AllMap \<mapsto> ?i), gl := (gl w)\<lparr>gFileStartAddr := 0\<rparr>\<rparr>)"
  have s: "run_state (NVM_SetCheckSum P c) w = (True, ?w)"
    by (rule run_SetCheckSum) (use assms in \<open>simp_all add: calm_def\<close>)
  have wf: "wf_world ?w"
    by (rule wf_later [where w = w]) (use assms(1) in \<open>simp_all add: calm_def\<close>)
  have g: "run_state NVM_GetCheckSum ?w = (True, used 1 (?w\<lparr>gl := (gl ?w)\<lparr>stBackupFileInfo :=
      \<lparr>bi_ulCheckSum = c XOR gFileStartAddr (gl w), bi_iCommonFileNum = of_nat (length (g_akCFG_File P)),
       bi_iCustomFileNum = of_nat (length (g_akCFG_File_Custom P))\<rparr>\<rparr>\<rparr>))"
    by (rule run_GetCheckSum [where i = ?i and r = "drop 12 (idata i)"])
       (use assms wf in \<open>simp_all add: calm_def map_image_def\<close>)
  have "calm (snd (run_state NVM_GetCheckSum ?w))"
    unfolding g using assms(1) by (auto simp: calm_def intro: wf_later [where w = w])
  then show ?thesis
    unfolding s by (simp add: g) (simp add: map_image_def)
qed

theorem SetCheckSum_roundtrip_witness:
  "fst (run_state NVM_GetCheckSum (snd (run_state (NVM_SetCheckSum P0 77) (disk [(g_pcNVM_AllMap, reg ''old'')]))))"
  using SetCheckSum_roundtrip [of "disk [(g_pcNVM_AllMap, reg ''old'')]" "reg ''old''" P0 77]
  by (simp add: calm_def g_pcNVM_AllMap_def case_prod_unfold Let_def)

end
