(* ===== verification/RestoreFiles.thy ===== *)
theory RestoreFiles
  imports AllFile VerStore
begin

text \<open>
  Restoring one file from the collected backup (\<open>NVM_RestoreFromFiles_OneFile\<close> and
  \<open>NVM_CheckData_OneFile\<close> of \<open>nvram/libnvram.c\<close>).  \<open>/nvdata/AllMap\<close> holds three words, a header
  with one count per kind of file, and for each kind in turn its \<open>File_Title\<close> records;
  \<open>/nvdata/AllFile\<close> holds the contents the titles point to.  The header has one of five layouts
  (\<open>File_Title_Header1\<close> to \<open>File_Title_Header5\<close> of \<open>nvram/libfile_op.h\<close>), chosen by the modem
  features of the platform.
\<close>

section \<open>Kinds of files and header layouts\<close>

datatype meta_data = APBOOT | APCLN | MDBOOT | MDCLN | MDIMP | MDCOR | MDDATA | MD2BOOT | MD2CLN | MD2IMP
  | MD5BOOT | MD5CLN | MD5IMP | VIA | MD3BOOT | MD3CLN | MD3IMP | ALL_FILES

definition all_kinds :: "meta_data list" where
  "all_kinds = [APBOOT, APCLN, MDBOOT, MDCLN, MDIMP, MDCOR, MDDATA, MD2BOOT, MD2CLN, MD2IMP,
     MD5BOOT, MD5CLN, MD5IMP, VIA, MD3BOOT, MD3CLN, MD3IMP, ALL_FILES]"

primrec meta_num :: "meta_data \<Rightarrow> nat" where
  "meta_num APBOOT = 0" | "meta_num APCLN = 1" | "meta_num MDBOOT = 2" | "meta_num MDCLN = 3"
| "meta_num MDIMP = 4" | "meta_num MDCOR = 5" | "meta_num MDDATA = 6" | "meta_num MD2BOOT = 7"
| "meta_num MD2CLN = 8" | "meta_num MD2IMP = 9" | "meta_num MD5BOOT = 10" | "meta_num MD5CLN = 11"
| "meta_num MD5IMP = 12" | "meta_num VIA = 13" | "meta_num MD3BOOT = 14" | "meta_num MD3CLN = 15"
| "meta_num MD3IMP = 16" | "meta_num ALL_FILES = 17"

lemma all_kinds_num: "all_kinds ! meta_num k = k" "meta_num k < length all_kinds"
  by (cases k; simp add: all_kinds_def)+

lemma meta_num_inject [simp]: "meta_num j = meta_num k \<longleftrightarrow> j = k"
  by (metis all_kinds_num(1))

instantiation meta_data :: linorder
begin

definition less_eq_meta_data :: "meta_data \<Rightarrow> meta_data \<Rightarrow> bool" where
  "less_eq_meta_data j k = (meta_num j \<le> meta_num k)"

definition less_meta_data :: "meta_data \<Rightarrow> meta_data \<Rightarrow> bool" where
  "less_meta_data j k = (meta_num j < meta_num k)"

instance
  by standard (auto simp: less_eq_meta_data_def less_meta_data_def)

end

text \<open>The value of an \<open>int\<close> that is switched on: \<open>None\<close> is the default branch.\<close>

definition meta_of :: "int \<Rightarrow> meta_data option" where
  "meta_of i = (if 0 \<le> i \<and> i < 18 then Some (all_kinds ! nat i) else None)"

lemma meta_of_num [simp]: "meta_of (int (meta_num k)) = Some k"
  using all_kinds_num [of k] by (simp add: meta_of_def all_kinds_def)

datatype title_layout = Header1 | Header2 | Header3 | Header4 | Header5

definition layout_of :: "plat \<Rightarrow> title_layout" where
  "layout_of P =
     (if md5_support P \<and> evdo_support P \<and> \<not> ecci_c2k_support P then Header1
      else if md5_support P \<and> \<not> evdo_support P \<and> \<not> ecci_c2k_support P then Header2
      else if \<not> md5_support P \<and> evdo_support P \<and> \<not> ecci_c2k_support P then Header3
      else if \<not> md5_support P \<and> \<not> evdo_support P \<and> \<not> ecci_c2k_support P then Header4
      else Header5)"

text \<open>The bytes of the structure that are stored: its size less the trailing members.\<close>

primrec title_len :: "title_layout \<Rightarrow> nat" where
  "title_len Header1 = 36" | "title_len Header2 = 36" | "title_len Header3 = 32"
| "title_len Header4 = 28" | "title_len Header5 = 40"

text \<open>The offset of the count of a kind in a structure that has one.\<close>

fun field_off :: "title_layout \<Rightarrow> meta_data \<Rightarrow> nat" where
  "field_off Header1 k = 2 * meta_num k"
| "field_off Header2 k = (if k = VIA then 36 else 2 * meta_num k)"
| "field_off Header3 k = (if k \<le> MD2IMP then 2 * meta_num k else if k = VIA then 20 else 32 + 2 * (meta_num k - 10))"
| "field_off Header4 k = (if k \<le> MD2IMP then 2 * meta_num k else 28 + 2 * (meta_num k - 10))"
| "field_off Header5 k = (if k < VIA then 2 * meta_num k else 26 + 2 * (meta_num k - 14))"

definition title_count :: "title_layout \<Rightarrow> bytes \<Rightarrow> meta_data \<Rightarrow> int" where
  "title_count L hdr k = sint (un16 (drop (field_off L k) hdr))"

section \<open>Which titles belong to a kind\<close>

text \<open>
  One definition per group of cases of the switch: the header structure that is consulted and the
  kinds whose counts are added up to skip their titles; \<open>None\<close> when the case does nothing.
\<close>

definition region_boot :: "plat \<Rightarrow> int \<Rightarrow> meta_data \<Rightarrow> (title_layout \<times> meta_data list) option" where
  "region_boot P ho k = (case k of
     APBOOT \<Rightarrow> Some (layout_of P, [])
   | APCLN \<Rightarrow> Some (layout_of P, [APBOOT])
   | MDBOOT \<Rightarrow> Some (layout_of P, [APBOOT, APCLN])
   | MDCLN \<Rightarrow> Some (layout_of P, [APBOOT, APCLN, MDBOOT])
   | _ \<Rightarrow> None)"

definition region_md :: "plat \<Rightarrow> int \<Rightarrow> meta_data \<Rightarrow> (title_layout \<times> meta_data list) option" where
  "region_md P ho k = (case k of
     MDIMP \<Rightarrow> Some (layout_of P, [APBOOT, APCLN, MDBOOT, MDCLN])
   | MDCOR \<Rightarrow> Some (layout_of P, [APBOOT, APCLN, MDBOOT, MDCLN, MDIMP])
   | MDDATA \<Rightarrow> Some (layout_of P, [APBOOT, APCLN, MDBOOT, MDCLN, MDIMP, MDCOR])
   | _ \<Rightarrow> None)"

definition region_md2 :: "plat \<Rightarrow> int \<Rightarrow> meta_data \<Rightarrow> (title_layout \<times> meta_data list) option" where
  "region_md2 P ho k = (if ho \<noteq> 0 then None else case k of
     MD2BOOT \<Rightarrow> Some (layout_of P, [APBOOT, APCLN, MDBOOT, MDCLN, MDIMP, MDCOR, MDDATA])
   | MD2CLN \<Rightarrow> Some (layout_of P, [APBOOT, APCLN, MDBOOT, MDCLN, MDIMP, MDCOR, MDDATA, MD2BOOT])
   | MD2IMP \<Rightarrow> Some (layout_of P, [APBOOT, APCLN, MDBOOT, MDCLN, MDIMP, MDCOR, MDDATA, MD2BOOT, MD2CLN])
   | _ \<Rightarrow> None)"

definition md5_layout :: "plat \<Rightarrow> int \<Rightarrow> title_layout option" where
  "md5_layout P ho =
     (if ho = 0 \<and> md5_support P \<and> \<not> ecci_c2k_support P then (if evdo_support P then Some Header1 else Some Header2)
      else if ho = 0 \<and> md5_support P \<and> ecci_c2k_support P then Some Header5
      else None)"

definition region_md5 :: "plat \<Rightarrow> int \<Rightarrow> meta_data \<Rightarrow> (title_layout \<times> meta_data list) option" where
  "region_md5 P ho k = (case md5_layout P ho of None \<Rightarrow> None | Some L \<Rightarrow> (case k of
     MD5BOOT \<Rightarrow> Some (L, [APBOOT, APCLN, MDBOOT, MDCLN, MDIMP, MDCOR, MDDATA, MD2BOOT, MD2CLN, MD2IMP])
   | MD5CLN \<Rightarrow> Some (L, [APBOOT, APCLN, MDBOOT, MDCLN, MDIMP, MDCOR, MDDATA, MD2BOOT, MD2CLN, MD2IMP, MD5BOOT])
   | MD5IMP \<Rightarrow> Some (L, [APBOOT, APCLN, MDBOOT, MDCLN, MDIMP, MDCOR, MDDATA, MD2BOOT, MD2CLN, MD2IMP, MD5BOOT, MD5CLN])
   | _ \<Rightarrow> None))"

definition region_via :: "plat \<Rightarrow> int \<Rightarrow> (title_layout \<times> meta_data list) option" where
  "region_via P ho =
     (if ho = 0 \<and> md5_support P \<and> evdo_support P \<and> \<not> ecci_c2k_support P
      then Some (Header1, [APBOOT, APCLN, MDBOOT, MDCLN, MDIMP, MDCOR, MDDATA, MD2BOOT, MD2CLN, MD2IMP,
                           MD5BOOT, MD5CLN, MD5IMP])
      else if ho = 0 \<and> \<not> md5_support P \<and> evdo_support P \<and> \<not> ecci_c2k_support P
      then Some (Header3, [APBOOT, APCLN, MDBOOT, MDCLN, MDIMP, MDCOR, MDDATA, MD2BOOT, MD2CLN, MD2IMP])
      else if ho \<noteq> 0 \<and> evdo_support P \<and> \<not> ecci_c2k_support P
      then Some (Header3, [APBOOT, APCLN, MDBOOT, MDCLN, MDIMP, MDCOR, MDDATA])
      else None)"

definition region_md3 :: "plat \<Rightarrow> int \<Rightarrow> meta_data \<Rightarrow> (title_layout \<times> meta_data list) option" where
  "region_md3 P ho k = (if ho = 0 \<and> ecci_c2k_support P then (case k of
     MD3BOOT \<Rightarrow> Some (Header5, [APBOOT, APCLN, MDBOOT, MDCLN, MDIMP, MDCOR, MDDATA, MD2BOOT, MD2CLN, MD2IMP,
                                MD5BOOT, MD5CLN, MD5IMP])
   | MD3CLN \<Rightarrow> Some (Header5, [APBOOT, APCLN, MDBOOT, MDCLN, MDIMP, MDCOR, MDDATA, MD2BOOT, MD2CLN, MD2IMP,
                                MD5BOOT, MD5CLN, MD5IMP, MD3BOOT])
   | MD3IMP \<Rightarrow> Some (Header5, [APBOOT, APCLN, MDBOOT, MDCLN, MDIMP, MDCOR, MDDATA, MD2BOOT, MD2CLN, MD2IMP,
                                MD5BOOT, MD5CLN, MD5IMP, MD3BOOT, MD3CLN])
   | _ \<Rightarrow> None) else None)"

definition region :: "plat \<Rightarrow> int \<Rightarrow> meta_data \<Rightarrow> (title_layout \<times> meta_data list) option" where
  "region P ho k =
     (if k \<le> MDCLN then region_boot P ho k else if k \<le> MDDATA then region_md P ho k
      else if k \<le> MD2IMP then region_md2 P ho k else if k \<le> MD5IMP then region_md5 P ho k
      else if k = VIA then region_via P ho else if k \<le> MD3IMP then region_md3 P ho k
      else None)"

text \<open>\<open>fhs\<close>: where the titles start.\<close>

definition titles_start :: "plat \<Rightarrow> int \<Rightarrow> int" where
  "titles_start P ho = (let fhs = 12 + int (title_len (layout_of P)) in if ho \<noteq> 0 then fhs - ho * 2 else fhs)"

text \<open>
  \<open>iFileNum\<close> and \<open>iFileTitleOffset\<close>.  Only the structure of the platform's layout was read; the
  other ones are uninitialised.
\<close>

definition title_region :: "plat \<Rightarrow> int \<Rightarrow> bytes \<Rightarrow> meta_data \<Rightarrow> (int \<times> int) nv" where
  "title_region P ho hdr k = (case region P ho k of
     None \<Rightarrow> ret (0, 0)
   | Some (L, ks) \<Rightarrow> do {
       check (L = layout_of P) Uninitialised;
       let h = (if L = layout_of P then hdr else garbage P 40);
       ret (title_count L h k, titles_start P ho + sum_list (map (title_count L h) ks) * 140) })"

section \<open>Restoring\<close>

definition read_title_header :: "plat \<Rightarrow> int \<Rightarrow> bytes nv" where
  "read_title_header P iFileDesc_map = do {
     _ \<leftarrow> sys_lseek iFileDesc_map 12 SEEK_SET;
     r \<leftarrow> sys_read iFileDesc_map (title_len (layout_of P));
     check (rd_len r = int (title_len (layout_of P))) Uninitialised;
     ret (rd_buf r (garbage P 40)) }"

text \<open>The members of a \<open>File_Title\<close> record of 140 bytes.\<close>

definition FielStartAddr :: "bytes \<Rightarrow> int" where
  "FielStartAddr info = sint (un32 (drop 4 info))"

definition Filesize :: "bytes \<Rightarrow> int" where
  "Filesize info = sint (un32 (drop 8 info))"

definition title_name :: "bytes \<Rightarrow> string" where
  "title_name info = cstr (drop 12 info)"

text \<open>A table is passed exactly when the caller named the file by its lid.\<close>

definition title_matches :: "tcfg_file list option \<Rightarrow> int \<Rightarrow> string option \<Rightarrow> bytes \<Rightarrow> bool nv" where
  "title_matches tbl iRealFileLid filename info = (case tbl of
     Some t \<Rightarrow> do {
       check (CHR 0x00 \<in> set (drop 12 info)) OutOfBounds;
       check (in_table t iRealFileLid) OutOfBounds;
       ret (title_name info = cFileName (entry t iRealFileLid)) }
   | None \<Rightarrow> (case filename of
       Some f \<Rightarrow>
         if take 7 f = ''/nvdata''
         then do {
           check (CHR 0x00 \<in> set (drop 23 info)) OutOfBounds;
           ret (cstr (drop 23 info) = drop 7 f) }
         else do {
           check (CHR 0x00 \<in> set (drop 12 info)) OutOfBounds;
           ret (title_name info = f) }
     | None \<Rightarrow> ret True))"

text \<open>What happens to the title that matches: the result, with \<open>buf\<close> released.\<close>

definition check_restored :: "plat \<Rightarrow> tcfg_file list option \<Rightarrow> int \<Rightarrow> string \<Rightarrow> bool nv" where
  "check_restored P tbl iRealFileLid name = (case tbl of
     None \<Rightarrow> ret True
   | Some t \<Rightarrow> do {
       c \<leftarrow> NVM_CheckFile P (Some name);
       if \<not> c then ret False
       else do {
         s \<leftarrow> NVM_CheckFileSize iRealFileLid t;
         ret (s \<noteq> -1) } })"

definition size_agrees :: "tcfg_file list option \<Rightarrow> int \<Rightarrow> bytes \<Rightarrow> bool nv" where
  "size_agrees tbl iRealFileLid info = (case tbl of
     None \<Rightarrow> ret True
   | Some t \<Rightarrow> do {
       check (in_table t iRealFileLid) OutOfBounds;
       let filesizeintable = to_int32 (i4RecNum (entry t iRealFileLid) * i4RecSize (entry t iRealFileLid));
       ret (Filesize info = to_int32 (filesizeintable + 2)) })"

definition write_restored :: "plat \<Rightarrow> tcfg_file list option \<Rightarrow> int \<Rightarrow> string \<Rightarrow> bytes \<Rightarrow> bool nv" where
  "write_restored P tbl iRealFileLid name buf = do {
     iFileDesc \<leftarrow> open_file_with_dirs P name [O_CREAT, O_TRUNC, O_RDWR] mode660;
     if iFileDesc = -1 then do { sys_free; ret False }
     else do {
       iSize \<leftarrow> sys_write iFileDesc buf;
       _ \<leftarrow> sys_close iFileDesc;
       sys_free;
       if iSize \<noteq> int (length buf) then ret False
       else check_restored P tbl iRealFileLid name } }"

definition restore_content :: "plat \<Rightarrow> tcfg_file list option \<Rightarrow> int \<Rightarrow> int \<Rightarrow> bytes \<Rightarrow> bool nv" where
  "restore_content P tbl iRealFileLid iFileDesc_file info = do {
     ok \<leftarrow> size_agrees tbl iRealFileLid info;
     if \<not> ok then ret False
     else if Filesize info \<le> 0 \<or> Filesize info \<ge> 2 ^ 31 - 1 then ret False
     else do {
       m \<leftarrow> sys_malloc (Filesize info);
       iRet \<leftarrow> sys_lseek iFileDesc_file (FielStartAddr info) SEEK_SET;
       if iRet = -1 then do { free_ptr m; ret False }
       else do {
         r \<leftarrow> (if m then sys_read iFileDesc_file (nat (Filesize info)) else ret None);
         if rd_len r \<noteq> Filesize info then do { free_ptr m; ret False }
         else write_restored P tbl iRealFileLid (title_name info) (the r) } } }"

text \<open>The loop over the \<open>n\<close> titles left: the result and \<open>*find_flag\<close>.\<close>

primrec title_loop ::
  "plat \<Rightarrow> tcfg_file list option \<Rightarrow> int \<Rightarrow> string option \<Rightarrow> int \<Rightarrow> int \<Rightarrow> bool \<Rightarrow> nat \<Rightarrow> bytes \<Rightarrow> (bool \<times> bool) nv" where
  "title_loop P tbl lid filename fd_file fd_map find_flag 0 info = ret (False, find_flag)"
| "title_loop P tbl lid filename fd_file fd_map find_flag (Suc n) info = do {
     r \<leftarrow> sys_read fd_map 140;
     let info' = rd_buf r info;
     m \<leftarrow> title_matches tbl lid filename info';
     if \<not> m then title_loop P tbl lid filename fd_file fd_map find_flag n info'
     else do {
       b \<leftarrow> restore_content P tbl lid fd_file info';
       ret (b, True) } }"

text \<open>The table of a file named by its lid; \<open>None\<close> when the function returns at once.\<close>

definition restore_table :: "plat \<Rightarrow> int \<Rightarrow> tcfg_file list option nv" where
  "restore_table P file_lid = do {
     v \<leftarrow> NVM_CheckVerFile P True;
     _ \<leftarrow> (if \<not> v then NVM_GenerateFileVer P True else ret True);
     case NVM_GetCfgFileTable P file_lid of
       None \<Rightarrow> ret None
     | Some t \<Rightarrow>
         if file_lid = iFileVerInfoLID P then do { _ \<leftarrow> NVM_GenerateFileVer P True; ret None }
         else ret (Some t) }"

text \<open>The search through the map once both files are open.\<close>

definition restore_search ::
  "plat \<Rightarrow> int \<Rightarrow> tcfg_file list option \<Rightarrow> int \<Rightarrow> string option \<Rightarrow> bool \<Rightarrow> int \<Rightarrow> int \<Rightarrow> (bool \<times> bool) nv" where
  "restore_search P eBackupType tbl iRealFileLid filename find_flag fd_file fd_map = do {
     hdr \<leftarrow> read_title_header P fd_map;
     ho \<leftarrow> getg nvram_platform_header_offset;
     case meta_of eBackupType of
       None \<Rightarrow> ret (False, find_flag)
     | Some k \<Rightarrow> do {
         (iFileNum, iFileTitleOffset) \<leftarrow> title_region P ho hdr k;
         _ \<leftarrow> sys_lseek fd_map iFileTitleOffset SEEK_SET;
         title_loop P tbl iRealFileLid filename fd_file fd_map find_flag
           (if iFileNum < int MAX_FILENUM then nat iFileNum else 0) (replicate 140 (CHR 0x00)) } }"

definition NVM_RestoreFromFiles_OneFile ::
  "plat \<Rightarrow> int \<Rightarrow> int \<Rightarrow> string option \<Rightarrow> bool \<Rightarrow> (bool \<times> bool) nv" where
  "NVM_RestoreFromFiles_OneFile P eBackupType file_lid filename find_flag = do {
     let by_lid = (filename = None \<and> file_lid \<ge> 0);
     tbl \<leftarrow> (if by_lid then restore_table P file_lid else ret None);
     if by_lid \<and> tbl = None then ret (False, find_flag)
     else do {
       m \<leftarrow> sys_malloc 140;
       if \<not> m then do { ub OutOfBounds; ret (False, find_flag) }
       else do {
         fd_file \<leftarrow> sys_open g_pcNVM_AllFile [O_RDWR] 0;
         fd_map \<leftarrow> sys_open g_pcNVM_AllMap [O_RDWR] 0;
         if fd_file = -1
         then do {
           sys_free;
           _ \<leftarrow> (if fd_map > 0 then sys_close fd_map else ret 0);
           ret (False, find_flag) }
         else if fd_map = -1
         then do { _ \<leftarrow> sys_close fd_file; sys_free; ret (False, find_flag) }
         else do {
           r \<leftarrow> restore_search P eBackupType tbl (if by_lid then real_lid P file_lid else 0) filename find_flag
                  fd_file fd_map;
           _ \<leftarrow> sys_close fd_map;
           _ \<leftarrow> sys_close fd_file;
           sys_free;
           ret r } } } }"

text \<open>\<open>iFileMask\<close>: the kinds a platform skips.\<close>

definition iFileMask :: "plat \<Rightarrow> nat \<Rightarrow> bool" where
  "iFileMask P k \<longleftrightarrow>
     (if \<not> md5_support P \<and> \<not> evdo_support P then k \<in> {5, 6, 10, 11, 12, 13}
      else if \<not> md5_support P \<and> evdo_support P then k \<in> {5, 6, 10, 11, 12}
      else if md5_support P \<and> \<not> evdo_support P then k \<in> {5, 6, 13}
      else k \<in> {5, 6}) \<or> (\<not> ecci_c2k_support P \<and> k \<in> {14, 15, 16})"

primrec try_kinds :: "plat \<Rightarrow> int \<Rightarrow> string option \<Rightarrow> nat list \<Rightarrow> bool \<Rightarrow> bool \<Rightarrow> bool nv" where
  "try_kinds P file_lid filename [] find_flag bRet = ret bRet"
| "try_kinds P file_lid filename (k # ks) find_flag bRet =
     (if iFileMask P k then try_kinds P file_lid filename ks find_flag bRet
      else if find_flag then ret bRet
      else do {
        (b, f) \<leftarrow> NVM_RestoreFromFiles_OneFile P (int k) file_lid filename find_flag;
        try_kinds P file_lid filename ks f b })"

definition NVM_CheckData_OneFile :: "plat \<Rightarrow> int \<Rightarrow> string option \<Rightarrow> bool nv" where
  "NVM_CheckData_OneFile P file_lid filename = do {
     g \<leftarrow> NVM_GetCheckSum;
     if \<not> g then ret False
     else do {
       ulSavedCheckSum \<leftarrow> getg (\<lambda>g. bi_ulCheckSum (stBackupFileInfo g));
       ulCheckSum \<leftarrow> NVM_ComputeCheckSum;
       st \<leftarrow> sys_stat g_pcNVM_AllFile;
       case st of None \<Rightarrow> ret False
       | Some st \<Rightarrow> do {
           let iFileSize = (of_int (st_size st) :: u32);
           if \<not> NVM_CompareCheckSum ulSavedCheckSum (ulCheckSum XOR iFileSize) then ret False
           else try_kinds P file_lid filename [0..<17] False False } } }"

section \<open>Resources\<close>

lemma neutral_title_region: "neutral {} (title_region P ho hdr k)"
  by (rule neutralI) (auto simp: title_region_def Let_def intro!: rs)

lemma neutral_read_title_header: "neutral {} (read_title_header P fd)"
  by (rule neutralI) (auto simp: read_title_header_def intro!: rs)

lemma neutral_title_matches: "neutral {} (title_matches tbl lid f info)"
  by (rule neutralI) (auto simp: title_matches_def intro!: rs)

lemma neutral_check_restored: "neutral {} (check_restored P tbl lid name)"
  by (rule neutralI)
     (auto simp: check_restored_def intro!: rs neutral_rs [OF neutral_CheckFile] neutral_rs [OF neutral_CheckFileSize])

lemma neutral_size_agrees: "neutral {} (size_agrees tbl lid info)"
  by (rule neutralI) (auto simp: size_agrees_def Let_def intro!: rs)

lemma rs_write_restored:
  assumes "dirlock \<notin> rlocks A" and "0 < rheap A" and "\<And>r. Q r (A\<lparr>rheap := rheap A - 1\<rparr>)"
  shows "rspec A (write_restored P tbl lid name buf) Q"
  unfolding write_restored_def
  using assms by (auto intro!: rs neutral_rs [OF neutral_check_restored])

lemma neutral_restore_content: "neutral {dirlock} (restore_content P tbl lid fd info)"
  by (rule neutralI)
     (auto simp: restore_content_def intro!: rs neutral_rs [OF neutral_size_agrees] rs_write_restored)

lemma neutral_title_loop: "neutral {dirlock} (title_loop P tbl lid f fd_file fd_map ff n info)"
proof (rule neutralI)
  fix A and Q :: "bool \<times> bool \<Rightarrow> res \<Rightarrow> bool"
  assume l: "rlocks A \<inter> {dirlock} = {}" and "\<And>r. Q r A"
  then show "rspec A (title_loop P tbl lid f fd_file fd_map ff n info) Q"
    by (induction n arbitrary: info)
       (auto intro!: rs neutral_rs [OF neutral_title_matches] neutral_rs [OF neutral_restore_content] simp: Let_def)
qed

lemma neutral_restore_table: "neutral {dirlock, generateFileVerlock} (restore_table P lid)"
  by (rule neutralI)
     (auto simp: restore_table_def intro!: rs neutral_rs [OF neutral_CheckVerFile] neutral_rs [OF neutral_GenerateFileVer])

lemma neutral_restore_search: "neutral {dirlock} (restore_search P t tbl lid f ff fd_file fd_map)"
  by (rule neutralI)
     (auto simp: restore_search_def intro!: rs neutral_rs [OF neutral_read_title_header]
        neutral_rs [OF neutral_title_region] neutral_rs [OF neutral_title_loop])

lemma neutral_RestoreFromFiles_OneFile:
  "neutral {dirlock, generateFileVerlock} (NVM_RestoreFromFiles_OneFile P t lid f ff)"
proof (rule neutralI)
  fix A and Q :: "bool \<times> bool \<Rightarrow> res \<Rightarrow> bool"
  assume l: "rlocks A \<inter> {dirlock, generateFileVerlock} = {}" and Q: "\<And>r. Q r A"
  show "rspec A (NVM_RestoreFromFiles_OneFile P t lid f ff) Q"
    unfolding NVM_RestoreFromFiles_OneFile_def Let_def
    using l Q
    by (auto intro!: rs neutral_rs [OF neutral_restore_table] neutral_rs [OF neutral_restore_search])
qed

lemma neutral_try_kinds: "neutral {dirlock, generateFileVerlock} (try_kinds P lid f ks ff b)"
  by (induction ks arbitrary: ff b)
     (auto simp: case_prod_unfold intro!: neutral_bind neutral_RestoreFromFiles_OneFile neutral_ret)

lemma neutral_CheckData_OneFile: "neutral {dirlock, generateFileVerlock} (NVM_CheckData_OneFile P lid f)"
  by (rule neutralI)
     (auto simp: NVM_CheckData_OneFile_def Let_def intro!: rs neutral_rs [OF neutral_GetCheckSum]
        neutral_rs [OF neutral_ComputeCheckSum] neutral_rs [OF neutral_try_kinds])

end
