(* ===== verification/BinRegion.thy ===== *)
theory BinRegion
  imports BackupFlag RestoreFiles Boot
begin

text \<open>
  Restoring from the binary region (\<open>NVM_RestoreFromBinRegion_OneFile\<close> of \<open>nvram/libnvram.c\<close>):
  the bad-block bitmap is searched from the last block down, the map file is read from the first
  good block and the data file from the good blocks behind it, both are written to \<open>/nvdata\<close>, and
  \<open>NVM_CheckData_OneFile\<close> does the rest.  Offsets are products of unsigned ints, \<open>off_t\<close> has 64
  bits.
\<close>

section \<open>The function\<close>

abbreviation (input) BitmapFlag :: u32 where "BitmapFlag \<equiv> 0xAABBCCDD"

text \<open>When \<open>NVM_GetDeviceInfo\<close> fails the function goes on with a structure it never set.\<close>

definition unset_info :: "plat \<Rightarrow> mtd_info" where
  "unset_info P = (let g = un32 (garbage P 4) in \<lparr>mi_size = g, mi_erasesize = g, mi_writesize = g\<rparr>)"

definition block_off :: "u32 \<Rightarrow> int \<Rightarrow> int" where
  "block_off iBlockSize k = uint (of_int k * iBlockSize)"

text \<open>\<open>iReservePos\<close>: 1 when the map file, rounded up to the write size, needs a second block.\<close>

definition reserve_pos :: "u32 \<Rightarrow> u32 \<Rightarrow> u32 \<Rightarrow> nat" where
  "reserve_pos iMapFileSize iWriteSize iBlockSize =
     (let m = uint iMapFileSize + 12; ws = uint iWriteSize;
          iMemSize = (of_int (if m mod ws \<noteq> 0 then (m div ws + 1) * ws else m) :: u32)
      in if iBlockSize < iMemSize then 1 else 0)"

text \<open>
  The search for the bitmap: three equal copies and the flag word behind them.  The results are
  those of \<open>bitmap_loop\<close>, with the buffer, which a later short read does not fill.
\<close>

fun flagged_loop :: "int \<Rightarrow> nat \<Rightarrow> u32 \<Rightarrow> nat \<Rightarrow> bytes \<Rightarrow> nat \<Rightarrow> (bytes \<times> bytes \<times> nat) option option nv" where
  "flagged_loop fd N iBlockSize iReservePos tempBuffer 0 = ret (Some None)"
| "flagged_loop fd N iBlockSize iReservePos tempBuffer (Suc iBlockNum) = do {
     _ \<leftarrow> sys_lseek fd (block_off iBlockSize (int iBlockNum - int iReservePos)) SEEK_SET;
     r \<leftarrow> sys_read fd (unat iBlockSize);
     if rd_len r \<le> 0 then ret None
     else do {
       let buf = rd_buf r tempBuffer;
       check (3 * N \<le> length buf) OutOfBounds;
       let tempBitmap1 = take N buf;
       if tempBitmap1 \<noteq> take N (drop N buf) then flagged_loop fd N iBlockSize iReservePos buf iBlockNum
       else if tempBitmap1 \<noteq> take N (drop (2 * N) buf) then flagged_loop fd N iBlockSize iReservePos buf iBlockNum
       else do {
         check (3 * N + 4 \<le> length buf) OutOfBounds;
         if un32 (drop (3 * N) buf) \<noteq> BitmapFlag then flagged_loop fd N iBlockSize iReservePos buf iBlockNum
         else ret (Some (Some (tempBitmap1, buf, iBlockNum))) } } }"

text \<open>The first good block from \<open>from\<close>: where the loop \<open>for (i = from; i < n; i++)\<close> stops.\<close>

definition next_good :: "bytes \<Rightarrow> nat \<Rightarrow> nat \<Rightarrow> nat" where
  "next_good bitmap from n = from + length (takeWhile (\<lambda>c. c \<noteq> CHR 0x00) (take (n - from) (drop from bitmap)))"

definition count_good :: "bytes \<Rightarrow> nat \<Rightarrow> nat \<Rightarrow> nat" where
  "count_good bitmap from n = length (filter (\<lambda>c. c = CHR 0x00) (take (n - from) (drop from bitmap)))"

text \<open>The number of blocks of a data file of \<open>iDatFileSize\<close> bytes.\<close>

definition read_time :: "u32 \<Rightarrow> u32 \<Rightarrow> u32" where
  "read_time iDatFileSize iBlockSize =
     (if iDatFileSize mod iBlockSize \<noteq> 0 then iDatFileSize div iBlockSize + 1 else iDatFileSize div iBlockSize)"

text \<open>The size of its buffer, a whole number of blocks.\<close>

definition data_size :: "u32 \<Rightarrow> u32 \<Rightarrow> u32" where
  "data_size iDatFileSize iBlockSize =
     (if iDatFileSize mod iBlockSize \<noteq> 0 then (iDatFileSize div iBlockSize + 1) * iBlockSize else iDatFileSize)"

text \<open>
  The loop over the blocks of the data file: \<open>n\<close> blocks are left, block \<open>i\<close> of the file is read
  from block \<open>pos\<close> of the region.  \<open>None\<close> is one of the three errors.
\<close>

fun read_blocks :: "int \<Rightarrow> bytes \<Rightarrow> nat \<Rightarrow> u32 \<Rightarrow> nat \<Rightarrow> nat \<Rightarrow> nat \<Rightarrow> bytes \<Rightarrow> bytes option nv" where
  "read_blocks fd bitmap iBlockNum iBlockSize 0 i pos tempBuffer = ret (Some tempBuffer)"
| "read_blocks fd bitmap iBlockNum iBlockSize (Suc n) i pos tempBuffer = do {
     l \<leftarrow> sys_lseek fd (block_off iBlockSize (int pos)) SEEK_SET;
     if to_int32 l \<noteq> to_int32 (int pos * sint iBlockSize) then ret None
     else do {
       r \<leftarrow> sys_read fd (unat iBlockSize);
       if rd_len r \<noteq> sint iBlockSize then ret None
       else let buf = splice (nat (block_off iBlockSize (int i))) (the r) tempBuffer
            in if n = 0 then ret (Some buf)
               else let j = next_good bitmap (pos + 1) iBlockNum
                    in if iBlockNum \<le> j then ret None
                       else read_blocks fd bitmap iBlockNum iBlockSize n (i + 1) j buf } }"

text \<open>The clean-up of every exit after the two files were opened.\<close>

definition give_back_files :: "int \<Rightarrow> int \<Rightarrow> int \<Rightarrow> bool \<Rightarrow> bool nv" where
  "give_back_files fd iFileDesc_file iFileDesc_map x = do {
     _ \<leftarrow> sys_close fd;
     sys_free;
     _ \<leftarrow> sys_close iFileDesc_file;
     _ \<leftarrow> sys_close iFileDesc_map;
     sys_free;
     sys_free;
     ret x }"

text \<open>The data file: allocate, check that the good blocks suffice, read and write.\<close>

definition load_data :: "plat \<Rightarrow> int \<Rightarrow> int \<Rightarrow> int \<Rightarrow> u32 \<Rightarrow> nat \<Rightarrow> bytes \<Rightarrow> nat \<Rightarrow> nat \<Rightarrow> u32 \<Rightarrow> bool nv" where
  "load_data P fd iFileDesc_file iFileDesc_map iBlockSize iReservePos bitmap iBlockNum pos iDatFileSize = do {
     let size = data_size iDatFileSize iBlockSize;
     m \<leftarrow> sys_malloc (uint size);
     if \<not> m then do { _ \<leftarrow> sys_close fd; _ \<leftarrow> sys_close iFileDesc_file; _ \<leftarrow> sys_close iFileDesc_map;
                      sys_free; sys_free; ret False }
     else do {
       let i = next_good bitmap (pos + 1 + iReservePos) iBlockNum;
       if i = iBlockNum then give_back_files fd iFileDesc_file iFileDesc_map False
       else if (of_nat (count_good bitmap i iBlockNum) :: u32) * iBlockSize < iDatFileSize
       then give_back_files fd iFileDesc_file iFileDesc_map False
       else do {
         b \<leftarrow> read_blocks fd bitmap iBlockNum iBlockSize (nat (sint (read_time iDatFileSize iBlockSize))) 0
               (if i < iBlockNum then i else pos) (garbage P (unat size));
         case b of None \<Rightarrow> give_back_files fd iFileDesc_file iFileDesc_map False
         | Some tempBuffer \<Rightarrow> do {
             iResult \<leftarrow> sys_write iFileDesc_file (take (unat iDatFileSize) tempBuffer);
             if to_int32 iResult \<noteq> sint iDatFileSize
             then give_back_files fd iFileDesc_file iFileDesc_map False
             else give_back_files fd iFileDesc_file iFileDesc_map True } } } }"

text \<open>The map file: from the first good block, one or two blocks long.\<close>

definition load_map :: "plat \<Rightarrow> int \<Rightarrow> u32 \<Rightarrow> nat \<Rightarrow> bytes \<Rightarrow> bytes \<Rightarrow> nat \<Rightarrow> bool nv" where
  "load_map P fd iBlockSize iReservePos bitmap tempBuffer iBlockNum = (
     let pos = first_good bitmap iBlockNum
     in if pos = iBlockNum then give_back fd False
     else do {
       _ \<leftarrow> sys_lseek fd (block_off iBlockSize (int pos)) SEEK_SET;
       r \<leftarrow> sys_read fd (unat (iBlockSize * of_nat (iReservePos + 1)));
       if rd_len r \<le> 0 then give_back fd False
       else do {
         let buf = rd_buf r tempBuffer;
         check (8 \<le> length buf) OutOfBounds;
         let iMapFileSize = un32 buf;
         let iDatFileSize = un32 (drop 4 buf);
         check (12 + unat iMapFileSize + 6 \<le> length buf) OutOfBounds;
         iFileDesc_file \<leftarrow> sys_open g_pcNVM_AllFile [O_TRUNC, O_CREAT, O_RDWR] mode660;
         iFileDesc_map \<leftarrow> sys_open g_pcNVM_AllMap [O_TRUNC, O_CREAT, O_RDWR] mode660;
         if iFileDesc_file = -1
         then do { _ \<leftarrow> (if iFileDesc_map \<noteq> -1 then sys_close iFileDesc_map else ret 0); give_back fd False }
         else if iFileDesc_map = -1
         then do { _ \<leftarrow> sys_close iFileDesc_file; give_back fd False }
         else do {
           iResult \<leftarrow> sys_write iFileDesc_map (take (unat iMapFileSize) (drop 12 buf));
           if to_int32 iResult \<noteq> sint iMapFileSize
           then give_back_files fd iFileDesc_file iFileDesc_map False
           else do {
             sys_free;
             load_data P fd iFileDesc_file iFileDesc_map iBlockSize iReservePos bitmap iBlockNum pos iDatFileSize } } } })"

text \<open>
  From the open device to the two files.  When the second allocation of the buffer fails the
  descriptor of the device is not closed.
\<close>

definition load_region :: "plat \<Rightarrow> int \<Rightarrow> u32 \<Rightarrow> u32 \<Rightarrow> int \<Rightarrow> bool nv" where
  "load_region P fd iBlockSize iWriteSize NvRamBlockNum' = do {
     m0 \<leftarrow> sys_malloc (uint iBlockSize);
     if \<not> m0 then do { _ \<leftarrow> sys_close fd; ret False }
     else do {
       _ \<leftarrow> sys_lseek fd (block_off iBlockSize 0) SEEK_SET;
       r \<leftarrow> sys_read fd (unat iBlockSize);
       check (4 \<le> unat iBlockSize) OutOfBounds;
       check (iWriteSize \<noteq> 0) DivByZero;
       let iReservePos = reserve_pos (un32 (rd_buf r (garbage P (unat iBlockSize)))) iWriteSize iBlockSize;
       sys_free;
       let size = iBlockSize * of_nat (iReservePos + 1);
       m1 \<leftarrow> sys_malloc (uint size);
       if \<not> m1 then ret False
       else do {
         m2 \<leftarrow> sys_malloc NvRamBlockNum';
         if \<not> m2 then do { sys_free; _ \<leftarrow> sys_close fd; ret False }
         else do {
           m3 \<leftarrow> sys_malloc NvRamBlockNum';
           if \<not> m3 then do { sys_free; _ \<leftarrow> sys_close fd; sys_free; ret False }
           else do {
             found \<leftarrow> flagged_loop fd (nat NvRamBlockNum') iBlockSize iReservePos (garbage P (unat size)) (nat NvRamBlockNum');
             case found of None \<Rightarrow> give_back fd False
             | Some None \<Rightarrow> give_back fd False
             | Some (Some (tempBitmap1, tempBuffer, iBlockNum)) \<Rightarrow>
                 load_map P fd iBlockSize iReservePos tempBitmap1 tempBuffer iBlockNum } } } } }"

definition NVM_RestoreFromBinRegion_OneFile :: "plat \<Rightarrow> int \<Rightarrow> string option \<Rightarrow> bool nv" where
  "NVM_RestoreFromBinRegion_OneFile P file_lid filename = do {
     r \<leftarrow> NVM_Init P;
     if r < 0 then ret False
     else if file_lid < 0 \<and> filename = None then ret False
     else do {
       dev \<leftarrow> getg g_NVRAM_BACKUP_DEVICE;
       let cMtdDevName = dev_name dev;
       got \<leftarrow> NVM_GetDeviceInfo cMtdDevName;
       fd \<leftarrow> sys_open cMtdDevName [O_RDWR] 0;
       if fd < 0 then ret False
       else do {
         check (got \<noteq> None) Uninitialised;
         let info = (case got of None \<Rightarrow> unset_info P | Some i \<Rightarrow> i);
         layout \<leftarrow> getg nvram_platform_layout_version;
         logb \<leftarrow> getg nvram_platform_log_block;
         resv \<leftarrow> getg nvram_platform_resv_block;
         if layout \<noteq> 0 \<and> layout \<noteq> 1 then do { _ \<leftarrow> sys_close fd; ret False }
         else do {
           check (mi_erasesize info \<noteq> 0) DivByZero;
           setg (\<lambda>g. g\<lparr>BinRegionBlockTotalNum := bin_region_blocks layout logb resv info\<rparr>);
           setg (\<lambda>g. g\<lparr>NvRamBlockNum := to_int32 (BinRegionBlockTotalNum g - nvram_platform_DM_block g)\<rparr>);
           n \<leftarrow> getg NvRamBlockNum;
           ok \<leftarrow> load_region P fd (mi_erasesize info) (mi_writesize info) n;
           if \<not> ok then ret False
           else NVM_CheckData_OneFile P file_lid filename } } } }"

section \<open>Resources\<close>

lemma rs_flagged_loop: "(\<And>r. Q r A) \<Longrightarrow> rspec A (flagged_loop fd N bs res buf n) Q"
  by (induction fd N bs res buf n rule: flagged_loop.induct) (auto intro!: rs simp: Let_def)

lemma rs_read_blocks: "(\<And>r. Q r A) \<Longrightarrow> rspec A (read_blocks fd bm m bs n i pos buf) Q"
  by (induction fd bm m bs n i pos buf rule: read_blocks.induct) (auto intro!: rs simp: Let_def)

lemma heap_less [simp]: "n - Suc (Suc 0) = n - (2::nat)" "n - Suc (Suc (Suc 0)) = n - (3::nat)"
  by simp_all

lemma rs_give_back:
  "3 \<le> rheap A \<Longrightarrow> Q x (A\<lparr>rfds := rfds A - {fd}, rheap := rheap A - 3\<rparr>) \<Longrightarrow> rspec A (give_back fd x) Q"
  by (auto simp: give_back_def intro!: rs)

lemma rs_give_back_files:
  "3 \<le> rheap A \<Longrightarrow> Q x (A\<lparr>rfds := rfds A - {fd} - {ff} - {fm}, rheap := rheap A - 3\<rparr>) \<Longrightarrow>
   rspec A (give_back_files fd ff fm x) Q"
  by (auto simp: give_back_files_def intro!: rs)

lemma rs_load_data:
  assumes "2 \<le> rheap A" and "\<And>x. Q x (A\<lparr>rfds := rfds A - {fd} - {ff} - {fm}, rheap := rheap A - 2\<rparr>)"
  shows "rspec A (load_data P fd ff fm bs res bm n pos dsz) Q"
  unfolding load_data_def Let_def
  by (intro rs rs_read_blocks rs_give_back_files; use assms in simp)

lemma rs_load_map:
  assumes "3 \<le> rheap A" and "fd \<in> rfds A" and "-1 \<notin> rfds A" and "\<And>x. Q x (A\<lparr>rfds := rfds A - {fd}, rheap := rheap A - 3\<rparr>)"
  shows "rspec A (load_map P fd bs res bm buf n) Q"
proof -
  have e: "insert b (insert a (rfds A)) - {fd} - {a} - {b} = rfds A - {fd}"
      "insert b (insert a (rfds A)) - {a} - {b} - {fd} = rfds A - {fd}"
    if "a \<notin> rfds A" "b \<notin> insert a (rfds A)" for a b
    using that by auto
  have e1: "insert a (rfds A) - {a} - {fd} = rfds A - {fd}" if "a \<notin> rfds A" for a
    using that by auto
  show ?thesis
    unfolding load_map_def Let_def
    using assms by (auto simp: e e1 intro!: rs rs_give_back rs_give_back_files rs_load_data)
qed

lemma rs_load_region:
  assumes "fd \<in> rfds A" and "-1 \<notin> rfds A" and "\<And>x. Q x (A\<lparr>rfds := rfds A - {fd}\<rparr>)" and "Q False A"
  shows "rspec A (load_region P fd bs ws n) Q"
  unfolding load_region_def Let_def
  using assms by (auto intro!: rs rs_flagged_loop rs_give_back rs_load_map)

text \<open>
  Whatever calls fail, a restore from the binary region frees every buffer exactly once and
  releases every mutex, and when it succeeds every descriptor is closed.  (A failed second
  allocation leaves the descriptor of the device open, see \<open>second_malloc_leaks\<close>.)
\<close>

theorem RestoreFromBinRegion_gives_back:
  assumes "wf_world w" and "locks w \<inter> {dirlock, generateFileVerlock} = {}" and "set (ubs w) \<inter> {SelfDeadlock, DoubleFree} = {}"
  shows "let (r, w') = run_state (NVM_RestoreFromBinRegion_OneFile P lid f) w in
    heap w' = heap w \<and> locks w' = locks w \<and> set (ubs w') \<inter> {SelfDeadlock, DoubleFree} = {} \<and> dom (fds w) \<subseteq> dom (fds w') \<and>
    (r \<longrightarrow> dom (fds w') = dom (fds w))"
proof -
  let ?A = "res_of w"
  let ?Q = "\<lambda>r B. B = ?A \<or> \<not> r \<and> (\<exists>fd. B = ?A\<lparr>rfds := insert fd (rfds ?A)\<rparr>)"
  have m: "-1 \<notin> rfds ?A" using assms(1) unfolding wf_world_def res_of_def by (auto dest!: bspec)
  have l: "rlocks ?A \<inter> {dirlock, generateFileVerlock} = {}" using assms(2) by (simp add: res_of_def)
  have "rspec ?A (NVM_RestoreFromBinRegion_OneFile P lid f) ?Q"
    unfolding NVM_RestoreFromBinRegion_OneFile_def Let_def
    using m l
    by (auto intro!: rs rs_load_region neutral_rs [OF neutral_Init] neutral_rs [OF neutral_GetDeviceInfo]
        neutral_rs [OF neutral_CheckData_OneFile])
  from rspec_run [OF this assms(1) refl] assms(3)
  show ?thesis by (auto simp: res_of_def case_prod_unfold Let_def)
qed
theorem RestoreFromBinRegion_gives_back_witness:
  "heap (snd (run_state (NVM_RestoreFromBinRegion_OneFile P0 1 None) ((disk [])\<lparr>faults := [Good, Fail]\<rparr>))) = 0"
proof -
  have "wf_world ((disk [])\<lparr>faults := [Good, Fail]\<rparr>)" by (simp add: wf_world_def disk_def)
  then show ?thesis
    using RestoreFromBinRegion_gives_back [of "(disk [])\<lparr>faults := [Good, Fail]\<rparr>" P0 1 None]
    by (simp add: case_prod_unfold Let_def)
qed

text \<open>The descriptor of the device stays open when the second allocation of the buffer fails.\<close>

lemma second_malloc_leaks:
  assumes "fds w fd = Some d" and "faults w = [Good, Good, Good, Fail]" and "4 \<le> unat bs" and "ws \<noteq> 0"
  shows "let (r, w') = run_state (load_region P fd bs ws n) w in \<not> r \<and> fds w' fd \<noteq> None"
proof -
  let ?w = "w\<lparr>heap := Suc (heap w), faults := [Good, Good, Fail]\<rparr>"
  obtain l w1 where l: "run_state (sys_lseek fd (block_off bs 0) SEEK_SET) ?w = (l, w1)" by force
  then have w1: "faults w1 = [Good, Fail] \<and> fds w1 fd \<noteq> None \<and> heap w1 = Suc (heap w)"
    using assms(1) by (auto simp: sys_lseek_def pop_fault_def block_off_def Let_def)
  obtain r w2 where r: "run_state (sys_read fd (unat bs)) w1 = (r, w2)" by force
  then have w2: "faults w2 = [Fail] \<and> fds w2 fd \<noteq> None \<and> heap w2 = Suc (heap w)"
    using w1 by (auto simp: sys_read_def pop_fault_def Let_def split: option.splits if_splits)
  have m: "run_state (sys_malloc (uint bs)) w = (True, ?w)"
    using assms(2) by (simp add: sys_malloc_def pop_fault_def world_order)
  show ?thesis
    using assms(2-4) w2
    by (simp add: load_region_def run_bind run_ret m l r run_check run_free Let_def)
       (simp add: sys_malloc_def pop_fault_def run_bind run_ret)
qed

end
