(* ===== verification/RestoreRun.thy ===== *)
theory RestoreRun
  imports RestoreFiles
begin

text \<open>
  What \<open>NVM_RestoreFromFiles_OneFile\<close> and \<open>NVM_CheckData_OneFile\<close> do with a well-formed backup:
  \<open>archive\<close> relates the map file and the content file to the titles of each kind, and the lemmas
  \<open>run_*\<close> follow the search to the title that is wanted.
\<close>

section \<open>The regions of the map\<close>

text \<open>The kinds a header layout has a region for, in the order of the regions.\<close>

primrec kinds :: "title_layout \<Rightarrow> meta_data list" where
  "kinds Header1 = [APBOOT, APCLN, MDBOOT, MDCLN, MDIMP, MDCOR, MDDATA, MD2BOOT, MD2CLN, MD2IMP,
     MD5BOOT, MD5CLN, MD5IMP, VIA]"
| "kinds Header2 = [APBOOT, APCLN, MDBOOT, MDCLN, MDIMP, MDCOR, MDDATA, MD2BOOT, MD2CLN, MD2IMP,
     MD5BOOT, MD5CLN, MD5IMP]"
| "kinds Header3 = [APBOOT, APCLN, MDBOOT, MDCLN, MDIMP, MDCOR, MDDATA, MD2BOOT, MD2CLN, MD2IMP, VIA]"
| "kinds Header4 = [APBOOT, APCLN, MDBOOT, MDCLN, MDIMP, MDCOR, MDDATA, MD2BOOT, MD2CLN, MD2IMP]"
| "kinds Header5 = [APBOOT, APCLN, MDBOOT, MDCLN, MDIMP, MDCOR, MDDATA, MD2BOOT, MD2CLN, MD2IMP,
     MD5BOOT, MD5CLN, MD5IMP, MD3BOOT, MD3CLN, MD3IMP]"

lemma kind_cases:
  "k \<in> {APBOOT, APCLN, MDBOOT, MDCLN, MDIMP, MDCOR, MDDATA, MD2BOOT, MD2CLN, MD2IMP, MD5BOOT, MD5CLN, MD5IMP,
     VIA, MD3BOOT, MD3CLN, MD3IMP, ALL_FILES}"
  by (cases k) simp_all

lemmas region_simps = region_def less_eq_meta_data_def less_meta_data_def region_boot_def region_md_def region_md2_def
  region_md5_def md5_layout_def region_via_def region_md3_def layout_of_def

text \<open>Each region starts where the regions of the kinds before it end.\<close>

lemma region_layout: "region P 0 k = Some (L, ks) \<Longrightarrow> L = layout_of P"
  by (cases k; cases "md5_support P"; cases "evdo_support P"; cases "ecci_c2k_support P")
     (simp_all add: region_simps)

lemma region_take: "region P 0 k = Some (L, ks) \<Longrightarrow> take (Suc (length ks)) (kinds L) = ks @ [k]"
  by (cases k; cases "md5_support P"; cases "evdo_support P"; cases "ecci_c2k_support P")
     (auto simp: region_simps)

lemma region_prefix:
  assumes "region P 0 k = Some (L, ks)"
  obtains r where "L = layout_of P" and "kinds L = ks @ k # r"
proof -
  have "kinds L = take (Suc (length ks)) (kinds L) @ drop (Suc (length ks)) (kinds L)" by simp
  also have "take (Suc (length ks)) (kinds L) = ks @ [k]" by (rule region_take [OF assms])
  finally have "kinds L = ks @ k # drop (Suc (length ks)) (kinds L)" by simp
  with region_layout [OF assms] show ?thesis by (rule that)
qed

section \<open>Titles\<close>

record title =
  t_name :: string
  t_addr :: nat
  t_data :: bytes

definition title_bytes :: "title \<Rightarrow> bytes" where
  "title_bytes t = le32 (of_nat (length (t_name t))) @ le32 (of_nat (t_addr t)) @ le32 (of_nat (length (t_data t))) @
     zpad 128 (t_name t)"

text \<open>A title whose name fits and whose content lies in the content file \<open>d\<close>.\<close>

definition title_ok :: "bytes \<Rightarrow> title \<Rightarrow> bool" where
  "title_ok d t \<longleftrightarrow> no_nul (t_name t) \<and> length (t_name t) < 128 \<and> t_data t \<noteq> [] \<and>
     length (t_data t) < 2 ^ 31 - 1 \<and> t_addr t < 2 ^ 31 \<and> take (length (t_data t)) (drop (t_addr t) d) = t_data t"

lemma length_title_bytes [simp]: "length (title_bytes t) = 140"
  by (simp add: title_bytes_def)

lemma sint_small: "n < 2 ^ 31 \<Longrightarrow> sint (of_nat n :: u32) = int n"
  by (simp add: signed_of_nat signed_take_bit_int_eq_self)

lemma cstr_drop_zpad:
  assumes "no_nul s" and "length s < 128"
  shows "cstr (drop n (zpad 128 s)) = drop n s"
proof -
  have t: "take 128 s = s" using assms(2) by simp
  have nn: "no_nul (drop n s)" using assms(1) by (auto simp: no_nul_def dest: in_set_dropD)
  have z: "cstr (replicate m (CHR 0x00)) = []" for m
    by (cases m) (simp_all add: cstr_def)
  show ?thesis
  proof (cases "n \<le> length s")
    case True
    with nn assms(2) t show ?thesis by (simp add: zpad_def)
  next
    case False
    with t z show ?thesis by (simp add: zpad_def)
  qed
qed

lemma nul_zpad: "length s < 128 \<Longrightarrow> n < 128 \<Longrightarrow> CHR 0x00 \<in> set (drop n (zpad 128 s))"
  by (cases "n \<le> length s") (simp_all add: zpad_def)

lemma title_fields:
  assumes "title_ok d t"
  shows "FielStartAddr (title_bytes t) = int (t_addr t)" and "Filesize (title_bytes t) = int (length (t_data t))"
    and "title_name (title_bytes t) = t_name t" and "cstr (drop 23 (title_bytes t)) = drop 11 (t_name t)"
    and "CHR 0x00 \<in> set (drop 12 (title_bytes t))" and "CHR 0x00 \<in> set (drop 23 (title_bytes t))"
  using assms cstr_drop_zpad [of "t_name t" 0] cstr_drop_zpad [of "t_name t" 11] nul_zpad [of "t_name t" 0]
    nul_zpad [of "t_name t" 11]
  by (simp_all add: title_ok_def FielStartAddr_def Filesize_def title_name_def title_bytes_def sint_small)

text \<open>The title the caller is looking for.\<close>

definition wanted :: "tcfg_file list option \<Rightarrow> int \<Rightarrow> string option \<Rightarrow> title \<Rightarrow> bool" where
  "wanted tbl lid filename t = (case tbl of
     Some tb \<Rightarrow> t_name t = cFileName (entry tb lid)
   | None \<Rightarrow> (case filename of
       Some f \<Rightarrow> if take 7 f = ''/nvdata'' then drop 11 (t_name t) = drop 7 f else t_name t = f
     | None \<Rightarrow> True))"

definition tbl_ok :: "tcfg_file list option \<Rightarrow> int \<Rightarrow> bool" where
  "tbl_ok tbl lid = (case tbl of None \<Rightarrow> True | Some tb \<Rightarrow> in_table tb lid)"

lemma run_title_matches [run]:
  "title_ok d t \<Longrightarrow> tbl_ok tbl lid \<Longrightarrow>
   run_state (title_matches tbl lid f (title_bytes t)) w = (wanted tbl lid f t, w)"
  by (auto simp: title_matches_def tbl_ok_def wanted_def run title_fields split: option.splits)

section \<open>The search\<close>

lemma title_loop_skip:
  assumes "faults w = []" and "fds w fm = Some d" and "fd_rd d" and "fs w (fd_path d) = Some i" and "ikind i = Reg"
    and "drop (fd_pos d) (idata i) = concat (map title_bytes ts) @ rest" and "tbl_ok tbl lid"
    and "\<forall>t \<in> set ts. title_ok c t \<and> \<not> wanted tbl lid f t" and "length info = 140"
  shows "\<exists>info'. length info' = 140 \<and>
    run_state (title_loop P tbl lid f ff fm b (length ts + n) info) w =
    run_state (title_loop P tbl lid f ff fm b n info')
      (w\<lparr>fds := (fds w)(fm \<mapsto> d\<lparr>fd_pos := fd_pos d + 140 * length ts\<rparr>)\<rparr>)"
  using assms
proof (induction ts arbitrary: w d info)
  case Nil
  then have "(fds w)(fm \<mapsto> d) = fds w" by auto
  with Nil show ?case by auto
next
  case (Cons t ts)
  define d1 where "d1 = d\<lparr>fd_pos := fd_pos d + 140\<rparr>"
  define w1 where "w1 = w\<lparr>fds := (fds w)(fm \<mapsto> d1)\<rparr>"
  have dr: "drop (fd_pos d) (idata i) = title_bytes t @ concat (map title_bytes ts) @ rest"
    using Cons.prems(6) by simp
  have l: "140 \<le> length (idata i) - fd_pos d"
    using arg_cong [OF dr, of length] by simp
  have r: "run_state (sys_read fm 140) w = (Some (title_bytes t), w1)"
    using Cons.prems(1-5) l by (simp add: run dr w1_def d1_def)
  have nx: "drop (fd_pos d1) (idata i) = concat (map title_bytes ts) @ rest"
    using arg_cong [OF dr, of "drop 140"] by (simp add: d1_def add.commute)
  have "\<exists>info'. length info' = 140 \<and>
    run_state (title_loop P tbl lid f ff fm b (length ts + n) (title_bytes t)) w1 =
    run_state (title_loop P tbl lid f ff fm b n info')
      (w1\<lparr>fds := (fds w1)(fm \<mapsto> d1\<lparr>fd_pos := fd_pos d1 + 140 * length ts\<rparr>)\<rparr>)"
    by (rule Cons.IH) (use Cons.prems nx in \<open>simp_all add: w1_def, simp_all add: d1_def\<close>)
  then obtain info' where i': "length info' = 140"
    "run_state (title_loop P tbl lid f ff fm b (length ts + n) (title_bytes t)) w1 =
     run_state (title_loop P tbl lid f ff fm b n info')
      (w1\<lparr>fds := (fds w1)(fm \<mapsto> d1\<lparr>fd_pos := fd_pos d1 + 140 * length ts\<rparr>)\<rparr>)" by auto
  have e: "w1\<lparr>fds := (fds w1)(fm \<mapsto> d1\<lparr>fd_pos := fd_pos d1 + 140 * length ts\<rparr>)\<rparr> =
      w\<lparr>fds := (fds w)(fm \<mapsto> d\<lparr>fd_pos := fd_pos d + 140 * length (t # ts)\<rparr>)\<rparr>"
    by (simp add: w1_def d1_def add.assoc)
  have m: "run_state (title_matches tbl lid f (title_bytes t)) w1 = (False, w1)"
    using Cons.prems(7,8) by (subst run_title_matches [where d = c]) auto
  have "run_state (title_loop P tbl lid f ff fm b (length (t # ts) + n) info) w =
      run_state (title_loop P tbl lid f ff fm b (length ts + n) (title_bytes t)) w1"
    using Cons.prems(9) by (simp add: run_bind r m Let_def)
  then show ?case
    unfolding i'(2) e using i'(1) by (intro exI [of _ info'] conjI)
qed

text \<open>A region without the wanted title: the search goes through it and finds nothing.\<close>

lemma title_loop_none:
  assumes "faults w = []" and "fds w fm = Some d" and "fd_rd d" and "fs w (fd_path d) = Some i" and "ikind i = Reg"
    and "drop (fd_pos d) (idata i) = concat (map title_bytes ts) @ rest" and "tbl_ok tbl lid"
    and "\<forall>t \<in> set ts. title_ok c t \<and> \<not> wanted tbl lid f t" and "length info = 140"
  shows "run_state (title_loop P tbl lid f ff fm b (length ts) info) w =
    ((False, b), w\<lparr>fds := (fds w)(fm \<mapsto> d\<lparr>fd_pos := fd_pos d + 140 * length ts\<rparr>)\<rparr>)"
  using title_loop_skip [OF assms, of P ff b 0] by auto

lemma title_loop_hit:
  assumes "faults w = []" and "fds w fm = Some d" and "fd_rd d" and "fs w (fd_path d) = Some i" and "ikind i = Reg"
    and "drop (fd_pos d) (idata i) = concat (map title_bytes (ts @ t # us)) @ rest" and "tbl_ok tbl lid"
    and "\<forall>t \<in> set ts. title_ok c t \<and> \<not> wanted tbl lid f t" and "title_ok c t" and "wanted tbl lid f t"
    and "length info = 140" and "n = length (ts @ t # us)"
  shows "\<exists>pos. run_state (title_loop P tbl lid f ff fm b n info) w =
    (let (r, w') = run_state (restore_content P tbl lid ff (title_bytes t)) (w\<lparr>fds := (fds w)(fm \<mapsto> d\<lparr>fd_pos := pos\<rparr>)\<rparr>)
     in ((r, True), w'))"
proof -
  let ?d = "d\<lparr>fd_pos := fd_pos d + 140 * length ts\<rparr>"
  let ?w = "w\<lparr>fds := (fds w)(fm \<mapsto> ?d)\<rparr>"
  have "drop (fd_pos d) (idata i) = concat (map title_bytes ts) @ (title_bytes t @ concat (map title_bytes us) @ rest)"
    using assms(6) by simp
  from title_loop_skip [OF assms(1-5) this assms(7,8,11), of P ff b "Suc (length us)"]
  obtain info' where i': "length info' = 140"
    and r1: "run_state (title_loop P tbl lid f ff fm b n info) w =
      run_state (title_loop P tbl lid f ff fm b (Suc (length us)) info') ?w"
    using assms(12) by auto
  have lc: "length (concat (map title_bytes ts)) = 140 * length ts"
    by (induction ts) simp_all
  have dr: "drop (fd_pos ?d) (idata i) = title_bytes t @ concat (map title_bytes us) @ rest"
    using arg_cong [OF assms(6), of "drop (140 * length ts)"] lc by (simp add: add.commute)
  have l: "140 \<le> length (idata i) - fd_pos ?d"
    using arg_cong [OF dr, of length] by simp
  have r: "run_state (sys_read fm 140) ?w =
      (Some (title_bytes t), ?w\<lparr>fds := (fds ?w)(fm \<mapsto> ?d\<lparr>fd_pos := fd_pos ?d + 140\<rparr>)\<rparr>)"
    using assms(1-5) l dr by (subst run_read [where d = ?d and i = i]) simp_all
  have m: "run_state (title_matches tbl lid f (title_bytes t)) v = (True, v)" for v
    using assms(7,9,10) by (subst run_title_matches [where d = c]) auto
  show ?thesis
    using i' by (intro exI [of _ "fd_pos ?d + 140"]) (simp add: r1 run_bind r m case_prod_unfold Let_def)
qed

section \<open>Writing the file back\<close>

text \<open>
  What \<open>NVM_RestoreFromFiles_OneFile\<close> expects of the content when the file was named by its lid:
  the size of the table entry plus the check pair, and a valid check pair.
\<close>

definition fits :: "tcfg_file list option \<Rightarrow> int \<Rightarrow> title \<Rightarrow> bool" where
  "fits tbl lid t \<longleftrightarrow> (case tbl of None \<Rightarrow> True
     | Some tb \<Rightarrow> in_table tb lid \<and> stDefualType (entry tb lid) \<noteq> MULTIPLE_DEFUALT_REC \<and>
         t_name t = cFileName (entry tb lid) \<and>
         table_size (entry tb lid) = int (length (t_data t)) - 2 \<and> checked (t_data t))"

text \<open>A place where a file can be written: its directories exist or can be made.\<close>

definition writable :: "'g world \<Rightarrow> path \<Rightarrow> bool" where
  "writable w p \<longleftrightarrow> (fs w p = None \<or> (\<exists>j. fs w p = Some j \<and> ikind j = Reg)) \<and>
     (\<forall>q \<in> set (dir_prefixes [] p). fs w q = None \<or> is_dir (fs w) q)"

text \<open>The effect of restoring \<open>d\<close> to \<open>p\<close>: the file holds \<open>d\<close> and nothing else changed.\<close>

definition restored :: "path \<Rightarrow> bytes \<Rightarrow> 'g world \<Rightarrow> 'g world \<Rightarrow> bool" where
  "restored p d w w' \<longleftrightarrow> (\<exists>i. fs w' p = Some i \<and> ikind i = Reg \<and> idata i = d) \<and>
     (\<forall>q. q \<noteq> p \<and> q \<notin> set (dir_prefixes [] p) \<longrightarrow> fs w' q = fs w q) \<and>
     wf_world w' \<and> faults w' = [] \<and> heap w' = heap w \<and> locks w' = locks w \<and> ubs w' = ubs w \<and> gl w' = gl w"

lemma run_size_agrees:
  assumes "fits tbl lid t" and "title_ok c t"
  shows "run_state (size_agrees tbl lid (title_bytes t)) w = (True, w)"
proof (cases tbl)
  case (Some tb)
  have "to_int32 (i4RecNum (entry tb lid) * i4RecSize (entry tb lid)) = table_size (entry tb lid)"
    using assms(1) Some by (cases "stDefualType (entry tb lid)") (simp_all add: fits_def table_size_def)
  moreover have "to_int32 (int (length (t_data t))) = int (length (t_data t))"
    using assms(2) by (simp add: title_ok_def)
  ultimately show ?thesis
    using assms Some title_fields(2) [OF assms(2)] by (simp add: size_agrees_def fits_def run Let_def)
qed (simp add: size_agrees_def run)

lemma run_check_restored:
  assumes "fits tbl lid t" and "title_ok c t" and "wf_world w" and "faults w = []"
    and "fs w (t_name t) = Some i" and "ikind i = Reg" and "idata i = t_data t"
  shows "\<exists>n \<ge> 0. run_state (check_restored P tbl lid (t_name t)) w = (True, used n w)"
proof (cases tbl)
  case None
  then show ?thesis by (intro exI [of _ 0]) (simp add: check_restored_def run)
next
  case (Some tb)
  have f: "table_size (entry tb lid) = int (length (t_data t)) - 2" "checked (t_data t)" "in_table tb lid"
    "t_name t = cFileName (entry tb lid)"
    using assms(1) Some by (simp_all add: fits_def)
  have l: "length (t_data t) < 2 ^ 32" "2 \<le> length (t_data t)"
    using assms(2) f(2) by (simp_all add: title_ok_def checked_def)
  show ?thesis
    using assms(3-7) f l Some
    by (intro exI [of _ 2]) (simp add: check_restored_def run_bind run_CheckFile run_CheckFileSize run_ret)
qed

lemma run_write_restored:
  assumes "fits tbl lid t" and "title_ok c t" and "wf_world w" and "faults w = []" and "dirlock \<notin> locks w"
    and "0 < heap w" and "writable w (t_name t)"
  shows "\<exists>w'. run_state (write_restored P tbl lid (t_name t) (t_data t)) w = (True, w') \<and>
    restored (t_name t) (t_data t) (w\<lparr>heap := heap w - 1\<rparr>) w' \<and> fds w' = fds w"
proof -
  let ?p = "t_name t" and ?d = "t_data t"
  have l: "length ?p < 4096" using assms(2) by (simp add: title_ok_def)
  obtain f i where o: "run_state (open_file_with_dirs P ?p [O_CREAT, O_TRUNC, O_RDWR] mode660) w =
       (next_fd w, w\<lparr>fs := f, fds := (fds w)(next_fd w \<mapsto> new_fd ?p [O_CREAT, O_TRUNC, O_RDWR]),
          next_fd := next_fd w + 1\<rparr>)"
    and i: "f ?p = Some i" "ikind i = Reg" "idata i = []"
    and fr: "\<forall>q. q \<noteq> ?p \<and> q \<notin> set (dir_prefixes [] ?p) \<longrightarrow> f q = fs w q"
    by (rule open_truncated [OF assms(3-5) l, of "[O_CREAT, O_TRUNC, O_RDWR]" P mode660])
       (use assms(7) in \<open>auto simp: writable_def\<close>)
  let ?v = "used 1 (w\<lparr>fs := f(?p \<mapsto> i\<lparr>idata := ?d\<rparr>), heap := heap w - 1\<rparr>)"
  have wf: "wf_world ?v"
    by (rule wf_later [OF assms(3)]) simp_all
  obtain n where n: "0 \<le> n" "run_state (check_restored P tbl lid ?p) ?v = (True, used n ?v)"
    using run_check_restored [OF assms(1,2) wf, of "i\<lparr>idata := ?d\<rparr>" P] assms(4) i(2) by auto
  have wf': "wf_world (used n ?v)" by (rule wf_used [OF wf n(1)])
  have s: "splice 0 ?d [] = ?d" by (simp add: splice_def)
  have "run_state (write_restored P tbl lid ?p ?d) w = run_state (check_restored P tbl lid ?p) ?v"
    using assms(3,4,6) i
    by (simp add: write_restored_def run_bind o run_write run_close run_free new_fd_def wants_write_def used_def s
        world_order)
  with n(2) wf' i fr assms(4) show ?thesis
    by (auto simp: restored_def)
qed

lemma run_restore_content:
  assumes "fits tbl lid t" and "title_ok c t" and "wf_world w" and "faults w = []" and "dirlock \<notin> locks w"
    and "writable w (t_name t)" and "fds w ff = Some d" and "fd_rd d" and "fs w (fd_path d) = Some j"
    and "ikind j = Reg" and "idata j = c"
  shows "\<exists>w' pos. run_state (restore_content P tbl lid ff (title_bytes t)) w = (True, w') \<and>
    restored (t_name t) (t_data t) w w' \<and> fds w' = (fds w)(ff \<mapsto> d\<lparr>fd_pos := pos\<rparr>)"
proof -
  let ?a = "t_addr t" and ?d = "t_data t"
  have ok: "0 < length ?d" "length ?d < 2 ^ 31 - 1" "take (length ?d) (drop ?a c) = ?d"
    using assms(2) by (simp_all add: title_ok_def)
  have sz: "min (length ?d) (length c - ?a) = length ?d"
    using arg_cong [OF ok(3), of length] by (simp add: min.commute)
  let ?v = "w\<lparr>fds := (fds w)(ff \<mapsto> d\<lparr>fd_pos := ?a + length ?d\<rparr>), heap := heap w + 1\<rparr>"
  have wf: "wf_world ?v"
    using assms(3,7) unfolding wf_world_def by (auto split: if_splits)
  obtain w' where w': "run_state (write_restored P tbl lid (t_name t) ?d) ?v = (True, w')"
      "restored (t_name t) ?d (?v\<lparr>heap := heap ?v - 1\<rparr>) w'" "fds w' = fds ?v"
    using run_write_restored [OF assms(1,2) wf, of P] assms(4-6) by (auto simp: writable_def)
  have "run_state (restore_content P tbl lid ff (title_bytes t)) w = run_state (write_restored P tbl lid (t_name t) ?d) ?v"
    using assms(4,7-11) ok sz
    by (simp add: restore_content_def run_bind run_size_agrees [OF assms(1,2)] title_fields [OF assms(2)] run_malloc
        run_lseek_set run_read world_order)
  with w' show ?thesis by (auto simp: restored_def)
qed

section \<open>The backup as a whole\<close>

text \<open>
  \<open>archive P m d T\<close>: the map file \<open>m\<close> lists, kind after kind, the titles \<open>T\<close> of files whose
  contents lie in \<open>d\<close>.
\<close>

definition archive :: "plat \<Rightarrow> bytes \<Rightarrow> bytes \<Rightarrow> (meta_data \<Rightarrow> title list) \<Rightarrow> bool" where
  "archive P m d T \<longleftrightarrow> (let L = layout_of P in \<exists>pre hdr rest.
     m = pre @ hdr @ concat (map title_bytes (concat (map T (kinds L)))) @ rest \<and>
     length pre = 12 \<and> length hdr = title_len L \<and>
     (\<forall>k \<in> set (kinds L). title_count L hdr k = int (length (T k)) \<and> length (T k) < MAX_FILENUM \<and>
        (\<forall>t \<in> set (T k). title_ok d t)))"

definition titles_of :: "plat \<Rightarrow> (meta_data \<Rightarrow> title list) \<Rightarrow> meta_data \<Rightarrow> title list" where
  "titles_of P T k = (if region P 0 k = None then [] else T k)"

lemma field_fits: "k \<in> set (kinds L) \<Longrightarrow> field_off L k + 2 \<le> title_len L"
  by (cases L) (auto simp: less_eq_meta_data_def less_meta_data_def)

lemma un16_take: "un16 (take 2 x) = un16 x"
  by (simp add: un16_def)

lemma title_count_ext:
  assumes "k \<in> set (kinds L)" and "length hdr = title_len L"
  shows "title_count L (hdr @ x) k = title_count L hdr k"
proof -
  have "take 2 (drop (field_off L k) (hdr @ x)) = take 2 (drop (field_off L k) hdr)"
    using field_fits [OF assms(1)] assms(2) by simp
  then show ?thesis unfolding title_count_def by (metis un16_take)
qed

lemma length_titles [simp]: "length (concat (map title_bytes ts)) = 140 * length ts"
  by (induction ts) simp_all

lemma archive_titles:
  "archive P m d T \<Longrightarrow> t \<in> set (titles_of P T k) \<Longrightarrow> title_ok d t"
  by (auto simp: archive_def titles_of_def Let_def elim!: region_prefix split: if_splits)

lemma archive_count:
  "archive P m d T \<Longrightarrow> length (titles_of P T k) < MAX_FILENUM"
  by (auto simp: archive_def titles_of_def Let_def elim!: region_prefix)

text \<open>Where the search starts: at the titles of the kind.\<close>

lemma run_restore_search:
  assumes "archive P m d T" and "faults w = []" and "fds w fm = Some dm" and "fd_rd dm"
    and "fs w (fd_path dm) = Some im" and "ikind im = Reg" and "idata im = m"
    and "nvram_platform_header_offset (gl w) = 0"
  shows "\<exists>pos rest. drop pos m = concat (map title_bytes (titles_of P T k)) @ rest \<and>
    run_state (restore_search P (int (meta_num k)) tbl lid f b ff fm) w =
    run_state (title_loop P tbl lid f ff fm b (length (titles_of P T k)) (replicate 140 (CHR 0x00)))
      (w\<lparr>fds := (fds w)(fm \<mapsto> dm\<lparr>fd_pos := pos\<rparr>)\<rparr>)"
proof -
  define L where "L = layout_of P"
  obtain pre hdr rest where m: "m = pre @ hdr @ concat (map title_bytes (concat (map T (kinds L)))) @ rest"
    and l: "length pre = 12" "length hdr = title_len L"
    and c: "\<forall>k \<in> set (kinds L). title_count L hdr k = int (length (T k)) \<and> length (T k) < MAX_FILENUM"
    using assms(1) unfolding archive_def L_def [symmetric] Let_def by auto
  define x where "x = drop (title_len L) (garbage P 40)"
  let ?w = "w\<lparr>fds := (fds w)(fm \<mapsto> dm\<lparr>fd_pos := 12 + title_len L\<rparr>)\<rparr>"
  have h: "run_state (read_title_header P fm) w = (hdr @ x, ?w)"
    using assms(2-7) l m
    by (simp add: read_title_header_def run L_def [symmetric] x_def add.commute)
  show ?thesis
  proof (cases "region P 0 k")
    case None
    have "run_state (restore_search P (int (meta_num k)) tbl lid f b ff fm) w =
      run_state (title_loop P tbl lid f ff fm b 0 (replicate 140 (CHR 0x00))) (w\<lparr>fds := (fds w)(fm \<mapsto> dm\<lparr>fd_pos := 0\<rparr>)\<rparr>)"
      using None assms(2,3,8) by (simp add: restore_search_def run_bind h title_region_def run)
    with None show ?thesis by (intro exI [of _ 0] exI [of _ m]) (simp add: titles_of_def)
  next
    case (Some p)
    then obtain ks where p: "region P 0 k = Some (L, ks)"
      using region_layout unfolding L_def by (metis prod.collapse)
    obtain r where r: "kinds L = ks @ k # r" by (rule region_prefix [OF p])
    have cnt: "title_count L (hdr @ x) j = int (length (T j))" if "j \<in> set (kinds L)" for j
      using c that title_count_ext [OF that l(2)] by simp
    have sum: "sum_list (map (title_count L (hdr @ x)) ks) = int (length (concat (map T ks)))"
    proof -
      have "map (title_count L (hdr @ x)) ks = map (\<lambda>j. int (length (T j))) ks"
        using cnt r by simp
      moreover have "sum_list (map (\<lambda>j. int (length (T j))) js) = int (length (concat (map T js)))" for js
        by (induction js) simp_all
      ultimately show ?thesis by (simp only:)
    qed
    have ck: "title_count L (hdr @ x) k = int (length (T k))" "length (T k) < MAX_FILENUM"
      using cnt [of k] c r by simp_all
    define pos where "pos = 12 + title_len L + 140 * length (concat (map T ks))"
    have tr: "run_state (title_region P 0 (hdr @ x) k) v = ((int (length (T k)), int pos), v)" for v
      by (simp add: title_region_def p run L_def [symmetric] ck sum titles_start_def Let_def pos_def)
    have "m = (pre @ hdr @ concat (map title_bytes (concat (map T ks)))) @
        concat (map title_bytes (T k)) @ concat (map title_bytes (concat (map T r))) @ rest"
      by (simp add: m r)
    moreover have "length (pre @ hdr @ concat (map title_bytes (concat (map T ks)))) = pos"
      by (simp only: length_append length_titles l pos_def)
    ultimately have dr: "drop pos m = concat (map title_bytes (T k)) @ concat (map title_bytes (concat (map T r))) @ rest"
      by (metis append_eq_conv_conj)
    have "run_state (restore_search P (int (meta_num k)) tbl lid f b ff fm) w =
      run_state (title_loop P tbl lid f ff fm b (length (T k)) (replicate 140 (CHR 0x00)))
        (w\<lparr>fds := (fds w)(fm \<mapsto> dm\<lparr>fd_pos := pos\<rparr>)\<rparr>)"
      using assms(2,3,8) ck(2) by (simp add: restore_search_def run_bind h tr run)
    with dr p show ?thesis by (auto simp: titles_of_def)
  qed
qed

text \<open>How the caller names the file.\<close>

definition by_lid :: "int \<Rightarrow> string option \<Rightarrow> bool" where
  "by_lid lid filename \<longleftrightarrow> filename = None \<and> 0 \<le> lid"

definition call_table :: "plat \<Rightarrow> int \<Rightarrow> string option \<Rightarrow> tcfg_file list option" where
  "call_table P lid filename = (if by_lid lid filename then NVM_GetCfgFileTable P lid else None)"

definition call_index :: "plat \<Rightarrow> int \<Rightarrow> string option \<Rightarrow> int" where
  "call_index P lid filename = (if by_lid lid filename then real_lid P lid else 0)"

text \<open>A world with the backup \<open>m\<close>, \<open>d\<close> in which the call gets as far as the search.\<close>

definition searchable :: "plat \<Rightarrow> int \<Rightarrow> string option \<Rightarrow> bytes \<Rightarrow> bytes \<Rightarrow> nv_globals world \<Rightarrow> bool" where
  "searchable P lid filename m d w \<longleftrightarrow> calm w \<and> nvram_platform_header_offset (gl w) = 0 \<and>
     (\<exists>i. fs w g_pcNVM_AllMap = Some i \<and> ikind i = Reg \<and> idata i = m) \<and>
     (\<exists>i. fs w g_pcNVM_AllFile = Some i \<and> ikind i = Reg \<and> idata i = d) \<and>
     (by_lid lid filename \<longrightarrow> lid \<noteq> iFileVerInfoLID P \<and> NVM_GetCfgFileTable P lid \<noteq> None \<and>
        tbl_ok (call_table P lid filename) (real_lid P lid) \<and>
        (\<exists>v. fs w (ver_path P) = Some v \<and> ikind v = Reg))"

lemma searchable_used [simp]: "0 \<le> n \<Longrightarrow> searchable P lid f m d (used n w) = searchable P lid f m d w" if "calm w"
  using that by (simp add: searchable_def calm_def)

text \<open>The world in which the search starts, and what the function does after it.\<close>

definition opened :: "nv_globals world \<Rightarrow> nv_globals world" where
  "opened w = w\<lparr>fds := (fds w)(next_fd w \<mapsto> new_fd g_pcNVM_AllFile [O_RDWR],
       next_fd w + 1 \<mapsto> new_fd g_pcNVM_AllMap [O_RDWR]), next_fd := next_fd w + 2, heap := heap w + 1\<rparr>"

lemma opened_sel [simp]:
  "fs (opened w) = fs w" "faults (opened w) = faults w" "gl (opened w) = gl w" "locks (opened w) = locks w"
  "ubs (opened w) = ubs w" "heap (opened w) = heap w + 1" "next_fd (opened w) = next_fd w + 2"
  "fds (opened w) (next_fd w) = Some (new_fd g_pcNVM_AllFile [O_RDWR])"
  "fds (opened w) (next_fd w + 1) = Some (new_fd g_pcNVM_AllMap [O_RDWR])"
  by (simp_all add: opened_def)

lemma wf_opened_w [simp]: "wf_world w \<Longrightarrow> wf_world (opened w)"
  by (auto simp: wf_world_def opened_def dest!: bspec split: if_splits)

lemma run_RestoreFromFiles:
  assumes "searchable P lid filename m d w"
    and "run_state (restore_search P e (call_table P lid filename) (call_index P lid filename) filename b
           (next_fd w) (next_fd w + 1)) (opened w) = (r, w2)"
    and "fds w2 = (fds (opened w))(next_fd w + 1 \<mapsto> x, next_fd w \<mapsto> y)" and "faults w2 = []" and "0 < heap w2"
  shows "run_state (NVM_RestoreFromFiles_OneFile P e lid filename b) w = (r, w2\<lparr>fds := fds w, heap := heap w2 - 1\<rparr>)"
proof -
  have tab: "run_state (restore_table P lid) w = (call_table P lid filename, w)" "call_table P lid filename \<noteq> None"
    if "by_lid lid filename"
    using assms(1) that
    by (auto simp: searchable_def restore_table_def NVM_CheckVerFile_def run calm_def call_table_def)
  obtain i j where w: "wf_world w" "faults w = []" "fs w g_pcNVM_AllMap = Some i" "ikind i = Reg"
      "fs w g_pcNVM_AllFile = Some j" "ikind j = Reg"
    using assms(1) by (auto simp: searchable_def calm_def)
  have n: "0 < next_fd w" "next_fd w + 2 \<noteq> 0" "next_fd w + 1 \<noteq> 0" using w(1) fresh_fd_ne [OF w(1)] by linarith+
  define w0 where "w0 = w\<lparr>heap := heap w + 1\<rparr>"
  define w1 where "w1 = w0\<lparr>fds := (fds w)(next_fd w \<mapsto> new_fd g_pcNVM_AllFile [O_RDWR]), next_fd := next_fd w + 1\<rparr>"
  have op: "run_state (sys_malloc 140) w = (True, w0)"
    "run_state (sys_open g_pcNVM_AllFile [O_RDWR] 0) w0 = (next_fd w, w1)"
    "run_state (sys_open g_pcNVM_AllMap [O_RDWR] 0) w1 = (next_fd w + 1, opened w)"
    using w by (simp_all add: run_malloc run_open w0_def w1_def opened_def world_order add.commute)
  have fr: "fds w (next_fd w) = None" "fds w (next_fd w + 1) = None"
    using w(1) by simp_all
  have cl: "run_state (do { _ \<leftarrow> sys_close (next_fd w + 1); _ \<leftarrow> sys_close (next_fd w); sys_free; ret r }) w2 =
      (r, w2\<lparr>fds := fds w, heap := heap w2 - 1\<rparr>)"
  proof -
    have "(fds w2)(next_fd w + 1 := None, next_fd w := None) = fds w"
      unfolding assms(3) opened_def using fr by (auto simp: fun_eq_iff)
    then show ?thesis
      using assms(3-5) by (simp add: run_bind run_close run_free run_ret)
  qed
  have "run_state (NVM_RestoreFromFiles_OneFile P e lid filename b) w =
      run_state (do { _ \<leftarrow> sys_close (next_fd w + 1); _ \<leftarrow> sys_close (next_fd w); sys_free; ret r }) w2"
    using w n tab assms(2) op
    by (cases "by_lid lid filename")
       (auto simp: NVM_RestoreFromFiles_OneFile_def by_lid_def [symmetric] Let_def run_bind run_ret call_index_def
          call_table_def)
  with cl show ?thesis by simp
qed

lemma searchable_tbl: "searchable P lid f m d w \<Longrightarrow> tbl_ok (call_table P lid f) (call_index P lid f)"
  by (auto simp: searchable_def call_index_def call_table_def tbl_ok_def)

lemma used_opened: "wf_world w \<Longrightarrow> (opened w)\<lparr>fds := fds w, heap := heap w\<rparr> = used 2 w"
  by (simp add: opened_def used_def world_order)

text \<open>A kind without the wanted title leaves the world as it was.\<close>

lemma RestoreFromFiles_miss:
  assumes "searchable P lid f m d w" and "archive P m d T"
    and "\<forall>t \<in> set (titles_of P T k). \<not> wanted (call_table P lid f) (call_index P lid f) f t"
  shows "run_state (NVM_RestoreFromFiles_OneFile P (int (meta_num k)) lid f b) w = ((False, b), used 2 w)"
proof -
  let ?t = "call_table P lid f" and ?i = "call_index P lid f" and ?n = "next_fd w"
  let ?dm = "new_fd g_pcNVM_AllMap [O_RDWR]"
  obtain im where im: "fs w g_pcNVM_AllMap = Some im" "ikind im = Reg" "idata im = m"
    and w: "wf_world w" "faults w = []" "nvram_platform_header_offset (gl w) = 0"
    using assms(1) by (auto simp: searchable_def calm_def)
  obtain pos rest where p: "drop pos m = concat (map title_bytes (titles_of P T k)) @ rest"
    and r: "run_state (restore_search P (int (meta_num k)) ?t ?i f b ?n (?n + 1)) (opened w) =
      run_state (title_loop P ?t ?i f ?n (?n + 1) b (length (titles_of P T k)) (replicate 140 (CHR 0x00)))
        ((opened w)\<lparr>fds := (fds (opened w))(?n + 1 \<mapsto> ?dm\<lparr>fd_pos := pos\<rparr>)\<rparr>)"
    using run_restore_search [OF assms(2), of "opened w" "?n + 1" ?dm im k ?t ?i f b ?n] im w
    by (auto simp: new_fd_def)
  have s: "run_state (restore_search P (int (meta_num k)) ?t ?i f b ?n (?n + 1)) (opened w) =
      ((False, b), (opened w)\<lparr>fds := (fds (opened w))(?n + 1 \<mapsto> ?dm\<lparr>fd_pos := pos + 140 * length (titles_of P T k)\<rparr>)\<rparr>)"
    unfolding r
    by (subst title_loop_none [where d = "?dm\<lparr>fd_pos := pos\<rparr>" and i = im and rest = rest and c = d and ts = "titles_of P T k"])
       (use assms im w p searchable_tbl archive_titles in \<open>auto simp: new_fd_def\<close>)
  have "run_state (NVM_RestoreFromFiles_OneFile P (int (meta_num k)) lid f b) w =
      ((False, b), (opened w)\<lparr>fds := fds w, heap := heap w\<rparr>)"
    by (subst run_RestoreFromFiles [OF assms(1) s, where x = "?dm\<lparr>fd_pos := pos + 140 * length (titles_of P T k)\<rparr>"
          and y = "new_fd g_pcNVM_AllFile [O_RDWR]"])
       (use w in \<open>auto simp: fun_eq_iff opened_def\<close>)
  with used_opened [OF w(1)] show ?thesis by simp
qed

lemma restored_opened:
  assumes "restored p d (opened w) w'" and "dom (fds w) \<subseteq> dom (fds w')"
  shows "restored p d w (w'\<lparr>fds := fds w, heap := heap w' - 1\<rparr>)"
proof -
  have "wf_world (w'\<lparr>fds := fds w, heap := heap w' - 1\<rparr>)"
    using assms by (auto simp: restored_def wf_world_def dest!: subsetD bspec)
  then show ?thesis
    using assms(1) by (auto simp: restored_def)
qed

lemma RestoreFromFiles_hit:
  assumes "searchable P lid f m d w" and "archive P m d T" and "titles_of P T k = ts @ t # us"
    and "\<forall>u \<in> set ts. \<not> wanted (call_table P lid f) (call_index P lid f) f u"
    and "wanted (call_table P lid f) (call_index P lid f) f t"
    and "fits (call_table P lid f) (call_index P lid f) t" and "writable w (t_name t)"
  shows "\<exists>w'. run_state (NVM_RestoreFromFiles_OneFile P (int (meta_num k)) lid f b) w = ((True, True), w') \<and>
    restored (t_name t) (t_data t) w w' \<and> fds w' = fds w"
proof -
  let ?t = "call_table P lid f" and ?i = "call_index P lid f" and ?n = "next_fd w"
  let ?dm = "new_fd g_pcNVM_AllMap [O_RDWR]" and ?df = "new_fd g_pcNVM_AllFile [O_RDWR]"
  obtain im jm where im: "fs w g_pcNVM_AllMap = Some im" "ikind im = Reg" "idata im = m"
    and jm: "fs w g_pcNVM_AllFile = Some jm" "ikind jm = Reg" "idata jm = d"
    and w: "wf_world w" "faults w = []" "locks w = {}" "nvram_platform_header_offset (gl w) = 0"
    using assms(1) by (auto simp: searchable_def calm_def)
  have ok: "title_ok d u" if "u \<in> set (titles_of P T k)" for u
    by (rule archive_titles [OF assms(2) that])
  obtain pos rest where p: "drop pos m = concat (map title_bytes (titles_of P T k)) @ rest"
    and r: "run_state (restore_search P (int (meta_num k)) ?t ?i f b ?n (?n + 1)) (opened w) =
      run_state (title_loop P ?t ?i f ?n (?n + 1) b (length (titles_of P T k)) (replicate 140 (CHR 0x00)))
        ((opened w)\<lparr>fds := (fds (opened w))(?n + 1 \<mapsto> ?dm\<lparr>fd_pos := pos\<rparr>)\<rparr>)"
    using run_restore_search [OF assms(2), of "opened w" "?n + 1" ?dm im k ?t ?i f b ?n] im w
    by (auto simp: new_fd_def)
  let ?w1 = "\<lambda>q. (opened w)\<lparr>fds := (fds (opened w))(?n + 1 \<mapsto> ?dm\<lparr>fd_pos := q\<rparr>)\<rparr>"
  obtain q where s: "run_state (restore_search P (int (meta_num k)) ?t ?i f b ?n (?n + 1)) (opened w) =
      (let (r, w') = run_state (restore_content P ?t ?i ?n (title_bytes t)) (?w1 q) in ((r, True), w'))"
    using title_loop_hit [where w = "?w1 pos" and fm = "?n + 1" and d = "?dm\<lparr>fd_pos := pos\<rparr>" and i = im and ts = ts
        and t = t and us = us and rest = rest and tbl = ?t and lid = ?i and c = d and f = f
        and info = "replicate 140 (CHR 0x00)" and n = "length (titles_of P T k)" and P = P and ff = ?n and b = b]
      im w p ok assms(3-5) searchable_tbl [OF assms(1)]
    unfolding r by (auto simp: new_fd_def)
  have wf: "wf_world (?w1 q)"
    using wf_opened_w [OF w(1)] by (auto simp: wf_world_def opened_def dest!: bspec split: if_splits)
  obtain w' q' where w': "run_state (restore_content P ?t ?i ?n (title_bytes t)) (?w1 q) = (True, w')"
      "restored (t_name t) (t_data t) (?w1 q) w'" "fds w' = (fds (?w1 q))(?n \<mapsto> ?df\<lparr>fd_pos := q'\<rparr>)"
    using run_restore_content [OF assms(6) ok wf, of ?n ?df jm P] jm w assms(3,7)
    by (auto simp: new_fd_def writable_def)
  have rs: "restored (t_name t) (t_data t) (opened w) w'"
    using w'(2) by (simp add: restored_def)
  have f: "faults w' = []" "0 < heap w'" using rs by (auto simp: restored_def)
  have dom: "dom (fds w) \<subseteq> dom (fds w')" by (auto simp: w'(3) opened_def)
  have "run_state (NVM_RestoreFromFiles_OneFile P (int (meta_num k)) lid f b) w =
      ((True, True), w'\<lparr>fds := fds w, heap := heap w' - 1\<rparr>)"
    by (rule run_RestoreFromFiles [OF assms(1) _ _ f, where x = "?dm\<lparr>fd_pos := q\<rparr>" and y = "?df\<lparr>fd_pos := q'\<rparr>"])
       (simp_all add: s w'(1) w'(3))
  with restored_opened [OF rs dom] show ?thesis by auto
qed

section \<open>Trying the kinds in turn\<close>

lemma try_kinds_found: "run_state (try_kinds P lid f ks True b) w = (b, w)"
  by (induction ks) simp_all

lemma try_kinds_miss:
  assumes "searchable P lid f m d w" and "archive P m d T"
    and "\<forall>k \<in> set ks. \<not> iFileMask P (meta_num k) \<longrightarrow>
      (\<forall>t \<in> set (titles_of P T k). \<not> wanted (call_table P lid f) (call_index P lid f) f t)"
  shows "\<exists>n \<ge> 0. \<exists>b'. run_state (try_kinds P lid f (map meta_num ks @ js) False b) w =
    run_state (try_kinds P lid f js False b') (used n w)"
  using assms(1,3)
proof (induction ks arbitrary: w b)
  case Nil
  show ?case by (rule exI [of _ 0]) auto
next
  case (Cons k ks)
  have rest: "\<forall>k \<in> set ks. \<not> iFileMask P (meta_num k) \<longrightarrow>
      (\<forall>t \<in> set (titles_of P T k). \<not> wanted (call_table P lid f) (call_index P lid f) f t)"
    using Cons.prems(2) by simp
  show ?case
  proof (cases "iFileMask P (meta_num k)")
    case True
    with Cons.IH [OF Cons.prems(1) rest] show ?thesis by simp
  next
    case False
    have c: "calm w" using Cons.prems(1) by (simp add: searchable_def)
    have r: "run_state (NVM_RestoreFromFiles_OneFile P (int (meta_num k)) lid f False) w = ((False, False), used 2 w)"
      by (rule RestoreFromFiles_miss [OF Cons.prems(1) assms(2)]) (use Cons.prems(2) False in auto)
    have "searchable P lid f m d (used 2 w)" using Cons.prems(1) c by simp
    from Cons.IH [OF this rest, of False] obtain n b' where n: "0 \<le> n"
      "run_state (try_kinds P lid f (map meta_num ks @ js) False False) (used 2 w) =
       run_state (try_kinds P lid f js False b') (used n (used 2 w))" by auto
    show ?thesis
      by (intro exI [of _ "2 + n"] conjI exI [of _ b']) (use n r False in \<open>simp_all add: run_bind\<close>)
  qed
qed

lemma kinds_upto: "map meta_num (take n all_kinds) = [0..<n]" if "n \<le> 18"
proof -
  have "map meta_num all_kinds = [0..<18]" by (simp add: all_kinds_def upt_rec)
  then have "take n (map meta_num all_kinds) = take n [0..<18]" by simp
  then show ?thesis using that by (simp add: take_map)
qed

lemma earlier_kinds: "j \<in> set (take (meta_num k) all_kinds) \<Longrightarrow> j < k"
  by (cases k) (auto simp: all_kinds_def less_meta_data_def)

lemma try_kinds_hit:
  assumes "searchable P lid f m d w" and "archive P m d T" and "titles_of P T k = ts @ t # us"
    and "\<not> iFileMask P (meta_num k)" and "k \<noteq> ALL_FILES"
    and "\<forall>u \<in> set ts. \<not> wanted (call_table P lid f) (call_index P lid f) f u"
    and "\<forall>j < k. \<not> iFileMask P (meta_num j) \<longrightarrow>
      (\<forall>u \<in> set (titles_of P T j). \<not> wanted (call_table P lid f) (call_index P lid f) f u)"
    and "wanted (call_table P lid f) (call_index P lid f) f t"
    and "fits (call_table P lid f) (call_index P lid f) t" and "writable w (t_name t)"
  shows "\<exists>w'. run_state (try_kinds P lid f [0..<17] False b) w = (True, w') \<and>
    restored (t_name t) (t_data t) w w' \<and> fds w' = fds w"
proof -
  let ?n = "meta_num k" and ?ks = "take (meta_num k) all_kinds"
  have l: "?n < 17" using assms(5) by (cases k) simp_all
  have "[0..<?n + (17 - ?n)] = [0..<?n] @ [?n..<?n + (17 - ?n)]" by (rule upt_add_eq_append) simp
  then have up: "[0..<17] = map meta_num ?ks @ ?n # [Suc ?n..<17]"
    using l kinds_upto [of ?n] by (simp add: upt_conv_Cons)
  obtain n b' where n: "0 \<le> n" "run_state (try_kinds P lid f [0..<17] False b) w =
      run_state (try_kinds P lid f (?n # [Suc ?n..<17]) False b') (used n w)"
    unfolding up
    using try_kinds_miss [OF assms(1,2), of ?ks "?n # [Suc ?n..<17]" b] assms(7) by (auto dest!: earlier_kinds)
  have c: "calm w" using assms(1) by (simp add: searchable_def)
  obtain w' where w': "run_state (NVM_RestoreFromFiles_OneFile P (int ?n) lid f False) (used n w) = ((True, True), w')"
      "restored (t_name t) (t_data t) (used n w) w'" "fds w' = fds w"
    using RestoreFromFiles_hit [of P lid f m d "used n w" T k ts t us False] assms n(1) c
    by (auto simp: writable_def)
  have "run_state (try_kinds P lid f [0..<17] False b) w = (True, w')"
    unfolding n(2) using assms(4) w'(1) by (simp add: run_bind try_kinds_found)
  with w'(2,3) show ?thesis by (auto simp: restored_def)
qed

text \<open>The checksum stored in the map agrees with the content file.\<close>

definition sum_ok :: "bytes \<Rightarrow> bytes \<Rightarrow> bool" where
  "sum_ok m d \<longleftrightarrow> 12 \<le> length m \<and> un32 m = all_sum d XOR of_nat (length d) \<and> length d < 2 ^ 32"

lemma le32_un32: "length b = 4 \<Longrightarrow> le32 (un32 b) = b"
  by (rule un32_inj) simp_all

lemma map_head:
  assumes "12 \<le> length m"
  shows "m = le32 (un32 m) @ le32 (un32 (drop 4 m)) @ le32 (un32 (drop 8 m)) @ drop 12 m"
proof -
  have t: "un32 x = un32 (take 4 x)" for x by (simp add: un32_def)
  have "le32 (un32 m) = take 4 m" "le32 (un32 (drop 4 m)) = take 4 (drop 4 m)" "le32 (un32 (drop 8 m)) = take 4 (drop 8 m)"
    using assms by (simp_all add: le32_un32 t [of m] t [of "drop 4 m"] t [of "drop 8 m"])
  moreover have "m = take 4 m @ take 4 (drop 4 m) @ take 4 (drop 8 m) @ drop 12 m"
    using append_take_drop_id [of 4 m] append_take_drop_id [of 4 "drop 4 m"] append_take_drop_id [of 4 "drop 8 m"]
    by simp
  ultimately show ?thesis by simp
qed

text \<open>\<open>NVM_CheckData_OneFile\<close> up to the comparison of the checksums.\<close>

lemma run_CheckData:
  assumes "calm w" and "fs w g_pcNVM_AllMap = Some im" and "ikind im = Reg" and "idata im = m" and "12 \<le> length m"
    and "fs w g_pcNVM_AllFile = Some i" and "ikind i = Reg" and "idata i = d" and "length d < 2 ^ 32"
  shows "\<exists>g. run_state (NVM_CheckData_OneFile P lid f) w =
      (if un32 m = all_sum d XOR of_nat (length d)
       then run_state (try_kinds P lid f [0..<17] False False) (used 2 (w\<lparr>gl := (gl w)\<lparr>stBackupFileInfo := g\<rparr>\<rparr>))
       else (False, used 2 (w\<lparr>gl := (gl w)\<lparr>stBackupFileInfo := g\<rparr>\<rparr>)))"
proof -
  let ?g = "\<lparr>bi_ulCheckSum = un32 m, bi_iCommonFileNum = un32 (drop 4 m), bi_iCustomFileNum = un32 (drop 8 m)\<rparr>"
  have c: "wf_world w" "faults w = []" using assms(1) by (simp_all add: calm_def)
  let ?v = "used 1 (w\<lparr>gl := (gl w)\<lparr>stBackupFileInfo := ?g\<rparr>\<rparr>)"
  have g: "run_state NVM_GetCheckSum w = (True, ?v)"
    by (rule run_GetCheckSum [OF c assms(2,3)]) (use assms(4) map_head [OF assms(5)] in simp)
  have wf: "wf_world ?v" by (rule wf_later [OF c(1)]) simp_all
  have s: "run_state NVM_ComputeCheckSum ?v = (all_sum d, used 1 ?v)"
    by (rule run_ComputeCheckSum(1) [OF wf, of i, unfolded assms(8)]) (use c assms in simp_all)
  show ?thesis
    by (intro exI [of _ ?g])
       (use assms(6-8) c in \<open>simp add: NVM_CheckData_OneFile_def run_bind g s run_gets run_ret run_stat st_size_def Let_def
          NVM_CompareCheckSum_def\<close>)
qed

end
