(* ===== verification/RestoreProps.thy ===== *)
theory RestoreProps
  imports RestoreRun
begin

text \<open>
  The properties of restoring from the collected backup, with a sample backup of one file.
\<close>

section \<open>A sample backup\<close>

definition wifi_data :: bytes where
  "wifi_data = ''abcdefgh'' @ [CHR 0xAA, c8 (check_no ''abcdefgh'')]"

definition wifi_title :: title where
  "wifi_title = \<lparr>t_name = ''/nvdata/WIFI'', t_addr = 2, t_data = wifi_data\<rparr>"

definition sample_titles :: "meta_data \<Rightarrow> title list" where
  "sample_titles k = (if k = APCLN then [wifi_title] else [])"

definition sample_file :: bytes where
  "sample_file = ''..'' @ wifi_data @ ''..''"

definition sample_header :: bytes where
  "sample_header = le16 0 @ le16 1 @ le16 0 @ le16 0 @ le16 0 @ le16 0 @ le16 0 @ le16 0 @ le16 0 @ le16 0 @ le32 0 @ le32 0"

definition sample_map :: bytes where
  "sample_map = le32 (all_sum sample_file XOR of_nat (length sample_file)) @ le32 2 @ le32 1 @
     sample_header @ title_bytes wifi_title"

definition sample_world :: "nv_globals world" where
  "sample_world = disk [(''/nvdata/FILE_VER'', reg ''''), (g_pcNVM_AllMap, reg sample_map),
     (g_pcNVM_AllFile, reg sample_file)]"

lemma length_sample [simp]: "length wifi_data = 10" "length sample_file = 14" "length sample_map = 180"
  by (simp_all add: wifi_data_def sample_file_def sample_map_def sample_header_def)

lemma wifi_title_ok: "title_ok sample_file wifi_title"
  by (simp add: title_ok_def wifi_title_def sample_file_def no_nul_def) (simp add: wifi_data_def)

lemma P0_layout: "layout_of P0 = Header4"
  by (simp add: layout_of_def P0_def)

lemma sample_archive: "archive P0 sample_map sample_file sample_titles"
proof -
  let ?pre = "le32 (all_sum sample_file XOR of_nat (length sample_file)) @ le32 2 @ le32 1"
  have m: "sample_map = ?pre @ sample_header @ concat (map title_bytes (concat (map sample_titles (kinds Header4)))) @ []"
    by (simp add: sample_map_def sample_titles_def)
  have c: "\<forall>k \<in> set (kinds Header4). title_count Header4 sample_header k = int (length (sample_titles k))"
    by (simp add: title_count_def sample_header_def sample_titles_def less_eq_meta_data_def)
  have t: "\<forall>k \<in> set (kinds Header4). length (sample_titles k) < MAX_FILENUM \<and>
      (\<forall>t \<in> set (sample_titles k). title_ok sample_file t)"
    using wifi_title_ok by (auto simp: sample_titles_def)
  show ?thesis
    unfolding archive_def P0_layout Let_def
    by (intro exI [of _ ?pre] exI [of _ sample_header] exI [of _ "[]"])
       (use m c t in \<open>simp_all add: sample_header_def\<close>)
qed

lemma sample_region: "region P0 0 k = (if k \<in> set (kinds Header4) then
    Some (Header4, takeWhile (\<lambda>j. j \<noteq> k) (kinds Header4)) else None)"
  by (cases k) (simp_all add: region_simps P0_def)

lemma sample_region_of: "titles_of P0 sample_titles k = sample_titles k"
  by (simp add: titles_of_def sample_region) (auto simp: sample_titles_def)

lemma sample_sel [simp]:
  "fs sample_world g_pcNVM_AllMap = Some (reg sample_map)" "fs sample_world g_pcNVM_AllFile = Some (reg sample_file)"
  "fs sample_world ''/nvdata/FILE_VER'' = Some (reg [])" "fs sample_world ''/nvdata/WIFI'' = None"
  "fs sample_world ''/nvdata'' = Some (new_inode Dir mode771)" "gl sample_world = g0" "calm sample_world"
  by (simp_all add: sample_world_def g_pcNVM_AllMap_def g_pcNVM_AllFile_def calm_def)

lemma P0_tables:
  "ver_path P0 = ''/nvdata/FILE_VER''" "iFileVerInfoLID P0 = 0" "NVM_GetCfgFileTable P0 1 = Some [e_ver, e_wifi]"
  "real_lid P0 1 = 1" "entry [e_ver, e_wifi] 1 = e_wifi" "in_table [e_ver, e_wifi] 1"
  by (simp_all add: P0_def ver_path_def NVM_GetCfgFileTable_def real_lid_def entry_def in_table_def e_ver_def)

lemma sample_searchable: "searchable P0 1 None sample_map sample_file sample_world"
  by (simp add: searchable_def P0_tables call_table_def tbl_ok_def by_lid_def g0_def)

lemma sample_call: "call_table P0 1 None = Some [e_ver, e_wifi]" "call_index P0 1 None = 1"
  by (simp_all add: call_table_def call_index_def by_lid_def P0_tables)

lemma sample_wanted: "wanted (Some [e_ver, e_wifi]) 1 None wifi_title"
  by (simp add: wanted_def P0_tables wifi_title_def) (simp add: e_wifi_def)

lemma sample_fits: "fits (Some [e_ver, e_wifi]) 1 wifi_title"
  using checked_append [of "''abcdefgh''" "CHR 0xAA" "c8 (check_no ''abcdefgh'')"]
  by (simp add: fits_def P0_tables wifi_title_def table_size_def)
     (simp add: wifi_data_def e_wifi_def)

lemma sample_writable: "writable sample_world ''/nvdata/WIFI''"
  by (simp add: writable_def is_dir_def new_inode_def)

section \<open>Properties\<close>



text \<open>What a check of a valid backup does.\<close>

lemma run_CheckData_hit:
  assumes "searchable P lid f m d w" and "sum_ok m d" and "archive P m d T"
    and "region P 0 k \<noteq> None" and "T k = ts @ t # us" and "\<not> iFileMask P (meta_num k)"
    and "\<forall>u \<in> set ts. \<not> wanted (call_table P lid f) (call_index P lid f) f u"
    and "\<forall>j < k. \<not> iFileMask P (meta_num j) \<and> region P 0 j \<noteq> None \<longrightarrow>
      (\<forall>u \<in> set (T j). \<not> wanted (call_table P lid f) (call_index P lid f) f u)"
    and "wanted (call_table P lid f) (call_index P lid f) f t"
    and "fits (call_table P lid f) (call_index P lid f) t" and "writable w (t_name t)"
  shows "\<exists>w'. run_state (NVM_CheckData_OneFile P lid f) w = (True, w') \<and> fds w' = fds w \<and> heap w' = heap w \<and>
    locks w' = {} \<and> ubs w' = ubs w \<and> (\<exists>i. fs w' (t_name t) = Some i \<and> ikind i = Reg \<and> idata i = t_data t) \<and>
    (\<forall>q. q \<noteq> t_name t \<and> q \<notin> set (dir_prefixes [] (t_name t)) \<longrightarrow> fs w' q = fs w q)"
proof -
  obtain i j where i: "fs w g_pcNVM_AllMap = Some i" "ikind i = Reg" "idata i = m"
    and j: "fs w g_pcNVM_AllFile = Some j" "ikind j = Reg" "idata j = d" and c: "calm w"
    using assms(1) by (auto simp: searchable_def)
  have s: "12 \<le> length m" "length d < 2 ^ 32" "un32 m = all_sum d XOR of_nat (length d)"
    using assms(2) by (simp_all add: sum_ok_def)
  obtain g where g: "run_state (NVM_CheckData_OneFile P lid f) w =
      run_state (try_kinds P lid f [0..<17] False False) (used 2 (w\<lparr>gl := (gl w)\<lparr>stBackupFileInfo := g\<rparr>\<rparr>))"
    using run_CheckData [OF c i s(1) j s(2), of P lid f] s(3) by auto
  let ?w = "used 2 (w\<lparr>gl := (gl w)\<lparr>stBackupFileInfo := g\<rparr>\<rparr>)"
  have wf: "wf_world ?w" by (rule wf_later [where w = w]) (use c in \<open>simp_all add: calm_def\<close>)
  have se: "searchable P lid f m d ?w"
    using assms(1) wf by (auto simp: searchable_def calm_def)
  have t: "titles_of P T k = ts @ t # us" using assms(4,5) by (simp add: titles_of_def)
  have e: "\<forall>j < k. \<not> iFileMask P (meta_num j) \<longrightarrow>
      (\<forall>u \<in> set (titles_of P T j). \<not> wanted (call_table P lid f) (call_index P lid f) f u)"
    using assms(8) by (simp add: titles_of_def)
  have k: "k \<noteq> ALL_FILES" using assms(4) by (auto simp: region_simps)
  have "writable ?w (t_name t)" using assms(11) by (simp add: writable_def)
  from try_kinds_hit [OF se assms(3) t assms(6) k assms(7) e assms(9,10) this, of False]
  obtain w' where w': "run_state (try_kinds P lid f [0..<17] False False) ?w = (True, w')"
      "restored (t_name t) (t_data t) ?w w'" "fds w' = fds ?w" by auto
  then show ?thesis
    using c unfolding g by (simp add: restored_def calm_def)
qed



text \<open>
  C31.  A backup in which any one byte of the content file was changed is refused, and no file is
  touched: nothing is restored from corrupted data.
\<close>

theorem CheckData_refuses_corruption:
  assumes "calm w" and "fs w g_pcNVM_AllMap = Some i" and "ikind i = Reg" and "sum_ok (idata i) (idata j)"
    and "fs w g_pcNVM_AllFile = Some j" and "ikind j = Reg" and "n < length (idata j)" and "v \<noteq> idata j ! n"
  shows "let (r, w') = run_state (NVM_CheckData_OneFile P lid f) (poke g_pcNVM_AllFile n v w) in
    \<not> r \<and> fs w' = fs (poke g_pcNVM_AllFile n v w) \<and> fds w' = fds w"
proof -
  let ?d = "(idata j)[n := v]" and ?w = "poke g_pcNVM_AllFile n v w"
  have ne: "g_pcNVM_AllMap \<noteq> g_pcNVM_AllFile" by (simp add: g_pcNVM_AllMap_def g_pcNVM_AllFile_def)
  have c: "calm ?w" using assms(1,5) by (simp add: poke_def calm_def)
  have s: "12 \<le> length (idata i)" "length ?d < 2 ^ 32" "un32 (idata i) = all_sum (idata j) XOR of_nat (length ?d)"
    using assms(4) by (simp_all add: sum_ok_def)
  have "un32 (idata i) \<noteq> all_sum ?d XOR of_nat (length ?d)"
    using all_sum_update [OF assms(7,8)] s(3) by (metis xor_cancel_acc)
  moreover obtain g where "run_state (NVM_CheckData_OneFile P lid f) ?w =
      (if un32 (idata i) = all_sum ?d XOR of_nat (length ?d)
       then run_state (try_kinds P lid f [0..<17] False False) (used 2 (?w\<lparr>gl := (gl ?w)\<lparr>stBackupFileInfo := g\<rparr>\<rparr>))
       else (False, used 2 (?w\<lparr>gl := (gl ?w)\<lparr>stBackupFileInfo := g\<rparr>\<rparr>)))"
    using run_CheckData [OF c, of i "idata i" "j\<lparr>idata := ?d\<rparr>" ?d P lid f] assms(2,3,5,6) s ne
    by (auto simp: poke_def)
  ultimately show ?thesis
    using assms(5) by (simp add: poke_def)
qed

theorem CheckData_refuses_corruption_witness:
  "\<not> fst (run_state (NVM_CheckData_OneFile P0 1 None) (poke g_pcNVM_AllFile 0 (CHR ''x'') sample_world))"
proof -
  have un: "un32 sample_map = all_sum sample_file XOR of_nat (length sample_file)"
    by (simp add: sample_map_def)
  have "sample_file ! 0 = CHR ''.''" by (simp add: sample_file_def)
  then show ?thesis
    using CheckData_refuses_corruption [of sample_world "reg sample_map" "reg sample_file" 0 "CHR ''x''" P0 1 None] un
    by (simp add: sum_ok_def case_prod_unfold Let_def)
qed

text \<open>
  Whatever calls fail, and whatever the files contain, \<open>NVM_CheckData_OneFile\<close> closes every
  descriptor it opens, frees every buffer once and releases every mutex.
\<close>

theorem CheckData_gives_back:
  assumes "wf_world w" and "locks w = {}"
  shows "let w' = snd (run_state (NVM_CheckData_OneFile P lid f) w) in
    dom (fds w') = dom (fds w) \<and> heap w' = heap w \<and> locks w' = {} \<and>
    (DoubleFree \<in> set (ubs w') \<longrightarrow> DoubleFree \<in> set (ubs w) \<or> SelfDeadlock \<in> set (ubs w))"
proof -
  have "res_of (snd (run_state (NVM_CheckData_OneFile P lid f) w)) = res_of w"
    by (rule neutral_run [OF neutral_CheckData_OneFile assms(1)]) (simp add: assms(2))
  then show ?thesis
    using assms(2) by (auto simp: res_of_def Let_def)
qed

theorem CheckData_gives_back_witness:
  "heap (snd (run_state (NVM_CheckData_OneFile P0 1 None) (sample_world\<lparr>faults := [Good, Good, Fail]\<rparr>))) = 0"
  using CheckData_gives_back [of "sample_world\<lparr>faults := [Good, Good, Fail]\<rparr>" P0 1 None]
  by (simp add: Let_def) (simp add: sample_world_def wf_world_def)

text \<open>
  The content of a file with several default records cannot pass: the search compares its size
  with \<open>RecNum * RecSize\<close>, the check after the write with \<open>RecNum * RecNum * RecSize\<close>.  The file is
  already overwritten when the function reports failure.
\<close>

lemma several_records_disagree:
  assumes "stDefualType e = MULTIPLE_DEFUALT_REC" and "2 < i4RecNum e" and "0 < i4RecSize e"
    and "i4RecNum e * i4RecNum e * i4RecSize e < 2 ^ 31" and "sz = i4RecNum e * i4RecSize e + 2"
  shows "table_size e \<noteq> sz" and "table_size e \<noteq> sz - 2"
proof -
  define n s where "n = i4RecNum e" and "s = i4RecSize e"
  have ns: "2 < n" "0 < s" using assms by (simp_all add: n_def s_def)
  have "0 \<le> n * n * s" using ns by simp
  then have t: "table_size e = n * n * s"
    using assms(1,4) by (simp add: table_size_def n_def s_def)
  have "3 * (n * s) \<le> n * (n * s)" using ns by (intro mult_right_mono) auto
  moreover have "3 * 1 \<le> n * s" using ns by (intro mult_mono) auto
  ultimately show "table_size e \<noteq> sz" "table_size e \<noteq> sz - 2"
    unfolding t assms(5) n_def [symmetric] s_def [symmetric] by (auto simp: mult.assoc)
qed

text \<open>
  With a header offset, the VIA case reads the third header structure although the platform with
  both modems read the first one: the count is uninitialised.
\<close>

lemma via_uninitialised:
  assumes "md5_support P" and "evdo_support P" and "\<not> ecci_c2k_support P" and "ho \<noteq> 0"
  shows "Uninitialised \<in> set (ubs (snd (run_state (title_region P ho hdr VIA) w)))"
  using assms by (simp add: title_region_def region_simps check_def run_bind run_ub Let_def)

end
