(* ===== verification/BinRun.thy ===== *)
theory BinRun
  imports BinRegion RestoreProps
begin

text \<open>
  What \<open>NVM_RestoreFromBinRegion_OneFile\<close> does with a well-formed region: the loops over the blocks
  as operations on the list of good blocks, the two files they produce, and the property that a
  file is restored from the region as it is from the collected backup.
\<close>

section \<open>Good blocks\<close>

definition goods :: "bytes \<Rightarrow> nat \<Rightarrow> nat \<Rightarrow> nat list" where
  "goods bitmap from n = filter (\<lambda>i. bitmap ! i = CHR 0x00) [from..<n]"

lemma next_good_simps:
  "n \<le> from \<Longrightarrow> next_good bm from n = from"
  "from < n \<Longrightarrow> n \<le> length bm \<Longrightarrow>
     next_good bm from n = (if bm ! from = CHR 0x00 then from else next_good bm (Suc from) n)"
proof -
  show "n \<le> from \<Longrightarrow> next_good bm from n = from" by (simp add: next_good_def)
  assume a: "from < n" "n \<le> length bm"
  then have "take (n - from) (drop from bm) = bm ! from # take (n - Suc from) (drop (Suc from) bm)"
    by (simp add: Cons_nth_drop_Suc [symmetric] take_Cons' )
  then show "next_good bm from n = (if bm ! from = CHR 0x00 then from else next_good bm (Suc from) n)"
    by (simp add: next_good_def)
qed

lemma count_good_goods:
  assumes "n \<le> length bm"
  shows "count_good bm from n = length (goods bm from n)"
proof -
  have "take (n - from) (drop from bm) = map ((!) bm) [from..<n]"
    using assms by (intro nth_equalityI) auto
  then show ?thesis by (simp add: count_good_def goods_def filter_map o_def)
qed

lemma goods_simps: "goods bm from n =
    (if from < n then (if bm ! from = CHR 0x00 then from # goods bm (Suc from) n else goods bm (Suc from) n) else [])"
  by (simp add: goods_def upt_conv_Cons)

lemma goods_next:
  assumes "n \<le> length bm"
  shows "goods bm from n = (if next_good bm from n < n
    then next_good bm from n # goods bm (Suc (next_good bm from n)) n else [])"
  using assms
proof (induction "n - from" arbitrary: "from")
  case 0
  then show ?case by (subst goods_simps) (simp add: next_good_simps)
next
  case (Suc k)
  then have l: "from < n" by simp
  have IH: "goods bm (Suc from) n = (if next_good bm (Suc from) n < n
      then next_good bm (Suc from) n # goods bm (Suc (next_good bm (Suc from) n)) n else [])"
    using Suc.hyps Suc.prems by (intro Suc.hyps(1)) simp_all
  show ?case
    using l Suc.prems IH by (subst goods_simps) (simp add: next_good_simps(2))
qed

lemma goods_ge: "set (goods bm from n) \<subseteq> {from..<n}"
  by (auto simp: goods_def)

lemma goods_at_next: "n \<le> length bm \<Longrightarrow> goods bm (next_good bm from n) n = goods bm from n"
proof (induction "n - from" arbitrary: "from")
  case 0
  then show ?case by (simp add: next_good_simps)
next
  case (Suc k)
  then have l: "from < n" by simp
  have IH: "goods bm (next_good bm (Suc from) n) n = goods bm (Suc from) n"
    using Suc.hyps Suc.prems by (intro Suc.hyps(1)) simp_all
  show ?case
    using l Suc.prems IH goods_simps [of bm "from" n] by (simp add: next_good_simps(2))
qed

section \<open>Offsets and sizes\<close>

abbreviation (input) BS :: nat where "BS \<equiv> 131072"

lemma block_off_small:
  assumes "k * BS < 2 ^ 31"
  shows "block_off 131072 (int k) = int (k * BS)"
proof -
  have "uint (of_nat (k * BS) :: u32) = int (k * BS)"
    using assms by (simp only: unsigned_of_nat) (simp add: take_bit_eq_mod del: of_nat_mult)
  then show ?thesis by (simp add: block_off_def)
qed

lemma sint_unat: "unat (a :: u32) < 2 ^ 31 \<Longrightarrow> sint a = int (unat a)"
  using sint_small [of "unat a"] by simp

definition blocks_of :: "nat \<Rightarrow> nat" where
  "blocks_of L = (if L mod BS \<noteq> 0 then L div BS + 1 else L div BS)"

lemma blocks_of_bounds: "L \<le> blocks_of L * BS" "0 < L \<Longrightarrow> 0 < blocks_of L" "L \<le> n * BS \<Longrightarrow> blocks_of L \<le> n"
proof -
  have e: "L = L div BS * BS + L mod BS" by simp
  show "L \<le> blocks_of L * BS"
  proof (cases "L mod BS = 0")
    case False
    have "L mod BS < BS" by simp
    with False e show ?thesis unfolding blocks_of_def by (simp only: if_True not_False_eq_True) (simp add: add_mult_distrib)
  qed (use e in \<open>simp add: blocks_of_def\<close>)
  show "0 < L \<Longrightarrow> 0 < blocks_of L" unfolding blocks_of_def by (auto simp: div_eq_0_iff)
  show "blocks_of L \<le> n" if "L \<le> n * BS"
  proof (cases "L mod BS = 0")
    case True
    then show ?thesis using that div_le_mono [OF that, of BS] by (simp add: blocks_of_def)
  next
    case False
    have "L \<noteq> n * BS" using False by auto
    with that have "L div BS < n" by (simp add: less_mult_imp_div_less)
    with False show ?thesis by (simp add: blocks_of_def)
  qed
qed

lemma sizes_unat:
  fixes a :: u32
  assumes "unat a < 2 ^ 31"
  shows "nat (sint (read_time a 131072)) = blocks_of (unat a)"
    and "unat (data_size a 131072) = blocks_of (unat a) * BS"
proof -
  have m: "a mod 131072 \<noteq> 0 \<longleftrightarrow> unat a mod BS \<noteq> 0"
    by (simp add: unat_mod flip: unat_eq_0)
  have d: "unat (a div 131072) = unat a div BS" by (simp add: unat_div)
  have s: "unat a div BS < 2 ^ 14" using assms by simp
  have d1: "unat (a div 131072 + 1) = unat a div BS + 1"
    using s by (subst unat_add_lem [THEN iffD1]) (simp_all add: d)
  have r: "unat (read_time a 131072) = blocks_of (unat a)"
    using m d d1 by (auto simp: read_time_def blocks_of_def)
  have b: "blocks_of (unat a) < 2 ^ 31" using s by (auto simp: blocks_of_def)
  show "nat (sint (read_time a 131072)) = blocks_of (unat a)"
    using r b by (simp add: sint_unat)
  show "unat (data_size a 131072) = blocks_of (unat a) * BS"
  proof (cases "unat a mod BS = 0")
    case True
    then have "unat a div BS * BS = unat a" by (simp add: mod_eq_0_iff_dvd)
    with True show ?thesis using m by (simp add: data_size_def blocks_of_def)
  next
    case False
    have "unat ((a div 131072 + 1) * 131072) = (unat a div BS + 1) * BS"
      using s by (subst unat_mult_lem [THEN iffD1]) (simp_all add: d1)
    with False m show ?thesis by (simp add: data_size_def blocks_of_def)
  qed
qed

section \<open>The loops\<close>

text \<open>A block that holds the bitmap: three copies and the flag word.\<close>

definition flagged :: "nat \<Rightarrow> bytes \<Rightarrow> bool" where
  "flagged N b \<longleftrightarrow> triple N b \<and> un32 (drop (3 * N) b) = BitmapFlag"

lemma take_drop_append: "k + n \<le> length xs \<Longrightarrow> take n (drop k (xs @ ys)) = take n (drop k xs)"
  by simp

lemma un32_drop_append: "k + 4 \<le> length xs \<Longrightarrow> un32 (drop k (xs @ ys)) = un32 (drop k xs)"
  by (simp add: un32_def)

lemma run_flagged_loop:
  assumes "faults w = []" and "fds w fd = Some d" and "fd_rd d"
    and "fs w (fd_path d) = Some i" and "ikind i \<noteq> Dir" and "n * BS \<le> length (idata i)"
    and "n * BS < 2 ^ 31" and "3 * N + 4 \<le> BS" and "BS \<le> length buf" and "res \<le> k"
    and "k < n" and "flagged N (block BS (idata i) (k - res))"
    and "\<forall>j. k < j \<and> j < n \<longrightarrow> \<not> flagged N (block BS (idata i) (j - res))"
  shows "\<exists>buf' p. length buf' = length buf \<and> run_state (flagged_loop fd N 131072 res buf n) w =
    (Some (Some (take N (block BS (idata i) (k - res)), buf', k)), w\<lparr>fds := (fds w)(fd \<mapsto> d\<lparr>fd_pos := p\<rparr>)\<rparr>)"
  using assms
proof (induction n arbitrary: w d buf)
  case (Suc n)
  let ?m = "n - res"
  let ?b = "block BS (idata i) ?m"
  define w' where "w' = w\<lparr>fds := (fds w)(fd \<mapsto> d\<lparr>fd_pos := ?m * BS + BS\<rparr>)\<rparr>"
  have rn: "res \<le> n" using Suc.prems(10,11) by simp
  have off: "int n - int res = int ?m" using rn by simp
  have le: "BS \<le> length (idata i) - ?m * BS" using Suc.prems(6) by (simp add: diff_mult_distrib)
  have lb: "length ?b = BS" using le by (simp add: block_def)
  have o: "block_off 131072 (int n - int res) = int (?m * BS)"
    unfolding off using Suc.prems(7) by (intro block_off_small) (simp add: diff_mult_distrib)
  have l: "run_state (sys_lseek fd (int (?m * BS)) SEEK_SET) w =
      (int (?m * BS), w\<lparr>fds := (fds w)(fd \<mapsto> d\<lparr>fd_pos := ?m * BS\<rparr>)\<rparr>)"
    using Suc.prems(1,2) by (subst run_lseek_set) (auto simp del: of_nat_mult)
  have mn: "min BS (length (idata i) - ?m * BS) = BS" using le by simp
  have r: "run_state (sys_read fd BS) (w\<lparr>fds := (fds w)(fd \<mapsto> d\<lparr>fd_pos := ?m * BS\<rparr>)\<rparr>) = (Some ?b, w')"
    using Suc.prems mn by (simp add: run_read w'_def block_def fun_upd_def)
  define buf1 where "buf1 = ?b @ drop BS buf"
  have b1: "length buf1 = length buf" using lb Suc.prems(9) by (simp add: buf1_def)
  have N: "N \<le> BS" "N + N \<le> BS" "2 * N + N \<le> BS" "3 * N + 4 \<le> BS" using Suc.prems(8) by simp_all
  have t: "take N buf1 = take N ?b" "take N (drop N buf1) = take N (drop N ?b)"
      "take N (drop (2 * N) buf1) = take N (drop (2 * N) ?b)"
    unfolding buf1_def using N lb by simp_all
  have u: "un32 (drop (3 * N) buf1) = un32 (drop (3 * N) ?b)"
    unfolding buf1_def using N(4) lb by (intro un32_drop_append) simp
  have step: "run_state (flagged_loop fd N 131072 res buf (Suc n)) w =
      (if flagged N ?b then (Some (Some (take N ?b, buf1, n)), w') else run_state (flagged_loop fd N 131072 res buf1 n) w')"
    using N b1 lb Suc.prems(9)
    by (simp add: run_bind run_check run_ret o l r flagged_def triple_def Let_def buf1_def [symmetric] t u del: of_nat_mult)
  show ?case
  proof (cases "flagged N ?b")
    case True
    with Suc.prems(11,13) have "k = n" by (metis less_SucE lessI)
    with True b1 show ?thesis unfolding step by (intro exI [of _ buf1] exI [of _ "?m * BS + BS"]) (simp add: w'_def fun_upd_def)
  next
    case False
    with Suc.prems(11,12) have k: "k < n" by (metis less_SucE)
    have "\<exists>buf' p. length buf' = length buf1 \<and> run_state (flagged_loop fd N 131072 res buf1 n) w' =
      (Some (Some (take N (block BS (idata i) (k - res)), buf', k)), w'\<lparr>fds := (fds w')(fd \<mapsto> d\<lparr>fd_pos := ?m * BS + BS, fd_pos := p\<rparr>)\<rparr>)"
      using Suc.prems k b1 by (intro Suc.IH) (simp_all add: w'_def)
    then show ?thesis unfolding step using False b1 by (auto simp: w'_def fun_upd_def)
  qed
qed simp

text \<open>Seeking to a block and reading it.\<close>

lemma block_seek_read:
  assumes "faults w = []" and "fds w fd = Some d" and "fd_rd d"
    and "fs w (fd_path d) = Some j" and "ikind j \<noteq> Dir" and "m * BS \<le> length (idata j)" and "pos < m"
  shows "run_state (sys_lseek fd (int (pos * BS)) SEEK_SET) w = (int (pos * BS), w\<lparr>fds := (fds w)(fd \<mapsto> d\<lparr>fd_pos := pos * BS\<rparr>)\<rparr>)"
    and "run_state (sys_read fd BS) (w\<lparr>fds := (fds w)(fd \<mapsto> d\<lparr>fd_pos := pos * BS\<rparr>)\<rparr>) =
      (Some (block BS (idata j) pos), w\<lparr>fds := (fds w)(fd \<mapsto> d\<lparr>fd_pos := pos * BS + BS\<rparr>)\<rparr>)"
    and "length (block BS (idata j) pos) = BS"
proof -
  have "(pos + 1) * BS \<le> m * BS" using assms(7) by (intro mult_le_mono1) simp
  then have le: "BS \<le> length (idata j) - pos * BS" using assms(6) by simp
  then show "length (block BS (idata j) pos) = BS" by (simp add: block_def)
  have mn: "min BS (length (idata j) - pos * BS) = BS" using le by simp
  show "run_state (sys_lseek fd (int (pos * BS)) SEEK_SET) w = (int (pos * BS), w\<lparr>fds := (fds w)(fd \<mapsto> d\<lparr>fd_pos := pos * BS\<rparr>)\<rparr>)"
    using assms(1,2) by (subst run_lseek_set) (auto simp del: of_nat_mult)
  show "run_state (sys_read fd BS) (w\<lparr>fds := (fds w)(fd \<mapsto> d\<lparr>fd_pos := pos * BS\<rparr>)\<rparr>) =
      (Some (block BS (idata j) pos), w\<lparr>fds := (fds w)(fd \<mapsto> d\<lparr>fd_pos := pos * BS + BS\<rparr>)\<rparr>)"
    using assms mn by (simp add: run_read block_def fun_upd_def)
qed

lemma run_read_blocks:
  assumes "faults w = []" and "fds w fd = Some d" and "fd_rd d"
    and "fs w (fd_path d) = Some j" and "ikind j \<noteq> Dir" and "m * BS \<le> length (idata j)" and "m * BS < 2 ^ 31"
    and "m \<le> length bm" and "pos < m" and "k \<le> length (goods bm (Suc pos) m)"
    and "(i + Suc k) * BS < 2 ^ 31" and "i * BS \<le> length buf"
  shows "\<exists>p. run_state (read_blocks fd bm m 131072 (Suc k) i pos buf) w =
    (Some (splice (i * BS) (concat (map (block BS (idata j)) (pos # take k (goods bm (Suc pos) m)))) buf),
     w\<lparr>fds := (fds w)(fd \<mapsto> d\<lparr>fd_pos := p\<rparr>)\<rparr>)"
  using assms
proof (induction k arbitrary: w d i pos buf)
  case (0 w d i pos buf)
  note b = block_seek_read [OF "0.prems"(1-6,9)]
  have sm: "pos * BS < 2 ^ 31" "i * BS < 2 ^ 31" using "0.prems"(7,9,11) by simp_all
  show ?case
    using b sm by (intro exI [of _ "pos * BS + BS"])
      (simp add: run_bind run_ret block_off_small to_int32_small fun_upd_def Let_def del: of_nat_mult)
next
  case (Suc k w d i pos buf)
  note b = block_seek_read [OF Suc.prems(1-6,9)]
  have sm: "pos * BS < 2 ^ 31" "i * BS < 2 ^ 31" using Suc.prems(7,9,11) by simp_all
  let ?b = "block BS (idata j) pos"
  let ?buf = "splice (i * BS) ?b buf"
  let ?w = "w\<lparr>fds := (fds w)(fd \<mapsto> d\<lparr>fd_pos := pos * BS + BS\<rparr>)\<rparr>"
  let ?g = "next_good bm (Suc pos) m"
  have g: "?g < m" "goods bm (Suc pos) m = ?g # goods bm (Suc ?g) m"
    using Suc.prems(10) goods_next [OF Suc.prems(8), of "Suc pos"] by (auto split: if_splits)
  have e: "run_state (read_blocks fd bm m 131072 (Suc (Suc k)) i pos buf) w =
      run_state (read_blocks fd bm m 131072 (Suc k) (Suc i) ?g ?buf) ?w"
    using b sm g(1) by (simp add: run_bind run_ret block_off_small to_int32_small Let_def del: of_nat_mult)
  have "\<exists>p. run_state (read_blocks fd bm m 131072 (Suc k) (Suc i) ?g ?buf) ?w =
    (Some (splice (Suc i * BS) (concat (map (block BS (idata j)) (?g # take k (goods bm (Suc ?g) m)))) ?buf),
     ?w\<lparr>fds := (fds ?w)(fd \<mapsto> d\<lparr>fd_pos := pos * BS + BS, fd_pos := p\<rparr>)\<rparr>)"
    using Suc.prems g b(3) by (intro Suc.IH) simp_all
  then obtain p where p: "run_state (read_blocks fd bm m 131072 (Suc k) (Suc i) ?g ?buf) ?w =
    (Some (splice (i * BS + BS) (concat (map (block BS (idata j)) (?g # take k (goods bm (Suc ?g) m)))) ?buf),
     w\<lparr>fds := (fds w)(fd \<mapsto> d\<lparr>fd_pos := p\<rparr>)\<rparr>)" by (auto simp: fun_upd_def add.commute)
  have s: "splice (i * BS + BS) x ?buf = splice (i * BS) (?b @ x) buf" for x
    using splice_splice_next [of "i * BS" buf ?b x] Suc.prems(12) b(3) by simp
  show ?case unfolding e p s g(2) by (intro exI [of _ p]) (simp add: fun_upd_def)
qed

section \<open>The two files\<close>

text \<open>
  A region that holds the map file \<open>m\<close> and the data file \<open>d\<close>: \<open>B\<close> erase blocks, the bitmap of the
  first \<open>N\<close> of them \<open>res\<close> blocks before block \<open>k\<close> (the highest place it is found), the map in the
  first good block after three words, and the data in the good blocks behind it.
\<close>

definition region_files :: "bytes \<Rightarrow> nat \<Rightarrow> nat \<Rightarrow> nat \<Rightarrow> bytes \<Rightarrow> bytes \<Rightarrow> bool" where
  "region_files data B N k m d \<longleftrightarrow>
     (let res = reserve_pos (un32 data) 512 131072;
          bm = take N (block BS data (k - res));
          pos = first_good bm k;
          mb = take ((res + 1) * BS) (drop (pos * BS) data);
          gs = goods bm (pos + 1 + res) k
      in length data = B * BS \<and> B * BS < 2 ^ 31 \<and> res \<le> k \<and> k < N \<and> N \<le> B \<and> 3 * N + 4 \<le> BS \<and>
         flagged N (block BS data (k - res)) \<and> (\<forall>j. k < j \<and> j < N \<longrightarrow> \<not> flagged N (block BS data (j - res))) \<and>
         pos < k \<and> 12 + length m + 6 \<le> (res + 1) * BS \<and>
         un32 mb = of_nat (length m) \<and> un32 (drop 4 mb) = of_nat (length d) \<and> take (length m) (drop 12 mb) = m \<and>
         d \<noteq> [] \<and> length d \<le> length gs * BS \<and> take (length d) (concat (map (block BS data) gs)) = d)"

lemma length_blocks:
  "\<forall>x \<in> set xs. x < B \<Longrightarrow> length data = B * BS \<Longrightarrow> length (concat (map (block BS data) xs)) = length xs * BS"
proof (induction xs)
  case (Cons x xs)
  have "(x + 1) * BS \<le> B * BS" using Cons.prems(1) by (intro mult_le_mono1) simp
  then have "length (block BS data x) = BS" using Cons.prems(2) by (simp add: block_def)
  then show ?case using Cons by simp
qed simp

lemma unat_small: "n < 2 ^ 31 \<Longrightarrow> unat (of_nat n :: u32) = n"
  by (simp only: unsigned_of_nat) (simp add: take_bit_eq_mod)

lemma blocks_prefix:
  assumes "\<forall>x \<in> set gs. x < B" and "length data = B * BS" and "R \<le> length gs" and "L \<le> R * BS" and "length g = R * BS"
  shows "take L (splice 0 (concat (map (block BS data) (take R gs))) g) = take L (concat (map (block BS data) gs))"
proof -
  have l: "length (concat (map (block BS data) (take R gs))) = R * BS"
    using assms(1-3) by (subst length_blocks) (auto dest: in_set_takeD)
  have c: "concat (map (block BS data) gs) = concat (map (block BS data) (take R gs)) @ concat (map (block BS data) (drop R gs))"
    by (metis append_take_drop_id concat_append map_append)
  show ?thesis unfolding c using assms(4,5) l by (simp add: splice_def)
qed

lemma run_load_data:
  assumes "faults w = []" and "fds w fd = Some d" and "fd_rd d" and "fs w (fd_path d) = Some j" and "ikind j \<noteq> Dir"
    and "fds w ff = Some a" and "fds w fm = Some b" and "distinct [fd, ff, fm]" and "fd_wr a" and "fd_pos a = 0"
    and "fs w (fd_path a) = Some i" and "ikind i = Reg" and "idata i = []"
    and "2 \<le> heap w"
    and "length (idata j) = B * BS" and "B * BS < 2 ^ 31" and "k \<le> length bm" and "k \<le> B"
    and "x \<noteq> []" and "length x \<le> length (goods bm (pos + 1 + res) k) * BS"
    and "take (length x) (concat (map (block BS (idata j)) (goods bm (pos + 1 + res) k))) = x"
  shows "run_state (load_data P fd ff fm 131072 res bm k pos (of_nat (length x))) w =
    (True, w\<lparr>fs := (fs w)(fd_path a \<mapsto> i\<lparr>idata := x\<rparr>), fds := (fds w)(fd := None, ff := None, fm := None), heap := heap w - 2\<rparr>)"
proof -
  define s0 where "s0 = pos + 1 + res"
  let ?gs = "goods bm s0 k"
  let ?L = "length x" and ?R = "blocks_of (length x)"
  let ?g = "next_good bm s0 k"
  note a20 = assms(20) [folded s0_def] and a21 = assms(21) [folded s0_def]
  have s0: "Suc (pos + res) = s0" by (simp add: s0_def)
  have gs_lt: "\<forall>y \<in> set ?gs. y < k" using goods_ge [of bm s0 k] by auto
  have len_gs: "length ?gs \<le> k"
    using length_filter_le [of "\<lambda>i. bm ! i = CHR 0x00" "[s0..<k]"] by (simp add: goods_def)
  have R: "0 < ?R" "?R \<le> length ?gs" "?L \<le> ?R * BS"
    using assms(19) a20 blocks_of_bounds by auto
  have kb: "length ?gs * BS \<le> B * BS" using len_gs assms(18) by (intro mult_le_mono1) simp
  have L: "?L < 2 ^ 31" using kb assms(16) a20 by linarith
  have uL: "unat (of_nat ?L :: u32) = ?L" by (rule unat_small [OF L])
  note sz = sizes_unat [of "of_nat ?L", unfolded uL, OF L]
  have g: "?g < k" "?gs = ?g # goods bm (Suc ?g) k"
    using R(1,2) goods_next [OF assms(17), of s0] by (auto split: if_splits)
  have cnt: "count_good bm ?g k = length ?gs"
    using count_good_goods [OF assms(17), of ?g] goods_at_next [OF assms(17), of s0] by simp
  have "unat ((of_nat (length ?gs) :: u32) * 131072) = length ?gs * BS"
    using kb assms(16) unat_small [of "length ?gs * BS"] by simp
  then have enough: "\<not> of_nat (length ?gs) * 131072 < (of_nat ?L :: u32)"
    using a20 uL by (simp add: word_less_nat_alt not_less)
  define w1 where "w1 = w\<lparr>heap := heap w + 1\<rparr>"
  have RS: "?R = Suc (?R - 1)" using R(1) by simp
  have "?R * BS \<le> length ?gs * BS" using R(2) by (rule mult_le_mono1)
  then have RB: "?R * BS < 2 ^ 31" using kb assms(16) by linarith
  have "(k * BS) \<le> B * BS" using assms(18) by (rule mult_le_mono1)
  then have kB: "k * BS \<le> length (idata j)" "k * BS < 2 ^ 31" using assms(15,16) by simp_all
  have "?R - 1 \<le> length (goods bm (Suc ?g) k)" using R(2) arg_cong [OF g(2), of length] by simp
  then obtain p where "run_state (read_blocks fd bm k 131072 (Suc (?R - 1)) 0 ?g (garbage P (?R * BS))) w1 =
      (Some (splice (0 * BS) (concat (map (block BS (idata j)) (?g # take (?R - 1) (goods bm (Suc ?g) k)))) (garbage P (?R * BS))),
       w1\<lparr>fds := (fds w1)(fd \<mapsto> d\<lparr>fd_pos := p\<rparr>)\<rparr>)"
    using run_read_blocks [of w1 fd d j k bm ?g "?R - 1" 0 "garbage P (?R * BS)"] assms(1-5,17) kB g(1) RB RS
    by (auto simp: w1_def)
  moreover have "?g # take (?R - 1) (goods bm (Suc ?g) k) = take ?R ?gs"
    using RS g(2) by (metis take_Suc_Cons)
  ultimately have rb: "run_state (read_blocks fd bm k 131072 ?R 0 ?g (garbage P (?R * BS))) w1 =
      (Some (splice 0 (concat (map (block BS (idata j)) (take ?R ?gs))) (garbage P (?R * BS))),
       w1\<lparr>fds := (fds w1)(fd \<mapsto> d\<lparr>fd_pos := p\<rparr>)\<rparr>)"
    by (simp only: RS [symmetric] mult_0)
  have x: "take ?L (splice 0 (concat (map (block BS (idata j)) (take ?R ?gs))) (garbage P (?R * BS))) = x"
    using blocks_prefix [of ?gs B "idata j" ?R ?L "garbage P (?R * BS)"] gs_lt assms(15,18) a21 R
    by (auto simp: dest: less_le_trans)
  have s: "sint (of_nat ?L :: u32) = int ?L" by (rule sint_small [OF L])
  have m: "run_state (sys_malloc (uint (data_size (of_nat ?L) 131072))) w = (True, w1)"
    using assms(1) by (simp add: run_malloc w1_def)
  have ti: "to_int32 (int ?L) = int ?L" using L by simp
  have sp: "splice 0 x [] = x" by (simp add: splice_def)
  have w1: "faults w1 = []" "fds w1 = fds w" "fs w1 = fs w" "heap w1 = heap w + 1"
    using assms(1) by (simp_all add: w1_def)
  show ?thesis
    using assms(1-14) g(1) enough
    by (simp add: load_data_def s0 run_bind run_ret m sz cnt rb uL x s ti w1 run_write run_close run_free give_back_files_def
        Let_def sp) (simp add: w1_def fun_upd_def)
qed

lemma run_load_map:
  assumes "wf_world w" and "faults w = []" and "fds w fd = Some d" and "fd_rd d" and "fs w (fd_path d) = Some j" and "ikind j = Blk"
    and "fd < next_fd w"
    and "fs w g_pcNVM_AllFile = Some i1" and "ikind i1 = Reg" and "fs w g_pcNVM_AllMap = Some i2" and "ikind i2 = Reg"
    and "3 \<le> heap w" and "region_files (idata j) B N k m x"
    and "res = reserve_pos (un32 (idata j)) 512 131072" and "bm = take N (block BS (idata j) (k - res))"
    and "length buf = (res + 1) * BS"
  shows "run_state (load_map P fd 131072 res bm buf k) w =
    (True, w\<lparr>fs := (fs w)(g_pcNVM_AllFile \<mapsto> i1\<lparr>idata := x\<rparr>, g_pcNVM_AllMap \<mapsto> i2\<lparr>idata := m\<rparr>),
             fds := (fds w)(fd := None), next_fd := next_fd w + 2, heap := heap w - 3\<rparr>)"
proof -
  let ?pos = "first_good bm k"
  define n where "n = (res + 1) * BS"
  define p0 where "p0 = ?pos * BS"
  define mb where "mb = take n (drop p0 (idata j))"
  have R: "length (idata j) = B * BS" "B * BS < 2 ^ 31" "res \<le> k" "k < N" "N \<le> B" "3 * N + 4 \<le> BS" "?pos < k"
      "12 + length m + 6 \<le> n" "un32 mb = of_nat (length m)" "un32 (drop 4 mb) = of_nat (length x)"
      "take (length m) (drop 12 mb) = m" "x \<noteq> []" "length x \<le> length (goods bm (?pos + 1 + res) k) * BS"
      "take (length x) (concat (map (block BS (idata j)) (goods bm (?pos + 1 + res) k))) = x"
    using assms(13) unfolding region_files_def Let_def assms(14,15) mb_def n_def p0_def by simp_all
  have r1: "res \<le> 1" by (simp add: assms(14) reserve_pos_def Let_def)
  have "(?pos + res + 1) * BS \<le> B * BS" using R(4,5,7) r1 by (intro mult_le_mono1) simp
  then have lmb: "length mb = n" and mn: "min n (length (idata j) - p0) = n"
    using R(1) by (simp_all add: mb_def n_def p0_def)
  have pk: "?pos * BS < 2 ^ 31" using R(2,4,5,7) by simp
  have off: "block_off 131072 (int ?pos) = int p0" unfolding p0_def by (rule block_off_small [OF pk])
  have sz: "unat (131072 + 131072 * of_nat res :: u32) = n"
    using r1 by (cases res) (simp_all add: n_def)
  have buf: "rd_buf (Some mb) buf = mb" using lmb assms(16) by (simp add: n_def)
  have lm: "length m < 2 ^ 31" using R(8) r1 by (cases res) (simp_all add: n_def)
  have um: "unat (of_nat (length m) :: u32) = length m" "sint (of_nat (length m) :: u32) = int (length m)"
      "to_int32 (int (length m)) = int (length m)"
    using lm unat_small sint_small by simp_all
  have k: "k \<le> length bm" "k \<le> B"
    using R(1,3,4,5,6) r1 length_block [of "k - res" BS "idata j"] mult_le_mono1 [of "k - res + 1" B BS]
    by (simp_all add: assms(15))
  have l: "run_state (sys_lseek fd (int (p0)) SEEK_SET) w =
      (int (p0), w\<lparr>fds := (fds w)(fd \<mapsto> d\<lparr>fd_pos := p0\<rparr>)\<rparr>)"
    using assms(2,3) by (subst run_lseek_set) (auto simp del: of_nat_mult)
  let ?w1 = "w\<lparr>fds := (fds w)(fd \<mapsto> d\<lparr>fd_pos := p0 + n\<rparr>)\<rparr>"
  have r: "run_state (sys_read fd n) (w\<lparr>fds := (fds w)(fd \<mapsto> d\<lparr>fd_pos := p0\<rparr>)\<rparr>) = (Some mb, ?w1)"
    using assms(2-6) mn by (simp add: run_read fun_upd_def mb_def)
  let ?d1 = "d\<lparr>fd_pos := p0 + n\<rparr>"
  let ?f = "\<lparr>fd_path = g_pcNVM_AllFile, fd_pos = 0, fd_rd = True, fd_wr = True\<rparr>"
  let ?g = "\<lparr>fd_path = g_pcNVM_AllMap, fd_pos = length m, fd_rd = True, fd_wr = True\<rparr>"
  have ne: "g_pcNVM_AllFile \<noteq> g_pcNVM_AllMap" by (simp add: g_pcNVM_AllFile_def g_pcNVM_AllMap_def)
  define w2 where "w2 = w\<lparr>fs := (fs w)(g_pcNVM_AllFile \<mapsto> i1\<lparr>idata := []\<rparr>, g_pcNVM_AllMap \<mapsto> i2\<lparr>idata := m\<rparr>),
      fds := (fds w)(fd \<mapsto> ?d1, next_fd w \<mapsto> ?f, next_fd w + 1 \<mapsto> ?g), next_fd := next_fd w + 2, heap := heap w - 1\<rparr>"
  have dn: "fd_path d \<noteq> g_pcNVM_AllFile" "fd_path d \<noteq> g_pcNVM_AllMap" using assms(5,6,8-11) by auto
  have fn: "fd \<noteq> next_fd w" "fd \<noteq> next_fd w + 1" using assms(7) by simp_all
  have fresh: "fds w (next_fd w) = None" "fds w (next_fd w + 1) = None"
    using assms(1) by simp_all
  have "run_state (load_data P fd (next_fd w) (next_fd w + 1) 131072 res bm k ?pos (of_nat (length x))) w2 =
    (True, w2\<lparr>fs := (fs w2)(fd_path ?f \<mapsto> i1\<lparr>idata := [], idata := x\<rparr>),
       fds := (fds w2)(fd := None, next_fd w := None, next_fd w + 1 := None), heap := heap w2 - 2\<rparr>)"
    by (rule run_load_data [where d = "?d1" and a = "?f" and b = "?g" and i = "i1\<lparr>idata := []\<rparr>" and j = j and B = B])
      (use assms(2-12) R(1,2,12-14) k ne dn fn in \<open>simp_all add: w2_def\<close>)
  then have ld: "run_state (load_data P fd (next_fd w) (next_fd w + 1) 131072 res bm k ?pos (of_nat (length x))) w2 =
    (True, w2\<lparr>fs := (fs w2)(g_pcNVM_AllFile \<mapsto> i1\<lparr>idata := x\<rparr>),
       fds := (fds w2)(fd := None, next_fd w := None, next_fd w + 1 := None), heap := heap w2 - 2\<rparr>)"
    by simp
  have bl: "drop n buf = []" "length buf = n" using assms(16) by (simp_all add: n_def)
  have sp: "splice 0 m [] = m" by (simp add: splice_def)
  have nx: "0 < next_fd w" using assms(1) by simp
  have mb0: "mb \<noteq> []" using lmb by (auto simp: n_def)
  have "run_state (load_map P fd 131072 res bm buf k) w =
      run_state (load_data P fd (next_fd w) (next_fd w + 1) 131072 res bm k ?pos (of_nat (length x))) w2"
    using assms(2-12) ne dn fn fresh R(7,8) bl mb0 nx
    by (simp add: load_map_def run_bind run_ret off l sz r buf run_check lmb R(9-11) um run_open_trunc new_fd_def
        wants_write_def run_write run_free sp Let_def)
      (simp add: w2_def fun_upd_def world_order add.commute)
  moreover have "w2\<lparr>fs := (fs w2)(g_pcNVM_AllFile \<mapsto> i1\<lparr>idata := x\<rparr>),
       fds := (fds w2)(fd := None, next_fd w := None, next_fd w + 1 := None), heap := heap w2 - 2\<rparr> =
     w\<lparr>fs := (fs w)(g_pcNVM_AllFile \<mapsto> i1\<lparr>idata := x\<rparr>, g_pcNVM_AllMap \<mapsto> i2\<lparr>idata := m\<rparr>),
       fds := (fds w)(fd := None), next_fd := next_fd w + 2, heap := heap w - 3\<rparr>"
    by (rule world.equality) (use ne fresh in \<open>auto simp: w2_def fun_eq_iff\<close>)
  ultimately show ?thesis by (simp only: ld)
qed

lemma run_load_region:
  assumes "wf_world w" and "faults w = []" and "fds w fd = Some d" and "fd_rd d" and "fs w (fd_path d) = Some j" and "ikind j = Blk"
    and "fd < next_fd w" and "fd_pos d = 0"
    and "fs w g_pcNVM_AllFile = Some i1" and "ikind i1 = Reg" and "fs w g_pcNVM_AllMap = Some i2" and "ikind i2 = Reg"
    and "region_files (idata j) B N k m x"
  shows "run_state (load_region P fd 131072 512 (int N)) w =
    (True, w\<lparr>fs := (fs w)(g_pcNVM_AllFile \<mapsto> i1\<lparr>idata := x\<rparr>, g_pcNVM_AllMap \<mapsto> i2\<lparr>idata := m\<rparr>),
             fds := (fds w)(fd := None), next_fd := next_fd w + 2\<rparr>)"
proof -
  define res where "res = reserve_pos (un32 (idata j)) 512 131072"
  define bm where "bm = take N (block BS (idata j) (k - res))"
  define n where "n = (res + 1) * BS"
  have R: "length (idata j) = B * BS" "B * BS < 2 ^ 31" "res \<le> k" "k < N" "N \<le> B" "3 * N + 4 \<le> BS"
      "flagged N (block BS (idata j) (k - res))" "\<forall>i. k < i \<and> i < N \<longrightarrow> \<not> flagged N (block BS (idata j) (i - res))"
    using assms(13) unfolding region_files_def Let_def res_def by simp_all
  have B: "0 < B" using R(4,5) by simp
  have NB: "N * BS \<le> B * BS" using R(5) by (rule mult_le_mono1)
  have r1: "res \<le> 1" by (simp add: res_def reserve_pos_def Let_def)
  have sz: "unat (131072 + 131072 * of_nat res :: u32) = n" using r1 by (cases res) (simp_all add: n_def)
  let ?wa = "w\<lparr>heap := Suc (heap w)\<rparr>"
  have b: "run_state (sys_lseek fd 0 SEEK_SET) ?wa = (0, ?wa\<lparr>fds := (fds w)(fd \<mapsto> d\<lparr>fd_pos := 0\<rparr>)\<rparr>)"
      "run_state (sys_read fd BS) (?wa\<lparr>fds := (fds w)(fd \<mapsto> d\<lparr>fd_pos := 0\<rparr>)\<rparr>) =
        (Some (block BS (idata j) 0), ?wa\<lparr>fds := (fds w)(fd \<mapsto> d\<lparr>fd_pos := BS\<rparr>)\<rparr>)"
      "length (block BS (idata j) 0) = BS"
    using block_seek_read [of ?wa fd d j B 0] assms(2-6) B R(1) by simp_all
  have o: "block_off 131072 0 = 0" by (simp add: block_off_def)
  let ?w1 = "w\<lparr>fds := (fds w)(fd \<mapsto> d\<lparr>fd_pos := BS\<rparr>), heap := heap w + 1\<rparr>"
  have hd: "un32 (block BS (idata j) 0) = un32 (idata j)" by (simp add: block_def un32_def)
  have l0: "length (block BS (idata j) 0) = BS" using b(3) R(1) assms(6) by simp
  let ?w3 = "w\<lparr>fds := (fds w)(fd \<mapsto> d\<lparr>fd_pos := BS\<rparr>), heap := heap w + 3\<rparr>"
  obtain buf p where bp: "length buf = n" "run_state (flagged_loop fd N 131072 res (garbage P n) N) ?w3 =
      (Some (Some (bm, buf, k)), ?w3\<lparr>fds := (fds ?w3)(fd \<mapsto> d\<lparr>fd_pos := BS, fd_pos := p\<rparr>)\<rparr>)"
    using run_flagged_loop [of ?w3 fd "d\<lparr>fd_pos := BS\<rparr>" j N N "garbage P n" res k] assms(2-6) R NB
    by (auto simp: bm_def n_def)
  let ?w4 = "?w3\<lparr>fds := (fds ?w3)(fd \<mapsto> d\<lparr>fd_pos := BS, fd_pos := p\<rparr>)\<rparr>"
  have lm: "run_state (load_map P fd 131072 res bm buf k) ?w4 =
    (True, ?w4\<lparr>fs := (fs ?w4)(g_pcNVM_AllFile \<mapsto> i1\<lparr>idata := x\<rparr>, g_pcNVM_AllMap \<mapsto> i2\<lparr>idata := m\<rparr>),
             fds := (fds ?w4)(fd := None), next_fd := next_fd ?w4 + 2, heap := heap ?w4 - 3\<rparr>)"
  proof (rule run_load_map [where d = "d\<lparr>fd_pos := BS, fd_pos := p\<rparr>" and j = j and N = N and B = B])
    show "wf_world ?w4"
      by (rule wf_opened [where w = w and fd = fd and d = "d\<lparr>fd_pos := BS, fd_pos := p\<rparr>"])
         (use assms(1,3,7) in \<open>auto simp: wf_world_def dest: domI\<close>)
  qed (use assms(2-13) bp(1) in \<open>simp_all add: res_def bm_def n_def\<close>)
  have N: "0 < N" using R(4) by simp
  have "run_state (load_region P fd 131072 512 (int N)) w = run_state (load_map P fd 131072 res bm buf k) ?w4"
    using assms(2,3,6) R(1) l0 bp N
    by (simp add: load_region_def b(1,2) run_bind run_ret o run_malloc run_check run_free hd res_def [symmetric] sz Let_def)
       (simp add: fun_upd_def world_order numeral_3_eq_3)
  moreover have "?w4\<lparr>fs := (fs ?w4)(g_pcNVM_AllFile \<mapsto> i1\<lparr>idata := x\<rparr>, g_pcNVM_AllMap \<mapsto> i2\<lparr>idata := m\<rparr>),
             fds := (fds ?w4)(fd := None), next_fd := next_fd ?w4 + 2, heap := heap ?w4 - 3\<rparr> =
     w\<lparr>fs := (fs w)(g_pcNVM_AllFile \<mapsto> i1\<lparr>idata := x\<rparr>, g_pcNVM_AllMap \<mapsto> i2\<lparr>idata := m\<rparr>),
             fds := (fds w)(fd := None), next_fd := next_fd w + 2\<rparr>"
    by (rule world.equality) auto
  ultimately show ?thesis by (simp only: lm)
qed

section \<open>The whole function\<close>

lemma run_RestoreFromBinRegion:
  assumes "wf_world w" and "faults w = []" and "nvram_init_flag (gl w)" and "0 \<le> g_i4MaxNvRamLid (gl w)"
    and "0 \<le> lid \<or> f \<noteq> None" and "nvram_gpt_flag (gl w) = 1" and "nvram_platform_layout_version (gl w) = 1"
    and "nvram_platform_DM_block (gl w) = int B - int N"
    and "fs w (dev_name (g_NVRAM_BACKUP_DEVICE (gl w))) = Some j" and "ikind j = Blk"
    and "fs w g_pcNVM_AllFile = Some i1" and "ikind i1 = Reg" and "fs w g_pcNVM_AllMap = Some i2" and "ikind i2 = Reg"
    and "region_files (idata j) B N k m x"
  shows "run_state (NVM_RestoreFromBinRegion_OneFile P lid f) w = run_state (NVM_CheckData_OneFile P lid f)
    (used 4 (w\<lparr>fs := (fs w)(g_pcNVM_AllFile \<mapsto> i1\<lparr>idata := x\<rparr>, g_pcNVM_AllMap \<mapsto> i2\<lparr>idata := m\<rparr>),
                gl := (gl w)\<lparr>BinRegionBlockTotalNum := int B, NvRamBlockNum := int N\<rparr>\<rparr>))"
proof -
  let ?dev = "dev_name (g_NVRAM_BACKUP_DEVICE (gl w))"
  let ?g = "(gl w)\<lparr>BinRegionBlockTotalNum := int B, NvRamBlockNum := int N\<rparr>"
  let ?d = "\<lparr>fd_path = ?dev, fd_pos = 0, fd_rd = True, fd_wr = True\<rparr>"
  have R: "length (idata j) = B * BS" "B * BS < 2 ^ 31" "N \<le> B"
    using assms(15) unfolding region_files_def Let_def by simp_all
  have br: "bin_region_blocks 1 a b \<lparr>mi_size = of_nat (length (idata j)), mi_erasesize = 131072, mi_writesize = 512\<rparr> = int B" for a b
    using bin_region_blocks_gpt [OF R(2)] by (simp add: R(1))
  have N: "to_int32 (int N) = int N" using R(2,3) by simp
  let ?w = "w\<lparr>fds := (fds w)(next_fd w + 1 \<mapsto> ?d), next_fd := next_fd w + 2, gl := ?g\<rparr>"
  have wf: "wf_world ?w"
    by (rule wf_opened [where w = w and fd = "next_fd w + 1" and d = ?d]) (use assms(1) in auto)
  have "run_state (load_region P (next_fd w + 1) 131072 512 (int N)) ?w =
    (True, ?w\<lparr>fs := (fs ?w)(g_pcNVM_AllFile \<mapsto> i1\<lparr>idata := x\<rparr>, g_pcNVM_AllMap \<mapsto> i2\<lparr>idata := m\<rparr>),
             fds := (fds ?w)(next_fd w + 1 := None), next_fd := next_fd ?w + 2\<rparr>)"
    by (rule run_load_region [where d = ?d and j = j and B = B and k = k]) (use assms wf in simp_all)
  moreover have "?w\<lparr>fs := (fs ?w)(g_pcNVM_AllFile \<mapsto> i1\<lparr>idata := x\<rparr>, g_pcNVM_AllMap \<mapsto> i2\<lparr>idata := m\<rparr>),
             fds := (fds ?w)(next_fd w + 1 := None), next_fd := next_fd ?w + 2\<rparr> =
      used 4 (w\<lparr>fs := (fs w)(g_pcNVM_AllFile \<mapsto> i1\<lparr>idata := x\<rparr>, g_pcNVM_AllMap \<mapsto> i2\<lparr>idata := m\<rparr>), gl := ?g\<rparr>)"
    by (rule world.equality) (use assms(1) in \<open>auto simp: used_def fun_eq_iff\<close>)
  ultimately have ld: "run_state (load_region P (next_fd w + 1) 131072 512 (int N)) ?w =
    (True, used 4 (w\<lparr>fs := (fs w)(g_pcNVM_AllFile \<mapsto> i1\<lparr>idata := x\<rparr>, g_pcNVM_AllMap \<mapsto> i2\<lparr>idata := m\<rparr>), gl := ?g\<rparr>))"
    by (simp only:)
  have nz: "run_state (check ((131072 :: u32) \<noteq> 0) DivByZero) v = ((), v)" for v :: "nv_globals world"
    by (simp add: check_def)
  have w1: "used 1 w = w\<lparr>next_fd := next_fd w + 1\<rparr>" by (simp add: used_def)
  have l0: "(lid < 0 \<and> f = None) = False" using assms(5) by auto
  show ?thesis
    using assms(1-4,6-10) ld
    by (simp add: NVM_RestoreFromBinRegion_OneFile_def l0 add.commute [of 2 "next_fd w"] run_bind run_ret run_Init_again run_gets run_setg run_check nz run_GetDeviceInfo
        run_open new_fd_def wants_write_def br N w1 Let_def world_order)
qed

section \<open>Properties\<close>

lemma writable_kinds: "writable w p \<longleftrightarrow> map_option ikind (fs w p) \<in> {None, Some Reg} \<and>
    (\<forall>q \<in> set (dir_prefixes [] p). map_option ikind (fs w q) \<in> {None, Some Dir})"
  by (auto simp: writable_def is_dir_def split: option.split)


text \<open>
  A region of four blocks for the sample backup: the map file in block 0, the data in block 1, the
  bitmap in block 2, the last block not for the region.
\<close>

definition sample_bin :: "nat \<Rightarrow> bytes list" where
  "sample_bin n = [le32 180 @ le32 14 @ ''....'' @ sample_map @ replicate (n - 192) (CHR 0x00),
     sample_file @ replicate (n - 14) (CHR 0x00),
     replicate 9 (CHR 0x00) @ le32 BitmapFlag @ replicate (n - 13) (CHR 0x00),
     replicate n (CHR 0x00)]"

lemma sample_bin_blocks: "200 \<le> n \<Longrightarrow> blocks n (sample_bin n)"
  by (simp add: sample_bin_def)

lemma sample_bin_block:
  assumes "200 \<le> n" and "k < 4"
  shows "block n (concat (sample_bin n)) k = sample_bin n ! k"
  using read_block [OF sample_bin_blocks [OF assms(1)], of k 0 n] blocks_nth [OF sample_bin_blocks [OF assms(1)], of k] assms(2)
  by (simp add: block_def sample_bin_def)

lemma first_good_0: "xs ! 0 = CHR 0x00 \<Longrightarrow> xs \<noteq> [] \<Longrightarrow> first_good xs k = 0"
  by (cases xs; cases k) (simp_all add: first_good_def)

lemma sample_files: "region_files (concat (sample_bin BS)) 4 3 2 sample_map sample_file"
proof -
  define n where "n = BS"
  have n: "200 \<le> n" by (simp add: n_def)
  let ?d = "concat (sample_bin n)"
  let ?b2 = "replicate 9 (CHR 0x00) @ le32 BitmapFlag @ replicate (n - 13) (CHR 0x00)"
  let ?mb = "le32 180 @ le32 14 @ ''....'' @ sample_map @ replicate (n - 192) (CHR 0x00)"
  have b: "block n ?d 1 = sample_file @ replicate (n - 14) (CHR 0x00)" "block n ?d 2 = ?b2" "block n ?d 0 = ?mb"
    using n by (simp_all add: sample_bin_block) (simp_all add: sample_bin_def)
  have sf: "sample_file \<noteq> []" "\<forall>j. 2 < j \<and> j < (3::nat) \<longrightarrow> Q j" for Q
    by (auto simp: sample_file_def)
  have n4: "4 * n < 2 ^ 31" by (simp add: n_def)
  have l: "length ?d = 4 * n"
    using length_concat_blocks [OF sample_bin_blocks [OF n]] by (simp add: sample_bin_def)
  have u: "un32 ?d = 180" by (simp add: sample_bin_def)
  have r: "reserve_pos 180 512 131072 = 0" by (simp add: reserve_pos_def)
  have t: "take 3 ?b2 = replicate 3 (CHR 0x00)" by simp
  have f: "flagged 3 ?b2" by (simp add: flagged_def triple_def)
  have g: "first_good (replicate 3 (CHR 0x00)) 2 = 0" by (rule first_good_0) simp_all
  have gs: "goods (replicate 3 (CHR 0x00)) 1 2 = [1]" by (simp add: goods_def upt_conv_Cons)
  have mb: "take n ?d = ?mb" using b(3) by (simp add: block_def)
  show ?thesis
    unfolding region_files_def Let_def n_def [symmetric] u r
    using n n4 l f gs sf by (simp add: b b(1) [simplified] t [simplified] g gs [simplified] mb)
qed


end
