(* ===== verification/Reset.thy ===== *)
theory Reset
  imports VerStore BinRun
begin

text \<open>
  Putting a file back to its default content (\<open>NVM_ResetFileToDefault\<close>) and protecting it
  (\<open>NVM_ProtectDataFile\<close>), both of \<open>nvram/libnvram.c\<close>.  The default value of an entry is a
  pointer of which the table does not say how many bytes it has: reading past them is recorded as
  \<open>OutOfBounds\<close>.
\<close>

section \<open>Resetting\<close>

definition rec_total :: "tcfg_file \<Rightarrow> int" where
  "rec_total e = to_int32 (i4RecSize e * i4RecNum e)"

definition reset_open :: "plat \<Rightarrow> path \<Rightarrow> int nv" where
  "reset_open P p = do {
     iFileDesc \<leftarrow> sys_open p [O_CREAT, O_TRUNC, O_RDWR] mode660;
     if iFileDesc = -1 then open_file_with_dirs P p [O_CREAT, O_RDWR] mode660 else ret iFileDesc }"

text \<open>
  \<open>write(iFileDesc, pDefualtVaule, i4RecSize * i4RecNum)\<close>: a NULL pointer fails and stores
  nothing.
\<close>

definition write_default :: "plat \<Rightarrow> int \<Rightarrow> tcfg_file \<Rightarrow> int nv" where
  "write_default P fd e = (case pDefualtVaule e of
     None \<Rightarrow> sys_write fd []
   | Some d \<Rightarrow> do {
       check (rec_total e \<le> int (length d)) OutOfBounds;
       sys_write fd (take (nat (rec_total e)) (d @ garbage P (nat (rec_total e)))) })"

primrec write_times :: "plat \<Rightarrow> int \<Rightarrow> tcfg_file \<Rightarrow> nat \<Rightarrow> unit nv" where
  "write_times P fd e 0 = ret ()"
| "write_times P fd e (Suc n) = do { _ \<leftarrow> write_default P fd e; write_times P fd e n }"

text \<open>The \<open>switch\<close> on the type of the default value.\<close>

definition reset_content :: "plat \<Rightarrow> tcfg_file \<Rightarrow> bool nv" where
  "reset_content P e = do {
     iFileDesc \<leftarrow> reset_open P (cFileName e);
     if iFileDesc = -1 then ret False
     else case stDefualType e of
       SIGNLE_DEFUALT_REC \<Rightarrow> do {
         _ \<leftarrow> write_default P iFileDesc e;
         _ \<leftarrow> sys_close iFileDesc;
         ret True }
     | MULTIPLE_DEFUALT_REC \<Rightarrow>
         if pDefualtVaule e = None \<or> i4RecNum e < 2
         then do { _ \<leftarrow> sys_close iFileDesc; ret False }
         else do {
           write_times P iFileDesc e (nat (i4RecNum e));
           _ \<leftarrow> sys_close iFileDesc;
           ret True }
     | _ \<Rightarrow> do {
         m \<leftarrow> sys_malloc (rec_total e);
         if \<not> m then do { _ \<leftarrow> sys_close iFileDesc; ret False }
         else do {
           let databuf = replicate (nat (rec_total e)) (if stDefualType e = DEFAULT_ZERO then CHR 0x00 else CHR 0xFF);
           _ \<leftarrow> sys_write iFileDesc databuf;
           sys_free;
           _ \<leftarrow> sys_close iFileDesc;
           ret True } } }"

definition NVM_ResetFileToDefault :: "plat \<Rightarrow> int \<Rightarrow> bool nv" where
  "NVM_ResetFileToDefault P file_lid = do {
     v \<leftarrow> NVM_CheckVerFile P True;
     g \<leftarrow> (if \<not> v then NVM_GenerateFileVer P True else ret True);
     if \<not> g then ret False
     else case NVM_GetCfgFileTable P file_lid of
       None \<Rightarrow> ret False
     | Some pCfgFielTable \<Rightarrow>
         if file_lid = iFileVerInfoLID P then do { g \<leftarrow> NVM_GenerateFileVer P True; ret g }
         else do {
           let iRealFileLid = real_lid P file_lid;
           check (in_table pCfgFielTable iRealFileLid) OutOfBounds;
           let e = entry pCfgFielTable iRealFileLid;
           ok \<leftarrow> reset_content P e;
           if \<not> ok then ret False
           else do {
             _ \<leftarrow> NVM_UpdateFileVerNo P file_lid VerUpdate;
             if in_lid_list (aPerformance P) file_lid then ret True
             else do {
               c \<leftarrow> NVM_SetCheckNo P (Some (cFileName e)) False;
               ret c } } } }"

section \<open>Protecting\<close>

text \<open>Is the file, by base name and lid, in the list of files of the binary region?\<close>

definition backed_up :: "plat \<Rightarrow> int \<Rightarrow> tcfg_file \<Rightarrow> bool" where
  "backed_up P file_lid e =
     (let filename = (case after_last_slash (cFileName e) of None \<Rightarrow> [] | Some b \<Rightarrow> dev_name b)
      in list_ex (\<lambda>(n, l). filename = n \<and> file_lid = l) (aBackupToBinRegion P))"

text \<open>The label \<open>restore\<close>.\<close>

definition protect_restore :: "plat \<Rightarrow> int \<Rightarrow> tcfg_file \<Rightarrow> int nv" where
  "protect_restore P file_lid e = do {
     let restore_flag = backed_up P file_lid e;
     mutex_lock recoverlock;
     ok \<leftarrow> (if restore_flag then NVM_RestoreFromBinRegion_OneFile P file_lid None else ret False);
     mutex_unlock recoverlock;
     if \<not> restore_flag \<or> restore_flag \<and> \<not> ok
     then do {
       r \<leftarrow> NVM_ResetFileToDefault P file_lid;
       ret (if r then 1 else 0) }
     else ret 1 }"

definition NVM_ProtectDataFile :: "plat \<Rightarrow> int \<Rightarrow> bool \<Rightarrow> int nv" where
  "NVM_ProtectDataFile P file_lid Setflag = do {
     v \<leftarrow> NVM_CheckVerFile P True;
     _ \<leftarrow> (if \<not> v then NVM_GenerateFileVer P True else ret True);
     case NVM_GetCfgFileTable P file_lid of
       None \<Rightarrow> ret (-1)
     | Some pCfgFielTable \<Rightarrow>
         if file_lid = iFileVerInfoLID P then do { _ \<leftarrow> NVM_GenerateFileVer P True; ret (-1) }
         else do {
           let iRealFileLid = real_lid P file_lid;
           let e = entry pCfgFielTable iRealFileLid;
           CheckFileSize_flag \<leftarrow> NVM_CheckFileSize iRealFileLid pCfgFielTable;
           if CheckFileSize_flag = -1 then protect_restore P file_lid e
           else if Setflag \<or> CheckFileSize_flag = 0
           then do {
             ok \<leftarrow> NVM_SetCheckNo P (Some (cFileName e)) (CheckFileSize_flag \<noteq> 0);
             ret (if ok then 1 else 0) }
           else do {
             ok \<leftarrow> NVM_CheckFile P (Some (cFileName e));
             if \<not> ok then protect_restore P file_lid e else ret 1 } } }"

section \<open>Resources\<close>

lemma rs_reset_open:
  assumes "dirlock \<notin> rlocks A" and "Q (-1) A" and "\<And>fd. 0 < fd \<Longrightarrow> fd \<notin> rfds A \<Longrightarrow> Q fd (A\<lparr>rfds := insert fd (rfds A)\<rparr>)"
  shows "rspec A (reset_open P p) Q"
  unfolding reset_open_def using assms by (auto intro!: rs)

lemma neutral_write_default: "neutral {} (write_default P fd e)"
  by (rule neutralI) (auto simp: write_default_def intro!: rs)

lemma neutral_write_times: "neutral {} (write_times P fd e n)"
  by (induction n) (auto intro: neutral_bind neutral_ret neutral_write_default)

lemma neutral_reset_content: "neutral {dirlock} (reset_content P e)"
  by (rule neutralI)
     (auto simp: reset_content_def split: file_default_type.split
       intro!: rs rs_reset_open neutral_rs [OF neutral_write_default] neutral_rs [OF neutral_write_times])

lemma neutral_ResetFileToDefault: "neutral {dirlock, generateFileVerlock} (NVM_ResetFileToDefault P lid)"
  by (rule neutralI)
     (auto simp: NVM_ResetFileToDefault_def Let_def intro!: rs neutral_rs [OF neutral_CheckVerFile]
       neutral_rs [OF neutral_GenerateFileVer] neutral_rs [OF neutral_reset_content] neutral_rs [OF neutral_UpdateFileVerNo]
       neutral_rs [OF neutral_SetCheckNo])

section \<open>Runs of a reset\<close>

text \<open>
  What the default values of the tables promise: a positive size, a value of at least that many
  bytes where one is used, and for several records a count of at least two.
\<close>

definition default_ok :: "tcfg_file \<Rightarrow> bool" where
  "default_ok e \<longleftrightarrow> 0 \<le> i4RecSize e \<and> 0 \<le> i4RecNum e \<and> i4RecNum e * (i4RecSize e * i4RecNum e) < 2 ^ 31 - 2 \<and>
     i4RecSize e * i4RecNum e < 2 ^ 31 - 2 \<and>
     (stDefualType e \<in> {SIGNLE_DEFUALT_REC, MULTIPLE_DEFUALT_REC} \<longrightarrow>
        (case pDefualtVaule e of None \<Rightarrow> False | Some d \<Rightarrow> i4RecSize e * i4RecNum e \<le> int (length d))) \<and>
     (stDefualType e = MULTIPLE_DEFUALT_REC \<longrightarrow> 2 \<le> i4RecNum e)"

definition default_data :: "tcfg_file \<Rightarrow> bytes" where
  "default_data e = (let n = nat (i4RecSize e * i4RecNum e); d = (case pDefualtVaule e of None \<Rightarrow> [] | Some d \<Rightarrow> take n d)
     in case stDefualType e of
       DEFAULT_ZERO \<Rightarrow> replicate n (CHR 0x00)
     | DEFAULT_FF \<Rightarrow> replicate n (CHR 0xFF)
     | SIGNLE_DEFUALT_REC \<Rightarrow> d
     | MULTIPLE_DEFUALT_REC \<Rightarrow> concat (replicate (nat (i4RecNum e)) d))"

text \<open>The default content has exactly the size \<open>NVM_CheckFileSize\<close> asks for.\<close>

lemma length_default:
  assumes "default_ok e"
  shows "int (length (default_data e)) = table_size e" and "table_size e < 2 ^ 31 - 2"
proof -
  let ?n = "i4RecSize e * i4RecNum e"
  have n: "0 \<le> ?n" "?n < 2 ^ 31 - 2" "i4RecNum e * ?n < 2 ^ 31 - 2" "0 \<le> i4RecNum e"
    using assms by (simp_all add: default_ok_def)
  have nn: "0 \<le> i4RecNum e * ?n" using n by simp
  have c: "i4RecNum e * i4RecSize e = ?n" "i4RecNum e * i4RecNum e * i4RecSize e = i4RecNum e * ?n"
    by (simp_all add: ac_simps)
  have t: "to_int32 (i4RecNum e * i4RecSize e) = ?n" "to_int32 (i4RecNum e * i4RecNum e * i4RecSize e) = i4RecNum e * ?n"
    unfolding c by (intro to_int32_small; use n(1-3) nn in linarith)+
  have l: "length (concat (replicate k (d :: bytes))) = k * length d" for k d
    by (induction k) simp_all
  have lv: "length (case pDefualtVaule e of None \<Rightarrow> [] | Some d \<Rightarrow> take (nat ?n) d) = nat ?n"
    if ty: "stDefualType e \<in> {SIGNLE_DEFUALT_REC, MULTIPLE_DEFUALT_REC}"
  proof -
    obtain d where "pDefualtVaule e = Some d" "?n \<le> int (length d)"
      using assms ty by (cases "pDefualtVaule e") (auto simp: default_ok_def)
    moreover from this n(1) have "nat ?n \<le> length d" by linarith
    ultimately show ?thesis by simp
  qed
  have p: "int (nat (i4RecNum e) * nat ?n) = i4RecNum e * ?n"
    using n(1,4) by (simp only: of_nat_mult nat_0_le)
  show "int (length (default_data e)) = table_size e"
    using n(1,4) lv p by (cases "stDefualType e") (simp_all add: default_data_def table_size_def t l Let_def nat_mult_distrib del: of_nat_mult)
  show "table_size e < 2 ^ 31 - 2"
    using n by (cases "stDefualType e") (simp_all add: table_size_def t)
qed

lemma rec_total_ok:
  assumes "default_ok e"
  shows "rec_total e = i4RecSize e * i4RecNum e" and "0 \<le> i4RecSize e * i4RecNum e"
proof -
  show n: "0 \<le> i4RecSize e * i4RecNum e" using assms by (simp add: default_ok_def)
  have "i4RecSize e * i4RecNum e < 2 ^ 31 - 2" using assms by (simp add: default_ok_def)
  then show "rec_total e = i4RecSize e * i4RecNum e" unfolding rec_total_def using n by (intro to_int32_small) simp_all
qed

lemma open_reset:
  assumes "wf_world w" and "faults w = []" and "dirlock \<notin> locks w" and "length p < 4096" and "writable w p"
  obtains f i where
    "run_state (reset_open P p) w =
       (next_fd w, w\<lparr>fs := f, fds := (fds w)(next_fd w \<mapsto> new_fd p [O_RDWR]), next_fd := next_fd w + 1\<rparr>)"
    and "f p = Some i" and "ikind i = Reg" and "idata i = []"
    and "\<forall>q. q \<noteq> p \<and> (fs w p = None \<longrightarrow> q \<notin> set (dir_prefixes [] p)) \<longrightarrow> f q = fs w q"
proof -
  have n: "new_fd p [O_CREAT, O_TRUNC, O_RDWR] = new_fd p [O_RDWR]" "new_fd p [O_CREAT, O_RDWR] = new_fd p [O_RDWR]"
    by (simp_all add: new_fd_def wants_write_def)
  have d: "\<forall>q \<in> set (dir_prefixes [] p). fs w q = None \<or> is_dir (fs w) q"
    using assms(5) by (simp add: writable_def)
  consider j where "fs w p = Some j" "ikind j = Reg" | "fs w p = None" "dir_exists (fs w) (parent_dir p)"
    | "fs w p = None" "\<not> dir_exists (fs w) (parent_dir p)"
    using assms(5) by (auto simp: writable_def)
  then show ?thesis
  proof cases
    case 1
    show ?thesis
      by (rule that [of "(fs w)(p \<mapsto> j\<lparr>idata := []\<rparr>)" "j\<lparr>idata := []\<rparr>"])
         (use assms(1,2) 1 in \<open>simp_all add: reset_open_def run_bind run_ret run_open_trunc n\<close>)
  next
    case 2
    show ?thesis
      by (rule that [of "(fs w)(p \<mapsto> new_inode Reg mode660)" "new_inode Reg mode660"])
         (use assms(1,2) 2 in \<open>simp_all add: reset_open_def run_bind run_ret run_open_create n, simp_all add: new_inode_def\<close>)
  next
    case 3
    have o: "run_state (sys_open p [O_CREAT, O_TRUNC, O_RDWR] mode660) w = (-1, w)"
      using assms(2) 3 by (simp add: sys_open_def)
    obtain f where f: "run_state (open_file_with_dirs P p [O_CREAT, O_RDWR] mode660) w =
       (next_fd w, w\<lparr>fs := f, fds := (fds w)(next_fd w \<mapsto> new_fd p [O_CREAT, O_RDWR]), next_fd := next_fd w + 1\<rparr>)"
      "f p = Some \<lparr>ikind = Reg, idata = [], iuid = 0, igid = path_group P p, iperm = mode660\<rparr>"
      "\<forall>q. q \<noteq> p \<and> q \<notin> set (dir_prefixes [] p) \<longrightarrow> f q = fs w q"
      by (rule open_new_file [OF assms(1-4) _ 3(1) d, of "[O_CREAT, O_RDWR]" P mode660]) auto
    show ?thesis
      by (rule that [of f "\<lparr>ikind = Reg, idata = [], iuid = 0, igid = path_group P p, iperm = mode660\<rparr>"]) (use f 3 in \<open>simp_all add: reset_open_def run_bind o n\<close>)
  qed
qed

lemma run_write_default:
  assumes "appends w fd d i" and "default_ok e" and "pDefualtVaule e = Some v" and "i4RecSize e * i4RecNum e \<le> int (length v)"
  shows "\<exists>r. run_state (write_default P fd e) w = (r, app w fd d i (take (nat (i4RecSize e * i4RecNum e)) v))"
proof -
  have "nat (i4RecSize e * i4RecNum e) \<le> length v" using assms(4) by simp
  then show ?thesis
    using assms by (simp add: write_default_def rec_total_ok run_bind run_check run_write_app)
qed

lemma run_write_times:
  assumes "appends w fd d i" and "default_ok e" and "pDefualtVaule e = Some v" and "i4RecSize e * i4RecNum e \<le> int (length v)"
  shows "run_state (write_times P fd e n) w =
    ((), app w fd d i (concat (replicate n (take (nat (i4RecSize e * i4RecNum e)) v))))"
  using assms(1)
proof (induction n arbitrary: w d i)
  case 0
  then show ?case by (simp add: run_ret app_def appends_def fun_upd_idem)
next
  case (Suc n)
  let ?x = "take (nat (i4RecSize e * i4RecNum e)) v"
  obtain r where r: "run_state (write_default P fd e) w = (r, app w fd d i ?x)"
    using run_write_default [OF Suc.prems assms(2-4)] by blast
  show ?case
    using Suc.IH [OF appends_app [OF Suc.prems, of ?x]] by (simp add: run_bind r del: length_take)
qed

lemma run_reset_content:
  assumes "wf_world w" and "faults w = []" and "dirlock \<notin> locks w" and "entry_ok e" and "writable w (cFileName e)"
    and "default_ok e"
  obtains f i where "run_state (reset_content P e) w = (True, used 1 (w\<lparr>fs := f\<rparr>))"
    and "f (cFileName e) = Some i" and "ikind i = Reg" and "idata i = default_data e"
    and "\<forall>q. q \<noteq> cFileName e \<and> (fs w (cFileName e) = None \<longrightarrow> q \<notin> set (dir_prefixes [] (cFileName e))) \<longrightarrow>
      f q = fs w q"
proof -
  let ?p = "cFileName e"
  have len: "length ?p < 4096" using assms(4) by (simp add: entry_ok_def)
  obtain f i where o: "run_state (reset_open P ?p) w =
       (next_fd w, w\<lparr>fs := f, fds := (fds w)(next_fd w \<mapsto> new_fd ?p [O_RDWR]), next_fd := next_fd w + 1\<rparr>)"
    and f: "f ?p = Some i" "ikind i = Reg" "idata i = []" "\<forall>q. q \<noteq> ?p \<and> (fs w ?p = None \<longrightarrow> q \<notin> set (dir_prefixes [] ?p)) \<longrightarrow> f q = fs w q"
    by (rule open_reset [OF assms(1-3) len assms(5)])
  let ?d = "new_fd ?p [O_RDWR]"
  define w1 where "w1 = w\<lparr>fs := f, fds := (fds w)(next_fd w \<mapsto> ?d), next_fd := next_fd w + 1\<rparr>"
  have a: "appends w1 (next_fd w) ?d i"
    using assms(2) f by (simp add: appends_def w1_def new_fd_def wants_write_def)
  have nx: "next_fd w \<noteq> -1" using assms(1) by simp
  have cl: "run_state (sys_close (next_fd w)) (app w1 (next_fd w) ?d i x) =
      (0, used 1 (w\<lparr>fs := f(?p \<mapsto> i\<lparr>idata := x\<rparr>)\<rparr>))" for x
    using assms(1,2) f(3) by (simp add: run_close app_def w1_def new_fd_def used_def)
  have n0: "nat (i4RecSize e * i4RecNum e) = nat (rec_total e)" "0 \<le> rec_total e"
    using rec_total_ok [OF assms(6)] by simp_all
  have fin: "run_state (reset_content P e) w = (True, used 1 (w\<lparr>fs := f(?p \<mapsto> i\<lparr>idata := default_data e\<rparr>)\<rparr>))"
  proof (cases "stDefualType e")
    case SIGNLE_DEFUALT_REC
    then obtain v where v: "pDefualtVaule e = Some v" "i4RecSize e * i4RecNum e \<le> int (length v)"
      using assms(6) by (auto simp: default_ok_def split: option.splits)
    obtain r where "run_state (write_default P (next_fd w) e) w1 = (r, app w1 (next_fd w) ?d i (take (nat (i4RecSize e * i4RecNum e)) v))"
      using run_write_default [OF a assms(6) v] by blast
    then show ?thesis
      using SIGNLE_DEFUALT_REC nx v
      by (simp add: reset_content_def run_bind run_ret o w1_def [symmetric] cl default_data_def)
  next
    case MULTIPLE_DEFUALT_REC
    then obtain v where v: "pDefualtVaule e = Some v" "i4RecSize e * i4RecNum e \<le> int (length v)" and m: "2 \<le> i4RecNum e"
      using assms(6) by (auto simp: default_ok_def split: option.splits)
    show ?thesis
      using MULTIPLE_DEFUALT_REC nx v m run_write_times [OF a assms(6) v]
      by (simp add: reset_content_def run_bind run_ret o w1_def [symmetric] cl default_data_def)
  next
    case DEFAULT_ZERO
    have "run_state sys_free (app (w1\<lparr>heap := heap w1 + 1\<rparr>) (next_fd w) ?d i x) = ((), app w1 (next_fd w) ?d i x)" for x
      by (simp add: run_free app_def world_order)
    moreover have "appends (w1\<lparr>heap := heap w1 + 1\<rparr>) (next_fd w) ?d i" using a by (simp add: appends_def)
    moreover have "faults w1 = []" using assms(2) by (simp add: w1_def)
    ultimately show ?thesis
      using DEFAULT_ZERO nx n0
      by (simp add: reset_content_def run_bind run_ret o w1_def [symmetric] cl default_data_def run_malloc run_write_app Let_def)
  next
    case DEFAULT_FF
    have "run_state sys_free (app (w1\<lparr>heap := heap w1 + 1\<rparr>) (next_fd w) ?d i x) = ((), app w1 (next_fd w) ?d i x)" for x
      by (simp add: run_free app_def world_order)
    moreover have "appends (w1\<lparr>heap := heap w1 + 1\<rparr>) (next_fd w) ?d i" using a by (simp add: appends_def)
    moreover have "faults w1 = []" using assms(2) by (simp add: w1_def)
    ultimately show ?thesis
      using DEFAULT_FF nx n0
      by (simp add: reset_content_def run_bind run_ret o w1_def [symmetric] cl default_data_def run_malloc run_write_app Let_def)
  qed
  show ?thesis
    by (rule that [OF fin, of "i\<lparr>idata := default_data e\<rparr>"]) (use f in simp_all)
qed

text \<open>The check pair a reset file gets, unless it is on the list of files that are not checked.\<close>

definition trailer :: "plat \<Rightarrow> int \<Rightarrow> bytes \<Rightarrow> bytes" where
  "trailer P lid d = (if in_lid_list (aPerformance P) lid then [] else [CHR 0xAA, c8 (check_no d)])"

lemma kept_same:
  assumes "kept P w" and "wf_world w'" and "faults w' = []" and "locks w' = locks w" and "fs w' (ver_path P) = fs w (ver_path P)"
  shows "kept P w'"
  using assms unfolding kept_def ver_table_def by auto

lemma ver_path_reg:
  assumes "kept P w"
  obtains i where "fs w (ver_path P) = Some i" and "ikind i = Reg"
  using assms by (auto simp: kept_def ver_table_def)

lemma run_CheckVerFile_kept: "kept P w \<Longrightarrow> run_state (NVM_CheckVerFile P True) w = (True, w)"
  by (rule ver_path_reg, assumption) (simp add: NVM_CheckVerFile_def run_bind run_stat run_ret kept_def)

lemma cmp_same:
  assumes "kept P w" and "kept P w'" and "fs w' (ver_path P) = fs w (ver_path P)" and "lid_ok P j"
  shows "fst (run_state (NVM_CmpFileVerNo P j) w') = fst (run_state (NVM_CmpFileVerNo P j) w)"
proof -
  obtain bl where bl: "ver_table P w bl" "in_order P bl" by (rule kept_table [OF assms(1)])
  then have "ver_table P w' bl" using assms(3) by (simp add: ver_table_def)
  then show ?thesis using run_cmp_kept [OF assms(1,4) bl] run_cmp_kept [OF assms(2,4) _ bl(2)] by simp
qed

lemma cmp_updated:
  "kept P w \<Longrightarrow> lid_ok P lid \<Longrightarrow> lid_ok P j \<Longrightarrow>
   fst (run_state (NVM_CmpFileVerNo P j) (snd (run_state (NVM_UpdateFileVerNo P lid VerUpdate) w))) =
     (j = lid \<or> fst (run_state (NVM_CmpFileVerNo P j) w))"
  using vs.updates_current [of P w "[lid]" j] by (auto simp: update_ver_def current_ver_def)

lemma run_Reset:
  assumes "kept P w" and "lid_ok P lid" and "lid \<noteq> iFileVerInfoLID P" and "dirlock \<notin> locks w"
    and "default_ok (file_of P lid)" and "writable w (cFileName (file_of P lid))" and "cFileName (file_of P lid) \<noteq> ver_path P"
  obtains w' i where "run_state (NVM_ResetFileToDefault P lid) w = (True, w')" and "kept P w'"
    and "\<forall>j. lid_ok P j \<longrightarrow>
      fst (run_state (NVM_CmpFileVerNo P j) w') = (j = lid \<or> fst (run_state (NVM_CmpFileVerNo P j) w))"
    and "fs w' (cFileName (file_of P lid)) = Some i" and "ikind i = Reg"
    and "idata i = default_data (file_of P lid) @ trailer P lid (default_data (file_of P lid))"
    and "fds w' = fds w" and "heap w' = heap w" and "locks w' = locks w" and "ubs w' = ubs w" and "gl w' = gl w"
    and "\<forall>q. q \<noteq> cFileName (file_of P lid) \<and> q \<noteq> ver_path P \<and>
        (fs w (cFileName (file_of P lid)) = None \<longrightarrow> q \<notin> set (dir_prefixes [] (cFileName (file_of P lid)))) \<longrightarrow>
      fs w' q = fs w q"
proof -
  let ?e = "file_of P lid"
  let ?p = "cFileName ?e" and ?v = "ver_path P"
  let ?d = "default_data ?e"
  have e: "entry_ok ?e" by (rule file_ok [OF assms(2)])
  obtain t where t: "NVM_GetCfgFileTable P lid = Some t" "in_table t (real_lid P lid)" "entry t (real_lid P lid) = ?e"
    by (rule table_lookup [OF assms(2)])
  have k: "wf_world w" "faults w = []" using assms(1) by (simp_all add: kept_def)
  obtain j where j: "fs w ?v = Some j" "ikind j = Reg" by (rule ver_path_reg [OF assms(1)])
  have vp: "?v \<notin> set (dir_prefixes [] ?p)"
    using assms(6) j by (auto simp: writable_def is_dir_def)
  obtain f i where c: "run_state (reset_content P ?e) w = (True, used 1 (w\<lparr>fs := f\<rparr>))"
    and f: "f ?p = Some i" "ikind i = Reg" "idata i = ?d"
    and fo: "\<forall>q. q \<noteq> ?p \<and> (fs w ?p = None \<longrightarrow> q \<notin> set (dir_prefixes [] ?p)) \<longrightarrow> f q = fs w q"
    by (rule run_reset_content [OF k assms(4) e assms(6,5)])
  let ?w1 = "used 1 (w\<lparr>fs := f\<rparr>)"
  have wf1: "wf_world ?w1" by (rule wf_later [where w = w]) (use k in simp_all)
  have k1: "kept P ?w1"
    by (rule kept_same [OF assms(1) wf1]) (use k fo vp assms(7) in simp_all)
  obtain bl where bl: "ver_table P ?w1 bl" "in_order P bl" by (rule kept_table [OF k1])
  let ?cl = "bl[Suc (nat lid) := mkrec ?e]"
  let ?w2 = "used 2 (with_table P ?w1 ?cl)"
  note u = run_update_kept [OF k1 assms(2) bl]
  note u2 = updated_table [OF k1 assms(2) bl]
  obtain j2 where f2: "fs ?w2 = f(?v \<mapsto> j2)" "ikind j2 = Reg"
    using fo vp assms(7) j by (auto simp: with_table_def)
  have p2: "fs ?w2 ?p = Some i" using f f2 assms(7) by simp
  have o2: "fds ?w2 = fds w" "heap ?w2 = heap w" "locks ?w2 = locks w" "ubs ?w2 = ubs w" "gl ?w2 = gl w" "faults ?w2 = []"
    using k by (simp_all add: with_table_def split: option.split)
  have k2: "kept P ?w2" by (rule u2(3))
  have wf2: "wf_world ?w2" using k2 by (simp add: kept_def)
  have cm2: "fst (run_state (NVM_CmpFileVerNo P j) ?w2) = (j = lid \<or> fst (run_state (NVM_CmpFileVerNo P j) w))"
    if "lid_ok P j" for j
    using cmp_updated [OF k1 assms(2) that] cmp_same [OF assms(1) k1 _ that] fo vp assms(7) by (simp add: u del: used_fs)
  have small: "length ?d < 2 ^ 32" using length_default [OF assms(5)] by simp
  show ?thesis
  proof (cases "in_lid_list (aPerformance P) lid")
    case True
    show ?thesis
    proof (rule that [of ?w2 i])
      show "run_state (NVM_ResetFileToDefault P lid) w = (True, ?w2)"
        using True assms(3) t
        by (simp add: NVM_ResetFileToDefault_def run_bind run_ret run_CheckVerFile_kept [OF assms(1)] run_check c u Let_def del: used_fs)
    qed (use True k2 cm2 p2 f o2 fo f2 in \<open>simp_all add: trailer_def\<close>)
  next
    case False
    let ?i3 = "i\<lparr>idata := ?d @ [CHR 0xAA, c8 (check_no ?d)]\<rparr>"
    let ?w3 = "used 2 (?w2\<lparr>fs := (fs ?w2)(?p \<mapsto> ?i3)\<rparr>)"
    have s: "run_state (NVM_SetCheckNo P (Some ?p) False) ?w2 = (True, ?w3)"
      using run_SetCheckNo [OF wf2 o2(6) p2 f(2), of False P] small f(3) by (simp add: covered_def)
    have wf3: "wf_world ?w3" by (rule wf_later [where w = ?w2]) (use wf2 in simp_all)
    have fv: "fs ?w3 ?v = fs ?w2 ?v" using assms(7) by simp
    have k3: "kept P ?w3" by (rule kept_same [OF k2 wf3 _ _ fv]) (use o2 in simp_all)
    have cm: "fst (run_state (NVM_CmpFileVerNo P j) ?w3) = (j = lid \<or> fst (run_state (NVM_CmpFileVerNo P j) w))"
      if "lid_ok P j" for j
      using cmp_same [OF k2 k3 fv that] cm2 [OF that] by simp
    show ?thesis
    proof (rule that [of ?w3 ?i3])
      show "run_state (NVM_ResetFileToDefault P lid) w = (True, ?w3)"
        using False assms(3) t
        by (simp add: NVM_ResetFileToDefault_def run_bind run_ret run_CheckVerFile_kept [OF assms(1)] run_check c u s Let_def del: used_fs)
    qed (use False k3 cm p2 f o2 fo f2 in \<open>simp_all add: trailer_def\<close>)
  qed
qed

section \<open>Properties of a reset\<close>

text \<open>
  \<open>NVM_ResetFileToDefault\<close> puts the default content of its table entry into the file, with a
  valid check pair unless the file is on the list of unchecked files, makes the file current in the
  version file, and changes no other file.
\<close>

theorem ResetFileToDefault_default:
  assumes "kept P w" and "lid_ok P lid" and "lid \<noteq> iFileVerInfoLID P" and "dirlock \<notin> locks w"
    and "default_ok (file_of P lid)" and "writable w (cFileName (file_of P lid))" and "cFileName (file_of P lid) \<noteq> ver_path P"
  shows "let (r, w') = run_state (NVM_ResetFileToDefault P lid) w; p = cFileName (file_of P lid); d = default_data (file_of P lid)
    in r \<and> kept P w' \<and>
       (\<forall>j. lid_ok P j \<longrightarrow>
          fst (run_state (NVM_CmpFileVerNo P j) w') = (j = lid \<or> fst (run_state (NVM_CmpFileVerNo P j) w))) \<and>
       (\<exists>i. fs w' p = Some i \<and> ikind i = Reg \<and>
          idata i = (if in_lid_list (aPerformance P) lid then d else d @ [CHR 0xAA, c8 (check_no d)])) \<and>
       (\<forall>q. q \<noteq> p \<and> q \<noteq> ver_path P \<and> (fs w p = None \<longrightarrow> q \<notin> set (dir_prefixes [] p)) \<longrightarrow> fs w' q = fs w q)"
proof -
  obtain w' i where r: "run_state (NVM_ResetFileToDefault P lid) w = (True, w')" "kept P w'"
      "\<forall>j. lid_ok P j \<longrightarrow>
        fst (run_state (NVM_CmpFileVerNo P j) w') = (j = lid \<or> fst (run_state (NVM_CmpFileVerNo P j) w))"
      "fs w' (cFileName (file_of P lid)) = Some i" "ikind i = Reg"
      "idata i = default_data (file_of P lid) @ trailer P lid (default_data (file_of P lid))"
      "\<forall>q. q \<noteq> cFileName (file_of P lid) \<and> q \<noteq> ver_path P \<and>
        (fs w (cFileName (file_of P lid)) = None \<longrightarrow> q \<notin> set (dir_prefixes [] (cFileName (file_of P lid)))) \<longrightarrow>
        fs w' q = fs w q"
    by (rule run_Reset [OF assms])
  then show ?thesis by (simp add: trailer_def)
qed

lemma sample_defaults: "default_ok e_wifi" "default_ok e_bt" "file_of P0 1 = e_wifi" "file_of P0 2 = e_bt"
    "default_data e_bt = ''xyzuvwxyzuvw''" "aPerformance P0 = [(''BT_Addr'', 2)]" "iFileVerInfoLID P0 = 0"
  by (simp_all add: default_ok_def e_wifi_def e_bt_def file_of_def all_files_def P0_def default_data_def numeral_2_eq_2)

theorem ResetFileToDefault_default_witness:
  "map_option idata (fs (snd (run_state (NVM_ResetFileToDefault P0 2) sample_ver)) ''/nvdata/BT_Addr'') = Some ''xyzuvwxyzuvw''"
proof -
  have f: "cFileName e_bt = ''/nvdata/BT_Addr''" by (simp add: e_bt_def)
  have w: "writable sample_ver ''/nvdata/BT_Addr''" by (simp add: writable_def is_dir_def new_inode_def)
  have "let (r, w') = run_state (NVM_ResetFileToDefault P0 2) sample_ver; p = cFileName (file_of P0 2);
        d = default_data (file_of P0 2)
    in r \<and> kept P0 w' \<and>
       (\<forall>j. lid_ok P0 j \<longrightarrow>
          fst (run_state (NVM_CmpFileVerNo P0 j) w') = (j = 2 \<or> fst (run_state (NVM_CmpFileVerNo P0 j) sample_ver))) \<and>
       (\<exists>i. fs w' p = Some i \<and> ikind i = Reg \<and>
          idata i = (if in_lid_list (aPerformance P0) 2 then d else d @ [CHR 0xAA, c8 (check_no d)])) \<and>
       (\<forall>q. q \<noteq> p \<and> q \<noteq> ver_path P0 \<and> (fs sample_ver p = None \<longrightarrow> q \<notin> set (dir_prefixes [] p)) \<longrightarrow> fs w' q = fs sample_ver q)"
    by (rule ResetFileToDefault_default [OF kept_sample lid_ok_P0(3)])
       (use w in \<open>simp_all add: sample_defaults f ver_path_P0 del: disk_sel(9)\<close>)
  then show ?thesis
    by (auto simp: sample_defaults f in_lid_list_def case_prod_unfold Let_def simp del: disk_sel(9))
qed

text \<open>
  Whatever calls fail, a reset closes every descriptor, frees every buffer once and releases
  every mutex.
\<close>

theorem ResetFileToDefault_gives_back:
  assumes "wf_world w" and "locks w \<inter> {dirlock, generateFileVerlock} = {}"
  shows "let w' = snd (run_state (NVM_ResetFileToDefault P lid) w) in
    dom (fds w') = dom (fds w) \<and> heap w' = heap w \<and> locks w' = locks w \<and>
    (SelfDeadlock \<in> set (ubs w') \<or> DoubleFree \<in> set (ubs w')) = (SelfDeadlock \<in> set (ubs w) \<or> DoubleFree \<in> set (ubs w))"
  using neutral_run [OF neutral_ResetFileToDefault assms, of P lid] by (simp add: res_of_def Let_def)

theorem ResetFileToDefault_gives_back_witness:
  "locks (snd (run_state (NVM_ResetFileToDefault P0 1) ((disk [])\<lparr>faults := [Fail, Good, Fail]\<rparr>))) = {}"
proof -
  have "wf_world ((disk [])\<lparr>faults := [Fail, Good, Fail]\<rparr>)" by (simp add: wf_world_def disk_def)
  then show ?thesis
    using ResetFileToDefault_gives_back [of "(disk [])\<lparr>faults := [Fail, Good, Fail]\<rparr>" P0 1] by (simp add: Let_def)
qed

section \<open>Properties of the protection\<close>

lemma run_protect_restore:
  assumes "\<not> backed_up P lid e" and "recoverlock \<notin> locks w"
  shows "run_state (protect_restore P lid e) w =
    (let (r, w') = run_state (NVM_ResetFileToDefault P lid) w in (if r then 1 else 0, w'))"
proof -
  have "w\<lparr>locks := insert recoverlock (locks w) - {recoverlock}\<rparr> = w" using assms(2) by simp
  then show ?thesis
    using assms by (simp add: protect_restore_def run_bind run_ret run_lock run_unlock case_prod_unfold Let_def)
qed

text \<open>What \<open>NVM_CheckFileSize\<close> says of a regular file.\<close>

definition size_class :: "tcfg_file \<Rightarrow> bytes \<Rightarrow> int" where
  "size_class e x = (if length x = nat (table_size e) then 0 else if length x = nat (table_size e) + 2 then 1 else -1)"

lemma run_size_class:
  assumes "faults w = []" and "default_ok e" and "in_table t lid" and "entry t lid = e" and "fs w (cFileName e) = Some j"
    and "ikind j = Reg" and "length (idata j) < 2 ^ 32"
  shows "run_state (NVM_CheckFileSize lid t) w = (size_class e (idata j), w)"
proof -
  let ?x = "idata j" and ?sz = "table_size e"
  note l = assms(7)
  have sz: "0 \<le> ?sz" "?sz < 2 ^ 31 - 2" using length_default [OF assms(2)] by simp_all
  have m: "?sz mod 2 ^ 64 = (int (length ?x) - 2) mod 2 ^ 64 \<longleftrightarrow> length ?x = nat ?sz + 2"
  proof
    assume "length ?x = nat ?sz + 2"
    then show "?sz mod 2 ^ 64 = (int (length ?x) - 2) mod 2 ^ 64" using sz(1) by simp
  next
    assume "?sz mod 2 ^ 64 = (int (length ?x) - 2) mod 2 ^ 64"
    moreover have "(int (length ?x) - 2) mod 2 ^ 64 = (if int (length ?x) < 2 then int (length ?x) - 2 + 2 ^ 64 else int (length ?x) - 2)"
    proof (cases "int (length ?x) < 2")
      case True
      have "(int (length ?x) - 2) mod 2 ^ 64 = (int (length ?x) - 2 + 2 ^ 64) mod 2 ^ 64" by (simp only: mod_add_self2)
      also have "\<dots> = int (length ?x) - 2 + 2 ^ 64" using True by (intro mod_pos_pos_trivial) simp_all
      finally show ?thesis using True by simp
    next
      case False
      then show ?thesis using l by (simp add: mod_pos_pos_trivial)
    qed
    moreover have "?sz mod 2 ^ 64 = ?sz" using sz by (intro mod_pos_pos_trivial) simp_all
    ultimately show "length ?x = nat ?sz + 2" using sz by (auto split: if_splits)
  qed
  show ?thesis
    using run_CheckFileSize [OF assms(1,3), of j] assms(4-6) m sz(1) by (auto simp: size_class_def)
qed

text \<open>What the protection leaves in a file that is not backed up: \<open>x\<close> is the content it found.\<close>

definition protected_content :: "plat \<Rightarrow> int \<Rightarrow> bytes option \<Rightarrow> bytes" where
  "protected_content P lid x = (let e = file_of P lid; d = default_data e; size = nat (table_size e) in case x of
     None \<Rightarrow> d @ trailer P lid d
   | Some x \<Rightarrow> if length x = size then x @ [CHR 0xAA, c8 (check_no x)]
               else if length x = size + 2 \<and> checked x then x
               else d @ trailer P lid d)"

lemma run_Protect:
  assumes "kept P w" and "lid_ok P lid" and "lid \<noteq> iFileVerInfoLID P" and "dirlock \<notin> locks w" and "recoverlock \<notin> locks w"
    and "default_ok (file_of P lid)" and "writable w (cFileName (file_of P lid))" and "cFileName (file_of P lid) \<noteq> ver_path P"
    and "\<not> backed_up P lid (file_of P lid)" and "\<forall>i. fs w (cFileName (file_of P lid)) = Some i \<longrightarrow> length (idata i) < 2 ^ 32"
  shows "\<exists>w' i. run_state (NVM_ProtectDataFile P lid False) w = (1, w') \<and> kept P w' \<and> locks w' = locks w \<and>
    fs w' (cFileName (file_of P lid)) = Some i \<and> ikind i = Reg \<and>
    idata i = protected_content P lid (map_option idata (fs w (cFileName (file_of P lid))))"
proof -
  let ?e = "file_of P lid"
  let ?p = "cFileName ?e" and ?sz = "table_size (file_of P lid)"
  have k: "wf_world w" "faults w = []" using assms(1) by (simp_all add: kept_def)
  obtain t where t: "NVM_GetCfgFileTable P lid = Some t" "in_table t (real_lid P lid)" "entry t (real_lid P lid) = ?e"
    by (rule table_lookup [OF assms(2)])
  have sz: "0 \<le> ?sz" "?sz < 2 ^ 31 - 2" using length_default [OF assms(6)] by simp_all
  have pr: "\<exists>w' i. run_state (protect_restore P lid ?e) (used n w) = (1, w') \<and> kept P w' \<and> locks w' = locks w \<and>
      fs w' ?p = Some i \<and> ikind i = Reg \<and> idata i = default_data ?e @ trailer P lid (default_data ?e)" if n: "0 \<le> n" for n
  proof -
    have wn: "writable (used n w) ?p" "dirlock \<notin> locks (used n w)" "recoverlock \<notin> locks (used n w)"
      using assms(4,5,7) by (simp_all add: writable_def)
    obtain w' i where "run_state (NVM_ResetFileToDefault P lid) (used n w) = (True, w')" "kept P w'" "locks w' = locks (used n w)"
        "fs w' ?p = Some i" "ikind i = Reg" "idata i = default_data ?e @ trailer P lid (default_data ?e)"
      by (rule run_Reset [OF kept_used [OF assms(1) n] assms(2,3) wn(2) assms(6) wn(1) assms(8)])
    then show ?thesis by (simp add: run_protect_restore [OF assms(9) wn(3)])
  qed
  note pr0 = pr [of 0, simplified]
  note d = NVM_ProtectDataFile_def run_bind run_ret run_CheckVerFile_kept [OF assms(1)] Let_def
  show ?thesis
  proof (cases "fs w ?p")
    case None
    have "run_state (NVM_CheckFileSize (real_lid P lid) t) w = (-1, w)"
      using None k t by (simp add: NVM_CheckFileSize_def run_bind run_check run_stat run_ret Let_def)
    then have "run_state (NVM_ProtectDataFile P lid False) w = run_state (protect_restore P lid ?e) w"
      using assms(3) t by (simp add: d)
    then show ?thesis using pr0 None by (simp add: protected_content_def Let_def)
  next
    case (Some j)
    have j: "ikind j = Reg" using assms(7) Some by (auto simp: writable_def)
    have l: "length (idata j) < 2 ^ 32" using assms(10) Some by simp
    let ?x = "idata j"
    have cs: "run_state (NVM_CheckFileSize (real_lid P lid) t) w =
        (if length ?x = nat ?sz then 0 else if length ?x = nat ?sz + 2 then 1 else -1, w)"
      using run_size_class [OF k(2) assms(6) t(2,3) Some j l] by (simp add: size_class_def)
    have st: "run_state (NVM_SetCheckNo P (Some ?p) False) w =
        (True, used 2 (w\<lparr>fs := (fs w)(?p \<mapsto> j\<lparr>idata := ?x @ [CHR 0xAA, c8 (check_no ?x)]\<rparr>)\<rparr>))"
      using run_SetCheckNo [OF k Some j l, of False P] by (simp add: covered_def)
    have ck: "run_state (NVM_CheckFile P (Some ?p)) w = (checked ?x, used 2 w)" if "2 \<le> length ?x"
      by (rule run_CheckFile [OF k Some j l that])
    consider "length ?x = nat ?sz" | "length ?x = nat ?sz + 2" "checked ?x" | "length ?x = nat ?sz + 2" "\<not> checked ?x"
      | "length ?x \<noteq> nat ?sz" "length ?x \<noteq> nat ?sz + 2" by blast
    then show ?thesis
    proof cases
      case 1
      have wf: "wf_world (used 2 (w\<lparr>fs := (fs w)(?p \<mapsto> j\<lparr>idata := ?x @ [CHR 0xAA, c8 (check_no ?x)]\<rparr>)\<rparr>))"
        by (rule wf_later [where w = w]) (use k in simp_all)
      have "kept P (used 2 (w\<lparr>fs := (fs w)(?p \<mapsto> j\<lparr>idata := ?x @ [CHR 0xAA, c8 (check_no ?x)]\<rparr>)\<rparr>))"
        by (rule kept_same [OF assms(1) wf]) (use k assms(8) in simp_all)
      moreover have "run_state (NVM_ProtectDataFile P lid False) w =
          (1, used 2 (w\<lparr>fs := (fs w)(?p \<mapsto> j\<lparr>idata := ?x @ [CHR 0xAA, c8 (check_no ?x)]\<rparr>)\<rparr>))"
        using assms(3) t 1 by (simp add: d cs st del: used_fs)
      ultimately show ?thesis using Some j 1 by (simp add: protected_content_def Let_def)
    next
      case 2
      then have "run_state (NVM_ProtectDataFile P lid False) w = (1, used 2 w)"
        using assms(3) t ck by (simp add: d cs)
      then show ?thesis using Some j 2 kept_used [OF assms(1)] by (simp add: protected_content_def Let_def)
    next
      case 3
      then have "run_state (NVM_ProtectDataFile P lid False) w = run_state (protect_restore P lid ?e) (used 2 w)"
        using assms(3) t ck by (simp add: d cs)
      then show ?thesis using Some 3 pr [of 2] by (simp add: protected_content_def Let_def)
    next
      case 4
      then have "run_state (NVM_ProtectDataFile P lid False) w = run_state (protect_restore P lid ?e) w"
        using assms(3) t by (simp add: d cs)
      then show ?thesis using Some 4 pr0 by (simp add: protected_content_def Let_def)
    qed
  qed
qed

text \<open>
  Protecting a file that is not backed up succeeds in every case: a file of the table's size
  gets a check pair, a file with a valid check pair is left alone, and a missing or damaged file is
  reset to its default.
\<close>

theorem ProtectDataFile_outcome:
  assumes "kept P w" and "lid_ok P lid" and "lid \<noteq> iFileVerInfoLID P" and "dirlock \<notin> locks w" and "recoverlock \<notin> locks w"
    and "default_ok (file_of P lid)" and "writable w (cFileName (file_of P lid))" and "cFileName (file_of P lid) \<noteq> ver_path P"
    and "\<not> backed_up P lid (file_of P lid)" and "\<forall>i. fs w (cFileName (file_of P lid)) = Some i \<longrightarrow> length (idata i) < 2 ^ 32"
  shows "let (r, w') = run_state (NVM_ProtectDataFile P lid False) w; p = cFileName (file_of P lid) in
    r = 1 \<and> kept P w' \<and> locks w' = locks w \<and>
    (\<exists>i. fs w' p = Some i \<and> ikind i = Reg \<and> idata i = protected_content P lid (map_option idata (fs w p)))"
  using run_Protect [OF assms] by auto

lemma sample_not_backed: "\<not> backed_up P0 2 e_bt"
  by (simp add: backed_up_def P0_def)

theorem ProtectDataFile_outcome_witness:
  "map_option idata (fs (snd (run_state (NVM_ProtectDataFile P0 2 False) sample_ver)) ''/nvdata/BT_Addr'') = Some ''xyzuvwxyzuvw''"
proof -
  have f: "cFileName e_bt = ''/nvdata/BT_Addr''" by (simp add: e_bt_def)
  have n: "fs sample_ver ''/nvdata/BT_Addr'' = None" by simp
  have w: "writable sample_ver ''/nvdata/BT_Addr''" by (simp add: writable_def is_dir_def new_inode_def)
  have "let (r, w') = run_state (NVM_ProtectDataFile P0 2 False) sample_ver; p = cFileName (file_of P0 2) in
    r = 1 \<and> kept P0 w' \<and> locks w' = locks sample_ver \<and>
    (\<exists>i. fs w' p = Some i \<and> ikind i = Reg \<and> idata i = protected_content P0 2 (map_option idata (fs sample_ver p)))"
    by (rule ProtectDataFile_outcome [OF kept_sample lid_ok_P0(3)])
       (use w n sample_not_backed in \<open>simp_all add: sample_defaults f ver_path_P0 del: disk_sel(9)\<close>)
  then show ?thesis
    using n by (auto simp: sample_defaults f in_lid_list_def protected_content_def trailer_def case_prod_unfold Let_def
        simp del: disk_sel(9))
qed

text \<open>
  C39.  A reset and the protection agree: right after a reset of a file that is checked, the
  protection accepts the file and leaves it as it is.
\<close>

theorem Reset_then_protect:
  assumes "kept P w" and "lid_ok P lid" and "lid \<noteq> iFileVerInfoLID P" and "dirlock \<notin> locks w" and "recoverlock \<notin> locks w"
    and "default_ok (file_of P lid)" and "writable w (cFileName (file_of P lid))" and "cFileName (file_of P lid) \<noteq> ver_path P"
    and "\<not> in_lid_list (aPerformance P) lid"
  shows "let w1 = snd (run_state (NVM_ResetFileToDefault P lid) w); (r, w2) = run_state (NVM_ProtectDataFile P lid False) w1
    in r = 1 \<and> fs w2 = fs w1"
proof -
  let ?e = "file_of P lid"
  let ?p = "cFileName ?e" and ?d = "default_data (file_of P lid)"
  obtain t where t: "NVM_GetCfgFileTable P lid = Some t" "in_table t (real_lid P lid)" "entry t (real_lid P lid) = ?e"
    by (rule table_lookup [OF assms(2)])
  obtain w1 i where r: "run_state (NVM_ResetFileToDefault P lid) w = (True, w1)" "kept P w1"
      "fs w1 ?p = Some i" "ikind i = Reg" "idata i = ?d @ trailer P lid ?d"
    by (rule run_Reset [OF assms(1-4,6-8)])
  have x: "checked (idata i)" "length (idata i) = length ?d + 2"
    using r(5) assms(9) by (simp_all add: trailer_def checked_append)
  have l: "int (length ?d) = table_size ?e" "length ?d < 2 ^ 31 - 2" using length_default [OF assms(6)] by simp_all
  have k: "wf_world w1" "faults w1 = []" using r(2) by (simp_all add: kept_def)
  have "run_state (NVM_CheckFileSize (real_lid P lid) t) w1 = (1, w1)"
    using run_CheckFileSize [OF k(2) t(2), of i] t(3) r(3,4) x(2) l by simp
  moreover have "run_state (NVM_CheckFile P (Some ?p)) w1 = (True, used 2 w1)"
    using run_CheckFile [OF k r(3,4)] x l(2) by simp
  ultimately have "run_state (NVM_ProtectDataFile P lid False) w1 = (1, used 2 w1)"
    using assms(3) t by (simp add: NVM_ProtectDataFile_def run_bind run_ret run_CheckVerFile_kept [OF r(2)] Let_def)
  then show ?thesis by (simp add: r(1))
qed

theorem Reset_then_protect_witness:
  "fst (run_state (NVM_ProtectDataFile P0 1 False) (snd (run_state (NVM_ResetFileToDefault P0 1) sample_ver))) = 1"
proof -
  have f: "cFileName e_wifi = ''/nvdata/WIFI''" by (simp add: e_wifi_def)
  have w: "writable sample_ver ''/nvdata/WIFI''" by (simp add: writable_def is_dir_def new_inode_def)
  have "let w1 = snd (run_state (NVM_ResetFileToDefault P0 1) sample_ver); (r, w2) = run_state (NVM_ProtectDataFile P0 1 False) w1
    in r = 1 \<and> fs w2 = fs w1"
    by (rule Reset_then_protect [OF kept_sample lid_ok_P0(2)])
       (use w in \<open>simp_all add: sample_defaults f ver_path_P0 in_lid_list_def del: disk_sel(9)\<close>)
  then show ?thesis by (simp add: case_prod_unfold Let_def)
qed

section \<open>Corners\<close>

text \<open>
  The comment on \<open>MULTIPLE_DEFUALT_REC\<close> calls the default the value of one record, but each of the
  writes stores all records at once: with a value of one record it reads past its end.
\<close>

lemma one_record_overread:
  assumes "pDefualtVaule e = Some d" and "int (length d) < rec_total e"
  shows "OutOfBounds \<in> set (ubs (snd (run_state (write_default P fd e) w)))"
proof -
  have "ubs (snd (run_state (sys_write fd x) v)) = ubs v" for x and v :: "nv_globals world"
    by (simp add: sys_write_def case_prod_unfold Let_def split: option.split)
  then show ?thesis using assms by (simp add: write_default_def check_def ub_def modify_def case_prod_unfold)
qed

end
