(* ===== verification/VerConvert.thy ===== *)
theory VerConvert
  imports Reset
begin

text \<open>
  Converting files to a new version (\<open>NVM_DataVerConvert\<close>, \<open>NVM_CheckFileNum\<close>,
  \<open>NVM_DataVerConvertAll\<close> of \<open>nvram/libnvram.c\<close>).  The converters are fields of the table
  entries; the file counts of the old release are \<open>unsigned int\<close>s.
\<close>

section \<open>Converting one file\<close>

text \<open>\<open>atoi\<close> of a short string: white space, a sign, digits.\<close>

fun atoi_digits :: "int \<Rightarrow> string \<Rightarrow> int" where
  "atoi_digits a [] = a"
| "atoi_digits a (c # cs) =
     (if 48 \<le> (of_char c :: int) \<and> (of_char c :: int) \<le> 57
      then atoi_digits (10 * a + (of_char c - 48)) cs else a)"

definition atoi :: "string \<Rightarrow> int" where
  "atoi s = (case dropWhile (\<lambda>c. c \<in> {CHR '' '', CHR 0x09, CHR 0x0A, CHR 0x0B, CHR 0x0C, CHR 0x0D}) s of
     [] \<Rightarrow> 0
   | c # cs \<Rightarrow> if c = CHR ''-'' then - atoi_digits 0 cs
               else if c = CHR ''+'' then atoi_digits 0 cs else atoi_digits 0 (c # cs))"

text \<open>The conversion of the content, from the \<open>stat\<close> of the file to the second \<open>close\<close>.\<close>

definition convert_content :: "plat \<Rightarrow> tcfg_file \<Rightarrow> int \<Rightarrow> int \<Rightarrow> int nv" where
  "convert_content P e iCurrentFileVerNO iNewFileVerNO = do {
     st \<leftarrow> sys_stat (cFileName e);
     case st of None \<Rightarrow> ret 0
     | Some st \<Rightarrow> do {
         let iFileSize = to_int32 (st_size st);
         iFileDesc \<leftarrow> sys_open (cFileName e) [O_RDWR] 0;
         if iFileDesc = -1 then ret 0
         else do {
           m1 \<leftarrow> sys_malloc iFileSize;
           if \<not> m1 then do { _ \<leftarrow> sys_close iFileDesc; ret 0 }
           else do {
             r \<leftarrow> sys_read iFileDesc (nat iFileSize);
             if r = None then do { _ \<leftarrow> sys_close iFileDesc; sys_free; ret 0 }
             else do {
               let pSrcMem = rd_buf r (replicate (nat iFileSize) (CHR 0x00));
               m2 \<leftarrow> sys_malloc (rec_total e);
               if \<not> m2 then do { sys_free; _ \<leftarrow> sys_close iFileDesc; ret 0 }
               else (case NVM_DataConvertFunc e of
                 None \<Rightarrow> do { sys_free; sys_free; _ \<leftarrow> sys_close iFileDesc; ret 0 }
               | Some f \<Rightarrow> do {
                   let (iResult, pDstMem) = f iCurrentFileVerNO iNewFileVerNO pSrcMem (replicate (nat (rec_total e)) (CHR 0x00));
                   if iResult \<noteq> 1 then do { sys_free; sys_free; _ \<leftarrow> sys_close iFileDesc; ret 0 }
                   else do {
                     _ \<leftarrow> sys_close iFileDesc;
                     iFileDesc \<leftarrow> sys_open (cFileName e) [O_TRUNC, O_RDWR] 0;
                     if iFileDesc = -1 then do { sys_free; sys_free; ret 0 }
                     else do {
                       n \<leftarrow> sys_write iFileDesc (take (nat (rec_total e)) pDstMem);
                       if n < 0 then do { sys_free; sys_free; _ \<leftarrow> sys_close iFileDesc; ret 0 }
                       else do { sys_free; sys_free; _ \<leftarrow> sys_close iFileDesc; ret 1 } } } }) } } } } }"

text \<open>After the new content is written: the version record and the check bytes.\<close>

definition convert_finish :: "plat \<Rightarrow> int \<Rightarrow> int \<Rightarrow> int nv" where
  "convert_finish P file_lid iResult = do {
     _ \<leftarrow> NVM_UpdateFileVerNo P file_lid VerUpdate;
     if in_lid_list (aPerformance P) file_lid then ret iResult
     else do {
       p \<leftarrow> NVM_ProtectDataFile P file_lid True;
       ret (if p = 1 then iResult else 0) } }"

definition NVM_DataVerConvert :: "plat \<Rightarrow> int \<Rightarrow> int nv" where
  "NVM_DataVerConvert P file_lid = do {
     iFileDesc \<leftarrow> sys_open (ver_path P) [O_RDONLY] 0;
     if iFileDesc = -1 then ret 0
     else do {
       r \<leftarrow> sys_read iFileDesc 69;
       tempstr \<leftarrow> set_str r [];
       let bIsNewVerInfo = (tempstr = strVerInfo);
       st \<leftarrow> sys_stat (ver_path P);
       case st of None \<Rightarrow> do { _ \<leftarrow> sys_close iFileDesc; ret 0 }
       | Some st \<Rightarrow>
           if (if bIsNewVerInfo then (file_lid + 1 + 1) * VERREC else (file_lid + 1) * 4) > st_size st
           then do {
             ok \<leftarrow> NVM_ResetFileToDefault P file_lid;
             _ \<leftarrow> sys_close iFileDesc;
             ret (if ok then 1 else 0) }
           else (case NVM_GetCfgFileTable P file_lid of
             None \<Rightarrow> do { _ \<leftarrow> sys_close iFileDesc; ret 0 }
           | Some pCfgFielTable \<Rightarrow> do {
               l \<leftarrow> sys_lseek iFileDesc (if bIsNewVerInfo then (file_lid + 1) * VERREC + 70 else file_lid * 4) SEEK_SET;
               if l = -1 then do { _ \<leftarrow> sys_close iFileDesc; ret 0 }
               else do {
                 r \<leftarrow> sys_read iFileDesc 3;
                 pFileVerInfo \<leftarrow> set_str r [];
                 _ \<leftarrow> sys_close iFileDesc;
                 check (in_table pCfgFielTable (real_lid P file_lid)) OutOfBounds;
                 let e = entry pCfgFielTable (real_lid P file_lid);
                 iResult \<leftarrow> convert_content P e (atoi pFileVerInfo) (atoi (cstr (cFileVer e)));
                 if iResult = 0 then ret 0 else convert_finish P file_lid iResult } }) } }"

section \<open>Matching the number of files\<close>

text \<open>One of the loops over \<open>NVM_UpdateFileVerNo\<close>: the lids \<open>from\<close> to \<open>to - 1\<close>, unsigned.\<close>

primrec update_lids :: "plat \<Rightarrow> ver_info_update_flag \<Rightarrow> nat list \<Rightarrow> bool nv" where
  "update_lids P flag [] = ret True"
| "update_lids P flag (iLid # ls) = do {
     ok \<leftarrow> NVM_UpdateFileVerNo P (to_int32 (int iLid)) flag;
     if \<not> ok then ret False else update_lids P flag ls }"

definition update_range :: "plat \<Rightarrow> ver_info_update_flag \<Rightarrow> u32 \<Rightarrow> u32 \<Rightarrow> bool nv" where
  "update_range P flag from to = update_lids P flag [unat from..<unat to]"

definition NVM_CheckFileNum :: "plat \<Rightarrow> u32 \<Rightarrow> u32 \<Rightarrow> bool nv" where
  "NVM_CheckFileNum P iOldCommonFileNum iOldCustomFileNum = (
     let iBegin = of_int (iCustomBeginLID P);
         iNew = of_int (iNvRamFileMaxLID P - iCustomBeginLID P)
     in if iOldCommonFileNum = 0 \<or> iOldCustomFileNum = 0 then ret True
        else if iOldCommonFileNum = iBegin \<and> iOldCustomFileNum = iNew then ret True
        else do {
          a \<leftarrow> (if iOldCommonFileNum < iBegin \<and> iOldCommonFileNum > 0
               then update_range P VerAdd iOldCommonFileNum iBegin else ret True);
          if \<not> a then ret False
          else do {
            b \<leftarrow> (if iOldCustomFileNum < iNew \<and> iOldCustomFileNum > 0
                 then update_range P VerAdd (iBegin + iOldCustomFileNum) (iBegin + iNew) else ret True);
            if \<not> b then ret False
            else do {
              c \<leftarrow> (if iOldCommonFileNum > iBegin
                   then update_range P VerDel iBegin iOldCommonFileNum else ret True);
              if \<not> c then ret False
              else if iOldCustomFileNum > iNew
              then update_range P VerDel (iOldCommonFileNum + iNew) (iOldCommonFileNum + iOldCustomFileNum)
              else ret True } } })"

section \<open>Converting all files\<close>

text \<open>One round of the loop: \<open>None\<close> returns false, \<open>Some w\<close> goes on with \<open>bWrongFileVer = w\<close>.\<close>

definition convert_one :: "plat \<Rightarrow> int \<Rightarrow> bool \<Rightarrow> bool option nv" where
  "convert_one P iLID bWrongFileVer = (case NVM_GetCfgFileTable P iLID of
     None \<Rightarrow> ret None
   | Some pCfgFielTable \<Rightarrow> do {
       check (in_table pCfgFielTable (real_lid P iLID)) OutOfBounds;
       let e = entry pCfgFielTable (real_lid P iLID);
       st \<leftarrow> sys_stat (cFileName e);
       case st of None \<Rightarrow> ret (Some bWrongFileVer)
       | Some st \<Rightarrow> do {
           same \<leftarrow> NVM_CmpFileVerNo P iLID;
           if \<not> same
           then do {
             c \<leftarrow> NVM_DataVerConvert P iLID;
             if c = 0
             then do {
               iFileDesc \<leftarrow> sys_open (cFileName e) [O_TRUNC, O_RDWR] 0;
               if iFileDesc = -1 then ret None
               else do {
                 _ \<leftarrow> sys_close iFileDesc;
                 ok \<leftarrow> NVM_ResetFileToDefault P iLID;
                 if \<not> ok then ret None else ret (Some bWrongFileVer) } }
             else ret (Some bWrongFileVer) }
           else do {
             let iLoadFileSize = rec_total e;
             if iLoadFileSize \<noteq> st_size st \<and> iLoadFileSize + 2 \<noteq> st_size st
             then ret (Some True) else ret (Some bWrongFileVer) } } })"

primrec convert_loop :: "plat \<Rightarrow> int list \<Rightarrow> bool \<Rightarrow> bool nv" where
  "convert_loop P [] bWrongFileVer = ret (\<not> bWrongFileVer)"
| "convert_loop P (iLID # ls) bWrongFileVer = do {
     r \<leftarrow> convert_one P iLID bWrongFileVer;
     case r of None \<Rightarrow> ret False | Some b \<Rightarrow> convert_loop P ls b }"

definition NVM_DataVerConvertAll :: "plat \<Rightarrow> u32 \<Rightarrow> u32 \<Rightarrow> bool nv" where
  "NVM_DataVerConvertAll P iOldCommonFileNum iOldCustomFileNum =
    (if iOldCommonFileNum = 0 \<or> iOldCustomFileNum = 0 then ret True
     else do {
       v \<leftarrow> NVM_CheckVerFile P True;
       if \<not> v then ret False
       else do {
         n \<leftarrow> NVM_CheckFileNum P iOldCommonFileNum iOldCustomFileNum;
         if \<not> n then ret False
         else convert_loop P [1..iNvRamFileMaxLID P - 1] False } })"

section \<open>Adding the records of new files\<close>

text \<open>
  The version table of a release with the first \<open>a\<close> common and the first \<open>b\<close> custom files of today.
\<close>

definition old_names :: "plat \<Rightarrow> nat \<Rightarrow> nat \<Rightarrow> string list" where
  "old_names P a b = strVerInfo # map base_name (take a (g_akCFG_File P) @ take b (g_akCFG_File_Custom P))"

lemma old_names_all: "old_names P (length (g_akCFG_File P)) (length (g_akCFG_File_Custom P)) = names P"
  by (simp add: old_names_def names_def all_files_def)

text \<open>Adding the lids \<open>x\<close> to \<open>y - 1\<close> in order inserts their records after the first \<open>x + 1\<close>.\<close>

definition records :: "plat \<Rightarrow> nat \<Rightarrow> nat \<Rightarrow> bytes list" where
  "records P x y = map (\<lambda>k. mkrec (file_of P (int k))) [x..<y]"

lemma run_adds:
  assumes "plat_ok P" and "y \<le> length (all_files P)" and "generateFileVerlock \<notin> locks w" and "faults w = []"
  shows "wf_world w \<Longrightarrow> ver_table P w (pre @ suf) \<Longrightarrow> length pre = Suc x \<Longrightarrow> x \<le> y \<Longrightarrow>
    (length pre + length suf + (y - x)) * VERREC < 2 ^ 31 \<Longrightarrow>
    \<exists>n \<ge> 0. run_state (update_lids P VerAdd [x..<y]) w = (True, used n (with_table P w (pre @ records P x y @ suf)))"
  using assms(3,4)
proof (induction "y - x" arbitrary: w pre x)
  case 0
  then have "with_table P w (pre @ suf) = w" by (auto simp: with_table_def ver_table_def fun_upd_idem split: option.split)
  then show ?case using 0 by (intro exI [of _ 0]) (simp add: records_def run_ret)
next
  case (Suc m)
  let ?lid = "int x" and ?r = "mkrec (file_of P (int x))"
  have xy: "[x..<y] = x # [Suc x..<y]" "x < y" using Suc.hyps(2) by (simp_all add: upt_conv_Cons)
  have lid: "lid_ok P ?lid" using assms(1,2) xy(2) by (simp add: lid_ok_def)
  have small: "x < 2 ^ 31" using assms(1,2) xy(2) by (simp add: plat_ok_def)
  have l: "Suc (length (pre @ suf)) * VERREC < 2 ^ 31" using Suc.prems(5) xy(2) by simp
  obtain n where n: "0 \<le> n" "run_state (NVM_UpdateFileVerNo P ?lid VerAdd) w =
      (True, used n (with_table P w (insert_at (Suc (nat ?lid)) ?r (pre @ suf))))"
    using run_VerAdd [OF lid Suc.prems(1) Suc.prems(7,6,2)] Suc.prems(3) l by auto
  have ins: "insert_at (Suc (nat ?lid)) ?r (pre @ suf) = (pre @ [?r]) @ suf"
    using Suc.prems(3) by (simp add: insert_at_def)
  let ?w = "used n (with_table P w ((pre @ [?r]) @ suf))"
  have pre: "pre \<noteq> []" using Suc.prems(3) by auto
  have t: "ver_table P ?w ((pre @ [?r]) @ suf)"
    using ver_table_with [OF Suc.prems(2), of "(pre @ [?r]) @ suf"] Suc.prems(2) pre file_ok [OF lid] l
    by (auto simp: ver_table_def)
  have wf: "wf_world ?w" by (rule wf_later [OF Suc.prems(1)]) (use n(1) in simp_all)
  have m: "m = y - Suc x" using Suc.hyps(2) by simp
  obtain k where k: "0 \<le> k" "run_state (update_lids P VerAdd [Suc x..<y]) ?w =
      (True, used k (with_table P ?w ((pre @ [?r]) @ records P (Suc x) y @ suf)))"
    using Suc.hyps(1) [OF m wf t] Suc.prems(3,5,6,7) xy(2) by auto
  have "with_table P ?w zs = used n (with_table P w zs)" for zs
    using with_table_idem [OF Suc.prems(2)] by (simp add: used_def)
  then show ?case
    using n k small by (intro exI [of _ "n + k"]) (simp add: xy run_bind ins [simplified] records_def to_int32_small)
qed

definition extended :: "plat \<Rightarrow> nat \<Rightarrow> nat \<Rightarrow> bytes list \<Rightarrow> bytes list" where
  "extended P a b bl = (let A = length (g_akCFG_File P); B = length (g_akCFG_File_Custom P) in
     take (Suc a) bl @ records P a A @ drop (Suc a) bl @ records P (A + b) (A + B))"

lemma rec_names_records:
  assumes "plat_ok P" and "y \<le> length (all_files P)"
  shows "map rec_name (records P x y) = map base_name (take (y - x) (drop x (all_files P)))"
proof (rule nth_equalityI)
  fix k
  assume k: "k < length (map rec_name (records P x y))"
  then have "lid_ok P (int (x + k))" using assms by (simp add: lid_ok_def records_def)
  from file_ok [OF this] show "map rec_name (records P x y) ! k = map base_name (take (y - x) (drop x (all_files P))) ! k"
    using k assms(2) by (simp add: records_def file_of_def nat_int_add)
qed (use assms(2) in \<open>simp add: records_def\<close>)

lemma blocks_records:
  assumes "plat_ok P" and "y \<le> length (all_files P)"
  shows "blocks VERREC (records P x y)"
  using assms file_ok by (auto simp: records_def lid_ok_def)

lemma extended_names:
  assumes "plat_ok P" and "map rec_name bl = old_names P a b" and "a \<le> length (g_akCFG_File P)"
    and "b \<le> length (g_akCFG_File_Custom P)"
  shows "map rec_name (extended P a b bl) = names P"
proof -
  let ?C = "g_akCFG_File P" and ?U = "g_akCFG_File_Custom P"
  have l: "take (Suc a) (map rec_name bl) = strVerInfo # map base_name (take a ?C)"
    "drop (Suc a) (map rec_name bl) = map base_name (take b ?U)"
    using assms(3) by (simp_all add: assms(2) old_names_def take_map drop_map min_def)
  have r: "map rec_name (records P a (length ?C)) = map base_name (drop a ?C)"
    "map rec_name (records P (length ?C + b) (length ?C + length ?U)) = map base_name (drop b ?U)"
    using assms(3) by (simp_all add: rec_names_records [OF assms(1)] all_files_def)
  have "map rec_name (extended P a b bl) =
      strVerInfo # map base_name ((take a ?C @ drop a ?C) @ (take b ?U @ drop b ?U))"
    using l r by (simp add: extended_def Let_def take_map [symmetric] drop_map [symmetric] del: append_take_drop_id)
  then show ?thesis by (simp add: names_def all_files_def)
qed

lemma word_of_count: "n < 2 ^ 32 \<Longrightarrow> unat (of_nat n :: u32) = n"
  by (simp add: unat_of_nat take_bit_eq_mod)

lemma run_CheckFileNum:
  assumes "plat_ok P" and "distinct (names P)" and "wf_world w" and "faults w = []" and "generateFileVerlock \<notin> locks w"
    and "ver_table P w bl" and "map rec_name bl = old_names P a b"
    and "0 < a" and "a \<le> length (g_akCFG_File P)" and "0 < b" and "b \<le> length (g_akCFG_File_Custom P)"
  shows "\<exists>n \<ge> 0. run_state (NVM_CheckFileNum P (of_nat a) (of_nat b)) w = (True, used n (with_table P w (extended P a b bl))) \<and>
    kept P (used n (with_table P w (extended P a b bl))) \<and>
    ver_table P (used n (with_table P w (extended P a b bl))) (extended P a b bl)"
proof -
  let ?A = "length (g_akCFG_File P)" and ?B = "length (g_akCFG_File_Custom P)"
  have AB: "?A + ?B \<le> 32767" using assms(1) by (simp add: plat_ok_def all_files_def)
  have N: "length (all_files P) = ?A + ?B" by (simp add: all_files_def)
  have beg: "of_int (iCustomBeginLID P) = (of_nat ?A :: u32)" "of_int (iNvRamFileMaxLID P - iCustomBeginLID P) = (of_nat ?B :: u32)"
    using assms(1) by (simp_all add: plat_ok_def all_files_def)
  have len: "length bl = Suc (a + b)"
    using arg_cong [OF assms(7), of length] assms(9,11) by (simp add: old_names_def)
  show ?thesis
  proof -
    let ?pre = "take (Suc a) bl" and ?suf = "drop (Suc a) bl"
    let ?t1 = "?pre @ records P a ?A @ ?suf"
    have w0: "ver_table P w (?pre @ ?suf)" using assms(6) by simp
    have lp: "length ?pre = Suc a" using len by simp
    have sz: "(length ?pre + length ?suf + (?A - a)) * VERREC < 2 ^ 31" using len AB assms(9,11) by simp
    obtain m where m: "0 \<le> m" "run_state (update_lids P VerAdd [a..<?A]) w = (True, used m (with_table P w ?t1))"
      using run_adds [OF assms(1) _ assms(5,4,3) w0 _ assms(9)] lp sz N by auto
    let ?w1 = "used m (with_table P w ?t1)"
    have hd1: "?t1 \<noteq> [] \<and> hd ?t1 = hd bl" using len by (cases bl) simp_all
    have bl: "blocks VERREC bl" "rec_name (hd bl) = strVerInfo" using assms(6) by (simp_all add: ver_table_def)
    have "ver_table P (with_table P w ?t1) ?t1"
      by (rule ver_table_with [OF assms(6)])
        (use hd1 bl blocks_records [OF assms(1), of ?A a] N AB len assms(9,11) in \<open>simp_all add: records_def\<close>)
    then have w1: "ver_table P ?w1 (?t1 @ [])" by (simp add: ver_table_def)
    have wf1: "wf_world ?w1" by (rule wf_later [OF assms(3)]) (use m(1) in simp_all)
    have l1: "length ?t1 = Suc (?A + b)" using len assms(9,11) by (simp add: records_def)
    obtain n where n: "0 \<le> n" "run_state (update_lids P VerAdd [?A + b..<?A + ?B]) ?w1 =
        (True, used n (with_table P ?w1 (?t1 @ records P (?A + b) (?A + ?B) @ [])))"
      using run_adds [OF assms(1) _ _ _ wf1 w1 l1, of "?A + ?B"] assms(4,5,11) AB len l1 N by auto
    have e: "with_table P ?w1 (?t1 @ records P (?A + b) (?A + ?B) @ []) = used m (with_table P w (extended P a b bl))"
      using with_table_idem [OF assms(6)] by (simp add: used_def extended_def Let_def)
    have c: "(of_nat a :: u32) = 0 \<longleftrightarrow> False" "(of_nat b :: u32) = 0 \<longleftrightarrow> False"
      "(of_nat a :: u32) = of_nat ?A \<longleftrightarrow> a = ?A" "(of_nat b :: u32) = of_nat ?B \<longleftrightarrow> b = ?B"
      "(of_nat a :: u32) < of_nat ?A \<longleftrightarrow> a < ?A" "(of_nat b :: u32) < of_nat ?B \<longleftrightarrow> b < ?B"
      "(of_nat a :: u32) > 0" "(of_nat b :: u32) > 0"
      "\<not> (of_nat a :: u32) > of_nat ?A" "\<not> (of_nat b :: u32) > of_nat ?B"
      using assms(8-11) AB by (simp_all add: word_less_nat_alt word_of_count unat_eq_0 [symmetric] word_unat_eq_iff)
    have r: "update_range P VerAdd (of_nat a) (of_nat ?A) = update_lids P VerAdd [a..<?A]"
      "update_range P VerAdd (of_nat ?A + of_nat b) (of_nat ?A + of_nat ?B) = update_lids P VerAdd [?A + b..<?A + ?B]"
      using assms(9,11) AB by (simp_all add: update_range_def word_of_count flip: of_nat_add)
    have e1: "a = ?A \<Longrightarrow> ?w1 = w" using m by (simp add: run_ret)
    have e2: "b = ?B \<Longrightarrow> used n (with_table P ?w1 (?t1 @ records P (?A + b) (?A + ?B) @ [])) = ?w1" using n by (simp add: run_ret)
    have run: "run_state (NVM_CheckFileNum P (of_nat a) (of_nat b)) w = (True, used (m + n) (with_table P w (extended P a b bl)))"
      unfolding NVM_CheckFileNum_def beg Let_def c r
      using m n e e1 e2 assms(9,11) by (cases "a = ?A"; cases "b = ?B") (simp_all add: c run_bind run_ret)
    let ?cl = "extended P a b bl"
    have hd2: "?cl \<noteq> [] \<and> hd ?cl = hd bl" using hd1 l1 by (cases bl) (simp_all add: extended_def Let_def)
    have nm: "map rec_name ?cl = names P" by (rule extended_names [OF assms(1,7,9,11)])
    have "ver_table P (with_table P w ?cl) ?cl"
    proof (rule ver_table_with [OF assms(6)])
      show "blocks VERREC ?cl"
        using bl N assms(9,11) blocks_records [OF assms(1)] by (simp add: extended_def Let_def)
      show "length ?cl * VERREC < 2 ^ 31" using arg_cong [OF nm, of length] AB N by (simp add: names_def)
    qed (use hd2 bl in simp_all)
    then have t: "ver_table P (used (m + n) (with_table P w ?cl)) ?cl" by (simp add: ver_table_def)
    moreover have "wf_world (used (m + n) (with_table P w ?cl))"
      by (rule wf_later [OF assms(3)]) (use m(1) n(1) in simp_all)
    ultimately have "kept P (used (m + n) (with_table P w ?cl))"
      using assms(1,2,4,5) nm by (auto simp: kept_def in_order_def)
    then show ?thesis using run t m n by (intro exI [of _ "m + n"]) simp
  qed
qed

text \<open>The lids the old release does not have.\<close>

definition new_lid :: "plat \<Rightarrow> nat \<Rightarrow> nat \<Rightarrow> int \<Rightarrow> bool" where
  "new_lid P a b lid \<longleftrightarrow> (if lid < iCustomBeginLID P then int a \<le> lid else iCustomBeginLID P + int b \<le> lid)"

lemma distinct_old_names: "distinct (names P) \<Longrightarrow> distinct (old_names P a b)"
  by (auto simp: names_def old_names_def all_files_def take_map [symmetric] dest!: in_set_takeD)

lemma extended_at:
  assumes "plat_ok P" and "length bl = Suc (a + b)" and "a \<le> length (g_akCFG_File P)" and "b \<le> length (g_akCFG_File_Custom P)"
    and "lid_ok P lid"
  shows "new_lid P a b lid \<Longrightarrow> extended P a b bl ! Suc (nat lid) = mkrec (file_of P lid)"
    and "\<not> new_lid P a b lid \<Longrightarrow> \<exists>p < length bl. extended P a b bl ! Suc (nat lid) = bl ! p"
proof -
  let ?A = "length (g_akCFG_File P)" and ?B = "length (g_akCFG_File_Custom P)"
  obtain k where k: "lid = int k" "k < ?A + ?B" using assms(5) by (auto simp: lid_ok_def all_files_def intro: that [of "nat lid"])
  have n: "new_lid P a b lid \<longleftrightarrow> (if k < ?A then a \<le> k else ?A + b \<le> k)"
    using assms(1) k by (auto simp: new_lid_def plat_ok_def)
  let ?cl = "extended P a b bl"
  have c1: "?cl ! Suc k = bl ! Suc k" if "k < a"
    using that assms(2) by (simp add: extended_def Let_def nth_append)
  have c2: "?cl ! Suc k = mkrec (file_of P lid)" if "a \<le> k" "k < ?A"
    using that assms(2) k(1) diff_less_mono [OF that(2,1)]
    by (simp add: extended_def Let_def nth_append records_def Suc_diff_le)
  have c3: "?cl ! Suc k = bl ! Suc (a + (k - ?A))" if "?A \<le> k" "k < ?A + b"
  proof -
    have "\<not> k - a < ?A - a" "k - ?A < b" "a \<le> k" using that assms(3) by simp_all
    then show ?thesis
      using that(1) assms(2,3) by (simp add: extended_def Let_def nth_append records_def Suc_diff_le)
  qed
  have c4: "?cl ! Suc k = mkrec (file_of P lid)" if "?A + b \<le> k"
  proof -
    have "\<not> k - a < ?A - a" "\<not> k - ?A < b" "a \<le> k" "k - (?A + b) < ?B - b" using that assms(3) k(2) by simp_all
    then show ?thesis
      using that assms(2,3) k by (simp add: extended_def Let_def nth_append records_def Suc_diff_le)
  qed
  show "?cl ! Suc (nat lid) = mkrec (file_of P lid)" if "new_lid P a b lid"
    using that c2 c4 by (auto simp: n [unfolded k(1)] k(1) split: if_splits)
  show "\<exists>p < length bl. ?cl ! Suc (nat lid) = bl ! p" if "\<not> new_lid P a b lid"
  proof (cases "k < ?A")
    case True
    then show ?thesis using that c1 assms(2) by (intro exI [of _ "Suc k"]) (simp add: n [unfolded k(1)] k(1))
  next
    case False
    then show ?thesis using that c3 assms(2) by (intro exI [of _ "Suc (a + (k - ?A))"]) (auto simp: n [unfolded k(1)] k(1))
  qed
qed

lemma extended_compare:
  assumes "plat_ok P" and "distinct (names P)" and "wf_world w" and "faults w = []" and "ver_table P w bl"
    and "map rec_name bl = old_names P a b" and "a \<le> length (g_akCFG_File P)" and "b \<le> length (g_akCFG_File_Custom P)"
    and "kept P w'" and "ver_table P w' (extended P a b bl)" and "lid_ok P lid"
  shows "fst (run_state (NVM_CmpFileVerNo P lid) w') = (new_lid P a b lid \<or> fst (run_state (NVM_CmpFileVerNo P lid) w))"
proof -
  let ?cl = "extended P a b bl"
  have nm: "map rec_name ?cl = names P" by (rule extended_names [OF assms(1,6-8)])
  have io: "in_order P ?cl" using nm by (simp add: in_order_def)
  have c: "fst (run_state (NVM_CmpFileVerNo P lid) w') = (rec_ver (?cl ! Suc (nat lid)) = cFileVer (file_of P lid))"
    using run_cmp_kept [OF assms(9,11,10) io] by simp
  have len: "length bl = Suc (a + b)" using arg_cong [OF assms(6), of length] assms(7,8) by (simp add: old_names_def)
  note at = extended_at [OF assms(1) len assms(7,8,11)]
  show ?thesis
  proof (cases "new_lid P a b lid")
    case True
    then show ?thesis using c at(1) file_ok [OF assms(11)] by simp
  next
    case False
    from at(2) [OF this] obtain p where p: "p < length bl" "?cl ! Suc (nat lid) = bl ! p" by blast
    have "rec_name (bl ! p) = base_name (file_of P lid)" using in_order_at(2) [OF io assms(11)] p(2) by simp
    then have "version_of bl (nat lid) (base_name (file_of P lid)) = Some (rec_ver (bl ! p))"
      using version_of_unique [of bl p "nat lid"] distinct_old_names [OF assms(2), of a b] assms(6) p(1) by simp
    then show ?thesis
      using c p(2) False run_CmpFileVerNo [OF assms(11,3-5)] by simp
  qed
qed



section \<open>Removing the records of dropped files\<close>

text \<open>
  The loop deletes by position and moves to the next lid although the deletion has moved the next
  record down: of two dropped files it deletes the first and the record after the second.
\<close>

lemma delete_range_skips:
  assumes "wf_world w" and "faults w = []" and "generateFileVerlock \<notin> locks w" and "ver_table P w bl" and "x + 3 < length bl"
  shows "run_state (update_range P VerDel (of_nat x) (of_nat (x + 2))) w =
    (True, used 4 (with_table P w (take (Suc x) bl @ bl ! (x + 2) # drop (x + 4) bl)))"
proof -
  have len: "length bl * 74 < 2 ^ 31" and bl: "blocks VERREC bl" "bl \<noteq> []" "rec_name (hd bl) = strVerInfo"
    using assms(4) by (simp_all add: ver_table_def)
  have x: "x + 2 < 2 ^ 31" using assms(5) len by simp
  have r: "[unat (of_nat x :: u32)..<unat (of_nat (x + 2) :: u32)] = [x, Suc x]"
    using x word_of_count [of x] word_of_count [of "x + 2"] by (simp add: upt_conv_Cons)
  let ?cl = "without (Suc x) bl"
  have d1: "run_state (NVM_UpdateFileVerNo P (int x) VerDel) w = (True, used 2 (with_table P w ?cl))"
    using run_VerDel [of "int x", OF _ assms(1-4)] assms(5) by simp
  let ?w = "used 2 (with_table P w ?cl)"
  have cl: "length ?cl = length bl - 1" using without_props(1) [of "Suc x" bl] assms(5) by simp
  have h: "?cl \<noteq> []" "hd ?cl = hd bl" "blocks VERREC ?cl" using bl by (cases bl, simp_all add: without_def)+
  have "ver_table P (with_table P w ?cl) ?cl"
    by (rule ver_table_with [OF assms(4)]) (use h bl len cl in simp_all)
  then have t: "ver_table P ?w ?cl" by (simp add: ver_table_def)
  have wf: "wf_world ?w" by (rule wf_later [OF assms(1)]) simp_all
  have nx: "nat (1 + int x) = Suc x" by simp
  have wt: "with_table P ?w zs = used 2 (with_table P w zs)" for zs
    using with_table_idem [OF assms(4)] by (simp add: used_def)
  have d2: "run_state (NVM_UpdateFileVerNo P (int (Suc x)) VerDel) ?w = (True, used 4 (with_table P w (without (Suc (Suc x)) ?cl)))"
    using run_VerDel [of "int (Suc x)", OF _ wf _ _ t] assms(2,3,5) cl by (simp add: nx wt)
  have d4: "drop (Suc (Suc x)) bl = bl ! (x + 2) # drop (Suc (Suc (Suc x))) bl"
    using assms(5) Cons_nth_drop_Suc [of "Suc (Suc x)" bl] by simp
  have w2: "without (Suc (Suc x)) ?cl = take (Suc x) bl @ bl ! (x + 2) # drop (x + 4) bl"
    using assms(5) by (simp add: without_def nth_append min_def d4 eval_nat_numeral)
  show ?thesis
    unfolding update_range_def r using d1 d2 x w2 by (simp add: run_bind run_ret to_int32_small)
qed

end
