(* ===== verification/ConvertRun.thy ===== *)
theory ConvertRun
  imports VerConvert
begin

text \<open>
  What a conversion does when no call fails: the runs of the parts of \<open>NVM_DataVerConvert\<close> and
  \<open>NVM_DataVerConvertAll\<close>, and the properties of a whole conversion.
\<close>

section \<open>The content\<close>

lemma run_convert_content:
  assumes "wf_world w" and "faults w = []" and "fs w (cFileName e) = Some i" and "ikind i = Reg"
    and "length (idata i) < 2 ^ 31" and "default_ok e"
  shows "\<exists>n \<ge> 0. run_state (convert_content P e cur new) w = (case NVM_DataConvertFunc e of
     None \<Rightarrow> (0, used n w)
   | Some f \<Rightarrow> (case f cur new (idata i) (replicate (nat (rec_total e)) (CHR 0x00)) of (r, dst) \<Rightarrow>
       if r \<noteq> 1 then (0, used n w)
       else (1, used n (w\<lparr>fs := (fs w)(cFileName e \<mapsto> i\<lparr>idata := take (nat (rec_total e)) dst\<rparr>)\<rparr>))))"
proof -
  have sz: "to_int32 (st_size i) = int (length (idata i))"
    using assms(4,5) by (simp add: st_size_def to_int32_small)
  have n0: "0 \<le> rec_total e" using rec_total_ok [OF assms(6)] by simp
  note d = convert_content_def run_bind run_ret run_stat run_open run_read run_close run_malloc run_free run_open_trunc
    run_write sz Let_def
  show ?thesis
  proof (cases "NVM_DataConvertFunc e")
    case None
    then show ?thesis
      using assms n0 by (intro exI [of _ 1]) (simp add: d new_fd_def used_def)
  next
    case (Some f)
    obtain r dst where f: "f cur new (idata i) (replicate (nat (rec_total e)) (CHR 0x00)) = (r, dst)"
      by (cases "f cur new (idata i) (replicate (nat (rec_total e)) (CHR 0x00))")
    show ?thesis
    proof (cases "r = 1")
      case True
      then show ?thesis
        using Some f assms n0 by (intro exI [of _ 2]) (simp add: d new_fd_def wants_write_def used_def splice_def)
    next
      case False
      then show ?thesis
        using Some f assms n0 by (intro exI [of _ 1]) (simp add: d new_fd_def used_def)
    qed
  qed
qed

section \<open>The whole conversion of one file\<close>

text \<open>The version number the version file holds for a lid.\<close>

definition stored_ver :: "plat \<Rightarrow> nv_globals world \<Rightarrow> int \<Rightarrow> int" where
  "stored_ver P w lid = (case fs w (ver_path P) of None \<Rightarrow> 0
     | Some i \<Rightarrow> atoi (cstr (take 3 (drop ((nat lid + 1) * VERREC + 70) (idata i)))))"

lemma run_convert_head:
  assumes "kept P w" and "lid_ok P lid"
  defines "e \<equiv> file_of P lid"
  shows "run_state (NVM_DataVerConvert P lid) w = run_state (do {
      iResult \<leftarrow> convert_content P e (stored_ver P w lid) (atoi (cstr (cFileVer e)));
      if iResult = 0 then ret 0 else convert_finish P lid iResult }) (used 1 w)"
proof -
  have k: "wf_world w" "faults w = []" using assms(1) by (simp_all add: kept_def)
  obtain bl where bl: "ver_table P w bl" "in_order P bl" by (rule kept_table [OF assms(1)])
  obtain i where i: "fs w (ver_path P) = Some i" "ikind i = Reg" "idata i = concat bl"
    and b: "blocks VERREC bl" "bl \<noteq> []" "rec_name (hd bl) = strVerInfo" "length bl * VERREC < 2 ^ 31"
    using bl(1) by (auto simp: ver_table_def)
  obtain t where t: "NVM_GetCfgFileTable P lid = Some t" "in_table t (real_lid P lid)" "entry t (real_lid P lid) = e"
    unfolding e_def by (rule table_lookup [OF assms(2)])
  have at: "Suc (nat lid) < length bl" by (rule in_order_at(1) [OF bl(2) assms(2)])
  have l0: "0 \<le> lid" using assms(2) by (simp add: lid_ok_def)
  have len: "length (concat bl) = 74 * length bl" by (rule length_concat_blocks [OF b(1)])
  have hd: "cstr (take 69 (concat bl)) = strVerInfo"
    using rec_name_at [OF b(1), of 0] b(2,3) by (simp add: hd_conv_nth)
  have sz: "\<not> (lid + 1 + 1) * VERREC > st_size i" using i at l0 len by (simp add: st_size_def)
  have off: "nat ((lid + 1) * VERREC + 70) = (nat lid + 1) * VERREC + 70" using l0 by (simp add: nat_add_distrib nat_mult_distrib)
  have sv: "stored_ver P w lid = atoi (cstr (take 3 (drop (nat ((lid + 1) * VERREC + 70)) (concat bl))))"
    using i by (simp only: stored_ver_def off) simp
  have u: "w\<lparr>next_fd := next_fd w + 1\<rparr> = used 1 w" "(used 1 w)\<lparr>fds := fds w\<rparr> = used 1 w" "used 1 (w\<lparr>fds := fds w\<rparr>) = used 1 w"
    by (simp_all add: used_def)
  show ?thesis
    using k i t sz l0 hd
    by (simp add: NVM_DataVerConvert_def run_bind run_ret run_open run_read run_set_str run_stat run_lseek_set run_close run_check
        new_fd_def wants_write_def Let_def sv u del: run_state_bind)
qed

section \<open>Steps on one file\<close>

text \<open>
  \<open>stepped P lid L w w'\<close>: from \<open>w\<close> to \<open>w'\<close> only the file of \<open>lid\<close> and the version table have changed, and
  the table by making the lids of \<open>L\<close> current.
\<close>

definition stepped :: "plat \<Rightarrow> int \<Rightarrow> int set \<Rightarrow> nv_globals world \<Rightarrow> nv_globals world \<Rightarrow> bool" where
  "stepped P lid L w w' \<longleftrightarrow> kept P w' \<and> locks w' = locks w \<and> gl w' = gl w \<and> fds w' = fds w \<and>
     (\<exists>i. fs w' (cFileName (file_of P lid)) = Some i \<and> ikind i = Reg \<and> length (idata i) < 2 ^ 31) \<and>
     (\<forall>q. q \<noteq> cFileName (file_of P lid) \<and> q \<noteq> ver_path P \<longrightarrow> fs w' q = fs w q) \<and>
     (\<forall>j. lid_ok P j \<longrightarrow> fst (run_state (NVM_CmpFileVerNo P j) w') = (j \<in> L \<or> fst (run_state (NVM_CmpFileVerNo P j) w)))"

lemma stepped_trans: "stepped P lid L w v \<Longrightarrow> stepped P lid M v u \<Longrightarrow> stepped P lid (L \<union> M) w u"
  by (auto simp: stepped_def)

lemma stepped_used: "stepped P lid L w v \<Longrightarrow> 0 \<le> n \<Longrightarrow> stepped P lid L w (used n v)"
  using kept_used [of P v n] cmp_same [of P v "used n v"] by (auto simp: stepped_def)

lemma stepped_write:
  assumes "kept P w" and "fs w (cFileName (file_of P lid)) = Some i" and "ikind i = Reg" and "length x < 2 ^ 31"
    and "cFileName (file_of P lid) \<noteq> ver_path P" and "0 \<le> n"
  shows "stepped P lid {} w (used n (w\<lparr>fs := (fs w)(cFileName (file_of P lid) \<mapsto> i\<lparr>idata := x\<rparr>)\<rparr>))" (is "stepped P lid {} w ?w")
proof -
  have wf: "wf_world ?w" by (rule wf_later [where w = w]) (use assms(1,6) in \<open>simp_all add: kept_def\<close>)
  have v: "fs ?w (ver_path P) = fs w (ver_path P)" using assms(5) by simp
  have k: "kept P ?w" by (rule kept_same [OF assms(1) wf _ _ v]) (use assms(1) in \<open>simp_all add: kept_def\<close>)
  show ?thesis
    using assms k cmp_same [OF assms(1) k v] by (simp add: stepped_def)
qed

lemma stepped_update:
  assumes "kept P w" and "lid_ok P lid" and "fs w (cFileName (file_of P lid)) = Some i" and "ikind i = Reg"
    and "length (idata i) < 2 ^ 31" and "cFileName (file_of P lid) \<noteq> ver_path P"
  shows "stepped P lid {lid} w (snd (run_state (NVM_UpdateFileVerNo P lid VerUpdate) w))"
    and "fs (snd (run_state (NVM_UpdateFileVerNo P lid VerUpdate) w)) (cFileName (file_of P lid)) =
      fs w (cFileName (file_of P lid))"
proof -
  obtain bl where bl: "ver_table P w bl" "in_order P bl" by (rule kept_table [OF assms(1)])
  note u = run_update_kept [OF assms(1,2) bl] and u2 = updated_table [OF assms(1,2) bl]
  have o: "fs (with_table P w cl) q = fs w q" if "q \<noteq> ver_path P" for cl q
    using that by (simp add: with_table_def split: option.split)
  then show "stepped P lid {lid} w (snd (run_state (NVM_UpdateFileVerNo P lid VerUpdate) w))"
    using assms u2(3) cmp_updated [OF assms(1,2)] by (simp add: stepped_def u)
  show "fs (snd (run_state (NVM_UpdateFileVerNo P lid VerUpdate) w)) (cFileName (file_of P lid)) =
      fs w (cFileName (file_of P lid))"
    using o assms(6) by (simp add: u)
qed

lemma stepped_reset:
  assumes "kept P w" and "lid_ok P lid" and "lid \<noteq> iFileVerInfoLID P" and "dirlock \<notin> locks w"
    and "default_ok (file_of P lid)" and "fs w (cFileName (file_of P lid)) = Some i" and "ikind i = Reg"
    and "cFileName (file_of P lid) \<noteq> ver_path P" and "writable w (cFileName (file_of P lid))"
  obtains w' where "run_state (NVM_ResetFileToDefault P lid) w = (True, w')" and "stepped P lid {lid} w w'"
    and "map_option idata (fs w' (cFileName (file_of P lid))) =
      Some (default_data (file_of P lid) @ trailer P lid (default_data (file_of P lid)))"
proof -
  obtain w' j where r: "run_state (NVM_ResetFileToDefault P lid) w = (True, w')" "kept P w'"
    "\<forall>j. lid_ok P j \<longrightarrow> fst (run_state (NVM_CmpFileVerNo P j) w') = (j = lid \<or> fst (run_state (NVM_CmpFileVerNo P j) w))"
    "fs w' (cFileName (file_of P lid)) = Some j" "ikind j = Reg"
    "idata j = default_data (file_of P lid) @ trailer P lid (default_data (file_of P lid))" "locks w' = locks w"
    "gl w' = gl w" "fds w' = fds w"
    "\<forall>q. q \<noteq> cFileName (file_of P lid) \<and> q \<noteq> ver_path P \<and>
        (fs w (cFileName (file_of P lid)) = None \<longrightarrow> q \<notin> set (dir_prefixes [] (cFileName (file_of P lid)))) \<longrightarrow>
      fs w' q = fs w q"
    by (rule run_Reset [OF assms(1-5,9,8)])
  have "length (idata j) < 2 ^ 31"
    using length_default [OF assms(5)] by (simp add: r(6) trailer_def)
  then show ?thesis using r assms(6) by (intro that) (auto simp: stepped_def)
qed

lemma stepped_writable:
  assumes "stepped P lid L w w'" and "kept P w" and "fs w (cFileName (file_of P lid)) = Some i" and "ikind i = Reg"
    and "writable w p"
  shows "writable w' p"
proof -
  obtain j where j: "fs w (ver_path P) = Some j" "ikind j = Reg" by (rule ver_path_reg [OF assms(2)])
  obtain j' where j': "fs w' (ver_path P) = Some j'" "ikind j' = Reg"
    using assms(1) ver_path_reg [of P w'] by (auto simp: stepped_def)
  have fr: "fs w' q = fs w q" if "q \<noteq> cFileName (file_of P lid)" "q \<noteq> ver_path P" for q
    using assms(1) that by (simp add: stepped_def)
  have "q \<noteq> cFileName (file_of P lid) \<and> q \<noteq> ver_path P" if "q \<in> set (dir_prefixes [] p)" for q
    using assms(3-5) that j by (auto simp: writable_def is_dir_def)
  then have "fs w' q = None \<or> is_dir (fs w') q" if "q \<in> set (dir_prefixes [] p)" for q
    using assms(5) that fr by (auto simp: writable_def is_dir_def)
  moreover have "fs w' p = None \<or> (\<exists>j. fs w' p = Some j \<and> ikind j = Reg)"
  proof (cases "p = cFileName (file_of P lid) \<or> p = ver_path P")
    case True
    then show ?thesis using assms(1) j' by (auto simp: stepped_def)
  next
    case False
    then show ?thesis using assms(5) fr [of p] by (simp add: writable_def)
  qed
  ultimately show ?thesis by (simp add: writable_def)
qed

text \<open>
  The facts about one file that the conversion relies on: the file is a regular one of the tables
  with a usable default.
\<close>

definition stored_file :: "plat \<Rightarrow> nv_globals world \<Rightarrow> int \<Rightarrow> bool" where
  "stored_file P w lid \<longleftrightarrow> lid_ok P lid \<and> lid \<noteq> iFileVerInfoLID P \<and> default_ok (file_of P lid) \<and>
     cFileName (file_of P lid) \<noteq> ver_path P \<and> writable w (cFileName (file_of P lid)) \<and>
     (\<exists>i. fs w (cFileName (file_of P lid)) = Some i \<and> ikind i = Reg \<and> length (idata i) < 2 ^ 31)"

lemma stored_stepped:
  assumes "stepped P lid L w w'" and "kept P w" and "stored_file P w lid"
  shows "stored_file P w' lid"
proof -
  obtain i where i: "fs w (cFileName (file_of P lid)) = Some i" "ikind i = Reg" using assms(3) by (auto simp: stored_file_def)
  have "writable w' (cFileName (file_of P lid))"
    by (rule stepped_writable [OF assms(1,2) i]) (use assms(3) in \<open>simp add: stored_file_def\<close>)
  then show ?thesis using assms(1,3) by (auto simp: stored_file_def stepped_def)
qed

text \<open>
  What the protection makes of the content \<open>x\<close> of a stored file that is not backed up: the pair is
  added, computed anew (\<open>Setflag\<close>), found valid, or the file is reset.
\<close>

definition guarded :: "plat \<Rightarrow> int \<Rightarrow> bool \<Rightarrow> bytes \<Rightarrow> bytes" where
  "guarded P lid Setflag x = (let e = file_of P lid; d = default_data e; c = size_class e x; y = covered (c \<noteq> 0) x in
     if c = -1 then d @ trailer P lid d
     else if Setflag \<or> c = 0 then y @ [CHR 0xAA, c8 (check_no y)]
     else if checked x then x else d @ trailer P lid d)"

lemma size_class_cases: "size_class e x \<in> {-1, 0, 1}"
  by (simp add: size_class_def)

lemma run_Protect_stored:
  assumes "kept P w" and "stored_file P w lid" and "dirlock \<notin> locks w" and "recoverlock \<notin> locks w"
    and "\<not> backed_up P lid (file_of P lid)" and "fs w (cFileName (file_of P lid)) = Some i"
  obtains w' L where "run_state (NVM_ProtectDataFile P lid Setflag) w = (1, w')" and "stepped P lid L w w'" and "L \<subseteq> {lid}"
    and "map_option idata (fs w' (cFileName (file_of P lid))) = Some (guarded P lid Setflag (idata i))"
proof -
  let ?e = "file_of P lid"
  let ?p = "cFileName ?e" and ?c = "size_class (file_of P lid) (idata i)"
  have s: "lid_ok P lid" "lid \<noteq> iFileVerInfoLID P" "default_ok ?e" "?p \<noteq> ver_path P" "writable w ?p"
    and i: "ikind i = Reg" "length (idata i) < 2 ^ 31"
    using assms(2,6) by (auto simp: stored_file_def)
  have k: "wf_world w" "faults w = []" using assms(1) by (simp_all add: kept_def)
  obtain t where t: "NVM_GetCfgFileTable P lid = Some t" "in_table t (real_lid P lid)" "entry t (real_lid P lid) = ?e"
    by (rule table_lookup [OF s(1)])
  have l32: "length (idata i) < 2 ^ 32" using i(2) by simp
  note cs = run_size_class [OF k(2) s(3) t(2,3) assms(6) i(1) l32]
  note d = NVM_ProtectDataFile_def run_bind run_ret run_CheckVerFile_kept [OF assms(1)] Let_def
  have reset: "\<exists>w'. run_state (protect_restore P lid ?e) (used n w) = (1, w') \<and> stepped P lid {lid} w w' \<and>
      map_option idata (fs w' ?p) = Some (default_data ?e @ trailer P lid (default_data ?e))" if n: "0 \<le> n" for n
  proof -
    have kn: "kept P (used n w)" by (rule kept_used [OF assms(1) n])
    have sn: "stored_file P (used n w) lid" using assms(2) by (simp add: stored_file_def writable_def)
    have ln: "dirlock \<notin> locks (used n w)" "recoverlock \<notin> locks (used n w)" using assms(3,4) by simp_all
    obtain w' where r: "run_state (NVM_ResetFileToDefault P lid) (used n w) = (True, w')" "stepped P lid {lid} (used n w) w'"
        "map_option idata (fs w' ?p) = Some (default_data ?e @ trailer P lid (default_data ?e))"
      by (rule stepped_reset [OF kn s(1,2) ln(1) s(3) _ i(1) s(4)]) (use assms(6) s(5) sn in \<open>simp_all add: stored_file_def\<close>)
    have "stepped P lid {lid} w w'"
      using r(2) cmp_same [OF assms(1) kn] by (simp add: stepped_def)
    then show ?thesis using r(1,3) by (simp add: run_protect_restore [OF assms(5) ln(2)])
  qed
  consider "?c = -1" | "?c = 0 \<or> ?c = 1 \<and> Setflag" | "?c = 1" "\<not> Setflag"
    using size_class_cases [of ?e "idata i"] by blast
  then show ?thesis
  proof cases
    case 1
    obtain w' where r: "run_state (protect_restore P lid ?e) w = (1, w')" "stepped P lid {lid} w w'"
        "map_option idata (fs w' ?p) = Some (default_data ?e @ trailer P lid (default_data ?e))"
      using reset [of 0] by auto
    show ?thesis
      by (rule that [OF _ r(2)]) (use 1 s(2) t r in \<open>simp_all add: d cs guarded_def\<close>)
  next
    case 2
    let ?o = "?c \<noteq> 0"
    have tz: "0 \<le> table_size ?e" "table_size ?e < 2 ^ 31 - 2" using length_default [OF s(3)] by simp_all
    have big: "?o \<Longrightarrow> 2 \<le> length (idata i)" "length (idata i) \<le> nat (table_size ?e) + 2" "\<not> ?o \<Longrightarrow> length (idata i) = nat (table_size ?e)"
      using 2 by (auto simp: size_class_def split: if_splits)
    let ?x = "covered ?o (idata i) @ [CHR 0xAA, c8 (check_no (covered ?o (idata i)))]"
    let ?w = "used 2 (w\<lparr>fs := (fs w)(?p \<mapsto> i\<lparr>idata := ?x\<rparr>)\<rparr>)"
    have "run_state (NVM_SetCheckNo P (Some ?p) ?o) w = (True, ?w)"
      using run_SetCheckNo [OF k assms(6) i(1) l32, of ?o P] big(1) by simp
    then have r: "run_state (NVM_ProtectDataFile P lid Setflag) w = (1, ?w)"
      using 2 s(2) t by (auto simp: d cs simp del: used_fs)
    have lx: "length ?x < 2 ^ 31" using big tz by (auto simp: covered_def)
    have st: "stepped P lid {} w ?w" by (rule stepped_write [OF assms(1,6) i(1) lx s(4)]) simp
    show ?thesis by (rule that [OF r st]) (use 2 in \<open>auto simp: guarded_def Let_def\<close>)
  next
    case 3
    have l2: "2 \<le> length (idata i)" using 3(1) by (auto simp: size_class_def split: if_splits)
    have c: "run_state (NVM_CheckFile P (Some ?p)) w = (checked (idata i), used 2 w)"
      by (rule run_CheckFile [OF k assms(6) i(1) l32 l2])
    show ?thesis
    proof (cases "checked (idata i)")
      case True
      have "stepped P lid {} w w" using assms(1,6) i by (simp add: stepped_def)
      then have st: "stepped P lid {} w (used 2 w)" by (rule stepped_used) simp
      show ?thesis by (rule that [OF _ st]) (use True 3 s(2) t c assms(6) in \<open>simp_all add: d cs guarded_def\<close>)
    next
      case False
      obtain w' where r: "run_state (protect_restore P lid ?e) (used 2 w) = (1, w')" "stepped P lid {lid} w w'"
          "map_option idata (fs w' ?p) = Some (default_data ?e @ trailer P lid (default_data ?e))"
        using reset [of 2] by auto
      show ?thesis
        by (rule that [OF _ r(2)]) (use False 3 s(2) t c r in \<open>simp_all add: d cs guarded_def\<close>)
    qed
  qed
qed

section \<open>Outcome of a conversion\<close>

text \<open>What the converter of a file makes of its content.\<close>

definition converted :: "plat \<Rightarrow> nv_globals world \<Rightarrow> int \<Rightarrow> bytes option" where
  "converted P w lid = (let e = file_of P lid in case NVM_DataConvertFunc e of None \<Rightarrow> None
     | Some f \<Rightarrow> (case f (stored_ver P w lid) (atoi (cstr (cFileVer e))) (idata (the (fs w (cFileName e))))
         (replicate (nat (rec_total e)) (CHR 0x00)) of (r, dst) \<Rightarrow> if r = 1 then Some (take (nat (rec_total e)) dst) else None))"

lemma run_Convert_failed:
  assumes "kept P w" and "stored_file P w lid" and "converted P w lid = None"
  obtains n where "0 \<le> n" and "run_state (NVM_DataVerConvert P lid) w = (0, used n w)"
proof -
  obtain i where i: "fs w (cFileName (file_of P lid)) = Some i" "ikind i = Reg" "length (idata i) < 2 ^ 31"
    using assms(2) by (auto simp: stored_file_def)
  have k: "wf_world (used 1 w)" "faults (used 1 w) = []" using assms(1) by (simp_all add: kept_def)
  have s: "lid_ok P lid" "default_ok (file_of P lid)" using assms(2) by (simp_all add: stored_file_def)
  obtain n where n: "0 \<le> n" "run_state (convert_content P (file_of P lid) (stored_ver P w lid) (atoi (cstr (cFileVer (file_of P lid))))) (used 1 w) = (0, used (1 + n) w)"
    using run_convert_content [OF k, where e = "file_of P lid" and i = i and P = P
        and cur = "stored_ver P w lid" and new = "atoi (cstr (cFileVer (file_of P lid)))"] i s(2) assms(3)
    by (auto simp: converted_def Let_def split: option.splits prod.splits if_splits)
  show ?thesis
    by (rule that [of "1 + n"]) (use n run_convert_head [OF assms(1) s(1)] in \<open>simp_all add: run_bind run_ret\<close>)
qed

lemma run_Convert_done:
  assumes "kept P w" and "stored_file P w lid" and "converted P w lid = Some x"
    and "dirlock \<notin> locks w" and "recoverlock \<notin> locks w" and "\<not> backed_up P lid (file_of P lid)"
  obtains w' where "run_state (NVM_DataVerConvert P lid) w = (1, w')" and "stepped P lid {lid} w w'"
    and "map_option idata (fs w' (cFileName (file_of P lid))) =
      Some (if in_lid_list (aPerformance P) lid then x else guarded P lid True x)"
proof -
  let ?e = "file_of P lid"
  let ?p = "cFileName ?e" and ?cv = "\<lambda>w. run_state (convert_content P (file_of P lid) (stored_ver P w lid) (atoi (cstr (cFileVer (file_of P lid)))))"
  obtain i where i: "fs w ?p = Some i" "ikind i = Reg" "length (idata i) < 2 ^ 31"
    using assms(2) by (auto simp: stored_file_def)
  have k: "wf_world (used 1 w)" "faults (used 1 w) = []" using assms(1) by (simp_all add: kept_def)
  have s: "lid_ok P lid" "default_ok ?e" "?p \<noteq> ver_path P" using assms(2) by (simp_all add: stored_file_def)
  have u: "used m ((used 1 w)\<lparr>fs := f\<rparr>) = used (1 + m) (w\<lparr>fs := f\<rparr>)" for m f by (simp add: used_def)
  obtain m where m: "0 \<le> m" "?cv w (used 1 w) = (1, used m ((used 1 w)\<lparr>fs := (fs w)(?p \<mapsto> i\<lparr>idata := x\<rparr>)\<rparr>))"
    using run_convert_content [OF k, where e = "file_of P lid" and i = i and P = P
        and cur = "stored_ver P w lid" and new = "atoi (cstr (cFileVer (file_of P lid)))"] i s(2) assms(3)
    by (auto simp: converted_def Let_def simp del: used_fs split: option.splits prod.splits if_splits)
  obtain n where n: "0 \<le> n" "?cv w (used 1 w) = (1, used n (w\<lparr>fs := (fs w)(?p \<mapsto> i\<lparr>idata := x\<rparr>)\<rparr>))"
    by (rule that [of "1 + m"]) (use m u in simp_all)
  let ?w1 = "used n (w\<lparr>fs := (fs w)(?p \<mapsto> i\<lparr>idata := x\<rparr>)\<rparr>)"
  have "length x \<le> nat (rec_total ?e)"
    using assms(3) by (auto simp: converted_def Let_def split: option.splits prod.splits if_splits)
  moreover have "rec_total ?e < 2 ^ 31 - 2" using rec_total_ok [OF s(2)] s(2) by (simp add: default_ok_def)
  ultimately have lx: "length x < 2 ^ 31" by simp
  have s1: "stepped P lid {} w ?w1" by (rule stepped_write [OF assms(1) i(1,2) lx s(3) n(1)])
  have k1: "kept P ?w1" using s1 by (simp add: stepped_def)
  have f1: "fs ?w1 ?p = Some (i\<lparr>idata := x\<rparr>)" by simp
  let ?w2 = "snd (run_state (NVM_UpdateFileVerNo P lid VerUpdate) ?w1)"
  have s2: "stepped P lid {lid} ?w1 ?w2" by (rule stepped_update(1) [OF k1 s(1) f1]) (use i lx s(3) in simp_all)
  have s02: "stepped P lid {lid} w ?w2" using stepped_trans [OF s1 s2] by simp
  have k2: "kept P ?w2" and l2: "locks ?w2 = locks w" using s02 by (simp_all add: stepped_def)
  have f2: "map_option idata (fs ?w2 ?p) = Some x"
    using stepped_update(2) [of P ?w1 lid, OF k1 s(1) f1] i lx s(3) by simp
  show ?thesis
  proof (cases "in_lid_list (aPerformance P) lid")
    case True
    have r: "run_state (NVM_DataVerConvert P lid) w = (1, ?w2)"
      using True by (simp add: run_convert_head [OF assms(1) s(1)] run_bind run_ret n convert_finish_def case_prod_unfold del: used_fs)
    show ?thesis by (rule that [OF r s02]) (use True f2 in simp)
  next
    case False
    have st2: "stored_file P ?w2 lid" by (rule stored_stepped [OF s02 assms(1,2)])
    obtain i2 where i2: "fs ?w2 ?p = Some i2" "idata i2 = x" using f2 by auto
    obtain w' L where p: "run_state (NVM_ProtectDataFile P lid True) ?w2 = (1, w')" "stepped P lid L ?w2 w'" "L \<subseteq> {lid}"
        "map_option idata (fs w' ?p) = Some (guarded P lid True (idata i2))"
      by (rule run_Protect_stored [OF k2 st2 _ _ assms(6) i2(1)]) (use assms(4,5) l2 in simp_all)
    have "stepped P lid ({lid} \<union> L) w w'" by (rule stepped_trans [OF s02 p(2)])
    moreover have "{lid} \<union> L = {lid}" using p(3) by blast
    ultimately have s3: "stepped P lid {lid} w w'" by (simp only:)
    have r: "run_state (NVM_DataVerConvert P lid) w = (1, w')"
      using False by (simp add: run_convert_head [OF assms(1) s(1)] run_bind run_ret n convert_finish_def p(1) case_prod_unfold del: used_fs)
    show ?thesis by (rule that [OF r s3]) (use False p(4) i2(2) in simp)
  qed
qed

section \<open>One round of the loop\<close>

text \<open>The size test on a file that is current.\<close>

definition fitting :: "tcfg_file \<Rightarrow> bytes \<Rightarrow> bool" where
  "fitting e x \<longleftrightarrow> int (length x) = rec_total e \<or> int (length x) = rec_total e + 2"

lemma run_convert_current:
  assumes "kept P w" and "stored_file P w lid" and "fst (run_state (NVM_CmpFileVerNo P lid) w)"
  shows "run_state (convert_one P lid b) w =
    (Some (b \<or> \<not> fitting (file_of P lid) (idata (the (fs w (cFileName (file_of P lid)))))), used 1 w)"
proof -
  let ?e = "file_of P lid"
  have s: "lid_ok P lid" using assms(2) by (simp add: stored_file_def)
  obtain i where i: "fs w (cFileName ?e) = Some i" "ikind i = Reg" using assms(2) by (auto simp: stored_file_def)
  obtain t where t: "NVM_GetCfgFileTable P lid = Some t" "in_table t (real_lid P lid)" "entry t (real_lid P lid) = ?e"
    by (rule table_lookup [OF s])
  obtain bl where bl: "ver_table P w bl" "in_order P bl" by (rule kept_table [OF assms(1)])
  have k: "faults w = []" using assms(1) by (simp add: kept_def)
  have c: "run_state (NVM_CmpFileVerNo P lid) w = (True, used 1 w)"
    using run_cmp_kept [OF assms(1) s bl] assms(3) by simp
  show ?thesis
    using i t k by (auto simp: convert_one_def run_bind run_ret run_check run_stat c st_size_def fitting_def Let_def)
qed

lemma run_convert_missing:
  assumes "kept P w" and "lid_ok P lid" and "fs w (cFileName (file_of P lid)) = None"
  shows "run_state (convert_one P lid b) w = (Some b, w)"
proof -
  obtain t where t: "NVM_GetCfgFileTable P lid = Some t" "in_table t (real_lid P lid)" "entry t (real_lid P lid) = file_of P lid"
    by (rule table_lookup [OF assms(2)])
  show ?thesis
    using t assms by (simp add: convert_one_def run_bind run_ret run_check run_stat kept_def Let_def)
qed

lemma run_convert_outdated:
  assumes "kept P w" and "stored_file P w lid" and "\<not> fst (run_state (NVM_CmpFileVerNo P lid) w)"
    and "dirlock \<notin> locks w" and "recoverlock \<notin> locks w"
    and "backed_up P lid (file_of P lid) \<longrightarrow> NVM_DataConvertFunc (file_of P lid) = None"
  obtains w' where "run_state (convert_one P lid b) w = (Some b, w')" and "stepped P lid {lid} w w'"
proof -
  let ?e = "file_of P lid"
  let ?p = "cFileName ?e"
  have s: "lid_ok P lid" "lid \<noteq> iFileVerInfoLID P" "default_ok ?e" "?p \<noteq> ver_path P"
    using assms(2) by (simp_all add: stored_file_def)
  obtain i where i: "fs w ?p = Some i" "ikind i = Reg" "length (idata i) < 2 ^ 31" using assms(2) by (auto simp: stored_file_def)
  obtain t where t: "NVM_GetCfgFileTable P lid = Some t" "in_table t (real_lid P lid)" "entry t (real_lid P lid) = ?e"
    by (rule table_lookup [OF s(1)])
  obtain bl where bl: "ver_table P w bl" "in_order P bl" by (rule kept_table [OF assms(1)])
  have k: "wf_world w" "faults w = []" using assms(1) by (simp_all add: kept_def)
  have c: "run_state (NVM_CmpFileVerNo P lid) w = (False, used 1 w)"
    using run_cmp_kept [OF assms(1) s(1) bl] assms(3) by simp
  let ?u = "used 1 w"
  have ku: "kept P ?u" by (rule kept_used [OF assms(1)]) simp
  have su: "stored_file P ?u lid" using assms(2) by (simp add: stored_file_def writable_def)
  have "stored_ver P ?u lid = stored_ver P w lid" by (simp add: stored_ver_def)
  then have cu: "converted P ?u lid = converted P w lid" by (simp add: converted_def Let_def split: option.split)
  have stu: "stepped P lid L w v" if "stepped P lid L ?u v" for L v
    using that cmp_same [OF assms(1) ku] by (simp add: stepped_def)
  show ?thesis
  proof (cases "converted P w lid")
    case (Some x)
    then have "\<not> backed_up P lid ?e" using assms(6) by (auto simp: converted_def)
    from run_Convert_done [OF ku su, of x] Some cu this assms(4,5)
    obtain w' where r: "run_state (NVM_DataVerConvert P lid) ?u = (1, w')" "stepped P lid {lid} ?u w'" by auto
    show ?thesis
      by (rule that [OF _ stu [OF r(2)]]) (use t i k r(1) in \<open>simp add: convert_one_def run_bind run_ret run_check run_stat c Let_def\<close>)
  next
    case None
    obtain n where n: "0 \<le> n" "run_state (NVM_DataVerConvert P lid) ?u = (0, used n ?u)"
      by (rule run_Convert_failed [OF ku su]) (use None cu in simp_all)
    let ?w1 = "used (1 + n + 1) (w\<lparr>fs := (fs w)(?p \<mapsto> i\<lparr>idata := []\<rparr>)\<rparr>)"
    have o: "run_state (do { fd \<leftarrow> sys_open ?p [O_TRUNC, O_RDWR] 0; if fd = -1 then ret None else do { _ \<leftarrow> sys_close fd; m } }) (used n ?u) =
        run_state m ?w1" for m :: "bool option nv"
      using k i n(1) by (simp add: run_bind run_ret run_open_trunc run_close, simp add: used_def ac_simps world_order)
    have s1: "stepped P lid {} w ?w1" by (rule stepped_write [OF assms(1) i(1,2) _ s(4)]) (use n(1) in simp_all)
    have st1: "stored_file P ?w1 lid" by (rule stored_stepped [OF s1 assms(1,2)])
    have k1: "kept P ?w1" "locks ?w1 = locks w" using s1 by (simp_all add: stepped_def)
    obtain w' where r: "run_state (NVM_ResetFileToDefault P lid) ?w1 = (True, w')" "stepped P lid {lid} ?w1 w'"
      by (rule stepped_reset [OF k1(1) s(1,2) _ s(3), of "i\<lparr>idata := []\<rparr>"])
         (use assms(4) k1(2) i st1 s(4) in \<open>simp_all add: stored_file_def\<close>)
    have "stepped P lid {lid} w w'" using stepped_trans [OF s1 r(2)] by simp
    moreover have "run_state (convert_one P lid b) w = (Some b, w')"
      using t i k n o r(1)
      by (simp add: convert_one_def run_bind [of "sys_stat _"] run_bind [of "check _ _"] run_bind [of "NVM_CmpFileVerNo _ _"]
          run_bind [of "NVM_DataVerConvert _ _"] run_bind [of "NVM_ResetFileToDefault _ _"] run_ret run_check run_stat c Let_def del: used_fs)
    ultimately show ?thesis by (intro that)
  qed
qed

section \<open>The loop\<close>

definition convertible :: "plat \<Rightarrow> nv_globals world \<Rightarrow> bool" where
  "convertible P w \<longleftrightarrow> kept P w \<and> dirlock \<notin> locks w \<and> recoverlock \<notin> locks w \<and>
     (\<forall>j. lid_ok P j \<and> j \<noteq> iFileVerInfoLID P \<longrightarrow>
        (fs w (cFileName (file_of P j)) = None \<or> stored_file P w j) \<and>
        (backed_up P j (file_of P j) \<longrightarrow> NVM_DataConvertFunc (file_of P j) = None))"

lemma paths_differ:
  assumes "kept P w" and "lid_ok P j" and "lid_ok P k" and "j \<noteq> k"
  shows "cFileName (file_of P j) \<noteq> cFileName (file_of P k)"
proof
  assume "cFileName (file_of P j) = cFileName (file_of P k)"
  then have "base_name (file_of P j) = base_name (file_of P k)" by (simp add: base_name_def)
  moreover have "distinct (map base_name (all_files P))" using assms(1) by (simp add: kept_def names_def)
  ultimately have "nat j = nat k"
    using assms(2,3) nth_eq_iff_index_eq [of "map base_name (all_files P)" "nat j" "nat k"]
    by (simp add: lid_ok_def file_of_def nat_less_iff)
  then show False using assms(2-4) by (simp add: lid_ok_def eq_nat_nat_iff)
qed

lemma ver_path_differs:
  assumes "kept P w" and "lid_ok P j" and "j \<noteq> iFileVerInfoLID P"
  shows "cFileName (file_of P j) \<noteq> ver_path P"
proof -
  have p: "plat_ok P" using assms(1) by (simp add: kept_def)
  then obtain e es where "g_akCFG_File P = e # es" by (auto simp: plat_ok_def neq_Nil_conv)
  then have "lid_ok P 0" "ver_path P = cFileName (file_of P 0)"
    using p by (simp_all add: lid_ok_def plat_ok_def ver_path_def entry_def in_table_def file_of_def all_files_def)
  then show ?thesis using paths_differ [OF assms(1,2), of 0] assms(3) p by (simp add: plat_ok_def)
qed

lemma convertible_stepped:
  assumes "convertible P w" and "stored_file P w lid" and "stepped P lid L w v"
  shows "convertible P v" and "fs v q = None \<longleftrightarrow> fs w q = None"
proof -
  have k: "kept P w" "kept P v" "locks v = locks w" using assms(1,3) by (simp_all add: convertible_def stepped_def)
  have lid: "lid_ok P lid" using assms(2) by (simp add: stored_file_def)
  obtain i where i: "fs w (cFileName (file_of P lid)) = Some i" "ikind i = Reg" using assms(2) by (auto simp: stored_file_def)
  obtain j where j: "fs w (ver_path P) = Some j" by (rule ver_path_reg [OF k(1)])
  obtain j' where j': "fs v (ver_path P) = Some j'" by (rule ver_path_reg [OF k(2)])
  have fr: "fs v q = fs w q" if "q \<noteq> cFileName (file_of P lid)" "q \<noteq> ver_path P" for q
    using assms(3) that by (simp add: stepped_def)
  show ex: "fs v q = None \<longleftrightarrow> fs w q = None" for q
  proof (cases "q = cFileName (file_of P lid) \<or> q = ver_path P")
    case True
    then show ?thesis using i j j' assms(3) by (auto simp: stepped_def)
  next
    case False
    then show ?thesis using fr [of q] by simp
  qed
  have "stored_file P v h" if h: "stored_file P w h" for h
  proof (cases "h = lid")
    case True
    then show ?thesis using stored_stepped [OF assms(3) k(1) assms(2)] by simp
  next
    case False
    have "lid_ok P h" using h by (simp add: stored_file_def)
    then have "cFileName (file_of P h) \<noteq> cFileName (file_of P lid)" by (rule paths_differ [OF k(1) _ lid False])
    moreover have "writable v (cFileName (file_of P h))"
      by (rule stepped_writable [OF assms(3) k(1) i]) (use h in \<open>simp add: stored_file_def\<close>)
    ultimately show ?thesis using h fr by (simp add: stored_file_def)
  qed
  then show "convertible P v" using assms(1) k ex by (auto simp: convertible_def)
qed

text \<open>A round at any lid: the file becomes current if it exists; nothing else changes.\<close>

lemma run_convert_one:
  assumes "convertible P w" and "lid_ok P lid" and "lid \<noteq> iFileVerInfoLID P"
  defines "cur \<equiv> fst (run_state (NVM_CmpFileVerNo P lid) w)" and "p \<equiv> cFileName (file_of P lid)"
  obtains v where
    "run_state (convert_one P lid b) w = (Some (b \<or> cur \<and> fs w p \<noteq> None \<and> \<not> fitting (file_of P lid) (idata (the (fs w p)))), v)"
    and "convertible P v" and "locks v = locks w" and "\<forall>q. fs v q = None \<longleftrightarrow> fs w q = None"
    and "\<forall>q. q \<noteq> ver_path P \<and> (cur \<or> q \<noteq> p) \<longrightarrow> fs v q = fs w q"
    and "\<forall>j. lid_ok P j \<longrightarrow> fst (run_state (NVM_CmpFileVerNo P j) v) =
      (j = lid \<and> fs w p \<noteq> None \<or> fst (run_state (NVM_CmpFileVerNo P j) w))"
proof -
  have k: "kept P w" "dirlock \<notin> locks w" "recoverlock \<notin> locks w" using assms(1) by (simp_all add: convertible_def)
  have "fs w p = None \<or> stored_file P w lid" using assms(1-3) by (simp add: convertible_def p_def)
  then consider "fs w p = None" | "stored_file P w lid" "cur" | "stored_file P w lid" "\<not> cur"
    by (cases cur) auto
  then show ?thesis
  proof cases
    case 1
    show ?thesis
      by (rule that [of w]) (use 1 run_convert_missing [OF k(1) assms(2), of b] assms(1) in \<open>simp_all add: p_def\<close>)
  next
    case 2
    have ku: "kept P (used 1 w)" by (rule kept_used [OF k(1)]) simp
    have "convertible P (used 1 w)" using assms(1) ku by (auto simp: convertible_def stored_file_def writable_def)
    moreover have "fs w p \<noteq> None" using 2 by (auto simp: stored_file_def p_def)
    ultimately show ?thesis
      using run_convert_current [OF k(1) 2(1), of b] 2(2) cmp_same [OF k(1) ku]
      by (intro that [of "used 1 w"]) (auto simp: p_def cur_def)
  next
    case 3
    have b: "backed_up P lid (file_of P lid) \<longrightarrow> NVM_DataConvertFunc (file_of P lid) = None"
      using assms(1-3) by (simp add: convertible_def)
    obtain v where v: "run_state (convert_one P lid b) w = (Some b, v)" "stepped P lid {lid} w v"
      by (rule run_convert_outdated [OF k(1) 3(1) _ k(2,3) b]) (use 3(2) in \<open>simp add: cur_def\<close>)
    have "fs w p \<noteq> None" using 3 by (auto simp: stored_file_def p_def)
    then show ?thesis
      using v convertible_stepped [OF assms(1) 3(1) v(2)] 3(2) by (intro that [of v]) (auto simp: stepped_def p_def)
  qed
qed

lemma run_convert_loop:
  assumes "convertible P w" and "\<forall>lid \<in> set lids. lid_ok P lid \<and> lid \<noteq> iFileVerInfoLID P" and "distinct lids"
  shows "\<exists>w' r. run_state (convert_loop P lids b) w = (r, w') \<and> convertible P w' \<and> locks w' = locks w \<and>
    (\<forall>q. fs w' q = None \<longleftrightarrow> fs w q = None) \<and>
    (\<forall>q. q \<noteq> ver_path P \<and> (\<forall>j \<in> set lids. fst (run_state (NVM_CmpFileVerNo P j) w) \<or> q \<noteq> cFileName (file_of P j)) \<longrightarrow>
       fs w' q = fs w q) \<and>
    (\<forall>j. lid_ok P j \<longrightarrow> fst (run_state (NVM_CmpFileVerNo P j) w') =
       (j \<in> set lids \<and> fs w (cFileName (file_of P j)) \<noteq> None \<or> fst (run_state (NVM_CmpFileVerNo P j) w))) \<and>
    (r \<longleftrightarrow> \<not> b \<and> (\<forall>j \<in> set lids. fst (run_state (NVM_CmpFileVerNo P j) w) \<and> fs w (cFileName (file_of P j)) \<noteq> None \<longrightarrow>
       fitting (file_of P j) (idata (the (fs w (cFileName (file_of P j)))))))"
  using assms
proof (induction lids arbitrary: w b)
  case Nil
  then show ?case by (simp add: run_ret)
next
  case (Cons lid ls)
  let ?c = "\<lambda>w j. fst (run_state (NVM_CmpFileVerNo P j) w)" and ?p = "\<lambda>j. cFileName (file_of P j)"
  have lid: "lid_ok P lid" "lid \<noteq> iFileVerInfoLID P" using Cons.prems(2) by simp_all
  have k: "kept P w" using Cons.prems(1) by (simp add: convertible_def)
  let ?b = "b \<or> ?c w lid \<and> fs w (?p lid) \<noteq> None \<and> \<not> fitting (file_of P lid) (idata (the (fs w (?p lid))))"
  obtain v where v: "run_state (convert_one P lid b) w = (Some ?b, v)" "convertible P v" "locks v = locks w"
    "\<forall>q. fs v q = None \<longleftrightarrow> fs w q = None" "\<forall>q. q \<noteq> ver_path P \<and> (?c w lid \<or> q \<noteq> ?p lid) \<longrightarrow> fs v q = fs w q"
    "\<forall>j. lid_ok P j \<longrightarrow> ?c v j = (j = lid \<and> fs w (?p lid) \<noteq> None \<or> ?c w j)"
    by (rule run_convert_one [OF Cons.prems(1) lid])
  obtain w' r where r: "run_state (convert_loop P ls ?b) v = (r, w')" "convertible P w'" "locks w' = locks v"
    "\<forall>q. fs w' q = None \<longleftrightarrow> fs v q = None"
    "\<forall>q. q \<noteq> ver_path P \<and> (\<forall>j \<in> set ls. ?c v j \<or> q \<noteq> ?p j) \<longrightarrow> fs w' q = fs v q"
    "\<forall>j. lid_ok P j \<longrightarrow> ?c w' j = (j \<in> set ls \<and> fs v (?p j) \<noteq> None \<or> ?c v j)"
    "r \<longleftrightarrow> \<not> ?b \<and> (\<forall>j \<in> set ls. ?c v j \<and> fs v (?p j) \<noteq> None \<longrightarrow> fitting (file_of P j) (idata (the (fs v (?p j)))))"
    using Cons.IH [OF v(2), of ?b] Cons.prems(2,3) by auto
  have ls: "lid_ok P j \<and> j \<noteq> lid \<and> ?c v j = ?c w j \<and> fs v (?p j) = fs w (?p j)" if "j \<in> set ls" for j
  proof -
    have j: "lid_ok P j" "j \<noteq> iFileVerInfoLID P" "j \<noteq> lid" using that Cons.prems(2,3) by auto
    then show ?thesis
      using v(5,6) paths_differ [OF k j(1) lid(1) j(3)] ver_path_differs [OF k j(1,2)] by simp
  qed
  have "run_state (convert_loop P (lid # ls) b) w = (r, w')" using v(1) r(1) by (simp add: run_bind)
  moreover have "\<forall>q. q \<noteq> ver_path P \<and> (\<forall>j \<in> set (lid # ls). ?c w j \<or> q \<noteq> ?p j) \<longrightarrow> fs w' q = fs w q"
    using r(5) v(5) ls by auto
  moreover have "\<forall>j. lid_ok P j \<longrightarrow> ?c w' j = (j \<in> set (lid # ls) \<and> fs w (?p j) \<noteq> None \<or> ?c w j)"
    using r(6) v(4,6) ls by auto
  moreover have "r \<longleftrightarrow> \<not> b \<and> (\<forall>j \<in> set (lid # ls). ?c w j \<and> fs w (?p j) \<noteq> None \<longrightarrow> fitting (file_of P j) (idata (the (fs w (?p j)))))"
    using r(7) ls by auto
  ultimately show ?case using v(3,4) r(2-4) by (intro exI [of _ w'] exI [of _ r]) simp
qed

section \<open>Properties of a conversion\<close>

text \<open>
  When the converter of a file of the unchecked list or of the checked ones accepts its content,
  the file holds what the converter made, followed by a valid check pair if it is checked; the file
  is current and no other file has changed.
\<close>

theorem DataVerConvert_converts:
  assumes "kept P w" and "stored_file P w lid" and "converted P w lid = Some x" and "int (length x) = table_size (file_of P lid)"
    and "dirlock \<notin> locks w" and "recoverlock \<notin> locks w" and "\<not> backed_up P lid (file_of P lid)"
  shows "let (r, w') = run_state (NVM_DataVerConvert P lid) w; p = cFileName (file_of P lid) in
    r = 1 \<and> kept P w' \<and> locks w' = locks w \<and> fst (run_state (NVM_CmpFileVerNo P lid) w') \<and>
    map_option idata (fs w' p) = Some (if in_lid_list (aPerformance P) lid then x else x @ [CHR 0xAA, c8 (check_no x)]) \<and>
    (\<forall>q. q \<noteq> p \<and> q \<noteq> ver_path P \<longrightarrow> fs w' q = fs w q)"
proof -
  obtain w' where r: "run_state (NVM_DataVerConvert P lid) w = (1, w')" "stepped P lid {lid} w w'"
    "map_option idata (fs w' (cFileName (file_of P lid))) = Some (if in_lid_list (aPerformance P) lid then x else guarded P lid True x)"
    by (rule run_Convert_done [OF assms(1-3,5-7)])
  have "size_class (file_of P lid) x = 0" by (simp add: size_class_def assms(4) [symmetric])
  moreover have "lid_ok P lid" using assms(2) by (simp add: stored_file_def)
  moreover from calculation have "guarded P lid True x = x @ [CHR 0xAA, c8 (check_no x)]" by (simp add: guarded_def covered_def Let_def)
  ultimately show ?thesis using r by (auto simp: stepped_def)
qed

text \<open>The files of a device that the conversion of all files works on.\<close>

definition usable_files :: "plat \<Rightarrow> nv_globals world \<Rightarrow> bool" where
  "usable_files P w \<longleftrightarrow> (\<forall>j. lid_ok P j \<and> j \<noteq> iFileVerInfoLID P \<longrightarrow>
     (fs w (cFileName (file_of P j)) = None \<or> stored_file P w j) \<and>
     (backed_up P j (file_of P j) \<longrightarrow> NVM_DataConvertFunc (file_of P j) = None))"

lemma usable_files_table:
  assumes "usable_files P w" and "fs w (ver_path P) = Some i" and "ikind i = Reg" and "fs w' (ver_path P) = Some i'" and "ikind i' = Reg"
    and "\<forall>q. q \<noteq> ver_path P \<longrightarrow> fs w' q = fs w q" and "kept P w'"
  shows "usable_files P w'"
proof -
  have d: "fs w' q = None \<or> is_dir (fs w') q \<longleftrightarrow> fs w q = None \<or> is_dir (fs w) q" for q
    using assms(2-6) by (cases "q = ver_path P") (simp_all add: is_dir_def)
  have o: "fs w' (cFileName (file_of P j)) = fs w (cFileName (file_of P j))" if "lid_ok P j" "j \<noteq> iFileVerInfoLID P" for j
    using assms(6) ver_path_differs [OF assms(7) that] by simp
  have "stored_file P w' j" if "stored_file P w j" for j
    using that o [of j] by (simp add: stored_file_def writable_def d)
  then show ?thesis using assms(1) o unfolding usable_files_def by auto
qed

text \<open>
  C10.  After an update to a release whose tables extend the old ones, \<open>NVM_DataVerConvertAll\<close> leaves
  every stored file current.  The files that were current keep their content, and the result says
  whether those have the size of the tables.
\<close>

theorem DataVerConvertAll_current:
  assumes "plat_ok P" and "distinct (names P)" and "wf_world w" and "faults w = []"
    and "locks w \<inter> {generateFileVerlock, dirlock, recoverlock} = {}"
    and "ver_table P w bl" and "map rec_name bl = old_names P a b"
    and "0 < a" and "a \<le> length (g_akCFG_File P)" and "0 < b" and "b \<le> length (g_akCFG_File_Custom P)"
    and "usable_files P w"
  shows "let (r, w') = run_state (NVM_DataVerConvertAll P (of_nat a) (of_nat b)) w;
      files = {j. lid_ok P j \<and> j \<noteq> iFileVerInfoLID P \<and> fs w (cFileName (file_of P j)) \<noteq> None};
      current = {j \<in> files. new_lid P a b j \<or> fst (run_state (NVM_CmpFileVerNo P j) w)};
      content = (\<lambda>w j. map_option idata (fs w (cFileName (file_of P j)))) in
    kept P w' \<and> locks w' = locks w \<and> (\<forall>q. fs w' q = None \<longleftrightarrow> fs w q = None) \<and>
    (\<forall>j \<in> files. fst (run_state (NVM_CmpFileVerNo P j) w')) \<and>
    (\<forall>j \<in> current. content w' j = content w j) \<and>
    (r \<longleftrightarrow> (\<forall>j \<in> current. fitting (file_of P j) (the (content w j))))"
proof -
  let ?c = "\<lambda>w j. fst (run_state (NVM_CmpFileVerNo P j) w)" and ?p = "\<lambda>j. cFileName (file_of P j)"
  have g: "generateFileVerlock \<notin> locks w" using assms(5) by auto
  obtain n where r1: "run_state (NVM_CheckFileNum P (of_nat a) (of_nat b)) w = (True, used n (with_table P w (extended P a b bl)))"
    and k: "kept P (used n (with_table P w (extended P a b bl)))"
    and t: "ver_table P (used n (with_table P w (extended P a b bl))) (extended P a b bl)"
    using run_CheckFileNum [OF assms(1-4) g assms(6-11)] by blast
  define v where "v = used n (with_table P w (extended P a b bl))"
  obtain i where i: "fs w (ver_path P) = Some i" "ikind i = Reg" using assms(6) by (auto simp: ver_table_def)
  obtain i' where i': "fs v (ver_path P) = Some i'" "ikind i' = Reg" using t by (auto simp: ver_table_def v_def)
  have o: "\<forall>q. q \<noteq> ver_path P \<longrightarrow> fs v q = fs w q" by (auto simp: v_def with_table_def split: option.split)
  have cv: "?c v j = (new_lid P a b j \<or> ?c w j)" if "lid_ok P j" for j
    unfolding v_def by (rule extended_compare [OF assms(1-4,6,7,9,11) k t that])
  have kv: "kept P v" using k by (simp add: v_def)
  have "usable_files P v" by (rule usable_files_table [OF assms(12) i i' o kv])
  then have conv: "convertible P v" using kv assms(5) by (simp add: convertible_def usable_files_def v_def)
  let ?lids = "[1..iNvRamFileMaxLID P - 1]"
  have lids: "j \<in> set ?lids \<longleftrightarrow> lid_ok P j \<and> j \<noteq> iFileVerInfoLID P" for j
    using assms(1) by (auto simp: lid_ok_def plat_ok_def)
  obtain w' r where r2: "run_state (convert_loop P ?lids False) v = (r, w')" "convertible P w'" "locks w' = locks v"
    "\<forall>q. fs w' q = None \<longleftrightarrow> fs v q = None"
    "\<forall>q. q \<noteq> ver_path P \<and> (\<forall>j \<in> set ?lids. ?c v j \<or> q \<noteq> ?p j) \<longrightarrow> fs w' q = fs v q"
    "\<forall>j. lid_ok P j \<longrightarrow> ?c w' j = (j \<in> set ?lids \<and> fs v (?p j) \<noteq> None \<or> ?c v j)"
    "r \<longleftrightarrow> (\<forall>j \<in> set ?lids. ?c v j \<and> fs v (?p j) \<noteq> None \<longrightarrow> fitting (file_of P j) (idata (the (fs v (?p j)))))"
    using run_convert_loop [OF conv, of ?lids False] lids by auto
  have ov: "fs v (?p j) = fs w (?p j)" "?p j \<noteq> ver_path P" if "lid_ok P j" "j \<noteq> iFileVerInfoLID P" for j
    using o ver_path_differs [OF kv that] by simp_all
  have n0: "(of_nat a :: u32) \<noteq> 0" "(of_nat b :: u32) \<noteq> 0"
    using assms(8-11) assms(1) word_of_count [of a] word_of_count [of b]
    by (auto simp: plat_ok_def all_files_def simp flip: unat_eq_0)
  have cvf: "run_state (NVM_CheckVerFile P True) w = (True, w)"
    using i assms(4) by (simp add: NVM_CheckVerFile_def run_bind run_stat run_ret)
  have run: "run_state (NVM_DataVerConvertAll P (of_nat a) (of_nat b)) w = (r, w')"
    using n0 r2(1) by (simp add: NVM_DataVerConvertAll_def run_bind run_ret cvf r1 v_def)
  have ex: "\<forall>q. fs w' q = None \<longleftrightarrow> fs w q = None" using r2(4) o i i' by (metis option.distinct(1))
  have same: "fs w' (?p j) = fs w (?p j)" if "lid_ok P j" "j \<noteq> iFileVerInfoLID P" "new_lid P a b j \<or> ?c w j" for j
  proof -
    note j = that
    have "?c v h \<or> ?p j \<noteq> ?p h" if h: "h \<in> set ?lids" for h
    proof (cases "h = j")
      case True
      then show ?thesis using cv j by simp
    next
      case False
      have "lid_ok P h" using h lids by blast
      then show ?thesis using paths_differ [OF kv _ j(1)] False by metis
    qed
    then show ?thesis using r2(5) ov [OF j(1,2)] by simp
  qed
  show ?thesis
    unfolding run Let_def prod.case
  proof (intro conjI)
    show "kept P w'" using r2(2) by (simp add: convertible_def)
    show "locks w' = locks w" using r2(3) by (simp add: v_def)
    show "\<forall>q. fs w' q = None \<longleftrightarrow> fs w q = None" by (rule ex)
    show "\<forall>j \<in> {j. lid_ok P j \<and> j \<noteq> iFileVerInfoLID P \<and> fs w (?p j) \<noteq> None}. ?c w' j"
      using r2(6) lids ov by simp
  qed (use same r2(7) lids ov cv in auto)
qed

section \<open>Instances\<close>

definition e_cam :: tcfg_file where
  "e_cam = \<lparr>cFileName = ''/nvdata/CAM'', cFileVer = ''003'' @ [CHR 0x00], i4RecSize = 2, i4RecNum = 1,
     stDefualType = DEFAULT_FF, pDefualtVaule = None, bDataProcessingType = 0,
     NVM_DataConvertFunc = Some (\<lambda>old new src dst. (1, rev (take 2 src)))\<rparr>"

definition P1 :: plat where
  "P1 = P0\<lparr>g_akCFG_File_Custom := [e_cam], aPerformance := []\<rparr>"

lemma P1_files: "all_files P1 = [e_ver, e_wifi, e_cam]" "file_of P1 2 = e_cam" "ver_path P1 = ''/nvdata/FILE_VER''"
    "iFileVerInfoLID P1 = 0"
  by (simp_all add: all_files_def P1_def P0_def file_of_def ver_path_def entry_def in_table_def e_ver_def)

lemma P1_ok: "plat_ok P1" "distinct (names P1)"
  by (simp_all add: plat_ok_def names_def P1_files, simp_all add: P1_def P0_def e_ver_def e_wifi_def e_cam_def entry_ok_def no_nul_def
      after_last_slash_def strVerInfo_def base_name_def)

abbreviation sample_cam :: "nv_globals world" where
  "sample_cam \<equiv> disk [(''/nvdata/FILE_VER'', reg (concat (default_table P1))), (''/nvdata/CAM'', reg ''abcd'')]"

theorem DataVerConvert_converts_witness:
  "map_option idata (fs (snd (run_state (NVM_DataVerConvert P1 2) sample_cam)) ''/nvdata/CAM'') =
    Some (''ba'' @ [CHR 0xAA, c8 (check_no ''ba'')])"
proof -
  have f: "cFileName e_cam = ''/nvdata/CAM''" by (simp add: e_cam_def)
  have "ver_table P1 sample_cam (default_table P1)"
    using default_table_props [OF P1_ok(1)] by (simp add: ver_table_def P1_files)
  then have k: "kept P1 sample_cam"
    unfolding kept_def using default_in_order [OF P1_ok(1)] P1_ok by (intro conjI exI [of _ "default_table P1"]) simp_all
  have l: "lid_ok P1 2" using P1_ok(1) by (simp add: lid_ok_def P1_files)
  have d: "default_ok e_cam" by (simp add: default_ok_def e_cam_def)
  have s: "stored_file P1 sample_cam 2"
    using l d by (simp add: stored_file_def P1_files f writable_def is_dir_def new_inode_def)
  have c: "converted P1 sample_cam 2 = Some ''ba''"
    by (simp add: converted_def P1_files f) (simp add: e_cam_def rec_total_def to_int32_small)
  have "let (r, w') = run_state (NVM_DataVerConvert P1 2) sample_cam; p = cFileName (file_of P1 2) in
    r = 1 \<and> kept P1 w' \<and> locks w' = locks sample_cam \<and> fst (run_state (NVM_CmpFileVerNo P1 2) w') \<and>
    map_option idata (fs w' p) = Some (if in_lid_list (aPerformance P1) 2 then ''ba'' else ''ba'' @ [CHR 0xAA, c8 (check_no ''ba'')]) \<and>
    (\<forall>q. q \<noteq> p \<and> q \<noteq> ver_path P1 \<longrightarrow> fs w' q = fs sample_cam q)"
    by (rule DataVerConvert_converts [OF k s c])
       (simp_all add: P1_files, simp_all add: e_cam_def table_size_def to_int32_small backed_up_def P1_def P0_def after_last_slash_def)
  then show ?thesis
    by (simp add: P1_files f case_prod_unfold Let_def del: disk_sel(9)) (simp add: P1_def in_lid_list_def)
qed

abbreviation sample_update :: "nv_globals world" where
  "sample_update \<equiv> disk [(''/nvdata/FILE_VER'', reg (concat (without 2 (default_table P0)))),
     (''/nvdata/WIFI'', reg ''abcdefgh''), (''/nvdata/BT_Addr'', reg ''xyz'')]"

theorem DataVerConvertAll_current_witness:
  "map_option idata (fs (snd (run_state (NVM_DataVerConvertAll P0 1 1) sample_update)) ''/nvdata/WIFI'') = Some ''abcdefgh''"
proof -
  let ?bl = "[header_rec P0, mkrec e_ver, mkrec e_bt]" and ?w = sample_update
  have a: "all_files P0 = [e_ver, e_wifi, e_bt]" "length (g_akCFG_File P0) = 2" "length (g_akCFG_File_Custom P0) = 1"
    by (simp_all add: all_files_def P0_def)
  have b: "without 2 (default_table P0) = ?bl" by (simp add: default_table_def a without_def)
  have e: "entry_ok e_ver" "entry_ok e_bt" using P0_ok(1) a by (simp_all add: plat_ok_def)
  have f: "cFileName e_wifi = ''/nvdata/WIFI''" "cFileName e_bt = ''/nvdata/BT_Addr''" by (simp_all add: e_wifi_def e_bt_def)
  have t: "ver_table P0 ?w ?bl"
    unfolding b using header_rec_props [OF P0_ok(1)] e by (simp add: ver_table_def ver_path_P0)
  have n: "map rec_name ?bl = old_names P0 1 1"
    using header_rec_props [OF P0_ok(1)] e by (simp add: old_names_def base_name_def P0_def)
  have s: "stored_file P0 ?w 1" "stored_file P0 ?w 2"
    using lid_ok_P0 by (simp_all add: stored_file_def sample_defaults f ver_path_P0 writable_def is_dir_def new_inode_def)
  have j: "j = 1 \<or> j = 2" if "lid_ok P0 j" "j \<noteq> 0" for j
    using that by (auto simp: lid_ok_def a)
  have u: "usable_files P0 ?w"
    using j s by (force simp: usable_files_def sample_defaults e_wifi_def e_bt_def)
  have "let (r, w') = run_state (NVM_DataVerConvertAll P0 (of_nat 1) (of_nat 1)) ?w;
      files = {j. lid_ok P0 j \<and> j \<noteq> iFileVerInfoLID P0 \<and> fs ?w (cFileName (file_of P0 j)) \<noteq> None};
      current = {j \<in> files. new_lid P0 1 1 j \<or> fst (run_state (NVM_CmpFileVerNo P0 j) ?w)};
      content = (\<lambda>w j. map_option idata (fs w (cFileName (file_of P0 j)))) in
    kept P0 w' \<and> locks w' = locks ?w \<and> (\<forall>q. fs w' q = None \<longleftrightarrow> fs ?w q = None) \<and>
    (\<forall>j \<in> files. fst (run_state (NVM_CmpFileVerNo P0 j) w')) \<and>
    (\<forall>j \<in> current. content w' j = content ?w j) \<and>
    (r \<longleftrightarrow> (\<forall>j \<in> current. fitting (file_of P0 j) (the (content ?w j))))"
    by (rule DataVerConvertAll_current [OF _ _ _ _ _ t n _ _ _ _ u]) (simp_all add: a)
  then have "\<forall>j. lid_ok P0 j \<and> j \<noteq> iFileVerInfoLID P0 \<and> fs ?w (cFileName (file_of P0 j)) \<noteq> None \<and> new_lid P0 1 1 j \<longrightarrow>
      map_option idata (fs (snd (run_state (NVM_DataVerConvertAll P0 (of_nat 1) (of_nat 1)) ?w)) (cFileName (file_of P0 j))) =
      map_option idata (fs ?w (cFileName (file_of P0 j)))"
    unfolding Let_def case_prod_unfold by blast
  from this [rule_format, of 1] lid_ok_P0(2) show ?thesis
    by (simp add: sample_defaults f new_lid_def P0_def [THEN arg_cong [of _ _ iCustomBeginLID]])
qed

section \<open>Corners\<close>

text \<open>
  The converter and the size check disagree on files of several default records: the conversion
  writes \<open>i4RecNum * i4RecSize\<close> bytes, the protection that follows asks for \<open>i4RecNum\<close> times as many and
  resets the file that has just been converted.
\<close>

lemma converted_multiple_rejected:
  assumes "stDefualType e = MULTIPLE_DEFUALT_REC" and "default_ok e" and "3 \<le> i4RecSize e" and "int (length x) = rec_total e"
  shows "size_class e x = -1"
proof -
  let ?n = "i4RecSize e * i4RecNum e"
  have m: "2 \<le> i4RecNum e" using assms(1,2) by (simp add: default_ok_def)
  have t: "table_size e = i4RecNum e * ?n"
  proof -
    have "0 \<le> i4RecNum e * ?n" "i4RecNum e * ?n < 2 ^ 31 - 2"
      using assms(2) rec_total_ok(2) [OF assms(2)] m by (simp_all add: default_ok_def)
    moreover have eq: "i4RecNum e * i4RecNum e * i4RecSize e = i4RecNum e * ?n" by (simp add: ac_simps)
    ultimately show ?thesis using assms(1) by (simp add: table_size_def eq to_int32_small)
  qed
  have "6 \<le> ?n" using mult_mono [OF assms(3) m] assms(3) m by simp
  moreover have "2 * ?n \<le> i4RecNum e * ?n" using m calculation by (intro mult_right_mono) simp_all
  ultimately have "length x < nat (i4RecNum e * ?n)" using assms(4) rec_total_ok [OF assms(2)] by linarith
  then show ?thesis by (simp add: size_class_def t)
qed

end
