(* ===== verification/Access.thy ===== *)
theory Access
  imports ConvertRun
begin

text \<open>
  What the clients of the library call: the checks of a lid and a record number (\<open>NVM_CheckFileID\<close>,
  \<open>NVM_CheckFileInfo\<close>), the version record of a file (\<open>NVM_ReadFileVerInfo\<close>), opening a file and
  closing it (\<open>NVM_GetFileDesc\<close>, \<open>NVM_CloseFileDesc\<close>), all of \<open>nvram/libnvram.c\<close>.  \<open>off_t\<close> has
  64 bits.  An access through a NULL pointer is recorded as \<open>OutOfBounds\<close>.
\<close>

section \<open>Checks\<close>

definition NVM_CheckFileID :: "plat \<Rightarrow> int \<Rightarrow> int \<Rightarrow> bool nv" where
  "NVM_CheckFileID P file_lid rec_id = (case NVM_GetCfgFileTable P file_lid of
     None \<Rightarrow> ret False
   | Some pCfgFielTable \<Rightarrow> do {
       check (in_table pCfgFielTable (real_lid P file_lid)) OutOfBounds;
       mx \<leftarrow> getg g_i4MaxNvRamLid;
       ret (\<not> (rec_id > i4RecNum (entry pCfgFielTable (real_lid P file_lid)) \<or> file_lid \<ge> mx)) })"

text \<open>Emptying a file and resetting it, with the flags and the mode of the call.\<close>

definition clear_and_reset :: "plat \<Rightarrow> int \<Rightarrow> path \<Rightarrow> oflag list \<Rightarrow> nat \<Rightarrow> bool nv" where
  "clear_and_reset P file_lid p fl md = do {
     iFileDesc \<leftarrow> sys_open p fl md;
     if iFileDesc = -1 then ret False
     else do { _ \<leftarrow> sys_close iFileDesc; NVM_ResetFileToDefault P file_lid } }"

text \<open>A file whose version is not the one of the tables.\<close>

definition renew :: "plat \<Rightarrow> int \<Rightarrow> tcfg_file \<Rightarrow> oflag list \<Rightarrow> nat \<Rightarrow> bool nv" where
  "renew P file_lid e fl md =
    (if bDataProcessingType e = DataReset then clear_and_reset P file_lid (cFileName e) fl md
     else do {
       iResult \<leftarrow> NVM_DataVerConvert P file_lid;
       if iResult = 0 then clear_and_reset P file_lid (cFileName e) fl md else ret True })"

text \<open>The file itself when its version is current: a missing one is reset.\<close>

definition reset_missing :: "plat \<Rightarrow> int \<Rightarrow> path \<Rightarrow> bool nv" where
  "reset_missing P file_lid p = do {
     st \<leftarrow> sys_stat p;
     if st = None \<or> ikind (the st) \<noteq> Reg then NVM_ResetFileToDefault P file_lid else ret True }"

definition first_version_file :: "plat \<Rightarrow> int \<Rightarrow> bool nv" where
  "first_version_file P file_lid = do {
     g \<leftarrow> NVM_GenerateFileVer P True;
     if \<not> g then ret False else NVM_ResetFileToDefault P file_lid }"

definition NVM_CheckFileInfo :: "plat \<Rightarrow> int \<Rightarrow> int \<Rightarrow> bool nv" where
  "NVM_CheckFileInfo P file_lid rec_id = (case NVM_GetCfgFileTable P file_lid of
     None \<Rightarrow> ret False
   | Some pCfgFielTable \<Rightarrow> do {
       let e = entry pCfgFielTable (real_lid P file_lid);
       ok \<leftarrow> NVM_CheckFileID P file_lid rec_id;
       if \<not> ok then ret False
       else do {
         v \<leftarrow> NVM_CheckVerFile P True;
         if v then do {
           same \<leftarrow> NVM_CmpFileVerNo P file_lid;
           if \<not> same then NVM_ResetFileToDefault P file_lid else reset_missing P file_lid (cFileName e) }
         else first_version_file P file_lid } })"

section \<open>The version record\<close>

definition no_info :: f_info where
  "no_info = \<lparr>fi_cFileVer = replicate 4 (CHR 0x00), fi_cFileName = replicate 70 (CHR 0x00),
     fi_i4RecSize = 0, fi_i4RecNum = 0, fi_i4MaxFileLid = 0\<rparr>"

definition read_info :: "plat \<Rightarrow> int \<Rightarrow> tcfg_file \<Rightarrow> f_info nv" where
  "read_info P file_lid e = do {
     iFileDesc \<leftarrow> sys_open (ver_path P) [O_RDONLY] 0;
     if iFileDesc = -1 then ret no_info
     else do {
       r \<leftarrow> sys_read iFileDesc 69;
       tempstr \<leftarrow> set_str r [];
       l \<leftarrow> sys_lseek iFileDesc (if tempstr = strVerInfo then (file_lid + 1) * VERREC + 70 else file_lid * 4) SEEK_SET;
       if l = -1 then do { _ \<leftarrow> sys_close iFileDesc; ret no_info }
       else do {
         r \<leftarrow> sys_read iFileDesc 4;
         _ \<leftarrow> sys_close iFileDesc;
         ret \<lparr>fi_cFileVer = rd_buf r (replicate 4 (CHR 0x00)), fi_cFileName = zpad FILENAMELENGTH (cFileName e),
              fi_i4RecSize = i4RecSize e, fi_i4RecNum = i4RecNum e,
              fi_i4MaxFileLid = to_int32 (int (length (g_akCFG_File P)) + int (length (g_akCFG_File_Custom P)))\<rparr> } } }"

definition NVM_ReadFileVerInfo :: "plat \<Rightarrow> int \<Rightarrow> f_info nv" where
  "NVM_ReadFileVerInfo P file_lid = (case NVM_GetCfgFileTable P file_lid of
     None \<Rightarrow> ret no_info
   | Some pCfgFielTable \<Rightarrow> do {
       let e = entry pCfgFielTable (real_lid P file_lid);
       v \<leftarrow> NVM_CheckVerFile P True;
       ok \<leftarrow> (if v then do {
           same \<leftarrow> NVM_CmpFileVerNo P file_lid;
           check (in_table pCfgFielTable (real_lid P file_lid)) OutOfBounds;
           if \<not> same then renew P file_lid e [O_CREAT, O_TRUNC] mode660
           else reset_missing P file_lid (cFileName e) }
         else first_version_file P file_lid);
       if \<not> ok then ret no_info
       else do {
         check (in_table pCfgFielTable (real_lid P file_lid)) OutOfBounds;
         read_info P file_lid e } })"

section \<open>Opening\<close>

text \<open>The entries of the file tables that stand for a lid in the product partition.\<close>

definition erase_special :: "plat \<Rightarrow> path \<Rightarrow> special_lid \<Rightarrow> mtd_info \<Rightarrow> bool nv" where
  "erase_special P cMtdDevName s info =
    (if emmc_support P \<or> ufs_support P then ret True
     else NVM_EraseDeviceBlock cMtdDevName (of_int (sl_start s))
       (if sl_size s < uint (mi_erasesize info) then mi_erasesize info else of_int (sl_size s)))"

definition open_special :: "plat \<Rightarrow> f_id \<Rightarrow> nat \<Rightarrow> int option \<Rightarrow> (f_id \<times> int option) nv" where
  "open_special P FileID index_in_list pRecSize = do {
     dev \<leftarrow> getg g_NVRAM_PROINFO_DEVICE;
     let cMtdDevName = dev_name dev;
     let s = g_new_nvram_lid P ! index_in_list;
     bRet \<leftarrow> NVM_GetDeviceInfo cMtdDevName;
     case bRet of None \<Rightarrow> ret (FileID, pRecSize)
     | Some info \<Rightarrow> do {
         check (mi_erasesize info \<noteq> 0) DivByZero;
         if sl_start s mod uint (mi_erasesize info) \<noteq> 0 \<or> sl_start s + sl_size s > uint (mi_size info)
         then ret (FileID, pRecSize)
         else do {
           let pRecSize = (case pRecSize of None \<Rightarrow> None | Some n \<Rightarrow>
             if \<not> emmc_support P \<and> \<not> ufs_support P \<and> (of_int n :: u32) < mi_writesize info
             then Some (sint (mi_writesize info)) else Some n);
           check (pRecSize \<noteq> None) OutOfBounds;
           check (mi_writesize info \<noteq> 0) DivByZero;
           if (of_int ((case pRecSize of None \<Rightarrow> 0 | Some n \<Rightarrow> n)) :: u32) mod mi_writesize info \<noteq> 0 then ret (FileID, pRecSize)
           else do {
             e \<leftarrow> (if fid_bIsRead FileID then ret True else erase_special P cMtdDevName s info);
             if \<not> e then ret (FileID, pRecSize)
             else do {
               iFileDesc \<leftarrow> sys_open cMtdDevName (if fid_bIsRead FileID then [O_RDONLY] else [O_RDWR, O_SYNC]) 0;
               if \<not> fid_bIsRead FileID \<and> iFileDesc < 0 then ret (FileID, pRecSize)
               else do {
                 l \<leftarrow> sys_lseek iFileDesc (sl_start s) SEEK_SET;
                 if l < 0 then do { _ \<leftarrow> sys_close iFileDesc; ret (FileID, pRecSize) }
                 else ret (FileID\<lparr>fid_iFileDesc := iFileDesc\<rparr>, pRecSize) } } } } } }"

text \<open>A file that cannot be opened: restored from the binary region, or created and reset.\<close>

definition open_missing :: "plat \<Rightarrow> int \<Rightarrow> path \<Rightarrow> bool nv" where
  "open_missing P file_lid p = do {
     a \<leftarrow> sys_access g_pcNVM_Flag;
     restored \<leftarrow> (if a = 0 \<and> in_lid_list (aBackupToBinRegion P) file_lid
                 then NVM_RestoreFromBinRegion_OneFile P file_lid None else ret False);
     if restored then ret True
     else do {
       iFileDesc \<leftarrow> open_file_with_dirs P p [O_CREAT, O_RDWR] mode660;
       _ \<leftarrow> (if iFileDesc = -1 then ret 0 else sys_close iFileDesc);
       NVM_ResetFileToDefault P file_lid } }"

definition open_file :: "plat \<Rightarrow> f_id \<Rightarrow> tcfg_file \<Rightarrow> f_id nv" where
  "open_file P FileID e = do {
     let file_lid = fid_ifile_lid FileID;
     iFileDesc \<leftarrow> sys_open (cFileName e) (if fid_bIsRead FileID then [O_RDONLY] else [O_RDWR]) 0;
     ok \<leftarrow> (if iFileDesc = -1 then open_missing P file_lid (cFileName e)
       else do {
         _ \<leftarrow> sys_close iFileDesc;
         same \<leftarrow> NVM_CmpFileVerNo P file_lid;
         if \<not> same then renew P file_lid e [O_TRUNC] 0 else ret True });
     if \<not> ok then ret FileID
     else do {
       p \<leftarrow> (if in_lid_list (aPerformance P) file_lid then ret 1 else NVM_ProtectDataFile P file_lid False);
       if p \<noteq> 1 then ret FileID
       else do {
         iFileDesc \<leftarrow> sys_open (cFileName e) (if fid_bIsRead FileID then [O_RDONLY] else [O_RDWR, O_SYNC]) 0;
         ret (FileID\<lparr>fid_iFileDesc := iFileDesc\<rparr>) } } }"

definition NVM_GetFileDesc :: "plat \<Rightarrow> int \<Rightarrow> int option \<Rightarrow> int option \<Rightarrow> bool \<Rightarrow> (f_id \<times> int option \<times> int option) nv" where
  "NVM_GetFileDesc P file_lid pRecSize pRecNum IsRead = do {
     let FileID = \<lparr>fid_iFileDesc = -1, fid_ifile_lid = file_lid, fid_bIsRead = IsRead\<rparr>;
     i \<leftarrow> NVM_Init P;
     if i < 0 then ret (FileID, pRecSize, pRecNum)
     else (case NVM_GetCfgFileTable P file_lid of
       None \<Rightarrow> ret (FileID, pRecSize, pRecNum)
     | Some pCfgFielTable \<Rightarrow> do {
         check (in_table pCfgFielTable (real_lid P file_lid)) OutOfBounds;
         let e = entry pCfgFielTable (real_lid P file_lid);
         let sizes = (if pRecSize \<noteq> None \<and> pRecNum \<noteq> None then (Some (i4RecSize e), Some (i4RecNum e))
                      else (pRecSize, pRecNum));
         case (if new_partition_support P then NVM_InSpecialLidList P file_lid else None) of
           Some index_in_list \<Rightarrow> do {
             (fid, rs) \<leftarrow> open_special P FileID index_in_list (fst sizes);
             ret (fid, rs, snd sizes) }
         | None \<Rightarrow>
             if cFileName e = ''Reserved'' then ret (FileID, pRecSize, pRecNum)
             else do {
               fid \<leftarrow> open_file P FileID e;
               ret (fid, sizes) } }) }"

section \<open>Closing\<close>

definition NVM_CloseFileDesc :: "plat \<Rightarrow> f_id \<Rightarrow> bool nv" where
  "NVM_CloseFileDesc P FileID =
    (if new_partition_support P \<and> NVM_InSpecialLidList P (fid_ifile_lid FileID) \<noteq> None
     then if fid_iFileDesc FileID = -1 then ret False
          else do { r \<leftarrow> sys_close (fid_iFileDesc FileID); ret (r = 0) }
     else if fid_iFileDesc FileID = -1 then ret False
     else do {
       s \<leftarrow> sys_fsync (fid_iFileDesc FileID);
       if s \<noteq> 0 then ret False
       else do {
         r \<leftarrow> sys_close (fid_iFileDesc FileID);
         if r \<noteq> 0 then ret False
         else if in_lid_list (aPerformance P) (fid_ifile_lid FileID) then ret True
         else if fid_bIsRead FileID then ret True
         else do {
           p \<leftarrow> NVM_ProtectDataFile P (fid_ifile_lid FileID) True;
           ret (p = 1) } } })"

end
