(* ===== verification/OpenClose.thy ===== *)
theory OpenClose
  imports Access
begin

text \<open>
  What \<open>NVM_GetFileDesc\<close> hands out for a stored file and what \<open>NVM_CloseFileDesc\<close> leaves, when no call
  fails: the runs of both and the property of opening.
\<close>

section \<open>Opening a stored file\<close>

text \<open>A lid whose file is a plain one: not in the product partition and not backed up.\<close>

definition plain :: "plat \<Rightarrow> int \<Rightarrow> bool" where
  "plain P lid \<longleftrightarrow> \<not> (new_partition_support P \<and> NVM_InSpecialLidList P lid \<noteq> None) \<and> \<not> backed_up P lid (file_of P lid)"

text \<open>What a reset leaves in the file, what renewing an outdated file leaves, and what opening leaves.\<close>

definition reset_data :: "plat \<Rightarrow> int \<Rightarrow> bytes" where
  "reset_data P lid = default_data (file_of P lid) @ trailer P lid (default_data (file_of P lid))"

definition renewed :: "plat \<Rightarrow> nv_globals world \<Rightarrow> int \<Rightarrow> bytes" where
  "renewed P w lid = (if bDataProcessingType (file_of P lid) = DataReset then reset_data P lid
     else case converted P w lid of None \<Rightarrow> reset_data P lid
       | Some x \<Rightarrow> if in_lid_list (aPerformance P) lid then x else guarded P lid True x)"

definition opened :: "plat \<Rightarrow> nv_globals world \<Rightarrow> int \<Rightarrow> bytes \<Rightarrow> bytes" where
  "opened P w lid x = (let y = (if fst (run_state (NVM_CmpFileVerNo P lid) w) then x else renewed P w lid)
     in if in_lid_list (aPerformance P) lid then y else guarded P lid False y)"

lemma run_clear_and_reset:
  assumes "kept P w" and "stored_file P w lid" and "dirlock \<notin> locks w" and "O_TRUNC \<in> set fl"
  obtains w' where "run_state (clear_and_reset P lid (cFileName (file_of P lid)) fl md) w = (True, w')"
    and "stepped P lid {lid} w w'" and "map_option idata (fs w' (cFileName (file_of P lid))) = Some (reset_data P lid)"
proof -
  let ?p = "cFileName (file_of P lid)"
  have s: "lid_ok P lid" "lid \<noteq> iFileVerInfoLID P" "default_ok (file_of P lid)" "?p \<noteq> ver_path P"
    using assms(2) by (simp_all add: stored_file_def)
  obtain i where i: "fs w ?p = Some i" "ikind i = Reg" "length (idata i) < 2 ^ 31" using assms(2) by (auto simp: stored_file_def)
  have k: "wf_world w" "faults w = []" using assms(1) by (simp_all add: kept_def)
  let ?w1 = "used 1 (w\<lparr>fs := (fs w)(?p \<mapsto> i\<lparr>idata := []\<rparr>)\<rparr>)"
  have s1: "stepped P lid {} w ?w1" by (rule stepped_write [OF assms(1) i(1,2) _ s(4)]) simp_all
  have st1: "stored_file P ?w1 lid" by (rule stored_stepped [OF s1 assms(1,2)])
  have k1: "kept P ?w1" "locks ?w1 = locks w" using s1 by (simp_all add: stepped_def)
  obtain w' where r: "run_state (NVM_ResetFileToDefault P lid) ?w1 = (True, w')" "stepped P lid {lid} ?w1 w'"
      "map_option idata (fs w' ?p) = Some (default_data (file_of P lid) @ trailer P lid (default_data (file_of P lid)))"
    by (rule stepped_reset [OF k1(1) s(1,2) _ s(3), of "i\<lparr>idata := []\<rparr>"])
       (use assms(3) k1(2) i st1 s(4) in \<open>simp_all add: stored_file_def\<close>)
  have "run_state (clear_and_reset P lid ?p fl md) w = (True, w')"
    using k i r(1) by (simp add: clear_and_reset_def run_bind run_ret run_open_trunc assms(4) run_close, simp add: used_def world_order)
  then show ?thesis using stepped_trans [OF s1 r(2)] r(3) by (intro that) (simp_all add: reset_data_def)
qed

lemma run_renew:
  assumes "kept P w" and "stored_file P w lid" and "dirlock \<notin> locks w" and "recoverlock \<notin> locks w"
    and "\<not> backed_up P lid (file_of P lid)" and "O_TRUNC \<in> set fl"
  obtains w' where "run_state (renew P lid (file_of P lid) fl md) w = (True, w')" and "stepped P lid {lid} w w'"
    and "map_option idata (fs w' (cFileName (file_of P lid))) = Some (renewed P w lid)"
proof (cases "bDataProcessingType (file_of P lid) = DataReset")
  case True
  obtain w' where "run_state (clear_and_reset P lid (cFileName (file_of P lid)) fl md) w = (True, w')"
      "stepped P lid {lid} w w'" "map_option idata (fs w' (cFileName (file_of P lid))) = Some (reset_data P lid)"
    by (rule run_clear_and_reset [OF assms(1-3,6)])
  then show ?thesis using True by (intro that) (simp_all add: renew_def renewed_def)
next
  case dc: False
  show ?thesis
  proof (cases "converted P w lid")
    case None
    obtain n where n: "0 \<le> n" "run_state (NVM_DataVerConvert P lid) w = (0, used n w)"
      by (rule run_Convert_failed [OF assms(1,2) None])
    have kn: "kept P (used n w)" by (rule kept_used [OF assms(1) n(1)])
    have sn: "stored_file P (used n w) lid" using assms(2) by (simp add: stored_file_def writable_def)
    obtain w' where r: "run_state (clear_and_reset P lid (cFileName (file_of P lid)) fl md) (used n w) = (True, w')"
        "stepped P lid {lid} (used n w) w'" "map_option idata (fs w' (cFileName (file_of P lid))) = Some (reset_data P lid)"
      by (rule run_clear_and_reset [OF kn sn _ assms(6)]) (use assms(3) in simp)
    have "stepped P lid {lid} w w'" using r(2) cmp_same [OF assms(1) kn] by (simp add: stepped_def)
    then show ?thesis
      using dc n r None by (intro that) (simp_all add: renew_def renewed_def run_bind)
  next
    case (Some x)
    obtain w' where "run_state (NVM_DataVerConvert P lid) w = (1, w')" "stepped P lid {lid} w w'"
        "map_option idata (fs w' (cFileName (file_of P lid))) = Some (if in_lid_list (aPerformance P) lid then x else guarded P lid True x)"
      by (rule run_Convert_done [OF assms(1,2) Some assms(3-5)])
    then show ?thesis using dc Some by (intro that) (simp_all add: renew_def renewed_def run_bind run_ret)
  qed
qed

text \<open>Descriptor numbers that have been used up do not matter to the files.\<close>

lemma stepped_refl: "kept P w \<Longrightarrow> stored_file P w lid \<Longrightarrow> stepped P lid {} w w"
  by (auto simp: stepped_def stored_file_def)

lemma stepped_from_used:
  assumes "kept P w" and "0 \<le> n" and "stepped P lid L (used n w) v"
  shows "stepped P lid L w v"
  using assms(3) cmp_same [OF assms(1) kept_used [OF assms(1,2)]] by (simp add: stepped_def)

lemma stored_used: "stored_file P (used n w) lid = stored_file P w lid"
  by (simp add: stored_file_def writable_def)

lemma renewed_used: "renewed P (used n w) lid = renewed P w lid"
proof -
  have "stored_ver P (used n w) lid = stored_ver P w lid" by (simp add: stored_ver_def)
  then have "converted P (used n w) lid = converted P w lid" by (simp add: converted_def Let_def split: option.split)
  then show ?thesis by (simp add: renewed_def)
qed

text \<open>The descriptor a client gets: the path and the mode it was opened with.\<close>

definition open_flags :: "bool \<Rightarrow> oflag list" where
  "open_flags IsRead = (if IsRead then [O_RDONLY] else [O_RDWR, O_SYNC])"

definition granted :: "plat \<Rightarrow> int \<Rightarrow> bool \<Rightarrow> nv_globals world \<Rightarrow> nv_globals world" where
  "granted P lid b v = v\<lparr>fds := (fds v)(next_fd v \<mapsto> new_fd (cFileName (file_of P lid)) (open_flags b)), next_fd := next_fd v + 1\<rparr>"

lemma run_open_file:
  assumes "kept P w" and "stored_file P w lid" and "dirlock \<notin> locks w" and "recoverlock \<notin> locks w"
    and "\<not> backed_up P lid (file_of P lid)"
    and "fs w (cFileName (file_of P lid)) = Some i"
  obtains v L where "run_state (open_file P \<lparr>fid_iFileDesc = -1, fid_ifile_lid = lid, fid_bIsRead = b\<rparr> (file_of P lid)) w =
      (\<lparr>fid_iFileDesc = next_fd v, fid_ifile_lid = lid, fid_bIsRead = b\<rparr>, granted P lid b v)"
    and "stepped P lid L w v" and "L \<subseteq> {lid}" and "fst (run_state (NVM_CmpFileVerNo P lid) v)"
    and "map_option idata (fs v (cFileName (file_of P lid))) = Some (opened P w lid (idata i))"
proof -
  let ?e = "file_of P lid" and ?c = "fst (run_state (NVM_CmpFileVerNo P lid) w)"
  let ?p = "cFileName ?e"
  have s: "lid_ok P lid" and i: "ikind i = Reg" using assms(2,6) by (auto simp: stored_file_def)
  have k: "wf_world w" "faults w = []" using assms(1) by (simp_all add: kept_def)
  obtain bl where bl: "ver_table P w bl" "in_order P bl" by (rule kept_table [OF assms(1)])
  let ?u = "used 1 w"
  have ku: "kept P ?u" by (rule kept_used [OF assms(1)]) simp
  have su: "stored_file P ?u lid" using assms(2) by (simp add: stored_file_def writable_def)
  have cu: "run_state (NVM_CmpFileVerNo P lid) ?u = (?c, used 2 w)"
    using run_cmp_kept [OF ku s, of bl] run_cmp_kept [OF assms(1) s bl] bl by (simp add: ver_table_def)
  have k2: "kept P (used 2 w)" by (rule kept_used [OF assms(1)]) simp
  have s2: "stored_file P (used 2 w) lid" using assms(2) by (simp add: stored_file_def writable_def)
  have ok: "\<exists>v L. run_state (if \<not> ?c then renew P lid ?e [O_TRUNC] 0 else ret True) (used 2 w) = (True, v) \<and>
      stepped P lid L w v \<and> L \<subseteq> {lid} \<and> fst (run_state (NVM_CmpFileVerNo P lid) v) \<and>
      map_option idata (fs v ?p) = Some (if ?c then idata i else renewed P w lid)"
  proof (cases ?c)
    case True
    have "stepped P lid {} w (used 2 w)" by (rule stepped_used [OF stepped_refl [OF assms(1,2)]]) simp
    then show ?thesis
      using True assms(6) by (intro exI [of _ "used 2 w"] exI [of _ "{}"]) (auto simp: run_ret stepped_def s)
  next
    case False
    have tr: "O_TRUNC \<in> set [O_TRUNC]" by simp
    obtain v where v: "run_state (renew P lid ?e [O_TRUNC] 0) (used 2 w) = (True, v)" "stepped P lid {lid} (used 2 w) v"
        "map_option idata (fs v ?p) = Some (renewed P (used 2 w) lid)"
      by (rule run_renew [OF k2 s2 _ _ assms(5) tr]) (use assms(3,4) in simp_all)
    have "stepped P lid {lid} w v" by (rule stepped_from_used [OF assms(1) _ v(2)]) simp
    then show ?thesis
      using False v s by (intro exI [of _ v] exI [of _ "{lid}"]) (simp add: renewed_used stepped_def)
  qed
  obtain v L where v: "run_state (if \<not> ?c then renew P lid ?e [O_TRUNC] 0 else ret True) (used 2 w) = (True, v)"
      "stepped P lid L w v" "L \<subseteq> {lid}" "fst (run_state (NVM_CmpFileVerNo P lid) v)"
      "map_option idata (fs v ?p) = Some (if ?c then idata i else renewed P w lid)"
    using ok by blast
  obtain i2 where i2: "fs v ?p = Some i2" "idata i2 = (if ?c then idata i else renewed P w lid)" using v(5) by auto
  have kv: "kept P v" "locks v = locks w" using v(2) by (simp_all add: stepped_def)
  have sv: "stored_file P v lid" by (rule stored_stepped [OF v(2) assms(1,2)])
  have "\<exists>x M. run_state (if in_lid_list (aPerformance P) lid then ret 1 else NVM_ProtectDataFile P lid False) v = (1, x) \<and>
      stepped P lid M w x \<and> M \<subseteq> {lid} \<and> fst (run_state (NVM_CmpFileVerNo P lid) x) \<and>
      map_option idata (fs x ?p) = Some (opened P w lid (idata i))"
  proof (cases "in_lid_list (aPerformance P) lid")
    case True
    then show ?thesis using v i2 by (intro exI [of _ v] exI [of _ L]) (simp add: run_ret opened_def)
  next
    case False
    obtain x M where x: "run_state (NVM_ProtectDataFile P lid False) v = (1, x)" "stepped P lid M v x" "M \<subseteq> {lid}"
        "map_option idata (fs x ?p) = Some (guarded P lid False (idata i2))"
      by (rule run_Protect_stored [OF kv(1) sv _ _ assms(5) i2(1)]) (use assms(3,4) kv(2) in simp_all)
    have "stepped P lid (L \<union> M) w x" by (rule stepped_trans [OF v(2) x(2)])
    moreover have "fst (run_state (NVM_CmpFileVerNo P lid) x)" using x(2) v(4) s by (simp add: stepped_def)
    ultimately show ?thesis
      using False x v(3) i2(2) by (intro exI [of _ x] exI [of _ "L \<union> M"]) (simp add: opened_def)
  qed
  then obtain x M where x: "run_state (if in_lid_list (aPerformance P) lid then ret 1 else NVM_ProtectDataFile P lid False) v = (1, x)"
      "stepped P lid M w x" "M \<subseteq> {lid}" "fst (run_state (NVM_CmpFileVerNo P lid) x)"
      "map_option idata (fs x ?p) = Some (opened P w lid (idata i))"
    by blast
  obtain i3 where i3: "fs x ?p = Some i3" "ikind i3 = Reg" "wf_world x" "faults x = []"
    using x(2) by (auto simp: stepped_def kept_def)
  show ?thesis
  proof (rule that [OF _ x(2-5)])
    show "run_state (open_file P \<lparr>fid_iFileDesc = -1, fid_ifile_lid = lid, fid_bIsRead = b\<rparr> ?e) w =
      (\<lparr>fid_iFileDesc = next_fd x, fid_ifile_lid = lid, fid_bIsRead = b\<rparr>, granted P lid b x)"
    proof -
      have fl: "O_TRUNC \<notin> set (if b then [O_RDONLY] else [O_RDWR])" "O_TRUNC \<notin> set (open_flags b)" by (simp_all add: open_flags_def)
      have o: "run_state (sys_open ?p (if b then [O_RDONLY] else [O_RDWR]) 0) w =
          (next_fd w, w\<lparr>fds := (fds w)(next_fd w \<mapsto> new_fd ?p (if b then [O_RDONLY] else [O_RDWR])), next_fd := next_fd w + 1\<rparr>)"
        using run_open [OF k(2) assms(6) _ fl(1)] i by simp
      have c: "run_state (sys_close (next_fd w)) (w\<lparr>fds := (fds w)(next_fd w \<mapsto> d), next_fd := next_fd w + 1\<rparr>) = (0, ?u)" for d
        using k by (simp add: run_close used_def)
      have o2: "run_state (sys_open ?p (open_flags b) 0) x = (next_fd x, granted P lid b x)"
        using run_open [OF i3(4,1) _ fl(2)] i3(2) by (simp add: granted_def)
      have nx: "next_fd w \<noteq> -1" using k(1) by simp
      show ?thesis
        using nx v(1) x(1)
        by (simp add: open_file_def run_bind run_ret o c cu o2 [unfolded open_flags_def] Let_def)
    qed
  qed
qed

section \<open>Sealed files\<close>

text \<open>A file that is checked has the size of the tables and a valid pair at its end.\<close>

definition sealed :: "plat \<Rightarrow> int \<Rightarrow> bytes \<Rightarrow> bool" where
  "sealed P lid x \<longleftrightarrow> in_lid_list (aPerformance P) lid \<or>
     length x = nat (table_size (file_of P lid)) + 2 \<and> checked x"

lemma pair_checked: "length y = nat (table_size (file_of P lid)) \<Longrightarrow> sealed P lid (y @ [CHR 0xAA, c8 (check_no y)])"
  by (simp add: sealed_def checked_append)

lemma sealed_reset:
  assumes "default_ok (file_of P lid)"
  shows "sealed P lid (reset_data P lid)"
proof (cases "in_lid_list (aPerformance P) lid")
  case False
  have "length (default_data (file_of P lid)) = nat (table_size (file_of P lid))"
    using length_default(1) [OF assms] by simp
  then show ?thesis using False pair_checked by (simp add: reset_data_def trailer_def)
qed (simp add: sealed_def)

lemma sealed_guarded:
  assumes "default_ok (file_of P lid)"
  shows "sealed P lid (guarded P lid b x)"
proof -
  let ?c = "size_class (file_of P lid) x"
  have r: "sealed P lid (default_data (file_of P lid) @ trailer P lid (default_data (file_of P lid)))"
    using sealed_reset [OF assms] by (simp add: reset_data_def)
  have l: "?c = -1 \<or> length (covered (?c \<noteq> 0) x) = nat (table_size (file_of P lid))"
    by (auto simp: size_class_def covered_def)
  have "sealed P lid x" if "?c = 1" "checked x"
    using that by (auto simp: size_class_def sealed_def split: if_splits)
  then show ?thesis
    using r l pair_checked [of "covered (?c \<noteq> 0) x"] size_class_cases [of "file_of P lid" x]
    by (auto simp: guarded_def Let_def)
qed

lemma guarded_sealed:
  assumes "default_ok (file_of P lid)" and "sealed P lid x" and "\<not> in_lid_list (aPerformance P) lid"
  shows "guarded P lid False x = x"
  using assms by (simp add: sealed_def guarded_def size_class_def)

lemma opened_sealed:
  assumes "default_ok (file_of P lid)"
  shows "sealed P lid (opened P w lid x)"
    and "fst (run_state (NVM_CmpFileVerNo P lid) w) \<Longrightarrow> sealed P lid x \<Longrightarrow> opened P w lid x = x"
  using sealed_guarded [OF assms] guarded_sealed [OF assms] by (auto simp: opened_def Let_def sealed_def)

section \<open>The calls of the interface\<close>

lemma run_GetFileDesc:
  assumes "kept P w" and "stored_file P w lid" and "dirlock \<notin> locks w" and "recoverlock \<notin> locks w" and "plain P lid"
    and "nvram_init_flag (gl w)" and "0 \<le> g_i4MaxNvRamLid (gl w)"
    and "fs w (cFileName (file_of P lid)) = Some i"
  obtains v L where "run_state (NVM_GetFileDesc P lid (Some a) (Some c) b) w =
      ((\<lparr>fid_iFileDesc = next_fd v, fid_ifile_lid = lid, fid_bIsRead = b\<rparr>,
        Some (i4RecSize (file_of P lid)), Some (i4RecNum (file_of P lid))), granted P lid b v)"
    and "stepped P lid L w v" and "L \<subseteq> {lid}" and "fst (run_state (NVM_CmpFileVerNo P lid) v)"
    and "map_option idata (fs v (cFileName (file_of P lid))) = Some (opened P w lid (idata i))"
proof -
  let ?e = "file_of P lid"
  have lid: "lid_ok P lid" using assms(2) by (simp add: stored_file_def)
  obtain t where t: "NVM_GetCfgFileTable P lid = Some t" "in_table t (real_lid P lid)" "entry t (real_lid P lid) = ?e"
    by (rule table_lookup [OF lid])
  have nb: "\<not> backed_up P lid ?e" using assms(5) by (simp add: plain_def)
  have ns: "(if new_partition_support P then NVM_InSpecialLidList P lid else None) = None"
    using assms(5) by (simp add: plain_def)
  have nr: "cFileName ?e \<noteq> ''Reserved''"
    using file_ok [OF lid] by (auto simp: entry_ok_def after_last_slash_def)
  obtain v L where v: "run_state (open_file P \<lparr>fid_iFileDesc = -1, fid_ifile_lid = lid, fid_bIsRead = b\<rparr> ?e) w =
      (\<lparr>fid_iFileDesc = next_fd v, fid_ifile_lid = lid, fid_bIsRead = b\<rparr>, granted P lid b v)"
    "stepped P lid L w v" "L \<subseteq> {lid}" "fst (run_state (NVM_CmpFileVerNo P lid) v)"
    "map_option idata (fs v (cFileName ?e)) = Some (opened P w lid (idata i))"
    by (rule run_open_file [OF assms(1-4) nb assms(8)])
  show ?thesis
    by (rule that [OF _ v(2-5)])
       (use t assms(6,7) ns nr v(1) in \<open>simp add: NVM_GetFileDesc_def run_bind run_ret run_check run_Init_again Let_def\<close>)
qed

definition closed :: "int \<Rightarrow> 'g world \<Rightarrow> 'g world" where
  "closed fd w = w\<lparr>fds := (fds w)(fd := None)\<rparr>"

lemma kept_closed: "kept P w \<Longrightarrow> kept P (closed fd w)"
proof -
  assume k: "kept P w"
  have "wf_world (closed fd w)" by (rule wf_closed [where w = w and fd = fd]) (use k in \<open>simp_all add: kept_def closed_def\<close>)
  then show "kept P (closed fd w)" by (rule kept_same [OF k]) (use k in \<open>simp_all add: kept_def closed_def\<close>)
qed

lemma run_CloseFileDesc:
  assumes "kept P w" and "stored_file P w lid" and "dirlock \<notin> locks w" and "recoverlock \<notin> locks w" and "plain P lid"
    and "fds w fd = Some d" and "fd \<noteq> -1" and "fs w (cFileName (file_of P lid)) = Some i"
  obtains v L where "run_state (NVM_CloseFileDesc P \<lparr>fid_iFileDesc = fd, fid_ifile_lid = lid, fid_bIsRead = b\<rparr>) w = (True, v)"
    and "stepped P lid L (closed fd w) v" and "L \<subseteq> {lid}"
    and "map_option idata (fs v (cFileName (file_of P lid))) =
      Some (if in_lid_list (aPerformance P) lid \<or> b then idata i else guarded P lid True (idata i))"
proof -
  let ?w = "closed fd w" and ?p = "cFileName (file_of P lid)"
  have k: "faults w = []" using assms(1) by (simp add: kept_def)
  have kc: "kept P ?w" by (rule kept_closed [OF assms(1)])
  have sc: "stored_file P ?w lid" using assms(2) by (simp add: stored_file_def writable_def closed_def)
  have lc: "locks ?w = locks w" "fs ?w = fs w" by (simp_all add: closed_def)
  have ns: "\<not> (new_partition_support P \<and> NVM_InSpecialLidList P lid \<noteq> None)" and nb: "\<not> backed_up P lid (file_of P lid)"
    using assms(5) by (simp_all add: plain_def)
  have c: "run_state (sys_close fd) w = (0, ?w)" using k assms(6) by (simp add: run_close closed_def)
  note d = NVM_CloseFileDesc_def ns run_bind run_ret run_fsync [OF k assms(6)] c
  show ?thesis
  proof (cases "in_lid_list (aPerformance P) lid \<or> b")
    case True
    show ?thesis
      by (rule that [OF _ stepped_refl [OF kc sc]]) (use True assms(7,8) ns lc in \<open>auto simp: d\<close>)
  next
    case False
    obtain v L where v: "run_state (NVM_ProtectDataFile P lid True) ?w = (1, v)" "stepped P lid L ?w v" "L \<subseteq> {lid}"
        "map_option idata (fs v ?p) = Some (guarded P lid True (idata i))"
      by (rule run_Protect_stored [OF kc sc _ _ nb, of i True]) (use assms(3,4,8) lc in simp_all)
    show ?thesis
      by (rule that [OF _ v(2,3)]) (use False assms(7) ns v(1,4) in \<open>auto simp: d\<close>)
  qed
qed

lemma kept_granted: "kept P v \<Longrightarrow> kept P (granted P lid b v)"
proof -
  assume k: "kept P v"
  have "wf_world (granted P lid b v)"
    by (rule wf_opened [where w = v and fd = "next_fd v" and d = "new_fd (cFileName (file_of P lid)) (open_flags b)"])
       (use k in \<open>simp_all add: kept_def granted_def\<close>)
  then show "kept P (granted P lid b v)" by (rule kept_same [OF k]) (use k in \<open>simp_all add: kept_def granted_def\<close>)
qed

text \<open>
  C7.  Opening a stored file always ends with a usable descriptor, whatever the file holds and
  however old it is: the descriptor points at the start of the file in the mode asked for, the sizes
  of the table are returned, the file is current and checked, and no other file has changed.
\<close>

theorem GetFileDesc_ready:
  assumes "kept P w" and "stored_file P w lid" and "locks w \<inter> {dirlock, recoverlock} = {}" and "plain P lid"
    and "nvram_init_flag (gl w)" and "0 \<le> g_i4MaxNvRamLid (gl w)"
  shows "let ((fid, rs, rn), w') = run_state (NVM_GetFileDesc P lid (Some a) (Some c) b) w; p = cFileName (file_of P lid) in
    0 \<le> fid_iFileDesc fid \<and> fid_ifile_lid fid = lid \<and> fid_bIsRead fid = b \<and>
    rs = Some (i4RecSize (file_of P lid)) \<and> rn = Some (i4RecNum (file_of P lid)) \<and>
    (\<exists>d. fds w' (fid_iFileDesc fid) = Some d \<and> fd_path d = p \<and> fd_pos d = 0 \<and> fd_rd d \<and> fd_wr d = (\<not> b)) \<and>
    kept P w' \<and> locks w' = locks w \<and> fst (run_state (NVM_CmpFileVerNo P lid) w') \<and>
    (\<exists>i. fs w' p = Some i \<and> ikind i = Reg \<and> sealed P lid (idata i)) \<and>
    (\<forall>q. q \<noteq> p \<and> q \<noteq> ver_path P \<longrightarrow> fs w' q = fs w q)"
proof -
  let ?p = "cFileName (file_of P lid)"
  obtain i where i: "fs w ?p = Some i" and d: "default_ok (file_of P lid)" and lid: "lid_ok P lid"
    using assms(2) by (auto simp: stored_file_def)
  have l: "dirlock \<notin> locks w" "recoverlock \<notin> locks w" using assms(3) by auto
  obtain v L where v: "run_state (NVM_GetFileDesc P lid (Some a) (Some c) b) w =
      ((\<lparr>fid_iFileDesc = next_fd v, fid_ifile_lid = lid, fid_bIsRead = b\<rparr>,
        Some (i4RecSize (file_of P lid)), Some (i4RecNum (file_of P lid))), granted P lid b v)"
    "stepped P lid L w v" "L \<subseteq> {lid}" "fst (run_state (NVM_CmpFileVerNo P lid) v)"
    "map_option idata (fs v ?p) = Some (opened P w lid (idata i))"
    by (rule run_GetFileDesc [OF assms(1,2) l assms(4-6) i])
  have kv: "kept P v" using v(2) by (simp add: stepped_def)
  have kg: "kept P (granted P lid b v)" by (rule kept_granted [OF kv])
  have c: "fst (run_state (NVM_CmpFileVerNo P lid) (granted P lid b v))"
    using cmp_same [OF kv kg _ lid] v(4) by (simp add: granted_def)
  have n: "0 \<le> next_fd v" using kv by (simp add: kept_def)
  obtain j where j: "fs v ?p = Some j" "ikind j = Reg" "sealed P lid (idata j)"
    using v(2,5) opened_sealed(1) [OF d, of w "idata i"] by (auto simp: stepped_def)
  show ?thesis
    using v(2) kg c n j by (auto simp: v(1) stepped_def granted_def new_fd_def open_flags_def wants_write_def)
qed

lemma plain_P0: "plain P0 2"
proof -
  have "g_new_nvram_lid P0 = []" by (simp add: P0_def)
  then show ?thesis using sample_not_backed by (simp add: plain_def sample_defaults NVM_InSpecialLidList_def)
qed

theorem GetFileDesc_ready_witness:
  "0 \<le> fid_iFileDesc (fst (fst (run_state (NVM_GetFileDesc P0 2 (Some 0) (Some 0) True)
    (disk [(''/nvdata/FILE_VER'', reg (concat (default_table P0))), (''/nvdata/BT_Addr'', reg ''?'')]))))"
proof -
  let ?w = "disk [(''/nvdata/FILE_VER'', reg (concat (default_table P0))), (''/nvdata/BT_Addr'', reg ''?'')]"
  have f: "cFileName e_bt = ''/nvdata/BT_Addr''" by (simp add: e_bt_def)
  have "ver_table P0 ?w (default_table P0)"
    using default_table_props [of P0] by (simp add: ver_table_def ver_path_P0)
  then have k: "kept P0 ?w"
    unfolding kept_def using default_in_order [of P0] by (intro conjI exI [of _ "default_table P0"]) simp_all
  have s: "stored_file P0 ?w 2"
    using lid_ok_P0(3) by (simp add: stored_file_def sample_defaults f ver_path_P0 writable_def is_dir_def new_inode_def)
  show ?thesis
    using GetFileDesc_ready [OF k s _ plain_P0, of 0 0 True] by (simp add: g0_def case_prod_unfold Let_def del: disk_sel(9))
qed

section \<open>Corners\<close>

text \<open>When \<open>fsync\<close> fails, closing returns false and leaves the descriptor open.\<close>

lemma failed_fsync_leaks:
  assumes "faults w = Fail # fl" and "fid_iFileDesc fid \<noteq> -1" and "plain P (fid_ifile_lid fid)"
  shows "run_state (NVM_CloseFileDesc P fid) w = (False, w\<lparr>faults := fl\<rparr>)"
proof -
  have "run_state (sys_fsync (fid_iFileDesc fid)) w = (-1, w\<lparr>faults := fl\<rparr>)"
    using assms(1) by (simp add: sys_fsync_def pop_fault_def)
  then show ?thesis using assms(2,3) by (auto simp: NVM_CloseFileDesc_def run_bind run_ret plain_def)
qed

text \<open>The record number is only compared with its upper bound.\<close>

lemma negative_record_accepted:
  assumes "lid_ok P lid" and "lid < g_i4MaxNvRamLid (gl w)" and "rec_id < 0" and "0 \<le> i4RecNum (file_of P lid)"
  shows "fst (run_state (NVM_CheckFileID P lid rec_id) w)"
proof -
  obtain t where "NVM_GetCfgFileTable P lid = Some t" "in_table t (real_lid P lid)" "entry t (real_lid P lid) = file_of P lid"
    by (rule table_lookup [OF assms(1)])
  then show ?thesis using assms(2-4) by (simp add: NVM_CheckFileID_def run_bind run_ret run_check run_gets)
qed

end
