(* ===== verification/Runs.thy ===== *)
theory Runs
  imports Main
begin

text \<open>
  Runs of a labelled step relation and simulations between two of them, shared by the components
  that are modelled as state machines.
\<close>

text \<open>The sequences of labels a step relation can go through.\<close>

inductive runs :: "('s \<Rightarrow> 'l \<Rightarrow> 's \<Rightarrow> bool) \<Rightarrow> 's \<Rightarrow> 'l list \<Rightarrow> 's \<Rightarrow> bool" for step where
  runs_nil: "runs step s [] s"
| runs_cons: "step s l t \<Longrightarrow> runs step t ls u \<Longrightarrow> runs step s (l # ls) u"

text \<open>A simulation of single steps is a simulation of runs, for any two systems.\<close>

locale simulation =
  fixes cstep :: "'c \<Rightarrow> 'l \<Rightarrow> 'c \<Rightarrow> bool" and astep :: "'a \<Rightarrow> 'l \<Rightarrow> 'a \<Rightarrow> bool"
    and abstr :: "'c \<Rightarrow> 'a" and inv :: "'c \<Rightarrow> bool"
  assumes step_inv: "inv s \<Longrightarrow> cstep s l t \<Longrightarrow> inv t"
    and step_abs: "inv s \<Longrightarrow> cstep s l t \<Longrightarrow> astep (abstr s) l (abstr t)"
begin

lemma runs_inv: "runs cstep s ls t \<Longrightarrow> inv s \<Longrightarrow> inv t"
  by (induction rule: runs.induct) (auto intro: step_inv)

lemma runs_abs: "runs cstep s ls t \<Longrightarrow> inv s \<Longrightarrow> runs astep (abstr s) ls (abstr t)"
  by (induction rule: runs.induct) (auto intro: runs.intros step_inv step_abs)

end

lemma runs_append: "runs step s ls t \<Longrightarrow> runs step t ms u \<Longrightarrow> runs step s (ls @ ms) u"
  by (induction rule: runs.induct) (auto intro: runs_cons)

text \<open>What every step keeps, with a history \<open>h\<close> of the labels so far, every run keeps.\<close>

lemma runs_history:
  assumes "runs step s ls t" and "I A s"
    and "\<And>A s l t. I A s \<Longrightarrow> step s l t \<Longrightarrow> I (A @ h l) t"
  shows "I (A @ concat (map h ls)) t"
  using assms(1,2)
proof (induction arbitrary: A rule: runs.induct)
  case (runs_cons s l t ls u)
  from runs_cons.IH [OF assms(3) [OF runs_cons.prems runs_cons.hyps(1)]] show ?case by simp
qed simp

lemma runs_restrict: "runs step s ls t \<Longrightarrow> \<forall>l \<in> set ls. Q l \<Longrightarrow> runs (\<lambda>s l t. step s l t \<and> Q l) s ls t"
  by (induction rule: runs.induct) (auto intro: runs.intros)

text \<open>A measure that pays for each step bounds how often a run can make it.\<close>

lemma runs_measure:
  assumes "runs step s ls t" and "I s"
    and "\<And>s l t. I s \<Longrightarrow> step s l t \<Longrightarrow> I t \<and> m t + c l \<le> (m s :: nat)"
  shows "I t \<and> m t + sum_list (map c ls) \<le> m s"
  using assms(1,2)
proof (induction rule: runs.induct)
  case (runs_cons s l t ls u)
  from assms(3) [OF runs_cons.prems runs_cons.hyps(1)] have "I t" "m t + c l \<le> m s" by auto
  with runs_cons.IH show ?case by simp
qed simp

end
