(* ===== verification/Session.thy ===== *)
theory Session
  imports OpenClose Runs
begin

text \<open>
  Sessions of a client on the files of the device: a labelled transition system of the calls, an
  abstract store of records, and the refinement of the store by any sequence of opening, writing,
  reading, closing and resetting.
\<close>

section \<open>Sessions as a labelled transition system\<close>

text \<open>
  The calls a client makes, each with its result: opening a lid for reading or writing, storing
  bytes at an offset of the record area, reading them, closing, and resetting a file.
\<close>

datatype nv_call = Open int bool | Put nat bytes | Get nat nat "bytes option" | Close bool | Reset int bool

record session =
  dev :: "nv_globals world"
  user :: "f_id option"

definition area :: "plat \<Rightarrow> int \<Rightarrow> nat" where
  "area P lid = nat (table_size (file_of P lid))"

inductive nv_step :: "plat \<Rightarrow> session \<Rightarrow> nv_call \<Rightarrow> session \<Rightarrow> bool" for P where
  nv_open: "user s = None \<Longrightarrow> stored_file P (dev s) lid \<Longrightarrow> plain P lid \<Longrightarrow>
     run_state (NVM_GetFileDesc P lid (Some a) (Some c) b) (dev s) = ((fid, rs, rn), w) \<Longrightarrow>
     nv_step P s (Open lid b) \<lparr>dev = w, user = Some fid\<rparr>"
| nv_put: "user s = Some fid \<Longrightarrow> \<not> fid_bIsRead fid \<Longrightarrow> off + length bs \<le> area P (fid_ifile_lid fid) \<Longrightarrow>
     run_state (sys_pwrite (fid_iFileDesc fid) bs (int off)) (dev s) = (n, w) \<Longrightarrow>
     nv_step P s (Put off bs) (s\<lparr>dev := w\<rparr>)"
| nv_get: "user s = Some fid \<Longrightarrow> off + n \<le> area P (fid_ifile_lid fid) \<Longrightarrow>
     run_state (sys_pread (fid_iFileDesc fid) n (int off)) (dev s) = (r, w) \<Longrightarrow>
     nv_step P s (Get off n r) (s\<lparr>dev := w\<rparr>)"
| nv_close: "user s = Some fid \<Longrightarrow> run_state (NVM_CloseFileDesc P fid) (dev s) = (r, w) \<Longrightarrow>
     nv_step P s (Close r) \<lparr>dev = w, user = None\<rparr>"
| nv_reset: "user s = None \<Longrightarrow> stored_file P (dev s) lid \<Longrightarrow>
     run_state (NVM_ResetFileToDefault P lid) (dev s) = (r, w) \<Longrightarrow>
     nv_step P s (Reset lid r) \<lparr>dev = w, user = None\<rparr>"

text \<open>The abstract store: one record area per lid, and who holds which lid.\<close>

record store =
  recs :: "int \<Rightarrow> bytes"
  holder :: "(int \<times> bool) option"

definition default_record :: "plat \<Rightarrow> int \<Rightarrow> bytes" where
  "default_record P lid = default_data (file_of P lid)"

inductive store_step :: "plat \<Rightarrow> store \<Rightarrow> nv_call \<Rightarrow> store \<Rightarrow> bool" for P where
  st_open: "holder s = None \<Longrightarrow> store_step P s (Open lid b) (s\<lparr>holder := Some (lid, b)\<rparr>)"
| st_put: "holder s = Some (lid, False) \<Longrightarrow>
     store_step P s (Put off bs) (s\<lparr>recs := (recs s)(lid := splice off bs (recs s lid))\<rparr>)"
| st_get: "holder s = Some (lid, b) \<Longrightarrow> store_step P s (Get off n (Some (take n (drop off (recs s lid))))) s"
| st_close: "holder s = Some (lid, b) \<Longrightarrow> store_step P s (Close True) (s\<lparr>holder := None\<rparr>)"
| st_reset: "holder s = None \<Longrightarrow> store_step P s (Reset lid True) (s\<lparr>recs := (recs s)(lid := default_record P lid)\<rparr>)"

inductive_cases store_step_get: "store_step P s (Get off n r) t"
inductive_cases store_step_close: "store_step P s (Close r) t"

text \<open>The abstraction of a device: the record area of every stored file.\<close>

definition record_of :: "plat \<Rightarrow> nv_globals world \<Rightarrow> int \<Rightarrow> bytes" where
  "record_of P w lid = (case fs w (cFileName (file_of P lid)) of None \<Rightarrow> [] | Some i \<Rightarrow> take (area P lid) (idata i))"

definition abs_store :: "plat \<Rightarrow> session \<Rightarrow> store" where
  "abs_store P s = \<lparr>recs = (\<lambda>lid. if stored_file P (dev s) lid then record_of P (dev s) lid else []),
     holder = map_option (\<lambda>fid. (fid_ifile_lid fid, fid_bIsRead fid)) (user s)\<rparr>"

text \<open>
  The invariant: the device can be worked with; every plain stored file is current and sealed,
  but for the one that is open for writing, which only has the right size; the open descriptor
  belongs to the file it was opened for.
\<close>

definition sized :: "plat \<Rightarrow> int \<Rightarrow> bytes \<Rightarrow> bool" where
  "sized P lid x \<longleftrightarrow> in_lid_list (aPerformance P) lid \<or> length x = area P lid + 2"

definition file_inv :: "plat \<Rightarrow> session \<Rightarrow> int \<Rightarrow> bool" where
  "file_inv P s lid \<longleftrightarrow> (\<exists>i. fs (dev s) (cFileName (file_of P lid)) = Some i \<and> sized P lid (idata i) \<and>
     (sealed P lid (idata i) \<or> map_option (\<lambda>fid. (fid_ifile_lid fid, fid_bIsRead fid)) (user s) = Some (lid, False))) \<and>
     fst (run_state (NVM_CmpFileVerNo P lid) (dev s))"

definition session_inv :: "plat \<Rightarrow> session \<Rightarrow> bool" where
  "session_inv P s \<longleftrightarrow> convertible P (dev s) \<and> nvram_init_flag (gl (dev s)) \<and> 0 \<le> g_i4MaxNvRamLid (gl (dev s)) \<and>
     (\<forall>lid. stored_file P (dev s) lid \<and> plain P lid \<longrightarrow> file_inv P s lid) \<and>
     (case user s of None \<Rightarrow> True | Some fid \<Rightarrow>
        stored_file P (dev s) (fid_ifile_lid fid) \<and> plain P (fid_ifile_lid fid) \<and> fid_iFileDesc fid \<noteq> -1 \<and>
        (\<exists>d. fds (dev s) (fid_iFileDesc fid) = Some d \<and> fd_path d = cFileName (file_of P (fid_ifile_lid fid)) \<and>
           fd_rd d \<and> fd_wr d = (\<not> fid_bIsRead fid)))"

section \<open>Steps keep the invariant and refine the store\<close>

definition clean :: "plat \<Rightarrow> nv_globals world \<Rightarrow> int \<Rightarrow> bool" where
  "clean P w lid \<longleftrightarrow> (\<exists>i. fs w (cFileName (file_of P lid)) = Some i \<and> sized P lid (idata i) \<and> sealed P lid (idata i)) \<and>
     fst (run_state (NVM_CmpFileVerNo P lid) w)"

lemma clean_file_inv: "clean P (dev s) lid \<Longrightarrow> file_inv P s lid"
  by (auto simp: clean_def file_inv_def)

lemma file_inv_clean:
  "file_inv P s lid \<Longrightarrow> (\<forall>fid. user s = Some fid \<longrightarrow> fid_ifile_lid fid \<noteq> lid \<or> fid_bIsRead fid) \<Longrightarrow> clean P (dev s) lid"
  by (auto simp: clean_def file_inv_def)

lemma sized_sealed: "sealed P lid x \<Longrightarrow> sized P lid x"
  by (auto simp: sized_def sealed_def area_def)

lemma stored_iff:
  "convertible P w \<Longrightarrow> stored_file P w h \<longleftrightarrow> lid_ok P h \<and> h \<noteq> iFileVerInfoLID P \<and> fs w (cFileName (file_of P h)) \<noteq> None"
  by (auto simp: convertible_def stored_file_def)

lemma convertible_same:
  "convertible P w \<Longrightarrow> kept P v \<Longrightarrow> fs v = fs w \<Longrightarrow> locks v = locks w \<Longrightarrow> convertible P v"
  by (simp add: convertible_def stored_file_def writable_def)

lemma clean_same: "kept P w \<Longrightarrow> kept P v \<Longrightarrow> fs v = fs w \<Longrightarrow> lid_ok P lid \<Longrightarrow> clean P v lid = clean P w lid"
  using cmp_same [of P w v lid] by (simp add: clean_def)

lemma stepped_frame:
  assumes "convertible P w" and "stored_file P w lid" and "stepped P lid L w v"
  shows "convertible P v" and "stored_file P v h = stored_file P w h"
    and "stored_file P w h \<Longrightarrow> h \<noteq> lid \<Longrightarrow> fs v (cFileName (file_of P h)) = fs w (cFileName (file_of P h))"
    and "stored_file P w h \<Longrightarrow> h \<noteq> lid \<Longrightarrow> L \<subseteq> {lid} \<Longrightarrow> clean P v h = clean P w h"
proof -
  note c = convertible_stepped [OF assms]
  show "convertible P v" by (rule c(1))
  show "stored_file P v h = stored_file P w h" by (simp add: stored_iff [OF c(1)] stored_iff [OF assms(1)] c(2))
  have k: "kept P w" using assms(1) by (simp add: convertible_def)
  show f: "fs v (cFileName (file_of P h)) = fs w (cFileName (file_of P h))" if "stored_file P w h" "h \<noteq> lid"
    using that assms(2,3) paths_differ [OF k, of h lid] by (simp add: stored_file_def stepped_def)
  show "clean P v h = clean P w h" if "stored_file P w h" "h \<noteq> lid" "L \<subseteq> {lid}"
    using that f assms(3) by (auto simp: clean_def stepped_def stored_file_def)
qed

definition all_recs :: "plat \<Rightarrow> nv_globals world \<Rightarrow> int \<Rightarrow> bytes" where
  "all_recs P w = (\<lambda>lid. if stored_file P w lid then record_of P w lid else [])"

lemma all_recs_stepped:
  assumes "convertible P w" and "stored_file P w lid" and "stepped P lid L w v"
  shows "all_recs P v = (all_recs P w)(lid := record_of P v lid)"
  using stepped_frame(2,3) [OF assms] assms(2) by (auto simp: all_recs_def record_of_def fun_eq_iff)

lemma all_recs_same:
  assumes "fs v = fs w"
  shows "all_recs P v = all_recs P w"
proof -
  have "stored_file P v h = stored_file P w h" "record_of P v h = record_of P w h" for h
    using assms by (simp_all add: record_of_def stored_file_def writable_def)
  then show ?thesis by (auto simp: all_recs_def fun_eq_iff)
qed

lemma record_of_Some:
  "map_option idata (fs w (cFileName (file_of P lid))) = Some x \<Longrightarrow> record_of P w lid = take (area P lid) x"
  by (auto simp: record_of_def)

lemma take_splice_within:
  assumes "off + length bs \<le> n"
  shows "take n (splice off bs x) = splice off bs (take n x)"
proof -
  have "off < n \<or> off = n \<and> bs = []" using assms by (cases bs) auto
  then show ?thesis using assms by (cases "length x \<le> n") (auto simp: splice_def min_def drop_take)
qed

lemma take_drop_area: "off + m \<le> n \<Longrightarrow> take m (drop off (take n x)) = take m (drop off x)"
  by (simp add: drop_take min_def)

text \<open>The record area of a file survives closing: only the pair behind it is written anew.\<close>

lemma guarded_area:
  assumes "sized P lid x" and "\<not> in_lid_list (aPerformance P) lid"
  shows "take (area P lid) (guarded P lid True x) = take (area P lid) x"
  using assms by (simp add: sized_def guarded_def size_class_def area_def covered_def Let_def)

text \<open>The files of a state after a step on one of them.\<close>

lemma files_after:
  assumes "session_inv P s" and "stored_file P (dev s) lid" and "stepped P lid L (dev s) v" and "L \<subseteq> {lid}"
    and "\<forall>fid. user s = Some fid \<longrightarrow> fid_ifile_lid fid = lid"
    and "plain P lid \<Longrightarrow> file_inv P \<lparr>dev = v, user = u\<rparr> lid"
  shows "\<forall>h. stored_file P v h \<and> plain P h \<longrightarrow> file_inv P \<lparr>dev = v, user = u\<rparr> h"
proof (intro allI impI)
  fix h
  assume h: "stored_file P v h \<and> plain P h"
  have c: "convertible P (dev s)" using assms(1) by (simp add: session_inv_def)
  note fr = stepped_frame [OF c assms(2,3)]
  show "file_inv P \<lparr>dev = v, user = u\<rparr> h"
  proof (cases "h = lid")
    case False
    have hs: "stored_file P (dev s) h" using h fr(2) by simp
    then have "file_inv P s h" using assms(1) h by (simp add: session_inv_def)
    then have "clean P (dev s) h" by (rule file_inv_clean) (use assms(5) False in auto)
    then have "clean P v h" using fr(4) [OF hs False assms(4)] by simp
    then show ?thesis using clean_file_inv [of P "\<lparr>dev = v, user = u\<rparr>" h] by simp
  qed (use assms(6) h in simp)
qed

lemma abs_store_eq: "abs_store P s = \<lparr>recs = all_recs P (dev s), holder = map_option (\<lambda>fid. (fid_ifile_lid fid, fid_bIsRead fid)) (user s)\<rparr>"
  by (simp add: abs_store_def all_recs_def)

lemma session_facts:
  assumes "session_inv P s"
  shows "convertible P (dev s)" and "kept P (dev s)" and "faults (dev s) = []" and "dirlock \<notin> locks (dev s)"
    and "recoverlock \<notin> locks (dev s)" and "nvram_init_flag (gl (dev s))" and "0 \<le> g_i4MaxNvRamLid (gl (dev s))"
  using assms by (simp_all add: session_inv_def convertible_def kept_def)

lemma file_inv_same:
  "kept P v \<Longrightarrow> kept P w \<Longrightarrow> fs w = fs v \<Longrightarrow> lid_ok P h \<Longrightarrow>
   file_inv P \<lparr>dev = w, user = u\<rparr> h = file_inv P \<lparr>dev = v, user = u\<rparr> h"
  using cmp_same [of P v w h] by (simp add: file_inv_def)

lemma stored_same: "fs w = fs v \<Longrightarrow> stored_file P w h = stored_file P v h"
  by (simp add: stored_file_def writable_def)

lemma step_open:
  assumes "session_inv P s" and "user s = None" and "stored_file P (dev s) lid" and "plain P lid"
    and "run_state (NVM_GetFileDesc P lid (Some a) (Some c) b) (dev s) = ((fid, rs, rn), w)"
  shows "session_inv P \<lparr>dev = w, user = Some fid\<rparr>"
    and "store_step P (abs_store P s) (Open lid b) (abs_store P \<lparr>dev = w, user = Some fid\<rparr>)"
proof -
  let ?p = "cFileName (file_of P lid)"
  note f = session_facts [OF assms(1)]
  have d: "default_ok (file_of P lid)" and lid: "lid_ok P lid" using assms(3) by (auto simp: stored_file_def)
  have "file_inv P s lid" using assms(1,3,4) by (simp add: session_inv_def)
  then have cl: "clean P (dev s) lid" by (rule file_inv_clean) (use assms(2) in simp)
  then obtain i where i: "fs (dev s) ?p = Some i" "sized P lid (idata i)" "sealed P lid (idata i)"
    and cur: "fst (run_state (NVM_CmpFileVerNo P lid) (dev s))" by (auto simp: clean_def)
  obtain v L where v: "run_state (NVM_GetFileDesc P lid (Some a) (Some c) b) (dev s) =
      ((\<lparr>fid_iFileDesc = next_fd v, fid_ifile_lid = lid, fid_bIsRead = b\<rparr>,
        Some (i4RecSize (file_of P lid)), Some (i4RecNum (file_of P lid))), granted P lid b v)"
    "stepped P lid L (dev s) v" "L \<subseteq> {lid}" "fst (run_state (NVM_CmpFileVerNo P lid) v)"
    "map_option idata (fs v ?p) = Some (opened P (dev s) lid (idata i))"
    by (rule run_GetFileDesc [OF f(2) assms(3) f(4,5) assms(4) f(6,7) i(1)])
  have x: "map_option idata (fs v ?p) = Some (idata i)" using v(5) opened_sealed(2) [OF d cur i(3)] by simp
  have w: "w = granted P lid b v" and fid: "fid = \<lparr>fid_iFileDesc = next_fd v, fid_ifile_lid = lid, fid_bIsRead = b\<rparr>"
    using v(1) assms(5) by simp_all
  note fr = stepped_frame [OF f(1) assms(3) v(2)]
  have kv: "kept P v" "gl v = gl (dev s)" "fds v = fds (dev s)" using v(2) by (simp_all add: stepped_def)
  have kw: "kept P w" "fs w = fs v" "locks w = locks v" using kept_granted [OF kv(1)] by (simp_all add: w granted_def)
  have cw: "convertible P w" by (rule convertible_same [OF fr(1) kw])
  have sw: "stored_file P w h = stored_file P v h" for h by (rule stored_same [OF kw(2)])
  have "clean P v lid" using x v(4) i(2,3) by (auto simp: clean_def)
  then have lidv: "file_inv P \<lparr>dev = v, user = Some fid\<rparr> lid" using clean_file_inv [of P "\<lparr>dev = v, user = Some fid\<rparr>" lid] by simp
  have "\<forall>h. stored_file P v h \<and> plain P h \<longrightarrow> file_inv P \<lparr>dev = v, user = Some fid\<rparr> h"
    by (rule files_after [OF assms(1,3) v(2,3)]) (use assms(2) lidv in simp_all)
  then have "\<forall>h. stored_file P w h \<and> plain P h \<longrightarrow> file_inv P \<lparr>dev = w, user = Some fid\<rparr> h"
    using file_inv_same [OF kv(1) kw(1,2)] sw by (auto simp: stored_file_def)
  moreover have "stored_file P w lid" using sw fr(2) assms(3) by simp
  moreover have "0 < next_fd v" using kv(1) by (simp add: kept_def)
  ultimately show "session_inv P \<lparr>dev = w, user = Some fid\<rparr>"
    using cw f(6,7) kv(2) assms(4)
    by (auto simp: session_inv_def fid w granted_def new_fd_def open_flags_def wants_write_def)
  have "record_of P v lid = record_of P (dev s) lid" using x i(1) by (auto simp: record_of_def)
  moreover have "all_recs P (dev s) lid = record_of P (dev s) lid" using assms(3) by (simp add: all_recs_def)
  ultimately have "all_recs P v = all_recs P (dev s)" by (simp add: all_recs_stepped [OF f(1) assms(3) v(2)] fun_upd_idem)
  then have "abs_store P \<lparr>dev = w, user = Some fid\<rparr> = (abs_store P s)\<lparr>holder := Some (lid, b)\<rparr>"
    using all_recs_same [OF kw(2)] by (simp add: abs_store_eq fid)
  then show "store_step P (abs_store P s) (Open lid b) (abs_store P \<lparr>dev = w, user = Some fid\<rparr>)"
    using st_open [of "abs_store P s" P lid b] assms(2) by (simp add: abs_store_eq)
qed

lemma user_facts:
  assumes "session_inv P s" and "user s = Some fid"
  obtains d i where "stored_file P (dev s) (fid_ifile_lid fid)" and "plain P (fid_ifile_lid fid)" and "fid_iFileDesc fid \<noteq> -1"
    and "fds (dev s) (fid_iFileDesc fid) = Some d" and "fd_path d = cFileName (file_of P (fid_ifile_lid fid))" and "fd_rd d"
    and "fd_wr d = (\<not> fid_bIsRead fid)" and "fs (dev s) (cFileName (file_of P (fid_ifile_lid fid))) = Some i" and "ikind i = Reg"
    and "length (idata i) < 2 ^ 31" and "sized P (fid_ifile_lid fid) (idata i)"
    and "sealed P (fid_ifile_lid fid) (idata i) \<or> \<not> fid_bIsRead fid"
    and "fst (run_state (NVM_CmpFileVerNo P (fid_ifile_lid fid)) (dev s))"
proof -
  obtain d where d: "stored_file P (dev s) (fid_ifile_lid fid)" "plain P (fid_ifile_lid fid)" "fid_iFileDesc fid \<noteq> -1"
    "fds (dev s) (fid_iFileDesc fid) = Some d" "fd_path d = cFileName (file_of P (fid_ifile_lid fid))" "fd_rd d"
    "fd_wr d = (\<not> fid_bIsRead fid)"
    using assms by (auto simp: session_inv_def)
  then have fi: "file_inv P s (fid_ifile_lid fid)" using assms(1) by (simp add: session_inv_def)
  then obtain i where i: "fs (dev s) (cFileName (file_of P (fid_ifile_lid fid))) = Some i" by (auto simp: file_inv_def)
  show ?thesis
    by (rule that [OF d i]) (use d(1) i fi assms(2) in \<open>auto simp: file_inv_def stored_file_def\<close>)
qed

lemma area_small: "stored_file P w lid \<Longrightarrow> area P lid < 2 ^ 31 - 2"
  using length_default [of "file_of P lid"] by (auto simp: stored_file_def area_def)

lemma step_put:
  assumes "session_inv P s" and "user s = Some fid" and "\<not> fid_bIsRead fid" and "off + length bs \<le> area P (fid_ifile_lid fid)"
    and "run_state (sys_pwrite (fid_iFileDesc fid) bs (int off)) (dev s) = (n, w)"
  shows "session_inv P (s\<lparr>dev := w\<rparr>)" and "store_step P (abs_store P s) (Put off bs) (abs_store P (s\<lparr>dev := w\<rparr>))"
proof -
  let ?lid = "fid_ifile_lid fid"
  let ?p = "cFileName (file_of P ?lid)"
  note f = session_facts [OF assms(1)]
  obtain d i where u: "stored_file P (dev s) ?lid" "plain P ?lid" "fid_iFileDesc fid \<noteq> -1"
      "fds (dev s) (fid_iFileDesc fid) = Some d" "fd_path d = ?p" "fd_rd d" "fd_wr d = (\<not> fid_bIsRead fid)"
    and i: "fs (dev s) ?p = Some i" "ikind i = Reg" "length (idata i) < 2 ^ 31" "sized P ?lid (idata i)"
    and cur: "fst (run_state (NVM_CmpFileVerNo P ?lid) (dev s))"
    by (rule user_facts [OF assms(1,2)])
  let ?x = "splice off bs (idata i)"
  have w: "w = used 0 ((dev s)\<lparr>fs := (fs (dev s))(?p \<mapsto> i\<lparr>idata := ?x\<rparr>)\<rparr>)"
    using assms(5) run_pwrite [OF f(3) u(4), of i "int off" bs] u(5,7) i assms(3) by simp
  have lx: "length ?x < 2 ^ 31" using i(3) assms(4) area_small [OF u(1)] by simp
  have pv: "?p \<noteq> ver_path P" and lid: "lid_ok P ?lid" using u(1) by (simp_all add: stored_file_def)
  have st: "stepped P ?lid {} (dev s) w" unfolding w by (rule stepped_write [OF f(2) i(1,2) lx pv]) simp
  note fr = stepped_frame [OF f(1) u(1) st]
  have sz: "sized P ?lid ?x" using i(4) assms(4) by (auto simp: sized_def)
  have fl: "file_inv P \<lparr>dev = w, user = Some fid\<rparr> ?lid"
    using st cur lid sz assms(3) by (auto simp: file_inv_def stepped_def w)
  have "\<forall>h. stored_file P w h \<and> plain P h \<longrightarrow> file_inv P \<lparr>dev = w, user = Some fid\<rparr> h"
    by (rule files_after [OF assms(1) u(1) st]) (use assms(2) fl in simp_all)
  moreover have "s\<lparr>dev := w\<rparr> = \<lparr>dev = w, user = Some fid\<rparr>" using assms(2) by (cases s) simp
  ultimately show "session_inv P (s\<lparr>dev := w\<rparr>)"
    using fr(1,2) f(6,7) st u by (auto simp: session_inv_def stepped_def)
  have r: "record_of P w ?lid = splice off bs (record_of P (dev s) ?lid)"
    using i(1) take_splice_within [OF assms(4)] by (simp add: record_of_def w)
  have "all_recs P (dev s) ?lid = record_of P (dev s) ?lid" using u(1) by (simp add: all_recs_def)
  then have "abs_store P (s\<lparr>dev := w\<rparr>) = (abs_store P s)\<lparr>recs := (recs (abs_store P s))(?lid := splice off bs (recs (abs_store P s) ?lid))\<rparr>"
    by (simp add: abs_store_eq all_recs_stepped [OF f(1) u(1) st] r)
  then show "store_step P (abs_store P s) (Put off bs) (abs_store P (s\<lparr>dev := w\<rparr>))"
    using st_put [of "abs_store P s" ?lid P off bs] assms(2,3) by (simp add: abs_store_eq)
qed

lemma step_get:
  assumes "session_inv P s" and "user s = Some fid" and "off + n \<le> area P (fid_ifile_lid fid)"
    and "run_state (sys_pread (fid_iFileDesc fid) n (int off)) (dev s) = (r, w)"
  shows "session_inv P (s\<lparr>dev := w\<rparr>)" and "store_step P (abs_store P s) (Get off n r) (abs_store P (s\<lparr>dev := w\<rparr>))"
proof -
  let ?lid = "fid_ifile_lid fid"
  let ?p = "cFileName (file_of P ?lid)"
  note f = session_facts [OF assms(1)]
  obtain d i where u: "stored_file P (dev s) ?lid"
      "fds (dev s) (fid_iFileDesc fid) = Some d" "fd_path d = ?p" "fd_rd d"
    and i: "fs (dev s) ?p = Some i" "ikind i = Reg"
    by (rule user_facts [OF assms(1,2)])
  have r: "r = Some (take n (drop off (idata i)))" and w: "w = dev s"
    using assms(4) run_pread [OF f(3) u(2), of i "int off" n] u(3,4) i by simp_all
  have s: "s\<lparr>dev := w\<rparr> = s" by (simp add: w)
  show "session_inv P (s\<lparr>dev := w\<rparr>)" using assms(1) by (simp add: s)
  have rc: "recs (abs_store P s) ?lid = take (area P ?lid) (idata i)"
    using u(1) i(1) by (simp add: abs_store_eq all_recs_def record_of_def)
  have "r = Some (take n (drop off (recs (abs_store P s) ?lid)))" unfolding r rc take_drop_area [OF assms(3)] by (rule refl)
  then show "store_step P (abs_store P s) (Get off n r) (abs_store P (s\<lparr>dev := w\<rparr>))"
    using st_get [of "abs_store P s" ?lid "fid_bIsRead fid" P off n] assms(2) by (simp add: s abs_store_eq)
qed

lemma step_close:
  assumes "session_inv P s" and "user s = Some fid" and "run_state (NVM_CloseFileDesc P fid) (dev s) = (r, w)"
  shows "session_inv P \<lparr>dev = w, user = None\<rparr>" and "store_step P (abs_store P s) (Close r) (abs_store P \<lparr>dev = w, user = None\<rparr>)"
proof -
  let ?lid = "fid_ifile_lid fid" and ?b = "fid_bIsRead fid"
  let ?p = "cFileName (file_of P ?lid)" and ?s = "\<lparr>dev = closed (fid_iFileDesc fid) (dev s), user = Some fid\<rparr>"
  note f = session_facts [OF assms(1)]
  obtain d i where u: "stored_file P (dev s) ?lid" "plain P ?lid" "fid_iFileDesc fid \<noteq> -1" "fds (dev s) (fid_iFileDesc fid) = Some d"
    and i: "fs (dev s) ?p = Some i" "ikind i = Reg" "sized P ?lid (idata i)" "sealed P ?lid (idata i) \<or> \<not> ?b"
    and cur: "fst (run_state (NVM_CmpFileVerNo P ?lid) (dev s))"
    by (rule user_facts [OF assms(1,2)])
  have fid: "fid = \<lparr>fid_iFileDesc = fid_iFileDesc fid, fid_ifile_lid = ?lid, fid_bIsRead = ?b\<rparr>" by simp
  have lid: "lid_ok P ?lid" and dd: "default_ok (file_of P ?lid)" using u(1) by (simp_all add: stored_file_def)
  obtain v L where v: "run_state (NVM_CloseFileDesc P \<lparr>fid_iFileDesc = fid_iFileDesc fid, fid_ifile_lid = ?lid, fid_bIsRead = ?b\<rparr>) (dev s) = (True, v)"
    "stepped P ?lid L (closed (fid_iFileDesc fid) (dev s)) v" "L \<subseteq> {?lid}"
    "map_option idata (fs v ?p) = Some (if in_lid_list (aPerformance P) ?lid \<or> ?b then idata i else guarded P ?lid True (idata i))"
    by (rule run_CloseFileDesc [OF f(2) u(1) f(4,5) u(2,4,3) i(1), of ?b])
  have w: "w = v" "r = True" using v(1) assms(3) fid [symmetric] by simp_all
  let ?w = "closed (fid_iFileDesc fid) (dev s)"
  have kc: "kept P ?w" by (rule kept_closed [OF f(2)])
  have sm: "fs ?w = fs (dev s)" "locks ?w = locks (dev s)" "gl ?w = gl (dev s)" by (simp_all add: closed_def)
  have cc: "convertible P ?w" by (rule convertible_same [OF f(1) kc sm(1,2)])
  have sc: "stored_file P ?w ?lid" using u(1) stored_same [OF sm(1)] by blast
  note fr = stepped_frame [OF cc sc v(2)]
  have curv: "fst (run_state (NVM_CmpFileVerNo P ?lid) v)"
    using v(2) cur lid cmp_same [OF f(2) kc sm(1) [THEN fun_cong] lid] by (simp add: stepped_def)
  let ?y = "if in_lid_list (aPerformance P) ?lid \<or> ?b then idata i else guarded P ?lid True (idata i)"
  have y: "sealed P ?lid ?y" using i(4) sealed_guarded [OF dd] by (auto simp: sealed_def)
  have cl: "clean P v ?lid" using v(4) y sized_sealed [OF y] curv by (auto simp: clean_def)
  have "\<forall>h. stored_file P v h \<and> plain P h \<longrightarrow> file_inv P \<lparr>dev = v, user = None\<rparr> h"
  proof (intro allI impI)
    fix h
    assume h: "stored_file P v h \<and> plain P h"
    have hs: "stored_file P ?w h" "stored_file P (dev s) h" using h fr(2) stored_same [OF sm(1)] by blast+
    then have hl: "lid_ok P h" by (simp add: stored_file_def)
    have "clean P v h"
    proof (cases "h = ?lid")
      case False
      have "file_inv P s h" using assms(1) h hs by (simp add: session_inv_def)
      then have "clean P (dev s) h" by (rule file_inv_clean) (use assms(2) False in simp)
      then show ?thesis using fr(4) [OF hs(1) False v(3)] clean_same [OF f(2) kc sm(1) hl] by simp
    qed (use cl in simp)
    then show "file_inv P \<lparr>dev = v, user = None\<rparr> h" using clean_file_inv [of P "\<lparr>dev = v, user = None\<rparr>" h] by simp
  qed
  then show "session_inv P \<lparr>dev = w, user = None\<rparr>"
    using fr(1) f(6,7) v(2) sm(3) by (simp add: session_inv_def w stepped_def)
  have "take (area P ?lid) ?y = take (area P ?lid) (idata i)" using guarded_area [OF i(3)] by simp
  then have "record_of P v ?lid = record_of P (dev s) ?lid" using record_of_Some [OF v(4)] i(1) by (simp add: record_of_def)
  moreover have "all_recs P ?w = all_recs P (dev s)" by (rule all_recs_same [OF sm(1)])
  moreover have "all_recs P (dev s) ?lid = record_of P (dev s) ?lid" using u(1) by (simp add: all_recs_def)
  ultimately have "all_recs P v = all_recs P (dev s)" by (simp add: all_recs_stepped [OF cc sc v(2)] fun_upd_idem)
  then have "abs_store P \<lparr>dev = w, user = None\<rparr> = (abs_store P s)\<lparr>holder := None\<rparr>" by (simp add: abs_store_eq w)
  then show "store_step P (abs_store P s) (Close r) (abs_store P \<lparr>dev = w, user = None\<rparr>)"
    using st_close [of "abs_store P s" ?lid ?b P] assms(2) by (simp add: abs_store_eq w)
qed

lemma step_reset:
  assumes "session_inv P s" and "user s = None" and "stored_file P (dev s) lid"
    and "run_state (NVM_ResetFileToDefault P lid) (dev s) = (r, w)"
  shows "session_inv P \<lparr>dev = w, user = None\<rparr>" and "store_step P (abs_store P s) (Reset lid r) (abs_store P \<lparr>dev = w, user = None\<rparr>)"
proof -
  let ?p = "cFileName (file_of P lid)"
  note f = session_facts [OF assms(1)]
  have u: "lid_ok P lid" "lid \<noteq> iFileVerInfoLID P" "default_ok (file_of P lid)" "?p \<noteq> ver_path P" "writable (dev s) ?p"
    using assms(3) by (simp_all add: stored_file_def)
  obtain i where i: "fs (dev s) ?p = Some i" "ikind i = Reg" using assms(3) by (auto simp: stored_file_def)
  obtain v where v: "run_state (NVM_ResetFileToDefault P lid) (dev s) = (True, v)" "stepped P lid {lid} (dev s) v"
      "map_option idata (fs v ?p) = Some (default_data (file_of P lid) @ trailer P lid (default_data (file_of P lid)))"
    by (rule stepped_reset [OF f(2) u(1,2) f(4) u(3) i u(4,5)])
  have w: "w = v" "r = True" using v(1) assms(4) by simp_all
  note fr = stepped_frame [OF f(1) assms(3) v(2)]
  have x: "map_option idata (fs v ?p) = Some (reset_data P lid)" using v(3) by (simp add: reset_data_def)
  have "clean P v lid"
    using x sealed_reset [OF u(3)] sized_sealed v(2) u(1) by (auto simp: clean_def stepped_def)
  then have fl: "file_inv P \<lparr>dev = v, user = None\<rparr> lid" using clean_file_inv [of P "\<lparr>dev = v, user = None\<rparr>" lid] by simp
  have "\<forall>h. stored_file P v h \<and> plain P h \<longrightarrow> file_inv P \<lparr>dev = v, user = None\<rparr> h"
    by (rule files_after [OF assms(1,3) v(2)]) (use assms(2) fl in simp_all)
  then show "session_inv P \<lparr>dev = w, user = None\<rparr>" using fr(1) f(6,7) v(2) by (simp add: session_inv_def w stepped_def)
  have "length (default_data (file_of P lid)) = area P lid" using length_default(1) [OF u(3)] by (simp add: area_def)
  then have "record_of P v lid = default_record P lid"
    using record_of_Some [OF v(3)] by (simp add: default_record_def)
  then have "abs_store P \<lparr>dev = w, user = None\<rparr> = (abs_store P s)\<lparr>recs := (recs (abs_store P s))(lid := default_record P lid)\<rparr>"
    using assms(2) by (simp add: abs_store_eq w all_recs_stepped [OF f(1) assms(3) v(2)])
  then show "store_step P (abs_store P s) (Reset lid r) (abs_store P \<lparr>dev = w, user = None\<rparr>)"
    using st_reset [of "abs_store P s" P lid] assms(2) by (simp add: abs_store_eq w)
qed

interpretation sim: simulation "nv_step P" "store_step P" "abs_store P" "session_inv P" for P
proof
  show "session_inv P t" if "session_inv P s" "nv_step P s l t" for s l t
    using that(2,1) by (induction rule: nv_step.induct) (auto intro: step_open step_put step_get step_close step_reset)
  show "store_step P (abs_store P s) l (abs_store P t)" if "session_inv P s" "nv_step P s l t" for s l t
    using that(2,1) by (induction rule: nv_step.induct) (auto intro: step_open step_put step_get step_close step_reset)
qed

section \<open>Properties of sessions\<close>

text \<open>
  C1.  Any sequence of calls of a client refines the abstract store: every result the client sees
  (the bytes it reads, the success of closing and resetting) is one the store gives, and the record
  areas of the files are those of the store.
\<close>

theorem sessions_refine_store:
  assumes "session_inv P s" and "runs (nv_step P) s ls t"
  shows "runs (store_step P) (abs_store P s) ls (abs_store P t)"
  by (rule sim.runs_abs [OF assms(2,1)])

text \<open>
  C6.  Between sessions no file is ever left damaged: after any sequence of calls that ends with the
  descriptor closed, every plain file is current and carries a valid check pair.
\<close>

theorem sessions_leave_files_sealed:
  assumes "session_inv P s" and "runs (nv_step P) s ls t" and "user t = None" and "stored_file P (dev t) lid" and "plain P lid"
  shows "fst (run_state (NVM_CmpFileVerNo P lid) (dev t)) \<and>
    (\<exists>i. fs (dev t) (cFileName (file_of P lid)) = Some i \<and> sealed P lid (idata i))"
proof -
  have "session_inv P t" by (rule sim.runs_inv [OF assms(2,1)])
  then have "file_inv P t lid" using assms(4,5) by (simp add: session_inv_def)
  then have "clean P (dev t) lid" by (rule file_inv_clean) (use assms(3) in simp)
  then show ?thesis by (auto simp: clean_def)
qed

text \<open>
  C3.  What a client stores in a file survives: after closing and opening again for reading, the
  bytes are read back as they were written.
\<close>

theorem written_bytes_are_read_back:
  assumes "session_inv P s"
    and "runs (nv_step P) s [Open lid False, Put off bs, Close r, Open lid b, Get off (length bs) got] t"
  shows "r \<and> got = Some bs"
proof -
  have "runs (store_step P) (abs_store P s) [Open lid False, Put off bs, Close r, Open lid b, Get off (length bs) got] (abs_store P t)"
    by (rule sim.runs_abs [OF assms(2,1)])
  then show ?thesis
    by (auto elim!: runs.cases store_step.cases simp: read_splice)
qed

section \<open>Instances\<close>

abbreviation sample_session :: session where
  "sample_session \<equiv> \<lparr>dev = disk [(''/nvdata/FILE_VER'', reg (concat (default_table P1))),
     (''/nvdata/CAM'', reg (''ab'' @ [CHR 0xAA, c8 (check_no ''ab'')]))], user = None\<rparr>"

lemma e_cam_facts: "cFileName e_cam = ''/nvdata/CAM''" "default_ok e_cam" "table_size e_cam = 2"
  by (simp_all add: e_cam_def default_ok_def table_size_def to_int32_small)

lemma sample_session_stored: "stored_file P1 (dev sample_session) 2"
proof -
  have "lid_ok P1 2" using P1_ok(1) by (simp add: lid_ok_def P1_files)
  then show ?thesis by (simp add: stored_file_def P1_files e_cam_facts writable_def is_dir_def new_inode_def)
qed

lemma P1_plain: "plain P1 2"
proof -
  have "g_new_nvram_lid P1 = []" "aBackupToBinRegion P1 = [(''WIFI'', 1)]" by (simp_all add: P1_def P0_def)
  then show ?thesis by (simp add: plain_def NVM_InSpecialLidList_def backed_up_def)
qed

lemma sample_session_inv: "session_inv P1 sample_session"
proof -
  let ?w = "dev sample_session"
  have t: "ver_table P1 ?w (default_table P1)"
    using default_table_props [OF P1_ok(1)] by (simp add: ver_table_def P1_files)
  then have k: "kept P1 ?w"
    unfolding kept_def using default_in_order [OF P1_ok(1)] P1_ok by (intro conjI exI [of _ "default_table P1"]) simp_all
  have lids: "lid = 1 \<or> lid = 2" if "lid_ok P1 lid" "lid \<noteq> 0" for lid
    using that by (auto simp: lid_ok_def P1_files)
  have f1: "file_of P1 1 = e_wifi" by (simp add: file_of_def P1_files)
  have n: "cFileName e_wifi = ''/nvdata/WIFI''" "NVM_DataConvertFunc e_wifi = None" by (simp_all add: e_wifi_def)
  have l2: "lid_ok P1 2" using sample_session_stored by (simp add: stored_file_def)
  have conv: "convertible P1 ?w"
    unfolding convertible_def
  proof (intro conjI allI impI)
    fix j
    assume j: "lid_ok P1 j \<and> j \<noteq> iFileVerInfoLID P1"
    then have "j = 1 \<or> j = 2" using lids by (simp add: P1_files)
    then show "fs ?w (cFileName (file_of P1 j)) = None \<or> stored_file P1 ?w j"
      using sample_session_stored by (elim disjE) (simp_all add: f1 n)
    show "NVM_DataConvertFunc (file_of P1 j) = None" if "backed_up P1 j (file_of P1 j)"
      using \<open>j = 1 \<or> j = 2\<close> that P1_plain by (auto simp: f1 n plain_def)
  qed (use k in simp_all)
  have "rec_ver (default_table P1 ! Suc (nat 2)) = cFileVer (file_of P1 2)"
    using default_at [OF l2] file_ok [OF l2] by simp
  then have cur: "fst (run_state (NVM_CmpFileVerNo P1 2) ?w)"
    using run_cmp_kept [OF k l2 t default_in_order [OF P1_ok(1)]] by simp
  have "sealed P1 2 (''ab'' @ [CHR 0xAA, c8 (check_no ''ab'')])"
    by (rule pair_checked) (simp add: P1_files e_cam_facts)
  then have "file_inv P1 sample_session 2"
    using cur sized_sealed [of P1 2] by (simp add: file_inv_def P1_files e_cam_facts)
  moreover have "lid = 2" if "stored_file P1 ?w lid" for lid
  proof -
    have "lid = 1 \<or> lid = 2" using that lids by (simp add: stored_file_def P1_files)
    moreover have "lid \<noteq> 1" using that by (auto simp: stored_file_def f1 n)
    ultimately show ?thesis by simp
  qed
  ultimately show ?thesis
    using conv by (auto simp: session_inv_def g0_def)
qed

text \<open>Every call can be made: the library answers each of them.\<close>

lemma can_open: "user s = None \<Longrightarrow> stored_file P (dev s) lid \<Longrightarrow> plain P lid \<Longrightarrow> \<exists>t. nv_step P s (Open lid b) t"
  by (metis nv_open prod.exhaust)

lemma can_close: "user s = Some fid \<Longrightarrow> \<exists>r t. nv_step P s (Close r) t"
  by (metis nv_close prod.exhaust)

lemma can_put: "user s = Some fid \<Longrightarrow> \<not> fid_bIsRead fid \<Longrightarrow> off + length bs \<le> area P (fid_ifile_lid fid) \<Longrightarrow>
    \<exists>t. nv_step P s (Put off bs) t"
  by (metis nv_put prod.exhaust)

lemma can_get: "user s = Some fid \<Longrightarrow> off + n \<le> area P (fid_ifile_lid fid) \<Longrightarrow> \<exists>r t. nv_step P s (Get off n r) t"
  by (metis nv_get prod.exhaust)

lemma open_user: "session_inv P s \<Longrightarrow> nv_step P s (Open lid b) t \<Longrightarrow>
    \<exists>fid. user t = Some fid \<and> fid_ifile_lid fid = lid \<and> fid_bIsRead fid = b"
  using sim.step_abs [of P s "Open lid b" t] by (auto elim!: store_step.cases simp: abs_store_eq)

lemma put_user: "nv_step P s (Put off bs) t \<Longrightarrow> user t = user s"
  by (erule nv_step.cases) simp_all

lemma close_user: "nv_step P s (Close r) t \<Longrightarrow> user t = None"
  by (erule nv_step.cases) simp_all

text \<open>A whole session on the sample device, storing one byte and reading it back.\<close>

lemma sample_store:
  obtains r t where "runs (nv_step P1) sample_session [Open 2 False, Put 1 ''Z'', Close r] t" and "session_inv P1 t"
    and "user t = None" and "stored_file P1 (dev t) 2"
proof -
  have a: "area P1 2 = 2" by (simp add: area_def P1_files e_cam_facts)
  obtain t1 where t1: "nv_step P1 sample_session (Open 2 False) t1"
    using can_open [of sample_session P1 2 False] sample_session_stored P1_plain by auto
  have i1: "session_inv P1 t1" by (rule sim.step_inv [OF sample_session_inv t1])
  obtain f1 where f1: "user t1 = Some f1" "fid_ifile_lid f1 = 2" "\<not> fid_bIsRead f1"
    using open_user [OF sample_session_inv t1] by auto
  obtain t2 where t2: "nv_step P1 t1 (Put 1 ''Z'') t2"
    using can_put [OF f1(1,3), of 1 "''Z''" P1] f1(2) a by auto
  have i2: "session_inv P1 t2" by (rule sim.step_inv [OF i1 t2])
  obtain r t3 where t3: "nv_step P1 t2 (Close r) t3"
    using can_close [of t2 f1 P1] put_user [OF t2] f1(1) by auto
  have i3: "session_inv P1 t3" by (rule sim.step_inv [OF i2 t3])
  have s3: "stored_file P1 (dev t3) 2"
  proof -
    have "store_step P1 (abs_store P1 t1) (Put 1 ''Z'') (abs_store P1 t2)" by (rule sim.step_abs [OF i1 t2])
    then have "recs (abs_store P1 t2) 2 = splice 1 ''Z'' (recs (abs_store P1 t1) 2)"
      using f1 by (auto elim!: store_step.cases simp: abs_store_eq)
    moreover have "store_step P1 (abs_store P1 t2) (Close r) (abs_store P1 t3)" by (rule sim.step_abs [OF i2 t3])
    then have "recs (abs_store P1 t3) = recs (abs_store P1 t2)" by (auto elim!: store_step_close)
    ultimately have "length (recs (abs_store P1 t3) 2) \<noteq> 0" by simp
    then show ?thesis by (auto simp: abs_store_def split: if_splits)
  qed
  have "runs (nv_step P1) sample_session [Open 2 False, Put 1 ''Z'', Close r] t3"
    by (rule runs_cons, rule t1, rule runs_cons, rule t2, rule runs_cons, rule t3, rule runs_nil)
  then show ?thesis by (rule that [OF _ i3 close_user [OF t3] s3])
qed

lemma sample_run:
  obtains r got t where "runs (nv_step P1) sample_session [Open 2 False, Put 1 ''Z'', Close r, Open 2 True, Get 1 1 got] t"
proof -
  have a: "area P1 2 = 2" by (simp add: area_def P1_files e_cam_facts)
  obtain r t3 where t3: "runs (nv_step P1) sample_session [Open 2 False, Put 1 ''Z'', Close r] t3" "session_inv P1 t3"
      "user t3 = None" "stored_file P1 (dev t3) 2"
    by (rule sample_store)
  obtain t4 where t4: "nv_step P1 t3 (Open 2 True) t4"
    using can_open [OF t3(3,4) P1_plain] by auto
  obtain f4 where f4: "user t4 = Some f4" "fid_ifile_lid f4 = 2"
    using open_user [OF t3(2) t4] by auto
  obtain got t5 where t5: "nv_step P1 t4 (Get 1 1 got) t5"
    using can_get [OF f4(1), of 1 1 P1] f4(2) a by auto
  have "runs (nv_step P1) t3 [Open 2 True, Get 1 1 got] t5"
    by (rule runs_cons, rule t4, rule runs_cons, rule t5, rule runs_nil)
  from runs_append [OF t3(1) this] show ?thesis by (intro that) simp
qed

theorem written_bytes_are_read_back_witness:
  "\<exists>t. runs (nv_step P1) sample_session [Open 2 False, Put 1 ''Z'', Close True, Open 2 True, Get 1 1 (Some ''Z'')] t"
proof -
  obtain r got t where t: "runs (nv_step P1) sample_session [Open 2 False, Put 1 ''Z'', Close r, Open 2 True, Get 1 1 got] t"
    by (rule sample_run)
  then have "r \<and> got = Some ''Z''"
    using written_bytes_are_read_back [OF sample_session_inv, of 2 1 "''Z''" r True got t] by simp
  then show ?thesis using t by auto
qed

theorem sessions_refine_store_witness:
  "\<exists>r got t. runs (store_step P1) (abs_store P1 sample_session) [Open 2 False, Put 1 ''Z'', Close r, Open 2 True, Get 1 1 got] t"
proof -
  obtain r got t where t: "runs (nv_step P1) sample_session [Open 2 False, Put 1 ''Z'', Close r, Open 2 True, Get 1 1 got] t"
    by (rule sample_run)
  then show ?thesis using sessions_refine_store [OF sample_session_inv t] by blast
qed

theorem sessions_leave_files_sealed_witness:
  "\<exists>r t. runs (nv_step P1) sample_session [Open 2 False, Put 1 ''Z'', Close r] t \<and>
     (\<exists>i. fs (dev t) ''/nvdata/CAM'' = Some i \<and> sealed P1 2 (idata i))"
proof -
  obtain r t where t: "runs (nv_step P1) sample_session [Open 2 False, Put 1 ''Z'', Close r] t" "user t = None"
      "stored_file P1 (dev t) 2"
    by (rule sample_store)
  have "fst (run_state (NVM_CmpFileVerNo P1 2) (dev t)) \<and>
    (\<exists>i. fs (dev t) (cFileName (file_of P1 2)) = Some i \<and> sealed P1 2 (idata i))"
    by (rule sessions_leave_files_sealed [OF sample_session_inv t P1_plain])
  then show ?thesis using t(1) by (metis P1_files(2) e_cam_facts(1))
qed

end
