(* ===== verification/Journal.thy ===== *)
theory Journal
  imports BackupFlag
begin

text \<open>
  The log journals of \<open>nvram/libnvram.c\<close>: the history log on the log device
  (\<open>NVM_GetSequenceNum\<close>, \<open>NVM_IncSequenceNum\<close>, \<open>NVM_HistoryLog_add_file\<close>, \<open>NVM_HistoryLog_Time\<close>,
  \<open>NVM_HistoryLog\<close>) and the one on the misc device (\<open>NVM_MiscGetSeqNum\<close>, \<open>NVM_MiscIncSeqNum\<close>,
  \<open>NVM_MiscLog\<close>).  A log record is a page that holds one packed \<open>nvram_journal_handle\<close>; the super
  page holds the number of the next record.  \<open>time_t\<close> and \<open>loff_t\<close> have 64 bits, the result of
  \<open>lseek\<close> is stored in an \<open>int\<close>.  The text \<open>ctime\<close> gives for a time and the order in which
  \<open>readdir\<close> lists a directory are arguments of the definitions.
\<close>

section \<open>The journal record\<close>

definition le64 :: "64 word \<Rightarrow> bytes" where
  "le64 w = map (\<lambda>i. char_of (unat w div 256 ^ i)) [0..<8]"

abbreviation (input) MAX_FUNCTION_NAME_LENGTH :: nat where "MAX_FUNCTION_NAME_LENGTH \<equiv> 48"
abbreviation (input) MAX_IMEI_LENGTH :: nat where "MAX_IMEI_LENGTH \<equiv> 130"
abbreviation (input) MAX_BARCODE_LENGTH :: nat where "MAX_BARCODE_LENGTH \<equiv> 250"
abbreviation (input) MAX_LOG_LENGTH :: nat where "MAX_LOG_LENGTH \<equiv> 56"
abbreviation (input) JOURNAL_SIZE :: nat where "JOURNAL_SIZE \<equiv> 512"
abbreviation (input) NVRAM_JOURNAL_MAGIC :: u32 where "NVRAM_JOURNAL_MAGIC \<equiv> 0x5a5a7b7b"
abbreviation (input) NVRAM_MISC_JOURNAL_MAGIC :: u32 where "NVRAM_MISC_JOURNAL_MAGIC \<equiv> 0x4D52564E"
abbreviation (input) NVRAM_JOURNAL_SUPER_PAGE :: u32 where "NVRAM_JOURNAL_SUPER_PAGE \<equiv> 0"
abbreviation (input) NVRAM_JOURNAL_LOG_PAGE :: u32 where "NVRAM_JOURNAL_LOG_PAGE \<equiv> 1"
abbreviation (input) DEFAULT_LOG_LEVEL :: u32 where "DEFAULT_LOG_LEVEL \<equiv> 1"

record nvram_journal_handle =
  h_magic :: u32
  h_type :: u32
  h_sequence :: u32
  h_utc_time :: "64 word"
  h_func_name :: bytes
  h_func_line :: u32
  h_log_lengeh :: u32
  h_log :: bytes
  imei :: bytes
  barcode :: bytes

text \<open>The record after \<open>memset(journal, 0, ...)\<close>, and its bytes under \<open>#pragma pack(4)\<close>.\<close>

definition zero_journal :: nvram_journal_handle where
  "zero_journal = \<lparr>h_magic = 0, h_type = 0, h_sequence = 0, h_utc_time = 0,
     h_func_name = zpad MAX_FUNCTION_NAME_LENGTH [], h_func_line = 0, h_log_lengeh = 0,
     h_log = zpad MAX_LOG_LENGTH [], imei = zpad MAX_IMEI_LENGTH [], barcode = zpad MAX_BARCODE_LENGTH []\<rparr>"

definition journal_bytes :: "nvram_journal_handle \<Rightarrow> bytes" where
  "journal_bytes j = le32 (h_magic j) @ le32 (h_type j) @ le32 (h_sequence j) @ le64 (h_utc_time j) @
     h_func_name j @ le32 (h_func_line j) @ le32 (h_log_lengeh j) @ h_log j @ imei j @ barcode j"

text \<open>\<open>memcpy\<close> of \<open>src\<close> into an array at an offset: what does not fit is out of bounds.\<close>

definition put_array :: "nat \<Rightarrow> nat \<Rightarrow> bytes \<Rightarrow> bytes \<Rightarrow> bytes nv" where
  "put_array n off src a = do {
     check (off + length src \<le> n) OutOfBounds;
     ret (take n (splice off src a)) }"

section \<open>Pages of the log device\<close>

definition no_journal :: "mtd_info \<Rightarrow> bool" where
  "no_journal info \<longleftrightarrow> mi_writesize info < of_nat JOURNAL_SIZE \<or> mi_size info = 0"

text \<open>The two allocations, before \<open>k\<close>; \<open>bad\<close> is returned when the buffer is not to be had.\<close>

definition with_page :: "mtd_info \<Rightarrow> 'a \<Rightarrow> 'a \<Rightarrow> 'a nv \<Rightarrow> 'a nv" where
  "with_page info nojournal nobuffer k = do {
     journal \<leftarrow> sys_malloc (int JOURNAL_SIZE);
     if \<not> journal then ret nojournal
     else do {
       buffer \<leftarrow> sys_malloc (uint (mi_writesize info));
       if \<not> buffer then do { sys_free; ret nobuffer } else k } }"

definition free_page :: "'a \<Rightarrow> 'a nv" where
  "free_page x = do { sys_free; sys_free; ret x }"

definition close_page :: "int \<Rightarrow> 'a \<Rightarrow> 'a nv" where
  "close_page fd x = do { sys_free; sys_free; _ \<leftarrow> sys_close fd; ret x }"

definition read_sequence :: "path \<Rightarrow> u32 \<Rightarrow> mtd_info \<Rightarrow> int \<Rightarrow> u32 nv" where
  "read_sequence name magic info offset = with_page info 0 (-1) (do {
     fd \<leftarrow> sys_open name [O_RDWR] 0;
     if fd < 0 then free_page (-1)
     else do {
       l \<leftarrow> sys_lseek fd offset SEEK_SET;
       if to_int32 l < 0 then close_page fd (-1)
       else do {
         r \<leftarrow> sys_read fd (unat (mi_writesize info));
         if of_int (rd_len r) \<noteq> mi_writesize info then close_page fd (-1)
         else do {
           _ \<leftarrow> sys_close fd;
           let journal = rd_buf r (replicate (unat (mi_writesize info)) (CHR 0x00));
           free_page (if un32 journal = magic then un32 (drop 8 journal) else 0) } } } })"

text \<open>Writing the page at \<open>pos\<close> of the device, with the clean-up of every exit.\<close>

definition write_page :: "path \<Rightarrow> mtd_info \<Rightarrow> int \<Rightarrow> nvram_journal_handle \<Rightarrow> bool nv" where
  "write_page name info pos journal = do {
     fd \<leftarrow> sys_open name [O_RDWR] 0;
     if fd < 0 then free_page False
     else do {
       l \<leftarrow> sys_lseek fd pos SEEK_SET;
       if to_int32 l < 0 then close_page fd False
       else do {
         iResult \<leftarrow> sys_write fd (zpad (unat (mi_writesize info)) (journal_bytes journal));
         close_page fd (of_int iResult = mi_writesize info) } } }"

definition super_journal :: "u32 \<Rightarrow> u32 \<Rightarrow> int \<Rightarrow> nvram_journal_handle" where
  "super_journal magic sequence tm = zero_journal\<lparr>h_magic := magic, h_type := NVRAM_JOURNAL_SUPER_PAGE,
     h_sequence := sequence + 1, h_utc_time := of_int tm\<rparr>"

text \<open>The fields both journals set, \<open>memcpy\<close> of the function name included.\<close>

definition put_log :: "bytes \<Rightarrow> bytes \<Rightarrow> bytes \<Rightarrow> nvram_journal_handle \<Rightarrow> nvram_journal_handle nv" where
  "put_log func time log journal = do {
     name \<leftarrow> put_array MAX_FUNCTION_NAME_LENGTH 0 (cstr func) (h_func_name journal);
     let text = snprintf_s MAX_LOG_LENGTH (cstr time @ '':'' @ cstr log);
     ret (journal\<lparr>h_func_name := name, h_log := text, h_log_lengeh := of_nat (length (cstr text))\<rparr>) }"

section \<open>The history log\<close>

text \<open>What every operation does first: which device, and whether the layout has one.\<close>

definition log_device :: "'a \<Rightarrow> 'a \<Rightarrow> 'a \<Rightarrow> (path \<Rightarrow> mtd_info \<Rightarrow> 'a nv) \<Rightarrow> 'a nv" where
  "log_device layout1 other bad k = do {
     v \<leftarrow> getg nvram_platform_layout_version;
     if v = 1 then ret layout1
     else if v \<noteq> 0 then ret other
     else do {
       name \<leftarrow> getg g_LOG_DEVICE;
       let cMtdDevName = dev_name name;
       bRet \<leftarrow> NVM_GetDeviceInfo cMtdDevName;
       case bRet of None \<Rightarrow> ret bad
       | Some info \<Rightarrow> if no_journal info then ret bad else k cMtdDevName info } }"

definition NVM_GetSequenceNum :: "u32 nv" where
  "NVM_GetSequenceNum = log_device 1 0 (-1) (\<lambda>name info.
     read_sequence name NVRAM_JOURNAL_MAGIC info (uint (mi_size info - mi_erasesize info)))"

definition NVM_IncSequenceNum :: "plat \<Rightarrow> u32 \<Rightarrow> bool nv" where
  "NVM_IncSequenceNum P sequence = log_device True False False (\<lambda>name info. with_page info False False (do {
     tm \<leftarrow> gets clock;
     let offset = mi_size info - mi_erasesize info;
     e \<leftarrow> (if emmc_support P \<or> ufs_support P then ret True
           else NVM_EraseDeviceBlock name offset (mi_erasesize info));
     if \<not> e then free_page False
     else write_page name info (uint offset) (super_journal NVRAM_JOURNAL_MAGIC sequence tm) }))"

text \<open>Where the record of a sequence number goes: the start of the log area and the offset in it.\<close>

definition log_start :: "nv_globals \<Rightarrow> mtd_info \<Rightarrow> int" where
  "log_start g info = uint (mi_size info) - nvram_platform_log_block g * uint (mi_erasesize info)"

definition log_pages :: "nv_globals \<Rightarrow> mtd_info \<Rightarrow> int" where
  "log_pages g info = uint (mi_erasesize info div mi_writesize info) * (nvram_platform_log_block g - 1)"

definition log_offset :: "nv_globals \<Rightarrow> mtd_info \<Rightarrow> u32 \<Rightarrow> int" where
  "log_offset g info sequence = uint (mi_writesize info) * (uint sequence mod \<bar>log_pages g info\<bar>)"

text \<open>On NAND the block of the record is erased when its first page comes.\<close>

definition erase_log :: "plat \<Rightarrow> path \<Rightarrow> mtd_info \<Rightarrow> int \<Rightarrow> u32 \<Rightarrow> bool nv" where
  "erase_log P name info pos sequence =
    (if emmc_support P \<or> ufs_support P then ret True
     else if sequence mod (mi_erasesize info div mi_writesize info) = 0
     then NVM_EraseDeviceBlock name (of_int pos) (mi_erasesize info)
     else ret True)"

text \<open>
  The frame of the two history logs: \<open>fill\<close> completes the record between the allocation and the
  write and gives \<open>None\<close> when it gives up.
\<close>

definition log_sequence ::
  "plat \<Rightarrow> (nvram_journal_handle \<Rightarrow> nvram_journal_handle option nv) \<Rightarrow> path \<Rightarrow> mtd_info \<Rightarrow> u32 \<Rightarrow> bool nv" where
  "log_sequence P fill name info sequence = do {
     g \<leftarrow> getg (\<lambda>g. g);
     check (log_pages g info \<noteq> 0) DivByZero;
     let pos = log_start g info + log_offset g info sequence;
     e \<leftarrow> erase_log P name info pos sequence;
     if \<not> e then ret False
     else with_page info False False (do {
       j \<leftarrow> fill (zero_journal\<lparr>h_magic := NVRAM_JOURNAL_MAGIC, h_type := NVRAM_JOURNAL_LOG_PAGE, h_sequence := sequence\<rparr>);
       case j of None \<Rightarrow> free_page False
       | Some journal \<Rightarrow> do {
           ok \<leftarrow> write_page name info pos journal;
           if \<not> ok then ret False else NVM_IncSequenceNum P sequence } }) }"

definition history_log :: "plat \<Rightarrow> u32 \<Rightarrow> (nvram_journal_handle \<Rightarrow> nvram_journal_handle option nv) \<Rightarrow> bool nv" where
  "history_log P level fill =
    (if level < DEFAULT_LOG_LEVEL then ret True
     else log_device True False False (\<lambda>name info. do {
       sequence \<leftarrow> NVM_GetSequenceNum;
       log_sequence P fill name info sequence }))"

definition NVM_HistoryLog :: "plat \<Rightarrow> (int \<Rightarrow> bytes) \<Rightarrow> u32 \<Rightarrow> bytes \<Rightarrow> u32 \<Rightarrow> bytes \<Rightarrow> bool nv" where
  "NVM_HistoryLog P ctime level func line log = history_log P level (\<lambda>journal. do {
     tm \<leftarrow> gets clock;
     j \<leftarrow> put_log func (ctime tm) log (journal\<lparr>h_utc_time := of_int tm, h_func_line := line\<rparr>);
     ret (Some j) })"

text \<open>
  The modem's files whose name has a prefix, copied into the record: \<open>entries\<close> are the \<open>d_name\<close>
  arrays (256 bytes) in the order of \<open>readdir\<close>, \<open>num\<close> counts the files so far.
\<close>

definition PREFIX_IMEI :: string where "PREFIX_IMEI = ''MP0B_''"
definition PREFIX_BARCODE :: string where "PREFIX_BARCODE = ''MP09_''"
definition g_pcNVM_MDCalFile :: path where "g_pcNVM_MDCalFile = ''/nvdata/md/NVRAM/CALIBRAT''"
definition g_pcNVM_MDRdebFile :: path where "g_pcNVM_MDRdebFile = ''/nvdata/md/NVRAM/NVD_IMEI''"

definition copy_modem_file :: "bytes \<Rightarrow> nat \<Rightarrow> nat \<Rightarrow> bytes \<Rightarrow> nvram_journal_handle \<Rightarrow> nvram_journal_handle nv" where
  "copy_modem_file d_name num read_size buffer journal = (
     let strlen = length (cstr d_name); at = num * (read_size + strlen) in
     if read_size = 120 then do {
       a \<leftarrow> put_array MAX_IMEI_LENGTH 0 (take MAX_IMEI_LENGTH d_name) (imei journal);
       b \<leftarrow> put_array MAX_IMEI_LENGTH strlen (take read_size buffer) a;
       ret (journal\<lparr>imei := b\<rparr>) }
     else if read_size = 66 then do {
       a \<leftarrow> put_array MAX_BARCODE_LENGTH at (cstr d_name) (barcode journal);
       b \<leftarrow> put_array MAX_BARCODE_LENGTH (at + strlen) (take read_size buffer) a;
       ret (journal\<lparr>barcode := b\<rparr>) }
     else ret journal)"

fun add_files :: "plat \<Rightarrow> path \<Rightarrow> string \<Rightarrow> nat \<Rightarrow> nvram_journal_handle \<Rightarrow> bytes list \<Rightarrow> nvram_journal_handle option nv" where
  "add_files P fix_dir pre_fix_file num journal [] = ret (Some journal)"
| "add_files P fix_dir pre_fix_file num journal (d_name # entries) =
    (if cstr d_name = ''.'' \<or> cstr d_name = ''..'' then add_files P fix_dir pre_fix_file num journal entries
     else if take (length pre_fix_file) (cstr d_name) \<noteq> pre_fix_file
     then add_files P fix_dir pre_fix_file num journal entries
     else if num \<ge> 3 then ret (Some journal)
     else do {
       let acSrcPathName = fix_dir @ ''/'' @ cstr d_name;
       check (length acSrcPathName < 128) OutOfBounds;
       st \<leftarrow> sys_stat acSrcPathName;
       case st of None \<Rightarrow> ret None
       | Some st \<Rightarrow> do {
           let read_size = nat (st_size st);
           fd \<leftarrow> sys_open acSrcPathName [O_RDONLY] 0;
           if fd < 0 then ret None
           else do {
             check (read_size \<le> MAX_BARCODE_LENGTH) OutOfBounds;
             r \<leftarrow> sys_read fd read_size;
             if rd_len r \<noteq> int read_size then do { _ \<leftarrow> sys_close fd; ret None }
             else do {
               journal' \<leftarrow> copy_modem_file d_name num read_size (rd_buf r (garbage P MAX_BARCODE_LENGTH)) journal;
               _ \<leftarrow> sys_close fd;
               add_files P fix_dir pre_fix_file (num + 1) journal' entries } } } })"

definition NVM_HistoryLog_add_file ::
  "plat \<Rightarrow> (path \<Rightarrow> bytes list option) \<Rightarrow> path \<Rightarrow> string \<Rightarrow> nvram_journal_handle \<Rightarrow> nvram_journal_handle option nv" where
  "NVM_HistoryLog_add_file P readdir fix_dir pre_fix_file journal = (case readdir fix_dir of
     None \<Rightarrow> ret None
   | Some entries \<Rightarrow> add_files P fix_dir pre_fix_file 0 journal entries)"

definition NVM_HistoryLog_Time ::
  "plat \<Rightarrow> (path \<Rightarrow> bytes list option) \<Rightarrow> u32 \<Rightarrow> bytes \<Rightarrow> u32 \<Rightarrow> bytes \<Rightarrow> bytes \<Rightarrow> bool nv" where
  "NVM_HistoryLog_Time P readdir level func line log time = history_log P level (\<lambda>journal. do {
     a \<leftarrow> NVM_HistoryLog_add_file P readdir g_pcNVM_MDRdebFile PREFIX_IMEI (journal\<lparr>h_func_line := line\<rparr>);
     case a of None \<Rightarrow> ret None
     | Some a \<Rightarrow> do {
         b \<leftarrow> NVM_HistoryLog_add_file P readdir g_pcNVM_MDCalFile PREFIX_BARCODE a;
         case b of None \<Rightarrow> ret None
         | Some b \<Rightarrow> do { j \<leftarrow> put_log func time log b; ret (Some j) } } })"

section \<open>The misc journal\<close>

text \<open>Its super page is the first page of the block \<open>nvram_misc_log_block_offset\<close> from the end.\<close>

definition misc_start :: "plat \<Rightarrow> mtd_info \<Rightarrow> int" where
  "misc_start P info = uint (mi_size info) - uint (mi_erasesize info) * misc_log_block_offset P"

definition misc_offset :: "mtd_info \<Rightarrow> u32 \<Rightarrow> int" where
  "misc_offset info sequence =
     uint (mi_writesize info) * (uint sequence mod uint (mi_erasesize info div mi_writesize info) + 1)"

text \<open>The guards of the three operations: no NAND, no layout 1; then the device.\<close>

definition misc_device :: "plat \<Rightarrow> 'a \<Rightarrow> 'a \<Rightarrow> 'a \<Rightarrow> (path \<Rightarrow> mtd_info \<Rightarrow> 'a nv) \<Rightarrow> 'a nv" where
  "misc_device P nand layout1 bad k =
    (if \<not> emmc_support P \<and> \<not> ufs_support P then ret nand
     else do {
       v \<leftarrow> getg nvram_platform_layout_version;
       if v = 1 then ret layout1
       else do {
         name \<leftarrow> getg g_MISC_DEVICE;
         let cMtdDevName = dev_name name;
         bRet \<leftarrow> NVM_GetDeviceInfo cMtdDevName;
         case bRet of None \<Rightarrow> ret bad
         | Some info \<Rightarrow> if no_journal info then ret bad else k cMtdDevName info } })"

definition NVM_MiscGetSeqNum :: "plat \<Rightarrow> u32 nv" where
  "NVM_MiscGetSeqNum P = misc_device P 0 (-1) (-1) (\<lambda>name info.
     read_sequence name NVRAM_MISC_JOURNAL_MAGIC info (misc_start P info))"

definition NVM_MiscIncSeqNum :: "plat \<Rightarrow> u32 \<Rightarrow> bool nv" where
  "NVM_MiscIncSeqNum P sequence = misc_device P False True False (\<lambda>name info. with_page info False False (do {
     tm \<leftarrow> gets clock;
     write_page name info (misc_start P info) (super_journal NVRAM_MISC_JOURNAL_MAGIC sequence tm) }))"

definition NVM_MiscLog :: "plat \<Rightarrow> (int \<Rightarrow> bytes) \<Rightarrow> u32 \<Rightarrow> bytes \<Rightarrow> u32 \<Rightarrow> bytes \<Rightarrow> bool nv" where
  "NVM_MiscLog P ctime level func line log = misc_device P False False False (\<lambda>name info. do {
     sequence \<leftarrow> NVM_MiscGetSeqNum P;
     check (mi_erasesize info div mi_writesize info \<noteq> 0) DivByZero;
     let pos = misc_start P info + misc_offset info sequence;
     with_page info False False (do {
       tm \<leftarrow> gets clock;
       journal \<leftarrow> put_log func (ctime tm) log (zero_journal\<lparr>h_magic := NVRAM_MISC_JOURNAL_MAGIC,
         h_type := NVRAM_JOURNAL_LOG_PAGE, h_sequence := sequence, h_utc_time := of_int tm, h_func_line := line\<rparr>);
       ok \<leftarrow> write_page name info pos journal;
       if \<not> ok then ret False else NVM_MiscIncSeqNum P sequence }) })"

end
