(* ===== verification/JournalRun.thy ===== *)
theory JournalRun
  imports Journal
begin

text \<open>
  What the history log does on a device when no call fails: where a record goes, what a call writes,
  and the log as a ring of pages.
\<close>

section \<open>Resources\<close>

lemma rs_put_array [rs]: "(\<And>r. Q r A) \<Longrightarrow> rspec A (put_array n off src a) Q"
  by (auto simp: put_array_def intro!: rs)

lemma rs_with_page [rs]:
  "Q a A \<Longrightarrow> Q b A \<Longrightarrow> rspec (A\<lparr>rheap := Suc (Suc (rheap A))\<rparr>) k Q \<Longrightarrow> rspec A (with_page info a b k) Q"
  by (auto simp: with_page_def intro!: rs)

lemma rs_free_page [rs]: "Q x A \<Longrightarrow> rspec (A\<lparr>rheap := Suc (Suc (rheap A))\<rparr>) (free_page x) Q"
  by (auto simp: free_page_def intro!: rs)

lemma rs_write_page [rs]: "(\<And>r. Q r A) \<Longrightarrow> rspec (A\<lparr>rheap := Suc (Suc (rheap A))\<rparr>) (write_page name info pos j) Q"
  by (auto simp: write_page_def free_page_def close_page_def intro!: rs)

lemma neutral_read_sequence: "neutral {} (read_sequence name magic info off)"
  by (rule neutralI) (auto simp: read_sequence_def with_page_def free_page_def close_page_def intro!: rs)

lemma rs_GetDeviceInfo [rs]: "(\<And>r. Q r A) \<Longrightarrow> rspec A (NVM_GetDeviceInfo p) Q"
  by (rule neutral_rs [OF neutral_GetDeviceInfo]) auto

lemma rs_EraseDeviceBlock [rs]: "(\<And>r. Q r A) \<Longrightarrow> rspec A (NVM_EraseDeviceBlock p st n) Q"
  by (rule neutral_rs [OF neutral_EraseDeviceBlock]) auto

lemma rs_log_device [rs]:
  "Q a A \<Longrightarrow> Q b A \<Longrightarrow> Q c A \<Longrightarrow> (\<And>name info. rspec A (k name info) Q) \<Longrightarrow> rspec A (log_device a b c k) Q"
  by (auto simp: log_device_def intro!: rs)

lemma rs_misc_device [rs]:
  "Q a A \<Longrightarrow> Q b A \<Longrightarrow> Q c A \<Longrightarrow> (\<And>name info. rspec A (k name info) Q) \<Longrightarrow> rspec A (misc_device P a b c k) Q"
  by (auto simp: misc_device_def intro!: rs)

lemma rs_read_sequence [rs]: "(\<And>r. Q r A) \<Longrightarrow> rspec A (read_sequence name magic info off) Q"
  by (rule neutral_rs [OF neutral_read_sequence]) auto

lemma rs_GetSequenceNum [rs]: "(\<And>r. Q r A) \<Longrightarrow> rspec A NVM_GetSequenceNum Q"
  by (auto simp: NVM_GetSequenceNum_def intro!: rs)

lemma rs_IncSequenceNum [rs]: "(\<And>r. Q r A) \<Longrightarrow> rspec A (NVM_IncSequenceNum P s) Q"
  by (auto simp: NVM_IncSequenceNum_def Let_def intro!: rs)

lemma rs_put_log [rs]: "(\<And>r. Q r A) \<Longrightarrow> rspec A (put_log func time log j) Q"
  by (auto simp: put_log_def Let_def intro!: rs)

lemma rs_log_sequence:
  assumes "\<And>j B Q. (\<And>r. Q r B) \<Longrightarrow> rspec B (fill j) Q" and "\<And>r. Q r A"
  shows "rspec A (log_sequence P fill name info s) Q"
  by (auto simp: log_sequence_def erase_log_def Let_def intro!: rs assms split: option.splits)

lemma rs_copy_modem_file [rs]: "(\<And>r. Q r A) \<Longrightarrow> rspec A (copy_modem_file d num n buf j) Q"
  by (auto simp: copy_modem_file_def Let_def intro!: rs)

lemma rs_add_files [rs]: "(\<And>r. Q r A) \<Longrightarrow> rspec A (add_files P dir pre num j es) Q"
  by (induction es arbitrary: num j) (auto simp: Let_def intro!: rs)

lemma neutral_history_log:
  assumes "\<And>j B Q. (\<And>r. Q r B) \<Longrightarrow> rspec B (fill j) Q"
  shows "neutral {} (history_log P level fill)"
  by (rule neutralI) (auto simp: history_log_def intro!: rs rs_log_sequence assms)

text \<open>Whatever calls fail, the logs give back their descriptor and their buffers.\<close>

lemma neutral_HistoryLog: "neutral {} (NVM_HistoryLog P ctime level func line log)"
  unfolding NVM_HistoryLog_def by (rule neutral_history_log) (auto intro!: rs)

lemma neutral_HistoryLog_Time: "neutral {} (NVM_HistoryLog_Time P readdir level func line log time)"
  unfolding NVM_HistoryLog_Time_def
  by (rule neutral_history_log) (auto simp: NVM_HistoryLog_add_file_def intro!: rs split: option.splits)

lemma rs_MiscGetSeqNum [rs]: "(\<And>r. Q r A) \<Longrightarrow> rspec A (NVM_MiscGetSeqNum P) Q"
  by (auto simp: NVM_MiscGetSeqNum_def intro!: rs)

lemma rs_MiscIncSeqNum [rs]: "(\<And>r. Q r A) \<Longrightarrow> rspec A (NVM_MiscIncSeqNum P s) Q"
  by (auto simp: NVM_MiscIncSeqNum_def intro!: rs)

lemma neutral_MiscLog: "neutral {} (NVM_MiscLog P ctime level func line log)"
  by (rule neutralI) (auto simp: NVM_MiscLog_def Let_def intro!: rs)

section \<open>The parts\<close>

lemma run_write_blk:
  "faults w = [] \<Longrightarrow> fds w fd = Some d \<Longrightarrow> fs w (fd_path d) = Some i \<Longrightarrow> ikind i = Blk \<Longrightarrow> fd_wr d \<Longrightarrow> bs \<noteq> [] \<Longrightarrow>
   fd_pos d + length bs \<le> length (idata i) \<Longrightarrow>
   run_state (sys_write fd bs) w =
     (int (length bs),
      w\<lparr>fs := (fs w)(fd_path d \<mapsto> i\<lparr>idata := splice (fd_pos d) bs (idata i)\<rparr>),
        fds := (fds w)(fd \<mapsto> d\<lparr>fd_pos := fd_pos d + length bs\<rparr>)\<rparr>)"
  by (simp add: sys_write_def storable_def)

lemma length_le64 [simp]: "length (le64 x) = 8"
  by (simp add: le64_def)

definition journal_ok :: "nvram_journal_handle \<Rightarrow> bool" where
  "journal_ok j \<longleftrightarrow> length (h_func_name j) = 48 \<and> length (h_log j) = 56 \<and> length (imei j) = 130 \<and> length (barcode j) = 250"

lemma length_journal_bytes: "journal_ok j \<Longrightarrow> length (journal_bytes j) = 512"
  by (simp add: journal_ok_def journal_bytes_def)

lemma journal_ok_super: "journal_ok (super_journal m s t)"
  by (simp add: journal_ok_def super_journal_def zero_journal_def)

text \<open>The geometry \<open>NVM_GetDeviceInfo\<close> reports for a partition of \<open>n\<close> bytes.\<close>

definition gpt_info :: "nat \<Rightarrow> mtd_info" where
  "gpt_info n = \<lparr>mi_size = of_nat n, mi_erasesize = 131072, mi_writesize = 512\<rparr>"

lemma unat_size: "n < 2 ^ 31 \<Longrightarrow> unat (of_nat n :: u32) = n"
  by (simp add: unsigned_of_nat take_bit_eq_mod)

lemma uint_size: "n < 2 ^ 31 \<Longrightarrow> uint (of_nat n :: u32) = int n"
  by (simp add: uint_nat unat_size)

lemma uint_super: "131072 \<le> n \<Longrightarrow> n < 2 ^ 31 \<Longrightarrow> uint (of_nat n - 131072 :: u32) = int n - 131072"
proof -
  assume n: "131072 \<le> n" "n < 2 ^ 31"
  have "(of_nat n - 131072 :: u32) = of_nat (n - 131072)" using n by (simp add: of_nat_diff)
  moreover have "uint (of_nat (n - 131072) :: u32) = int (n - 131072)" using n by (intro uint_size) simp
  ultimately show ?thesis using n by simp
qed

lemma gpt_sel [simp]: "mi_erasesize (gpt_info n) = 131072" "mi_writesize (gpt_info n) = 512" "mi_size (gpt_info n) = of_nat n"
  by (simp_all add: gpt_info_def)

lemma size_nonzero: "0 < n \<Longrightarrow> n < 2 ^ 31 \<Longrightarrow> (of_nat n :: u32) \<noteq> 0"
  using unat_size [of n] by (metis unat_0 less_irrefl)

lemma journal_fits: "0 < n \<Longrightarrow> n < 2 ^ 31 \<Longrightarrow> \<not> no_journal (gpt_info n)"
  by (simp add: no_journal_def size_nonzero)

text \<open>A page is read and written at a place inside the device.\<close>

lemma run_read_sequence:
  assumes "wf_world w" "faults w = []" "fs w p = Some i" "ikind i = Blk" "pos + 512 \<le> length (idata i)" "length (idata i) < 2 ^ 31"
  shows "run_state (read_sequence p magic (gpt_info n) (int pos)) w =
    (let j = take 512 (drop pos (idata i)) in (if un32 j = magic then un32 (drop 8 j) else 0), used 1 w)"
proof -
  have l: "length (take 512 (drop pos (idata i))) = 512" using assms(5) by simp
  then show ?thesis
    using assms by (simp add: read_sequence_def with_page_def free_page_def close_page_def run new_fd_def used_def Let_def)
qed

lemma run_write_page:
  assumes "wf_world w" "faults w = []" "fs w p = Some i" "ikind i = Blk" "0 \<le> pos" "nat pos + 512 \<le> length (idata i)"
    "length (idata i) < 2 ^ 31" "journal_ok j"
  shows "run_state (write_page p (gpt_info n) pos j) (w\<lparr>heap := Suc (Suc (heap w))\<rparr>) =
    (True, (used 1 w)\<lparr>fs := (fs w)(p \<mapsto> i\<lparr>idata := splice (nat pos) (journal_bytes j) (idata i)\<rparr>)\<rparr>)"
proof -
  have l: "length (journal_bytes j) = 512" by (rule length_journal_bytes [OF assms(8)])
  then have z: "zpad 512 (journal_bytes j) = journal_bytes j" "journal_bytes j \<noteq> []" by (auto simp: zpad_def)
  show ?thesis
    using assms l z
    by (simp add: write_page_def free_page_def close_page_def run run_write_blk new_fd_def wants_write_def used_def world_order)
qed

section \<open>The history log\<close>

text \<open>A device with a log: its partition \<open>i\<close> holds the blocks of the journal, the last one the super page.\<close>

definition log_name :: "nv_globals world \<Rightarrow> path" where
  "log_name w = dev_name (g_LOG_DEVICE (gl w))"

definition log_ready :: "plat \<Rightarrow> nv_globals world \<Rightarrow> inode \<Rightarrow> bool" where
  "log_ready P w i \<longleftrightarrow> wf_world w \<and> faults w = [] \<and> nvram_gpt_flag (gl w) = 1 \<and> nvram_platform_layout_version (gl w) = 0 \<and>
     (emmc_support P \<or> ufs_support P) \<and> fs w (log_name w) = Some i \<and> ikind i = Blk \<and> length (idata i) < 2 ^ 31 \<and>
     2 \<le> nvram_platform_log_block (gl w) \<and> nvram_platform_log_block (gl w) * 131072 \<le> int (length (idata i))"

definition super_pos :: "inode \<Rightarrow> nat" where
  "super_pos i = length (idata i) - 131072"

definition seq_of :: "inode \<Rightarrow> u32" where
  "seq_of i = (let j = take 512 (drop (super_pos i) (idata i)) in
     if un32 j = NVRAM_JOURNAL_MAGIC then un32 (drop 8 j) else 0)"

text \<open>The pages of the log, and the place of the record with a sequence number.\<close>

definition ring_pages :: "nv_globals \<Rightarrow> nat" where
  "ring_pages g = 256 * nat (nvram_platform_log_block g - 1)"

definition log_pos :: "nv_globals \<Rightarrow> nat \<Rightarrow> u32 \<Rightarrow> nat" where
  "log_pos g n s = n - nat (nvram_platform_log_block g) * 131072 + 512 * (unat s mod ring_pages g)"

lemma log_ready_big: "log_ready P w i \<Longrightarrow> 262144 \<le> length (idata i)"
  by (auto simp: log_ready_def)

lemma run_log_device:
  assumes "log_ready P w i"
  shows "run_state (log_device a b c k) w = run_state (k (log_name w) (gpt_info (length (idata i)))) (used 1 w)"
proof -
  have "\<not> no_journal (gpt_info (length (idata i)))"
    using log_ready_big [OF assms] assms by (intro journal_fits) (auto simp: log_ready_def)
  then show ?thesis
    using assms by (simp add: log_device_def log_ready_def log_name_def Let_def run run_GetDeviceInfo gpt_info_def)
qed

text \<open>After a page of the device was written and descriptors were used.\<close>

definition with_data :: "nv_globals world \<Rightarrow> inode \<Rightarrow> bytes \<Rightarrow> nv_globals world" where
  "with_data w i d = w\<lparr>fs := (fs w)(log_name w \<mapsto> i\<lparr>idata := d\<rparr>)\<rparr>"

lemma log_ready_used: "0 \<le> n \<Longrightarrow> log_ready P w i \<Longrightarrow> log_ready P (used n w) i"
  by (auto simp: log_ready_def log_name_def)

lemma log_ready_with_data:
  "log_ready P w i \<Longrightarrow> length d = length (idata i) \<Longrightarrow> log_ready P (with_data w i d) (i\<lparr>idata := d\<rparr>)"
  by (auto simp: log_ready_def log_name_def with_data_def)

lemma with_data_sel [simp]: "gl (with_data w i d) = gl w" "clock (with_data w i d) = clock w" "log_name (with_data w i d) = log_name w"
  by (simp_all add: with_data_def log_name_def)

lemma with_data_twice: "with_data (with_data w i d) (i\<lparr>idata := d\<rparr>) e = with_data w i e"
  by (simp add: with_data_def log_name_def)

lemma with_data_used: "with_data (used n w) i d = used n (with_data w i d)"
  by (simp add: with_data_def log_name_def used_def)

lemma run_GetSequenceNum:
  assumes "log_ready P w i"
  shows "run_state NVM_GetSequenceNum w = (seq_of i, used 2 w)"
proof -
  note b = log_ready_big [OF assms]
  have m: "uint (of_nat (length (idata i)) - 131072 :: u32) = int (super_pos i)"
    using uint_super [of "length (idata i)"] b assms by (simp add: log_ready_def super_pos_def)
  have "run_state (read_sequence (log_name w) NVRAM_JOURNAL_MAGIC (gpt_info (length (idata i))) (int (super_pos i))) (used 1 w) =
      (seq_of i, used 2 w)"
    unfolding seq_of_def
    by (subst run_read_sequence) (use assms b in \<open>auto simp: log_ready_def super_pos_def log_name_def\<close>)
  then show ?thesis
    unfolding NVM_GetSequenceNum_def run_log_device [OF assms] by (simp add: m)
qed

lemma run_with_page:
  assumes "faults w = []"
  shows "run_state (with_page (gpt_info n) a b k) w = run_state k (w\<lparr>heap := Suc (Suc (heap w))\<rparr>)"
  using assms by (simp add: with_page_def run)

text \<open>Writing a page inside the device, as a step on its content.\<close>

lemma run_log_page:
  assumes "log_ready P w i" "journal_ok j" "pos + 512 \<le> length (idata i)"
  shows "run_state (write_page (log_name w) (gpt_info n) (int pos) j) (w\<lparr>heap := Suc (Suc (heap w))\<rparr>) =
    (True, used 1 (with_data w i (splice pos (journal_bytes j) (idata i))))"
  using assms run_write_page [of w "log_name w" i "int pos" j n]
  by (simp add: log_ready_def with_data_def)

lemma run_IncSequenceNum:
  assumes "log_ready P w i"
  shows "run_state (NVM_IncSequenceNum P s) w = (True, used 2 (with_data w i
    (splice (super_pos i) (journal_bytes (super_journal NVRAM_JOURNAL_MAGIC s (clock w))) (idata i))))"
proof -
  note b = log_ready_big [OF assms]
  have u: "uint (of_nat (length (idata i)) - 131072 :: u32) = int (super_pos i)"
    using uint_super [of "length (idata i)"] b assms by (simp add: log_ready_def super_pos_def)
  have r: "log_ready P (used 1 w) i" by (rule log_ready_used [OF _ assms]) simp
  have e: "emmc_support P \<or> ufs_support P" using assms by (simp add: log_ready_def)
  have n: "log_name (used 1 w) = log_name w" by (simp add: log_name_def)
  have f: "faults (used 1 w) = []" using assms by (simp add: log_ready_def)
  have p: "super_pos i + 512 \<le> length (idata i)" using b by (simp add: super_pos_def)
  show ?thesis
    using run_log_page [OF r journal_ok_super p, of "length (idata i)" NVRAM_JOURNAL_MAGIC s "clock w"] e
    unfolding NVM_IncSequenceNum_def run_log_device [OF assms]
    by (simp add: run_with_page [OF f] run u n with_data_used)
qed

text \<open>The record of a message.\<close>

definition log_record :: "bytes \<Rightarrow> int \<Rightarrow> u32 \<Rightarrow> bytes \<Rightarrow> u32 \<Rightarrow> bytes \<Rightarrow> nvram_journal_handle" where
  "log_record time tm s func line log = (let text = snprintf_s MAX_LOG_LENGTH (cstr time @ '':'' @ cstr log) in
     zero_journal\<lparr>h_magic := NVRAM_JOURNAL_MAGIC, h_type := NVRAM_JOURNAL_LOG_PAGE, h_sequence := s, h_utc_time := of_int tm,
       h_func_line := line, h_func_name := zpad MAX_FUNCTION_NAME_LENGTH (cstr func), h_log := text,
       h_log_lengeh := of_nat (length (cstr text))\<rparr>)"

lemma journal_ok_record: "journal_ok (log_record time tm s func line log)"
  by (simp add: journal_ok_def log_record_def zero_journal_def Let_def)

lemma run_put_log:
  assumes "length (cstr func) \<le> MAX_FUNCTION_NAME_LENGTH" "h_func_name j = zpad MAX_FUNCTION_NAME_LENGTH []"
  shows "run_state (put_log func time log j) w = (j\<lparr>h_func_name := zpad MAX_FUNCTION_NAME_LENGTH (cstr func),
     h_log := snprintf_s MAX_LOG_LENGTH (cstr time @ '':'' @ cstr log),
     h_log_lengeh := of_nat (length (cstr (snprintf_s MAX_LOG_LENGTH (cstr time @ '':'' @ cstr log))))\<rparr>, w)"
  using assms by (simp add: put_log_def put_array_def run zpad_def splice_def Let_def)

section \<open>Places\<close>

lemma gpt_writepages: "uint (mi_erasesize (gpt_info n) div mi_writesize (gpt_info n)) = 256"
  by simp

lemma log_blocks:
  assumes "log_ready P w i"
  obtains b where "nvram_platform_log_block (gl w) = int b + 2" and "(b + 2) * 131072 \<le> length (idata i)"
proof
  show "nvram_platform_log_block (gl w) = int (nat (nvram_platform_log_block (gl w) - 2)) + 2"
    using assms by (simp add: log_ready_def)
  have "2 \<le> nvram_platform_log_block (gl w)" "nvram_platform_log_block (gl w) * 131072 \<le> int (length (idata i))"
    using assms by (simp_all add: log_ready_def)
  then show "(nat (nvram_platform_log_block (gl w) - 2) + 2) * 131072 \<le> length (idata i)"
    by (simp add: algebra_simps le_nat_iff [symmetric] nat_le_iff)
qed

lemma ring_pages_blocks: "nvram_platform_log_block g = int b + 2 \<Longrightarrow> ring_pages g = 256 * (b + 1)"
  by (simp add: ring_pages_def nat_add_distrib)

lemma log_pages_gpt: "nvram_platform_log_block g = int b + 2 \<Longrightarrow> log_pages g (gpt_info n) = int (256 * (b + 1))"
  by (simp only: log_pages_def gpt_writepages) simp

lemma log_place:
  assumes "log_ready P w i"
  shows "log_start (gl w) (gpt_info (length (idata i))) + log_offset (gl w) (gpt_info (length (idata i))) s =
      int (log_pos (gl w) (length (idata i)) s)"
    and "log_pages (gl w) (gpt_info (length (idata i))) \<noteq> 0"
proof -
  obtain b where b: "nvram_platform_log_block (gl w) = int b + 2" "(b + 2) * 131072 \<le> length (idata i)"
    by (rule log_blocks [OF assms])
  have u: "uint (of_nat (length (idata i)) :: u32) = int (length (idata i))"
    using assms by (intro uint_size) (simp add: log_ready_def)
  have n: "nat (int b + 2) = b + 2" by simp
  show "log_pages (gl w) (gpt_info (length (idata i))) \<noteq> 0"
    unfolding log_pages_gpt [OF b(1)] by simp
  have m: "uint s mod \<bar>int (256 * (b + 1))\<bar> = int (unat s mod (256 * (b + 1)))"
    by (simp only: uint_nat abs_of_nat zmod_int)
  show "log_start (gl w) (gpt_info (length (idata i))) + log_offset (gl w) (gpt_info (length (idata i))) s =
      int (log_pos (gl w) (length (idata i)) s)"
    unfolding log_start_def log_offset_def log_pos_def log_pages_gpt [OF b(1)] ring_pages_blocks [OF b(1)] m b(1) n
    using b(2) by (simp add: u of_nat_diff)
qed

lemma log_pos_area:
  assumes "log_ready P w i"
  shows "length (idata i) - nat (nvram_platform_log_block (gl w)) * 131072 \<le> log_pos (gl w) (length (idata i)) s"
    and "log_pos (gl w) (length (idata i)) s + 512 \<le> super_pos i"
proof -
  obtain b where b: "nvram_platform_log_block (gl w) = int b + 2" "(b + 2) * 131072 \<le> length (idata i)"
    by (rule log_blocks [OF assms])
  have n: "nat (int b + 2) = b + 2" by simp
  define m where "m = unat s mod (256 * (b + 1))"
  have "m < 256 * (b + 1)" by (simp add: m_def)
  then show "log_pos (gl w) (length (idata i)) s + 512 \<le> super_pos i"
    using b(2) unfolding log_pos_def super_pos_def ring_pages_blocks [OF b(1)] b(1) n m_def [symmetric] by (simp add: algebra_simps)
  show "length (idata i) - nat (nvram_platform_log_block (gl w)) * 131072 \<le> log_pos (gl w) (length (idata i)) s"
    by (simp add: log_pos_def)
qed

section \<open>One message\<close>

definition logged :: "nv_globals world \<Rightarrow> inode \<Rightarrow> nvram_journal_handle \<Rightarrow> bytes" where
  "logged w i j = splice (super_pos i) (journal_bytes (super_journal NVRAM_JOURNAL_MAGIC (h_sequence j) (clock w)))
     (splice (log_pos (gl w) (length (idata i)) (h_sequence j)) (journal_bytes j) (idata i))"

text \<open>The page of a given number and the next number, in a device whose name and size are known.\<close>

lemma run_log_sequence:
  assumes "log_ready P w i" and "journal_ok j" and "h_sequence j = s"
    and "\<And>v. clock v = clock w \<Longrightarrow> run_state (fill (zero_journal\<lparr>h_magic := NVRAM_JOURNAL_MAGIC, h_type := NVRAM_JOURNAL_LOG_PAGE,
      h_sequence := s\<rparr>)) v = (Some j, v)"
  shows "run_state (log_sequence P fill (log_name w) (gpt_info (length (idata i))) s) w = (True, used 3 (with_data w i (logged w i j)))"
proof -
  let ?pos = "log_pos (gl w) (length (idata i)) s"
  let ?d = "splice ?pos (journal_bytes j) (idata i)"
  let ?v = "used 1 (with_data w i ?d)"
  have e: "emmc_support P \<or> ufs_support P" and f: "faults w = []" using assms(1) by (simp_all add: log_ready_def)
  have b: "?pos + 512 \<le> length (idata i)" using log_pos_area(2) [OF assms(1), of s] by (simp add: super_pos_def)
  have l: "length ?d = length (idata i)" using b by (simp add: length_journal_bytes [OF assms(2)])
  then have sp: "super_pos (i\<lparr>idata := ?d\<rparr>) = super_pos i" by (simp add: super_pos_def)
  have v: "log_ready P ?v (i\<lparr>idata := ?d\<rparr>)"
    by (rule log_ready_used [OF _ log_ready_with_data [OF assms(1) l]]) simp
  note p = run_log_page [OF assms(1,2) b, of "length (idata i)"]
  have n: "run_state (NVM_IncSequenceNum P s) ?v = (True, used 3 (with_data w i (logged w i j)))"
    using run_IncSequenceNum [OF v, of s] by (simp add: sp with_data_used with_data_twice logged_def assms(3))
  show ?thesis
    using assms(4) e
    by (simp add: log_sequence_def run log_place [OF assms(1)] erase_log_def run_with_page [OF f] p n Let_def)
qed

lemma logged_used: "logged (used n w) i j = logged w i j"
  by (simp add: logged_def)

lemma run_history_log:
  assumes "log_ready P w i" and "\<not> level < DEFAULT_LOG_LEVEL" and "journal_ok j" and "h_sequence j = seq_of i"
    and "\<And>v. clock v = clock w \<Longrightarrow> run_state (fill (zero_journal\<lparr>h_magic := NVRAM_JOURNAL_MAGIC, h_type := NVRAM_JOURNAL_LOG_PAGE,
      h_sequence := seq_of i\<rparr>)) v = (Some j, v)"
  shows "run_state (history_log P level fill) w = (True, used 6 (with_data w i (logged w i j)))"
proof -
  have r: "log_ready P (used 1 w) i" "log_ready P (used 3 w) i" by (simp_all add: log_ready_used assms(1))
  have n: "log_name (used 3 w) = log_name w" by (simp add: log_name_def)
  have "run_state (log_sequence P fill (log_name (used 3 w)) (gpt_info (length (idata i))) (seq_of i)) (used 3 w) =
      (True, used 3 (with_data (used 3 w) i (logged (used 3 w) i j)))"
    by (rule run_log_sequence [OF r(2) assms(3,4)]) (simp add: assms(5))
  then show ?thesis
    using assms(2)
    by (simp add: history_log_def run_log_device [OF assms(1)] run_GetSequenceNum [OF r(1)] run n with_data_used logged_used)
qed

lemma run_HistoryLog:
  assumes "log_ready P w i" and "\<not> level < DEFAULT_LOG_LEVEL" and "length (cstr func) \<le> MAX_FUNCTION_NAME_LENGTH"
  shows "run_state (NVM_HistoryLog P ctime level func line log) w =
    (True, used 6 (with_data w i (logged w i (log_record (ctime (clock w)) (clock w) (seq_of i) func line log))))"
  unfolding NVM_HistoryLog_def
  by (rule run_history_log [OF assms(1,2) journal_ok_record])
    (simp_all add: run run_put_log [OF assms(3)] log_record_def zero_journal_def Let_def)

section \<open>What is on the device afterwards\<close>

text \<open>The page of 512 bytes at a place.\<close>

definition page_at :: "nat \<Rightarrow> bytes \<Rightarrow> bytes" where
  "page_at p d = take 512 (drop p d)"

lemma page_at_written: "length b = 512 \<Longrightarrow> page_at p (splice p b d) = b"
  using read_splice [of b p d] by (simp add: page_at_def)

lemma splice_nth:
  "pos + length b \<le> length d \<Longrightarrow> k < length d \<Longrightarrow> k < pos \<or> pos + length b \<le> k \<Longrightarrow> splice pos b d ! k = d ! k"
  by (auto simp: splice_take_drop nth_append)

lemma page_at_elsewhere:
  assumes "q + length b \<le> length d" and "p + 512 \<le> length d" and "p + 512 \<le> q \<or> q + length b \<le> p"
  shows "page_at p (splice q b d) = page_at p d"
  by (rule nth_equalityI) (use assms in \<open>auto simp: page_at_def splice_nth\<close>)

lemma super_journal_bytes:
  "un32 (journal_bytes (super_journal m s t)) = m" "un32 (drop 8 (journal_bytes (super_journal m s t))) = s + 1"
  by (simp_all add: journal_bytes_def super_journal_def)

lemma logged_props:
  assumes "log_ready P w i" and "journal_ok j"
  shows "length (logged w i j) = length (idata i)"
    and "page_at (log_pos (gl w) (length (idata i)) (h_sequence j)) (logged w i j) = journal_bytes j"
    and "seq_of (i\<lparr>idata := logged w i j\<rparr>) = h_sequence j + 1"
    and "\<And>k. k < length (idata i) \<Longrightarrow> k \<notin> {super_pos i..<super_pos i + 512} \<Longrightarrow>
      k \<notin> {log_pos (gl w) (length (idata i)) (h_sequence j)..<log_pos (gl w) (length (idata i)) (h_sequence j) + 512} \<Longrightarrow>
      logged w i j ! k = idata i ! k"
proof -
  let ?p = "log_pos (gl w) (length (idata i)) (h_sequence j)" and ?s = "super_pos i"
  let ?j = "journal_bytes j" and ?m = "journal_bytes (super_journal NVRAM_JOURNAL_MAGIC (h_sequence j) (clock w))"
  note l = length_journal_bytes [OF assms(2)] length_journal_bytes [OF journal_ok_super]
  note a = log_pos_area(2) [OF assms(1), of "h_sequence j"]
  have s: "?s + 512 \<le> length (idata i)" using log_ready_big [OF assms(1)] by (simp add: super_pos_def)
  show n: "length (logged w i j) = length (idata i)" using a s by (simp add: logged_def l)
  show "page_at ?p (logged w i j) = ?j"
    unfolding logged_def using a s by (subst page_at_elsewhere) (simp_all add: l page_at_written)
  have "page_at ?s (logged w i j) = ?m" by (simp add: logged_def page_at_written l)
  then show "seq_of (i\<lparr>idata := logged w i j\<rparr>) = h_sequence j + 1"
    by (simp add: seq_of_def super_pos_def n page_at_def super_journal_bytes Let_def)
  fix k assume "k < length (idata i)" "k \<notin> {?s..<?s + 512}" "k \<notin> {?p..<?p + 512}"
  then show "logged w i j ! k = idata i ! k" unfolding logged_def using a s by (subst splice_nth) (auto simp: l splice_nth)
qed

text \<open>
  A message of the history log stays inside the log area and off the super page: the page of
  its sequence number holds its record, the super page the next number, every other byte of the
  device and every other file is as before, and nothing is left open or allocated.
\<close>

theorem HistoryLog_in_area:
  assumes "log_ready P w i" and "\<not> level < DEFAULT_LOG_LEVEL" and "length (cstr func) \<le> MAX_FUNCTION_NAME_LENGTH"
  shows "let (r, w') = run_state (NVM_HistoryLog P ctime level func line log) w; n = length (idata i);
      s = fst (run_state NVM_GetSequenceNum w); pos = log_pos (gl w) n s in
    r \<and> fst (run_state NVM_GetSequenceNum w') = s + 1 \<and>
    n - nat (nvram_platform_log_block (gl w)) * 131072 \<le> pos \<and> pos + 512 \<le> n - 131072 \<and>
    (\<exists>d. fs w' = (fs w)(log_name w \<mapsto> i\<lparr>idata := d\<rparr>) \<and> length d = n \<and>
      page_at pos d = journal_bytes (log_record (ctime (clock w)) (clock w) s func line log) \<and>
      (\<forall>k<n. k \<notin> {pos..<pos + 512} \<and> k \<notin> {n - 131072..<n - 131072 + 512} \<longrightarrow> d ! k = idata i ! k)) \<and>
    fds w' = fds w \<and> heap w' = heap w \<and> ubs w' = ubs w"
proof -
  let ?j = "log_record (ctime (clock w)) (clock w) (seq_of i) func line log" and ?n = "length (idata i)"
  let ?d = "logged w i ?j"
  have s: "h_sequence ?j = seq_of i" by (simp add: log_record_def Let_def)
  note p = logged_props [OF assms(1) journal_ok_record [of "ctime (clock w)" "clock w" "seq_of i" func line log], unfolded s]
  have r: "log_ready P (used 6 (with_data w i ?d)) (i\<lparr>idata := ?d\<rparr>)"
    by (rule log_ready_used [OF _ log_ready_with_data [OF assms(1) p(1)]]) simp
  have e: "\<exists>d. (fs w)(log_name w \<mapsto> i\<lparr>idata := ?d\<rparr>) = (fs w)(log_name w \<mapsto> i\<lparr>idata := d\<rparr>) \<and> length d = ?n \<and>
      page_at (log_pos (gl w) ?n (seq_of i)) d = journal_bytes ?j \<and>
      (\<forall>k<?n. k \<notin> {log_pos (gl w) ?n (seq_of i)..<log_pos (gl w) ?n (seq_of i) + 512} \<and>
        k \<notin> {?n - 131072..<?n - 131072 + 512} \<longrightarrow> d ! k = idata i ! k)"
    by (rule exI [of _ ?d]) (use p(1,2,4) in \<open>auto simp: super_pos_def\<close>)
  show ?thesis
    using log_pos_area [OF assms(1), of "seq_of i"] p(3) e
    by (simp add: run_HistoryLog [OF assms] run_GetSequenceNum [OF assms(1)] run_GetSequenceNum [OF r] super_pos_def)
      (simp add: with_data_def)
qed

section \<open>The log as a ring\<close>

text \<open>A client that logs one message after another.\<close>

fun log_all :: "plat \<Rightarrow> (int \<Rightarrow> bytes) \<Rightarrow> (bytes \<times> u32 \<times> bytes) list \<Rightarrow> bool nv" where
  "log_all P ctime [] = ret True"
| "log_all P ctime ((func, line, log) # ms) = do {
     r \<leftarrow> NVM_HistoryLog P ctime DEFAULT_LOG_LEVEL func line log;
     if r then log_all P ctime ms else ret False }"

definition message_record :: "(int \<Rightarrow> bytes) \<Rightarrow> int \<Rightarrow> u32 \<Rightarrow> bytes \<times> u32 \<times> bytes \<Rightarrow> bytes" where
  "message_record ctime tm s m = (case m of (func, line, log) \<Rightarrow> journal_bytes (log_record (ctime tm) tm s func line log))"

lemma unat_later: "unat s + k < 2 ^ 32 \<Longrightarrow> unat (s + of_nat k :: u32) = unat s + k"
  by (simp add: unat_word_ariths unsigned_of_nat take_bit_eq_mod mod_add_right_eq)

lemma log_pos_apart:
  assumes "unat s + k < 2 ^ 32" and "0 < k" and "k < ring_pages g"
  shows "log_pos g n s + 512 \<le> log_pos g n (s + of_nat k) \<or> log_pos g n (s + of_nat k) + 512 \<le> log_pos g n s"
proof -
  have "unat s mod ring_pages g \<noteq> (unat s + k) mod ring_pages g"
    using assms(2,3) by (metis add_diff_cancel_left' le_add1 mod_eq_dvd_iff_nat nat_dvd_not_less)
  then show ?thesis using unat_later [OF assms(1)] by (auto simp: log_pos_def neq_iff)
qed

lemma run_log_all:
  assumes "log_ready P w i" and "list_all (\<lambda>(func, _). length (cstr func) \<le> MAX_FUNCTION_NAME_LENGTH) ms"
    and "unat (seq_of i) + length ms < 2 ^ 32"
  shows "\<exists>n d. run_state (log_all P ctime ms) w = (True, used n (with_data w i d)) \<and> 0 \<le> n \<and> length d = length (idata i) \<and>
    seq_of (i\<lparr>idata := d\<rparr>) = seq_of i + of_nat (length ms) \<and>
    (\<forall>p. p + 512 \<le> super_pos i \<and> (\<forall>k<length ms. p + 512 \<le> log_pos (gl w) (length (idata i)) (seq_of i + of_nat k) \<or>
        log_pos (gl w) (length (idata i)) (seq_of i + of_nat k) + 512 \<le> p) \<longrightarrow> page_at p d = page_at p (idata i)) \<and>
    (\<forall>k<length ms. length ms - k \<le> ring_pages (gl w) \<longrightarrow>
      page_at (log_pos (gl w) (length (idata i)) (seq_of i + of_nat k)) d =
        message_record ctime (clock w) (seq_of i + of_nat k) (ms ! k))"
  using assms
proof (induction ms arbitrary: w i)
  case Nil
  have "with_data w i (idata i) = w" using Nil(1) by (auto simp: with_data_def log_ready_def fun_upd_idem)
  then show ?case by (intro exI [of _ 0] exI [of _ "idata i"]) (simp add: run)
next
  case (Cons m ms)
  obtain func line log where m: "m = (func, line, log)" by (cases m)
  let ?n = "length (idata i)" and ?s = "seq_of i"
  let ?j = "log_record (ctime (clock w)) (clock w) ?s func line log"
  let ?d = "logged w i ?j" and ?pos = "\<lambda>k. log_pos (gl w) (length (idata i)) (seq_of i + of_nat k)"
  let ?w = "used 6 (with_data w i ?d)" and ?i = "i\<lparr>idata := logged w i ?j\<rparr>"
  have s: "h_sequence ?j = ?s" by (simp add: log_record_def Let_def)
  note p = logged_props [OF Cons(2) journal_ok_record [of "ctime (clock w)" "clock w" "seq_of i" func line log], unfolded s]
  have r: "log_ready P ?w ?i" by (rule log_ready_used [OF _ log_ready_with_data [OF Cons(2) p(1)]]) simp
  have step: "run_state (NVM_HistoryLog P ctime DEFAULT_LOG_LEVEL func line log) w = (True, ?w)"
    by (rule run_HistoryLog [OF Cons(2)]) (use Cons(3) in \<open>simp_all add: m\<close>)
  have u: "unat (seq_of ?i) + length ms < 2 ^ 32"
    using unat_later [of ?s 1] Cons(4) by (simp add: p(3))
  have gw: "super_pos ?i = super_pos i" by (simp add: super_pos_def p(1))
  have sh: "seq_of ?i + of_nat k = ?s + of_nat (Suc k)" for k by (simp add: p(3))
  obtain n d where ih: "run_state (log_all P ctime ms) ?w = (True, used n (with_data ?w ?i d))" "0 \<le> n" "length d = ?n"
    "seq_of (?i\<lparr>idata := d\<rparr>) = ?s + of_nat (Suc (length ms))"
    "\<forall>p. p + 512 \<le> super_pos i \<and> (\<forall>k<length ms. p + 512 \<le> ?pos (Suc k) \<or> ?pos (Suc k) + 512 \<le> p) \<longrightarrow> page_at p d = page_at p ?d"
    "\<forall>k<length ms. length ms - k \<le> ring_pages (gl w) \<longrightarrow> page_at (?pos (Suc k)) d =
        message_record ctime (clock w) (?s + of_nat (Suc k)) (ms ! k)"
    using Cons.IH [OF r _ u] Cons(3) by (auto simp del: of_nat_Suc simp: gw sh p(1))
  have run: "run_state (log_all P ctime (m # ms)) w = (True, used (6 + n) (with_data w i d))"
    using ih(1) by (simp add: m run step with_data_used with_data_twice)
  have keep: "page_at q d = page_at q (idata i)"
    if a: "q + 512 \<le> super_pos i" "\<forall>k<Suc (length ms). q + 512 \<le> ?pos k \<or> ?pos k + 512 \<le> q" for q
  proof -
    have "page_at q d = page_at q ?d" using ih(5) a by (auto simp del: of_nat_Suc)
    also have "\<dots> = page_at q (idata i)"
      using a(1) a(2) [rule_format, of 0] log_pos_area(2) [OF Cons(2), of ?s] log_ready_big [OF Cons(2)]
      by (simp add: logged_def s page_at_elsewhere length_journal_bytes journal_ok_record journal_ok_super super_pos_def)
    finally show ?thesis .
  qed
  have first: "page_at (?pos 0) d = message_record ctime (clock w) ?s m" if c: "Suc (length ms) \<le> ring_pages (gl w)"
  proof -
    have "?pos 0 + 512 \<le> ?pos (Suc k) \<or> ?pos (Suc k) + 512 \<le> ?pos 0" if "k < length ms" for k
      using log_pos_apart [of ?s "Suc k" "gl w" ?n] that c Cons(4) by (simp del: of_nat_Suc)
    then have "page_at (?pos 0) d = page_at (?pos 0) ?d"
      using ih(5) log_pos_area(2) [OF Cons(2), of "?s + of_nat 0"] by (auto simp del: of_nat_Suc of_nat_0)
    then show ?thesis by (simp add: p(2) m message_record_def)
  qed
  have recs: "page_at (?pos k) d = message_record ctime (clock w) (?s + of_nat k) ((m # ms) ! k)"
    if "k < Suc (length ms)" "Suc (length ms) - k \<le> ring_pages (gl w)" for k
    using that first ih(6) by (cases k) (simp_all del: of_nat_Suc)
  show ?case
    by (intro exI [of _ "6 + n"] exI [of _ d]) (use run ih(2-4) keep recs in \<open>auto simp del: of_nat_Suc\<close>)
qed


section \<open>A sample device\<close>

definition sample_log :: "nv_globals world" where
  "sample_log = (disk [(''/dev/log'', blk (replicate 262144 (CHR 0x00)))])\<lparr>gl := g0\<lparr>nvram_platform_layout_version := 0\<rparr>\<rparr>"

lemma sample_log_name: "log_name sample_log = ''/dev/log''"
  by (simp add: log_name_def sample_log_def g0_def no_nul_def)

lemma sample_log_ready: "log_ready P0 sample_log (blk (replicate 262144 (CHR 0x00)))"
proof -
  have e: "emmc_support P0" by (simp add: P0_def)
  have w: "wf_world sample_log" using wf_disk [of "[(''/dev/log'', blk (replicate 262144 (CHR 0x00)))]"]
    by (simp add: sample_log_def wf_world_def)
  show ?thesis
    using e w by (simp add: log_ready_def sample_log_name) (simp add: sample_log_def g0_def)
qed

lemma sample_seq: "seq_of (blk (replicate 262144 (CHR 0x00))) = 0"
proof -
  have "((*) (256 :: nat) ^^ n) 0 = 0" for n by (induction n) simp_all
  then show ?thesis by (simp add: seq_of_def super_pos_def un32_def Let_def)
qed

theorem HistoryLog_in_area_witness:
  "fst (run_state NVM_GetSequenceNum (snd (run_state (NVM_HistoryLog P0 (\<lambda>_. ''now'') 1 ''main'' 7 ''hello'') sample_log))) = 1"
  using HistoryLog_in_area [OF sample_log_ready, of 1 "''main''" "\<lambda>_. ''now''" 7 "''hello''"]
  by (simp add: case_prod_unfold Let_def run_GetSequenceNum [OF sample_log_ready] sample_seq cstr_def)


section \<open>Corners\<close>

text \<open>
  The number is unsigned, so \<open>sequence < 0\<close> never holds: when reading the number fails, the message
  is logged as number \<open>0xFFFFFFFF\<close> and the super page starts again from zero.
\<close>

lemma failed_number_restarts:
  assumes "log_ready P w i" and "\<not> level < DEFAULT_LOG_LEVEL" and "length (cstr func) \<le> MAX_FUNCTION_NAME_LENGTH"
  shows "let (r, w') = run_state (NVM_HistoryLog P ctime level func line log) (w\<lparr>faults := [Good, Good, Good, Fail]\<rparr>) in
    r \<and> fst (run_state NVM_GetSequenceNum w') = 0"
proof -
  let ?j = "log_record (ctime (clock w)) (clock w) (-1) func line log" and ?u = "used 1 w"
  have j: "h_sequence ?j = -1" by (simp add: log_record_def Let_def)
  have a: "run_state (NVM_GetDeviceInfo (log_name w)) (w\<lparr>faults := [Good, Good, Good, Fail]\<rparr>) =
      (Some (gpt_info (length (idata i))), ?u\<lparr>faults := [Fail]\<rparr>)"
    using assms(1)
    by (simp add: log_ready_def NVM_GetDeviceInfo_def run_bind run_ret run_gets sys_open_def sys_lseek_def sys_close_def
        pop_fault_def new_fd_def used_def gpt_info_def Let_def log_name_def)
  have b: "run_state NVM_GetSequenceNum (?u\<lparr>faults := [Fail]\<rparr>) = (-1, ?u)"
    using assms(1)
    by (simp add: log_ready_def NVM_GetSequenceNum_def log_device_def NVM_GetDeviceInfo_def run_bind run_ret run_gets
        sys_open_def pop_fault_def used_def Let_def)
  have ready: "log_ready P ?u i" by (simp add: log_ready_used assms(1))
  have name: "log_name ?u = log_name w" by (simp add: log_name_def)
  have l: "run_state (log_sequence P (\<lambda>journal. do {
        tm \<leftarrow> gets clock;
        j \<leftarrow> put_log func (ctime tm) log (journal\<lparr>h_utc_time := of_int tm, h_func_line := line\<rparr>);
        ret (Some j) }) (log_name w) (gpt_info (length (idata i))) (-1)) ?u =
      (True, used 3 (with_data ?u i (logged ?u i ?j)))"
    unfolding name [symmetric]
    by (rule run_log_sequence [OF ready journal_ok_record j])
      (simp add: run run_put_log [OF assms(3)] log_record_def zero_journal_def Let_def)
  have f: "\<not> no_journal (gpt_info (length (idata i)))"
    by (rule journal_fits) (use log_ready_big [OF assms(1)] assms(1) in \<open>auto simp: log_ready_def\<close>)
  have v: "nvram_platform_layout_version (gl w) = 0" using assms(1) by (simp add: log_ready_def)
  have r: "run_state (NVM_HistoryLog P ctime level func line log) (w\<lparr>faults := [Good, Good, Good, Fail]\<rparr>) =
      (True, used 3 (with_data ?u i (logged ?u i ?j)))"
    using assms(2) f v a b l
    by (simp add: NVM_HistoryLog_def history_log_def log_device_def run_bind run_ret run_gets Let_def log_name_def [symmetric])
  have "log_ready P (used 3 (with_data ?u i (logged ?u i ?j))) (i\<lparr>idata := logged ?u i ?j\<rparr>)"
    by (rule log_ready_used [OF _ log_ready_with_data [OF ready logged_props(1) [OF ready journal_ok_record]]]) simp
  from run_GetSequenceNum [OF this] show ?thesis
    using logged_props(3) [OF ready journal_ok_record [of "ctime (clock w)" "clock w" "-1" func line log]] by (simp add: r j)
qed

text \<open>Every 256th record of the misc journal goes into the block after its own.\<close>

lemma misc_slot_past_block:
  "uint s mod 256 = 255 \<Longrightarrow> misc_start P (gpt_info n) + misc_offset (gpt_info n) s =
    misc_start P (gpt_info n) + uint (mi_erasesize (gpt_info n))"
  by (simp add: misc_offset_def)

text \<open>A function name is copied without regard to the size of its field.\<close>

lemma long_name_overflows:
  "MAX_FUNCTION_NAME_LENGTH < length (cstr func) \<Longrightarrow> OutOfBounds \<in> set (ubs (snd (run_state (put_log func time log j) w)))"
  by (simp add: put_log_def put_array_def check_def run Let_def)

end
