(* ===== verification/Hci.thy ===== *)
theory Hci
  imports Prelude
begin

text \<open>
  How the Bluetooth HAL cuts the byte stream of the chip into packets: \<open>HciPacketizer::OnDataReady\<close>
  (\<open>hidl/bluetooth/hci_packetizer.cc\<close>) and \<open>H4Protocol::OnDataReady\<close> (\<open>h4_protocol.cc\<close>).  The
  descriptor is non-blocking: one call makes one read, which gives at most the \<open>k\<close> bytes that have
  arrived of the rest \<open>inp\<close> of the stream.  \<open>None\<close> is the abort of \<open>LOG_ALWAYS_FATAL\<close>.
\<close>

section \<open>Packets\<close>

abbreviation (input) HCI_PACKET_TYPE_UNKNOWN :: nat where "HCI_PACKET_TYPE_UNKNOWN \<equiv> 0"
abbreviation (input) HCI_PACKET_TYPE_COMMAND :: nat where "HCI_PACKET_TYPE_COMMAND \<equiv> 1"
abbreviation (input) HCI_PACKET_TYPE_ACL_DATA :: nat where "HCI_PACKET_TYPE_ACL_DATA \<equiv> 2"
abbreviation (input) HCI_PACKET_TYPE_SCO_DATA :: nat where "HCI_PACKET_TYPE_SCO_DATA \<equiv> 3"
abbreviation (input) HCI_PACKET_TYPE_EVENT :: nat where "HCI_PACKET_TYPE_EVENT \<equiv> 4"

definition preamble_size_for_type :: "nat \<Rightarrow> nat" where
  "preamble_size_for_type t = (if t = HCI_PACKET_TYPE_COMMAND then 3 else if t = HCI_PACKET_TYPE_ACL_DATA then 4
     else if t = HCI_PACKET_TYPE_SCO_DATA then 3 else if t = HCI_PACKET_TYPE_EVENT then 2 else 0)"

definition packet_length_offset_for_type :: "nat \<Rightarrow> nat" where
  "packet_length_offset_for_type t = (if t = HCI_PACKET_TYPE_COMMAND then 2 else if t = HCI_PACKET_TYPE_ACL_DATA then 2
     else if t = HCI_PACKET_TYPE_SCO_DATA then 2 else if t = HCI_PACKET_TYPE_EVENT then 1 else 0)"

definition HciGetPacketLengthForType :: "nat \<Rightarrow> bytes \<Rightarrow> nat" where
  "HciGetPacketLengthForType t preamble = (let offset = packet_length_offset_for_type t in
     if t \<noteq> HCI_PACKET_TYPE_ACL_DATA then of_char (preamble ! offset)
     else of_char (preamble ! (offset + 1)) * 256 + of_char (preamble ! offset))"

datatype packetizer_state = HCI_PREAMBLE | HCI_PAYLOAD

record packetizer =
  pk_state :: packetizer_state
  preamble :: bytes
  packet :: bytes
  bytes_remaining :: nat
  bytes_read :: nat

text \<open>\<open>hidl_vec::resize\<close> keeps the elements that fit.\<close>

definition resize :: "nat \<Rightarrow> bytes \<Rightarrow> bytes" where
  "resize n v = zpad n v"

text \<open>The result holds the packet that \<open>packet_ready_cb_\<close> is called for.\<close>

definition packetizer_OnDataReady :: "nat \<Rightarrow> nat \<Rightarrow> bytes \<Rightarrow> packetizer \<Rightarrow> (packetizer \<times> bytes \<times> bytes option) option" where
  "packetizer_OnDataReady packet_type k inp p = (let size = preamble_size_for_type packet_type in case pk_state p of
     HCI_PREAMBLE \<Rightarrow> (let got = take (size - bytes_read p) (take k inp) in
       if got = [] then None
       else let p' = p\<lparr>preamble := splice (bytes_read p) got (preamble p), bytes_read := bytes_read p + length got\<rparr> in
         Some (if bytes_read p' = size
           then let packet_length = HciGetPacketLengthForType packet_type (preamble p') in
             p'\<lparr>packet := splice 0 (take size (preamble p')) (resize (size + packet_length) (packet p)),
               bytes_remaining := packet_length, pk_state := HCI_PAYLOAD, bytes_read := 0\<rparr>
           else p', drop (length got) inp, None))
   | HCI_PAYLOAD \<Rightarrow> (let got = take (bytes_remaining p) (take k inp) in
       if got = [] then None
       else let p' = p\<lparr>packet := splice (size + bytes_read p) got (packet p),
                bytes_remaining := bytes_remaining p - length got, bytes_read := bytes_read p + length got\<rparr> in
         if bytes_remaining p' = 0
         then Some (p'\<lparr>pk_state := HCI_PREAMBLE, bytes_read := 0\<rparr>, drop (length got) inp, Some (packet p'))
         else Some (p', drop (length got) inp, None)))"

section \<open>The H4 protocol\<close>

text \<open>\<open>delivered\<close> are the packets handed to the callbacks, with their types.\<close>

record h4_protocol =
  hci_packet_type :: nat
  hci_packetizer :: packetizer
  delivered :: "(nat \<times> bytes) list"

definition H4_OnDataReady :: "nat \<Rightarrow> h4_protocol \<times> bytes \<Rightarrow> (h4_protocol \<times> bytes) option" where
  "H4_OnDataReady k s = (case s of (h, inp) \<Rightarrow>
     if hci_packet_type h = HCI_PACKET_TYPE_UNKNOWN
     then case take 1 (take k inp) of [] \<Rightarrow> None
       | c # _ \<Rightarrow> let t = of_char c in
           if t \<noteq> HCI_PACKET_TYPE_ACL_DATA \<and> t \<noteq> HCI_PACKET_TYPE_SCO_DATA \<and> t \<noteq> HCI_PACKET_TYPE_EVENT then None
           else Some (h\<lparr>hci_packet_type := t\<rparr>, drop 1 inp)
     else case packetizer_OnDataReady (hci_packet_type h) k inp (hci_packetizer h) of None \<Rightarrow> None
       | Some (p, rest, None) \<Rightarrow> Some (h\<lparr>hci_packetizer := p\<rparr>, rest)
       | Some (p, rest, Some d) \<Rightarrow>
           Some (h\<lparr>hci_packetizer := p, hci_packet_type := HCI_PACKET_TYPE_UNKNOWN,
             delivered := delivered h @ [(hci_packet_type h, d)]\<rparr>, rest))"

definition h4_init :: h4_protocol where
  "h4_init = \<lparr>hci_packet_type = HCI_PACKET_TYPE_UNKNOWN,
     hci_packetizer = \<lparr>pk_state = HCI_PREAMBLE, preamble = replicate 4 (CHR 0x00), packet = [], bytes_remaining = 0, bytes_read = 0\<rparr>,
     delivered = []\<rparr>"

text \<open>The watcher calls it as long as there is something to read; \<open>ks\<close> is how much arrives each time.\<close>

fun h4_feed :: "nat list \<Rightarrow> h4_protocol \<times> bytes \<Rightarrow> (h4_protocol \<times> bytes) option" where
  "h4_feed [] s = Some s"
| "h4_feed (k # ks) s = (if snd s = [] then Some s
     else case H4_OnDataReady k s of None \<Rightarrow> None | Some t \<Rightarrow> h4_feed ks t)"

section \<open>Reassembly\<close>

text \<open>A packet of a type, and the stream the chip sends for a list of packets.\<close>

definition packet_ok :: "nat \<times> bytes \<Rightarrow> bool" where
  "packet_ok td \<longleftrightarrow> (case td of (t, d) \<Rightarrow> t \<in> {2, 3, 4} \<and> preamble_size_for_type t < length d \<and>
     length d = preamble_size_for_type t + HciGetPacketLengthForType t d)"

fun stream :: "(nat \<times> bytes) list \<Rightarrow> bytes" where
  "stream [] = []"
| "stream ((t, d) # ps) = char_of t # d @ stream ps"

lemma length_resize [simp]: "length (resize n v) = n"
  by (simp add: resize_def)

lemma sizes: "t \<in> {2, 3, 4} \<Longrightarrow> 0 < preamble_size_for_type t \<and> preamble_size_for_type t \<le> 4"
  by (auto simp: preamble_size_for_type_def)

text \<open>The length field lies in the preamble.\<close>

lemma length_from_preamble:
  "t \<in> {2, 3, 4} \<Longrightarrow> preamble_size_for_type t \<le> length d \<Longrightarrow> preamble_size_for_type t \<le> length p \<Longrightarrow>
   take (preamble_size_for_type t) p = take (preamble_size_for_type t) d \<Longrightarrow>
   HciGetPacketLengthForType t p = HciGetPacketLengthForType t d"
  by (auto simp: HciGetPacketLengthForType_def preamble_size_for_type_def packet_length_offset_for_type_def Let_def
      dest!: arg_cong [of _ _ "\<lambda>l. (l ! 1, l ! 2, l ! 3)"])

text \<open>How far the first packet of the rest of the stream has been read.\<close>

definition midway :: "h4_protocol \<Rightarrow> bytes \<Rightarrow> (nat \<times> bytes) list \<Rightarrow> bool" where
  "midway h inp ps \<longleftrightarrow> list_all packet_ok ps \<and> length (preamble (hci_packetizer h)) = 4 \<and>
    (let p = hci_packetizer h; t = hci_packet_type h; n = preamble_size_for_type t; b = bytes_read p in
     if t = HCI_PACKET_TYPE_UNKNOWN then pk_state p = HCI_PREAMBLE \<and> b = 0 \<and> inp = stream ps
     else \<exists>d rest. ps = (t, d) # rest \<and>
       (case pk_state p of
         HCI_PREAMBLE \<Rightarrow> b < n \<and> take b (preamble p) = take b d \<and> inp = drop b d @ stream rest
       | HCI_PAYLOAD \<Rightarrow> length (packet p) = length d \<and> take (n + b) (packet p) = take (n + b) d \<and>
           bytes_remaining p = length d - (n + b) \<and> n + b < length d \<and> inp = drop (n + b) d @ stream rest))"

text \<open>What is read of a packet: \<open>m\<close> bytes that all belong to it.\<close>

lemma got_inside: "m \<le> length d - b \<Longrightarrow> take m (take k (drop b d @ r)) = take (min m k) (drop b d)"
proof -
  assume "m \<le> length d - b"
  then have z: "min m k - length (drop b d) = 0" by simp
  have "take m (take k (drop b d @ r)) = take (min m k) (drop b d @ r)" by (rule take_take)
  also have "\<dots> = take (min m k) (drop b d)" by (simp only: take_append z take_0 append_Nil2)
  finally show ?thesis .
qed

lemma take_splice_grow:
  "b \<le> length p \<Longrightarrow> take b p = take b d \<Longrightarrow> take (b + length (take m (drop b d))) (splice b (take m (drop b d)) p) = take (b + m) d"
  by (cases "m \<le> length d - b") (auto simp: splice_take_drop take_add min_def)

lemma step_type:
  assumes "midway h inp ps" and "inp \<noteq> []" and "0 < k" and "hci_packet_type h = HCI_PACKET_TYPE_UNKNOWN"
  shows "\<exists>h' inp' qs. H4_OnDataReady k (h, inp) = Some (h', inp') \<and> midway h' inp' qs \<and>
    delivered h' @ qs = delivered h @ ps \<and> length inp' < length inp"
proof -
  have i: "inp = stream ps" "list_all packet_ok ps" using assms(1,4) by (auto simp: midway_def Let_def)
  then obtain t d rest where ps: "ps = (t, d) # rest" using assms(2) by (cases ps) auto
  have t: "t \<in> {2, 3, 4}" "preamble_size_for_type t < length d" using i(2) by (auto simp: ps packet_ok_def)
  then have "t < 256" by auto
  then have c: "of_char (char_of t :: char) = t" by simp
  have "H4_OnDataReady k (h, inp) = Some (h\<lparr>hci_packet_type := t\<rparr>, d @ stream rest)"
    using t(1) assms(3,4) c by (cases k) (auto simp: H4_OnDataReady_def i(1) ps Let_def)
  moreover have "midway (h\<lparr>hci_packet_type := t\<rparr>) (d @ stream rest) ps"
    using assms(1,4) t sizes [OF t(1)] by (auto simp: midway_def Let_def ps)
  ultimately show ?thesis by (auto simp: i(1) ps)
qed

lemma step_preamble:
  assumes "midway h inp ps" and "0 < k" and "hci_packet_type h \<noteq> HCI_PACKET_TYPE_UNKNOWN"
    and "pk_state (hci_packetizer h) = HCI_PREAMBLE"
  shows "\<exists>h' inp' qs. H4_OnDataReady k (h, inp) = Some (h', inp') \<and> midway h' inp' qs \<and>
    delivered h' @ qs = delivered h @ ps \<and> length inp' < length inp"
proof -
  let ?p = "hci_packetizer h" and ?t = "hci_packet_type h"
  define n b where "n = preamble_size_for_type ?t" and "b = bytes_read ?p"
  obtain d rest where m: "ps = (?t, d) # rest" "list_all packet_ok ps" "length (preamble ?p) = 4" "b < n"
    "take b (preamble ?p) = take b d" "inp = drop b d @ stream rest"
    using assms(1,3,4) by (auto simp: midway_def Let_def n_def b_def)
  have t: "?t \<in> {2, 3, 4}" "n < length d" "length d = n + HciGetPacketLengthForType ?t d"
    using m(2) by (auto simp: m(1) packet_ok_def n_def)
  have n4: "n \<le> 4" using sizes [OF t(1)] by (simp add: n_def)
  define got where "got = take (min (n - b) k) (drop b d)"
  have g: "take (n - b) (take k inp) = got"
    using got_inside [of "n - b" d b k "stream rest"] t(2) by (simp add: m(6) got_def)
  have gl: "length got = min (n - b) k" "got \<noteq> []" using t(2) m(4) assms(2) by (auto simp: got_def)
  have dr: "drop (length got) inp = drop (b + length got) d @ stream rest"
    using t(2) gl(1) by (simp add: m(6) add.commute)
  have ne: "inp \<noteq> []" using m(4) t(2) by (simp add: m(6))
  let ?pre = "splice b got (preamble ?p)"
  have pre: "take (b + length got) ?pre = take (b + length got) d" "length ?pre = 4"
    using take_splice_grow [OF _ m(5), of "min (n - b) k"] m(3,4) n4 gl(1) by (auto simp: got_def)
  show ?thesis
  proof (cases "b + length got = n")
    case True
    have len: "HciGetPacketLengthForType ?t ?pre = length d - n"
      using length_from_preamble [OF t(1), of d ?pre] t(2,3) pre n4 True by (simp add: n_def)
    let ?pk = "splice 0 (take n ?pre) (resize (n + (length d - n)) (packet ?p))"
    let ?q = "?p\<lparr>preamble := ?pre, bytes_read := 0, packet := ?pk, bytes_remaining := length d - n, pk_state := HCI_PAYLOAD\<rparr>"
    have "H4_OnDataReady k (h, inp) = Some (h\<lparr>hci_packetizer := ?q\<rparr>, drop n d @ stream rest)"
      using assms(2-4) g gl(2) True dr len ne m(4)
      by (simp add: H4_OnDataReady_def packetizer_OnDataReady_def Let_def n_def [symmetric] b_def [symmetric])
    moreover have "midway (h\<lparr>hci_packetizer := ?q\<rparr>) (drop n d @ stream rest) ps"
      using assms(3) m(1,2) t pre True n4 by (simp add: midway_def Let_def n_def [symmetric] splice_def min_def)
    moreover have "length (drop n d) < length (drop b d)" using m(4) t(2) by simp
    ultimately show ?thesis by (auto simp: m(6))
  next
    case False
    let ?q = "?p\<lparr>preamble := ?pre, bytes_read := b + length got\<rparr>"
    have "H4_OnDataReady k (h, inp) = Some (h\<lparr>hci_packetizer := ?q\<rparr>, drop (b + length got) d @ stream rest)"
      using assms(2-4) g gl(2) False dr ne m(4)
      by (simp add: H4_OnDataReady_def packetizer_OnDataReady_def Let_def n_def [symmetric] b_def [symmetric])
    moreover have "midway (h\<lparr>hci_packetizer := ?q\<rparr>) (drop (b + length got) d @ stream rest) ps"
      using assms(3,4) m(1,2,4) pre gl(1) False by (simp add: midway_def Let_def n_def [symmetric])
    moreover have "length (drop (b + length got) d) < length (drop b d)" using m(4) t(2) gl(2) by (cases got) auto
    ultimately show ?thesis by (auto simp: m(6))
  qed
qed

lemma step_payload:
  assumes "midway h inp ps" and "0 < k" and "hci_packet_type h \<noteq> HCI_PACKET_TYPE_UNKNOWN"
    and "pk_state (hci_packetizer h) = HCI_PAYLOAD"
  shows "\<exists>h' inp' qs. H4_OnDataReady k (h, inp) = Some (h', inp') \<and> midway h' inp' qs \<and>
    delivered h' @ qs = delivered h @ ps \<and> length inp' < length inp"
proof -
  let ?p = "hci_packetizer h" and ?t = "hci_packet_type h"
  define n b where "n = preamble_size_for_type ?t" and "b = bytes_read ?p"
  obtain d rest where m: "ps = (?t, d) # rest" "list_all packet_ok ps" "length (preamble ?p) = 4" "length (packet ?p) = length d"
    "take (n + b) (packet ?p) = take (n + b) d" "bytes_remaining ?p = length d - (n + b)" "n + b < length d"
    "inp = drop (n + b) d @ stream rest"
    using assms(1,3,4) by (auto simp: midway_def Let_def n_def b_def)
  define got where "got = take (min (length d - (n + b)) k) (drop (n + b) d)"
  have g: "take (bytes_remaining ?p) (take k inp) = got"
    using got_inside [of "length d - (n + b)" d "n + b" k "stream rest"] by (simp add: m(6,8) got_def)
  have gl: "length got = min (length d - (n + b)) k" "got \<noteq> []" using m(7) assms(2) by (auto simp: got_def)
  have dr: "drop (length got) inp = drop (n + b + length got) d @ stream rest"
    using gl(1) by (simp add: m(8) add.commute)
  have ne: "inp \<noteq> []" using m(7) by (simp add: m(8))
  let ?pk = "splice (n + b) got (packet ?p)"
  have pk: "take (n + b + length got) ?pk = take (n + b + length got) d" "length ?pk = length d"
    using take_splice_grow [OF _ m(5), of "min (length d - (n + b)) k"] m(4,7) gl(1) by (auto simp: got_def)
  show ?thesis
  proof (cases "bytes_remaining ?p - length got = 0")
    case True
    then have e: "n + b + length got = length d" using gl(1) m(6,7) by simp
    then have d: "?pk = d" using pk by simp
    let ?q = "?p\<lparr>packet := d, bytes_remaining := 0, pk_state := HCI_PREAMBLE, bytes_read := 0\<rparr>"
    let ?h = "h\<lparr>hci_packetizer := ?q, hci_packet_type := HCI_PACKET_TYPE_UNKNOWN, delivered := delivered h @ [(?t, d)]\<rparr>"
    have "H4_OnDataReady k (h, inp) = Some (?h, stream rest)"
      using assms(2-4) g gl(2) True dr e d ne m(6,7)
      by (simp add: H4_OnDataReady_def packetizer_OnDataReady_def Let_def n_def [symmetric] b_def [symmetric] add.assoc)
    moreover have "midway ?h (stream rest) rest"
      using m(2,3) by (simp add: midway_def m(1))
    ultimately show ?thesis using m(7) by (auto simp: m(1,8))
  next
    case False
    let ?q = "?p\<lparr>packet := ?pk, bytes_remaining := length d - (n + b + length got), bytes_read := b + length got\<rparr>"
    have "H4_OnDataReady k (h, inp) = Some (h\<lparr>hci_packetizer := ?q\<rparr>, drop (n + b + length got) d @ stream rest)"
      using assms(2-4) g gl(2) False dr ne m(6,7)
      by (simp add: H4_OnDataReady_def packetizer_OnDataReady_def Let_def n_def [symmetric] b_def [symmetric] add.assoc)
    moreover have "midway (h\<lparr>hci_packetizer := ?q\<rparr>) (drop (n + b + length got) d @ stream rest) ps"
      using assms(3,4) m(1-3,6) pk False by (simp add: midway_def Let_def n_def [symmetric] add.assoc)
    moreover have "length (drop (n + b + length got) d) < length (drop (n + b) d)" using m(7) gl(2) by (cases got) auto
    ultimately show ?thesis by (auto simp: m(8))
  qed
qed

lemma h4_step:
  assumes "midway h inp ps" and "inp \<noteq> []" and "0 < k"
  shows "\<exists>h' inp' qs. H4_OnDataReady k (h, inp) = Some (h', inp') \<and> midway h' inp' qs \<and>
    delivered h' @ qs = delivered h @ ps \<and> length inp' < length inp"
  using step_type [OF assms] step_preamble [OF assms(1,3)] step_payload [OF assms(1,3)]
  by (cases "pk_state (hci_packetizer h)") auto

lemma midway_end: "midway h [] ps \<Longrightarrow> ps = [] \<and> hci_packet_type h = HCI_PACKET_TYPE_UNKNOWN"
  by (cases ps; cases "pk_state (hci_packetizer h)") (auto simp: midway_def Let_def packet_ok_def split: if_splits)

lemma h4_feed_done: "h4_feed ks (h, []) = Some (h, [])"
  by (cases ks) simp_all

lemma feed_midway:
  "midway h inp ps \<Longrightarrow> list_all (\<lambda>k. 0 < k) ks \<Longrightarrow> \<exists>h' inp' qs. h4_feed ks (h, inp) = Some (h', inp') \<and> midway h' inp' qs \<and>
     delivered h' @ qs = delivered h @ ps \<and> (length inp \<le> length ks \<longrightarrow> inp' = [])"
proof (induction ks arbitrary: h inp ps)
  case Nil
  then show ?case by auto
next
  case (Cons k ks)
  show ?case
  proof (cases "inp = []")
    case True
    then show ?thesis using Cons.prems(1) by auto
  next
    case False
    obtain h1 inp1 qs where s: "H4_OnDataReady k (h, inp) = Some (h1, inp1)" "midway h1 inp1 qs"
      "delivered h1 @ qs = delivered h @ ps" "length inp1 < length inp"
      using h4_step [OF Cons.prems(1) False, of k] Cons.prems(2) by auto
    from Cons.IH [OF s(2)] Cons.prems(2) obtain h' inp' rs where
      "h4_feed ks (h1, inp1) = Some (h', inp')" "midway h' inp' rs" "delivered h' @ rs = delivered h1 @ qs"
      "length inp1 \<le> length ks \<longrightarrow> inp' = []"
      by auto
    then show ?thesis using False s by auto
  qed
qed



section \<open>Corners\<close>

text \<open>A packet without a payload aborts the HAL: the next call reads zero bytes and takes this for the end of the file.\<close>

lemma empty_payload_aborts:
  "pk_state p = HCI_PAYLOAD \<Longrightarrow> bytes_remaining p = 0 \<Longrightarrow> packetizer_OnDataReady t k inp p = None"
  by (simp add: packetizer_OnDataReady_def Let_def)

end
