(* ===== verification/Radiomod.thy ===== *)
theory Radiomod
  imports Access Hci Runs
begin

text \<open>
  The Bluetooth radio module (\<open>hidl/bluetooth/radiomod.c\<close>): the record it reads from the NVRAM
  (\<open>bt_read_nvram\<close>, \<open>mtk_fw_cfg\<close>), the thread that configures the chip with a script of HCI commands
  (\<open>GORM_FW_Init_Thread\<close>), the handlers of the answers, the start (\<open>BT_InitDevice\<close>) and the end
  (\<open>notify_thread_exit\<close>, \<open>BT_Cleanup\<close>), and of \<open>vendor_interface.cc\<close> what connects them: the
  outstanding command (\<open>transmit_old\<close>, \<open>internal_command_event_match\<close>, \<open>HandleIncomingEvent\<close>).
  The thread, the events of the chip and the termination interleave: each critical section of
  \<open>btinit_ctrl.mutex\<close> is one step.  System properties are a parameter; \<open>O_APPEND\<close> is left out
  where the file has just been emptied.
\<close>

section \<open>The NVRAM record\<close>

record btradio =
  addr :: bytes
  Voice :: bytes
  Codec :: bytes
  Radio :: bytes
  Sleep :: bytes
  BtFTR :: bytes
  TxPWOffset :: bytes
  CoexAdjust :: bytes
  Radio_ext :: bytes
  TxPWOffset_ext :: bytes
  Reserved1 :: bytes
  Reserved2 :: bytes
  Reserved3 :: bytes
  Reserved4 :: bytes

abbreviation (input) BTRADIO_SIZE :: nat where "BTRADIO_SIZE \<equiv> 64"

text \<open>The two views of the union \<open>BT_NVRAM_DATA_T\<close>.\<close>

definition btradio_of :: "bytes \<Rightarrow> btradio" where
  "btradio_of raw = (let field = (\<lambda>off n. take n (drop off raw)) in
     \<lparr>addr = field 0 6, Voice = field 6 2, Codec = field 8 4, Radio = field 12 6, Sleep = field 18 7, BtFTR = field 25 2,
      TxPWOffset = field 27 3, CoexAdjust = field 30 6, Radio_ext = field 36 2, TxPWOffset_ext = field 38 4,
      Reserved1 = field 42 2, Reserved2 = field 44 4, Reserved3 = field 48 8, Reserved4 = field 56 8\<rparr>)"

definition btradio_raw :: "btradio \<Rightarrow> bytes" where
  "btradio_raw r = addr r @ Voice r @ Codec r @ Radio r @ Sleep r @ BtFTR r @ TxPWOffset r @ CoexAdjust r @ Radio_ext r @
     TxPWOffset_ext r @ Reserved1 r @ Reserved2 r @ Reserved3 r @ Reserved4 r"

definition zeros :: "nat \<Rightarrow> bytes" where
  "zeros n = replicate n (CHR 0x00)"

definition stBtDefault_6630 :: btradio where
  "stBtDefault_6630 = \<lparr>addr = [CHR 0x00, CHR 0x00, CHR 0x46, CHR 0x66, CHR 0x30, CHR 0x01], Voice = [CHR 0x60, CHR 0x00],
     Codec = [CHR 0x63, CHR 0x10, CHR 0x00, CHR 0x00], Radio = [CHR 0x07, CHR 0x80, CHR 0x00, CHR 0x06, CHR 0x07, CHR 0x07],
     Sleep = [CHR 0x03, CHR 0x40, CHR 0x1F, CHR 0x40, CHR 0x1F, CHR 0x00, CHR 0x04], BtFTR = [CHR 0x80, CHR 0x00],
     TxPWOffset = [CHR 0xFF, CHR 0xFF, CHR 0xFF], CoexAdjust = zeros 6, Radio_ext = zeros 2, TxPWOffset_ext = zeros 4,
     Reserved1 = zeros 2, Reserved2 = zeros 4, Reserved3 = zeros 8, Reserved4 = zeros 8\<rparr>"

abbreviation (input) AP_CFG_RDEB_FILE_BT_ADDR_LID :: int where "AP_CFG_RDEB_FILE_BT_ADDR_LID \<equiv> 1"

definition is_memzero :: "bytes \<Rightarrow> bool" where
  "is_memzero buf = list_all (\<lambda>c. c = CHR 0x00) buf"

text \<open>
  The wait for the NVRAM daemon: \<open>nvram_init n\<close> is what \<open>service.nvram_init\<close> holds at the \<open>n\<close>th
  look; at most \<open>fuel\<close> looks are left.
\<close>

fun nvram_ready :: "(nat \<Rightarrow> string) \<Rightarrow> nat \<Rightarrow> nat \<Rightarrow> bool" where
  "nvram_ready nvram_init n 0 = False"
| "nvram_ready nvram_init n (Suc fuel) = (nvram_init n = ''Ready'' \<or> nvram_ready nvram_init (n + 1) fuel)"

definition bt_read_nvram :: "plat \<Rightarrow> (nat \<Rightarrow> string) \<Rightarrow> bytes option nv" where
  "bt_read_nvram P nvram_init =
    (if \<not> nvram_ready nvram_init 0 10 then ret None
     else do {
       (fd, rec_size, rec_num) \<leftarrow> NVM_GetFileDesc P AP_CFG_RDEB_FILE_BT_ADDR_LID (Some 0) (Some 0) True;
       if fid_iFileDesc fd < 0 then ret None
       else if rec_num \<noteq> Some 1 then do { _ \<leftarrow> NVM_CloseFileDesc P fd; ret None }
       else if rec_size \<noteq> Some (int BTRADIO_SIZE) then do { _ \<leftarrow> NVM_CloseFileDesc P fd; ret None }
       else do {
         r \<leftarrow> sys_read (fid_iFileDesc fd) BTRADIO_SIZE;
         _ \<leftarrow> NVM_CloseFileDesc P fd;
         ret (if r = None then None else Some (rd_buf r (garbage P BTRADIO_SIZE))) } })"

text \<open>The data \<open>mtk_fw_cfg\<close> hands to \<open>BT_InitDevice\<close>.\<close>

definition fw_cfg_data :: "plat \<Rightarrow> (nat \<Rightarrow> string) \<Rightarrow> bytes nv" where
  "fw_cfg_data P nvram_init = do {
     r \<leftarrow> bt_read_nvram P nvram_init;
     ret (case r of None \<Rightarrow> btradio_raw stBtDefault_6630
          | Some ucNvRamData \<Rightarrow> if is_memzero ucNvRamData then btradio_raw stBtDefault_6630 else ucNvRamData) }"

section \<open>State\<close>

datatype hci_cmd_status = CMD_SUCCESS | CMD_FAIL | CMD_PENDING | CMD_TERMINATE

datatype hci_seq = HCC_Get_Local_BD_Addr | HCC_Set_Local_BD_Addr | HCC_Set_PCM | HCC_Set_Radio
  | HCC_Set_TX_Power_Offset | HCC_Set_Sleep_Timeout | HCC_Coex_Performance_Adjust
  | HCC_Set_FW_SysLog | HCC_Set_SSP_Debug_Mode

datatype int_cmd_cback = GORMevt_HCE_Get_Local_BD_Addr | GORMevt_HCE_Common_Complete

text \<open>Where the init thread is: \<open>Exited\<close> is also the state before the first start.\<close>

datatype init_pc = Started | Test nat | Lock nat | Command nat | Await nat | Finish bool | Exited

record bt_state =
  nv :: "nv_globals world"
  bt_nvram :: btradio
  wOpCode :: u16
  cmd_status :: hci_cmd_status
  fgGetEFUSE :: bool
  ucDefaultAddr :: bytes
  worker_thread_running :: bool
  pc :: init_pc
  internal_command :: "(int_cmd_cback \<times> u16) option"
  sent :: "bytes list"
  forwarded :: "bytes list"
  configured :: "bool list"
  overread :: bool

definition bt_init_preload_script_6630 :: "hci_seq list" where
  "bt_init_preload_script_6630 = [HCC_Get_Local_BD_Addr, HCC_Set_Local_BD_Addr, HCC_Set_PCM,
     HCC_Set_Radio, HCC_Set_TX_Power_Offset, HCC_Set_Sleep_Timeout,
     HCC_Coex_Performance_Adjust, HCC_Set_FW_SysLog, HCC_Set_SSP_Debug_Mode]"

section \<open>Commands\<close>

text \<open>\<open>transmit_old\<close>: the command becomes the outstanding one and its \<open>len\<close> bytes are sent; always true.\<close>

definition transmit_old :: "u16 \<Rightarrow> nat \<Rightarrow> bytes \<Rightarrow> int_cmd_cback \<Rightarrow> bt_state \<Rightarrow> bool \<times> bt_state" where
  "transmit_old opcode len buffer callback s =
     (True, s\<lparr>internal_command := Some (callback, opcode), sent := sent s @ [take len buffer]\<rparr>)"

definition WriteBDAddrToNvram :: "bytes \<Rightarrow> bool nv" where
  "WriteBDAddrToNvram pucBDAddr = do {
     bt_fd \<leftarrow> sys_open ''/protect_s/properties/BT_Addr'' [O_WRONLY, O_CREAT, O_TRUNC] 438;
     r \<leftarrow> sys_write bt_fd pucBDAddr;
     _ \<leftarrow> sys_close bt_fd;
     ret (\<not> r < 0) }"

text \<open>No address: that of the defaults, or all zeros.\<close>

definition unset_addr :: "bt_state \<Rightarrow> bool" where
  "unset_addr s \<longleftrightarrow> addr (bt_nvram s) = ucDefaultAddr s \<or> addr (bt_nvram s) = zeros 6"

text \<open>The command functions of the script: the opcode, the parameter count, the parameters, the handler.\<close>

definition GORMcmd_HCC_Get_Local_BD_Addr :: "bt_state \<Rightarrow> bool \<times> bt_state" where
  "GORMcmd_HCC_Get_Local_BD_Addr s0 = (let s = s0\<lparr>wOpCode := 0x1009\<rparr> in
     transmit_old (wOpCode s) 3 (le16 (wOpCode s) @ [CHR 0x00]) GORMevt_HCE_Get_Local_BD_Addr s)"

definition GORMcmd_HCC_Set_Local_BD_Addr :: "bt_state \<Rightarrow> bool \<times> bt_state" where
  "GORMcmd_HCC_Set_Local_BD_Addr s0 = (let s1 = s0\<lparr>wOpCode := 0xFC1A\<rparr>;
       s2 = (if unset_addr s1 \<or> fgGetEFUSE s1
             then s1\<lparr>nv := snd (run_state (WriteBDAddrToNvram (addr (bt_nvram s1))) (nv s1))\<rparr> else s1);
       s = s2\<lparr>fgGetEFUSE := False\<rparr> in
     transmit_old (wOpCode s) 9 (le16 (wOpCode s) @ [CHR 0x06] @ rev (addr (bt_nvram s))) GORMevt_HCE_Common_Complete s)"

definition GORMcmd_HCC_Set_PCM :: "bt_state \<Rightarrow> bool \<times> bt_state" where
  "GORMcmd_HCC_Set_PCM s0 = (let s = s0\<lparr>wOpCode := 0xFC72\<rparr> in
     transmit_old (wOpCode s) 7 (le16 (wOpCode s) @ [CHR 0x04] @ Codec (bt_nvram s)) GORMevt_HCE_Common_Complete s)"

definition GORMcmd_HCC_Set_Radio :: "bt_state \<Rightarrow> bool \<times> bt_state" where
  "GORMcmd_HCC_Set_Radio s0 = (let s = s0\<lparr>wOpCode := 0xFC79\<rparr> in
     transmit_old (wOpCode s) 9 (le16 (wOpCode s) @ [CHR 0x06] @ Radio (bt_nvram s)) GORMevt_HCE_Common_Complete s)"

definition GORMcmd_HCC_Set_TX_Power_Offset :: "bt_state \<Rightarrow> bool \<times> bt_state" where
  "GORMcmd_HCC_Set_TX_Power_Offset s0 = (let s = s0\<lparr>wOpCode := 0xFC93\<rparr> in
     transmit_old (wOpCode s) 6 (le16 (wOpCode s) @ [CHR 0x03] @ TxPWOffset (bt_nvram s)) GORMevt_HCE_Common_Complete s)"

definition GORMcmd_HCC_Set_Sleep_Timeout :: "bt_state \<Rightarrow> bool \<times> bt_state" where
  "GORMcmd_HCC_Set_Sleep_Timeout s0 = (let s = s0\<lparr>wOpCode := 0xFC7A\<rparr> in
     transmit_old (wOpCode s) 10 (le16 (wOpCode s) @ [CHR 0x07] @ Sleep (bt_nvram s)) GORMevt_HCE_Common_Complete s)"

definition GORMcmd_HCC_Coex_Performance_Adjust :: "bt_state \<Rightarrow> bool \<times> bt_state" where
  "GORMcmd_HCC_Coex_Performance_Adjust s0 = (let s = s0\<lparr>wOpCode := 0xFC22\<rparr> in
     transmit_old (wOpCode s) 9 (le16 (wOpCode s) @ [CHR 0x06] @ CoexAdjust (bt_nvram s)) GORMevt_HCE_Common_Complete s)"

definition GORMcmd_HCC_Set_FW_SysLog :: "(string \<Rightarrow> string) \<Rightarrow> bt_state \<Rightarrow> bool \<times> bt_state" where
  "GORMcmd_HCC_Set_FW_SysLog property_get s0 = (let s = s0\<lparr>wOpCode := 0xFCBE\<rparr> in
     transmit_old (wOpCode s) 4 (le16 (wOpCode s) @ [CHR 0x01] @
       [if property_get ''persist.bt.syslog.enable'' = ''1'' then CHR 0x05 else CHR 0x00]) GORMevt_HCE_Common_Complete s)"

definition GORMcmd_HCC_Set_SSP_Debug_Mode :: "(string \<Rightarrow> string) \<Rightarrow> bt_state \<Rightarrow> bool \<times> bt_state" where
  "GORMcmd_HCC_Set_SSP_Debug_Mode property_get s0 = (let s = s0\<lparr>wOpCode := 0x1804\<rparr> in
     transmit_old (wOpCode s) 4 (le16 (wOpCode s) @ [CHR 0x01] @
       [if property_get ''persist.bt.sspdebug.enable'' = ''1'' then CHR 0x01 else CHR 0x00]) GORMevt_HCE_Common_Complete s)"

text \<open>The call through the function pointer of a script entry.\<close>

definition command_func :: "(string \<Rightarrow> string) \<Rightarrow> hci_seq \<Rightarrow> bt_state \<Rightarrow> bool \<times> bt_state" where
  "command_func property_get c = (case c of
     HCC_Get_Local_BD_Addr \<Rightarrow> GORMcmd_HCC_Get_Local_BD_Addr
   | HCC_Set_Local_BD_Addr \<Rightarrow> GORMcmd_HCC_Set_Local_BD_Addr
   | HCC_Set_PCM \<Rightarrow> GORMcmd_HCC_Set_PCM
   | HCC_Set_Radio \<Rightarrow> GORMcmd_HCC_Set_Radio
   | HCC_Set_TX_Power_Offset \<Rightarrow> GORMcmd_HCC_Set_TX_Power_Offset
   | HCC_Set_Sleep_Timeout \<Rightarrow> GORMcmd_HCC_Set_Sleep_Timeout
   | HCC_Coex_Performance_Adjust \<Rightarrow> GORMcmd_HCC_Coex_Performance_Adjust
   | HCC_Set_FW_SysLog \<Rightarrow> GORMcmd_HCC_Set_FW_SysLog property_get
   | HCC_Set_SSP_Debug_Mode \<Rightarrow> GORMcmd_HCC_Set_SSP_Debug_Mode property_get)"

lemmas command_defs = command_func_def GORMcmd_HCC_Get_Local_BD_Addr_def GORMcmd_HCC_Set_Local_BD_Addr_def GORMcmd_HCC_Set_PCM_def
  GORMcmd_HCC_Set_Radio_def GORMcmd_HCC_Set_TX_Power_Offset_def GORMcmd_HCC_Set_Sleep_Timeout_def
  GORMcmd_HCC_Coex_Performance_Adjust_def GORMcmd_HCC_Set_FW_SysLog_def GORMcmd_HCC_Set_SSP_Debug_Mode_def

section \<open>Events\<close>

text \<open>Byte \<open>n\<close> of a packet; a read past its end is noted and gives 0.\<close>

definition at :: "bytes \<Rightarrow> nat \<Rightarrow> char" where
  "at p n = (if n < length p then p ! n else CHR 0x00)"

definition reads :: "bytes \<Rightarrow> nat \<Rightarrow> bt_state \<Rightarrow> bt_state" where
  "reads p n s = s\<lparr>overread := (overread s \<or> length p < n)\<rparr>"

definition event_opcode :: "bytes \<Rightarrow> u16" where
  "event_opcode p = un16 [at p 3, at p 4]"

definition internal_command_event_match :: "bytes \<Rightarrow> u16 \<Rightarrow> bool" where
  "internal_command_event_match p opcode \<longleftrightarrow> at p 0 = CHR 0x0E \<and> event_opcode p = opcode"

definition evt_HCE_Common_Complete :: "bytes \<Rightarrow> bt_state \<Rightarrow> bt_state" where
  "evt_HCE_Common_Complete p s0 = (let s = reads p 6 s0;
       success = (at p 0 = CHR 0x0E \<and> event_opcode p = wOpCode s \<and> at p 5 = CHR 0x00)
     in s\<lparr>cmd_status := (if success then CMD_SUCCESS else CMD_FAIL)\<rparr>)"

definition evt_HCE_Get_Local_BD_Addr :: "bytes \<Rightarrow> bt_state \<Rightarrow> bt_state" where
  "evt_HCE_Get_Local_BD_Addr p s0 = (let s = reads p 12 s0;
       success = (at p 0 = CHR 0x0E \<and> event_opcode p = 0x1009 \<and> at p 5 = CHR 0x00);
       ucBDAddr = [at p 11, at p 10, at p 9, at p 8, at p 7, at p 6]
     in s\<lparr>bt_nvram := (bt_nvram s)\<lparr>addr := ucBDAddr\<rparr>, cmd_status := (if success then CMD_SUCCESS else CMD_FAIL)\<rparr>)"

definition HandleIncomingEvent :: "bytes \<Rightarrow> bt_state \<Rightarrow> bt_state" where
  "HandleIncomingEvent p s0 = (case internal_command s0 of
     None \<Rightarrow> s0\<lparr>forwarded := forwarded s0 @ [p]\<rparr>
   | Some (cb, opcode) \<Rightarrow> let s = reads p (if at p 0 = CHR 0x0E then 5 else 1) s0 in
       if \<not> internal_command_event_match p opcode then s\<lparr>forwarded := forwarded s @ [p]\<rparr>
       else (case cb of GORMevt_HCE_Get_Local_BD_Addr \<Rightarrow> evt_HCE_Get_Local_BD_Addr
             | GORMevt_HCE_Common_Complete \<Rightarrow> evt_HCE_Common_Complete) p (s\<lparr>internal_command := None\<rparr>))"

section \<open>The init thread\<close>

text \<open>
  One step of \<open>GORM_FW_Init_Thread\<close>; \<open>alloc\<close> says whether \<open>alloc_buffer\<close> gives a buffer.  \<open>None\<close>: the
  thread waits on the condition variable, or has exited.
\<close>

definition init_thread_step :: "(string \<Rightarrow> string) \<Rightarrow> bool \<Rightarrow> bt_state \<Rightarrow> bt_state option" where
  "init_thread_step property_get alloc s = (case pc s of
     Started \<Rightarrow>
       let s1 = s\<lparr>ucDefaultAddr := addr stBtDefault_6630\<rparr>;
           s2 = (if unset_addr s1 then s1\<lparr>fgGetEFUSE := True\<rparr> else s1)
       in Some (s2\<lparr>pc := Test (if fgGetEFUSE s2 then 0 else 1)\<rparr>)
   | Test i \<Rightarrow>
       if i < length bt_init_preload_script_6630 \<and> cmd_status s \<noteq> CMD_TERMINATE
       then Some (s\<lparr>pc := (if alloc then Lock i else Finish False)\<rparr>)
       else Some (s\<lparr>pc := Finish True\<rparr>)
   | Lock i \<Rightarrow>
       if cmd_status s \<noteq> CMD_TERMINATE then Some (s\<lparr>cmd_status := CMD_PENDING, pc := Command i\<rparr>)
       else Some (s\<lparr>pc := Finish True\<rparr>)
   | Command i \<Rightarrow>
       let (ok, t) = command_func property_get (bt_init_preload_script_6630 ! i) s
       in Some (t\<lparr>pc := (if ok then Await i else Finish False)\<rparr>)
   | Await i \<Rightarrow>
       if cmd_status s = CMD_PENDING then None
       else Some (s\<lparr>pc := (if cmd_status s = CMD_FAIL then Finish False else Test (i + 1))\<rparr>)
   | Finish r \<Rightarrow> Some (s\<lparr>configured := configured s @ [r], worker_thread_running := False, pc := Exited\<rparr>)
   | Exited \<Rightarrow> None)"

definition notify_thread_exit :: "bt_state \<Rightarrow> bt_state" where
  "notify_thread_exit s = s\<lparr>cmd_status := CMD_TERMINATE\<rparr>"

text \<open>The first half of \<open>BT_Cleanup\<close>; the second is the wait for the thread to exit.\<close>

definition BT_Cleanup :: "bt_state \<Rightarrow> bt_state" where
  "BT_Cleanup s = (if worker_thread_running s then notify_thread_exit s else s)"

text \<open>\<open>created\<close> says whether \<open>pthread_create\<close> succeeds.\<close>

definition BT_InitDevice :: "bool \<Rightarrow> bytes \<Rightarrow> bt_state \<Rightarrow> bool \<times> bt_state" where
  "BT_InitDevice created pucNvRamData s0 = (let s = s0\<lparr>worker_thread_running := False, bt_nvram := btradio_of pucNvRamData\<rparr> in
     if \<not> created then (False, s) else (True, s\<lparr>worker_thread_running := True, pc := Started\<rparr>))"

definition mtk_fw_cfg :: "plat \<Rightarrow> (nat \<Rightarrow> string) \<Rightarrow> bool \<Rightarrow> bt_state \<Rightarrow> int \<times> bt_state" where
  "mtk_fw_cfg P nvram_init created s0 = (let (ucNvRamData, w) = run_state (fw_cfg_data P nvram_init) (nv s0);
       (ok, s) = BT_InitDevice created ucNvRamData (s0\<lparr>nv := w\<rparr>)
     in (if ok then 0 else -1, s))"

section \<open>The interleaving\<close>

datatype bt_label = Thread bool | Event bytes | Cleanup

inductive bt_step :: "(string \<Rightarrow> string) \<Rightarrow> bt_state \<Rightarrow> bt_label \<Rightarrow> bt_state \<Rightarrow> bool" for property_get where
  step_thread: "init_thread_step property_get alloc s = Some t \<Longrightarrow> bt_step property_get s (Thread alloc) t"
| step_event: "bt_step property_get s (Event p) (HandleIncomingEvent p s)"
| step_cleanup: "bt_step property_get s Cleanup (BT_Cleanup s)"

inductive_cases thread_stepE: "bt_step property_get s (Thread alloc) t"
inductive_cases event_stepE: "bt_step property_get s (Event p) t"
inductive_cases cleanup_stepE: "bt_step property_get s Cleanup t"

text \<open>The state of the globals when the service is loaded.\<close>

definition bt_loaded :: "nv_globals world \<Rightarrow> bt_state" where
  "bt_loaded w = \<lparr>nv = w, bt_nvram = btradio_of (zeros BTRADIO_SIZE), wOpCode = 0, cmd_status = CMD_SUCCESS, fgGetEFUSE = False,
     ucDefaultAddr = zeros 6, worker_thread_running = False, pc = Exited, internal_command = None, sent = [], forwarded = [],
     configured = [], overread = False\<rparr>"

end
