(* ===== verification/RadioRun.thy ===== *)
theory RadioRun
  imports Radiomod "HOL-Library.Sublist"
begin

text \<open>
  What the configuration of the Bluetooth chip does under every interleaving of its thread with the
  events of the chip and the clean-up: the form of the commands, their order, the end of the thread.
\<close>

section \<open>The start\<close>

lemma read_short: "fst (run_state (sys_read fd n) w) = Some b \<Longrightarrow> length b \<le> n"
  by (auto simp: sys_read_def limit_def Let_def case_prod_unfold split: if_splits option.splits fault.splits)

lemma length_read_buf [simp]: "length (rd_buf (fst (run_state (sys_read fd n) w)) (garbage P n)) = n"
  by (cases "fst (run_state (sys_read fd n) w)") (auto dest: read_short)

text \<open>The thread is started on a full record, whatever the reading of the NVRAM comes to.\<close>

lemma length_fw_cfg_data: "length (fst (run_state (fw_cfg_data P nvram_init) w)) = BTRADIO_SIZE"
proof -
  have d: "length (btradio_raw stBtDefault_6630) = BTRADIO_SIZE" by (simp add: btradio_raw_def stBtDefault_6630_def zeros_def)
  have "length b = BTRADIO_SIZE" if "fst (run_state (bt_read_nvram P nvram_init) w) = Some b" for b
    using that by (auto simp: bt_read_nvram_def run_bind run_ret case_prod_unfold split: if_splits dest: read_short)
  then show ?thesis by (auto simp: fw_cfg_data_def run_bind run_ret case_prod_unfold d split: option.splits)
qed

lemma mtk_fw_cfg_start:
  obtains data w' where "snd (mtk_fw_cfg P nvram_init True s) = snd (BT_InitDevice True data (s\<lparr>nv := w'\<rparr>))" "length data = BTRADIO_SIZE"
    "data = fst (run_state (fw_cfg_data P nvram_init) (nv s))"
  using length_fw_cfg_data [of P nvram_init "nv s"] that by (simp add: mtk_fw_cfg_def case_prod_unfold Let_def)

section \<open>Commands\<close>

definition opcode_of :: "hci_seq \<Rightarrow> u16" where
  "opcode_of c = (case c of HCC_Get_Local_BD_Addr \<Rightarrow> 0x1009 | HCC_Set_Local_BD_Addr \<Rightarrow> 0xFC1A
     | HCC_Set_PCM \<Rightarrow> 0xFC72 | HCC_Set_Radio \<Rightarrow> 0xFC79 | HCC_Set_TX_Power_Offset \<Rightarrow> 0xFC93
     | HCC_Set_Sleep_Timeout \<Rightarrow> 0xFC7A | HCC_Coex_Performance_Adjust \<Rightarrow> 0xFC22
     | HCC_Set_FW_SysLog \<Rightarrow> 0xFCBE | HCC_Set_SSP_Debug_Mode \<Rightarrow> 0x1804)"

text \<open>An HCI command: opcode, parameter count, parameters; it fits the buffer of the thread.\<close>

definition hci_command_ok :: "bytes \<Rightarrow> bool" where
  "hci_command_ok p \<longleftrightarrow> 3 \<le> length p \<and> length p \<le> 251 \<and> length p = 3 + of_char (p ! 2)"

definition radio_ok :: "btradio \<Rightarrow> bool" where
  "radio_ok r \<longleftrightarrow> length (addr r) = 6 \<and> length (Codec r) = 4 \<and> length (Radio r) = 6 \<and> length (Sleep r) = 7 \<and>
     length (TxPWOffset r) = 3 \<and> length (CoexAdjust r) = 6"

lemma radio_ok_of: "length raw = 64 \<Longrightarrow> radio_ok (btradio_of raw)"
  by (simp add: radio_ok_def btradio_of_def Let_def)

lemma length_addr: "length (addr r) = 6 \<Longrightarrow> rev (addr r) = [addr r ! 5, addr r ! 4, addr r ! 3, addr r ! 2, addr r ! 1, addr r ! 0]"
  by (auto simp: numeral_eq_Suc length_Suc_conv)

text \<open>What a command function does to the state: one packet more, its opcode outstanding.\<close>

lemma command_func_effect:
  assumes "radio_ok (bt_nvram s)"
  obtains p t where "command_func pg c s = (True, t)" "hci_command_ok p" "un16 p = opcode_of c" "sent t = sent s @ [p]"
    "internal_command t = Some (if c = HCC_Get_Local_BD_Addr then GORMevt_HCE_Get_Local_BD_Addr
       else GORMevt_HCE_Common_Complete, opcode_of c)"
    "wOpCode t = opcode_of c" "bt_nvram t = bt_nvram s" "cmd_status t = cmd_status s" "configured t = configured s"
    "worker_thread_running t = worker_thread_running s"
proof
  let ?t = "snd (command_func pg c s)" and ?p = "last (sent (snd (command_func pg c s)))"
  note d = command_defs transmit_old_def Let_def
  show "command_func pg c s = (True, ?t)" by (cases c) (simp_all add: d)
  show "hci_command_ok ?p" using assms by (cases c) (simp_all add: d hci_command_ok_def radio_ok_def nth_append)
  show "un16 ?p = opcode_of c" by (cases c) (simp_all add: d opcode_of_def)
  show "sent ?t = sent s @ [?p]" by (cases c) (simp_all add: d)
  show "internal_command ?t = Some (if c = HCC_Get_Local_BD_Addr then GORMevt_HCE_Get_Local_BD_Addr
       else GORMevt_HCE_Common_Complete, opcode_of c)" by (cases c) (simp_all add: d opcode_of_def)
  show "wOpCode ?t = opcode_of c" by (cases c) (simp_all add: d opcode_of_def)
  show "bt_nvram ?t = bt_nvram s" by (cases c) (simp_all add: d)
  show "cmd_status ?t = cmd_status s" by (cases c) (simp_all add: d)
  show "configured ?t = configured s" by (cases c) (simp_all add: d)
  show "worker_thread_running ?t = worker_thread_running s" by (cases c) (simp_all add: d)
qed

lemma event_effect:
  "sent (HandleIncomingEvent p s) = sent s" "pc (HandleIncomingEvent p s) = pc s"
  "configured (HandleIncomingEvent p s) = configured s" "worker_thread_running (HandleIncomingEvent p s) = worker_thread_running s"
  "wOpCode (HandleIncomingEvent p s) = wOpCode s" "fgGetEFUSE (HandleIncomingEvent p s) = fgGetEFUSE s"
  "ucDefaultAddr (HandleIncomingEvent p s) = ucDefaultAddr s" "nv (HandleIncomingEvent p s) = nv s"
  by (simp_all add: HandleIncomingEvent_def evt_HCE_Common_Complete_def evt_HCE_Get_Local_BD_Addr_def reads_def Let_def
      split: option.splits int_cmd_cback.splits)

lemma event_radio_ok: "radio_ok (bt_nvram s) \<Longrightarrow> radio_ok (bt_nvram (HandleIncomingEvent p s))"
  by (simp add: HandleIncomingEvent_def evt_HCE_Common_Complete_def evt_HCE_Get_Local_BD_Addr_def reads_def radio_ok_def Let_def
      split: option.splits int_cmd_cback.splits)

lemma cleanup_effect:
  "sent (BT_Cleanup s) = sent s" "pc (BT_Cleanup s) = pc s" "configured (BT_Cleanup s) = configured s"
  "bt_nvram (BT_Cleanup s) = bt_nvram s" "internal_command (BT_Cleanup s) = internal_command s"
  "worker_thread_running (BT_Cleanup s) = worker_thread_running s"
  by (simp_all add: BT_Cleanup_def notify_thread_exit_def)

lemma thread_commands_ok:
  assumes "init_thread_step pg alloc s = Some t" and "radio_ok (bt_nvram s) \<and> list_all hci_command_ok (sent s)"
  shows "radio_ok (bt_nvram t) \<and> list_all hci_command_ok (sent t)"
proof (cases "\<exists>i. pc s = Command i")
  case True
  then obtain i where i: "pc s = Command i" by blast
  have r: "radio_ok (bt_nvram s)" using assms(2) by simp
  obtain p u where "command_func pg (bt_init_preload_script_6630 ! i) s = (True, u)" "hci_command_ok p"
    "sent u = sent s @ [p]" "bt_nvram u = bt_nvram s"
    by (rule command_func_effect [OF r, of pg "bt_init_preload_script_6630 ! i"]) blast
  then show ?thesis using assms i by (auto simp: init_thread_step_def)
next
  case False
  then show ?thesis using assms by (auto simp: init_thread_step_def Let_def split: init_pc.splits if_splits)
qed

text \<open>
  C40.  Every command the thread ever sends is a well-formed HCI command that fits its buffer: its
  third byte is the number of parameters that follow, under every interleaving of the thread, the
  events of the chip (well formed or not) and the clean-up.
\<close>

theorem init_commands_well_formed:
  assumes "list_all hci_command_ok (sent s)" and "runs (bt_step pg) (snd (mtk_fw_cfg P nvram_init True s)) ls t"
  shows "list_all hci_command_ok (sent t)"
proof -
  obtain data w' where m: "snd (mtk_fw_cfg P nvram_init True s) = snd (BT_InitDevice True data (s\<lparr>nv := w'\<rparr>))" "length data = BTRADIO_SIZE"
    by (rule mtk_fw_cfg_start)
  have "radio_ok (bt_nvram t) \<and> list_all hci_command_ok (sent t)"
  proof (rule runs_history [OF assms(2), of "\<lambda>A s. radio_ok (bt_nvram s) \<and> list_all hci_command_ok (sent s)" "[]" "\<lambda>_. []"])
    show "radio_ok (bt_nvram (snd (mtk_fw_cfg P nvram_init True s))) \<and> list_all hci_command_ok (sent (snd (mtk_fw_cfg P nvram_init True s)))"
      using assms(1) m(2) by (simp add: m(1) BT_InitDevice_def radio_ok_of)
  next
    fix A :: "unit list" and s l t
    assume a: "radio_ok (bt_nvram s) \<and> list_all hci_command_ok (sent s)" and st: "bt_step pg s l t"
    from st show "radio_ok (bt_nvram t) \<and> list_all hci_command_ok (sent t)"
      by (cases rule: bt_step.cases) (use a thread_commands_ok in \<open>simp_all add: event_effect event_radio_ok cleanup_effect\<close>)
  qed
  then show ?thesis ..
qed

section \<open>Order\<close>

definition script_ops :: "u16 list" where
  "script_ops = map opcode_of bt_init_preload_script_6630"

text \<open>Which command a start begins with, and the successful answers of a run.\<close>

definition first_command :: "bt_state \<Rightarrow> nat" where
  "first_command s = (if fgGetEFUSE s \<or> addr (bt_nvram s) = addr stBtDefault_6630 \<or> addr (bt_nvram s) = zeros 6 then 0 else 1)"

definition good_answers :: "bt_label \<Rightarrow> u16 list" where
  "good_answers l = (case l of Event p \<Rightarrow> if at p 0 = CHR 0x0E \<and> at p 5 = CHR 0x00 then [event_opcode p] else [] | _ \<Rightarrow> [])"

text \<open>
  \<open>n\<close> commands of \<open>ops\<close> have been sent and the first \<open>m\<close> of them answered with success by the
  answers \<open>A\<close>.
\<close>

definition progress :: "u16 list \<Rightarrow> u16 list \<Rightarrow> bt_state \<Rightarrow> nat \<Rightarrow> nat \<Rightarrow> bool" where
  "progress ops A s n m \<longleftrightarrow> n \<le> length ops \<and> map un16 (sent s) = take n ops \<and> subseq (take m ops) A"

definition outcome :: "nat \<Rightarrow> u16 list \<Rightarrow> bt_state \<Rightarrow> bool \<Rightarrow> bool" where
  "outcome k A s r \<longleftrightarrow> (if r then progress (drop k script_ops) A s (9 - k) (9 - k)
     else \<exists>n. progress (drop k script_ops) A s n (n - 1))"

definition script_inv :: "nat \<Rightarrow> u16 list \<Rightarrow> bt_state \<Rightarrow> bool" where
  "script_inv k A s \<longleftrightarrow> radio_ok (bt_nvram s) \<and> cmd_status s \<noteq> CMD_TERMINATE \<and>
     (let ops = drop k script_ops in case pc s of
       Started \<Rightarrow> first_command s = k \<and> sent s = [] \<and> internal_command s = None \<and> configured s = []
     | Test i \<Rightarrow> k \<le> i \<and> i \<le> 9 \<and> progress ops A s (i - k) (i - k) \<and> internal_command s = None \<and> configured s = []
     | Lock i \<Rightarrow> k \<le> i \<and> i < 9 \<and> progress ops A s (i - k) (i - k) \<and> internal_command s = None \<and> configured s = []
     | Command i \<Rightarrow> k \<le> i \<and> i < 9 \<and> progress ops A s (i - k) (i - k) \<and> internal_command s = None \<and> configured s = [] \<and>
         cmd_status s = CMD_PENDING
     | Await i \<Rightarrow> k \<le> i \<and> i < 9 \<and> progress ops A s (i + 1 - k) (i - k) \<and> configured s = [] \<and>
         wOpCode s = script_ops ! i \<and>
         (case cmd_status s of
           CMD_PENDING \<Rightarrow> internal_command s = Some (if i = 0 then GORMevt_HCE_Get_Local_BD_Addr else GORMevt_HCE_Common_Complete,
             script_ops ! i)
         | CMD_SUCCESS \<Rightarrow> internal_command s = None \<and> progress ops A s (i + 1 - k) (i + 1 - k)
         | _ \<Rightarrow> internal_command s = None)
     | Finish r \<Rightarrow> internal_command s = None \<and> configured s = [] \<and> outcome k A s r
     | Exited \<Rightarrow> internal_command s = None \<and> length (configured s) = 1 \<and> outcome k A s (hd (configured s)))"

lemma length_script: "length bt_init_preload_script_6630 = 9" "length script_ops = 9"
  by (simp_all add: bt_init_preload_script_6630_def script_ops_def)

lemma script_op: "i < 9 \<Longrightarrow> opcode_of (bt_init_preload_script_6630 ! i) = script_ops ! i"
  by (simp add: script_ops_def length_script)

lemma script_first: "i < 9 \<Longrightarrow> bt_init_preload_script_6630 ! i = HCC_Get_Local_BD_Addr \<longleftrightarrow> i = 0"
proof -
  assume "i < 9"
  then have "i \<in> {0, 1, 2, 3, 4, 5, 6, 7, 8}" by auto
  then show ?thesis by (auto simp: bt_init_preload_script_6630_def)
qed

lemma script_op_0: "script_ops ! 0 = 0x1009"
  by (simp add: script_ops_def bt_init_preload_script_6630_def opcode_of_def)

lemma take_ops: "k \<le> i \<Longrightarrow> i < 9 \<Longrightarrow> take (i + 1 - k) (drop k script_ops) = take (i - k) (drop k script_ops) @ [script_ops ! i]"
  by (simp add: Suc_diff_le take_Suc_conv_app_nth length_script)

lemma progress_less:
  assumes "progress ops A s n m" and "l \<le> m"
  shows "progress ops A s n l"
proof -
  have "take l ops = take l (take m ops)" using assms(2) by (simp add: min_def)
  then have "subseq (take l ops) (take m ops)" by (metis prefix_imp_subseq take_is_prefix)
  then show ?thesis using assms(1) subseq_order.trans by (auto simp: progress_def)
qed

lemma progress_upd [simp]:
  "progress ops A (s\<lparr>pc := x\<rparr>) n m = progress ops A s n m" "progress ops A (s\<lparr>cmd_status := y\<rparr>) n m = progress ops A s n m"
  "progress ops A (s\<lparr>configured := z\<rparr>) n m = progress ops A s n m"
  "progress ops A (s\<lparr>worker_thread_running := v\<rparr>) n m = progress ops A s n m"
  by (simp_all add: progress_def)

lemma outcome_upd [simp]:
  "outcome k A (s\<lparr>pc := x\<rparr>) r = outcome k A s r" "outcome k A (s\<lparr>configured := z\<rparr>) r = outcome k A s r"
  "outcome k A (s\<lparr>worker_thread_running := v\<rparr>) r = outcome k A s r"
  by (simp_all add: outcome_def)

lemma outcome_success: "progress (drop k script_ops) A s (9 - k) (9 - k) \<Longrightarrow> outcome k A s True"
  by (simp add: outcome_def)

lemma outcome_failure: "progress (drop k script_ops) A s n (n - 1) \<Longrightarrow> outcome k A s False"
  by (auto simp: outcome_def)

lemma progress_later: "progress ops A s n m \<Longrightarrow> sent t = sent s \<Longrightarrow> progress ops (A @ B) t n m"
  by (auto simp: progress_def)

lemma progress_sent:
  "k \<le> i \<Longrightarrow> i < 9 \<Longrightarrow> progress (drop k script_ops) A s (i - k) m \<Longrightarrow> sent t = sent s @ [p] \<Longrightarrow> un16 p = script_ops ! i \<Longrightarrow>
   progress (drop k script_ops) A t (i + 1 - k) m"
  using take_ops [of k i] by (simp add: progress_def length_script)

lemma progress_answered:
  assumes "k \<le> i" and "i < 9" and "progress (drop k script_ops) A s n (i - k)" and "sent t = sent s"
  shows "progress (drop k script_ops) (A @ [script_ops ! i]) t n (i + 1 - k)"
proof -
  have "subseq (take (i - k) (drop k script_ops) @ [script_ops ! i]) (A @ [script_ops ! i])"
    by (rule list_emb_append_mono) (use assms(3) in \<open>auto simp: progress_def\<close>)
  then show ?thesis using assms(3,4) take_ops [OF assms(1,2)] by (simp add: progress_def)
qed

lemma script_inv_command:
  assumes "script_inv k A s" and "pc s = Command i" and "init_thread_step pg alloc s = Some t"
  shows "script_inv k A t"
proof -
  let ?c = "bt_init_preload_script_6630 ! i"
  have a: "radio_ok (bt_nvram s)" "cmd_status s = CMD_PENDING" "k \<le> i" "i < 9" "configured s = []"
    "progress (drop k script_ops) A s (i - k) (i - k)"
    using assms(1,2) by (simp_all add: script_inv_def Let_def)
  obtain p u where u: "command_func pg ?c s = (True, u)" "un16 p = opcode_of ?c" "sent u = sent s @ [p]"
    "internal_command u = Some (if ?c = HCC_Get_Local_BD_Addr then GORMevt_HCE_Get_Local_BD_Addr
       else GORMevt_HCE_Common_Complete, opcode_of ?c)"
    "wOpCode u = opcode_of ?c" "bt_nvram u = bt_nvram s" "cmd_status u = cmd_status s" "configured u = configured s"
    by (rule command_func_effect [OF a(1), of pg ?c]) blast
  have t: "t = u\<lparr>pc := Await i\<rparr>" using assms(2,3) u(1) by (simp add: init_thread_step_def)
  have "progress (drop k script_ops) A t (i + 1 - k) (i - k)"
    by (rule progress_sent [OF a(3,4,6), of _ p]) (use u(2,3) script_op [OF a(4)] in \<open>simp_all add: t\<close>)
  then show ?thesis using a u by (simp add: script_inv_def t script_op script_first)
qed

lemma script_inv_thread:
  assumes "script_inv k A s" and "k \<le> 9" and "init_thread_step pg alloc s = Some t"
  shows "script_inv k A t"
proof (cases "pc s")
  case (Command i)
  then show ?thesis by (rule script_inv_command [OF assms(1) _ assms(3)])
next
  case Started
  then show ?thesis
    using assms
    by (auto simp: script_inv_def init_thread_step_def Let_def first_command_def unset_addr_def progress_def split: if_splits)
next
  case (Test i)
  have i: "k \<le> i" "i \<le> 9" "progress (drop k script_ops) A s (i - k) (i - k)"
    using assms(1) Test by (simp_all add: script_inv_def Let_def)
  have f: "outcome k A s False"
    by (rule outcome_failure [OF progress_less [OF i(3)]]) simp
  show ?thesis
  proof (cases "i < 9")
    case True
    then show ?thesis
      using assms Test i f by (auto simp: script_inv_def init_thread_step_def Let_def length_script split: if_splits)
  next
    case False
    then have "i = 9" using i(2) by simp
    then show ?thesis
      using assms Test i by (auto simp: script_inv_def init_thread_step_def Let_def length_script intro: outcome_success)
  qed
next
  case (Lock i)
  then show ?thesis
    using assms by (auto simp: script_inv_def init_thread_step_def Let_def split: if_splits)
next
  case (Await i)
  have "outcome k A s False" if "k \<le> i" "progress (drop k script_ops) A s (i + 1 - k) (i - k)"
    using outcome_failure [of k A s "i + 1 - k"] that by simp
  then show ?thesis
    using assms Await by (auto simp: script_inv_def init_thread_step_def Let_def split: if_splits hci_cmd_status.splits)
next
  case (Finish r)
  then show ?thesis using assms by (cases r) (auto simp: script_inv_def init_thread_step_def Let_def)
next
  case Exited
  then show ?thesis using assms by (simp add: init_thread_step_def)
qed

text \<open>An event changes something only when it answers the outstanding command.\<close>

lemma event_ignored:
  assumes "\<forall>cb opc. internal_command s = Some (cb, opc) \<longrightarrow> \<not> internal_command_event_match p opc"
  shows "cmd_status (HandleIncomingEvent p s) = cmd_status s" "bt_nvram (HandleIncomingEvent p s) = bt_nvram s"
    "internal_command (HandleIncomingEvent p s) = internal_command s"
  using assms by (auto simp: HandleIncomingEvent_def reads_def Let_def split: option.splits)

lemma event_answers:
  assumes "internal_command s = Some (cb, opc)" and "internal_command_event_match p opc"
    and "cb = GORMevt_HCE_Get_Local_BD_Addr \<Longrightarrow> opc = 0x1009" and "cb = GORMevt_HCE_Common_Complete \<Longrightarrow> wOpCode s = opc"
  shows "cmd_status (HandleIncomingEvent p s) = (if at p 5 = CHR 0x00 then CMD_SUCCESS else CMD_FAIL)"
    and "internal_command (HandleIncomingEvent p s) = None"
    and "good_answers (Event p) = (if at p 5 = CHR 0x00 then [opc] else [])"
  using assms
  by (cases cb; auto simp: HandleIncomingEvent_def reads_def Let_def internal_command_event_match_def evt_HCE_Common_Complete_def
      evt_HCE_Get_Local_BD_Addr_def good_answers_def)+

lemma progress_event [simp]: "progress ops A (HandleIncomingEvent p s) n m = progress ops A s n m"
  by (simp add: progress_def event_effect)

lemma progress_append: "progress ops A s n m \<Longrightarrow> progress ops (A @ B) s n m"
  by (auto simp: progress_def)

lemma outcome_append: "outcome k A s r \<Longrightarrow> outcome k (A @ B) s r"
  by (auto simp: outcome_def intro: progress_append split: if_splits)

lemma script_inv_more: "script_inv k A s \<Longrightarrow> script_inv k (A @ B) s"
  by (cases "pc s")
    (auto simp: script_inv_def Let_def intro: progress_append outcome_append split: hci_cmd_status.splits)

text \<open>The invariant looks at these fields only.\<close>

lemma script_inv_fields:
  assumes "sent t = sent s" "pc t = pc s" "configured t = configured s" "cmd_status t = cmd_status s" "wOpCode t = wOpCode s"
    "bt_nvram t = bt_nvram s" "internal_command t = internal_command s" "fgGetEFUSE t = fgGetEFUSE s" and "script_inv k A s"
  shows "script_inv k A t"
  using assms(9) unfolding script_inv_def first_command_def outcome_def progress_def assms(1-8) .

lemma script_inv_event:
  assumes "script_inv k A s" and "k \<le> 9"
  shows "script_inv k (A @ good_answers (Event p)) (HandleIncomingEvent p s)"
proof (cases "\<exists>cb opc. internal_command s = Some (cb, opc) \<and> internal_command_event_match p opc")
  case False
  then have i: "\<forall>cb opc. internal_command s = Some (cb, opc) \<longrightarrow> \<not> internal_command_event_match p opc" by blast
  have "script_inv k A (HandleIncomingEvent p s)"
    by (rule script_inv_fields [OF _ _ _ _ _ _ _ _ assms(1)]) (simp_all add: event_effect event_ignored [OF i])
  then show ?thesis by (rule script_inv_more)
next
  case True
  then obtain cb opc where c: "internal_command s = Some (cb, opc)" and m: "internal_command_event_match p opc" by blast
  from assms(1) c obtain i where i: "pc s = Await i" "cmd_status s = CMD_PENDING"
    by (auto simp: script_inv_def Let_def split: init_pc.splits hci_cmd_status.splits)
  have a: "radio_ok (bt_nvram s)" "k \<le> i" "i < 9" "progress (drop k script_ops) A s (i + 1 - k) (i - k)" "configured s = []"
    "wOpCode s = script_ops ! i"
    "cb = (if i = 0 then GORMevt_HCE_Get_Local_BD_Addr else GORMevt_HCE_Common_Complete)" "opc = script_ops ! i"
    using assms(1) i c by (auto simp: script_inv_def Let_def)
  have "cb = GORMevt_HCE_Get_Local_BD_Addr \<Longrightarrow> opc = 0x1009" "cb = GORMevt_HCE_Common_Complete \<Longrightarrow> wOpCode s = opc"
    using a script_op_0 by (auto split: if_splits)
  note e = event_answers [OF c m this]
  have g: "progress (drop k script_ops) (A @ [opc]) s (i + 1 - k) (i + 1 - k)"
    using progress_answered [OF a(2-4) refl] by (simp add: a(8))
  show ?thesis
    using a(1-6) e g progress_append [OF a(4)] i
    by (simp add: script_inv_def event_effect event_radio_ok Let_def)
qed

lemma script_inv_step:
  assumes "script_inv k A s" and "k \<le> 9" and "bt_step pg s l t" and "l \<noteq> Cleanup"
  shows "script_inv k (A @ good_answers l) t"
  using assms(3)
proof cases
  case (step_thread alloc)
  have "script_inv k A t" by (rule script_inv_thread [OF assms(1,2) step_thread(2)])
  then show ?thesis by (simp add: step_thread(1) good_answers_def)
next
  case (step_event p)
  then show ?thesis using script_inv_event [OF assms(1,2)] by simp
next
  case step_cleanup
  then show ?thesis using assms(4) by simp
qed

text \<open>Wherever the thread is, at most the last command sent is without a good answer.\<close>

lemma script_inv_progress:
  assumes t: "script_inv k A t"
  obtains n m where "progress (drop k script_ops) A t n m" "n \<le> m + 1"
    "configured t = [True] \<Longrightarrow> n = 9 - k \<and> m = 9 - k" "length (configured t) \<le> 1"
proof (cases "pc t")
  case Started
  then show ?thesis using t that [of 0 0] by (simp add: script_inv_def progress_def)
next
  case (Test i)
  then show ?thesis using t that [of "i - k" "i - k"] by (simp add: script_inv_def Let_def)
next
  case (Lock i)
  then show ?thesis using t that [of "i - k" "i - k"] by (simp add: script_inv_def Let_def)
next
  case (Command i)
  then show ?thesis using t that [of "i - k" "i - k"] by (simp add: script_inv_def Let_def)
next
  case (Await i)
  then show ?thesis using t that [of "i + 1 - k" "i - k"] by (simp add: script_inv_def Let_def)
next
  case (Finish r)
  then show ?thesis
    using t that [of "9 - k" "9 - k"] that by (cases r) (auto simp: script_inv_def outcome_def)
next
  case Exited
  then have e: "length (configured t) = 1" "outcome k A t (hd (configured t))"
    using t by (simp_all add: script_inv_def)
  show ?thesis
  proof (cases "hd (configured t)")
    case True
    then show ?thesis using e that [of "9 - k" "9 - k"] by (simp add: outcome_def)
  next
    case False
    then obtain n where "progress (drop k script_ops) A t n (n - 1)"
      using e by (auto simp: outcome_def)
    moreover have "configured t \<noteq> [True]" using False by auto
    ultimately show ?thesis using e by (intro that [of n "n - 1"]) auto
  qed
qed

text \<open>
  C5.  The commands go out in the order of the script, each one only after the chip has answered
  all earlier ones with success, and success is reported only when the whole script has been
  answered with success: whatever events the chip sends and however they interleave with the
  thread, as long as no clean-up comes in between.
\<close>

theorem init_script_in_order:
  assumes "cmd_status s \<noteq> CMD_TERMINATE" and "internal_command s = None" and "sent s = []" and "configured s = []"
    and "runs (bt_step pg) (snd (mtk_fw_cfg P nvram_init True s)) ls t" and "Cleanup \<notin> set ls"
  shows "let script = drop (first_command (snd (mtk_fw_cfg P nvram_init True s))) script_ops; n = length (sent t);
      answers = concat (map good_answers ls) in
    map un16 (sent t) = take n script \<and> subseq (take (n - 1) script) answers \<and> length (configured t) \<le> 1 \<and>
    (configured t = [True] \<longrightarrow> n = length script \<and> subseq script answers)"
proof -
  obtain data w' where m: "snd (mtk_fw_cfg P nvram_init True s) = snd (BT_InitDevice True data (s\<lparr>nv := w'\<rparr>))" "length data = BTRADIO_SIZE"
    by (rule mtk_fw_cfg_start)
  let ?s = "snd (mtk_fw_cfg P nvram_init True s)" and ?k = "first_command (snd (mtk_fw_cfg P nvram_init True s))"
  have k: "?k \<le> 9" by (simp add: first_command_def)
  have start: "script_inv ?k [] ?s"
    using assms(1-4) m(2) by (simp add: m(1) script_inv_def BT_InitDevice_def radio_ok_of)
  have r: "runs (\<lambda>s l t. bt_step pg s l t \<and> l \<noteq> Cleanup) ?s ls t"
    by (rule runs_restrict [OF assms(5)]) (use assms(6) in auto)
  have "script_inv ?k ([] @ concat (map good_answers ls)) t"
    by (rule runs_history [OF r, of "script_inv ?k", OF start]) (use script_inv_step [OF _ k] in blast)
  then have t: "script_inv ?k (concat (map good_answers ls)) t" by simp
  obtain n m where p: "progress (drop ?k script_ops) (concat (map good_answers ls)) t n m" "n \<le> m + 1"
    "configured t = [True] \<Longrightarrow> n = 9 - ?k \<and> m = 9 - ?k" "length (configured t) \<le> 1"
    using script_inv_progress [OF t] by blast
  have n: "length (sent t) = n" using p(1) unfolding progress_def by (metis length_map length_take min.absorb2)
  have "progress (drop ?k script_ops) (concat (map good_answers ls)) t n (n - 1)"
    by (rule progress_less [OF p(1)]) (use p(2) in simp)
  then show ?thesis using p by (auto simp: n progress_def length_script)
qed

section \<open>The end of the thread\<close>

text \<open>How many steps the thread has left at most.\<close>

definition steps_left :: "init_pc \<Rightarrow> nat" where
  "steps_left p = (case p of Started \<Rightarrow> 39 | Test i \<Rightarrow> 4 * (9 - i) + 2 | Lock i \<Rightarrow> 4 * (9 - i) + 1 | Command i \<Rightarrow> 4 * (9 - i)
     | Await i \<Rightarrow> 4 * (9 - i) - 1 | Finish _ \<Rightarrow> 1 | Exited \<Rightarrow> 0)"

definition thread_inv :: "bt_state \<Rightarrow> bool" where
  "thread_inv s \<longleftrightarrow> radio_ok (bt_nvram s) \<and> (pc s \<noteq> Exited \<longrightarrow> worker_thread_running s) \<and> (case pc s of
     Test i \<Rightarrow> i \<le> 9 | Lock i \<Rightarrow> i < 9 | Command i \<Rightarrow> i < 9
   | Await i \<Rightarrow> i < 9 \<and> (cmd_status s = CMD_PENDING \<longrightarrow> internal_command s \<noteq> None) | _ \<Rightarrow> True)"

definition thread_cost :: "bt_label \<Rightarrow> nat" where
  "thread_cost l = (case l of Thread _ \<Rightarrow> 1 | _ \<Rightarrow> 0)"

lemma thread_inv_step:
  assumes "thread_inv s" and "init_thread_step pg alloc s = Some t"
  shows "thread_inv t \<and> steps_left (pc t) + 1 \<le> steps_left (pc s)"
proof (cases "\<exists>i. pc s = Command i")
  case True
  then obtain i where i: "pc s = Command i" "i < 9" using assms(1) by (auto simp: thread_inv_def)
  let ?c = "bt_init_preload_script_6630 ! i"
  have r: "radio_ok (bt_nvram s)" using assms(1) by (simp add: thread_inv_def)
  obtain p u where "command_func pg ?c s = (True, u)" "internal_command u \<noteq> None" "bt_nvram u = bt_nvram s"
    "worker_thread_running u = worker_thread_running s"
    by (rule command_func_effect [OF r, of pg ?c]) auto
  then show ?thesis using assms i by (auto simp: init_thread_step_def thread_inv_def steps_left_def)
next
  case False
  then show ?thesis
    using assms
    by (auto simp: init_thread_step_def thread_inv_def steps_left_def length_script Let_def split: init_pc.splits if_splits)
qed

lemma event_awaited:
  "cmd_status (HandleIncomingEvent p s) = CMD_PENDING \<Longrightarrow>
   cmd_status s = CMD_PENDING \<and> internal_command (HandleIncomingEvent p s) = internal_command s"
  by (auto simp: HandleIncomingEvent_def evt_HCE_Common_Complete_def evt_HCE_Get_Local_BD_Addr_def reads_def Let_def
      split: option.splits int_cmd_cback.splits if_splits)

lemma thread_inv_bt_step:
  assumes "thread_inv s" and "bt_step pg s l t"
  shows "thread_inv t \<and> steps_left (pc t) + thread_cost l \<le> steps_left (pc s)"
  using assms(2)
proof cases
  case (step_thread alloc)
  then show ?thesis using thread_inv_step [OF assms(1)] by (simp add: thread_cost_def)
next
  case (step_event p)
  then show ?thesis
    using assms(1) event_awaited [of p s]
    by (auto simp: thread_inv_def thread_cost_def event_effect event_radio_ok split: init_pc.splits)
next
  case step_cleanup
  then show ?thesis
    using assms(1) by (auto simp: thread_inv_def thread_cost_def BT_Cleanup_def notify_thread_exit_def split: init_pc.splits)
qed

lemma answer_wakes:
  "internal_command s = Some (cb, opc) \<Longrightarrow> internal_command_event_match p opc \<Longrightarrow>
   cmd_status (HandleIncomingEvent p s) \<noteq> CMD_PENDING"
  by (auto simp: HandleIncomingEvent_def evt_HCE_Common_Complete_def evt_HCE_Get_Local_BD_Addr_def reads_def Let_def
      split: int_cmd_cback.splits)

lemma thread_progress:
  "pc s \<noteq> Exited \<Longrightarrow> \<not> (\<exists>i. pc s = Await i \<and> cmd_status s = CMD_PENDING) \<Longrightarrow> \<exists>t. init_thread_step pg alloc s = Some t"
  by (auto simp: init_thread_step_def Let_def case_prod_unfold split: init_pc.splits)

text \<open>
  C11.  The thread ends: whatever events come and whenever the clean-up is called, it makes at most
  39 steps, and as long as it has not exited it can make one, unless it waits for the answer to the
  command it has sent; then every answer to this command and the clean-up let it go on.
\<close>

theorem init_thread_terminates:
  assumes "runs (bt_step pg) (snd (mtk_fw_cfg P nvram_init True s)) ls t"
  shows "length (filter (\<lambda>l. \<exists>alloc. l = Thread alloc) ls) \<le> 39 \<and>
    (pc t = Exited \<or> (\<exists>u. bt_step pg t (Thread True) u) \<or>
     (\<exists>cb opc. internal_command t = Some (cb, opc) \<and>
        (\<forall>p. internal_command_event_match p opc \<longrightarrow> (\<exists>u. bt_step pg (HandleIncomingEvent p t) (Thread True) u)) \<and>
        (\<exists>u. bt_step pg (BT_Cleanup t) (Thread True) u)))"
proof -
  obtain data w' where m: "snd (mtk_fw_cfg P nvram_init True s) = snd (BT_InitDevice True data (s\<lparr>nv := w'\<rparr>))" "length data = BTRADIO_SIZE"
    by (rule mtk_fw_cfg_start)
  have start: "thread_inv (snd (mtk_fw_cfg P nvram_init True s))" using m(2) by (simp add: m(1) thread_inv_def BT_InitDevice_def radio_ok_of)
  have "thread_inv t \<and> steps_left (pc t) + sum_list (map thread_cost ls) \<le> steps_left (pc (snd (mtk_fw_cfg P nvram_init True s)))"
    by (rule runs_measure [OF assms, of thread_inv "\<lambda>s. steps_left (pc s)", OF start]) (rule thread_inv_bt_step)
  then have t: "thread_inv t" "sum_list (map thread_cost ls) \<le> 39" by (simp_all add: m(1) BT_InitDevice_def Let_def steps_left_def)
  have "sum_list (map thread_cost ls) = length (filter (\<lambda>l. \<exists>alloc. l = Thread alloc) ls)" for ls
    by (induction ls) (auto simp: thread_cost_def split: bt_label.splits)
  with t(2) have n: "length (filter (\<lambda>l. \<exists>alloc. l = Thread alloc) ls) \<le> 39" by simp
  have go: "\<exists>u. bt_step pg v (Thread True) u"
    if "pc v \<noteq> Exited" "\<not> (\<exists>i. pc v = Await i \<and> cmd_status v = CMD_PENDING)" for v
    using thread_progress [OF that, of pg True] by (auto intro: step_thread)
  show ?thesis
  proof (cases "\<exists>i. pc t = Await i \<and> cmd_status t = CMD_PENDING")
    case True
    then obtain cb opc where c: "internal_command t = Some (cb, opc)" using t(1) by (auto simp: thread_inv_def)
    have "\<exists>u. bt_step pg (HandleIncomingEvent p t) (Thread True) u" if "internal_command_event_match p opc" for p
      by (rule go) (use True answer_wakes [OF c that] in \<open>auto simp: event_effect\<close>)
    moreover have "\<exists>u. bt_step pg (BT_Cleanup t) (Thread True) u"
      by (rule go) (use True t(1) in \<open>auto simp: thread_inv_def BT_Cleanup_def notify_thread_exit_def\<close>)
    ultimately show ?thesis using n c by blast
  next
    case False
    then show ?thesis using n go by blast
  qed
qed

end
