(* ===== verification/RadioStore.thy ===== *)
theory RadioStore
  imports RadioRun OpenClose
begin

text \<open>
  The radio module on top of the NVRAM library: the record that is stored for the Bluetooth address
  is the one the chip is configured with.  The second part shows what the clean-up does to a start
  that is under way and to the next one.
\<close>

section \<open>Reading the record\<close>

lemma nvram_ready_by: "k < fuel \<Longrightarrow> f (n + k) = ''Ready'' \<Longrightarrow> nvram_ready f n fuel"
proof (induction fuel arbitrary: n k)
  case (Suc fuel)
  then show ?case using Suc.IH [of "k - 1" "n + 1"] by (cases k) auto
qed simp

lemma run_fw_cfg_data:
  assumes "kept P w" and "stored_file P w AP_CFG_RDEB_FILE_BT_ADDR_LID" and "locks w \<inter> {dirlock, recoverlock} = {}"
    and "plain P AP_CFG_RDEB_FILE_BT_ADDR_LID" and "nvram_init_flag (gl w)" and "0 \<le> g_i4MaxNvRamLid (gl w)"
    and "i4RecSize (file_of P AP_CFG_RDEB_FILE_BT_ADDR_LID) = int BTRADIO_SIZE"
    and "i4RecNum (file_of P AP_CFG_RDEB_FILE_BT_ADDR_LID) = 1"
    and "fs w (cFileName (file_of P AP_CFG_RDEB_FILE_BT_ADDR_LID)) = Some i"
    and "sealed P AP_CFG_RDEB_FILE_BT_ADDR_LID (idata i)" and "BTRADIO_SIZE \<le> length (idata i)"
    and "fst (run_state (NVM_CmpFileVerNo P AP_CFG_RDEB_FILE_BT_ADDR_LID) w)"
    and "nvram_init n = ''Ready''" and "n < 10" and "\<not> is_memzero (take BTRADIO_SIZE (idata i))"
  shows "fst (run_state (fw_cfg_data P nvram_init) w) = take BTRADIO_SIZE (idata i)"
proof -
  let ?lid = "AP_CFG_RDEB_FILE_BT_ADDR_LID"
  let ?p = "cFileName (file_of P ?lid)"
  have d: "default_ok (file_of P ?lid)" using assms(2) by (simp add: stored_file_def)
  have l: "dirlock \<notin> locks w" "recoverlock \<notin> locks w" using assms(3) by auto
  obtain v L where v: "run_state (NVM_GetFileDesc P ?lid (Some 0) (Some 0) True) w =
      ((\<lparr>fid_iFileDesc = next_fd v, fid_ifile_lid = ?lid, fid_bIsRead = True\<rparr>, Some (int BTRADIO_SIZE), Some 1), granted P ?lid True v)"
    "stepped P ?lid L w v" "L \<subseteq> {?lid}" "fst (run_state (NVM_CmpFileVerNo P ?lid) v)"
    "map_option idata (fs v ?p) = Some (opened P w ?lid (idata i))"
    by (rule run_GetFileDesc [OF assms(1,2) l assms(4-6,9), of 0 0 True, unfolded assms(7,8)])
  have kv: "kept P v" using v(2) by (simp add: stepped_def)
  have nf: "0 < next_fd v" "faults v = []" using kv by (simp_all add: kept_def)
  obtain j where j: "fs v ?p = Some j" "ikind j = Reg" "idata j = idata i"
    using v(2,5) opened_sealed(2) [OF d assms(12,10)] by (auto simp: stepped_def)
  have rd: "fst (run_state (sys_read (next_fd v) BTRADIO_SIZE) (granted P ?lid True v)) = Some (take BTRADIO_SIZE (idata i))"
    using nf j by (simp add: granted_def run_read new_fd_def open_flags_def)
  have ready: "nvram_ready nvram_init 0 10" using nvram_ready_by [OF assms(14), of nvram_init 0] assms(13) by simp
  have b: "fst (run_state (bt_read_nvram P nvram_init) w) = Some (take BTRADIO_SIZE (idata i))"
    using nf v(1) rd ready assms(11) by (simp add: bt_read_nvram_def run_bind run_ret case_prod_unfold)
  show ?thesis using b assms(15) by (simp add: fw_cfg_data_def run_bind run_ret case_prod_unfold)
qed

section \<open>The commands carry the record\<close>

definition command_params :: "(string \<Rightarrow> string) \<Rightarrow> btradio \<Rightarrow> hci_seq \<Rightarrow> bytes" where
  "command_params pg r c = (case c of HCC_Get_Local_BD_Addr \<Rightarrow> [] | HCC_Set_Local_BD_Addr \<Rightarrow> rev (addr r)
     | HCC_Set_PCM \<Rightarrow> Codec r | HCC_Set_Radio \<Rightarrow> Radio r | HCC_Set_TX_Power_Offset \<Rightarrow> TxPWOffset r
     | HCC_Set_Sleep_Timeout \<Rightarrow> Sleep r | HCC_Coex_Performance_Adjust \<Rightarrow> CoexAdjust r
     | HCC_Set_FW_SysLog \<Rightarrow> [if pg ''persist.bt.syslog.enable'' = ''1'' then CHR 0x05 else CHR 0x00]
     | HCC_Set_SSP_Debug_Mode \<Rightarrow> [if pg ''persist.bt.sspdebug.enable'' = ''1'' then CHR 0x01 else CHR 0x00])"

definition command_packet :: "(string \<Rightarrow> string) \<Rightarrow> btradio \<Rightarrow> hci_seq \<Rightarrow> bytes" where
  "command_packet pg r c = le16 (opcode_of c) @ char_of (length (command_params pg r c)) # command_params pg r c"

lemma chars: "char_of (0 :: nat) = CHR 0x00" "char_of (Suc 0) = CHR 0x01" "char_of (3 :: nat) = CHR 0x03" "char_of (4 :: nat) = CHR 0x04"
    "char_of (6 :: nat) = CHR 0x06" "char_of (7 :: nat) = CHR 0x07"
  by code_simp+

lemma command_func_packet:
  assumes "radio_ok (bt_nvram s)" and "c \<noteq> HCC_Get_Local_BD_Addr" and "\<not> fgGetEFUSE s"
  obtains t where "command_func pg c s = (True, t)" "sent t = sent s @ [command_packet pg (bt_nvram s) c]"
    "bt_nvram t = bt_nvram s" "\<not> fgGetEFUSE t" "internal_command t = Some (GORMevt_HCE_Common_Complete, opcode_of c)"
proof
  let ?t = "snd (command_func pg c s)"
  note d = command_defs transmit_old_def Let_def
  show "command_func pg c s = (True, ?t)" by (cases c) (simp_all add: d)
  show "sent ?t = sent s @ [command_packet pg (bt_nvram s) c]"
    using assms(1,2) by (cases c) (simp_all add: d command_packet_def command_params_def opcode_of_def radio_ok_def chars)
  show "bt_nvram ?t = bt_nvram s" by (cases c) (simp_all add: d)
  show "\<not> fgGetEFUSE ?t" using assms(3) by (cases c) (simp_all add: d)
  show "internal_command ?t = Some (GORMevt_HCE_Common_Complete, opcode_of c)" using assms(2) by (cases c) (simp_all add: d opcode_of_def)
qed

text \<open>The packets of a start that leaves out the first command.\<close>

definition record_packets :: "(string \<Rightarrow> string) \<Rightarrow> btradio \<Rightarrow> bytes list" where
  "record_packets pg r = map (command_packet pg r) (drop 1 bt_init_preload_script_6630)"

definition record_inv :: "(string \<Rightarrow> string) \<Rightarrow> btradio \<Rightarrow> bt_state \<Rightarrow> bool" where
  "record_inv pg r s \<longleftrightarrow> radio_ok r \<and> addr r \<noteq> addr stBtDefault_6630 \<and> addr r \<noteq> zeros 6 \<and> bt_nvram s = r \<and> \<not> fgGetEFUSE s \<and>
     (\<forall>opc. internal_command s \<noteq> Some (GORMevt_HCE_Get_Local_BD_Addr, opc)) \<and>
     (\<exists>n. sent s = take n (record_packets pg r) \<and> (case pc s of Started \<Rightarrow> n = 0 | Test i \<Rightarrow> i = n + 1
       | Lock i \<Rightarrow> i = n + 1 \<and> i < 9 | Command i \<Rightarrow> i = n + 1 \<and> i < 9 | Await i \<Rightarrow> i = n | _ \<Rightarrow> True))"

lemma memzero_addr:
  assumes "is_memzero raw" and "BTRADIO_SIZE \<le> length raw"
  shows "addr (btradio_of raw) = zeros 6"
proof -
  have "raw = replicate (length raw) (CHR 0x00)"
    using assms(1) by (intro replicate_length_same [symmetric]) (simp add: is_memzero_def list_all_iff)
  moreover have "addr (btradio_of raw) = take 6 raw" by (simp add: btradio_of_def Let_def)
  ultimately have "addr (btradio_of raw) = take 6 (replicate (length raw) (CHR 0x00))" by metis
  then show ?thesis using assms(2) by (simp add: zeros_def)
qed

lemma length_packets: "length (record_packets pg r) = 8"
  by (simp add: record_packets_def length_script)

lemma record_packet: "n < 8 \<Longrightarrow> record_packets pg r ! n = command_packet pg r (bt_init_preload_script_6630 ! (n + 1))"
  by (simp add: record_packets_def length_script)

lemma record_inv_thread:
  assumes "record_inv pg r s" and "init_thread_step pg alloc s = Some t"
  shows "record_inv pg r t"
proof (cases "\<exists>i. pc s = Command i")
  case True
  then obtain i where i: "pc s = Command i" by blast
  then obtain n where n: "i = n + 1" "n < 8" "sent s = take n (record_packets pg r)" using assms(1) by (auto simp: record_inv_def)
  let ?c = "bt_init_preload_script_6630 ! i"
  have r: "radio_ok (bt_nvram s)" "bt_nvram s = r" "\<not> fgGetEFUSE s" using assms(1) by (simp_all add: record_inv_def)
  have c: "?c \<noteq> HCC_Get_Local_BD_Addr" using script_first [of i] n by simp
  obtain u where u: "command_func pg ?c s = (True, u)" "sent u = sent s @ [command_packet pg (bt_nvram s) ?c]"
    "bt_nvram u = bt_nvram s" "\<not> fgGetEFUSE u" "internal_command u = Some (GORMevt_HCE_Common_Complete, opcode_of ?c)"
    by (rule command_func_packet [OF r(1) c r(3)])
  have "sent u = take (n + 1) (record_packets pg r)"
    using u(2) n record_packet [OF n(2), of pg r] by (simp add: r(2) take_Suc_conv_app_nth length_packets)
  then show ?thesis using assms u n i by (auto simp: record_inv_def init_thread_step_def)
next
  case False
  then show ?thesis
    using assms
    by (auto simp: record_inv_def init_thread_step_def unset_addr_def length_script Let_def split: init_pc.splits if_splits)
qed

lemma event_record:
  assumes "\<forall>opc. internal_command s \<noteq> Some (GORMevt_HCE_Get_Local_BD_Addr, opc)"
  shows "bt_nvram (HandleIncomingEvent p s) = bt_nvram s"
    and "internal_command (HandleIncomingEvent p s) = internal_command s \<or> internal_command (HandleIncomingEvent p s) = None"
  using assms
  by (simp_all add: HandleIncomingEvent_def evt_HCE_Common_Complete_def reads_def Let_def
      split: option.splits int_cmd_cback.splits)

lemma record_inv_event:
  assumes "record_inv pg r s"
  shows "record_inv pg r (HandleIncomingEvent p s)"
proof -
  have c: "\<forall>opc. internal_command s \<noteq> Some (GORMevt_HCE_Get_Local_BD_Addr, opc)" using assms by (simp add: record_inv_def)
  show ?thesis using assms event_record [OF c, of p] unfolding record_inv_def event_effect by auto
qed

lemma record_inv_cleanup:
  assumes "record_inv pg r s"
  shows "record_inv pg r (BT_Cleanup s)"
proof -
  have "fgGetEFUSE (BT_Cleanup s) = fgGetEFUSE s" by (simp add: BT_Cleanup_def notify_thread_exit_def)
  then show ?thesis using assms unfolding record_inv_def cleanup_effect by simp
qed

lemma record_inv_step: "record_inv pg r s \<Longrightarrow> bt_step pg s l t \<Longrightarrow> record_inv pg r t"
  by (erule bt_step.cases) (simp_all add: record_inv_thread record_inv_event record_inv_cleanup)

text \<open>
  C2.  The record stored for the Bluetooth address is what the chip is configured with: when the
  file holds a valid record with an address, every command the thread sends carries the fields of
  this record, beginning with the address, in the order of the script and with nothing in between,
  whatever the chip answers and whenever the clean-up is called.
\<close>

theorem stored_record_configures_chip:
  assumes "kept P w" and "stored_file P w AP_CFG_RDEB_FILE_BT_ADDR_LID" and "locks w \<inter> {dirlock, recoverlock} = {}"
    and "plain P AP_CFG_RDEB_FILE_BT_ADDR_LID" and "nvram_init_flag (gl w)" and "0 \<le> g_i4MaxNvRamLid (gl w)"
    and "i4RecSize (file_of P AP_CFG_RDEB_FILE_BT_ADDR_LID) = int BTRADIO_SIZE"
    and "i4RecNum (file_of P AP_CFG_RDEB_FILE_BT_ADDR_LID) = 1"
    and "fs w (cFileName (file_of P AP_CFG_RDEB_FILE_BT_ADDR_LID)) = Some i"
    and "sealed P AP_CFG_RDEB_FILE_BT_ADDR_LID (idata i)" and "BTRADIO_SIZE \<le> length (idata i)"
    and "fst (run_state (NVM_CmpFileVerNo P AP_CFG_RDEB_FILE_BT_ADDR_LID) w)"
    and "nvram_init n = ''Ready''" and "n < 10"
    and "r = btradio_of (take BTRADIO_SIZE (idata i))" and "addr r \<noteq> addr stBtDefault_6630" and "addr r \<noteq> zeros 6"
    and "nv s = w" and "\<not> fgGetEFUSE s" and "sent s = []" and "internal_command s = None"
    and "runs (bt_step pg) (snd (mtk_fw_cfg P nvram_init True s)) ls t"
  shows "\<exists>m. sent t = take m (record_packets pg r)"
proof -
  have z: "\<not> is_memzero (take BTRADIO_SIZE (idata i))"
    using memzero_addr [of "take BTRADIO_SIZE (idata i)"] assms(11,17) by (auto simp: assms(15))
  have d: "fst (run_state (fw_cfg_data P nvram_init) w) = take BTRADIO_SIZE (idata i)"
    by (rule run_fw_cfg_data) (fact assms z)+
  obtain w' where "snd (mtk_fw_cfg P nvram_init True s) = snd (BT_InitDevice True (take BTRADIO_SIZE (idata i)) (s\<lparr>nv := w'\<rparr>))"
    by (rule mtk_fw_cfg_start [of P nvram_init s]) (simp add: assms(18) d)
  then have "record_inv pg r (snd (mtk_fw_cfg P nvram_init True s))"
    using assms(11,16,17,19-21) by (simp add: record_inv_def BT_InitDevice_def assms(15) [symmetric] radio_ok_of [of "take 64 (idata i)", folded assms(15)])
  from runs_history [OF assms(22), of "\<lambda>_. record_inv pg r" "[]" "\<lambda>_. []", OF this] have "record_inv pg r t"
    by (auto intro: record_inv_step)
  then show ?thesis by (auto simp: record_inv_def)
qed

section \<open>The clean-up\<close>

text \<open>
  Nothing resets the status between two starts: after a clean-up the next start sends no command
  and reports success.
\<close>

lemma stale_terminate_configures_nothing:
  assumes "cmd_status s = CMD_TERMINATE"
  shows "\<exists>t. runs (bt_step pg) (snd (BT_InitDevice True data s)) (replicate 3 (Thread alloc)) t \<and> pc t = Exited \<and> sent t = sent s \<and>
    configured t = configured s @ [True]"
proof -
  let ?s = "snd (BT_InitDevice True data s)"
  obtain s1 k where s1: "init_thread_step pg alloc ?s = Some s1" "pc s1 = Test k" "cmd_status s1 = CMD_TERMINATE" "sent s1 = sent s"
    "configured s1 = configured s"
    using assms by (auto simp: init_thread_step_def BT_InitDevice_def Let_def)
  let ?s2 = "s1\<lparr>pc := Finish True\<rparr>"
  let ?s3 = "s1\<lparr>configured := configured s1 @ [True], worker_thread_running := False, pc := Exited\<rparr>"
  have s2: "init_thread_step pg alloc s1 = Some ?s2" using s1 by (simp add: init_thread_step_def)
  have s3: "init_thread_step pg alloc ?s2 = Some ?s3" by (simp add: init_thread_step_def)
  note steps = step_thread [OF s1(1)] step_thread [OF s2] step_thread [OF s3]
  have "runs (bt_step pg) ?s (replicate 3 (Thread alloc)) ?s3"
    by (simp add: numeral_eq_Suc) (rule runs_nil steps runs_cons)+
  then show ?thesis using s1 by (intro exI [of _ ?s3]) simp
qed

text \<open>
  The clean-up is lost when the answer to the command under way comes before the thread has looked
  at the status: the handler overwrites it.
\<close>

lemma answer_overwrites_terminate:
  assumes "internal_command s = Some (cb, opc)" and "internal_command_event_match p opc"
  shows "cmd_status (HandleIncomingEvent p (BT_Cleanup s)) \<in> {CMD_SUCCESS, CMD_FAIL}"
proof -
  have "internal_command (BT_Cleanup s) = Some (cb, opc)" using assms(1) by (simp add: cleanup_effect)
  then show ?thesis
    using assms(2)
    by (simp add: HandleIncomingEvent_def evt_HCE_Common_Complete_def evt_HCE_Get_Local_BD_Addr_def Let_def split: int_cmd_cback.split)
qed

text \<open>
  A failure is overlooked when it comes after a clean-up has woken the thread: the thread then goes
  on with the next command of the script.
\<close>

lemma failure_after_cleanup_overlooked:
  assumes "pc s = Await i" and "i < 8" and "worker_thread_running s" and "internal_command s = Some (GORMevt_HCE_Common_Complete, opc)"
    and "internal_command_event_match p opc" and "at p 5 \<noteq> CHR 0x00"
  shows "\<exists>t. runs (bt_step pg) s [Cleanup, Thread True, Event p, Thread True, Thread True] t \<and> pc t = Command (i + 1)"
proof -
  let ?s1 = "s\<lparr>cmd_status := CMD_TERMINATE\<rparr>"
  let ?s2 = "?s1\<lparr>pc := Test (i + 1)\<rparr>"
  let ?s3 = "HandleIncomingEvent p ?s2"
  let ?s4 = "?s3\<lparr>pc := Lock (i + 1)\<rparr>"
  let ?s5 = "?s3\<lparr>cmd_status := CMD_PENDING, pc := Command (i + 1)\<rparr>"
  have s1: "bt_step pg s Cleanup ?s1"
    using step_cleanup [of pg s] assms(3) by (simp add: BT_Cleanup_def notify_thread_exit_def)
  have s2: "init_thread_step pg True ?s1 = Some ?s2" using assms(1) by (simp add: init_thread_step_def)
  have e: "cmd_status ?s3 = CMD_FAIL"
    using assms(4-6) by (simp add: HandleIncomingEvent_def evt_HCE_Common_Complete_def Let_def)
  have s4: "init_thread_step pg True ?s3 = Some ?s4"
    using e assms(2) by (simp add: init_thread_step_def event_effect length_script)
  have s5: "init_thread_step pg True ?s4 = Some ?s5"
    using e by (simp add: init_thread_step_def)
  note steps = s1 step_thread [OF s2] step_event step_thread [OF s4] step_thread [OF s5]
  have "runs (bt_step pg) s [Cleanup, Thread True, Event p, Thread True, Thread True] ?s5"
    by (rule runs_nil steps runs_cons)+
  then show ?thesis by (intro exI [of _ ?s5]) simp
qed

section \<open>Instances\<close>

text \<open>Four steps of the thread send one command.\<close>

lemma first_packet:
  assumes "radio_ok (btradio_of data)" and "cmd_status s \<noteq> CMD_TERMINATE"
  obtains t where "runs (bt_step pg) (snd (BT_InitDevice True data s)) (replicate 4 (Thread True)) t" "length (sent t) = Suc (length (sent s))"
    "pc t = Await (first_command (snd (BT_InitDevice True data s)))"
proof -
  let ?s = "snd (BT_InitDevice True data s)" and ?k = "first_command (snd (BT_InitDevice True data s))"
  have k: "?k < 9" by (simp add: first_command_def)
  obtain s1 where s1: "init_thread_step pg True ?s = Some s1" "pc s1 = Test ?k" "cmd_status s1 = cmd_status s" "sent s1 = sent s"
    "bt_nvram s1 = btradio_of data"
    by (auto simp: init_thread_step_def BT_InitDevice_def Let_def unset_addr_def first_command_def)
  let ?s2 = "s1\<lparr>pc := Lock ?k\<rparr>"
  have s2: "init_thread_step pg True s1 = Some ?s2" using s1 k assms(2) by (simp add: init_thread_step_def length_script)
  let ?s3 = "s1\<lparr>cmd_status := CMD_PENDING, pc := Command ?k\<rparr>"
  have s3: "init_thread_step pg True ?s2 = Some ?s3" using s1 assms(2) by (simp add: init_thread_step_def)
  have r: "radio_ok (bt_nvram ?s3)" using s1(5) assms(1) by simp
  obtain p u where u: "command_func pg (bt_init_preload_script_6630 ! ?k) ?s3 = (True, u)" "sent u = sent ?s3 @ [p]"
    by (rule command_func_effect [OF r, of pg "bt_init_preload_script_6630 ! ?k"]) blast
  have s4: "init_thread_step pg True ?s3 = Some (u\<lparr>pc := Await ?k\<rparr>)" using u(1) by (simp add: init_thread_step_def)
  note steps = step_thread [OF s1(1)] step_thread [OF s2] step_thread [OF s3] step_thread [OF s4]
  have "runs (bt_step pg) ?s (replicate 4 (Thread True)) (u\<lparr>pc := Await ?k\<rparr>)"
    by (simp add: numeral_eq_Suc) (rule runs_nil steps runs_cons)+
  then show ?thesis by (rule that) (use u s1 in simp_all)
qed

definition e_btaddr :: tcfg_file where
  "e_btaddr = \<lparr>cFileName = ''/nvdata/BT_Addr'', cFileVer = ''001'' @ [CHR 0x00], i4RecSize = 64, i4RecNum = 1,
     stDefualType = DEFAULT_ZERO, pDefualtVaule = None, bDataProcessingType = 0, NVM_DataConvertFunc = None\<rparr>"

text \<open>A device whose file number 1 is the record of the Bluetooth module.\<close>

definition P2 :: plat where
  "P2 = P0\<lparr>g_akCFG_File := [e_ver, e_btaddr], g_akCFG_File_Custom := [], iNvRamFileMaxLID := 2, aBackupToBinRegion := [],
     aPerformance := []\<rparr>"

lemma P2_files: "all_files P2 = [e_ver, e_btaddr]" "file_of P2 1 = e_btaddr" "ver_path P2 = ''/nvdata/FILE_VER''"
    "iFileVerInfoLID P2 = 0"
  by (simp_all add: all_files_def P2_def P0_def file_of_def ver_path_def entry_def in_table_def e_ver_def)

lemma P2_ok: "plat_ok P2" "distinct (names P2)"
  by (simp_all add: plat_ok_def names_def P2_files, simp_all add: P2_def P0_def e_ver_def e_btaddr_def entry_ok_def no_nul_def
      after_last_slash_def strVerInfo_def base_name_def)

lemma P2_plain: "plain P2 1"
proof -
  have "g_new_nvram_lid P2 = []" "aBackupToBinRegion P2 = []" by (simp_all add: P2_def P0_def)
  then show ?thesis by (simp add: plain_def NVM_InSpecialLidList_def backed_up_def)
qed

lemma e_btaddr_facts: "cFileName e_btaddr = ''/nvdata/BT_Addr''" "default_ok e_btaddr" "table_size e_btaddr = 64"
    "i4RecSize e_btaddr = 64" "i4RecNum e_btaddr = 1"
  by (simp_all add: e_btaddr_def default_ok_def table_size_def to_int32_small)

abbreviation sample_record :: bytes where
  "sample_record \<equiv> ''abcdef'' @ zeros 58"

definition sample_radio :: "nv_globals world" where
  "sample_radio = disk [(''/nvdata/FILE_VER'', reg (concat (default_table P2))),
     (''/nvdata/BT_Addr'', reg (sample_record @ [CHR 0xAA, c8 (check_no sample_record)]))]"

lemma sample_radio_facts:
  "kept P2 sample_radio" "stored_file P2 sample_radio 1" "sealed P2 1 (sample_record @ [CHR 0xAA, c8 (check_no sample_record)])"
  "fst (run_state (NVM_CmpFileVerNo P2 1) sample_radio)"
  "fs sample_radio ''/nvdata/BT_Addr'' = Some (reg (sample_record @ [CHR 0xAA, c8 (check_no sample_record)]))"
proof -
  have t: "ver_table P2 sample_radio (default_table P2)"
    using default_table_props [OF P2_ok(1)] by (simp add: ver_table_def P2_files sample_radio_def)
  then show k: "kept P2 sample_radio"
    unfolding kept_def using default_in_order [OF P2_ok(1)] P2_ok
    by (intro conjI exI [of _ "default_table P2"]) (simp_all add: sample_radio_def)
  have l: "lid_ok P2 1" using P2_ok(1) by (simp add: lid_ok_def P2_files)
  show "fs sample_radio ''/nvdata/BT_Addr'' = Some (reg (sample_record @ [CHR 0xAA, c8 (check_no sample_record)]))"
    by (simp add: sample_radio_def)
  with l show "stored_file P2 sample_radio 1"
    by (simp add: stored_file_def P2_files e_btaddr_facts writable_def is_dir_def zeros_def) (simp add: sample_radio_def new_inode_def)
  show "sealed P2 1 (sample_record @ [CHR 0xAA, c8 (check_no sample_record)])"
    by (rule pair_checked) (simp add: P2_files e_btaddr_facts zeros_def)
  have "rec_ver (default_table P2 ! Suc (nat 1)) = cFileVer (file_of P2 1)"
    using default_at [OF l] file_ok [OF l] by simp
  then show "fst (run_state (NVM_CmpFileVerNo P2 1) sample_radio)"
    using run_cmp_kept [OF k l t default_in_order [OF P2_ok(1)]] by simp
qed

definition sample_start :: bt_state where
  "sample_start = snd (mtk_fw_cfg P2 (\<lambda>_. ''Ready'') True (bt_loaded sample_radio))"

text \<open>The start of the module on this device: its first command is on its way.\<close>

lemma sample_start_run:
  obtains t where "runs (bt_step (\<lambda>_. '''')) sample_start (replicate 4 (Thread True)) t" "length (sent t) = 1"
proof -
  obtain data w' where m: "sample_start = snd (BT_InitDevice True data ((bt_loaded sample_radio)\<lparr>nv := w'\<rparr>))" "length data = 64"
    unfolding sample_start_def by (rule mtk_fw_cfg_start)
  show ?thesis
    by (rule first_packet [OF radio_ok_of [OF m(2)], of "(bt_loaded sample_radio)\<lparr>nv := w'\<rparr>" "\<lambda>_. ''''"])
       (use that in \<open>simp_all add: m(1) bt_loaded_def\<close>)
qed

theorem init_commands_well_formed_witness:
  "\<exists>t. runs (bt_step (\<lambda>_. '''')) sample_start (replicate 4 (Thread True)) t \<and> length (sent t) = 1 \<and> list_all hci_command_ok (sent t)"
proof -
  obtain t where t: "runs (bt_step (\<lambda>_. '''')) sample_start (replicate 4 (Thread True)) t" "length (sent t) = 1"
    by (rule sample_start_run)
  have "list_all hci_command_ok (sent (bt_loaded sample_radio))" by (simp add: bt_loaded_def)
  from init_commands_well_formed [OF this t(1) [unfolded sample_start_def]] t show ?thesis by blast
qed

theorem init_script_in_order_witness:
  "\<exists>t. runs (bt_step (\<lambda>_. '''')) sample_start (replicate 4 (Thread True)) t \<and>
    map un16 (sent t) = take 1 (drop (first_command sample_start) script_ops)"
proof -
  obtain t where t: "runs (bt_step (\<lambda>_. '''')) sample_start (replicate 4 (Thread True)) t" "length (sent t) = 1"
    by (rule sample_start_run)
  have "map un16 (sent t) = take (length (sent t)) (drop (first_command sample_start) script_ops)"
    using init_script_in_order [of "bt_loaded sample_radio" "\<lambda>_. ''''" P2 "\<lambda>_. ''Ready''" "replicate 4 (Thread True)" t] t(1)
    by (simp add: sample_start_def bt_loaded_def Let_def)
  then show ?thesis using t by auto
qed

theorem init_thread_terminates_witness:
  "\<exists>t. runs (bt_step (\<lambda>_. '''')) sample_start (replicate 4 (Thread True)) t \<and>
    (pc t = Exited \<or> (\<exists>u. bt_step (\<lambda>_. '''') t (Thread True) u) \<or> (\<exists>u. bt_step (\<lambda>_. '''') (BT_Cleanup t) (Thread True) u))"
proof -
  obtain t where t: "runs (bt_step (\<lambda>_. '''')) sample_start (replicate 4 (Thread True)) t"
    by (rule sample_start_run)
  from init_thread_terminates [OF this [unfolded sample_start_def]] t show ?thesis by blast
qed

theorem stored_record_configures_chip_witness:
  "\<exists>t m. runs (bt_step (\<lambda>_. '''')) sample_start (replicate 4 (Thread True)) t \<and> length (sent t) = 1 \<and>
    sent t = take m (record_packets (\<lambda>_. '''') (btradio_of sample_record))"
proof -
  obtain t where t: "runs (bt_step (\<lambda>_. '''')) sample_start (replicate 4 (Thread True)) t" "length (sent t) = 1"
    by (rule sample_start_run)
  note f = sample_radio_facts
  have z: "length sample_record = 64" by (simp add: zeros_def)
  have a: "addr (btradio_of sample_record) = CHR ''a'' # ''bcdef''" by (simp add: btradio_of_def Let_def)
  have d: "addr stBtDefault_6630 = CHR 0x00 # tl (addr stBtDefault_6630)" "zeros 6 = CHR 0x00 # zeros 5"
    by (simp_all add: stBtDefault_6630_def zeros_def numeral_eq_Suc)
  have g: "locks sample_radio = {}" "gl sample_radio = g0" by (simp_all add: sample_radio_def)
  have l: "nv (bt_loaded sample_radio) = sample_radio" "\<not> fgGetEFUSE (bt_loaded sample_radio)" "sent (bt_loaded sample_radio) = []"
    "internal_command (bt_loaded sample_radio) = None" by (simp_all add: bt_loaded_def)
  have "addr (btradio_of sample_record) \<noteq> addr stBtDefault_6630" "addr (btradio_of sample_record) \<noteq> zeros 6"
    unfolding a by (subst d(1), simp, subst d(2), simp)
  then have "\<exists>m. sent t = take m (record_packets (\<lambda>_. '''') (btradio_of sample_record))"
    using stored_record_configures_chip [of P2 sample_radio "reg (sample_record @ [CHR 0xAA, c8 (check_no sample_record)])"
        "\<lambda>_. ''Ready''" 0 "btradio_of sample_record" "bt_loaded sample_radio" "\<lambda>_. ''''" "replicate 4 (Thread True)" t]
      f g l z t(1) P2_plain
    by (simp add: P2_files e_btaddr_facts sample_start_def g0_def)
  then show ?thesis using t by blast
qed

end
