(* ===== verification/CText.thy ===== *)
theory CText
  imports Prelude
begin

text \<open>
  Text as the C programs handle it: comparison of prefixes with and without case, numbers printed
  with \<open>printf\<close> conversions and read with \<open>strtol\<close>, \<open>strtoul\<close> and \<open>atoi\<close>, and the round trip of
  both.  The width of \<open>long\<close> is an argument, because a number that does not fit is cut to it.
\<close>

section \<open>Comparison\<close>

definition tolower :: "char \<Rightarrow> char" where
  "tolower c = (let n = of_char c :: nat in if 65 \<le> n \<and> n \<le> 90 then char_of (n + 32) else c)"

text \<open>\<open>strncmp(s, p, strlen(p)) == 0\<close>, \<open>strncasecmp(s, p, strlen(p)) == 0\<close> and \<open>strcasecmp(s, p) == 0\<close>.\<close>

definition starts :: "string \<Rightarrow> string \<Rightarrow> bool" where
  "starts p s \<longleftrightarrow> take (length p) s = p"

definition istarts :: "string \<Rightarrow> string \<Rightarrow> bool" where
  "istarts p s \<longleftrightarrow> length p \<le> length s \<and> map tolower (take (length p) s) = map tolower p"

definition iequals :: "string \<Rightarrow> string \<Rightarrow> bool" where
  "iequals p s \<longleftrightarrow> map tolower s = map tolower p"

text \<open>\<open>strchr\<close> and \<open>strstr\<close>, with the position for the pointer.\<close>

fun strchr :: "char \<Rightarrow> string \<Rightarrow> nat option" where
  "strchr c [] = None"
| "strchr c (x # xs) = (if x = c then Some 0 else map_option Suc (strchr c xs))"

fun strpos :: "string \<Rightarrow> string \<Rightarrow> nat option" where
  "strpos p [] = (if p = [] then Some 0 else None)"
| "strpos p (x # xs) = (if starts p (x # xs) then Some 0 else map_option Suc (strpos p xs))"

section \<open>Printing\<close>

definition digit :: "nat \<Rightarrow> char" where
  "digit d = ''0123456789abcdef'' ! d"

fun digits_of :: "nat \<Rightarrow> nat \<Rightarrow> string" where
  "digits_of b n = (if n < b \<or> b < 2 then [digit n] else digits_of b (n div b) @ [digit (n mod b)])"

declare digits_of.simps [simp del]

definition zero_fill :: "nat \<Rightarrow> string \<Rightarrow> string" where
  "zero_fill k s = replicate (k - length s) (CHR ''0'') @ s"

definition toupper :: "char \<Rightarrow> char" where
  "toupper c = (let n = of_char c :: nat in if 97 \<le> n \<and> n \<le> 122 then char_of (n - 32) else c)"

text \<open>The conversions \<open>%d\<close> and \<open>%u\<close>, \<open>%0kx\<close>, \<open>%0kX\<close>.\<close>

definition show_dec :: "int \<Rightarrow> string" where
  "show_dec i = (if i < 0 then CHR ''-'' # digits_of 10 (nat (- i)) else digits_of 10 (nat i))"

definition show_hex :: "nat \<Rightarrow> nat \<Rightarrow> string" where
  "show_hex k n = zero_fill k (digits_of 16 n)"

definition show_HEX :: "nat \<Rightarrow> nat \<Rightarrow> string" where
  "show_HEX k n = map toupper (show_hex k n)"

section \<open>Reading\<close>

definition is_blank :: "char \<Rightarrow> bool" where
  "is_blank c \<longleftrightarrow> c = CHR '' '' \<or> (9 \<le> (of_char c :: nat) \<and> (of_char c :: nat) \<le> 13)"

text \<open>The value of a digit; 36 for other characters.\<close>

definition digit_value :: "char \<Rightarrow> nat" where
  "digit_value c = (let n = of_char c :: nat in
     if 48 \<le> n \<and> n \<le> 57 then n - 48 else if 97 \<le> n \<and> n \<le> 122 then n - 87 else if 65 \<le> n \<and> n \<le> 90 then n - 55 else 36)"

definition is_digit :: "nat \<Rightarrow> char \<Rightarrow> bool" where
  "is_digit b c \<longleftrightarrow> digit_value c < b"

definition number :: "nat \<Rightarrow> nat \<Rightarrow> string \<Rightarrow> nat" where
  "number b = foldl (\<lambda>acc c. b * acc + digit_value c)"

text \<open>
  The form that \<open>strtol\<close> and \<open>strtoul\<close> read: blanks, a sign, a prefix when the base allows one, digits.
  \<open>None\<close> is a text without digits, else the sign, the value and the rest.  The base is 0, 10 or 16.
\<close>

definition read_number :: "nat \<Rightarrow> string \<Rightarrow> (bool \<times> nat \<times> string) option" where
  "read_number base s0 = (let s1 = dropWhile is_blank s0;
       neg = (take 1 s1 = ''-'');
       s2 = (if take 1 s1 \<in> {''-'', ''+''} then drop 1 s1 else s1);
       hex = (base \<in> {0, 16} \<and> take 2 s2 \<in> {''0x'', ''0X''} \<and> drop 2 s2 \<noteq> [] \<and> is_digit 16 (s2 ! 2));
       b = (if base \<noteq> 0 then base else if hex then 16 else if take 1 s2 = ''0'' then 8 else 10);
       s3 = (if hex then drop 2 s2 else s2);
       ds = takeWhile (is_digit b) s3
     in if ds = [] then None else Some (neg, number b 0 ds, dropWhile (is_digit b) s3))"

definition strtoul :: "nat \<Rightarrow> nat \<Rightarrow> string \<Rightarrow> nat" where
  "strtoul bits base s = (case read_number base s of None \<Rightarrow> 0
     | Some (neg, v, _) \<Rightarrow> if 2 ^ bits \<le> v then 2 ^ bits - 1 else if neg then (2 ^ bits - v) mod 2 ^ bits else v)"

text \<open>The value and the text from \<open>endptr\<close> on.\<close>

definition strtol :: "nat \<Rightarrow> nat \<Rightarrow> string \<Rightarrow> int \<times> string" where
  "strtol bits base s = (case read_number base s of None \<Rightarrow> (0, s)
     | Some (neg, v, r) \<Rightarrow> (max (- (2 ^ (bits - 1))) (min (2 ^ (bits - 1) - 1) (if neg then - int v else int v)), r))"

definition atoi :: "nat \<Rightarrow> string \<Rightarrow> int" where
  "atoi bits s = to_int32 (fst (strtol bits 10 s))"

section \<open>Round trip\<close>

lemma digit_cases: "d < 16 \<Longrightarrow> (\<And>k. k \<in> {0, 1, 2, 3, 4, 5, 6, 7, 8, 9, 10, 11, 12, 13, 14, 15} \<Longrightarrow> Q k) \<Longrightarrow> Q (d :: nat)"
proof -
  assume d: "d < 16" and q: "\<And>k. k \<in> {0, 1, 2, 3, 4, 5, 6, 7, 8, 9, 10, 11, 12, 13, 14, 15} \<Longrightarrow> Q k"
  from d have "d \<in> {0, 1, 2, 3, 4, 5, 6, 7, 8, 9, 10, 11, 12, 13, 14, 15}" unfolding insert_iff empty_iff by presburger
  then show "Q d" by (rule q)
qed

lemma digit_value_digit [simp]: "d < 16 \<Longrightarrow> digit_value (digit d) = d"
  by (erule digit_cases, elim insertE emptyE) (simp_all add: digit_def digit_value_def)

lemma digit_value_upper [simp]: "d < 16 \<Longrightarrow> digit_value (toupper (digit d)) = d"
  by (erule digit_cases, elim insertE emptyE) (simp_all add: digit_def digit_value_def toupper_def)

lemma number_append: "number b a (s @ t) = number b (number b a s) t"
  by (simp add: number_def)

lemma digits_of_digits:
  assumes "2 \<le> b" and "b \<le> 16"
  shows "digits_of b n \<noteq> [] \<and> list_all (is_digit b) (digits_of b n) \<and> number b 0 (digits_of b n) = n"
proof (induction n rule: less_induct)
  case (less n)
  show ?case
  proof (cases "n < b")
    case True
    then show ?thesis using assms by (simp add: digits_of.simps [of b n] is_digit_def number_def)
  next
    case False
    then have "n div b < n" using assms by (simp add: div_less_dividend)
    then have ih: "list_all (is_digit b) (digits_of b (n div b))" "number b 0 (digits_of b (n div b)) = n div b"
      using less by blast+
    have m: "n mod b < b" using assms by simp
    have v: "digit_value (digit (n mod b)) = n mod b" by (rule digit_value_digit [OF less_le_trans [OF m assms(2)]])
    have "digits_of b n = digits_of b (n div b) @ [digit (n mod b)]" using assms False by (simp add: digits_of.simps [of b n])
    then show ?thesis using ih m v by (simp add: number_append) (simp add: number_def is_digit_def)
  qed
qed

lemma digits_of_simps [simp]:
  "2 \<le> b \<Longrightarrow> b \<le> 16 \<Longrightarrow> digits_of b n \<noteq> []" "2 \<le> b \<Longrightarrow> b \<le> 16 \<Longrightarrow> list_all (is_digit b) (digits_of b n)"
  "2 \<le> b \<Longrightarrow> b \<le> 16 \<Longrightarrow> number b 0 (digits_of b n) = n"
  using digits_of_digits by blast+

lemma number_zeros [simp]: "number b 0 (replicate k (CHR ''0'') @ s) = number b 0 s"
  by (induction k) (simp_all add: number_def digit_value_def)

lemma zero_fill_digits:
  "list_all (is_digit b) s \<Longrightarrow> 0 < b \<Longrightarrow> list_all (is_digit b) (zero_fill k s) \<and> number b 0 (zero_fill k s) = number b 0 s"
  by (auto simp: zero_fill_def list_all_iff is_digit_def digit_value_def)

lemma digit_nonblank: "is_digit 16 c \<Longrightarrow> \<not> is_blank c \<and> c \<noteq> CHR ''-'' \<and> c \<noteq> CHR ''+'' \<and> c \<noteq> CHR ''x'' \<and> c \<noteq> CHR ''X''"
  by (auto simp: is_digit_def digit_value_def is_blank_def Let_def split: if_splits)

lemma is_digit_mono: "is_digit b c \<Longrightarrow> b \<le> b' \<Longrightarrow> is_digit b' c"
  by (simp add: is_digit_def)

lemma span_digits:
  assumes "list_all (is_digit b) ds" and "r = [] \<or> \<not> is_digit b (hd r)"
  shows "takeWhile (is_digit b) (ds @ r) = ds" and "dropWhile (is_digit b) (ds @ r) = r"
proof -
  have "takeWhile (is_digit b) r = [] \<and> dropWhile (is_digit b) r = r" using assms(2) by (cases r) auto
  moreover have "takeWhile (is_digit b) (ds @ r) = ds @ takeWhile (is_digit b) r \<and> dropWhile (is_digit b) (ds @ r) = dropWhile (is_digit b) r"
    using assms(1) by (induction ds) auto
  ultimately show "takeWhile (is_digit b) (ds @ r) = ds" "dropWhile (is_digit b) (ds @ r) = r" by auto
qed

text \<open>Reading digits that nothing precedes; for base 16 they have no second character \<open>x\<close>.\<close>

lemma read_plain:
  "base \<noteq> 0 \<Longrightarrow> dropWhile is_blank t = t \<Longrightarrow> take 1 t \<notin> {''-'', ''+''} \<Longrightarrow> take 2 t \<notin> {''0x'', ''0X''} \<Longrightarrow>
   takeWhile (is_digit base) t \<noteq> [] \<Longrightarrow> read_number base t = Some (False, number base 0 (takeWhile (is_digit base) t), dropWhile (is_digit base) t)"
  by (simp add: read_number_def Let_def)

lemma read_minus:
  "base \<noteq> 0 \<Longrightarrow> take 2 t \<notin> {''0x'', ''0X''} \<Longrightarrow>
   takeWhile (is_digit base) t \<noteq> [] \<Longrightarrow> read_number base (CHR ''-'' # t) = Some (True, number base 0 (takeWhile (is_digit base) t), dropWhile (is_digit base) t)"
  by (simp add: read_number_def Let_def is_blank_def)

lemma read_digits:
  assumes "base \<in> {10, 16}" and "ds \<noteq> []" and "list_all (is_digit base) ds" and "r = [] \<or> \<not> is_digit base (hd r) \<and> hd r \<notin> {CHR ''x'', CHR ''X''}"
  shows "read_number base (ds @ r) = Some (False, number base 0 ds, r)"
    and "read_number base (CHR ''-'' # ds @ r) = Some (True, number base 0 ds, r)"
proof -
  obtain c cs where ds: "ds = c # cs" using assms(2) by (cases ds) auto
  have all: "is_digit 16 x" if "x \<in> set ds" for x
    using assms(1,3) that by (auto simp: list_all_iff intro: is_digit_mono)
  have c: "\<not> is_blank c" "c \<noteq> CHR ''-''" "c \<noteq> CHR ''+''" "takeWhile (is_digit base) (ds @ r) \<noteq> []"
    using digit_nonblank [of c] all assms(3) by (auto simp: ds)
  have x: "take 2 (ds @ r) \<notin> {''0x'', ''0X''}"
    using digit_nonblank [OF all] assms(4) by (cases cs; cases r) (auto simp: ds)

  note span = span_digits [OF assms(3), of r]
  have s: "take 1 (ds @ r) \<notin> {''-'', ''+''}" and d: "dropWhile is_blank (ds @ r) = ds @ r" using c by (simp_all add: ds)
  have b: "base \<noteq> 0" using assms(1) by auto
  have r: "r = [] \<or> \<not> is_digit base (hd r)" using assms(4) by blast
  show "read_number base (ds @ r) = Some (False, number base 0 ds, r)"
    using read_plain [OF b d s x] c(4) by (simp add: span [OF r])
  show "read_number base (CHR ''-'' # ds @ r) = Some (True, number base 0 ds, r)"
    using read_minus [OF b x] c(4) by (simp add: span [OF r])
qed

lemma read_hex_prefix:
  assumes "ds \<noteq> []" and "list_all (is_digit 16) ds"
  shows "read_number 16 (CHR ''0'' # CHR ''x'' # ds) = Some (False, number 16 0 ds, [])"
proof -
  obtain c cs where ds: "ds = c # cs" using assms(1) by (cases ds) auto
  have "takeWhile (is_digit 16) cs = cs" "dropWhile (is_digit 16) cs = []" "is_digit 16 c"
    using assms(2) by (simp_all add: ds list_all_iff takeWhile_eq_all_conv)
  note t = this
  show ?thesis by (simp add: read_number_def Let_def ds is_blank_def t)
qed

lemma atoi_show_dec:
  assumes "- (2 ^ 31) \<le> i" and "i < 2 ^ 31" and "32 \<le> bits" and "r = [] \<or> \<not> is_digit 10 (hd r) \<and> hd r \<notin> {CHR ''x'', CHR ''X''}"
  shows "atoi bits (show_dec i @ r) = i"
proof -
  have "(2 :: int) ^ 31 \<le> 2 ^ (bits - 1)" by (rule power_increasing) (use assms(3) in auto)
  then have "max (- (2 ^ (bits - 1))) (min (2 ^ (bits - 1) - 1) i) = i" using assms(1,2) by linarith
  moreover have "read_number 10 (show_dec i @ r) = Some (i < 0, nat \<bar>i\<bar>, r)"
    using read_digits [of 10, OF _ _ _ assms(4)] by (auto simp: show_dec_def)
  ultimately have "strtol bits 10 (show_dec i @ r) = (i, r)" by (cases "i < 0") (simp_all add: strtol_def)
  then show ?thesis using assms(1,2) by (simp add: atoi_def)
qed

lemma show_hex_digits: "list_all (is_digit 16) (show_hex k n)" "number 16 0 (show_hex k n) = n" "show_hex k n \<noteq> []"
  using zero_fill_digits [of 16 "digits_of 16 n" k] by (auto simp: show_hex_def zero_fill_def)

lemma show_HEX_digits: "list_all (is_digit 16) (show_HEX k n)" "number 16 0 (show_HEX k n) = n" "show_HEX k n \<noteq> []"
proof -
  have up: "digit_value (toupper c) = digit_value c" if "is_digit 16 c" for c
    using that by (auto simp: is_digit_def digit_value_def toupper_def Let_def split: if_splits)
  have m: "number 16 a (map toupper s) = number 16 a s \<and> list_all (is_digit 16) (map toupper s)" if "list_all (is_digit 16) s" for s a
    using that by (induction s arbitrary: a) (auto simp: number_def is_digit_def up)
  show "list_all (is_digit 16) (show_HEX k n)" "number 16 0 (show_HEX k n) = n"
    using m [of "show_hex k n" 0] show_hex_digits [of k n] by (auto simp: show_HEX_def)
  show "show_HEX k n \<noteq> []" using show_hex_digits [of k n] by (simp add: show_HEX_def)
qed

lemma length_digits_of: "2 \<le> b \<Longrightarrow> b \<le> 16 \<Longrightarrow> 0 < k \<Longrightarrow> n < b ^ k \<Longrightarrow> length (digits_of b n) \<le> k"
proof (induction k arbitrary: n)
  case (Suc k)
  show ?case
  proof (cases "n < b")
    case False
    have "b \<le> n" using False by simp
    moreover have "0 < k" using Suc.prems False by (cases k) auto
    moreover have "n div b < b ^ k" using Suc.prems by (simp add: less_mult_imp_div_less mult.commute)
    ultimately show ?thesis using Suc.IH [of "n div b"] Suc.prems by (subst digits_of.simps) simp
  qed (simp add: digits_of.simps)
qed simp

lemma length_zero_fill: "length s \<le> k \<Longrightarrow> length (zero_fill k s) = k"
  by (simp add: zero_fill_def)

lemma length_show_HEX: "0 < k \<Longrightarrow> n < 16 ^ k \<Longrightarrow> length (show_HEX k n) = k"
  using length_digits_of [of 16 k n] by (simp add: show_HEX_def show_hex_def length_zero_fill)

end
