(* ===== verification/Loader.thy ===== *)
theory Loader
  imports Posix CText
begin

text \<open>
  The loader of the connectivity chip (\<open>combo_loader/loader.c\<close>, \<open>load_fm.c\<close>, \<open>load_ant.c\<close>,
  \<open>load_wifi.c\<close>, \<open>loader_pwr.c\<close>): a program that runs once at boot, asks the detection driver which
  chip there is, remembers the answer in a persistent property, tells the kernel and lets it
  initialise the drivers.  What the program does is a sequence of requests; the kernel's answer to
  a request is a function \<open>env\<close> of the requests and answers so far.  The two loops without a bound
  (waiting for the device node, inserting a module) have fuel, and running out of it is \<open>None\<close>.
\<close>

section \<open>Requests\<close>

datatype ioctl_cmd = COMBO_IOCTL_GET_CHIP_ID | COMBO_IOCTL_SET_CHIP_ID | COMBO_IOCTL_EXT_CHIP_DETECT
  | COMBO_IOCTL_GET_SOC_CHIP_ID | COMBO_IOCTL_DO_MODULE_INIT | COMBO_IOCTL_MODULE_CLEANUP | COMBO_IOCTL_EXT_CHIP_PWR_ON
  | COMBO_IOCTL_EXT_CHIP_PWR_OFF | COMBO_IOCTL_DO_SDIO_AUDOK | WMT_IOCTL_LPBK_POWER_CTRL

text \<open>
  The argument of an \<open>ioctl\<close> is optional.  The answer to \<open>Load_file\<close> is 0 for a null pointer, the
  answer to \<open>Delete_module\<close> 0 or the negated \<open>errno\<close>, every other one what the call returns.
\<close>

datatype request = Open_dev path | Ioctl ioctl_cmd "int option" | Property_set string string | Unlink path | Close_dev
  | Load_file path | Init_module path string | Delete_module string | Chown path nat nat

type_synonym ltrace = "(request \<times> int) list"

record loader_plat =
  env :: "ltrace \<Rightarrow> request \<Rightarrow> int"
  ulong_bits :: nat
  AID_SHELL :: nat
  AID_SYSTEM_ID :: nat

record loader =
  events :: ltrace
  props :: "string \<Rightarrow> string option"
  gLoaderFd :: int
  g_remove_ko_flag :: int

type_synonym 'a ld = "(loader, 'a) state"

definition ask :: "loader_plat \<Rightarrow> request \<Rightarrow> int ld" where
  "ask P r = State (\<lambda>s. let a = env P (events s) r in (a, s\<lparr>events := events s @ [(r, a)]\<rparr>))"

definition ioctl :: "loader_plat \<Rightarrow> ioctl_cmd \<Rightarrow> int option \<Rightarrow> int ld" where
  "ioctl P c arg = ask P (Ioctl c arg)"

text \<open>The length and the value of a property; \<open>property_set\<close> stores the value when it returns 0.\<close>

definition property_get :: "string \<Rightarrow> (int \<times> string) ld" where
  "property_get key = gets (\<lambda>s. case props s key of None \<Rightarrow> (0, '''') | Some v \<Rightarrow> (int (length v), v))"

definition property_set :: "loader_plat \<Rightarrow> string \<Rightarrow> string \<Rightarrow> int ld" where
  "property_set P key v = do {
     r \<leftarrow> ask P (Property_set key v);
     _ \<leftarrow> (if r = 0 then modify (\<lambda>s. s\<lparr>props := (props s)(key \<mapsto> v)\<rparr>) else ret ());
     ret r }"

text \<open>\<open>sprintf ("0x%04x")\<close> of an \<open>int\<close>.\<close>

definition sprintf_chip :: "int \<Rightarrow> string" where
  "sprintf_chip i = ''0x'' @ show_hex 4 (nat (i mod 2 ^ 32))"

section \<open>Inserting modules\<close>

text \<open>At most \<open>n\<close> more attempts; \<open>r\<close> is the result of the last one.\<close>

fun init_tries :: "loader_plat \<Rightarrow> nat \<Rightarrow> path \<Rightarrow> string \<Rightarrow> int \<Rightarrow> int ld" where
  "init_tries P 0 filename args r = ret r"
| "init_tries P (Suc n) filename args r = do {
     r' \<leftarrow> ask P (Init_module filename args);
     if r' < 0 then init_tries P n filename args r' else ret r' }"

definition insmod :: "loader_plat \<Rightarrow> path \<Rightarrow> string \<Rightarrow> int ld" where
  "insmod P filename args = do {
     m \<leftarrow> ask P (Load_file filename);
     if m = 0 then ret (-1) else init_tries P 10 filename args (-1) }"

fun delete_tries :: "loader_plat \<Rightarrow> nat \<Rightarrow> string \<Rightarrow> int \<Rightarrow> int ld" where
  "delete_tries P 0 modname r = ret r"
| "delete_tries P (Suc n) modname r = do {
     a \<leftarrow> ask P (Delete_module modname);
     if a = -11 then delete_tries P n modname (-1) else ret (if a < 0 then -1 else a) }"

definition rmmod :: "loader_plat \<Rightarrow> string \<Rightarrow> int ld" where
  "rmmod P modname = delete_tries P 10 modname (-1)"

fun insmod_retry :: "loader_plat \<Rightarrow> nat \<Rightarrow> path \<Rightarrow> int option ld" where
  "insmod_retry P 0 name = ret None"
| "insmod_retry P (Suc fuel) name = do {
     iRet \<leftarrow> insmod P name '''';
     if iRet \<noteq> 0 then insmod_retry P fuel name else ret (Some 0) }"

definition insmod_by_path :: "loader_plat \<Rightarrow> nat \<Rightarrow> string \<Rightarrow> string \<Rightarrow> string \<Rightarrow> string \<Rightarrow> int option ld" where
  "insmod_by_path P fuel nameBuf modulePath preFix postFix =
     insmod_retry P fuel (nameBuf @ modulePath @ preFix @ postFix @ ''.ko'')"

text \<open>
  The size the code asks for is that of two pointers and two arrays; \<open>nameBufLen\<close> is always 64.
\<close>

definition totalLen :: "loader_plat \<Rightarrow> nat" where
  "totalLen P = ulong_bits P div 8 + ulong_bits P div 8 + 10 + 4"

fun insert_modules :: "loader_plat \<Rightarrow> nat \<Rightarrow> string \<Rightarrow> string \<Rightarrow> nat \<Rightarrow> string list \<Rightarrow> int option ld" where
  "insert_modules P fuel modulePath postFixStr nameBufLen [] = ret (Some 0)"
| "insert_modules P fuel modulePath postFixStr nameBufLen (m # ms) =
     (if totalLen P < nameBufLen
      then do {
        r \<leftarrow> insmod_by_path P fuel '''' modulePath m postFixStr;
        if r = None then ret None else insert_modules P fuel modulePath postFixStr nameBufLen ms }
      else insert_modules P fuel modulePath postFixStr nameBufLen ms)"

definition soc_modulse :: "string list" where
  "soc_modulse = [''mtk_stp_wmt'', ''mtk_stp_bt'', ''mtk_stp_gps'']"

definition combo_modulse :: "string list" where
  "combo_modulse = [''mtk_hif_sdio'', ''mtk_stp_wmt'', ''mtk_stp_uart'', ''mtk_stp_sdio'', ''mtk_stp_bt'', ''mtk_stp_gps'']"

definition insert_wmt_module_for_soc :: "loader_plat \<Rightarrow> nat \<Rightarrow> string \<Rightarrow> nat \<Rightarrow> int option ld" where
  "insert_wmt_module_for_soc P fuel modulePath nameBufLen =
    (if 0 \<ge> nameBufLen then ret (Some (-1)) else insert_modules P fuel modulePath ''_soc'' nameBufLen soc_modulse)"

definition insert_wmt_module_for_combo :: "loader_plat \<Rightarrow> nat \<Rightarrow> string \<Rightarrow> nat \<Rightarrow> int option ld" where
  "insert_wmt_module_for_combo P fuel modulePath nameBufLen =
    (if 0 \<ge> nameBufLen then ret (Some (-1)) else insert_modules P fuel modulePath '''' nameBufLen combo_modulse)"

definition insert_wmt_modules :: "loader_plat \<Rightarrow> nat \<Rightarrow> int \<Rightarrow> int option ld" where
  "insert_wmt_modules P fuel chipid =
    (if chipid \<in> {0x6582, 0x6572, 0x6571, 0x6592, 0x8127, 0x6752, 0x6735, 0x8163, 0x6580, 0x6755, 0x6797}
     then insert_wmt_module_for_soc P fuel ''/system/lib/modules/'' 64
     else if chipid \<in> {0x6620, 0x6628, 0x6630} then insert_wmt_module_for_combo P fuel ''/system/lib/modules/'' 64
     else ret (Some (-1)))"

definition load_fm_module :: "loader_plat \<Rightarrow> int \<Rightarrow> int ld" where
  "load_fm_module P chip_id = insmod P ''/system/lib/modules/mtk_fm_drv.ko'' ''''"

definition load_ant_module :: "loader_plat \<Rightarrow> int \<Rightarrow> int ld" where
  "load_ant_module P chip_id = insmod P ''/system/lib/modules/mtk_stp_ant.ko'' ''''"

text \<open>The Wi-Fi part has its own \<open>insmod\<close>, with one attempt.\<close>

definition wifi_insmod :: "loader_plat \<Rightarrow> path \<Rightarrow> string \<Rightarrow> int ld" where
  "wifi_insmod P filename args = do {
     m \<leftarrow> ask P (Load_file filename);
     if m = 0 then ret (-1) else ask P (Init_module filename args) }"

definition insert_two :: "loader_plat \<Rightarrow> path \<Rightarrow> path \<Rightarrow> int ld" where
  "insert_two P wmt wlan = do {
     a \<leftarrow> wifi_insmod P wmt '''';
     b \<leftarrow> wifi_insmod P wlan '''';
     ret (if a = 0 \<or> b = 0 then 0 else -1) }"

definition load_wifi_module :: "loader_plat \<Rightarrow> int \<Rightarrow> int ld" where
  "load_wifi_module P chip_id =
    (if chip_id = 0x6630 then insert_two P ''/system/lib/modules/mtk_wmt_wifi.ko'' ''/system/lib/modules/wlan_mt6630.ko''
     else if chip_id = 0x6628 then insert_two P ''/system/lib/modules/mtk_wmt_wifi.ko'' ''/system/lib/modules/wlan_mt6628.ko''
     else if chip_id = 0x6620 then ret (-1)
     else insert_two P ''/system/lib/modules/mtk_wmt_wifi_soc.ko'' ''/system/lib/modules/wlan_mt.ko'')"

section \<open>Detection\<close>

definition chipid_array :: "int list" where
  "chipid_array = [0x6620, 0x6628, 0x6630, 0x6572, 0x6582, 0x6592, 0x8127, 0x6571, 0x6752, 0x6735, 0x0321, 0x0335, 0x0337,
     0x8163, 0x6580, 0x6755, 0x0326, 0x6797, 0x0279]"

definition is_chipId_vaild :: "int \<Rightarrow> int" where
  "is_chipId_vaild chipid = (if chipid \<in> set chipid_array then 0 else -1)"

definition probe :: "loader_plat \<Rightarrow> int ld" where
  "probe P = do {
     iRet \<leftarrow> ioctl P COMBO_IOCTL_EXT_CHIP_PWR_ON None;
     if iRet \<noteq> 0 then ret 1 else ioctl P COMBO_IOCTL_EXT_CHIP_DETECT (Some 0) }"

text \<open>The tuning of the SDIO bus, when there is an external chip, and the switching off.\<close>

definition tune_and_off :: "loader_plat \<Rightarrow> int \<Rightarrow> int \<Rightarrow> unit ld" where
  "tune_and_off P noextChip chipId = do {
     _ \<leftarrow> (if noextChip = 0 then ioctl P COMBO_IOCTL_DO_SDIO_AUDOK (Some chipId) else ret 0);
     _ \<leftarrow> ioctl P COMBO_IOCTL_EXT_CHIP_PWR_OFF None;
     ret () }"

text \<open>The loop for a 6630 that is already known; \<open>n\<close> is \<open>retryCounter\<close>.\<close>

fun autok_loop :: "loader_plat \<Rightarrow> nat \<Rightarrow> int \<Rightarrow> unit ld" where
  "autok_loop P 0 chipId = ret ()"
| "autok_loop P (Suc n) chipId0 = do {
     noextChip \<leftarrow> probe P;
     chipId \<leftarrow> (if noextChip \<noteq> 0 then ret chipId0 else ioctl P COMBO_IOCTL_GET_CHIP_ID (Some 0));
     _ \<leftarrow> tune_and_off P noextChip chipId;
     if noextChip = 0 \<and> chipId = -1 then autok_loop P n chipId else ret () }"

abbreviation (input) WCN_COMBO_LOADER_CHIP_ID_PROP :: string where
  "WCN_COMBO_LOADER_CHIP_ID_PROP \<equiv> ''persist.mtk.wcn.combo.chipid''"

text \<open>The loop that finds out which chip there is.\<close>

fun detect_loop :: "loader_plat \<Rightarrow> nat \<Rightarrow> int \<Rightarrow> int ld" where
  "detect_loop P 0 chipId = ret chipId"
| "detect_loop P (Suc n) chipId0 = do {
     noextChip \<leftarrow> probe P;
     chipId \<leftarrow> ioctl P (if noextChip \<noteq> 0 then COMBO_IOCTL_GET_SOC_CHIP_ID else COMBO_IOCTL_GET_CHIP_ID) (Some 0);
     _ \<leftarrow> property_set P WCN_COMBO_LOADER_CHIP_ID_PROP (sprintf_chip chipId);
     _ \<leftarrow> tune_and_off P noextChip chipId;
     if noextChip = 0 \<and> chipId = -1 then detect_loop P n chipId else ret chipId }"

definition find_chip :: "loader_plat \<Rightarrow> int ld" where
  "find_chip P = do {
     (iRet, chipidStr) \<leftarrow> property_get WCN_COMBO_LOADER_CHIP_ID_PROP;
     let chipId = to_int32 (int (strtoul (ulong_bits P) 16 chipidStr));
     if 0 \<noteq> iRet \<and> -1 \<noteq> is_chipId_vaild chipId
     then if 0x6630 = chipId then do { _ \<leftarrow> autok_loop P 10 chipId; ret 0x6630 } else ret chipId
     else detect_loop P 1 chipId }"

section \<open>The program\<close>

definition do_kernel_module_init :: "loader_plat \<Rightarrow> int \<Rightarrow> int \<Rightarrow> int ld" where
  "do_kernel_module_init P fd chipId =
    (if fd < 0 then ret (-1)
     else do {
       iRet \<leftarrow> ioctl P COMBO_IOCTL_MODULE_CLEANUP (Some chipId);
       if iRet \<noteq> 0 then ret (-2)
       else do {
         iRet \<leftarrow> ioctl P COMBO_IOCTL_DO_MODULE_INIT (Some chipId);
         if iRet \<noteq> 0 then ret (-3) else ret 0 } })"

fun open_wait :: "loader_plat \<Rightarrow> nat \<Rightarrow> bool ld" where
  "open_wait P 0 = ret False"
| "open_wait P (Suc fuel) = do {
     fd \<leftarrow> ask P (Open_dev ''/dev/wmtdetect'');
     _ \<leftarrow> modify (\<lambda>s. s\<lparr>gLoaderFd := fd\<rparr>);
     if fd < 0 then open_wait P fuel else ret True }"

definition close_dev :: "loader_plat \<Rightarrow> unit ld" where
  "close_dev P = do {
     fd \<leftarrow> gets gLoaderFd;
     if 0 \<le> fd then do { _ \<leftarrow> ask P Close_dev; modify (\<lambda>s. s\<lparr>gLoaderFd := -1\<rparr>) } else ret () }"

text \<open>The chips whose drivers are those of another one.\<close>

definition kernel_chip :: "int \<Rightarrow> int" where
  "kernel_chip c = (let c = (if c = 0x0321 \<or> c = 0x0335 \<or> c = 0x0337 then 0x6735 else c);
       c = (if c = 0x0326 then 0x6755 else c)
     in if c = 0x0279 then 0x6797 else c)"

definition load_drivers :: "loader_plat \<Rightarrow> nat \<Rightarrow> int \<Rightarrow> int option ld" where
  "load_drivers P fuel chipId = do {
     flag \<leftarrow> gets g_remove_ko_flag;
     if flag \<noteq> 0
     then do {
       fd \<leftarrow> gets gLoaderFd;
       _ \<leftarrow> do_kernel_module_init P fd (kernel_chip chipId);
       _ \<leftarrow> close_dev P;
       ret (Some 0) }
     else do {
       _ \<leftarrow> close_dev P;
       _ \<leftarrow> rmmod P ''mtk_wmt_detect'';
       iRet \<leftarrow> insert_wmt_modules P fuel chipId;
       if iRet = None then ret None
       else do {
         _ \<leftarrow> load_fm_module P chipId;
         _ \<leftarrow> load_ant_module P chipId;
         _ \<leftarrow> load_wifi_module P chipId;
         ret iRet } } }"

definition hand_over :: "loader_plat \<Rightarrow> unit ld" where
  "hand_over P = do {
     r \<leftarrow> ask P (Chown ''/proc/driver/wmt_dbg'' (AID_SHELL P) (AID_SYSTEM_ID P));
     _ \<leftarrow> (if r = -1 then ret 0 else ask P (Chown ''/proc/driver/wmt_aee'' (AID_SHELL P) (AID_SYSTEM_ID P)));
     _ \<leftarrow> ask P (Chown ''/proc/wmt_tm/wmt_tm'' 0 1000);
     ret () }"

abbreviation (input) WCN_DRIVER_READY_PROP :: string where
  "WCN_DRIVER_READY_PROP \<equiv> ''service.wcn.driver.ready''"

text \<open>What follows the detection.\<close>

definition loader_finish :: "loader_plat \<Rightarrow> nat \<Rightarrow> int \<Rightarrow> int option ld" where
  "loader_finish P fuel chipId = do {
     _ \<leftarrow> ioctl P COMBO_IOCTL_SET_CHIP_ID (Some chipId);
     _ \<leftarrow> ask P (Unlink ''/dev/wmtWifi'');
     r \<leftarrow> load_drivers P fuel chipId;
     if r = None then ret None
     else do {
       _ \<leftarrow> hand_over P;
       _ \<leftarrow> property_get WCN_DRIVER_READY_PROP;
       iRet \<leftarrow> property_set P WCN_DRIVER_READY_PROP ''yes'';
       ret (Some iRet) } }"

definition loader_main :: "loader_plat \<Rightarrow> nat \<Rightarrow> int option ld" where
  "loader_main P fuel = do {
     ok \<leftarrow> open_wait P fuel;
     if \<not> ok then ret None
     else do {
       chipId \<leftarrow> find_chip P;
       loader_finish P fuel chipId } }"

text \<open>The switch of the chip's power, which no path of the program reaches.\<close>

definition loader_wmt_pwr_ctrl :: "loader_plat \<Rightarrow> int \<Rightarrow> int ld" where
  "loader_wmt_pwr_ctrl P on = do {
     wmt_fd \<leftarrow> ask P (Open_dev ''/dev/stpwmt'');
     if wmt_fd < 0 then ret (-1)
     else do {
       r \<leftarrow> ioctl P WMT_IOCTL_LPBK_POWER_CTRL (Some (if on = 0 then 0 else 1));
       _ \<leftarrow> ask P Close_dev;
       ret (if r \<noteq> 0 then -2 else 0) } }"

text \<open>The state at the start of the process, with the properties of the system.\<close>

definition loader_started :: "(string \<Rightarrow> string option) \<Rightarrow> loader" where
  "loader_started ps = \<lparr>events = [], props = ps, gLoaderFd = -1, g_remove_ko_flag = 1\<rparr>"

end
