(* ===== verification/LoaderRun.thy ===== *)
theory LoaderRun
  imports Loader Running
begin

text \<open>
  What the loader does whatever the kernel answers.  \<open>lwp m Q s\<close>: the run of \<open>m\<close> from \<open>s\<close> adds
  requests \<open>es\<close> to the trace and ends with a result and a state such that \<open>Q\<close> holds of the three;
  the rules below take a body apart request by request.
\<close>

section \<open>Requests of a run\<close>

definition lwp :: "'a ld \<Rightarrow> ('a \<Rightarrow> ltrace \<Rightarrow> loader \<Rightarrow> bool) \<Rightarrow> loader \<Rightarrow> bool" where
  "lwp m Q s \<longleftrightarrow> (\<exists>es. events (snd (run_state m s)) = events s @ es \<and> Q (fst (run_state m s)) es (snd (run_state m s)))"

named_theorems lw "rules for the requests of a run"

lemma lwp_ret [lw]: "Q x [] s \<Longrightarrow> lwp (ret x) Q s"
  by (simp add: lwp_def)

lemma lwp_bind [lw]: "lwp m (\<lambda>x es t. lwp (f x) (\<lambda>y fs u. Q y (es @ fs) u) t) s \<Longrightarrow> lwp (State_Monad.bind m f) Q s"
  unfolding lwp_def by (auto simp: case_prod_unfold)

lemma lwp_ask [lw]:
  "(\<And>a. a = env P (events s) r \<Longrightarrow> Q a [(r, a)] (s\<lparr>events := events s @ [(r, a)]\<rparr>)) \<Longrightarrow> lwp (ask P r) Q s"
  by (simp add: lwp_def ask_def Let_def)

lemma lwp_ioctl [lw]:
  "(\<And>a. Q a [(Ioctl c arg, a)] (s\<lparr>events := events s @ [(Ioctl c arg, a)]\<rparr>)) \<Longrightarrow> lwp (ioctl P c arg) Q s"
  by (simp add: ioctl_def lwp_ask)

lemma lwp_gets [lw]: "Q (f s) [] s \<Longrightarrow> lwp (gets f) Q s"
  by (simp add: lwp_def gets_def)

lemma lwp_modify [lw]: "events (f s) = events s \<Longrightarrow> Q () [] (f s) \<Longrightarrow> lwp (modify f) Q s"
  by (simp add: lwp_def modify_def)

lemma lwp_if [lw]: "(c \<Longrightarrow> lwp m Q s) \<Longrightarrow> (\<not> c \<Longrightarrow> lwp n Q s) \<Longrightarrow> lwp (if c then m else n) Q s"
  by simp

lemma lwp_mono: "lwp m Q s \<Longrightarrow> (\<And>x es t. Q x es t \<Longrightarrow> R x es t) \<Longrightarrow> lwp m R s"
  by (auto simp: lwp_def)

lemma lwp_prod [lw]: "(\<And>a b. x = (a, b) \<Longrightarrow> lwp (f a b) Q s) \<Longrightarrow> lwp (case x of (a, b) \<Rightarrow> f a b) Q s"
  by (cases x) simp

lemma lwp_let [lw]: "lwp (f x) Q s \<Longrightarrow> lwp (let y = x in f y) Q s"
  by simp

lemma lwp_property_get [lw]: "Q (case props s k of None \<Rightarrow> (0, '''') | Some v \<Rightarrow> (int (length v), v)) [] s \<Longrightarrow>
    lwp (property_get k) Q s"
  by (simp add: property_get_def lwp_def gets_def)

lemma lwp_property_set [lw]:
  assumes "\<And>a u. events u = events s @ [(Property_set k v, a)] \<Longrightarrow> gLoaderFd u = gLoaderFd s \<Longrightarrow>
    g_remove_ko_flag u = g_remove_ko_flag s \<Longrightarrow> props u = (if a = 0 then (props s)(k \<mapsto> v) else props s) \<Longrightarrow>
    Q a [(Property_set k v, a)] u"
  shows "lwp (property_set P k v) Q s"
  unfolding property_set_def by (intro lw) (auto intro!: assms)

section \<open>Power\<close>

text \<open>
  The power of the external chip over a trace: it may be looked for and asked only while it is on,
  and switched on only while it is off.  \<open>None\<close> is a violation.
\<close>

fun power_run :: "bool \<Rightarrow> ltrace \<Rightarrow> bool option" where
  "power_run on [] = Some on"
| "power_run on ((Ioctl c arg, a) # es) =
     (if c = COMBO_IOCTL_EXT_CHIP_PWR_ON then (if on then None else power_run (a = 0) es)
      else if c = COMBO_IOCTL_EXT_CHIP_PWR_OFF then power_run False es
      else if c \<in> {COMBO_IOCTL_EXT_CHIP_DETECT, COMBO_IOCTL_GET_CHIP_ID, COMBO_IOCTL_DO_SDIO_AUDOK} \<and> \<not> on then None
      else power_run on es)"
| "power_run on (e # es) = power_run on es"

lemma power_run_append: "power_run on (es @ ds) = Option.bind (power_run on es) (\<lambda>on'. power_run on' ds)"
  by (induction on es rule: power_run.induct) auto

definition quiet :: "request \<Rightarrow> bool" where
  "quiet r \<longleftrightarrow> (case r of Ioctl c _ \<Rightarrow> c \<in> {COMBO_IOCTL_SET_CHIP_ID, COMBO_IOCTL_MODULE_CLEANUP, COMBO_IOCTL_DO_MODULE_INIT,
     COMBO_IOCTL_GET_SOC_CHIP_ID} | _ \<Rightarrow> True)"

lemma power_quiet: "list_all (\<lambda>e. quiet (fst e)) es \<Longrightarrow> power_run on es = Some on"
  by (induction on es rule: power_run.induct) (auto simp: quiet_def)

abbreviation silent :: "'a ld \<Rightarrow> bool" where
  "silent m \<equiv> \<forall>s. lwp m (\<lambda>_ es _. list_all (\<lambda>e. quiet (fst e)) es) s"

lemma silentD: "silent m \<Longrightarrow> (\<And>x es t. list_all (\<lambda>e. quiet (fst e)) es \<Longrightarrow> Q x es t) \<Longrightarrow> lwp m Q s"
  by (rule lwp_mono [of m "\<lambda>_ es _. list_all (\<lambda>e. quiet (fst e)) es"]) auto

lemma silent_open_wait: "silent (open_wait P n)"
  by (induction n) (auto intro!: lw simp: quiet_def elim!: silentD)

lemma silent_init_tries: "silent (init_tries P n f args r)"
  by (induction n arbitrary: r) (auto intro!: lw simp: quiet_def elim!: silentD)

lemma silent_insmod: "silent (insmod P f args)"
  unfolding insmod_def by (auto intro!: lw silentD [OF silent_init_tries] simp: quiet_def)

lemma silent_delete_tries: "silent (delete_tries P n m r)"
  by (induction n arbitrary: r) (auto intro!: lw simp: quiet_def elim!: silentD)

lemma silent_insmod_retry: "silent (insmod_retry P n f)"
  by (induction n) (auto intro!: lw silentD [OF silent_insmod] elim!: silentD)

lemma silent_insert_modules: "silent (insert_modules P n mp post len ms)"
  by (induction ms) (auto intro!: lw silentD [OF silent_insmod_retry] simp: insmod_by_path_def elim!: silentD)

lemma silent_wifi: "silent (insert_two P a b)"
  unfolding insert_two_def wifi_insmod_def by (auto intro!: lw simp: quiet_def)

lemma silent_close: "silent (close_dev P)"
  unfolding close_dev_def by (auto intro!: lw simp: quiet_def)

lemma silent_drivers: "silent (load_drivers P n c)"
  unfolding load_drivers_def do_kernel_module_init_def rmmod_def insert_wmt_modules_def insert_wmt_module_for_soc_def
    insert_wmt_module_for_combo_def load_fm_module_def load_ant_module_def load_wifi_module_def
  by (auto intro!: lw silentD [OF silent_close] silentD [OF silent_delete_tries] silentD [OF silent_insert_modules]
      silentD [OF silent_insmod] silentD [OF silent_wifi] simp: quiet_def)

lemma silent_hand_over: "silent (hand_over P)"
  unfolding hand_over_def by (auto intro!: lw simp: quiet_def)

fun power_ons :: "ltrace \<Rightarrow> nat" where
  "power_ons [] = 0"
| "power_ons ((Ioctl c arg, a) # es) = (if c = COMBO_IOCTL_EXT_CHIP_PWR_ON then 1 else 0) + power_ons es"
| "power_ons (e # es) = power_ons es"

lemma power_ons_append [simp]: "power_ons (es @ ds) = power_ons es + power_ons ds"
  by (induction es rule: power_ons.induct) auto

lemma power_ons_quiet: "list_all (\<lambda>e. quiet (fst e)) es \<Longrightarrow> power_ons es = 0"
  by (induction es rule: power_ons.induct) (auto simp: quiet_def)

text \<open>The chip is off before and after, and has been switched on at most \<open>n\<close> times.\<close>

definition powered :: "nat \<Rightarrow> ltrace \<Rightarrow> bool" where
  "powered n es \<longleftrightarrow> power_run False es = Some False \<and> power_ons es \<le> n"

lemma powered_append: "powered n es \<Longrightarrow> powered m ds \<Longrightarrow> powered (n + m) (es @ ds)"
  by (simp add: powered_def power_run_append)

lemma powered_quiet: "list_all (\<lambda>e. quiet (fst e)) es \<Longrightarrow> powered 0 es"
  by (simp add: powered_def power_quiet power_ons_quiet)

lemma power_probe: "lwp (probe P) (\<lambda>r es _. \<exists>on. power_run False es = Some on \<and> (r = 0 \<longrightarrow> on) \<and> power_ons es = 1) s"
  unfolding probe_def by (intro lw) auto

lemma power_tune: "(r = 0 \<longrightarrow> on) \<Longrightarrow> lwp (tune_and_off P r c) (\<lambda>_ es _. power_run on es = Some False \<and> power_ons es = 0) s"
  unfolding tune_and_off_def by (intro lw) auto

lemma power_round:
  assumes "\<And>r on t. (r = 0 \<longrightarrow> on) \<Longrightarrow> lwp (f r) (\<lambda>_ es _. power_run on es = Some False \<and> power_ons es \<le> n) t"
  shows "lwp (State_Monad.bind (probe P) f) (\<lambda>_ es _. powered (Suc n) es) s"
proof (rule lwp_bind, rule lwp_mono [OF power_probe])
  fix r :: int and es t
  assume "\<exists>on. power_run False es = Some on \<and> (r = 0 \<longrightarrow> on) \<and> power_ons es = 1"
  then obtain on where on: "power_run False es = Some on" "r = 0 \<longrightarrow> on" "power_ons es = 1" by blast
  show "lwp (f r) (\<lambda>_ ds _. powered (Suc n) (es @ ds)) t"
    by (rule lwp_mono [OF assms [OF on(2)]]) (use on in \<open>simp add: powered_def power_run_append\<close>)
qed

lemma power_autok: "lwp (autok_loop P n c) (\<lambda>_ es _. powered n es) s"
proof (induction n arbitrary: c s)
  case 0
  then show ?case by (auto intro!: lw simp: powered_def)
next
  case (Suc n)
  show ?case
    unfolding autok_loop.simps
    by (rule power_round, intro lw) (auto intro!: lw lwp_mono [OF power_tune] lwp_mono [OF Suc] simp: powered_def power_run_append)
qed

lemma power_detect: "lwp (detect_loop P n c) (\<lambda>_ es _. powered n es) s"
proof (induction n arbitrary: c s)
  case 0
  then show ?case by (auto intro!: lw simp: powered_def)
next
  case (Suc n)
  show ?case
    unfolding detect_loop.simps
    by (rule power_round, intro lw) (auto intro!: lw lwp_mono [OF power_tune] lwp_mono [OF Suc] simp: powered_def power_run_append)
qed

lemma power_find: "lwp (find_chip P) (\<lambda>_ es _. powered 10 es) s"
  unfolding find_chip_def
  by (auto intro!: lw lwp_mono [OF power_autok] lwp_mono [OF power_detect] simp: powered_def)


section \<open>The chip that is told\<close>

text \<open>The chip the property names, when it names one of the table.\<close>

definition stored_chip :: "loader_plat \<Rightarrow> (string \<Rightarrow> string option) \<Rightarrow> int option" where
  "stored_chip P ps = (case ps WCN_COMBO_LOADER_CHIP_ID_PROP of None \<Rightarrow> None
     | Some v \<Rightarrow> let c = to_int32 (int (strtoul (ulong_bits P) 16 v)) in
         if v \<noteq> '''' \<and> c \<in> set chipid_array then Some c else None)"

text \<open>The requests of the detection.\<close>

definition detecting :: "request \<Rightarrow> bool" where
  "detecting r \<longleftrightarrow> (case r of Ioctl c _ \<Rightarrow> c \<notin> {COMBO_IOCTL_SET_CHIP_ID, COMBO_IOCTL_MODULE_CLEANUP, COMBO_IOCTL_DO_MODULE_INIT}
     | Property_set k _ \<Rightarrow> k = WCN_COMBO_LOADER_CHIP_ID_PROP | Open_dev _ \<Rightarrow> True | _ \<Rightarrow> False)"

definition chip_answers :: "ltrace \<Rightarrow> int list" where
  "chip_answers es = map snd (filter (\<lambda>e. \<exists>arg. fst e \<in> {Ioctl COMBO_IOCTL_GET_CHIP_ID arg, Ioctl COMBO_IOCTL_GET_SOC_CHIP_ID arg}) es)"

definition same_vars :: "loader \<Rightarrow> loader \<Rightarrow> bool" where
  "same_vars s t \<longleftrightarrow> gLoaderFd t = gLoaderFd s \<and> g_remove_ko_flag t = g_remove_ko_flag s"

lemma detect_probe: "lwp (probe P) (\<lambda>r es t. list_all (\<lambda>e. detecting (fst e)) es \<and> chip_answers es = [] \<and> same_vars s t \<and> props t = props s) s"
  unfolding probe_def by (intro lw) (auto simp: detecting_def chip_answers_def same_vars_def)

lemma detect_tune:
  "lwp (tune_and_off P r c) (\<lambda>_ es t. list_all (\<lambda>e. detecting (fst e)) es \<and> chip_answers es = [] \<and> same_vars s t \<and> props t = props s) s"
  unfolding tune_and_off_def by (intro lw) (auto simp: detecting_def chip_answers_def same_vars_def)

lemma detect_autok:
  "lwp (autok_loop P n c) (\<lambda>_ es t. list_all (\<lambda>e. detecting (fst e)) es \<and> same_vars s t \<and> props t = props s) s"
proof (induction n arbitrary: c s)
  case 0
  then show ?case by (auto intro!: lw simp: same_vars_def)
next
  case (Suc n)
  show ?case
    unfolding autok_loop.simps
    by (intro lw lwp_mono [OF detect_probe] lwp_mono [OF detect_tune] lwp_mono [OF Suc])
       (auto simp: same_vars_def detecting_def)
qed

lemma chip_answers_append: "chip_answers (es @ ds) = chip_answers es @ chip_answers ds"
  by (simp add: chip_answers_def)

lemma detect_new:
  "lwp (detect_loop P 1 c) (\<lambda>d es t. list_all (\<lambda>e. detecting (fst e)) es \<and> same_vars s t \<and> chip_answers es = [d] \<and>
     (\<exists>a. (Property_set WCN_COMBO_LOADER_CHIP_ID_PROP (sprintf_chip d), a) \<in> set es \<and>
        props t = (if a = 0 then (props s)(WCN_COMBO_LOADER_CHIP_ID_PROP \<mapsto> sprintf_chip d) else props s))) s"
  unfolding One_nat_def detect_loop.simps
  by (intro lw lwp_mono [OF detect_probe] lwp_mono [OF detect_tune])
     (auto simp: same_vars_def detecting_def chip_answers_append, auto simp: chip_answers_def)

definition found :: "loader_plat \<Rightarrow> loader \<Rightarrow> int \<Rightarrow> ltrace \<Rightarrow> loader \<Rightarrow> bool" where
  "found P s c es t \<longleftrightarrow> list_all (\<lambda>e. detecting (fst e)) es \<and> same_vars s t \<and>
     (case stored_chip P (props s) of
       Some d \<Rightarrow> c = d \<and> props t = props s \<and> (d \<noteq> 0x6630 \<longrightarrow> es = [])
     | None \<Rightarrow> chip_answers es = [c] \<and> (\<exists>a. (Property_set WCN_COMBO_LOADER_CHIP_ID_PROP (sprintf_chip c), a) \<in> set es \<and>
         props t = (if a = 0 then (props s)(WCN_COMBO_LOADER_CHIP_ID_PROP \<mapsto> sprintf_chip c) else props s)))"

lemma find_found: "lwp (find_chip P) (found P s) s"
proof (cases "stored_chip P (props s)")
  case None
  then show ?thesis
    unfolding find_chip_def
    by (intro lw lwp_mono [OF detect_new] lwp_mono [OF detect_autok])
       (auto simp: stored_chip_def found_def is_chipId_vaild_def Let_def split: option.splits if_splits)
next
  case (Some d)
  then show ?thesis
    unfolding find_chip_def
    by (intro lw lwp_mono [OF detect_new] lwp_mono [OF detect_autok])
       (auto simp: stored_chip_def found_def is_chipId_vaild_def same_vars_def Let_def split: option.splits if_splits)
qed

section \<open>The run of the program\<close>

text \<open>The device node is there at attempt \<open>k\<close>, whatever has been answered before.\<close>

definition node_by :: "loader_plat \<Rightarrow> nat \<Rightarrow> bool" where
  "node_by P k \<longleftrightarrow> (\<forall>es. length es = k \<longrightarrow> 0 \<le> env P es (Open_dev ''/dev/wmtdetect''))"

lemma open_found:
  "lwp (open_wait P n) (\<lambda>ok es t. list_all (\<lambda>e. fst e = Open_dev ''/dev/wmtdetect'') es \<and> props t = props s \<and>
     g_remove_ko_flag t = g_remove_ko_flag s \<and> (ok \<longrightarrow> 0 \<le> gLoaderFd t) \<and>
     (node_by P k \<and> length (events s) \<le> k \<and> k < length (events s) + n \<longrightarrow> ok)) s"
proof (induction n arbitrary: s)
  case 0
  then show ?case by (auto intro!: lw)
next
  case (Suc n)
  show ?case
    unfolding open_wait.simps
    by (intro lw lwp_mono [OF Suc]) (auto simp: node_by_def Suc_le_eq order_le_less)
qed

text \<open>What is requested after the detection, with the answers the program looks at.\<close>

definition closing :: "loader_plat \<Rightarrow> int \<Rightarrow> int \<Rightarrow> int \<Rightarrow> request list" where
  "closing P c a b = [Ioctl COMBO_IOCTL_SET_CHIP_ID (Some c), Unlink ''/dev/wmtWifi'',
     Ioctl COMBO_IOCTL_MODULE_CLEANUP (Some (kernel_chip c))] @
     (if a = 0 then [Ioctl COMBO_IOCTL_DO_MODULE_INIT (Some (kernel_chip c))] else []) @
     [Close_dev, Chown ''/proc/driver/wmt_dbg'' (AID_SHELL P) (AID_SYSTEM_ID P)] @
     (if b = -1 then [] else [Chown ''/proc/driver/wmt_aee'' (AID_SHELL P) (AID_SYSTEM_ID P)]) @
     [Chown ''/proc/wmt_tm/wmt_tm'' 0 1000, Property_set WCN_DRIVER_READY_PROP ''yes'']"

definition after_detection :: "loader_plat \<Rightarrow> int \<Rightarrow> ltrace \<Rightarrow> bool" where
  "after_detection P c ds \<longleftrightarrow> (\<exists>a b. map fst ds = closing P c a b \<and> (Ioctl COMBO_IOCTL_MODULE_CLEANUP (Some (kernel_chip c)), a) \<in> set ds \<and>
     (Chown ''/proc/driver/wmt_dbg'' (AID_SHELL P) (AID_SYSTEM_ID P), b) \<in> set ds)"

lemma drivers_run:
  assumes "0 \<le> gLoaderFd s" and "g_remove_ko_flag s \<noteq> 0"
  shows "lwp (load_drivers P n c) (\<lambda>r es t. r = Some 0 \<and> props t = props s \<and> gLoaderFd t = -1 \<and>
    (\<exists>a. map fst es = [Ioctl COMBO_IOCTL_MODULE_CLEANUP (Some (kernel_chip c))] @
       (if a = 0 then [Ioctl COMBO_IOCTL_DO_MODULE_INIT (Some (kernel_chip c))] else []) @ [Close_dev] \<and>
       (Ioctl COMBO_IOCTL_MODULE_CLEANUP (Some (kernel_chip c)), a) \<in> set es)) s"
  unfolding load_drivers_def do_kernel_module_init_def close_dev_def
  by (intro lw) (use assms in auto)

lemma hand_over_run:
  "lwp (hand_over P) (\<lambda>_ es t. props t = props s \<and> gLoaderFd t = gLoaderFd s \<and>
    (\<exists>b. map fst es = [Chown ''/proc/driver/wmt_dbg'' (AID_SHELL P) (AID_SYSTEM_ID P)] @
      (if b = -1 then [] else [Chown ''/proc/driver/wmt_aee'' (AID_SHELL P) (AID_SYSTEM_ID P)]) @ [Chown ''/proc/wmt_tm/wmt_tm'' 0 1000] \<and>
      (Chown ''/proc/driver/wmt_dbg'' (AID_SHELL P) (AID_SYSTEM_ID P), b) \<in> set es)) s"
  unfolding hand_over_def by (intro lw) auto

lemma after_detectionI:
  assumes "map fst es = [Ioctl COMBO_IOCTL_MODULE_CLEANUP (Some (kernel_chip c))] @
       (if a = 0 then [Ioctl COMBO_IOCTL_DO_MODULE_INIT (Some (kernel_chip c))] else []) @ [Close_dev]"
    and "(Ioctl COMBO_IOCTL_MODULE_CLEANUP (Some (kernel_chip c)), a) \<in> set es"
    and "map fst ds = [Chown ''/proc/driver/wmt_dbg'' (AID_SHELL P) (AID_SYSTEM_ID P)] @
      (if b = -1 then [] else [Chown ''/proc/driver/wmt_aee'' (AID_SHELL P) (AID_SYSTEM_ID P)]) @ [Chown ''/proc/wmt_tm/wmt_tm'' 0 1000]"
    and "(Chown ''/proc/driver/wmt_dbg'' (AID_SHELL P) (AID_SYSTEM_ID P), b) \<in> set ds"
  shows "after_detection P c ((Ioctl COMBO_IOCTL_SET_CHIP_ID (Some c), x) # (Unlink ''/dev/wmtWifi'', y) # es @ ds @
    [(Property_set WCN_DRIVER_READY_PROP ''yes'', z)])"
  unfolding after_detection_def closing_def using assms by (intro exI [of _ a] exI [of _ b]) simp

lemma finish_run:
  assumes "0 \<le> gLoaderFd s" and "g_remove_ko_flag s \<noteq> 0"
  shows "lwp (loader_finish P n c) (\<lambda>r es t. r \<noteq> None \<and> after_detection P c es \<and>
    (\<forall>x. x \<noteq> WCN_DRIVER_READY_PROP \<longrightarrow> props t x = props s x)) s"
  unfolding loader_finish_def
  by (intro lw lwp_mono [OF drivers_run] lwp_mono [OF hand_over_run]) (use assms in \<open>auto intro: after_detectionI\<close>)

text \<open>A complete run: waiting, detection, conclusion.\<close>

definition complete_run :: "loader_plat \<Rightarrow> loader \<Rightarrow> int \<Rightarrow> ltrace \<Rightarrow> loader \<Rightarrow> bool" where
  "complete_run P s c es t \<longleftrightarrow> (\<exists>os ps ds u v. es = os @ ps @ ds \<and> list_all (\<lambda>e. fst e = Open_dev ''/dev/wmtdetect'') os \<and>
     found P u c ps v \<and> props u = props s \<and> after_detection P c ds \<and> (\<forall>x. x \<noteq> WCN_DRIVER_READY_PROP \<longrightarrow> props t x = props v x))"

lemma complete_runI:
  "list_all (\<lambda>e. fst e = Open_dev ''/dev/wmtdetect'') os \<Longrightarrow> found P u c ps v \<Longrightarrow> props u = props s \<Longrightarrow> after_detection P c ds \<Longrightarrow>
   \<forall>x. x \<noteq> WCN_DRIVER_READY_PROP \<longrightarrow> props t x = props v x \<Longrightarrow> complete_run P s c (os @ ps @ ds) t"
  unfolding complete_run_def by (rule exI [of _ os], rule exI [of _ ps], rule exI [of _ ds], rule exI [of _ u], rule exI [of _ v]) simp

lemma main_run:
  assumes "g_remove_ko_flag s \<noteq> 0"
  shows "lwp (loader_main P fuel) (\<lambda>r es t. (node_by P k \<and> events s = [] \<and> k < fuel \<longrightarrow> r \<noteq> None) \<and>
    (r \<noteq> None \<longrightarrow> (\<exists>c. complete_run P s c es t))) s"
  unfolding loader_main_def
proof (rule lwp_bind, rule lwp_mono [OF open_found [where k = k]])
  fix ok and es :: ltrace and t :: loader
  assume o: "list_all (\<lambda>e. fst e = Open_dev ''/dev/wmtdetect'') es \<and> props t = props s \<and> g_remove_ko_flag t = g_remove_ko_flag s \<and>
    (ok \<longrightarrow> 0 \<le> gLoaderFd t) \<and> (node_by P k \<and> length (events s) \<le> k \<and> k < length (events s) + fuel \<longrightarrow> ok)"
  show "lwp (if \<not> ok then ret None else do { chipId \<leftarrow> find_chip P; loader_finish P fuel chipId })
    (\<lambda>r ds u. (node_by P k \<and> events s = [] \<and> k < fuel \<longrightarrow> r \<noteq> None) \<and> (r \<noteq> None \<longrightarrow> (\<exists>c. complete_run P s c (es @ ds) u))) t"
  proof (intro lw lwp_mono [OF find_found] lwp_mono [OF finish_run])
    fix c and ps qs :: ltrace and v u :: loader and r :: "int option"
    assume f: "found P t c ps v" and r: "r \<noteq> None \<and> after_detection P c qs \<and> (\<forall>x. x \<noteq> WCN_DRIVER_READY_PROP \<longrightarrow> props u x = props v x)"
    have "complete_run P s c (es @ ps @ qs) u"
      by (rule complete_runI [OF _ f]) (use o r in simp_all)
    then show "(node_by P k \<and> events s = [] \<and> k < fuel \<longrightarrow> r \<noteq> None) \<and>
        (r \<noteq> None \<longrightarrow> (\<exists>c. complete_run P s c (es @ ps @ qs) u))"
      using r by blast
  qed (use o assms in \<open>auto simp: found_def same_vars_def\<close>)
qed

section \<open>The property\<close>

text \<open>What the detection writes into the property is what the next start reads from it.\<close>

lemma chip_text_round_trip:
  assumes "0 \<le> c" and "c < 2 ^ 31" and "32 \<le> bits"
  shows "to_int32 (int (strtoul bits 16 (sprintf_chip c))) = c" and "sprintf_chip c \<noteq> ''''"
proof -
  have s: "sprintf_chip c = ''0x'' @ show_hex 4 (nat c)" using assms(1,2) by (simp add: sprintf_chip_def)
  then show "sprintf_chip c \<noteq> ''''" by simp
  have "(2 :: nat) ^ 31 \<le> 2 ^ bits" by (rule power_increasing) (use assms(3) in auto)
  moreover have "nat c < 2 ^ 31" using assms(1,2) by (simp add: nat_less_iff)
  ultimately have "\<not> 2 ^ bits \<le> nat c" by linarith
  then have "strtoul bits 16 (sprintf_chip c) = nat c"
    unfolding s strtoul_def by (simp add: read_hex_prefix show_hex_digits)
  then show "to_int32 (int (strtoul bits 16 (sprintf_chip c))) = c" using assms(1,2) by simp
qed

lemma chip_range: "c \<in> set chipid_array \<Longrightarrow> 0 \<le> c \<and> c < 2 ^ 31"
  by (auto simp: chipid_array_def)

lemma stored_written: "c \<in> set chipid_array \<Longrightarrow> 32 \<le> ulong_bits P \<Longrightarrow> ps WCN_COMBO_LOADER_CHIP_ID_PROP = Some (sprintf_chip c) \<Longrightarrow>
    stored_chip P ps = Some c"
  using chip_range [of c] chip_text_round_trip [of c "ulong_bits P"] by (simp add: stored_chip_def Let_def)

section \<open>Properties\<close>

lemma loader_ends:
  assumes "g_remove_ko_flag s \<noteq> 0" and "events s = []" and "node_by P k" and "k < fuel"
  shows "\<exists>r t c. run_state (loader_main P fuel) s = (Some r, t) \<and> complete_run P s c (events t) t"
proof -
  have "lwp (loader_main P fuel) (\<lambda>r es t. (node_by P k \<and> events s = [] \<and> k < fuel \<longrightarrow> r \<noteq> None) \<and>
    (r \<noteq> None \<longrightarrow> (\<exists>c. complete_run P s c es t))) s" by (rule main_run [OF assms(1)])
  then have e: "\<exists>c. complete_run P s c (events (snd (run_state (loader_main P fuel) s))) (snd (run_state (loader_main P fuel) s))"
    and n: "fst (run_state (loader_main P fuel) s) \<noteq> None"
    using assms(2-4) by (auto simp: lwp_def)
  from n obtain r where "fst (run_state (loader_main P fuel) s) = Some r" by blast
  with e show ?thesis by (metis prod.collapse)
qed

text \<open>
  C19.  When the device node appears, the loader ends, and has told the kernel one chip: the one the
  property names when that is in the table, else the one the kernel has just detected and no other.
  After that it cleans up and initialises the modules of this chip (of the one it stands for), the
  second only when the first has succeeded, closes the device, and declares the driver ready.
\<close>

theorem loader_completes:
  assumes "g_remove_ko_flag s \<noteq> 0" and "events s = []" and "node_by P k" and "k < fuel"
  shows "\<exists>r t c es ds. run_state (loader_main P fuel) s = (Some r, t) \<and> events t = es @ ds \<and> list_all (\<lambda>e. detecting (fst e)) es \<and>
    (case stored_chip P (props s) of Some d \<Rightarrow> c = d | None \<Rightarrow> chip_answers es = [c]) \<and> after_detection P c ds"
proof -
  obtain r t c where r: "run_state (loader_main P fuel) s = (Some r, t)" and "complete_run P s c (events t) t"
    using loader_ends [OF assms] by blast
  then obtain os ps ds u v where c: "events t = os @ ps @ ds" "list_all (\<lambda>e. fst e = Open_dev ''/dev/wmtdetect'') os"
    "found P u c ps v" "props u = props s" "after_detection P c ds"
    by (auto simp: complete_run_def)
  have "list_all (\<lambda>e. detecting (fst e)) os \<and> chip_answers os = []"
    using c(2) by (induction os) (auto simp: detecting_def chip_answers_def)
  then show ?thesis
    using r c by (intro exI [of _ r] exI [of _ t] exI [of _ c] exI [of _ "os @ ps"] exI [of _ ds])
      (auto simp: found_def chip_answers_append split: option.splits)
qed

lemma complete_told:
  assumes "complete_run P s c es t"
  shows "(Ioctl COMBO_IOCTL_SET_CHIP_ID (Some d), a) \<in> set es \<Longrightarrow> d = c"
    and "stored_chip P (props s) = Some d \<Longrightarrow> c = d \<and> props t WCN_COMBO_LOADER_CHIP_ID_PROP = props s WCN_COMBO_LOADER_CHIP_ID_PROP"
    and "stored_chip P (props s) = None \<Longrightarrow> (\<And>v b. (Property_set WCN_COMBO_LOADER_CHIP_ID_PROP v, b) \<in> set es \<Longrightarrow> b = 0) \<Longrightarrow>
      props t WCN_COMBO_LOADER_CHIP_ID_PROP = Some (sprintf_chip c)"
    and "stored_chip P (props s) = Some d \<Longrightarrow> d \<noteq> 0x6630 \<Longrightarrow> (Ioctl x arg, a) \<in> set es \<Longrightarrow>
      x \<in> {COMBO_IOCTL_SET_CHIP_ID, COMBO_IOCTL_MODULE_CLEANUP, COMBO_IOCTL_DO_MODULE_INIT}"
proof -
  from assms obtain os ps ds u v where c: "es = os @ ps @ ds" "list_all (\<lambda>e. fst e = Open_dev ''/dev/wmtdetect'') os"
    "found P u c ps v" "props u = props s" "after_detection P c ds" "\<forall>x. x \<noteq> WCN_DRIVER_READY_PROP \<longrightarrow> props t x = props v x"
    by (auto simp: complete_run_def)
  obtain a' b' where d: "map fst ds = closing P c a' b'" using c(5) by (auto simp: after_detection_def)
  have m: "fst e \<in> set (closing P c a' b')" if "e \<in> set ds" for e
    using that d by (metis imageI list.set_map)
  note defs = found_def detecting_def closing_def list_all_iff
  show "(Ioctl COMBO_IOCTL_SET_CHIP_ID (Some d), a) \<in> set es \<Longrightarrow> d = c"
    using c(1-3) m [of "(Ioctl COMBO_IOCTL_SET_CHIP_ID (Some d), a)"] by (fastforce simp: defs split: if_splits)
  have p: "props t WCN_COMBO_LOADER_CHIP_ID_PROP = props v WCN_COMBO_LOADER_CHIP_ID_PROP" using c(6) by simp
  show "stored_chip P (props s) = Some d \<Longrightarrow> c = d \<and> props t WCN_COMBO_LOADER_CHIP_ID_PROP = props s WCN_COMBO_LOADER_CHIP_ID_PROP"
    using c(3,4) p by (simp add: found_def)
  show "stored_chip P (props s) = None \<Longrightarrow> (\<And>v b. (Property_set WCN_COMBO_LOADER_CHIP_ID_PROP v, b) \<in> set es \<Longrightarrow> b = 0) \<Longrightarrow>
      props t WCN_COMBO_LOADER_CHIP_ID_PROP = Some (sprintf_chip c)"
    using c(1,3,4) p by (fastforce simp: found_def)
  show "stored_chip P (props s) = Some d \<Longrightarrow> d \<noteq> 0x6630 \<Longrightarrow> (Ioctl x arg, a) \<in> set es \<Longrightarrow>
      x \<in> {COMBO_IOCTL_SET_CHIP_ID, COMBO_IOCTL_MODULE_CLEANUP, COMBO_IOCTL_DO_MODULE_INIT}"
    using c(1-4) m [of "(Ioctl x arg, a)"] by (fastforce simp: found_def closing_def list_all_iff split: if_splits)
qed


section \<open>Modules\<close>

text \<open>A module is tried at most ten times, and success means that the kernel has taken it.\<close>

lemma init_tries_bound:
  "lwp (init_tries P n f args r) (\<lambda>r' es _. length es \<le> n \<and> list_all (\<lambda>e. fst e = Init_module f args) es \<and>
     (r' = 0 \<and> r \<noteq> 0 \<longrightarrow> (Init_module f args, 0) \<in> set es)) s"
proof (induction n arbitrary: r s)
  case 0
  then show ?case by (auto intro!: lw)
next
  case (Suc n)
  show ?case by (auto intro!: lw lwp_mono [OF Suc.IH])
qed

lemma insmod_bound: "lwp (insmod P f args) (\<lambda>r es _. length es \<le> 11 \<and> (r = 0 \<longrightarrow> (Init_module f args, 0) \<in> set es)) s"
  unfolding insmod_def by (auto intro!: lw lwp_mono [OF init_tries_bound])

text \<open>The names built in \<open>DRIVER_MODULE_PATH\<close> fit its 64 bytes, although the code compares the sizes of pointers.\<close>

lemma module_names_fit:
  "m \<in> set (soc_modulse @ combo_modulse) \<Longrightarrow> length (''/system/lib/modules/'' @ m @ ''_soc'' @ ''.ko'') < 64"
  by (auto simp: soc_modulse_def combo_modulse_def)

section \<open>Corners\<close>

text \<open>A module that is missing is tried for ever.\<close>

lemma missing_module_never_ends:
  "(\<And>es. env P es (Load_file f) = 0) \<Longrightarrow> fst (run_state (insmod_retry P n f) s) = None"
  by (induction n arbitrary: s) (simp_all add: insmod_def ask_def Let_def run_bind)

text \<open>One of the two Wi-Fi modules is enough for success.\<close>

lemma wifi_without_driver:
  "fst (run_state (insert_two P wmt wlan) s) = 0 \<longleftrightarrow>
   fst (run_state (wifi_insmod P wmt '''') s) = 0 \<or>
   fst (run_state (wifi_insmod P wlan '''') (snd (run_state (wifi_insmod P wmt '''') s))) = 0"
  by (simp add: insert_two_def run_bind case_prod_unfold)

section \<open>Instances\<close>

text \<open>A kernel with an external 6628: every request is answered with 0, the device opens as descriptor 3.\<close>

definition sample_kernel :: loader_plat where
  "sample_kernel = \<lparr>env = (\<lambda>es r. case r of Open_dev _ \<Rightarrow> 3 | Ioctl c _ \<Rightarrow> if c = COMBO_IOCTL_GET_CHIP_ID then 0x6628 else 0 | _ \<Rightarrow> 0),
     ulong_bits = 64, AID_SHELL = 2000, AID_SYSTEM_ID = 1000\<rparr>"

lemma sample_kernel_sel: "env sample_kernel es (Open_dev p) = 3" "env sample_kernel es (Property_set k v) = 0" "ulong_bits sample_kernel = 64"
  "env sample_kernel es (Ioctl c x) = (if c = COMBO_IOCTL_GET_CHIP_ID then 0x6628 else 0)"
  by (simp_all add: sample_kernel_def)

theorem loader_completes_witness:
  "\<exists>r t c es ds. run_state (loader_main sample_kernel 1) (loader_started (\<lambda>_. None)) = (Some r, t) \<and> events t = es @ ds \<and>
    chip_answers es = [c] \<and> after_detection sample_kernel c ds"
  using loader_completes [of "loader_started (\<lambda>_. None)" sample_kernel 0 1]
  by (simp add: loader_started_def node_by_def sample_kernel_sel stored_chip_def) blast

lemma sample_boot:
  obtains t a where "run_state (loader_main sample_kernel 1) (loader_started (\<lambda>_. None)) = (Some 0, t)"
    "(Ioctl COMBO_IOCTL_SET_CHIP_ID (Some 0x6628), a) \<in> set (events t)"
    "\<forall>v b. (Property_set WCN_COMBO_LOADER_CHIP_ID_PROP v, b) \<in> set (events t) \<longrightarrow> b = 0"
proof -
  let ?t = "snd (run_state (loader_main sample_kernel 1) (loader_started (\<lambda>_. None)))"
  note defs = loader_main_def find_chip_def loader_finish_def load_drivers_def do_kernel_module_init_def close_dev_def hand_over_def
    property_get_def property_set_def probe_def tune_and_off_def ioctl_def ask_def run_bind gets_def modify_def loader_started_def
    Let_def sample_kernel_def
  have d: "detect_loop P 1 c = detect_loop P (Suc 0) c" "open_wait P 1 = open_wait P (Suc 0)" for P c by simp_all
  have "fst (run_state (loader_main sample_kernel 1) (loader_started (\<lambda>_. None))) = Some 0"
    "(Ioctl COMBO_IOCTL_SET_CHIP_ID (Some 0x6628), 0) \<in> set (events ?t)"
    "\<forall>v b. (Property_set WCN_COMBO_LOADER_CHIP_ID_PROP v, b) \<in> set (events ?t) \<longrightarrow> b = 0"
    by (simp_all add: defs d)
  then show ?thesis by (intro that [of ?t 0]) (auto simp: prod_eq_iff)
qed


end
