(* ===== verification/WpaData.thy ===== *)
theory WpaData
  imports Posix CText
begin

text \<open>
  The data that \<open>wpa_supplicant\<close> and the Wi-Fi driver exchange
  (\<open>wlan/wpa_supplicant_8_lib/mediatek_driver_nl80211.h\<close> and the handlers at the beginning of
  \<open>mediatek_driver_cmd_nl80211.c\<close>): the parameter structures of the test mode messages, the requests
  that leave the supplicant, and the attributes of the answers with the structures they are stored in.
\<close>

section \<open>Messages to the driver\<close>

record test_mode_info =
  index :: u32
  buflen :: u32

record wapi_key_params =
  key_index :: u8
  key_len :: u8
  ext_flags :: u32
  ext_seq :: bytes
  ext_addr :: bytes
  ext_alg :: u16
  ext_key_len :: u16
  ext_key :: bytes

text \<open>The data of \<open>wfd_data_update\<close>; \<open>struct wfd_data_s\<close> and \<open>struct wpa_driver_wfd_data_s\<close> have these fields.\<close>

record wfd_data =
  WfdCmdType :: u32
  WfdEnable :: u8
  WfdCoupleSinkStatus :: u8
  WfdSessionAvailable :: u8
  WfdSigmaMode :: u8
  WfdDevInfo :: u16
  WfdControlPort :: u16
  WfdMaximumTp :: u16
  WfdExtendCap :: u16
  WfdCoupleSinkAddress :: bytes
  WfdAssociatedBssid :: bytes
  WfdVideoIp :: bytes
  WfdAudioIp :: bytes
  WfdVideoPort :: u16
  WfdAudioPort :: u16
  WfdFlag :: u32
  WfdPolicy :: u32
  WfdState :: u32
  WfdSessionInformationIE :: bytes
  WfdSessionInformationIELen :: u16
  WfdPrimarySinkMac :: bytes
  WfdSecondarySinkMac :: bytes
  WfdAdvancedFlag :: u32
  WfdLocalIp :: bytes

text \<open>What follows the header of a test mode message; the constructors are the parameter structures.\<close>

datatype test_params = Sw_cmd u8 u32 u32 | Hotspot u8 bytes | Hotspot_set_config u32 u32 | Get_available_channel
  | Wapi_key wapi_key_params | Get_sta_statistics bytes | P2p_sigma u32 u32 | P2p_noa u32 u32 u32 u32 u32 | Wfd_data wfd_data
  | Suspendmode u8 | Rx_filter u32 u32 u32 u32 u32 u32 | Str_cmd bytes

text \<open>
  The answer of \<open>Nlmsg_alloc\<close> and \<open>Calloc\<close> is 0 for a null pointer, every other one what the call
  returns.  \<open>Testmode\<close> has the header, the length of the attribute and the parameters.
\<close>

datatype nl_request = Nlmsg_alloc | Testmode test_mode_info nat test_params | Calloc nat | Socket | Country_ioctl string bytes
  | Close_socket | Set_iface_flags string bool | Deauthenticate bytes | Channel_list_changed bytes | Wpa_msg string
  | Priv_ioctl string bytes int int

type_synonym nl_trace = "(nl_request \<times> int) list"

section \<open>Answers of the driver\<close>

datatype stat_attr = STATISTICS_VERSION | STATISTICS_MAC | STATISTICS_LINK_SCORE | STATISTICS_FLAG | STATISTICS_PER | STATISTICS_RSSI
  | STATISTICS_PHY_MODE | STATISTICS_TX_RATE | STATISTICS_TOTAL_CNT | STATISTICS_THRESHOLD_CNT | STATISTICS_AVG_PROCESS_TIME
  | STATISTICS_MAX_PROCESS_TIME | STATISTICS_AVG_HIF_PROCESS_TIME | STATISTICS_MAX_HIF_PROCESS_TIME | STATISTICS_FAIL_CNT
  | STATISTICS_TIMEOUT_CNT | STATISTICS_AVG_AIR_TIME | STATISTICS_TC_EMPTY_CNT_ARRAY | STATISTICS_TC_QUE_LEN_ARRAY
  | STATISTICS_TC_AVG_QUE_LEN_ARRAY | STATISTICS_TC_CUR_QUE_LEN_ARRAY | STATISTICS_ENQUEUE | STATISTICS_STA_ENQUEUE
  | STATISTICS_DEQUEUE | STATISTICS_STA_DEQUEUE | STATISTICS_RB_ARRAY | STATISTICS_NO_TC_ARRAY | STATISTICS_TC_USED_ARRAY
  | STATISTICS_TC_WANTED_ARRAY | STATISTICS_IRQ_ISR_CNT | STATISTICS_IRQ_ISR_PASS_CNT | STATISTICS_IRQ_TASK_CNT
  | STATISTICS_IRQ_AB_CNT | STATISTICS_IRQ_SW_CNT | STATISTICS_IRQ_TX_CNT | STATISTICS_IRQ_RX_CNT | STATISTICS_RESERVED_ARRAY

definition stat_attrs :: "stat_attr list" where
  "stat_attrs = [STATISTICS_VERSION, STATISTICS_MAC, STATISTICS_LINK_SCORE, STATISTICS_FLAG, STATISTICS_PER, STATISTICS_RSSI,
     STATISTICS_PHY_MODE, STATISTICS_TX_RATE, STATISTICS_TOTAL_CNT, STATISTICS_THRESHOLD_CNT, STATISTICS_AVG_PROCESS_TIME,
     STATISTICS_MAX_PROCESS_TIME, STATISTICS_AVG_HIF_PROCESS_TIME, STATISTICS_MAX_HIF_PROCESS_TIME, STATISTICS_FAIL_CNT,
     STATISTICS_TIMEOUT_CNT, STATISTICS_AVG_AIR_TIME, STATISTICS_TC_EMPTY_CNT_ARRAY, STATISTICS_TC_QUE_LEN_ARRAY,
     STATISTICS_TC_AVG_QUE_LEN_ARRAY, STATISTICS_TC_CUR_QUE_LEN_ARRAY, STATISTICS_ENQUEUE, STATISTICS_STA_ENQUEUE,
     STATISTICS_DEQUEUE, STATISTICS_STA_DEQUEUE, STATISTICS_RB_ARRAY, STATISTICS_NO_TC_ARRAY, STATISTICS_TC_USED_ARRAY,
     STATISTICS_TC_WANTED_ARRAY, STATISTICS_IRQ_ISR_CNT, STATISTICS_IRQ_ISR_PASS_CNT, STATISTICS_IRQ_TASK_CNT,
     STATISTICS_IRQ_AB_CNT, STATISTICS_IRQ_SW_CNT, STATISTICS_IRQ_TX_CNT, STATISTICS_IRQ_RX_CNT, STATISTICS_RESERVED_ARRAY]"

text \<open>The arrays are kept as the bytes of their memory; \<open>tx_rate\<close> in halves, since it is a 16-bit number divided by 2.\<close>

record sta_statistics =
  version :: u8
  addr :: bytes
  flag :: u32
  link_score :: u32
  per :: u8
  rssi :: int
  phy_mode :: u32
  tx_rate :: u16
  tx_total_cnt :: u32
  enqueue_total_cnt :: u32
  dequeue_total_cnt :: u32
  enqueue_sta_total_cnt :: u32
  dequeue_sta_total_cnt :: u32
  tx_exc_threshold_cnt :: u32
  tx_avg_process_time :: u32
  tx_max_process_time :: u32
  tx_avg_hif_process_time :: u32
  tx_max_hif_process_time :: u32
  tx_fail_cnt :: u32
  tx_timeout_cnt :: u32
  tx_avg_air_time :: u32
  tc_buf_full_cnt :: bytes
  tc_que_len :: bytes
  tc_back_count :: bytes
  dequeue_no_tc_res :: bytes
  tc_wanted_res :: bytes
  tc_used_res :: bytes
  isr_cnt :: u32
  isr_pass_cnt :: u32
  isr_task_cnt :: u32
  isr_ab_cnt :: u32
  isr_sw_cnt :: u32
  isr_tx_cnt :: u32
  isr_rx_cnt :: u32
  tc_avg_que_len :: bytes
  tc_cur_que_len :: bytes
  reserved :: bytes

definition zeros :: "nat \<Rightarrow> bytes" where
  "zeros n = replicate n (CHR 0x00)"

definition no_statistics :: sta_statistics where
  "no_statistics = \<lparr>version = 0, addr = zeros 6, flag = 0, link_score = 0, per = 0, rssi = 0, phy_mode = 0, tx_rate = 0,
     tx_total_cnt = 0, enqueue_total_cnt = 0, dequeue_total_cnt = 0, enqueue_sta_total_cnt = 0, dequeue_sta_total_cnt = 0,
     tx_exc_threshold_cnt = 0, tx_avg_process_time = 0, tx_max_process_time = 0, tx_avg_hif_process_time = 0,
     tx_max_hif_process_time = 0, tx_fail_cnt = 0, tx_timeout_cnt = 0, tx_avg_air_time = 0, tc_buf_full_cnt = zeros 16,
     tc_que_len = zeros 16, tc_back_count = zeros 16, dequeue_no_tc_res = zeros 16, tc_wanted_res = zeros 16,
     tc_used_res = zeros 16, isr_cnt = 0, isr_pass_cnt = 0, isr_task_cnt = 0, isr_ab_cnt = 0, isr_sw_cnt = 0, isr_tx_cnt = 0,
     isr_rx_cnt = 0, tc_avg_que_len = zeros 16, tc_cur_que_len = zeros 16, reserved = zeros 32\<rparr>"

definition nla_get_u8 :: "bytes \<Rightarrow> u8" where
  "nla_get_u8 d = (case d of [] \<Rightarrow> 0 | c # _ \<Rightarrow> word_of_nat (of_char c))"

text \<open>The bytes of the attribute replace those of the field, as far as both go.\<close>

definition nla_memcpy :: "bytes \<Rightarrow> bytes \<Rightarrow> bytes" where
  "nla_memcpy field d = splice 0 (take (length field) d) field"

definition c_half :: "int \<Rightarrow> int" where
  "c_half i = (if i < 0 then - (- i div 2) else i div 2)"

fun store_attr :: "stat_attr \<Rightarrow> bytes \<Rightarrow> sta_statistics \<Rightarrow> sta_statistics" where
  "store_attr STATISTICS_VERSION d s = s\<lparr>version := nla_get_u8 d\<rparr>"
| "store_attr STATISTICS_MAC d s = s\<lparr>addr := nla_memcpy (addr s) d\<rparr>"
| "store_attr STATISTICS_LINK_SCORE d s = s\<lparr>link_score := un32 d\<rparr>"
| "store_attr STATISTICS_FLAG d s = s\<lparr>flag := un32 d\<rparr>"
| "store_attr STATISTICS_PER d s = s\<lparr>per := nla_get_u8 d\<rparr>"
| "store_attr STATISTICS_RSSI d s = s\<lparr>rssi := c_half (uint (nla_get_u8 d) - 220)\<rparr>"
| "store_attr STATISTICS_PHY_MODE d s = s\<lparr>phy_mode := un32 d\<rparr>"
| "store_attr STATISTICS_TX_RATE d s = s\<lparr>tx_rate := un16 d\<rparr>"
| "store_attr STATISTICS_TOTAL_CNT d s = s\<lparr>tx_total_cnt := un32 d\<rparr>"
| "store_attr STATISTICS_THRESHOLD_CNT d s = s\<lparr>tx_exc_threshold_cnt := un32 d\<rparr>"
| "store_attr STATISTICS_AVG_PROCESS_TIME d s = s\<lparr>tx_avg_process_time := un32 d\<rparr>"
| "store_attr STATISTICS_MAX_PROCESS_TIME d s = s\<lparr>tx_max_process_time := un32 d\<rparr>"
| "store_attr STATISTICS_AVG_HIF_PROCESS_TIME d s = s\<lparr>tx_avg_hif_process_time := un32 d\<rparr>"
| "store_attr STATISTICS_MAX_HIF_PROCESS_TIME d s = s\<lparr>tx_max_hif_process_time := un32 d\<rparr>"
| "store_attr STATISTICS_FAIL_CNT d s = s\<lparr>tx_fail_cnt := un32 d\<rparr>"
| "store_attr STATISTICS_TIMEOUT_CNT d s = s\<lparr>tx_timeout_cnt := un32 d\<rparr>"
| "store_attr STATISTICS_AVG_AIR_TIME d s = s\<lparr>tx_avg_air_time := un32 d\<rparr>"
| "store_attr STATISTICS_TC_EMPTY_CNT_ARRAY d s = s\<lparr>tc_buf_full_cnt := nla_memcpy (tc_buf_full_cnt s) d\<rparr>"
| "store_attr STATISTICS_TC_QUE_LEN_ARRAY d s = s\<lparr>tc_que_len := nla_memcpy (tc_que_len s) d\<rparr>"
| "store_attr STATISTICS_TC_AVG_QUE_LEN_ARRAY d s = s\<lparr>tc_avg_que_len := nla_memcpy (tc_avg_que_len s) d\<rparr>"
| "store_attr STATISTICS_TC_CUR_QUE_LEN_ARRAY d s = s\<lparr>tc_cur_que_len := nla_memcpy (tc_cur_que_len s) d\<rparr>"
| "store_attr STATISTICS_ENQUEUE d s = s\<lparr>enqueue_total_cnt := un32 d\<rparr>"
| "store_attr STATISTICS_STA_ENQUEUE d s = s\<lparr>enqueue_sta_total_cnt := un32 d\<rparr>"
| "store_attr STATISTICS_DEQUEUE d s = s\<lparr>dequeue_total_cnt := un32 d\<rparr>"
| "store_attr STATISTICS_STA_DEQUEUE d s = s\<lparr>dequeue_sta_total_cnt := un32 d\<rparr>"
| "store_attr STATISTICS_RB_ARRAY d s = s\<lparr>tc_back_count := nla_memcpy (tc_back_count s) d\<rparr>"
| "store_attr STATISTICS_NO_TC_ARRAY d s = s\<lparr>dequeue_no_tc_res := nla_memcpy (dequeue_no_tc_res s) d\<rparr>"
| "store_attr STATISTICS_TC_USED_ARRAY d s = s\<lparr>tc_used_res := nla_memcpy (tc_used_res s) d\<rparr>"
| "store_attr STATISTICS_TC_WANTED_ARRAY d s = s\<lparr>tc_wanted_res := nla_memcpy (tc_wanted_res s) d\<rparr>"
| "store_attr STATISTICS_IRQ_ISR_CNT d s = s\<lparr>isr_cnt := un32 d\<rparr>"
| "store_attr STATISTICS_IRQ_ISR_PASS_CNT d s = s\<lparr>isr_pass_cnt := un32 d\<rparr>"
| "store_attr STATISTICS_IRQ_TASK_CNT d s = s\<lparr>isr_task_cnt := un32 d\<rparr>"
| "store_attr STATISTICS_IRQ_AB_CNT d s = s\<lparr>isr_ab_cnt := un32 d\<rparr>"
| "store_attr STATISTICS_IRQ_SW_CNT d s = s\<lparr>isr_sw_cnt := un32 d\<rparr>"
| "store_attr STATISTICS_IRQ_TX_CNT d s = s\<lparr>isr_tx_cnt := un32 d\<rparr>"
| "store_attr STATISTICS_IRQ_RX_CNT d s = s\<lparr>isr_rx_cnt := un32 d\<rparr>"
| "store_attr STATISTICS_RESERVED_ARRAY d s = s\<lparr>reserved := nla_memcpy (reserved s) d\<rparr>"

text \<open>\<open>None\<close> is a message without the test data or with data that \<open>nla_parse_nested\<close> refuses.\<close>

type_synonym 'a nl_attrs = "('a \<Rightarrow> bytes option) option"

definition testmode_sta_statistics_handler :: "stat_attr nl_attrs \<Rightarrow> sta_statistics \<Rightarrow> sta_statistics" where
  "testmode_sta_statistics_handler m s = (case m of None \<Rightarrow> s
     | Some sinfo \<Rightarrow> fold (\<lambda>a s. case sinfo a of None \<Rightarrow> s | Some d \<Rightarrow> store_attr a d s) stat_attrs s)"

datatype chan_attr = AVAILABLE_CHAN_2G_BASE_1 | AVAILABLE_CHAN_5G_BASE_36 | AVAILABLE_CHAN_5G_BASE_52
  | AVAILABLE_CHAN_5G_BASE_100 | AVAILABLE_CHAN_5G_BASE_149

record available_chan =
  ch_2g_base1 :: u32
  ch_5g_base36 :: u32
  ch_5g_base52 :: u32
  ch_5g_base100 :: u32
  ch_5g_base149 :: u32

definition testmode_available_channel_handler :: "chan_attr nl_attrs \<Rightarrow> available_chan \<Rightarrow> available_chan" where
  "testmode_available_channel_handler m c = (case m of None \<Rightarrow> c
     | Some tb \<Rightarrow> let v = (\<lambda>a old. case tb a of None \<Rightarrow> old | Some d \<Rightarrow> un32 d) in
         \<lparr>ch_2g_base1 = v AVAILABLE_CHAN_2G_BASE_1 (ch_2g_base1 c), ch_5g_base36 = v AVAILABLE_CHAN_5G_BASE_36 (ch_5g_base36 c),
          ch_5g_base52 = v AVAILABLE_CHAN_5G_BASE_52 (ch_5g_base52 c), ch_5g_base100 = v AVAILABLE_CHAN_5G_BASE_100 (ch_5g_base100 c),
          ch_5g_base149 = v AVAILABLE_CHAN_5G_BASE_149 (ch_5g_base149 c)\<rparr>)"

end
