(* ===== verification/DriverCmd.thy ===== *)
theory DriverCmd
  imports WpaData
begin

text \<open>
  The private commands of \<open>wpa_supplicant\<close> (\<open>wlan/wpa_supplicant_8_lib/mediatek_driver_cmd_nl80211.c\<close>):
  a text is recognised by its beginning, its arguments are read, and messages go to the driver, through
  netlink test mode commands or the private \<open>ioctl\<close>.  What goes out is a sequence of requests, and the
  answers are a function \<open>nl_env\<close> of the requests so far.  The structures of the supplicant that the code
  only reads are the record \<open>supplicant\<close>; those it changes are fields of the state.  \<open>nl_ub\<close> is set when
  the code reads or writes outside an object or uses a pointer without a value.
\<close>

section \<open>State\<close>

datatype wpas_mode = WPAS_MODE_INFRA | WPAS_MODE_IBSS | WPAS_MODE_AP | WPAS_MODE_P2P_GO | WPAS_MODE_P2P_GROUP_FORMATION

record wpa_ssid =
  mode :: wpas_mode
  frequency :: int
  p2p_group :: bool

text \<open>An interface of the radio; \<open>bssid_known\<close> is \<open>wpa_drv_get_bssid () == 0\<close>.\<close>

record radio_if =
  current_ssid :: "wpa_ssid option"
  assoc_freq :: int
  bssid_known :: bool

record supplicant =
  drv_null :: bool
  ctx_null :: bool
  conf_null :: bool
  ap_mode :: bool
  drv_priv :: bool
  bss_ifname :: string
  first_ifname :: string
  associated :: bool
  drv_bssid :: bytes
  own_addr :: bytes
  sup_ssid :: "wpa_ssid option"
  sup_bssid :: bytes
  p2p_oper_reg_class :: u8
  p2p_oper_channel :: u8
  radio_ifs :: "radio_if list"

record p2p_device =
  p2p_device_addr :: bytes
  interface_addr :: bytes

text \<open>\<open>struct p2p_channels\<close> as the list of its classes with their channels.\<close>

type_synonym p2p_channels = "(u8 \<times> u8 list) list"

record p2p_data =
  dev_capab :: u8
  op_reg_class :: u8
  op_channel :: u8
  p2p_chans :: p2p_channels
  cfg_op_channel :: u8
  cfg_channels :: p2p_channels
  concurrent_operations :: nat
  p2p_devices :: "p2p_device list"

record wpa_iface =
  num_multichan_concurrent :: nat
  drv_flags :: "64 word"

record nl_state =
  supp :: supplicant
  p2p :: "p2p_data option"
  ifaces :: "wpa_iface list"
  nl_sent :: nl_trace
  drv_errors :: int
  reply :: bytes
  nl_ub :: bool

type_synonym 'a nl = "(nl_state, 'a) state"

record wapi_args =
  wapi_addr :: "bytes option"
  wapi_key_idx :: int
  wapi_set_tx :: int
  wapi_seq :: "bytes option"
  wapi_seq_len :: nat
  wapi_key_arg :: "bytes option"
  wapi_key_len :: nat

text \<open>
  What the code links against and how it is built: the answers, the messages that come back from the
  driver, whether an attribute of a given length fits a message, \<open>hwaddr_aton\<close>, the random numbers, how
  the memory at \<open>buf\<close> reads as an argument structure, sizes, and the build options.
\<close>

record nl_plat =
  nl_env :: "nl_trace \<Rightarrow> nl_request \<Rightarrow> int"
  stat_replies :: "nl_trace \<Rightarrow> stat_attr nl_attrs list"
  chan_replies :: "nl_trace \<Rightarrow> chan_attr nl_attrs list"
  nla_fits :: "nat \<Rightarrow> bool"
  hwaddr_aton :: "string \<Rightarrow> bytes option"
  os_random :: "nl_trace \<Rightarrow> u32"
  wapi_args_at :: "bytes \<Rightarrow> wapi_args"
  wfd_data_at :: "bytes \<Rightarrow> wfd_data"
  wapi_msg_len_at :: "bytes \<Rightarrow> int"
  long_bits :: nat
  sizeof_ptr :: nat
  sizeof_wfd_data_s :: nat
  P2P_CONCURRENT :: "64 word"
  MAX_DRV_CMD_SIZE :: nat
  DRV_NUMBER_SEQUENTIAL_ERRORS :: int
  MTK_TC1_FEATURE :: bool
  CONFIG_HOTSPOT_MGR_SUPPORT :: bool
  CONFIG_MTK_LTE_COEX :: bool
  CONFIG_WAPI_SUPPORT :: bool
  CONFIG_MTK_WFD_SINK :: bool
  CONFIG_MTK_P2P_SIGMA :: bool

definition request :: "nl_plat \<Rightarrow> nl_request \<Rightarrow> int nl" where
  "request P r = State (\<lambda>s. let a = nl_env P (nl_sent s) r in (a, s\<lparr>nl_sent := nl_sent s @ [(r, a)]\<rparr>))"

definition bad :: "unit nl" where
  "bad = modify (\<lambda>s. s\<lparr>nl_ub := True\<rparr>)"

text \<open>In AP mode the variable \<open>wpa_s\<close> has no value.\<close>

definition wpa_s :: "unit nl" where
  "wpa_s = do { ap \<leftarrow> gets (\<lambda>s. ap_mode (supp s)); if ap then bad else ret () }"

text \<open>\<open>snprintf (buf + pos, n, ..)\<close> of a text \<open>t\<close>; what does not fit is cut off.\<close>

definition snprintf_at :: "nat \<Rightarrow> nat \<Rightarrow> string \<Rightarrow> int nl" where
  "snprintf_at pos n t = do {
     b \<leftarrow> gets reply;
     _ \<leftarrow> (if n = 0 then ret ()
          else do {
            _ \<leftarrow> (if length b < pos + min (length t + 1) n then bad else ret ());
            modify (\<lambda>s. s\<lparr>reply := splice pos (take (n - 1) t @ [CHR 0x00]) (reply s)\<rparr>) });
     ret (int (length t)) }"

definition wpa_driver_send_hang_msg :: "nl_plat \<Rightarrow> unit nl" where
  "wpa_driver_send_hang_msg P = do {
     n \<leftarrow> gets drv_errors;
     let n = n + 1;
     modify (\<lambda>s. s\<lparr>drv_errors := if DRV_NUMBER_SEQUENTIAL_ERRORS P < n then 0 else n\<rparr>) }"

section \<open>Test mode messages\<close>

text \<open>\<open>BIT\<close> and \<open>BITS\<close>.\<close>

definition BIT :: "nat \<Rightarrow> u32" where
  "BIT n = push_bit n 1"

definition BITS :: "nat \<Rightarrow> nat \<Rightarrow> u32" where
  "BITS m n = NOT (BIT m - 1) AND ((BIT n - 1) OR BIT n)"

text \<open>Where the answer goes: the structure behind the pointer in the parameters.\<close>

datatype answer_buf = No_buf | Stat_buf sta_statistics | Chan_buf available_chan

definition wpa_driver_nl80211_testmode :: "nl_plat \<Rightarrow> test_mode_info \<Rightarrow> nat \<Rightarrow> test_params \<Rightarrow> answer_buf \<Rightarrow> (int \<times> answer_buf) nl" where
  "wpa_driver_nl80211_testmode P hdr data_len params out = do {
     msg \<leftarrow> request P Nlmsg_alloc;
     if msg = 0 then ret (-1, out)
     else if \<not> nla_fits P data_len then ret (-105, out)
     else do {
       r \<leftarrow> request P (Testmode hdr data_len params);
       sent \<leftarrow> gets nl_sent;
       let i = index hdr AND BITS 0 23;
       if i = 0x10
       then (case out of
           Stat_buf st \<Rightarrow> ret (r, Stat_buf (fold testmode_sta_statistics_handler (stat_replies P sent) st))
         | _ \<Rightarrow> do { _ \<leftarrow> bad; ret (r, out) })
       else if i = 0x30 \<and> CONFIG_MTK_LTE_COEX P
       then (case out of
           Chan_buf c \<Rightarrow> ret (r, Chan_buf (fold testmode_available_channel_handler (chan_replies P sent) c))
         | _ \<Rightarrow> do { _ \<leftarrow> bad; ret (r, out) })
       else ret (r, out) } }"

definition header :: "u32 \<Rightarrow> nat \<Rightarrow> test_mode_info" where
  "header i n = \<lparr>index = i OR push_bit 24 1, buflen = word_of_nat n\<rparr>"

text \<open>A message whose structure has \<open>n\<close> bytes and no answer buffer.\<close>

definition testmode :: "nl_plat \<Rightarrow> u32 \<Rightarrow> nat \<Rightarrow> test_params \<Rightarrow> int nl" where
  "testmode P i n params = do { (r, _) \<leftarrow> wpa_driver_nl80211_testmode P (header i n) n params No_buf; ret r }"

definition wpa_driver_nl80211_driver_sw_cmd :: "nl_plat \<Rightarrow> bool \<Rightarrow> u32 \<Rightarrow> u32 \<Rightarrow> int nl" where
  "wpa_driver_nl80211_driver_sw_cmd P put adr dat = do {
     _ \<leftarrow> testmode P 1 20 (Sw_cmd (if put then 1 else 0) adr dat);
     ret 0 }"

definition wpa_driver_hotspot_block_list_update :: "nl_plat \<Rightarrow> bytes \<Rightarrow> u8 \<Rightarrow> int nl" where
  "wpa_driver_hotspot_block_list_update P bssid blocked = testmode P 3 16 (Hotspot blocked bssid)"

definition wpa_driver_sta_block :: "nl_plat \<Rightarrow> string \<Rightarrow> int nl" where
  "wpa_driver_sta_block P cmd = (case hwaddr_aton P cmd of None \<Rightarrow> ret (-1)
     | Some bssid \<Rightarrow> wpa_driver_hotspot_block_list_update P bssid 1)"

definition wpa_driver_sta_unblock :: "nl_plat \<Rightarrow> string \<Rightarrow> int nl" where
  "wpa_driver_sta_unblock P cmd = (case hwaddr_aton P cmd of None \<Rightarrow> ret (-1)
     | Some bssid \<Rightarrow> wpa_driver_hotspot_block_list_update P bssid 0)"

definition wpa_driver_set_max_client :: "nl_plat \<Rightarrow> string \<Rightarrow> int nl" where
  "wpa_driver_set_max_client P cmd = testmode P 51 16 (Hotspot_set_config 1 (word_of_int (atoi (long_bits P) cmd)))"

definition no_channels :: available_chan where
  "no_channels = \<lparr>ch_2g_base1 = 0, ch_5g_base36 = 0, ch_5g_base52 = 0, ch_5g_base100 = 0, ch_5g_base149 = 0\<rparr>"

definition wpa_driver_get_lte_available_channels :: "nl_plat \<Rightarrow> available_chan \<Rightarrow> (int \<times> available_chan) nl" where
  "wpa_driver_get_lte_available_channels P c = do {
     (r, out) \<leftarrow> wpa_driver_nl80211_testmode P (header 0x30 (8 + sizeof_ptr P)) (8 + sizeof_ptr P) Get_available_channel (Chan_buf c);
     ret (r, case out of Chan_buf c' \<Rightarrow> c' | _ \<Rightarrow> c) }"

text \<open>At most \<open>n\<close> more questions; the code starts with six.\<close>

fun acs_wait :: "nl_plat \<Rightarrow> nat \<Rightarrow> available_chan option nl" where
  "acs_wait P 0 = ret None"
| "acs_wait P (Suc n) = do {
     (_, c) \<leftarrow> wpa_driver_get_lte_available_channels P no_channels;
     if BIT 31 AND ch_2g_base1 c \<noteq> 0 then ret (Some c) else acs_wait P n }"

definition wpa_driver_do_mtk_acs :: "nl_plat \<Rightarrow> nat nl" where
  "wpa_driver_do_mtk_acs P = do {
     r \<leftarrow> acs_wait P 6;
     case r of None \<Rightarrow> ret 0
     | Some c \<Rightarrow> (let ch = map Suc (filter (\<lambda>i. BIT i AND ch_2g_base1 c \<noteq> 0) [0..<14]) in ret (if ch = [] then 0 else hd ch)) }"

text \<open>The constants of \<open>linux/wireless.h\<close> are \<open>IW_ENCODE_SEQ_MAX_SIZE = 8\<close>, \<open>IW_ENCODE_EXT_GROUP_KEY = 4\<close>, \<open>IW_ENCODE_EXT_SET_TX_KEY = 8\<close>.\<close>

definition wpa_driver_nl80211_set_wapi_key :: "nl_plat \<Rightarrow> wapi_args \<Rightarrow> int nl" where
  "wpa_driver_nl80211_set_wapi_key P a =
    (if 8 * 2 < wapi_seq_len a then ret (-1)
     else do {
       let group = (case wapi_addr a of None \<Rightarrow> True | Some x \<Rightarrow> take 6 x = replicate 6 (CHR 0xFF));
       let with_key = (case wapi_key_arg a of Some k \<Rightarrow> 0 < wapi_key_len a | None \<Rightarrow> False);
       _ \<leftarrow> (if with_key \<and> 32 < wapi_key_len a then bad else ret ());
       _ \<leftarrow> testmode P 2 76 (Wapi_key \<lparr>
         key_index = word_of_int (wapi_key_idx a + 1), key_len = word_of_nat (wapi_key_len a),
         ext_flags = (if group then 4 else 0) OR (if wapi_set_tx a \<noteq> 0 then 8 else 0),
         ext_seq = (case wapi_seq a of Some q \<Rightarrow> splice 0 (take (wapi_seq_len a) q) (zeros 16) | None \<Rightarrow> zeros 16),
         ext_addr = (case wapi_addr a of Some x \<Rightarrow> take 6 x | None \<Rightarrow> replicate 6 (CHR 0xFF)),
         ext_alg = 0x20, ext_key_len = (if with_key then word_of_nat (wapi_key_len a) else 0),
         ext_key = (case wapi_key_arg a of Some k \<Rightarrow> take 32 (splice 0 (take (wapi_key_len a) k) (zeros 32)) | None \<Rightarrow> zeros 32)\<rparr>);
       ret 0 })"

definition wpa_driver_nl80211_send_msg :: "int \<Rightarrow> int nl" where
  "wpa_driver_nl80211_send_msg msg_in_len = ret (if 1024 < msg_in_len then -1 else 0)"

section \<open>Country\<close>

definition wpa_driver_mediatek_set_country :: "nl_plat \<Rightarrow> string \<Rightarrow> int nl" where
  "wpa_driver_mediatek_set_country P alpha2_arg = do {
     ioctl_sock \<leftarrow> request P Socket;
     if ioctl_sock < 0 then ret (-1)
     else do {
       name \<leftarrow> gets (\<lambda>s. first_ifname (supp s));
       let name = (if MTK_TC1_FEATURE P \<and> starts ''p2p0'' name then ''wlan0'' else name);
       r \<leftarrow> request P (Country_ioctl (take 15 name) (take 10 (''COUNTRY '' @ alpha2_arg)));
       _ \<leftarrow> request P Close_socket;
       ret (if r < 0 then r else 0) } }"

fun notify_all :: "nl_plat \<Rightarrow> wpa_iface list \<Rightarrow> bytes \<Rightarrow> unit nl" where
  "notify_all P [] alpha2 = ret ()"
| "notify_all P (i # is) alpha2 = do { _ \<leftarrow> request P (Channel_list_changed alpha2); notify_all P is alpha2 }"

definition wpa_driver_notify_country_change :: "nl_plat \<Rightarrow> string \<Rightarrow> unit nl" where
  "wpa_driver_notify_country_change P cmd =
    (if istarts ''COUNTRY'' cmd
     then do {
       is \<leftarrow> gets ifaces;
       notify_all P is (if 9 < length cmd then [cmd ! 8, cmd ! 9] else zeros 2) }
     else ret ())"

section \<open>Statistics of a station\<close>

fun mtk_p2p_get_device :: "p2p_device list \<Rightarrow> bytes \<Rightarrow> p2p_device option" where
  "mtk_p2p_get_device [] a = None"
| "mtk_p2p_get_device (d # ds) a = (if p2p_device_addr d = a then Some d else mtk_p2p_get_device ds a)"

definition is_zero_ether_addr :: "bytes \<Rightarrow> bool" where
  "is_zero_ether_addr a \<longleftrightarrow> list_all (\<lambda>c. c = CHR 0x00) a"

definition wpas_p2p_get_sta_mac :: "supplicant \<Rightarrow> p2p_data option \<Rightarrow> bytes \<Rightarrow> bytes option" where
  "wpas_p2p_get_sta_mac w p org_addr =
    (case (p, sup_ssid w) of
       (Some q, Some ssid) \<Rightarrow>
         (case mtk_p2p_get_device (p2p_devices q) org_addr of
            None \<Rightarrow> None
          | Some dev \<Rightarrow>
              if mode ssid = WPAS_MODE_INFRA \<and> p2p_device_addr dev \<noteq> sup_bssid w \<and> \<not> is_zero_ether_addr (sup_bssid w)
              then Some (sup_bssid w)
              else if p2p_device_addr dev \<noteq> interface_addr dev \<and> \<not> is_zero_ether_addr (interface_addr dev)
              then Some (interface_addr dev) else None)
     | _ \<Rightarrow> None)"

definition wpas_get_sta_statistics :: "nl_plat \<Rightarrow> bytes \<Rightarrow> sta_statistics \<Rightarrow> (int \<times> sta_statistics) nl" where
  "wpas_get_sta_statistics P sta_addr st = do {
     let n = (if sizeof_ptr P = 8 then 32 else 24 + sizeof_ptr P);
     (r, out) \<leftarrow> wpa_driver_nl80211_testmode P (header 0x10 n) n (Get_sta_statistics sta_addr) (Stat_buf st);
     ret (r, case out of Stat_buf st' \<Rightarrow> st' | _ \<Rightarrow> st) }"

definition nl :: string where
  "nl = [CHR 0x0A]"

text \<open>\<open>MACSTR\<close>: six pairs of digits.\<close>

definition macstr :: "bytes \<Rightarrow> string" where
  "macstr a = concat (map (\<lambda>i. (if i = 0 then '''' else '':'') @ show_hex 2 (of_char (a ! i))) [0..<6])"

text \<open>The conversion \<open>%d\<close> of an unsigned number, and \<open>%d:%d:%d:%d\<close> of an array.\<close>

definition show_d :: "u32 \<Rightarrow> string" where
  "show_d w = show_dec (sint w)"

definition tc_entry :: "bytes \<Rightarrow> nat \<Rightarrow> u32" where
  "tc_entry a i = un32 (take 4 (drop (4 * i) a))"

definition show_tc :: "bytes \<Rightarrow> string" where
  "show_tc a = show_d (tc_entry a 0) @ '':'' @ show_d (tc_entry a 1) @ '':'' @ show_d (tc_entry a 2) @ '':'' @ show_d (tc_entry a 3)"

text \<open>The bytes from \<open>i\<close> to \<open>i + 15\<close>, with a blank after every fourth one.\<close>

definition reserved_pieces :: "bytes \<Rightarrow> nat \<Rightarrow> string list" where
  "reserved_pieces a i = concat (map (\<lambda>k. [show_HEX 2 (of_char (a ! k))] @ (if (k + 1) mod 4 = 0 then ['' ''] else [])) [i..<i + 16])"

text \<open>The texts that \<open>print_sta_statistics\<close> prints one after the other.\<close>

definition statistics_pieces :: "sta_statistics \<Rightarrow> string list" where
  "statistics_pieces s =
     [''sta_addr='' @ macstr (addr s) @ nl,
      ''link_score='' @ show_d (link_score s) @ nl,
      ''per='' @ show_dec (uint (per s)) @ nl,
      ''rssi='' @ show_dec (rssi s) @ nl,
      ''phy=0x'' @ show_HEX 8 (unat (phy_mode s)) @ nl,
      ''rate='' @ digits_of 10 (unat (tx_rate s) div 2) @ (if odd (unat (tx_rate s)) then ''.5'' else ''.0'') @ nl,
      ''total_cnt='' @ show_d (tx_total_cnt s) @ nl,
      ''threshold_cnt='' @ show_d (tx_exc_threshold_cnt s) @ nl,
      ''fail_cnt='' @ show_d (tx_fail_cnt s) @ nl,
      ''timeout_cnt='' @ show_d (tx_timeout_cnt s) @ nl,
      ''apt='' @ show_d (tx_avg_process_time s) @ nl,
      ''aat='' @ show_d (tx_avg_air_time s) @ nl,
      ''TC_buf_full_cnt='' @ show_tc (tc_buf_full_cnt s) @ nl,
      ''TC_sta_que_len='' @ show_tc (tc_que_len s) @ nl,
      ''TC_avg_que_len='' @ show_tc (tc_avg_que_len s) @ nl,
      ''TC_cur_que_len='' @ show_tc (tc_cur_que_len s) @ nl,
      ''flag=0x'' @ show_HEX 8 (unat (flag s)) @ nl,
      ''reserved0=''] @ reserved_pieces (reserved s) 0 @ [nl, ''reserved1=''] @ reserved_pieces (reserved s) 16 @
     [nl, ''===='' @ nl]"

fun print_pieces :: "string list \<Rightarrow> nat \<Rightarrow> nat \<Rightarrow> int nl" where
  "print_pieces [] pos n = ret (int pos)"
| "print_pieces (t # ts) pos n = do {
     r \<leftarrow> snprintf_at pos (n - pos) t;
     if int (n - pos) \<le> r then ret 0 else print_pieces ts (pos + length t) n }"

definition print_sta_statistics :: "sta_statistics \<Rightarrow> nat \<Rightarrow> int nl" where
  "print_sta_statistics s n = print_pieces (statistics_pieces s) 0 n"

definition wpa_driver_get_sta_statistics :: "nl_plat \<Rightarrow> string \<Rightarrow> int nl" where
  "wpa_driver_get_sta_statistics P a = (case hwaddr_aton P a of
     None \<Rightarrow> ret (-1)
   | Some sta_addr \<Rightarrow> do {
       w \<leftarrow> gets supp;
       p \<leftarrow> gets p2p;
       let mac = (case wpas_p2p_get_sta_mac w p sta_addr of None \<Rightarrow> sta_addr | Some m \<Rightarrow> m);
       (r, st) \<leftarrow> wpas_get_sta_statistics P mac no_statistics;
       if r < 0 then ret (-1)
       else do { b \<leftarrow> gets reply; print_sta_statistics st (length b) } })"

section \<open>P2P commands\<close>

definition wpas_p2p_sigma_test_mode :: "nl_plat \<Rightarrow> int \<Rightarrow> int \<Rightarrow> int nl" where
  "wpas_p2p_sigma_test_mode P i v = testmode P 1 16 (P2p_sigma (word_of_int i) (word_of_int v))"

text \<open>The name of the network that may follow the address is only logged.\<close>

definition p2p_ctrl_iface_set_opps :: "nl_plat \<Rightarrow> string \<Rightarrow> int nl" where
  "p2p_ctrl_iface_set_opps P cmd = do {
     let CTWin = atoi (long_bits P) cmd;
     case strchr (CHR '' '') cmd of
       None \<Rightarrow> do { _ \<leftarrow> bad; _ \<leftarrow> wpas_p2p_sigma_test_mode P 107 CTWin; ret 0 }
     | Some k \<Rightarrow>
         if hwaddr_aton P (drop (k + 1) cmd) = None then ret (-1)
         else do { _ \<leftarrow> wpas_p2p_sigma_test_mode P 107 CTWin; ret 0 } }"

definition p2p_ctrl_iface_set_power_save :: "nl_plat \<Rightarrow> string \<Rightarrow> int nl" where
  "p2p_ctrl_iface_set_power_save P cmd = do { _ \<leftarrow> wpas_p2p_sigma_test_mode P 108 (atoi (long_bits P) cmd); ret 0 }"

definition p2p_ctrl_iface_set_sleep :: "nl_plat \<Rightarrow> string \<Rightarrow> int nl" where
  "p2p_ctrl_iface_set_sleep P cmd =
    (if hwaddr_aton P cmd = None then ret (-1)
     else do { _ \<leftarrow> wpas_p2p_sigma_test_mode P 106 0; ret 0 })"

text \<open>
  \<open>tokenize_space\<close>: \<open>cmd\<close> is the memory of the command with its final zero byte, \<open>argv\<close> the positions found
  so far.  \<open>skip_word\<close> is the inner loop.
\<close>

definition is_sep :: "char \<Rightarrow> bool" where
  "is_sep c \<longleftrightarrow> c = CHR 0x0A \<or> c = CHR '' ''"

function skip_word :: "bytes \<Rightarrow> nat \<Rightarrow> nat \<Rightarrow> nat" where
  "skip_word cmd len pos =
    (if pos < length cmd \<and> \<not> is_sep (cmd ! pos) \<and> cmd ! pos \<noteq> CHR 0x00
     then if len \<le> pos + 1 then pos + 1 else skip_word cmd len (pos + 1)
     else pos)"
  by auto
termination by (relation "measure (\<lambda>(cmd, len, pos). length cmd - pos)") auto

declare skip_word.simps [simp del]

lemma skip_word_le: "pos \<le> skip_word cmd len pos"
  by (induction cmd len pos rule: skip_word.induct) (subst skip_word.simps, auto)

lemma skip_word_less: "pos < length cmd \<Longrightarrow> \<not> is_sep (cmd ! pos) \<Longrightarrow> cmd ! pos \<noteq> CHR 0x00 \<Longrightarrow> pos < skip_word cmd len pos"
  using skip_word_le [of "pos + 1" cmd len] by (subst skip_word.simps) (simp add: Suc_le_eq)

function token_loop :: "bytes \<Rightarrow> nat \<Rightarrow> nat \<Rightarrow> nat list \<Rightarrow> bytes \<times> nat list" where
  "token_loop cmd len start argv =
    (let argv = argv @ [start]; pos = skip_word cmd len start in
     if length cmd \<le> pos \<or> cmd ! pos = CHR 0x00 then (cmd, argv)
     else if is_sep (cmd ! pos)
     then (let cmd = cmd[pos := CHR 0x00] in if len \<le> pos + 1 then (cmd, argv) else token_loop cmd len (pos + 1) argv)
     else token_loop cmd len pos argv)"
  by auto
termination
proof (relation "measure (\<lambda>(cmd, len, start, argv). length cmd - start)", goal_cases)
  case (2 cmd len start argv x pos z)
  then show ?case using skip_word_le [of start cmd len] by auto
next
  case (3 cmd len start argv x pos)
  then have c: "pos < length cmd" "cmd ! pos \<noteq> CHR 0x00" "\<not> is_sep (cmd ! pos)" "pos = skip_word cmd len start" by auto
  have "start \<noteq> pos"
  proof
    assume "start = pos"
    then have "pos < skip_word cmd len start" using skip_word_less [OF c(1,3,2)] by blast
    then show False using c(4) by (metis less_irrefl)
  qed
  then show ?case using skip_word_le [of start cmd len] c by auto
qed simp

declare token_loop.simps [simp del]

definition tokenize_space :: "string \<Rightarrow> nat \<Rightarrow> bytes \<times> nat list" where
  "tokenize_space cmd len = token_loop (cmd @ [CHR 0x00]) len 0 []"

text \<open>The strings at the positions; the callers have room for 64 of them.\<close>

definition words_of :: "string \<Rightarrow> string list" where
  "words_of cmd = (let (b, argv) = tokenize_space cmd (length cmd) in map (\<lambda>p. cstr (drop p b)) argv)"

definition tokens :: "string \<Rightarrow> string list nl" where
  "tokens cmd = do {
     let ws = words_of cmd;
     _ \<leftarrow> (if 64 < length ws then bad else ret ());
     ret ws }"

definition p2p_ctrl_iface_set_noa :: "nl_plat \<Rightarrow> string \<Rightarrow> int nl" where
  "p2p_ctrl_iface_set_noa P cmd = do {
     argv \<leftarrow> tokens cmd;
     if length argv \<noteq> 4 then ret (-1)
     else do {
       let arg = (\<lambda>i. word_of_int (atoi (long_bits P) (argv ! i)) :: u32);
       testmode P 1 28 (P2p_noa 4 0 (arg 1) (arg 2) (arg 3)) } }"

definition p2p_ctrl_iface_set_ps :: "nl_plat \<Rightarrow> string \<Rightarrow> int nl" where
  "p2p_ctrl_iface_set_ps P cmd = do {
     argv \<leftarrow> tokens cmd;
     if length argv \<noteq> 4 then ret (-1)
     else do {
       let enable = atoi (long_bits P) (argv ! 2);
       let ctw = (word_of_int (atoi (long_bits P) (argv ! 3)) :: u32);
       testmode P 1 16 (P2p_sigma 107 (if enable \<noteq> 0 then ctw OR BIT 7 else ctw)) } }"

section \<open>Wi-Fi display\<close>

text \<open>The fields are copied one by one; the array for the session information has 192 bytes.\<close>

definition wpas_wfd_data_update :: "nl_plat \<Rightarrow> wfd_data \<Rightarrow> int nl" where
  "wpas_wfd_data_update P d = do {
     let n = unat (WfdSessionInformationIELen d);
     _ \<leftarrow> (if 192 < n then bad else ret ());
     (r, _) \<leftarrow> wpa_driver_nl80211_testmode P (header 2 (sizeof_wfd_data_s P)) 464
       (Wfd_data (d\<lparr>WfdSessionInformationIE := take 192 (splice 0 (take n (WfdSessionInformationIE d)) (zeros 192))\<rparr>)) No_buf;
     ret r }"

definition p2p_get_capability :: "p2p_data \<Rightarrow> string \<Rightarrow> int nl" where
  "p2p_get_capability q cmd =
    (if starts ''p2p_dev_capa'' cmd
     then do { b \<leftarrow> gets reply; snprintf_at 0 (length b) (''p2p_dev_capa='' @ show_dec (uint (dev_capab q)) @ nl) }
     else if starts ''p2p_group_capa'' cmd then ret (-1)
     else ret 0)"

definition p2p_set_capability :: "nl_plat \<Rightarrow> p2p_data \<Rightarrow> string \<Rightarrow> int nl" where
  "p2p_set_capability P q cmd =
    (if starts ''p2p_dev_capa '' cmd
     then do {
       let dev_cap = atoi (long_bits P) (drop 13 cmd);
       _ \<leftarrow> modify (\<lambda>s. s\<lparr>p2p := Some (q\<lparr>dev_capab := word_of_int dev_cap AND 0xff\<rparr>)\<rparr>);
       ret 0 }
     else if starts ''p2p_group_capa '' cmd then ret (-1)
     else ret 0)"

text \<open>The operating class and the channel of a frequency in MHz.\<close>

definition priv_p2p_freq_to_channel :: "nat \<Rightarrow> (nat \<times> nat) option" where
  "priv_p2p_freq_to_channel freq =
    (if 2412 \<le> freq \<and> freq \<le> 2472 then (if (freq - 2407) mod 5 \<noteq> 0 then None else Some (81, (freq - 2407) div 5))
     else if freq = 2484 then Some (82, 14)
     else if 5180 \<le> freq \<and> freq \<le> 5240 then (if (freq - 5000) mod 5 \<noteq> 0 then None else Some (115, (freq - 5000) div 5))
     else if 5260 \<le> freq \<and> freq \<le> 5320 then Some (118, (freq - 5000) div 5)
     else if 5500 \<le> freq \<and> freq \<le> 5700 then Some (121, (freq - 5000) div 5)
     else if 5745 \<le> freq \<and> freq \<le> 5805 then (if (freq - 5000) mod 5 \<noteq> 0 then None else Some (124, (freq - 5000) div 5))
     else if 5825 \<le> freq \<and> freq \<le> 5845 then Some (125, (freq - 5000) div 5)
     else None)"

definition p2p_wfd_sink_config_scc :: "nl_plat \<Rightarrow> bool \<Rightarrow> u32 \<Rightarrow> unit nl" where
  "p2p_wfd_sink_config_scc P scc oper_freq = do {
     p \<leftarrow> gets p2p;
     case p of None \<Rightarrow> ret ()
     | Some q \<Rightarrow>
         if scc \<and> oper_freq \<noteq> 0
         then do {
           let (c, ch) = (case priv_p2p_freq_to_channel (unat oper_freq) of None \<Rightarrow> (0, 0) | Some (x, y) \<Rightarrow> (word_of_nat x, word_of_nat y));
           modify (\<lambda>s. s\<lparr>p2p := Some (q\<lparr>op_channel := ch, op_reg_class := c, p2p_chans := [(c, [ch])]\<rparr>)\<rparr>) }
         else do {
           w \<leftarrow> gets supp;
           sent \<leftarrow> gets nl_sent;
           let q = (if p2p_oper_reg_class w \<noteq> 0 \<and> p2p_oper_channel w \<noteq> 0
             then q\<lparr>op_reg_class := p2p_oper_reg_class w, op_channel := p2p_oper_channel w, cfg_op_channel := 1\<rparr>
             else q\<lparr>op_reg_class := 81, op_channel := word_of_nat (1 + unat (os_random P sent) mod 3 * 5), cfg_op_channel := 0\<rparr>);
           modify (\<lambda>s. s\<lparr>p2p := Some (q\<lparr>p2p_chans := cfg_channels q\<rparr>)\<rparr>) } }"

datatype freq_user = FREQ_UNUSED | WPA_FREQ_USED_BY_INFRA_STATION | WPA_FREQ_USED_BY_P2P_CLIENT

text \<open>The frequency an interface uses, if it uses one.\<close>

definition if_freq :: "radio_if \<Rightarrow> int option" where
  "if_freq i = (case current_ssid i of None \<Rightarrow> None
     | Some s \<Rightarrow> if assoc_freq i = 0 then None
         else if mode s \<in> {WPAS_MODE_AP, WPAS_MODE_P2P_GO} then Some (frequency s)
         else if bssid_known i then Some (assoc_freq i) else None)"

fun freq_index :: "int \<Rightarrow> (int \<times> freq_user) list \<Rightarrow> nat" where
  "freq_index f [] = 0"
| "freq_index f (d # ds) = (if fst d = f then 0 else Suc (freq_index f ds))"

definition note_freq :: "radio_if \<Rightarrow> (int \<times> freq_user) list \<Rightarrow> (int \<times> freq_user) list" where
  "note_freq i ds = (case (if_freq i, current_ssid i) of
       (Some f, Some s) \<Rightarrow>
         (let k = freq_index f ds; ds = (if k = length ds then ds @ [(f, FREQ_UNUSED)] else ds)
          in if mode s = WPAS_MODE_INFRA
             then ds[k := (f, if p2p_group s then WPA_FREQ_USED_BY_P2P_CLIENT else WPA_FREQ_USED_BY_INFRA_STATION)] else ds)
     | _ \<Rightarrow> ds)"

fun mtk_get_shared_radio_freqs_data :: "nat \<Rightarrow> radio_if list \<Rightarrow> (int \<times> freq_user) list \<Rightarrow> (int \<times> freq_user) list" where
  "mtk_get_shared_radio_freqs_data len [] ds = ds"
| "mtk_get_shared_radio_freqs_data len (i # is) ds =
     (if length ds = len then ds else mtk_get_shared_radio_freqs_data len is (note_freq i ds))"

text \<open>The number of frequencies, and the array, which has zeros behind them.\<close>

definition mtk_get_shared_radio_freqs :: "nl_plat \<Rightarrow> nat \<Rightarrow> (int \<times> int list) nl" where
  "mtk_get_shared_radio_freqs P len = do {
     m \<leftarrow> request P (Calloc len);
     if m = 0 then ret (-1, replicate len 0)
     else do {
       is \<leftarrow> gets (\<lambda>s. radio_ifs (supp s));
       let fs = map fst (mtk_get_shared_radio_freqs_data len is []);
       ret (int (length fs), fs @ replicate (len - length fs) 0) } }"

text \<open>The three uses of both: an interface's own channel when there is one, else several channels.\<close>

definition config_from_shared :: "nl_plat \<Rightarrow> unit nl" where
  "config_from_shared P = do {
     (num, fs) \<leftarrow> mtk_get_shared_radio_freqs P 1;
     let freq = (word_of_int (fs ! 0) :: u32);
     if 0 < num \<and> freq \<noteq> 0 then p2p_wfd_sink_config_scc P True freq else p2p_wfd_sink_config_scc P False 0 }"

definition use_mcc_shared :: "nl_plat \<Rightarrow> unit nl" where
  "use_mcc_shared P = do {
     (num, fs) \<leftarrow> mtk_get_shared_radio_freqs P 1;
     if 0 < num \<and> 0 < fs ! 0 then p2p_wfd_sink_config_scc P True (word_of_int (fs ! 0)) else p2p_wfd_sink_config_scc P False 0 }"

text \<open>\<open>MIRACAST\<close>: the command that is passed on to the private \<open>ioctl\<close>.\<close>

definition miracast :: "nl_plat \<Rightarrow> string \<Rightarrow> string nl" where
  "miracast P cmd = do {
     let m = nat (atoi (long_bits P) (drop 9 cmd) mod 256);
     if m = 0 \<or> m = 1 then do { _ \<leftarrow> config_from_shared P; ret cmd }
     else if m = 2
     then (case strpos '' freq='' cmd of
         Some pos \<Rightarrow> do {
           _ \<leftarrow> p2p_wfd_sink_config_scc P True (word_of_int (atoi (long_bits P) (drop (pos + 6) cmd)));
           ret ''MIRACAST 2'' }
       | None \<Rightarrow> do { _ \<leftarrow> config_from_shared P; ret cmd })
     else ret cmd }"

definition set_mcc :: "nl_plat \<Rightarrow> bool \<Rightarrow> unit nl" where
  "set_mcc P on = modify (\<lambda>s. s\<lparr>
     ifaces := map (\<lambda>i. if on then i\<lparr>num_multichan_concurrent := 2, drv_flags := drv_flags i OR P2P_CONCURRENT P\<rparr>
       else i\<lparr>num_multichan_concurrent := 0, drv_flags := drv_flags i AND NOT (P2P_CONCURRENT P)\<rparr>) (ifaces s),
     p2p := (if ifaces s = [] then p2p s else map_option (\<lambda>q. q\<lparr>concurrent_operations := if on then 1 else 0\<rparr>) (p2p s))\<rparr>)"

section \<open>The receive filter\<close>

text \<open>\<open>os_memcpy (buf, pos, 8)\<close> and \<open>strtol (buf, &errChar, 16)\<close>, stored in an unsigned field.\<close>

definition filter_word :: "nl_plat \<Rightarrow> string \<Rightarrow> nat \<Rightarrow> u32" where
  "filter_word P cmd pos = word_of_int (fst (strtol (long_bits P) 16 (take 8 (drop pos cmd))))"

definition mtk_rx_packet_filter :: "nl_plat \<Rightarrow> string \<Rightarrow> int nl" where
  "mtk_rx_packet_filter P cmd =
    (if length cmd \<noteq> 71 then ret (-1)
     else (let w = filter_word P cmd in testmode P 103 32 (Rx_filter (w 21) (w 29) (w 38) (w 46) (w 55) (w 63))))"

text \<open>\<open>rxfilter-add\<close> and \<open>rxfilter-remove\<close>: the number behind the name, added to \<open>offset\<close>.\<close>

definition rxfilter_number :: "nl_plat \<Rightarrow> u32 \<Rightarrow> string \<Rightarrow> int nl" where
  "rxfilter_number P offset cp =
    (let (v, endp) = strtol (long_bits P) 0 cp in
     if cp = '''' \<or> endp = cp then ret (-1)
     else do { _ \<leftarrow> wpa_driver_nl80211_driver_sw_cmd P True 0x9F000000 (word_of_int v + offset); ret 0 })"

end
