(* ===== verification/Dispatch.thy ===== *)
theory Dispatch
  imports DriverCmd
begin

text \<open>
  \<open>wpa_driver_nl80211_driver_cmd\<close>: which command a text is, in the order in which the code compares its
  beginning, what is done for it, and the private \<open>ioctl\<close> for the commands that are passed on.
\<close>

text \<open>The result of a command, and the text that is still to be passed on.\<close>

type_synonym handled = "int \<times> string option"

definition done_with :: "int nl \<Rightarrow> handled nl" where
  "done_with m = do { r \<leftarrow> m; ret (r, None) }"

definition cmd_macaddr :: "int nl" where
  "cmd_macaddr = do {
     _ \<leftarrow> wpa_s;
     a \<leftarrow> gets (\<lambda>s. own_addr (supp s));
     b \<leftarrow> gets reply;
     snprintf_at 0 (length b) (''Macaddr = '' @ macstr a @ nl) }"

definition cmd_country :: "nl_plat \<Rightarrow> string \<Rightarrow> int nl" where
  "cmd_country P cmd =
    (if length cmd \<noteq> length ''COUNTRY'' + 3 then ret 0
     else do {
       r \<leftarrow> wpa_driver_mediatek_set_country P (drop 8 cmd);
       _ \<leftarrow> (if r = 0 then do { _ \<leftarrow> wpa_s; wpa_driver_notify_country_change P cmd } else ret ());
       ret r })"

definition cmd_start :: "nl_plat \<Rightarrow> int nl" where
  "cmd_start P = do {
     name \<leftarrow> gets (\<lambda>s. first_ifname (supp s));
     r \<leftarrow> request P (Set_iface_flags name True);
     _ \<leftarrow> (if r \<noteq> 0 then ret 0 else request P (Wpa_msg ''CTRL-EVENT-DRIVER-STATE STARTED''));
     ret r }"

definition cmd_stop :: "nl_plat \<Rightarrow> int nl" where
  "cmd_stop P = do {
     w \<leftarrow> gets supp;
     _ \<leftarrow> (if associated w then do { _ \<leftarrow> wpa_s; request P (Deauthenticate (drv_bssid w)) } else ret 0);
     r \<leftarrow> request P (Set_iface_flags (first_ifname w) False);
     _ \<leftarrow> (if r \<noteq> 0 then ret 0 else request P (Wpa_msg ''CTRL-EVENT-DRIVER-STATE STOPPED''));
     ret r }"

definition cmd_mtk_acs :: "nl_plat \<Rightarrow> int nl" where
  "cmd_mtk_acs P = do {
     ch \<leftarrow> wpa_driver_do_mtk_acs P;
     b \<leftarrow> gets reply;
     _ \<leftarrow> (if b = [] then bad else modify (\<lambda>s. s\<lparr>reply := splice 0 [char_of ch] (reply s)\<rparr>));
     ret 1 }"

definition cmd_capability :: "(p2p_data \<Rightarrow> int nl) \<Rightarrow> int nl" where
  "cmd_capability f = do {
     _ \<leftarrow> wpa_s;
     p \<leftarrow> gets p2p;
     case p of None \<Rightarrow> ret (-1) | Some q \<Rightarrow> f q }"

definition cmd_use_mcc :: "nl_plat \<Rightarrow> string \<Rightarrow> int nl" where
  "cmd_use_mcc P cmd = do {
     _ \<leftarrow> wpa_s;
     _ \<leftarrow> (if atoi (long_bits P) (drop 12 cmd) mod 256 \<noteq> 0 then p2p_wfd_sink_config_scc P False 0 else use_mcc_shared P);
     ret (-1) }"

definition cmd_mcc :: "nl_plat \<Rightarrow> string \<Rightarrow> int nl" where
  "cmd_mcc P cmd = do {
     _ \<leftarrow> wpa_s;
     w \<leftarrow> gets supp;
     if \<not> drv_priv w then ret (-1)
     else (case strchr (CHR '' '') cmd of None \<Rightarrow> ret (-1)
       | Some k \<Rightarrow> do { _ \<leftarrow> set_mcc P (atoi (long_bits P) (drop (k + 1) cmd) \<noteq> 0); ret 0 }) }"

definition cmd_sigma_mode :: "string \<Rightarrow> int nl" where
  "cmd_sigma_mode cmd = ret (if strchr (CHR '' '') cmd = None then -1 else 0)"

text \<open>The first character of the argument, as a number.\<close>

definition cmd_setsuspendmode :: "nl_plat \<Rightarrow> string \<Rightarrow> unit nl" where
  "cmd_setsuspendmode P cmd = do {
     let c = (if length cmd = 15 then 0 else of_char (cmd ! 15) :: u8);
     _ \<leftarrow> testmode P 101 12 (Suspendmode (c - 48));
     ret () }"

text \<open>
  Every other command: the text is copied behind the header into 100 bytes, of which 92 are free, but
  the message is as long as the text.
\<close>

definition cmd_transparent :: "nl_plat \<Rightarrow> string \<Rightarrow> unit nl" where
  "cmd_transparent P cmd = do {
     _ \<leftarrow> (if 92 < length cmd then bad else ret ());
     _ \<leftarrow> testmode P 102 (8 + length cmd) (Str_cmd (take 92 cmd));
     ret () }"

definition handle_cmd :: "nl_plat \<Rightarrow> string \<Rightarrow> handled nl" where
  "handle_cmd P cmd =
    (if istarts ''POWERMODE '' cmd then ret (-1, None)
     else if istarts ''GET_STA_STATISTICS '' cmd
     then done_with (do { _ \<leftarrow> wpa_s; wpa_driver_get_sta_statistics P (drop 19 cmd) })
     else if starts ''MACADDR'' cmd then done_with cmd_macaddr
     else if istarts ''COUNTRY'' cmd then done_with (cmd_country P cmd)
     else if iequals ''start'' cmd then done_with (cmd_start P)
     else if iequals ''stop'' cmd then done_with (cmd_stop P)
     else if istarts ''getpower'' cmd then ret (-1, None)
     else if istarts ''rxfilter-add'' cmd then done_with (rxfilter_number P 0x00900200 (drop 12 cmd))
     else if istarts ''rxfilter-remove'' cmd then done_with (rxfilter_number P 0x00900300 (drop 15 cmd))
     else if istarts ''rxfilter-stop'' cmd then done_with (wpa_driver_nl80211_driver_sw_cmd P True 0x9F000000 0x00900000)
     else if istarts ''rxfilter-start'' cmd then done_with (wpa_driver_nl80211_driver_sw_cmd P True 0x9F000000 0x00900100)
     else if iequals ''btcoexscan-start'' cmd then ret (0, None)
     else if iequals ''btcoexscan-stop'' cmd then ret (0, None)
     else if istarts ''btcoexmode'' cmd then ret (0, None)
     else if CONFIG_HOTSPOT_MGR_SUPPORT P \<and> starts ''STA-BLOCK '' cmd
     then done_with (do { r \<leftarrow> wpa_driver_sta_block P (drop 10 cmd); ret (if r \<noteq> 0 then -1 else 0) })
     else if CONFIG_HOTSPOT_MGR_SUPPORT P \<and> starts ''STA-UNBLOCK '' cmd
     then done_with (do { r \<leftarrow> wpa_driver_sta_unblock P (drop 12 cmd); ret (if r \<noteq> 0 then -1 else 0) })
     else if CONFIG_HOTSPOT_MGR_SUPPORT P \<and> istarts ''set_max_client '' cmd
     then done_with (do { _ \<leftarrow> wpa_driver_set_max_client P (drop 15 cmd); ret (-1) })
     else if CONFIG_MTK_LTE_COEX P \<and> starts ''MTK-ACS'' cmd then done_with (cmd_mtk_acs P)
     else if CONFIG_WAPI_SUPPORT P \<and> istarts ''set-wapi-key'' cmd
     then done_with (do { b \<leftarrow> gets reply; wpa_driver_nl80211_set_wapi_key P (wapi_args_at P b) })
     else if CONFIG_WAPI_SUPPORT P \<and> istarts ''wapi-msg-send'' cmd
     then done_with (do { b \<leftarrow> gets reply; wpa_driver_nl80211_send_msg (wapi_msg_len_at P b) })
     else if CONFIG_MTK_WFD_SINK P \<and> starts ''p2p_get_cap '' cmd
     then done_with (cmd_capability (\<lambda>q. p2p_get_capability q (drop 12 cmd)))
     else if CONFIG_MTK_WFD_SINK P \<and> starts ''p2p_set_cap '' cmd
     then done_with (cmd_capability (\<lambda>q. p2p_set_capability P q (drop 12 cmd)))
     else if CONFIG_MTK_WFD_SINK P \<and> starts ''MIRACAST '' cmd
     then do { _ \<leftarrow> wpa_s; cmd' \<leftarrow> miracast P cmd; ret (-1, Some cmd') }
     else if CONFIG_MTK_WFD_SINK P \<and> istarts ''p2p_use_mcc='' cmd then done_with (cmd_use_mcc P cmd)
     else if CONFIG_MTK_WFD_SINK P \<and> starts ''wfd_data_update'' cmd
     then done_with (do { _ \<leftarrow> wpa_s; b \<leftarrow> gets reply; wpas_wfd_data_update P (wfd_data_at P b) })
     else if CONFIG_MTK_P2P_SIGMA P \<and> istarts ''mcc'' cmd then done_with (cmd_mcc P cmd)
     else if CONFIG_MTK_P2P_SIGMA P \<and> starts ''p2p_set_opps '' cmd
     then done_with (do { _ \<leftarrow> wpa_s; p2p_ctrl_iface_set_opps P (drop 13 cmd) })
     else if CONFIG_MTK_P2P_SIGMA P \<and> starts ''p2p_set_power_save '' cmd
     then done_with (do { _ \<leftarrow> wpa_s; p2p_ctrl_iface_set_power_save P (drop 19 cmd) })
     else if CONFIG_MTK_P2P_SIGMA P \<and> starts ''p2p_set_sleep '' cmd
     then done_with (do { _ \<leftarrow> wpa_s; p2p_ctrl_iface_set_sleep P (drop 14 cmd) })
     else if CONFIG_MTK_P2P_SIGMA P \<and> starts ''p2p_set_sleep'' cmd
     then done_with (do { _ \<leftarrow> wpa_s; p2p_ctrl_iface_set_sleep P (''ff:ff:ff:ff:ff:ff '' @ [CHR 0x22, CHR 0x22]) })
     else if CONFIG_MTK_P2P_SIGMA P \<and> istarts ''sigma_mode'' cmd then done_with (cmd_sigma_mode cmd)
     else if starts ''P2P_SET_NOA'' cmd then done_with (do { _ \<leftarrow> wpa_s; p2p_ctrl_iface_set_noa P cmd })
     else if starts ''P2P_SET_PS'' cmd then done_with (do { _ \<leftarrow> wpa_s; p2p_ctrl_iface_set_ps P cmd })
     else if istarts ''SETSUSPENDMODE '' cmd then do { _ \<leftarrow> cmd_setsuspendmode P cmd; ret (-1, Some cmd) }
     else if istarts ''mtk_rx_packet_filter '' cmd then done_with (mtk_rx_packet_filter P cmd)
     else do { _ \<leftarrow> cmd_transparent P cmd; ret (-1, Some cmd) })"

abbreviation (input) PRIV_CMD_SIZE :: nat where
  "PRIV_CMD_SIZE \<equiv> 512"

definition private_ioctl :: "nl_plat \<Rightarrow> string \<Rightarrow> int nl" where
  "private_ioctl P cmd = do {
     name \<leftarrow> gets (\<lambda>s. bss_ifname (supp s));
     _ \<leftarrow> modify (\<lambda>s. s\<lparr>reply := zeros (length (reply s))\<rparr>);
     let cmd_len = (if PRIV_CMD_SIZE \<le> length cmd then PRIV_CMD_SIZE - 1 else length cmd);
     r \<leftarrow> request P (Priv_ioctl (take 15 name) (zpad PRIV_CMD_SIZE (take (cmd_len + 1) (cmd @ [CHR 0x00]))) (int cmd_len + 1) (int PRIV_CMD_SIZE));
     if r < 0
     then do {
       _ \<leftarrow> wpa_driver_send_hang_msg P;
       b \<leftarrow> gets reply;
       snprintf_at 0 (length b) (''FAIL'' @ nl) }
     else do {
       _ \<leftarrow> modify (\<lambda>s. s\<lparr>drv_errors := 0\<rparr>);
       if istarts ''WLS_BATCHING'' cmd
       then do {
         b \<leftarrow> gets reply;
         _ \<leftarrow> (if CHR 0x00 \<in> set b then ret () else bad);
         ret (int (length (cstr b))) }
       else ret 0 } }"

definition wpa_driver_nl80211_driver_cmd :: "nl_plat \<Rightarrow> string \<Rightarrow> int nl" where
  "wpa_driver_nl80211_driver_cmd P cmd = do {
     w \<leftarrow> gets supp;
     if drv_null w then ret (-1)
     else if ctx_null w then ret (-1)
     else if \<not> ap_mode w \<and> conf_null w then ret (-1)
     else do {
       (r, more) \<leftarrow> handle_cmd P cmd;
       case more of None \<Rightarrow> ret r | Some cmd' \<Rightarrow> private_ioctl P cmd' } }"

text \<open>The entries for the supplicant itself: the command is printed into a buffer that is also the one for the answer.\<close>

definition own_cmd :: "nl_plat \<Rightarrow> string \<Rightarrow> int nl" where
  "own_cmd P text = do {
     let cmd = take (MAX_DRV_CMD_SIZE P - 1) text;
     _ \<leftarrow> modify (\<lambda>s. s\<lparr>reply := cmd @ [CHR 0x00]\<rparr>);
     wpa_driver_nl80211_driver_cmd P cmd }"

definition wpa_driver_set_p2p_noa :: "nl_plat \<Rightarrow> u8 \<Rightarrow> int \<Rightarrow> int \<Rightarrow> int nl" where
  "wpa_driver_set_p2p_noa P count start duration =
     own_cmd P (''P2P_SET_NOA '' @ show_dec (uint count) @ '' '' @ show_dec start @ '' '' @ show_dec duration)"

definition wpa_driver_get_p2p_noa :: "int nl" where
  "wpa_driver_get_p2p_noa = ret (-1)"

definition wpa_driver_set_p2p_ps :: "nl_plat \<Rightarrow> int \<Rightarrow> int \<Rightarrow> int \<Rightarrow> int nl" where
  "wpa_driver_set_p2p_ps P legacy_ps opp_ps ctwindow =
     own_cmd P (''P2P_SET_PS '' @ show_dec legacy_ps @ '' '' @ show_dec opp_ps @ '' '' @ show_dec ctwindow)"

definition wpa_driver_set_ap_wps_p2p_ie :: "int nl" where
  "wpa_driver_set_ap_wps_p2p_ie = ret 0"

end
