(* ===== verification/DriverRun.thy ===== *)
theory DriverRun
  imports Dispatch Running Wp
begin

text \<open>
  What the private commands do: the words a command is cut into, the messages of the commands with
  arguments, and the bounds of what is read and written.
\<close>

section \<open>Words\<close>

text \<open>The words of a text: the parts between separators, without an empty one at the end.\<close>

function split_words :: "string \<Rightarrow> string list" where
  "split_words s = takeWhile (\<lambda>c. \<not> is_sep c) s #
     (case dropWhile (\<lambda>c. \<not> is_sep c) s of [] \<Rightarrow> [] | c # r \<Rightarrow> if r = [] then [] else split_words r)"
  by auto
termination
proof (relation "measure length", goal_cases)
  case (2 s c r)
  then have "length (c # r) \<le> length s" by (metis length_dropWhile_le)
  then show ?case by simp
qed simp

declare split_words.simps [simp del]

function word_starts :: "nat \<Rightarrow> string \<Rightarrow> nat list" where
  "word_starts p s = p #
     (case dropWhile (\<lambda>c. \<not> is_sep c) s of [] \<Rightarrow> []
      | c # r \<Rightarrow> if r = [] then [] else word_starts (p + length (takeWhile (\<lambda>c. \<not> is_sep c) s) + 1) r)"
  by auto
termination
proof (relation "measure (length \<circ> snd)", goal_cases)
  case (2 p s c r)
  then have "length (c # r) \<le> length s" by (metis length_dropWhile_le)
  then show ?case by simp
qed simp

declare word_starts.simps [simp del]

text \<open>The memory of the command afterwards: every separator is a zero byte.\<close>

definition cut_up :: "string \<Rightarrow> bytes" where
  "cut_up s = map (\<lambda>c. if is_sep c then CHR 0x00 else c) s @ [CHR 0x00]"

lemma skip_to:
  "list_all (\<lambda>c. \<not> is_sep c \<and> c \<noteq> CHR 0x00) w \<Longrightarrow> is_sep c \<or> c = CHR 0x00 \<Longrightarrow> length d + length w \<le> len \<Longrightarrow>
   skip_word (d @ w @ c # r) len (length d) = length d + length w"
proof (induction w arbitrary: d)
  case Nil
  then show ?case by (subst skip_word.simps) (auto simp: nth_append)
next
  case (Cons x w)
  have "skip_word ((d @ [x]) @ w @ c # r) len (length (d @ [x])) = length (d @ [x]) + length w"
    by (rule Cons.IH) (use Cons.prems in auto)
  moreover have "skip_word ((d @ [x]) @ w @ c # r) len (length d) =
      (if len \<le> length d + 1 then length d + 1 else skip_word ((d @ [x]) @ w @ c # r) len (length (d @ [x])))"
    using Cons.prems(1) by (subst skip_word.simps) (simp add: nth_append)
  moreover have "len \<le> length d + 1 \<Longrightarrow> w = []" using Cons.prems(3) by (cases w) auto
  ultimately show ?case by (cases "len \<le> length d + 1") simp_all
qed

lemma word_and_rest:
  obtains (last) "takeWhile (\<lambda>c. \<not> is_sep c) s = s" "dropWhile (\<lambda>c. \<not> is_sep c) s = []" "list_all (\<lambda>c. \<not> is_sep c) s"
  | (more) w c r where "s = w @ c # r" "list_all (\<lambda>c. \<not> is_sep c) w" "is_sep c"
      "takeWhile (\<lambda>c. \<not> is_sep c) s = w" "dropWhile (\<lambda>c. \<not> is_sep c) s = c # r"
proof (cases "dropWhile (\<lambda>c. \<not> is_sep c) s")
  case Nil
  then show ?thesis using last by (metis append_Nil2 dropWhile_eq_Nil_conv list_all_iff takeWhile_dropWhile_id)
next
  case (Cons c r)
  moreover have "is_sep c" using Cons hd_dropWhile [of "\<lambda>c. \<not> is_sep c" s] by simp
  ultimately show ?thesis
    using more [of "takeWhile (\<lambda>c. \<not> is_sep c) s" c r] takeWhile_dropWhile_id [of "\<lambda>c. \<not> is_sep c" s] set_takeWhileD
    by (metis (mono_tags, lifting) list_all_iff)
qed

lemma sep_nul: "\<not> is_sep (CHR 0x00)"
  by (simp add: is_sep_def)

lemma token_loop_cuts:
  "no_nul s \<Longrightarrow> token_loop (d @ s @ [CHR 0x00]) (length d + length s) (length d) argv = (d @ cut_up s, argv @ word_starts (length d) s)"
proof (induction "length s" arbitrary: s d argv rule: less_induct)
  case less
  have nn: "x \<noteq> CHR 0x00" if "x \<in> set s" for x using less.prems that by (auto simp: no_nul_def)
  show ?case
  proof (cases rule: word_and_rest [of s])
    case last
    have w: "list_all (\<lambda>c. \<not> is_sep c \<and> c \<noteq> CHR 0x00) s" using last(3) nn by (auto simp: list_all_iff)
    have "skip_word (d @ s @ [CHR 0x00]) (length d + length s) (length d) = length d + length s"
      by (rule skip_to [OF w]) simp_all
    moreover have "cut_up s = s @ [CHR 0x00]" using last(3) by (auto simp: cut_up_def list_all_iff intro: map_idI)
    ultimately show ?thesis
      by (simp add: token_loop.simps [of "d @ s @ [CHR 0x00]" "length d + length s" "length d" argv] word_starts.simps [of _ s] last(2) nth_append)
  next
    case (more w c r)
    define L where "L = length d + length s"
    have w: "list_all (\<lambda>c. \<not> is_sep c \<and> c \<noteq> CHR 0x00) w" using more(1,2) nn by (auto simp: list_all_iff)
    have len: "L = length (d @ w @ [CHR 0x00]) + length r" and pos: "length d + length w + 1 = length (d @ w @ [CHR 0x00])"
      by (simp_all add: more(1) L_def)
    have k: "skip_word (d @ w @ c # r @ [CHR 0x00]) L (length d) = length d + length w"
      by (rule skip_to [OF w]) (use more(3) len in auto)
    have c0: "c \<noteq> CHR 0x00" using more(3) sep_nul by blast
    have ids: "map (\<lambda>c. if is_sep c then CHR 0x00 else c) w = w" using more(2) by (auto simp: list_all_iff intro: map_idI)
    have upd: "(d @ w @ c # r @ [CHR 0x00])[length d + length w := CHR 0x00] = (d @ w @ [CHR 0x00]) @ r @ [CHR 0x00]"
      by (simp add: list_update_append)
    have at: "(d @ w @ c # r @ [CHR 0x00]) ! (length d + length w) = c" by (simp add: nth_append)
    have last: "(L \<le> length d + length w + 1) = (r = [])" by (simp add: len)
    have in_buf: "\<not> length (d @ w @ c # r @ [CHR 0x00]) \<le> length d + length w" by simp
    have step: "token_loop (d @ w @ c # r @ [CHR 0x00]) L (length d) argv =
        (if r = [] then ((d @ w @ [CHR 0x00]) @ r @ [CHR 0x00], argv @ [length d])
         else token_loop ((d @ w @ [CHR 0x00]) @ r @ [CHR 0x00]) L (length d + length w + 1) (argv @ [length d]))"
      by (simp only: token_loop.simps [of "d @ w @ c # r @ [CHR 0x00]" L "length d" argv] Let_def k at upd last c0 more(3) in_buf if_True if_False simp_thms)
    have ih: "token_loop ((d @ w @ [CHR 0x00]) @ r @ [CHR 0x00]) (length (d @ w @ [CHR 0x00]) + length r) (length (d @ w @ [CHR 0x00])) (argv @ [length d]) =
        ((d @ w @ [CHR 0x00]) @ cut_up r, (argv @ [length d]) @ word_starts (length (d @ w @ [CHR 0x00])) r)"
      using less.hyps [of r "d @ w @ [CHR 0x00]" "argv @ [length d]"] less.prems more(1) by (simp add: no_nul_def)
    have cs: "cut_up s = w @ CHR 0x00 # cut_up r" using more(1,3) ids by (simp add: cut_up_def)
    have ws: "word_starts (length d) s = length d # (if r = [] then [] else word_starts (length d + length w + 1) r)"
      by (subst word_starts.simps) (simp add: more(4,5))
    have "token_loop (d @ s @ [CHR 0x00]) (length d + length s) (length d) argv = token_loop (d @ w @ c # r @ [CHR 0x00]) L (length d) argv"
      by (simp add: more(1) L_def)
    also have "\<dots> = (d @ cut_up s, argv @ word_starts (length d) s)"
    proof (cases "r = []")
      case True
      then show ?thesis unfolding step cs ws by (simp add: cut_up_def)
    next
      case False
      then show ?thesis using ih unfolding step cs ws unfolding len pos by simp
    qed
    finally show ?thesis .
  qed
qed

lemma strings_at_starts:
  "no_nul s \<Longrightarrow> map (\<lambda>p. cstr (drop p (d @ cut_up s))) (word_starts (length d) s) = split_words s"
proof (induction "length s" arbitrary: s d rule: less_induct)
  case less
  show ?case
  proof (cases rule: word_and_rest [of s])
    case last
    have "cut_up s = s @ [CHR 0x00]" using last(3) by (auto simp: cut_up_def list_all_iff intro: map_idI)
    then show ?thesis
      using less.prems cstr_append_nul [of s 1] by (simp add: word_starts.simps [of _ s] split_words.simps [of s] last(1,2))
  next
    case (more w c r)
    have w: "no_nul w" and r: "no_nul r" using less.prems more(1) by (auto simp: no_nul_def)
    have "map (\<lambda>c. if is_sep c then CHR 0x00 else c) w = w" using more(2) by (auto simp: list_all_iff intro: map_idI)
    then have cs: "cut_up s = w @ CHR 0x00 # cut_up r" using more(1,3) by (simp add: cut_up_def)
    have first: "cstr (w @ CHR 0x00 # x) = w" for x
      using w by (auto simp: cstr_def no_nul_def takeWhile_append)
    have "map (\<lambda>p. cstr (drop p ((d @ w @ [CHR 0x00]) @ cut_up r))) (word_starts (length (d @ w @ [CHR 0x00])) r) = split_words r"
      by (rule less.hyps [OF _ r]) (simp add: more(1))
    then show ?thesis
      by (simp add: word_starts.simps [of _ s] split_words.simps [of s] more(4,5) cs first)
  qed
qed

lemma words_of_split: "no_nul cmd \<Longrightarrow> words_of cmd = split_words cmd"
  using token_loop_cuts [of cmd "[]" "[]"] strings_at_starts [of cmd "[]"] by (simp add: words_of_def tokenize_space_def)

lemma split_words_last: "list_all (\<lambda>c. \<not> is_sep c) w \<Longrightarrow> split_words w = [w]"
proof -
  assume "list_all (\<lambda>c. \<not> is_sep c) w"
  then have "takeWhile (\<lambda>c. \<not> is_sep c) w = w" "dropWhile (\<lambda>c. \<not> is_sep c) w = []"
    by (simp_all add: list_all_iff takeWhile_eq_all_conv dropWhile_eq_Nil_conv)
  note t = this
  show ?thesis by (subst split_words.simps) (simp add: t)
qed

lemma split_words_more: "list_all (\<lambda>c. \<not> is_sep c) w \<Longrightarrow> is_sep c \<Longrightarrow> r \<noteq> [] \<Longrightarrow> split_words (w @ c # r) = w # split_words r"
  by (subst split_words.simps) (simp add: list_all_iff takeWhile_append dropWhile_append)

lemma length_split_words: "length (split_words s) \<le> length (filter is_sep s) + 1"
proof (induction "length s" arbitrary: s rule: less_induct)
  case less
  show ?case
  proof (cases rule: word_and_rest [of s])
    case (more w c r)
    have "length (split_words s) = Suc (if r = [] then 0 else length (split_words r))"
      by (subst split_words.simps) (simp add: more(4,5))
    then show ?thesis using less.hyps [of r] by (simp add: more(1,3))
  next
    case last
    show ?thesis by (subst split_words.simps) (simp add: last(2))
  qed
qed

section \<open>Commands with numbers\<close>

lemma starts_simps [simp]: "starts [] s" "\<not> starts (p # ps) []" "starts (p # ps) (c # s) \<longleftrightarrow> c = p \<and> starts ps s"
  by (auto simp: starts_def)

text \<open>Letters without case are compared by their numbers, on which the simplifier computes.\<close>

definition lower_code :: "char \<Rightarrow> nat" where
  "lower_code c = (let n = of_char c :: nat in if 65 \<le> n \<and> n \<le> 90 then n + 32 else n)"

lemma tolower_eq: "tolower c = tolower d \<longleftrightarrow> lower_code c = lower_code d"
proof -
  have "of_char (tolower c) = lower_code c" for c by (simp add: tolower_def lower_code_def Let_def of_char_char_of_nat)
  then show ?thesis by (metis of_char_eq_iff)
qed

lemma istarts_simps [simp]:
  "istarts [] s" "\<not> istarts (p # ps) []" "istarts (p # ps) (c # s) \<longleftrightarrow> lower_code c = lower_code p \<and> istarts ps s"
  by (auto simp: istarts_def tolower_eq)

lemma iequals_simps [simp]: "iequals [] s \<longleftrightarrow> s = []" "\<not> iequals (p # ps) []" "iequals (p # ps) (c # s) \<longleftrightarrow> lower_code c = lower_code p \<and> iequals ps s"
  by (auto simp: iequals_def tolower_eq)

lemma show_dec_chars: "c \<in> set (show_dec i) \<Longrightarrow> \<not> is_sep c \<and> c \<noteq> CHR 0x00 \<and> c \<noteq> CHR '' ''"
proof -
  assume "c \<in> set (show_dec i)"
  then have "c = CHR ''-'' \<or> is_digit 10 c"
    using digits_of_simps(2) [of 10] by (fastforce simp: show_dec_def list_all_iff split: if_splits)
  then show ?thesis by (auto simp: is_digit_def digit_value_def is_sep_def)
qed

lemma show_dec_ne [simp]: "show_dec i \<noteq> []"
  by (simp add: show_dec_def)

lemma length_show_dec: "- (2 ^ 31) \<le> i \<Longrightarrow> i < 2 ^ 31 \<Longrightarrow> length (show_dec i) \<le> 11"
  using length_digits_of [of 10 10 "nat i"] length_digits_of [of 10 10 "nat (- i)"]
  by (auto simp: show_dec_def nat_less_iff)

lemma split_three:
  assumes "list_all (\<lambda>c. \<not> is_sep c) w"
  shows "split_words (w @ '' '' @ show_dec a @ '' '' @ show_dec b @ '' '' @ show_dec c) = [w, show_dec a, show_dec b, show_dec c]"
proof -
  have n: "list_all (\<lambda>c. \<not> is_sep c) (show_dec i)" for i using show_dec_chars by (auto simp: list_all_iff)
  have s: "is_sep (CHR '' '')" by (simp add: is_sep_def)
  show ?thesis
    by (simp add: split_words_more [OF assms s] split_words_more [OF n s] split_words_last [OF n])
qed

text \<open>What a test mode message does to the state, and its result.\<close>

definition sends :: "nl_plat \<Rightarrow> u32 \<Rightarrow> nat \<Rightarrow> test_params \<Rightarrow> nl_state \<Rightarrow> int \<times> nl_state" where
  "sends P i n params s =
    (let a = nl_env P (nl_sent s) Nlmsg_alloc; es = nl_sent s @ [(Nlmsg_alloc, a)]; m = Testmode (header i n) n params
     in if a = 0 then (-1, s\<lparr>nl_sent := es\<rparr>) else if \<not> nla_fits P n then (-105, s\<lparr>nl_sent := es\<rparr>)
        else (nl_env P es m, s\<lparr>nl_sent := es @ [(m, nl_env P es m)]\<rparr>))"

lemma BITS_0_23: "BITS 0 23 = 0xFFFFFF"
  by (simp add: BITS_def BIT_def)

lemma run_testmode: "i \<in> {1, 2, 3, 51, 101, 102, 103} \<Longrightarrow> run_state (testmode P i n params) s = sends P i n params s"
  by (auto simp: testmode_def wpa_driver_nl80211_testmode_def header_def BITS_0_23 sends_def request_def run_bind run_gets Let_def)

definition ready :: "nl_state \<Rightarrow> bool" where
  "ready s \<longleftrightarrow> \<not> drv_null (supp s) \<and> \<not> ctx_null (supp s) \<and> \<not> conf_null (supp s) \<and> \<not> ap_mode (supp s)"

lemma run_wpa_s: "\<not> ap_mode (supp s) \<Longrightarrow> run_state wpa_s s = ((), s)"
  by (simp add: wpa_s_def run_bind run_gets)

lemma run_driver_cmd_handled:
  "ready s \<Longrightarrow> run_state (handle_cmd P cmd) s = ((r, None), t) \<Longrightarrow> run_state (wpa_driver_nl80211_driver_cmd P cmd) s = (r, t)"
  by (simp add: wpa_driver_nl80211_driver_cmd_def run_bind run_gets ready_def)

lemma run_done_with: "run_state (done_with m) s = ((fst (run_state m s), None), snd (run_state m s))"
  by (simp add: done_with_def run_bind case_prod_unfold)

lemma run_own_cmd:
  assumes "length line < MAX_DRV_CMD_SIZE P" and "ready s"
    and "\<And>b. run_state (handle_cmd P line) (s\<lparr>reply := b\<rparr>) = ((r b, None), t b)"
  shows "run_state (own_cmd P line) s = (r (line @ [CHR 0x00]), t (line @ [CHR 0x00]))"
  using assms run_driver_cmd_handled [of "s\<lparr>reply := line @ [CHR 0x00]\<rparr>" P line]
  by (simp add: own_cmd_def run_bind modify_def ready_def)

lemma handle_noa:
  assumes "words_of (''P2P_SET_NOA'' @ '' '' @ show_dec a @ '' '' @ show_dec b @ '' '' @ show_dec c) = [w, x, y, z]"
    and "\<not> ap_mode (supp s)"
  shows "run_state (handle_cmd P (''P2P_SET_NOA '' @ show_dec a @ '' '' @ show_dec b @ '' '' @ show_dec c)) s =
    (let (r, t) = sends P 1 28 (P2p_noa 4 0 (word_of_int (atoi (long_bits P) x)) (word_of_int (atoi (long_bits P) y))
       (word_of_int (atoi (long_bits P) z))) s in ((r, None), t))"
  using assms
  by (simp add: handle_cmd_def lower_code_def run_done_with run_bind run_wpa_s p2p_ctrl_iface_set_noa_def tokens_def
      run_testmode run_ret Let_def case_prod_unfold)

lemma handle_ps:
  assumes "words_of (''P2P_SET_PS'' @ '' '' @ show_dec a @ '' '' @ show_dec b @ '' '' @ show_dec c) = [w, x, y, z]"
    and "\<not> ap_mode (supp s)"
  shows "run_state (handle_cmd P (''P2P_SET_PS '' @ show_dec a @ '' '' @ show_dec b @ '' '' @ show_dec c)) s =
    (let ctw = (word_of_int (atoi (long_bits P) z) :: u32);
         (r, t) = sends P 1 16 (P2p_sigma 107 (if atoi (long_bits P) y \<noteq> 0 then ctw OR BIT 7 else ctw)) s in ((r, None), t))"
  using assms
  by (simp add: handle_cmd_def lower_code_def run_done_with run_bind run_wpa_s p2p_ctrl_iface_set_ps_def tokens_def
      run_testmode run_ret Let_def case_prod_unfold)

definition int32 :: "int \<Rightarrow> bool" where
  "int32 i \<longleftrightarrow> - (2 ^ 31) \<le> i \<and> i < 2 ^ 31"

lemma atoi_printed: "int32 i \<Longrightarrow> 32 \<le> bits \<Longrightarrow> atoi bits (show_dec i) = i"
  using atoi_show_dec [of i bits "[]"] by (simp add: int32_def)

lemma words_of_three:
  assumes "list_all (\<lambda>c. \<not> is_sep c) w" and "no_nul w"
  shows "words_of (w @ '' '' @ show_dec a @ '' '' @ show_dec b @ '' '' @ show_dec c) = [w, show_dec a, show_dec b, show_dec c]"
proof -
  have "no_nul (w @ '' '' @ show_dec a @ '' '' @ show_dec b @ '' '' @ show_dec c)"
    using assms(2) show_dec_chars by (auto simp: no_nul_def)
  then show ?thesis by (simp only: words_of_split split_three [OF assms(1)])
qed

lemma own_cmd_sends:
  assumes "length line < MAX_DRV_CMD_SIZE P" and "ready s"
    and "\<And>u. \<not> ap_mode (supp u) \<Longrightarrow> run_state (handle_cmd P line) u = (let (r, t) = sends P i n params u in ((r, None), t))"
  shows "run_state (own_cmd P line) s = sends P i n params (s\<lparr>reply := line @ [CHR 0x00]\<rparr>)"
  using run_own_cmd [OF assms(1,2), of "\<lambda>b. fst (sends P i n params (s\<lparr>reply := b\<rparr>))" "\<lambda>b. snd (sends P i n params (s\<lparr>reply := b\<rparr>))"]
    assms(2,3) by (simp add: ready_def Let_def case_prod_unfold)

text \<open>
  C22.  The power saving settings of P2P reach the driver as they are given: the numbers that are printed
  into a command, cut into words and read again are the ones of the one message that goes out, with bit
  7 of the window for opportunistic power saving, and nothing else happens.
\<close>

theorem p2p_settings_reach_driver:
  assumes "ready s" and "32 \<le> long_bits P" and "48 \<le> MAX_DRV_CMD_SIZE P"
    and "int32 start" and "int32 duration" and "int32 legacy_ps" and "int32 opp_ps" and "int32 ctwindow"
  shows "(\<exists>b. run_state (wpa_driver_set_p2p_noa P count start duration) s =
      sends P 1 28 (P2p_noa 4 0 (ucast count) (word_of_int start) (word_of_int duration)) (s\<lparr>reply := b\<rparr>)) \<and>
    (\<exists>b. run_state (wpa_driver_set_p2p_ps P legacy_ps opp_ps ctwindow) s =
      sends P 1 16 (P2p_sigma 107 (if opp_ps \<noteq> 0 then word_of_int ctwindow OR BIT 7 else word_of_int ctwindow)) (s\<lparr>reply := b\<rparr>))"
proof (intro conjI exI)
  have "- 2147483648 \<le> uint count" by (rule order_trans [OF _ uint_ge_0]) simp
  then have c: "int32 (uint count)" using uint_lt2p [of count] by (simp add: int32_def)
  have len: "length (show_dec i) \<le> 11" if "int32 i" for i using length_show_dec that by (simp add: int32_def)
  have w: "list_all (\<lambda>c. \<not> is_sep c) ''P2P_SET_NOA''" "no_nul ''P2P_SET_NOA''" "list_all (\<lambda>c. \<not> is_sep c) ''P2P_SET_PS''" "no_nul ''P2P_SET_PS''"
    by (simp_all add: is_sep_def no_nul_def)
  note a = atoi_printed [OF _ assms(2)]
  let ?n = "''P2P_SET_NOA '' @ show_dec (uint count) @ '' '' @ show_dec start @ '' '' @ show_dec duration"
  show "run_state (wpa_driver_set_p2p_noa P count start duration) s =
      sends P 1 28 (P2p_noa 4 0 (ucast count) (word_of_int start) (word_of_int duration)) (s\<lparr>reply := ?n @ [CHR 0x00]\<rparr>)"
    unfolding wpa_driver_set_p2p_noa_def
  proof (rule own_cmd_sends [OF _ assms(1)])
    show "length ?n < MAX_DRV_CMD_SIZE P" using len [OF c] len [OF assms(4)] len [OF assms(5)] assms(3) by simp
  qed (simp only: simp_thms handle_noa [OF words_of_three [OF w(1,2)]] a [OF c] a [OF assms(4)] a [OF assms(5)] ucast_eq)
  let ?p = "''P2P_SET_PS '' @ show_dec legacy_ps @ '' '' @ show_dec opp_ps @ '' '' @ show_dec ctwindow"
  show "run_state (wpa_driver_set_p2p_ps P legacy_ps opp_ps ctwindow) s =
      sends P 1 16 (P2p_sigma 107 (if opp_ps \<noteq> 0 then word_of_int ctwindow OR BIT 7 else word_of_int ctwindow)) (s\<lparr>reply := ?p @ [CHR 0x00]\<rparr>)"
    unfolding wpa_driver_set_p2p_ps_def
  proof (rule own_cmd_sends [OF _ assms(1)])
    show "length ?p < MAX_DRV_CMD_SIZE P" using len [OF assms(6)] len [OF assms(7)] len [OF assms(8)] assms(3) by simp
  qed (simp only: simp_thms handle_ps [OF words_of_three [OF w(3,4)]] a [OF assms(7)] a [OF assms(8)] Let_def)
qed

section \<open>Bounds\<close>

text \<open>
  \<open>calm m\<close>: outside AP mode the program stays inside its objects, keeps the length of the buffer for
  the answer and what the code only reads.  The property passes through every construct.
\<close>

definition same_frame :: "nl_state \<Rightarrow> nl_state \<Rightarrow> bool" where
  "same_frame s t \<longleftrightarrow> nl_ub t = nl_ub s \<and> supp t = supp s \<and> length (reply t) = length (reply s)"

definition calm :: "'a nl \<Rightarrow> bool" where
  "calm m \<longleftrightarrow> (\<forall>s. \<not> ap_mode (supp s) \<and> reply s \<noteq> [] \<longrightarrow> same_frame s (snd (run_state m s)))"

named_theorems cm "programs that stay inside their objects"

lemma calm_ret [cm]: "calm (ret x)"
  by (simp add: calm_def same_frame_def)

lemma calm_bind [cm]: "calm m \<Longrightarrow> (\<And>x. calm (f x)) \<Longrightarrow> calm (State_Monad.bind m f)"
  unfolding calm_def same_frame_def run_bind by (metis length_0_conv)

lemma calm_if [cm]: "(c \<Longrightarrow> calm m) \<Longrightarrow> (\<not> c \<Longrightarrow> calm n) \<Longrightarrow> calm (if c then m else n)"
  by simp

lemma calm_let [cm]: "calm (f x) \<Longrightarrow> calm (let y = x in f y)"
  by simp

lemma calm_option [cm]: "(x = None \<Longrightarrow> calm m) \<Longrightarrow> (\<And>y. x = Some y \<Longrightarrow> calm (f y)) \<Longrightarrow> calm (case x of None \<Rightarrow> m | Some y \<Rightarrow> f y)"
  by (cases x) auto

lemma calm_prod [cm]: "(\<And>a b. x = (a, b) \<Longrightarrow> calm (f a b)) \<Longrightarrow> calm (case x of (a, b) \<Rightarrow> f a b)"
  by (cases x) auto

lemma calm_gets [cm]: "calm (gets f)"
  by (simp add: calm_def same_frame_def gets_def)

lemma calm_modify: "(\<And>s. same_frame s (f s)) \<Longrightarrow> calm (modify f)"
  by (simp add: calm_def modify_def)

lemma calm_request [cm]: "calm (request P r)"
  by (simp add: calm_def same_frame_def request_def Let_def)

lemma calm_wpa_s [cm]: "calm wpa_s"
  by (simp add: calm_def run_wpa_s) (simp add: same_frame_def)

lemma calm_print:
  "n \<le> length (reply s) \<Longrightarrow> pos \<le> n \<Longrightarrow> same_frame s (snd (run_state (snprintf_at pos (n - pos) t) s)) \<and> fst (run_state (snprintf_at pos (n - pos) t) s) = int (length t)"
  by (auto simp: snprintf_at_def run_bind run_gets run_ret modify_def same_frame_def)

text \<open>A text printed into the whole buffer.\<close>

lemma calm_reply [cm]: "calm (do { b \<leftarrow> gets reply; snprintf_at 0 (length b) t })"
  using calm_print [of "length (reply s)" s 0 t for s] by (simp add: calm_def run_bind run_gets)

lemma calm_print_pieces: "n \<le> length (reply s) \<Longrightarrow> pos \<le> n \<Longrightarrow> same_frame s (snd (run_state (print_pieces ts pos n) s))"
proof (induction ts arbitrary: pos s)
  case Nil
  then show ?case by (simp add: same_frame_def)
next
  case (Cons t ts)
  let ?u = "snd (run_state (snprintf_at pos (n - pos) t) s)"
  have p: "same_frame s ?u" "fst (run_state (snprintf_at pos (n - pos) t) s) = int (length t)" using calm_print Cons.prems by blast+
  have u: "n \<le> length (reply ?u)" using p(1) Cons.prems(1) by (simp add: same_frame_def)
  show ?case
  proof (cases "n - pos \<le> length t")
    case True
    then show ?thesis using p by (simp add: run_bind case_prod_unfold)
  next
    case False
    then have "same_frame ?u (snd (run_state (print_pieces ts (pos + length t) n) ?u))" by (intro Cons.IH u) simp
    moreover have "print_pieces (t # ts) pos n = do { r \<leftarrow> snprintf_at pos (n - pos) t; if int (n - pos) \<le> r then ret 0 else print_pieces ts (pos + length t) n }"
      by simp
    ultimately show ?thesis using p(1) by (simp only: run_bind p(2) of_nat_le_iff False if_False) (simp add: same_frame_def)
  qed
qed

lemma calm_print_statistics [cm]: "calm (do { b \<leftarrow> gets reply; print_sta_statistics st (length b) })"
  using calm_print_pieces [of "length (reply s)" s 0 for s] by (simp add: calm_def run_bind run_gets print_sta_statistics_def)

lemma calm_testmode [cm]: "i \<in> {1, 2, 3, 51, 101, 102, 103} \<Longrightarrow> calm (testmode P i n params)"
  by (simp add: calm_def run_testmode) (simp add: sends_def same_frame_def Let_def)

lemma calm_statistics [cm]: "calm (wpas_get_sta_statistics P a st)"
  unfolding wpas_get_sta_statistics_def wpa_driver_nl80211_testmode_def header_def
  by (intro cm) (simp_all add: BITS_0_23 cm)

lemma calm_channels [cm]: "CONFIG_MTK_LTE_COEX P \<Longrightarrow> calm (wpa_driver_get_lte_available_channels P c)"
  unfolding wpa_driver_get_lte_available_channels_def wpa_driver_nl80211_testmode_def header_def
  by (intro cm) (simp_all add: BITS_0_23 cm)

lemma calm_acs [cm]: "CONFIG_MTK_LTE_COEX P \<Longrightarrow> calm (wpa_driver_do_mtk_acs P)"
proof -
  assume c: "CONFIG_MTK_LTE_COEX P"
  have "calm (acs_wait P n)" for n
    by (induction n) (auto intro!: cm c)
  then show ?thesis unfolding wpa_driver_do_mtk_acs_def by (intro cm)
qed

lemma calm_cmd_acs [cm]: "CONFIG_MTK_LTE_COEX P \<Longrightarrow> calm (cmd_mtk_acs P)"
proof -
  assume "CONFIG_MTK_LTE_COEX P"
  then have c: "calm (wpa_driver_do_mtk_acs P)" by (rule cm)
  have "same_frame s (snd (run_state (cmd_mtk_acs P) s))" if s: "\<not> ap_mode (supp s)" "reply s \<noteq> []" for s
  proof -
    let ?t = "snd (run_state (wpa_driver_do_mtk_acs P) s)"
    have t: "same_frame s ?t" using c s by (simp add: calm_def)
    moreover have "reply ?t \<noteq> []" "Suc 0 \<le> length (reply s)" using t s(2) by (auto simp: same_frame_def Suc_le_eq)
    ultimately show ?thesis by (simp add: cmd_mtk_acs_def run_bind run_gets modify_def same_frame_def case_prod_unfold)
  qed
  then show ?thesis by (simp add: calm_def)
qed

lemma calm_notify [cm]: "calm (notify_all P is a)"
  by (induction "is") (auto intro!: cm)

lemma calm_tokens: "no_nul cmd \<Longrightarrow> length (filter is_sep cmd) \<le> 63 \<Longrightarrow> calm (tokens cmd)"
  using length_split_words [of cmd] by (auto simp: tokens_def words_of_split intro!: cm)

lemma calm_scc [cm]: "calm (p2p_wfd_sink_config_scc P scc f)"
  unfolding p2p_wfd_sink_config_scc_def by (intro cm calm_modify) (simp_all add: same_frame_def)

lemma calm_shared [cm]: "calm (mtk_get_shared_radio_freqs P n)" "calm (config_from_shared P)" "calm (use_mcc_shared P)"
  unfolding mtk_get_shared_radio_freqs_def config_from_shared_def use_mcc_shared_def by (intro cm)+

lemma calm_set_mcc [cm]: "calm (set_mcc P on)"
  unfolding set_mcc_def by (rule calm_modify) (simp add: same_frame_def)

lemma calm_hang [cm]: "calm (wpa_driver_send_hang_msg P)"
  unfolding wpa_driver_send_hang_msg_def by (intro cm calm_modify) (simp add: same_frame_def)

lemma same_frame_trans: "same_frame s t \<Longrightarrow> same_frame t u \<Longrightarrow> same_frame s u"
  by (simp add: same_frame_def)

lemma calm_strlen: "CHR 0x00 \<in> set (reply s) \<Longrightarrow>
    same_frame s (snd (run_state (do { b \<leftarrow> gets reply; _ \<leftarrow> (if CHR 0x00 \<in> set b then ret () else bad); ret (int (length (cstr b))) }) s))"
  by (simp add: run_bind run_gets same_frame_def)

lemma calm_private [cm]: "calm (private_ioctl P cmd)"
proof -
  have "same_frame s (snd (run_state (private_ioctl P cmd) s))" if s: "\<not> ap_mode (supp s)" "reply s \<noteq> []" for s
  proof -
    let ?len = "if 512 \<le> length cmd then 512 - 1 else length cmd"
    let ?r = "Priv_ioctl (take 15 (bss_ifname (supp s))) (zpad 512 (take (?len + 1) (cmd @ [CHR 0x00]))) (int ?len + 1) 512"
    let ?a = "nl_env P (nl_sent s) ?r"
    let ?u = "s\<lparr>reply := zeros (length (reply s)), nl_sent := nl_sent s @ [(?r, ?a)]\<rparr>"
    have run: "run_state (private_ioctl P cmd) s = (if ?a < 0
        then run_state (do { _ \<leftarrow> wpa_driver_send_hang_msg P; b \<leftarrow> gets reply; snprintf_at 0 (length b) (''FAIL'' @ nl) }) ?u
        else run_state (if istarts ''WLS_BATCHING'' cmd
            then do { b \<leftarrow> gets reply; _ \<leftarrow> (if CHR 0x00 \<in> set b then ret () else bad); ret (int (length (cstr b))) } else ret 0) (?u\<lparr>drv_errors := 0\<rparr>))"
      by (simp add: private_ioctl_def Let_def run_gets modify_def request_def)
    have u: "same_frame s ?u" "same_frame s (?u\<lparr>drv_errors := 0\<rparr>)" "\<not> ap_mode (supp ?u)" "reply ?u \<noteq> []" "CHR 0x00 \<in> set (reply ?u)"
      using s by (simp_all add: same_frame_def zeros_def)
    show ?thesis
    proof (cases "?a < 0")
      case True
      let ?m = "do { _ \<leftarrow> wpa_driver_send_hang_msg P; b \<leftarrow> gets reply; snprintf_at 0 (length b) (''FAIL'' @ nl) }"
      have "calm ?m" by (intro cm)
      then have "same_frame ?u (snd (run_state ?m ?u))" using u(3,4) unfolding calm_def by blast
      then show ?thesis unfolding run if_P [OF True] by (rule same_frame_trans [OF u(1)])
    next
      case False
      have "same_frame (?u\<lparr>drv_errors := 0\<rparr>) (snd (run_state (if istarts ''WLS_BATCHING'' cmd
            then do { b \<leftarrow> gets reply; _ \<leftarrow> (if CHR 0x00 \<in> set b then ret () else bad); ret (int (length (cstr b))) } else ret 0) (?u\<lparr>drv_errors := 0\<rparr>)))"
        using calm_strlen [of "?u\<lparr>drv_errors := 0\<rparr>"] u(5) by (simp add: same_frame_def)
      then show ?thesis unfolding run if_not_P [OF False] by (rule same_frame_trans [OF u(2)])
    qed
  qed
  then show ?thesis by (simp add: calm_def)
qed

text \<open>The commands that stay inside the objects of the code.\<close>

definition in_bounds :: "nl_plat \<Rightarrow> string \<Rightarrow> bool" where
  "in_bounds P cmd \<longleftrightarrow> no_nul cmd \<and> length cmd \<le> 92 \<and> length (filter is_sep cmd) \<le> 63 \<and>
     (starts ''p2p_set_opps '' cmd \<longrightarrow> CHR '' '' \<in> set (drop 13 cmd)) \<and>
     (\<forall>b. wapi_key_len (wapi_args_at P b) \<le> 32 \<and> unat (WfdSessionInformationIELen (wfd_data_at P b)) \<le> 192)"

lemma strchr_None: "strchr c s = None \<longleftrightarrow> c \<notin> set s"
  by (induction s) auto

lemma calm_done [cm]: "calm m \<Longrightarrow> calm (done_with m)"
  unfolding done_with_def by (intro cm)

lemma calm_simple [cm]:
  "calm cmd_macaddr" "calm (cmd_country P cmd)" "calm (cmd_start P)" "calm (cmd_stop P)" "calm (rxfilter_number P o' cp)"
  "calm (wpa_driver_nl80211_driver_sw_cmd P b x y)" "calm (wpa_driver_sta_block P cmd)" "calm (wpa_driver_sta_unblock P cmd)"
  "calm (wpa_driver_set_max_client P cmd)" "calm (wpa_driver_get_sta_statistics P cmd)" "calm (wpa_driver_nl80211_send_msg k)"
  "calm (p2p_get_capability q cmd)" "calm (p2p_set_capability P q cmd)" "calm (miracast P cmd)" "calm (cmd_use_mcc P cmd)"
  "calm (cmd_mcc P cmd)" "calm (cmd_sigma_mode cmd)" "calm (cmd_setsuspendmode P cmd)" "calm (mtk_rx_packet_filter P cmd)"
  "calm (p2p_ctrl_iface_set_power_save P cmd)" "calm (p2p_ctrl_iface_set_sleep P cmd)"
  unfolding cmd_macaddr_def cmd_country_def cmd_start_def cmd_stop_def rxfilter_number_def wpa_driver_nl80211_driver_sw_cmd_def
    wpa_driver_sta_block_def wpa_driver_sta_unblock_def wpa_driver_hotspot_block_list_update_def wpa_driver_set_max_client_def
    wpa_driver_get_sta_statistics_def wpa_driver_nl80211_send_msg_def p2p_get_capability_def p2p_set_capability_def miracast_def
    cmd_use_mcc_def cmd_mcc_def cmd_sigma_mode_def cmd_setsuspendmode_def mtk_rx_packet_filter_def
    p2p_ctrl_iface_set_power_save_def p2p_ctrl_iface_set_sleep_def wpas_p2p_sigma_test_mode_def
    wpa_driver_mediatek_set_country_def wpa_driver_notify_country_change_def
  by ((intro cm calm_modify; simp add: same_frame_def)+)

lemma calm_capability [cm]: "(\<And>q. calm (f q)) \<Longrightarrow> calm (cmd_capability f)"
  unfolding cmd_capability_def by (intro cm)

lemma calm_handle: "in_bounds P cmd \<Longrightarrow> calm (handle_cmd P cmd)"
proof -
  assume b: "in_bounds P cmd"
  then have t: "calm (tokens cmd)" and len: "length cmd \<le> 92"
    and args: "wapi_key_len (wapi_args_at P x) \<le> 32" "unat (WfdSessionInformationIELen (wfd_data_at P x)) \<le> 192" for x
    by (auto simp: in_bounds_def intro: calm_tokens)
  have noa: "calm (p2p_ctrl_iface_set_noa P cmd)" "calm (p2p_ctrl_iface_set_ps P cmd)"
    unfolding p2p_ctrl_iface_set_noa_def p2p_ctrl_iface_set_ps_def by (intro cm t; simp)+
  have wapi: "calm (wpa_driver_nl80211_set_wapi_key P (wapi_args_at P x))" for x
    using args(1) [of x] unfolding wpa_driver_nl80211_set_wapi_key_def by (intro cm) simp_all
  have wfd: "calm (wpas_wfd_data_update P (wfd_data_at P x))" for x
    using args(2) [of x] unfolding wpas_wfd_data_update_def wpa_driver_nl80211_testmode_def header_def
    by (intro cm) (simp_all add: BITS_0_23)
  have opps: "calm (p2p_ctrl_iface_set_opps P (drop 13 cmd))" if "starts ''p2p_set_opps '' cmd"
    using b that strchr_None [of "CHR '' ''" "drop 13 cmd"] unfolding p2p_ctrl_iface_set_opps_def wpas_p2p_sigma_test_mode_def in_bounds_def
    by (intro cm) (simp_all del: starts_simps)
  have trans: "calm (cmd_transparent P cmd)" using len unfolding cmd_transparent_def by (intro cm) simp_all
  show ?thesis
    unfolding handle_cmd_def by (intro cm noa wapi wfd trans) (blast intro: opps)+
qed

text \<open>
  C21.  A command of at most 92 characters and 64 words (with an address in \<open>p2p_set_opps\<close>, and argument
  structures whose lengths fit) never makes the code touch memory outside its objects, whatever the
  driver answers, and the answer stays inside the buffer of the caller.
\<close>

theorem driver_cmd_in_bounds:
  assumes "ready s" and "reply s \<noteq> []" and "in_bounds P cmd"
  shows "let t = snd (run_state (wpa_driver_nl80211_driver_cmd P cmd) s)
    in nl_ub t = nl_ub s \<and> length (reply t) = length (reply s) \<and> supp t = supp s"
proof -
  have "calm (wpa_driver_nl80211_driver_cmd P cmd)"
    unfolding wpa_driver_nl80211_driver_cmd_def by (intro cm calm_handle [OF assms(3)])
  then show ?thesis using assms(1,2) by (simp add: calm_def same_frame_def ready_def Let_def)
qed

end
