(* ===== verification/DriverProps.thy ===== *)
theory DriverProps
  imports DriverRun
begin

text \<open>
  The commands with a result: the statistics of a station, the receive filter, and the channel of a
  P2P group.  The instances for the hypotheses are at the end.
\<close>

section \<open>Statistics\<close>

text \<open>The attributes in which the driver sends statistics; \<open>encode_attr\<close> is the inverse of \<open>store_attr\<close>.\<close>

definition enc8 :: "nat \<Rightarrow> bytes" where
  "enc8 n = [char_of n]"

fun encode_attr :: "sta_statistics \<Rightarrow> stat_attr \<Rightarrow> bytes" where
  "encode_attr s STATISTICS_VERSION = enc8 (unat (version s))"
| "encode_attr s STATISTICS_MAC = addr s"
| "encode_attr s STATISTICS_LINK_SCORE = le32 (link_score s)"
| "encode_attr s STATISTICS_FLAG = le32 (flag s)"
| "encode_attr s STATISTICS_PER = enc8 (unat (per s))"
| "encode_attr s STATISTICS_RSSI = enc8 (nat (2 * rssi s + 220))"
| "encode_attr s STATISTICS_PHY_MODE = le32 (phy_mode s)"
| "encode_attr s STATISTICS_TX_RATE = le16 (tx_rate s)"
| "encode_attr s STATISTICS_TOTAL_CNT = le32 (tx_total_cnt s)"
| "encode_attr s STATISTICS_THRESHOLD_CNT = le32 (tx_exc_threshold_cnt s)"
| "encode_attr s STATISTICS_AVG_PROCESS_TIME = le32 (tx_avg_process_time s)"
| "encode_attr s STATISTICS_MAX_PROCESS_TIME = le32 (tx_max_process_time s)"
| "encode_attr s STATISTICS_AVG_HIF_PROCESS_TIME = le32 (tx_avg_hif_process_time s)"
| "encode_attr s STATISTICS_MAX_HIF_PROCESS_TIME = le32 (tx_max_hif_process_time s)"
| "encode_attr s STATISTICS_FAIL_CNT = le32 (tx_fail_cnt s)"
| "encode_attr s STATISTICS_TIMEOUT_CNT = le32 (tx_timeout_cnt s)"
| "encode_attr s STATISTICS_AVG_AIR_TIME = le32 (tx_avg_air_time s)"
| "encode_attr s STATISTICS_TC_EMPTY_CNT_ARRAY = tc_buf_full_cnt s"
| "encode_attr s STATISTICS_TC_QUE_LEN_ARRAY = tc_que_len s"
| "encode_attr s STATISTICS_TC_AVG_QUE_LEN_ARRAY = tc_avg_que_len s"
| "encode_attr s STATISTICS_TC_CUR_QUE_LEN_ARRAY = tc_cur_que_len s"
| "encode_attr s STATISTICS_ENQUEUE = le32 (enqueue_total_cnt s)"
| "encode_attr s STATISTICS_STA_ENQUEUE = le32 (enqueue_sta_total_cnt s)"
| "encode_attr s STATISTICS_DEQUEUE = le32 (dequeue_total_cnt s)"
| "encode_attr s STATISTICS_STA_DEQUEUE = le32 (dequeue_sta_total_cnt s)"
| "encode_attr s STATISTICS_RB_ARRAY = tc_back_count s"
| "encode_attr s STATISTICS_NO_TC_ARRAY = dequeue_no_tc_res s"
| "encode_attr s STATISTICS_TC_USED_ARRAY = tc_used_res s"
| "encode_attr s STATISTICS_TC_WANTED_ARRAY = tc_wanted_res s"
| "encode_attr s STATISTICS_IRQ_ISR_CNT = le32 (isr_cnt s)"
| "encode_attr s STATISTICS_IRQ_ISR_PASS_CNT = le32 (isr_pass_cnt s)"
| "encode_attr s STATISTICS_IRQ_TASK_CNT = le32 (isr_task_cnt s)"
| "encode_attr s STATISTICS_IRQ_AB_CNT = le32 (isr_ab_cnt s)"
| "encode_attr s STATISTICS_IRQ_SW_CNT = le32 (isr_sw_cnt s)"
| "encode_attr s STATISTICS_IRQ_TX_CNT = le32 (isr_tx_cnt s)"
| "encode_attr s STATISTICS_IRQ_RX_CNT = le32 (isr_rx_cnt s)"
| "encode_attr s STATISTICS_RESERVED_ARRAY = reserved s"

text \<open>Statistics a driver can send: arrays of the size of the fields, and a signal level in its range.\<close>

definition sendable :: "sta_statistics \<Rightarrow> bool" where
  "sendable s \<longleftrightarrow> length (addr s) = 6 \<and> length (tc_buf_full_cnt s) = 16 \<and> length (tc_que_len s) = 16 \<and> length (tc_back_count s) = 16 \<and>
     length (dequeue_no_tc_res s) = 16 \<and> length (tc_wanted_res s) = 16 \<and> length (tc_used_res s) = 16 \<and>
     length (tc_avg_que_len s) = 16 \<and> length (tc_cur_que_len s) = 16 \<and> length (reserved s) = 32 \<and> - 110 \<le> rssi s \<and> rssi s \<le> 17"

lemma nla_u8_enc [simp]: "nla_get_u8 (enc8 n) = word_of_nat (n mod 256)"
  by (simp add: nla_get_u8_def enc8_def of_char_char_of_nat)

lemma nla_memcpy_full [simp]: "length d = length f \<Longrightarrow> nla_memcpy f d = d"
  by (simp add: nla_memcpy_def splice_def)

lemma rssi_enc: "- 110 \<le> r \<Longrightarrow> r \<le> 17 \<Longrightarrow> c_half (uint (word_of_nat (nat (2 * r + 220) mod 256) :: u8) - 220) = r"
proof -
  assume r: "- 110 \<le> r" "r \<le> 17"
  then have "nat (2 * r + 220) < 256" by simp
  then have "unat (word_of_nat (nat (2 * r + 220) mod 256) :: u8) = nat (2 * r + 220)" by (simp add: unat_of_nat)
  then have "int (unat (word_of_nat (nat (2 * r + 220) mod 256) :: u8)) = 2 * r + 220" using r by linarith
  then have "uint (word_of_nat (nat (2 * r + 220) mod 256) :: u8) = 2 * r + 220" by (simp only: uint_nat)
  moreover have "c_half (2 * r) = r" unfolding c_half_def by presburger
  ultimately show ?thesis by simp
qed

text \<open>An attribute leaves all fields but its own as they are.\<close>

lemma store_attr_other:
  "a \<noteq> STATISTICS_VERSION \<Longrightarrow> version (store_attr a d s) = version s"
  "a \<noteq> STATISTICS_MAC \<Longrightarrow> addr (store_attr a d s) = addr s"
  "a \<noteq> STATISTICS_LINK_SCORE \<Longrightarrow> link_score (store_attr a d s) = link_score s"
  "a \<noteq> STATISTICS_FLAG \<Longrightarrow> flag (store_attr a d s) = flag s"
  "a \<noteq> STATISTICS_PER \<Longrightarrow> per (store_attr a d s) = per s"
  "a \<noteq> STATISTICS_RSSI \<Longrightarrow> rssi (store_attr a d s) = rssi s"
  "a \<noteq> STATISTICS_PHY_MODE \<Longrightarrow> phy_mode (store_attr a d s) = phy_mode s"
  "a \<noteq> STATISTICS_TX_RATE \<Longrightarrow> tx_rate (store_attr a d s) = tx_rate s"
  "a \<noteq> STATISTICS_TOTAL_CNT \<Longrightarrow> tx_total_cnt (store_attr a d s) = tx_total_cnt s"
  "a \<noteq> STATISTICS_THRESHOLD_CNT \<Longrightarrow> tx_exc_threshold_cnt (store_attr a d s) = tx_exc_threshold_cnt s"
  "a \<noteq> STATISTICS_AVG_PROCESS_TIME \<Longrightarrow> tx_avg_process_time (store_attr a d s) = tx_avg_process_time s"
  "a \<noteq> STATISTICS_MAX_PROCESS_TIME \<Longrightarrow> tx_max_process_time (store_attr a d s) = tx_max_process_time s"
  "a \<noteq> STATISTICS_AVG_HIF_PROCESS_TIME \<Longrightarrow> tx_avg_hif_process_time (store_attr a d s) = tx_avg_hif_process_time s"
  "a \<noteq> STATISTICS_MAX_HIF_PROCESS_TIME \<Longrightarrow> tx_max_hif_process_time (store_attr a d s) = tx_max_hif_process_time s"
  "a \<noteq> STATISTICS_FAIL_CNT \<Longrightarrow> tx_fail_cnt (store_attr a d s) = tx_fail_cnt s"
  "a \<noteq> STATISTICS_TIMEOUT_CNT \<Longrightarrow> tx_timeout_cnt (store_attr a d s) = tx_timeout_cnt s"
  "a \<noteq> STATISTICS_AVG_AIR_TIME \<Longrightarrow> tx_avg_air_time (store_attr a d s) = tx_avg_air_time s"
  "a \<noteq> STATISTICS_TC_EMPTY_CNT_ARRAY \<Longrightarrow> tc_buf_full_cnt (store_attr a d s) = tc_buf_full_cnt s"
  "a \<noteq> STATISTICS_TC_QUE_LEN_ARRAY \<Longrightarrow> tc_que_len (store_attr a d s) = tc_que_len s"
  "a \<noteq> STATISTICS_TC_AVG_QUE_LEN_ARRAY \<Longrightarrow> tc_avg_que_len (store_attr a d s) = tc_avg_que_len s"
  "a \<noteq> STATISTICS_TC_CUR_QUE_LEN_ARRAY \<Longrightarrow> tc_cur_que_len (store_attr a d s) = tc_cur_que_len s"
  "a \<noteq> STATISTICS_ENQUEUE \<Longrightarrow> enqueue_total_cnt (store_attr a d s) = enqueue_total_cnt s"
  "a \<noteq> STATISTICS_STA_ENQUEUE \<Longrightarrow> enqueue_sta_total_cnt (store_attr a d s) = enqueue_sta_total_cnt s"
  "a \<noteq> STATISTICS_DEQUEUE \<Longrightarrow> dequeue_total_cnt (store_attr a d s) = dequeue_total_cnt s"
  "a \<noteq> STATISTICS_STA_DEQUEUE \<Longrightarrow> dequeue_sta_total_cnt (store_attr a d s) = dequeue_sta_total_cnt s"
  "a \<noteq> STATISTICS_RB_ARRAY \<Longrightarrow> tc_back_count (store_attr a d s) = tc_back_count s"
  "a \<noteq> STATISTICS_NO_TC_ARRAY \<Longrightarrow> dequeue_no_tc_res (store_attr a d s) = dequeue_no_tc_res s"
  "a \<noteq> STATISTICS_TC_USED_ARRAY \<Longrightarrow> tc_used_res (store_attr a d s) = tc_used_res s"
  "a \<noteq> STATISTICS_TC_WANTED_ARRAY \<Longrightarrow> tc_wanted_res (store_attr a d s) = tc_wanted_res s"
  "a \<noteq> STATISTICS_IRQ_ISR_CNT \<Longrightarrow> isr_cnt (store_attr a d s) = isr_cnt s"
  "a \<noteq> STATISTICS_IRQ_ISR_PASS_CNT \<Longrightarrow> isr_pass_cnt (store_attr a d s) = isr_pass_cnt s"
  "a \<noteq> STATISTICS_IRQ_TASK_CNT \<Longrightarrow> isr_task_cnt (store_attr a d s) = isr_task_cnt s"
  "a \<noteq> STATISTICS_IRQ_AB_CNT \<Longrightarrow> isr_ab_cnt (store_attr a d s) = isr_ab_cnt s"
  "a \<noteq> STATISTICS_IRQ_SW_CNT \<Longrightarrow> isr_sw_cnt (store_attr a d s) = isr_sw_cnt s"
  "a \<noteq> STATISTICS_IRQ_TX_CNT \<Longrightarrow> isr_tx_cnt (store_attr a d s) = isr_tx_cnt s"
  "a \<noteq> STATISTICS_IRQ_RX_CNT \<Longrightarrow> isr_rx_cnt (store_attr a d s) = isr_rx_cnt s"
  "a \<noteq> STATISTICS_RESERVED_ARRAY \<Longrightarrow> reserved (store_attr a d s) = reserved s"
  by (cases a; simp)+

lemma attributes_stored:
  assumes "sendable s"
  shows "testmode_sta_statistics_handler (Some (\<lambda>a. Some (encode_attr s a))) no_statistics = s"
proof -
  have v: "(word_of_nat (unat x mod 256) :: u8) = x" for x
    using unat_bound [of x] by simp
  have z: "length (zeros n) = n" for n by (simp add: zeros_def)
  have all: "testmode_sta_statistics_handler (Some (\<lambda>a. Some (encode_attr s a))) no_statistics =
      fold (\<lambda>a. store_attr a (encode_attr s a)) stat_attrs no_statistics"
    by (simp add: testmode_sta_statistics_handler_def)
  show ?thesis
    unfolding all stat_attrs_def fold_Cons fold_Nil comp_apply id_apply
    by (rule sta_statistics.equality)
       (use assms in \<open>simp_all add: store_attr_other sendable_def no_statistics_def z rssi_enc v del: store_attr.simps\<close>,
        use assms in \<open>simp_all add: store_attr_other sendable_def no_statistics_def z rssi_enc v\<close>)
qed

text \<open>What a printed text does to the buffer: a prefix stays, the text and a zero byte follow.\<close>

lemma run_snprintf:
  assumes "n \<le> length (reply s)" and "pos < n" and "length t < n - pos"
  shows "run_state (snprintf_at pos (n - pos) t) s = (int (length t), s\<lparr>reply := splice pos (t @ [CHR 0x00]) (reply s)\<rparr>)"
proof -
  have "n \<noteq> 0" "\<not> length (reply s) < pos + min (length t + 1) (n - pos)" "n - pos \<noteq> 0" "take (n - pos - 1) t = t" using assms by auto
  then show ?thesis by (simp only: snprintf_at_def run_bind run_gets fst_conv snd_conv if_False) (simp add: modify_def)
qed

lemma run_print_Cons:
  "run_state (print_pieces (t # ts) pos n) s = (let (r, u) = run_state (snprintf_at pos (n - pos) t) s
     in if int (n - pos) \<le> r then (0, u) else run_state (print_pieces ts (pos + length t) n) u)"
  by (simp add: Let_def case_prod_unfold)

lemma print_pieces_all:
  "n \<le> length (reply s) \<Longrightarrow> pos + length (concat ts) < n \<Longrightarrow>
   \<exists>b. run_state (print_pieces ts pos n) s = (int (pos + length (concat ts)), s\<lparr>reply := b\<rparr>) \<and> length b = length (reply s) \<and>
     take (pos + length (concat ts)) b = take pos (reply s) @ concat ts \<and> (ts \<noteq> [] \<longrightarrow> b ! (pos + length (concat ts)) = CHR 0x00)"
proof (induction ts arbitrary: pos s)
  case Nil
  have "s\<lparr>reply := reply s\<rparr> = s" by simp
  then show ?case by (intro exI [of _ "reply s"]) (use Nil in auto)
next
  case (Cons t ts)
  let ?c = "splice pos (t @ [CHR 0x00]) (reply s)"
  let ?s = "s\<lparr>reply := ?c\<rparr>"
  have pos: "pos < n" "length t < n - pos" "pos \<le> length (reply s)" using Cons.prems by auto
  have c: "length ?c = length (reply s)" "take (pos + length t) ?c = take pos (reply s) @ t" "?c ! (pos + length t) = CHR 0x00"
    using pos Cons.prems(1) by (auto simp: splice_def min_def nth_append)
  obtain b where b: "run_state (print_pieces ts (pos + length t) n) ?s = (int (pos + length t + length (concat ts)), ?s\<lparr>reply := b\<rparr>)"
      "length b = length (reply s)" "take (pos + length t + length (concat ts)) b = take pos (reply s) @ t @ concat ts"
      "ts \<noteq> [] \<longrightarrow> b ! (pos + length t + length (concat ts)) = CHR 0x00"
    using Cons.IH [of ?s "pos + length t"] Cons.prems c by auto
  have last: "b ! (pos + length t + length (concat ts)) = CHR 0x00"
  proof (cases "ts = []")
    case True
    then have "s\<lparr>reply := b\<rparr> = s\<lparr>reply := ?c\<rparr>" using b(1) by simp
    then have "b = ?c" by (metis nl_state.select_convs(6) nl_state.surjective nl_state.update_convs(6))
    then show ?thesis using True c(3) by simp
  qed (use b(4) in blast)
  have "\<not> int (n - pos) \<le> int (length t)" using pos(2) by simp
  then have "run_state (print_pieces (t # ts) pos n) s = run_state (print_pieces ts (pos + length t) n) ?s"
    by (simp only: run_print_Cons run_snprintf [OF Cons.prems(1) pos(1,2)] Let_def prod.case if_False)
  then show ?case using b last by (intro exI [of _ b]) (simp add: add.assoc)
qed

lemma print_pieces_short:
  "n \<le> length (reply s) \<Longrightarrow> pos \<le> n \<Longrightarrow> n \<le> pos + length (concat ts) \<Longrightarrow> ts \<noteq> [] \<Longrightarrow> fst (run_state (print_pieces ts pos n) s) = 0"
proof (induction ts arbitrary: pos s)
  case (Cons t ts)
  let ?u = "snd (run_state (snprintf_at pos (n - pos) t) s)"
  have p: "same_frame s ?u" "fst (run_state (snprintf_at pos (n - pos) t) s) = int (length t)" using calm_print Cons.prems(1,2) by blast+
  show ?case
  proof (cases "n - pos \<le> length t")
    case True
    then have "int (n - pos) \<le> int (length t)" by simp
    then show ?thesis unfolding run_print_Cons Let_def case_prod_unfold p(2) by (simp only: if_True fst_conv)
  next
    case False
    then have "fst (run_state (print_pieces ts (pos + length t) n) ?u) = 0"
      using Cons.prems p(1) by (intro Cons.IH) (auto simp: same_frame_def)
    moreover have "\<not> int (n - pos) \<le> int (length t)" using False by simp
    ultimately show ?thesis unfolding run_print_Cons Let_def case_prod_unfold p(2) by (simp only: if_False)
  qed
qed simp

definition report :: "sta_statistics \<Rightarrow> string" where
  "report st = concat (statistics_pieces st)"

text \<open>A report has at most 700 characters, so a larger buffer always holds it.\<close>

lemma length_show_d: "length (show_d w) \<le> 11"
  using sint_range_size [of w] length_show_dec [of "sint w"] by (simp add: show_d_def word_size)

lemma length_show_tc: "length (show_tc a) \<le> 47"
proof -
  have "length (show_d (tc_entry a i)) \<le> 11" for i by (rule length_show_d)
  note b = this [of 0] this [of 1] this [of 2] this [of 3]
  have "length (show_tc a) = length (show_d (tc_entry a 0)) + length (show_d (tc_entry a 1)) + length (show_d (tc_entry a 2)) + length (show_d (tc_entry a 3)) + 3"
    by (simp only: show_tc_def length_append list.size)
  then show ?thesis using b by linarith
qed

lemma length_pair: "length (show_hex 2 (of_char c)) = 2" "length (show_HEX 2 (of_char c)) = 2"
proof -
  have "(of_char c :: nat) < 16 ^ 2" using of_char_char_of_nat [of "of_char c"] mod_less_divisor [of 256 "of_char c :: nat"] by simp
  then show "length (show_hex 2 (of_char c)) = 2" "length (show_HEX 2 (of_char c)) = 2"
    using length_digits_of [of 16 2 "of_char c"] length_show_HEX [of 2 "of_char c"] by (simp_all add: show_hex_def length_zero_fill)
qed

lemma length_macstr: "length (macstr a) = 17"
  by (simp add: macstr_def length_pair upt_rec)

lemma length_reserved: "length (concat (reserved_pieces a i)) \<le> 48"
proof -
  have "length (concat (concat (map (\<lambda>k. [show_HEX 2 (of_char (a ! k))] @ (if (k + 1) mod 4 = 0 then ['' ''] else [])) ks))) \<le> 3 * length ks" for ks
    by (induction ks) (simp_all add: length_pair)
  from this [of "[i..<i + 16]"] show ?thesis by (simp add: reserved_pieces_def)
qed

lemma length_report: "sendable st \<Longrightarrow> length (report st) \<le> 700"
proof -
  assume s: "sendable st"
  have r: "length (show_dec (rssi st)) \<le> 11" "length (show_dec (uint (per st))) \<le> 11"
    using s uint_lt2p [of "per st"] order_trans [OF _ uint_ge_0, of "- (2 ^ 31)" "per st"] by (simp_all add: sendable_def length_show_dec)
  have t: "length (digits_of 10 (unat (tx_rate st) div 2)) \<le> 5"
    using unat_bound [of "tx_rate st"] by (intro length_digits_of) simp_all
  note d = length_show_d [of "link_score st"] length_show_d [of "tx_total_cnt st"] length_show_d [of "tx_exc_threshold_cnt st"]
    length_show_d [of "tx_fail_cnt st"] length_show_d [of "tx_timeout_cnt st"] length_show_d [of "tx_avg_process_time st"]
    length_show_d [of "tx_avg_air_time st"] length_show_tc [of "tc_buf_full_cnt st"] length_show_tc [of "tc_que_len st"]
    length_show_tc [of "tc_avg_que_len st"] length_show_tc [of "tc_cur_que_len st"] length_reserved [of "reserved st" 0]
    length_reserved [of "reserved st" 16]
  have h: "length (show_HEX 8 (unat (w :: u32))) = 8" for w using unat_bound [of w] by (intro length_show_HEX) simp_all
  have "length (report st) \<le> 17 + 11 * 10 + 5 + 47 * 4 + 16 + 48 * 2 + 260"
    using d r t by (simp add: report_def statistics_pieces_def nl_def length_macstr h)
  then show ?thesis by simp
qed

text \<open>The size of the parameters, and the address that is asked for.\<close>

definition stat_params_size :: "nl_plat \<Rightarrow> nat" where
  "stat_params_size P = (if sizeof_ptr P = 8 then 32 else 24 + sizeof_ptr P)"

definition asked_addr :: "nl_state \<Rightarrow> bytes \<Rightarrow> bytes" where
  "asked_addr s a = (case wpas_p2p_get_sta_mac (supp s) (p2p s) a of None \<Rightarrow> a | Some m \<Rightarrow> m)"

definition stat_request :: "nl_plat \<Rightarrow> nl_state \<Rightarrow> bytes \<Rightarrow> nl_request" where
  "stat_request P s a = Testmode (header 0x10 (stat_params_size P)) (stat_params_size P) (Get_sta_statistics (asked_addr s a))"

lemma handle_statistics:
  assumes "\<not> ap_mode (supp s)" and "hwaddr_aton P a = Some m" and "nl_env P (nl_sent s) Nlmsg_alloc = x" and "x \<noteq> 0"
    and "nla_fits P (stat_params_size P)" and "es = nl_sent s @ [(Nlmsg_alloc, x)]" and "nl_env P es (stat_request P s m) = r" and "0 \<le> r"
    and "stat_replies P (es @ [(stat_request P s m, r)]) = [Some (\<lambda>f. Some (encode_attr st f))]" and "sendable st"
  shows "run_state (handle_cmd P (''GET_STA_STATISTICS '' @ a)) s =
    (let (v, t) = run_state (print_sta_statistics st (length (reply s))) (s\<lparr>nl_sent := es @ [(stat_request P s m, r)]\<rparr>) in ((v, None), t))"
proof -
  have mask: "index (header 0x10 k) AND BITS 0 23 = 0x10" for k by (simp add: header_def BITS_0_23)
  have n: "(if sizeof_ptr P = 8 then 32 else 24 + sizeof_ptr P) = stat_params_size P" by (simp add: stat_params_size_def)
  have d: "handle_cmd P (''GET_STA_STATISTICS '' @ a) = done_with (do { _ \<leftarrow> wpa_s; wpa_driver_get_sta_statistics P a })"
    by (simp add: handle_cmd_def lower_code_def)
  have t: "Testmode (header 0x10 (stat_params_size P)) (stat_params_size P)
      (Get_sta_statistics (case wpas_p2p_get_sta_mac (supp s) (p2p s) m of None \<Rightarrow> m | Some m \<Rightarrow> m)) = stat_request P s m"
    by (simp add: stat_request_def asked_addr_def)
  have "run_state (wpas_get_sta_statistics P (case wpas_p2p_get_sta_mac (supp s) (p2p s) m of None \<Rightarrow> m | Some m \<Rightarrow> m) no_statistics) s =
      ((r, st), s\<lparr>nl_sent := es @ [(stat_request P s m, r)]\<rparr>)"
    using assms by (simp add: wpas_get_sta_statistics_def wpa_driver_nl80211_testmode_def n mask run_bind run_gets request_def Let_def t attributes_stored)
  then show ?thesis
    unfolding d using assms(1,2,8) by (simp add: run_done_with run_bind run_wpa_s wpa_driver_get_sta_statistics_def run_gets Let_def case_prod_unfold)
qed

text \<open>
  C20.  The statistics the driver answers with are what the caller reads: every attribute reaches its
  field, and the report of these fields, with its length as the result, is the text in the buffer when it
  fits; when it does not fit the result is 0.  The station asked for is the interface address of the peer.
\<close>

theorem statistics_reported:
  assumes "ready s" and "hwaddr_aton P a = Some m" and "nl_env P (nl_sent s) Nlmsg_alloc = x" and "x \<noteq> 0"
    and "nla_fits P (stat_params_size P)" and "es = nl_sent s @ [(Nlmsg_alloc, x)]" and "nl_env P es (stat_request P s m) = r" and "0 \<le> r"
    and "stat_replies P (es @ [(stat_request P s m, r)]) = [Some (\<lambda>f. Some (encode_attr st f))]" and "sendable st"
    and "run_state (wpa_driver_nl80211_driver_cmd P (''GET_STA_STATISTICS '' @ a)) s = (v, t)"
  shows "if length (report st) < length (reply s)
    then v = int (length (report st)) \<and> take (length (report st) + 1) (reply t) = report st @ [CHR 0x00] \<and>
      nl_sent t = es @ [(stat_request P s m, r)]
    else v = 0"
proof -
  let ?u = "s\<lparr>nl_sent := es @ [(stat_request P s m, r)]\<rparr>"
  have ap: "\<not> ap_mode (supp s)" using assms(1) by (simp add: ready_def)
  have "run_state (handle_cmd P (''GET_STA_STATISTICS '' @ a)) s =
      ((fst (run_state (print_sta_statistics st (length (reply s))) ?u), None), snd (run_state (print_sta_statistics st (length (reply s))) ?u))"
    using handle_statistics [OF ap assms(2-10)] by (simp only: Let_def case_prod_unfold)
  then have vt: "(v, t) = run_state (print_sta_statistics st (length (reply s))) ?u"
    using run_driver_cmd_handled [OF assms(1)] assms(11) by (metis prod.collapse)
  show ?thesis
  proof (cases "length (report st) < length (reply s)")
    case True
    have "length (reply s) \<le> length (reply ?u)" "0 + length (concat (statistics_pieces st)) < length (reply s)" using True by (simp_all add: report_def)
    then obtain b where "run_state (print_pieces (statistics_pieces st) 0 (length (reply s))) ?u = (int (0 + length (concat (statistics_pieces st))), ?u\<lparr>reply := b\<rparr>)"
        "length b = length (reply ?u)" "take (0 + length (concat (statistics_pieces st))) b = take 0 (reply ?u) @ concat (statistics_pieces st)"
        "b ! (0 + length (concat (statistics_pieces st))) = CHR 0x00"
      using print_pieces_all [of "length (reply s)" ?u 0 "statistics_pieces st"] by (auto simp: statistics_pieces_def)
    then show ?thesis
      using vt True by (simp add: print_sta_statistics_def report_def take_Suc_conv_app_nth)
  next
    case False
    then have "fst (run_state (print_pieces (statistics_pieces st) 0 (length (reply s))) ?u) = 0"
      by (intro print_pieces_short) (simp_all add: report_def, simp add: statistics_pieces_def)
    then show ?thesis using vt False by (metis fst_conv print_sta_statistics_def)
  qed
qed

section \<open>The receive filter\<close>

text \<open>The form of the command that the comment in the code shows: three pairs of eight digits.\<close>

definition filter_cmd :: "u32 list \<Rightarrow> string" where
  "filter_cmd w = ''mtk_rx_packet_filter '' @ show_HEX 8 (unat (w ! 0)) @ show_HEX 8 (unat (w ! 1)) @ '' '' @
     show_HEX 8 (unat (w ! 2)) @ show_HEX 8 (unat (w ! 3)) @ '' '' @ show_HEX 8 (unat (w ! 4)) @ show_HEX 8 (unat (w ! 5))"

lemma length_HEX_word [simp]: "length (show_HEX 8 (unat (w :: u32))) = 8"
  using unat_bound [of w] by (intro length_show_HEX) simp_all

lemma filter_word_at:
  assumes "unat w < 2 ^ (long_bits P - 1)" and "length pre = pos"
  shows "filter_word P (pre @ show_HEX 8 (unat w) @ post) pos = w"
proof -
  have t: "take 8 (drop pos (pre @ show_HEX 8 (unat w) @ post)) = show_HEX 8 (unat w)" using assms(2) by simp
  have r: "read_number 16 (show_HEX 8 (unat w)) = Some (False, unat w, [])"
    using read_digits(1) [of 16 "show_HEX 8 (unat w)" "[]"] show_HEX_digits [of 8 "unat w"] by simp
  have "int (unat w) \<le> 2 ^ (long_bits P - 1) - 1" using assms(1) by (metis of_nat_less_iff of_nat_numeral of_nat_power zle_diff1_eq)
  moreover have "- (2 ^ (long_bits P - 1)) \<le> int (unat w)" by (simp add: order_trans [of _ 0])
  ultimately have "max (- (2 ^ (long_bits P - 1))) (min (2 ^ (long_bits P - 1) - 1) (int (unat w))) = int (unat w)" by linarith
  then show ?thesis unfolding filter_word_def t strtol_def r by simp
qed

text \<open>
  C28.  A receive filter in the documented form reaches the driver word by word, when \<open>long\<close> can hold the
  words; the one message that goes out has exactly these six.
\<close>

theorem rx_filter_reaches_driver:
  assumes "ready s" and "length w = 6" and "\<forall>x \<in> set w. unat x < 2 ^ (long_bits P - 1)"
  shows "run_state (wpa_driver_nl80211_driver_cmd P (filter_cmd w)) s =
    sends P 103 32 (Rx_filter (w ! 0) (w ! 1) (w ! 2) (w ! 3) (w ! 4) (w ! 5)) s"
proof -
  define h where "h i = show_HEX 8 (unat (w ! i))" for i
  have l: "length (h i) = 8" for i by (simp add: h_def)
  have x: "unat (w ! i) < 2 ^ (long_bits P - 1)" if "i < 6" for i using assms(2,3) that by simp
  have c: "filter_cmd w = ''mtk_rx_packet_filter '' @ h 0 @ h 1 @ '' '' @ h 2 @ h 3 @ '' '' @ h 4 @ h 5" by (simp add: filter_cmd_def h_def)
  note at = filter_word_at [OF x, folded h_def]
  let ?p = "''mtk_rx_packet_filter ''"
  have f: "filter_word P (filter_cmd w) 21 = w ! 0" "filter_word P (filter_cmd w) 29 = w ! 1" "filter_word P (filter_cmd w) 38 = w ! 2"
    "filter_word P (filter_cmd w) 46 = w ! 3" "filter_word P (filter_cmd w) 55 = w ! 4" "filter_word P (filter_cmd w) 63 = w ! 5"
    using at [of 0 ?p 21 "h 1 @ '' '' @ h 2 @ h 3 @ '' '' @ h 4 @ h 5"] at [of 1 "?p @ h 0" 29 "'' '' @ h 2 @ h 3 @ '' '' @ h 4 @ h 5"]
      at [of 2 "?p @ h 0 @ h 1 @ '' ''" 38 "h 3 @ '' '' @ h 4 @ h 5"] at [of 3 "?p @ h 0 @ h 1 @ '' '' @ h 2" 46 "'' '' @ h 4 @ h 5"]
      at [of 4 "?p @ h 0 @ h 1 @ '' '' @ h 2 @ h 3 @ '' ''" 55 "h 5"] at [of 5 "?p @ h 0 @ h 1 @ '' '' @ h 2 @ h 3 @ '' '' @ h 4" 63 "[]"]
    unfolding c by (simp_all add: l)
  have len: "length (filter_cmd w) = 71" by (simp add: c l)
  have "handle_cmd P (filter_cmd w) = done_with (mtk_rx_packet_filter P (filter_cmd w))"
    unfolding c by (simp add: handle_cmd_def lower_code_def)
  moreover have "run_state (mtk_rx_packet_filter P (filter_cmd w)) s = sends P 103 32 (Rx_filter (w ! 0) (w ! 1) (w ! 2) (w ! 3) (w ! 4) (w ! 5)) s"
    by (simp add: mtk_rx_packet_filter_def len f run_testmode)
  ultimately have "run_state (handle_cmd P (filter_cmd w)) s =
      ((fst (sends P 103 32 (Rx_filter (w ! 0) (w ! 1) (w ! 2) (w ! 3) (w ! 4) (w ! 5)) s), None),
       snd (sends P 103 32 (Rx_filter (w ! 0) (w ! 1) (w ! 2) (w ! 3) (w ! 4) (w ! 5)) s))"
    by (simp add: run_done_with)
  then show ?thesis by (simp add: run_driver_cmd_handled [OF assms(1)])
qed

section \<open>Channels\<close>

text \<open>The operating classes with their channels, and the frequency of a channel.\<close>

definition standard :: "nat \<Rightarrow> nat \<Rightarrow> bool" where
  "standard c ch \<longleftrightarrow> c = 81 \<and> 1 \<le> ch \<and> ch \<le> 13 \<or> c = 82 \<and> ch = 14 \<or> c = 115 \<and> 36 \<le> ch \<and> ch \<le> 48 \<or> c = 118 \<and> 52 \<le> ch \<and> ch \<le> 64 \<or>
     c = 121 \<and> 100 \<le> ch \<and> ch \<le> 140 \<or> c = 124 \<and> 149 \<le> ch \<and> ch \<le> 161 \<or> c = 125 \<and> 165 \<le> ch \<and> ch \<le> 169"

definition channel_freq :: "nat \<Rightarrow> nat \<Rightarrow> nat" where
  "channel_freq c ch = (if c = 81 then 2407 + 5 * ch else if c = 82 then 2484 else 5000 + 5 * ch)"

lemma standard_found: "standard c ch \<Longrightarrow> priv_p2p_freq_to_channel (channel_freq c ch) = Some (c, ch)"
  unfolding standard_def channel_freq_def priv_p2p_freq_to_channel_def by (elim disjE conjE) simp_all

lemma found_standard:
  assumes "priv_p2p_freq_to_channel f = Some (c, ch)"
  shows "standard c ch \<and> channel_freq c ch \<le> f \<and> f < channel_freq c ch + 5"
proof -
  have d: "(f - m) div 5 = q \<Longrightarrow> m \<le> f \<Longrightarrow> m + 5 * q \<le> f \<and> f < m + 5 * q + 5" for m q by presburger
  from assms consider "2412 \<le> f" "f \<le> 2472" "c = 81" "(f - 2407) div 5 = ch" | "f = 2484" "c = 82" "ch = 14"
    | "5180 \<le> f" "f \<le> 5240" "c = 115" "(f - 5000) div 5 = ch" | "5260 \<le> f" "f \<le> 5320" "c = 118" "(f - 5000) div 5 = ch"
    | "5500 \<le> f" "f \<le> 5700" "c = 121" "(f - 5000) div 5 = ch" | "5745 \<le> f" "f \<le> 5805" "c = 124" "(f - 5000) div 5 = ch"
    | "5825 \<le> f" "f \<le> 5845" "c = 125" "(f - 5000) div 5 = ch"
    unfolding priv_p2p_freq_to_channel_def by (simp split: if_split_asm)
  then show ?thesis
    by cases (use d [of 2407 ch] d [of 5000 ch] in \<open>simp_all add: standard_def channel_freq_def\<close>)
qed

text \<open>
  C29.  Frequencies and channels correspond: every channel of the classes is found from its frequency,
  and what is found for a frequency is such a channel, less than 5 MHz below it, in 8-bit numbers.
\<close>

theorem freq_to_channel_round_trip:
  "(standard c ch \<longrightarrow> priv_p2p_freq_to_channel (channel_freq c ch) = Some (c, ch)) \<and>
   (priv_p2p_freq_to_channel f = Some (d, k) \<longrightarrow> standard d k \<and> d < 256 \<and> k < 256 \<and> channel_freq d k \<le> f \<and> f < channel_freq d k + 5)"
  using standard_found [of c ch] found_standard [of f d k] by (auto simp: standard_def)

section \<open>Frequencies in use\<close>

text \<open>The first occurrences of the elements of a list, in their order.\<close>

definition firsts :: "'a list \<Rightarrow> 'a list" where
  "firsts xs = rev (remdups (rev xs))"

definition used_freqs :: "radio_if list \<Rightarrow> int list" where
  "used_freqs is = List.map_filter if_freq is"

lemma firsts_snoc: "firsts (xs @ [x]) = (if x \<in> set xs then firsts xs else firsts xs @ [x])"
  by (simp add: firsts_def)

lemma set_firsts [simp]: "set (firsts xs) = set xs"
  by (simp add: firsts_def)

lemma firsts_append: "\<exists>ys. firsts (xs @ zs) = firsts xs @ ys"
proof (induction zs rule: rev_induct)
  case (snoc z zs)
  then show ?case using firsts_snoc [of "xs @ zs" z] by auto
qed simp

lemma freq_index_le: "freq_index f ds \<le> length ds" and freq_index_found: "freq_index f ds = length ds \<longleftrightarrow> f \<notin> fst ` set ds"
    and freq_index_at: "freq_index f ds < length ds \<Longrightarrow> fst (ds ! freq_index f ds) = f"
  by (induction ds) auto

lemma note_freq_fst: "map fst (note_freq i ds) = (case if_freq i of None \<Rightarrow> map fst ds
    | Some f \<Rightarrow> if f \<in> fst ` set ds then map fst ds else map fst ds @ [f])"
proof (cases "if_freq i")
  case (Some f)
  then obtain s where s: "current_ssid i = Some s" by (auto simp: if_freq_def split: option.splits)
  let ?k = "freq_index f ds"
  have "map fst (ds[?k := (f, u)]) = map fst ds" if "?k < length ds" for u
    using freq_index_at [OF that] by (simp add: map_update list_update_same_conv that)
  moreover have "map fst ((ds @ [(f, FREQ_UNUSED)])[length ds := (f, u)]) = map fst ds @ [f]" for u by simp
  ultimately show ?thesis
    using Some s freq_index_le [of f ds] freq_index_found [of f ds] by (auto simp: note_freq_def Let_def order_le_less)
qed (simp add: note_freq_def split: option.split)

lemma shared_data_firsts:
  assumes "map fst ds = firsts xs" and "length ds \<le> len"
  shows "map fst (mtk_get_shared_radio_freqs_data len is ds) = take len (firsts (xs @ used_freqs is))"
  using assms
proof (induction "is" arbitrary: ds xs)
  case Nil
  then have "length (firsts xs) \<le> len" by (metis length_map)
  then show ?case using Nil by (simp add: used_freqs_def map_filter_simps)
next
  case (Cons i "is")
  show ?case
  proof (cases "length ds = len")
    case True
    obtain ys where "firsts (xs @ used_freqs (i # is)) = firsts xs @ ys" using firsts_append by blast
    moreover have "length (firsts xs) = len" using arg_cong [OF Cons.prems(1), of length] True by simp
    moreover have "mtk_get_shared_radio_freqs_data len (i # is) ds = ds" using True by simp
    ultimately show ?thesis using Cons.prems(1) by simp
  next
    case False
    have "fst ` set ds = set xs" using Cons.prems(1) by (metis list.set_map set_firsts)
    then have n: "map fst (note_freq i ds) = firsts (xs @ used_freqs [i])"
      by (simp add: note_freq_fst used_freqs_def map_filter_simps firsts_snoc Cons.prems(1) split: option.split)
    have "length (note_freq i ds) \<le> len"
      using arg_cong [OF note_freq_fst [of i ds], of length] False Cons.prems(2) by (simp split: option.splits if_splits)
    then show ?thesis
      using Cons.IH [OF n] False by (simp add: used_freqs_def map_filter_simps split: option.splits)
  qed
qed

text \<open>
  C26.  The frequencies in use are collected as the specification has it: the first ones, as many as
  asked for, of those that the interfaces use, each once and in the order of the interfaces; they are
  in front of the array, and their number is the result.
\<close>

theorem shared_freqs_first:
  assumes "nl_env P (nl_sent s) (Calloc n) \<noteq> 0"
  shows "\<exists>t. run_state (mtk_get_shared_radio_freqs P n) s =
    ((int (min n (card (set (used_freqs (radio_ifs (supp s)))))),
      take n (firsts (used_freqs (radio_ifs (supp s))) @ replicate n 0)), t) \<and> t = s\<lparr>nl_sent := nl_sent t\<rparr>"
proof -
  let ?fs = "firsts (used_freqs (radio_ifs (supp s)))"
  have d: "map fst (mtk_get_shared_radio_freqs_data n (radio_ifs (supp s)) []) = take n ?fs"
    using shared_data_firsts [of "[]" "[]" n "radio_ifs (supp s)"] by (simp add: firsts_def)
  have "length (mtk_get_shared_radio_freqs_data n (radio_ifs (supp s)) []) = length (take n ?fs)" using arg_cong [OF d, of length] by simp
  moreover have "length ?fs = card (set (used_freqs (radio_ifs (supp s))))" by (simp add: firsts_def length_remdups_card_conv)
  ultimately show ?thesis
    using assms d by (simp add: mtk_get_shared_radio_freqs_def run_bind run_gets request_def Let_def min.commute)
qed

lemma run_use_mcc_shared:
  assumes "nl_env P (nl_sent s) (Calloc 1) \<noteq> 0" and "used_freqs (radio_ifs (supp s)) = f # gs" and "p2p s = Some q"
    and "priv_p2p_freq_to_channel (nat f) = Some (c, ch)"
  shows "\<exists>es. snd (run_state (use_mcc_shared P) s) = s\<lparr>nl_sent := es, p2p := Some (q\<lparr>op_channel := word_of_nat ch,
      op_reg_class := word_of_nat c, p2p_chans := [(word_of_nat c, [word_of_nat ch])]\<rparr>)\<rparr>"
proof -
  obtain t where t: "run_state (mtk_get_shared_radio_freqs P 1) s =
      ((int (min 1 (card (set (f # gs)))), take 1 (firsts (f # gs) @ replicate 1 0)), t)" "t = s\<lparr>nl_sent := nl_sent t\<rparr>"
    using shared_freqs_first [OF assms(1)] unfolding assms(2) by blast
  have "\<exists>ys. firsts ([f] @ gs) = firsts [f] @ ys" by (rule firsts_append)
  then have fst: "take 1 (firsts (f # gs) @ replicate 1 0) = [f]" by (auto simp: firsts_def)
  have card: "min 1 (card (set (f # gs))) = 1" using card_gt_0_iff [of "set (f # gs)"] by (simp add: Suc_le_eq)
  have t1: "run_state (mtk_get_shared_radio_freqs P 1) s = ((1, [f]), t)" by (simp only: t(1) fst card of_nat_1)
  have f: "0 < f" "f < 2 ^ 32" using assms(4) by (auto simp: priv_p2p_freq_to_channel_def split: if_split_asm)
  then have w: "unat (word_of_int f :: u32) = nat f" "(word_of_int f :: u32) \<noteq> 0"
    by (simp_all add: unat_eq_nat_uint uint_word_of_int word_eq_iff_unsigned [symmetric] word_uint_eq_iff)
  have p: "p2p t = Some q" using t(2) assms(3) by (metis nl_state.select_convs(2) nl_state.surjective nl_state.update_convs(4))
  have "snd (run_state (use_mcc_shared P) s) = snd (run_state (p2p_wfd_sink_config_scc P True (word_of_int f)) t)"
    using f(1) t1 by (simp add: use_mcc_shared_def run_bind)
  also have "\<dots> = t\<lparr>p2p := Some (q\<lparr>op_channel := word_of_nat ch, op_reg_class := word_of_nat c, p2p_chans := [(word_of_nat c, [word_of_nat ch])]\<rparr>)\<rparr>"
    using p w assms(4) by (simp add: p2p_wfd_sink_config_scc_def run_bind run_gets modify_def)
  finally show ?thesis using t(2) by (intro exI [of _ "nl_sent t"]) (metis (no_types, lifting) nl_state.surjective nl_state.update_convs(2,4))
qed

text \<open>
  C27.  Without several channels (\<open>p2p_use_mcc=0\<close>) the P2P group works on the channel of the first interface
  in use: its class and channel become the operating ones and the only ones on offer.
\<close>

theorem group_follows_station:
  assumes "ready s" and "CONFIG_MTK_WFD_SINK P" and "32 \<le> long_bits P" and "nl_env P (nl_sent s) (Calloc 1) \<noteq> 0"
    and "used_freqs (radio_ifs (supp s)) = f # gs" and "p2p s = Some q" and "priv_p2p_freq_to_channel (nat f) = Some (c, ch)"
  shows "\<exists>es. snd (run_state (wpa_driver_nl80211_driver_cmd P ''p2p_use_mcc=0'') s) =
    s\<lparr>nl_sent := es, p2p := Some (q\<lparr>op_channel := word_of_nat ch, op_reg_class := word_of_nat c, p2p_chans := [(word_of_nat c, [word_of_nat ch])]\<rparr>)\<rparr>"
proof -
  have "show_dec 0 = ''0''" by (simp add: show_dec_def digits_of.simps digit_def)
  then have z: "atoi (long_bits P) ''0'' = 0" using atoi_printed [of 0 "long_bits P"] assms(3) by (simp add: int32_def)
  have ap: "\<not> ap_mode (supp s)" using assms(1) by (simp add: ready_def)
  have "run_state (handle_cmd P ''p2p_use_mcc=0'') s = ((-1, None), snd (run_state (use_mcc_shared P) s))"
    using assms(2) by (simp add: handle_cmd_def lower_code_def run_done_with cmd_use_mcc_def run_bind run_wpa_s [OF ap] z case_prod_unfold)
  then show ?thesis using run_driver_cmd_handled [OF assms(1)] run_use_mcc_shared [OF assms(4-7)] by simp
qed

section \<open>Automatic channel selection\<close>

text \<open>The driver is asked at most six times; the answer is one of 14 channels, or 0.\<close>

definition asks :: "nat \<Rightarrow> 'a nl \<Rightarrow> bool" where
  "asks n m \<longleftrightarrow> (\<forall>s. length (nl_sent (snd (run_state m s))) \<le> length (nl_sent s) + n)"

lemma asks_bind: "asks n m \<Longrightarrow> (\<And>x. asks k (f x)) \<Longrightarrow> asks (n + k) (State_Monad.bind m f)"
proof -
  assume m: "asks n m" and f: "\<And>x. asks k (f x)"
  show ?thesis
    unfolding asks_def run_bind
  proof
    fix s
    let ?t = "snd (run_state m s)"
    have "length (nl_sent ?t) \<le> length (nl_sent s) + n" using m unfolding asks_def by blast
    moreover have "length (nl_sent (snd (run_state (f (fst (run_state m s))) ?t))) \<le> length (nl_sent ?t) + k" using f unfolding asks_def by blast
    ultimately show "length (nl_sent (snd (run_state (f (fst (run_state m s))) ?t))) \<le> length (nl_sent s) + (n + k)" by linarith
  qed
qed

lemma asks_none: "(\<And>s. nl_sent (snd (run_state m s)) = nl_sent s) \<Longrightarrow> asks n m"
  by (simp add: asks_def)

lemma asks_request: "asks 1 (request P r)"
  by (simp add: asks_def request_def Let_def)

lemma asks_testmode: "asks 2 (wpa_driver_nl80211_testmode P hdr n p out)"
proof -
  have b: "nl_sent (snd (run_state (do { _ \<leftarrow> bad; ret x }) s)) = nl_sent s" for x :: "int \<times> answer_buf" and s
    by (simp add: run_bind bad_def modify_def)
  have "asks (1 + (1 + 0)) (wpa_driver_nl80211_testmode P hdr n p out)"
    unfolding wpa_driver_nl80211_testmode_def Let_def
  proof (intro asks_bind asks_request, goal_cases)
    case (1 m)
    have t: "asks 0 (do { sent \<leftarrow> gets nl_sent;
        if index hdr AND BITS 0 23 = 0x10
        then (case out of Stat_buf st \<Rightarrow> ret (r, Stat_buf (fold testmode_sta_statistics_handler (stat_replies P sent) st))
          | _ \<Rightarrow> do { _ \<leftarrow> bad; ret (r, out) })
        else if index hdr AND BITS 0 23 = 0x30 \<and> CONFIG_MTK_LTE_COEX P
        then (case out of Chan_buf c \<Rightarrow> ret (r, Chan_buf (fold testmode_available_channel_handler (chan_replies P sent) c))
          | _ \<Rightarrow> do { _ \<leftarrow> bad; ret (r, out) })
        else ret (r, out) })" for r
      by (rule asks_none, cases out) (simp_all add: run_bind run_gets bad_def modify_def)
    have "asks (1 + 0) (do { r \<leftarrow> request P (Testmode hdr n p); sent \<leftarrow> gets nl_sent;
        if index hdr AND BITS 0 23 = 0x10
        then (case out of Stat_buf st \<Rightarrow> ret (r, Stat_buf (fold testmode_sta_statistics_handler (stat_replies P sent) st))
          | _ \<Rightarrow> do { _ \<leftarrow> bad; ret (r, out) })
        else if index hdr AND BITS 0 23 = 0x30 \<and> CONFIG_MTK_LTE_COEX P
        then (case out of Chan_buf c \<Rightarrow> ret (r, Chan_buf (fold testmode_available_channel_handler (chan_replies P sent) c))
          | _ \<Rightarrow> do { _ \<leftarrow> bad; ret (r, out) })
        else ret (r, out) })"
      by (rule asks_bind [OF asks_request t])
    then show ?case by (simp add: asks_def)
  qed
  then show ?thesis by (simp add: numeral_2_eq_2)
qed

lemma asks_channels: "asks 2 (wpa_driver_get_lte_available_channels P c)"
proof -
  have "asks (2 + 0) (wpa_driver_get_lte_available_channels P c)"
    unfolding wpa_driver_get_lte_available_channels_def
    by (intro asks_bind asks_testmode asks_none) (simp add: case_prod_unfold)
  then show ?thesis by simp
qed

lemma asks_acs: "asks (2 * n) (acs_wait P n)"
proof (induction n)
  case (Suc n)
  have "asks (2 + 2 * n) (acs_wait P (Suc n))"
    unfolding acs_wait.simps using Suc by (intro asks_bind asks_channels) (auto simp: asks_def case_prod_unfold)
  then show ?case by simp
qed (simp add: asks_def)

lemma acs_bounds:
  "asks 12 (wpa_driver_do_mtk_acs P)" "fst (run_state (wpa_driver_do_mtk_acs P) s) \<le> 14"
proof -
  have "asks (12 + 0) (wpa_driver_do_mtk_acs P)"
    unfolding wpa_driver_do_mtk_acs_def using asks_acs [of 6 P] by (intro asks_bind) (auto simp: asks_def Let_def split: option.split)
  then show "asks 12 (wpa_driver_do_mtk_acs P)" by simp
  have "(if ch = [] then 0 else hd ch) \<le> 14" if "set ch \<subseteq> {..14 :: nat}" for ch using that by (cases ch) auto
  moreover have "set (map Suc (filter Q [0..<14])) \<subseteq> {..14}" for Q by auto
  ultimately have "(let ch = map Suc (filter Q [0..<14]) in (if ch = [] then 0 else hd ch)) \<le> 14" for Q unfolding Let_def by blast
  then show "fst (run_state (wpa_driver_do_mtk_acs P) s) \<le> 14"
    unfolding wpa_driver_do_mtk_acs_def run_bind Let_def by (simp del: map_is_Nil_conv split: option.split)
qed

section \<open>Corners\<close>

lemma sends_ub: "nl_ub (snd (sends P i n params s)) = nl_ub s"
  by (simp add: sends_def Let_def)

text \<open>A longer command that no branch takes is read beyond the 100 bytes of the message.\<close>

lemma long_command_overreads:
  "\<not> ap_mode (supp s) \<Longrightarrow> 92 \<le> length r \<Longrightarrow> nl_ub (snd (run_state (handle_cmd P (CHR ''x'' # r)) s))"
proof -
  assume "92 \<le> length r"
  moreover have "handle_cmd P (CHR ''x'' # r) = do { _ \<leftarrow> cmd_transparent P (CHR ''x'' # r); ret (-1, Some (CHR ''x'' # r)) }"
    by (simp add: handle_cmd_def lower_code_def)
  ultimately show ?thesis by (simp add: cmd_transparent_def run_bind bad_def modify_def run_testmode sends_ub case_prod_unfold)
qed

text \<open>Without an address \<open>p2p_set_opps\<close> looks for a blank behind a null pointer.\<close>

lemma opps_without_address: "nl_ub (snd (run_state (p2p_ctrl_iface_set_opps P ''5'') s))"
  by (simp add: p2p_ctrl_iface_set_opps_def wpas_p2p_sigma_test_mode_def run_bind bad_def modify_def run_testmode sends_ub case_prod_unfold)

text \<open>With a \<open>long\<close> of 32 bits the words of the receive filter with their highest bit set all become 0x7fffffff.\<close>

lemma filter_saturates: "long_bits P = 32 \<Longrightarrow> 2 ^ 31 \<le> unat (w :: u32) \<Longrightarrow> filter_word P (show_HEX 8 (unat w)) 0 = 0x7fffffff"
proof -
  assume l: "long_bits P = 32" and w: "2 ^ 31 \<le> unat w"
  have r: "read_number 16 (show_HEX 8 (unat w)) = Some (False, unat w, [])"
    using read_digits(1) [of 16 "show_HEX 8 (unat w)" "[]"] show_HEX_digits [of 8 "unat w"] by simp
  have "(2 :: int) ^ 31 \<le> int (unat w)" using w by (metis of_nat_le_iff of_nat_numeral of_nat_power)
  moreover have "take 8 (drop 0 (show_HEX 8 (unat w))) = show_HEX 8 (unat w)" by simp
  ultimately show "filter_word P (show_HEX 8 (unat w)) 0 = 0x7fffffff"
    unfolding filter_word_def by (simp add: strtol_def r l max_def min_def del: drop_0 take_all_iff)
qed

text \<open>A frequency between two channels is taken for the lower one in the bands from 5260 MHz on.\<close>

lemma off_grid_accepted: "priv_p2p_freq_to_channel 5262 = Some (118, 52)" "priv_p2p_freq_to_channel 5182 = None"
  by (simp_all add: priv_p2p_freq_to_channel_def)

text \<open>An unknown frequency sets the operating class and channel to 0.\<close>

lemma unknown_freq_configured:
  "p2p s = Some q \<Longrightarrow> priv_p2p_freq_to_channel (unat f) = None \<Longrightarrow> f \<noteq> 0 \<Longrightarrow>
   map_option op_channel (p2p (snd (run_state (p2p_wfd_sink_config_scc P True f) s))) = Some 0"
  by (simp add: p2p_wfd_sink_config_scc_def run_bind run_gets modify_def)

text \<open>A command of 512 characters or more is passed on without a zero byte at its end.\<close>

lemma truncated_without_nul:
  "no_nul cmd \<Longrightarrow> 512 \<le> length cmd \<Longrightarrow> CHR 0x00 \<notin> set (zpad 512 (take (511 + 1) (cmd @ [CHR 0x00])))"
  using set_take_subset [of 512 cmd] by (auto simp: zpad_def no_nul_def)

text \<open>\<open>WLS_BATCHING\<close> returns the length of the buffer the code has just cleared: the driver's answer is not copied to it.\<close>

lemma batching_returns_nothing: "length (cstr (zeros n)) = 0"
  by (cases n) (simp_all add: zeros_def cstr_def)

text \<open>\<open>set_max_client\<close> fails whatever the driver answers.\<close>

lemma max_client_always_fails:
  "\<not> ap_mode (supp s) \<Longrightarrow> CONFIG_HOTSPOT_MGR_SUPPORT P \<Longrightarrow> fst (run_state (handle_cmd P (''set_max_client '' @ n)) s) = (-1, None)"
  by (simp add: handle_cmd_def lower_code_def run_done_with run_bind case_prod_unfold)

section \<open>Instances\<close>

text \<open>A driver that answers every request with 1 and a station with nothing but zeros; all options are on.\<close>

definition sample_wfd :: wfd_data where
  "sample_wfd = \<lparr>WfdCmdType = 0, WfdEnable = 1, WfdCoupleSinkStatus = 0, WfdSessionAvailable = 0, WfdSigmaMode = 0, WfdDevInfo = 0,
     WfdControlPort = 7236, WfdMaximumTp = 0, WfdExtendCap = 0, WfdCoupleSinkAddress = zeros 6, WfdAssociatedBssid = zeros 6,
     WfdVideoIp = zeros 4, WfdAudioIp = zeros 4, WfdVideoPort = 0, WfdAudioPort = 0, WfdFlag = 0, WfdPolicy = 0, WfdState = 0,
     WfdSessionInformationIE = zeros 192, WfdSessionInformationIELen = 0, WfdPrimarySinkMac = zeros 6,
     WfdSecondarySinkMac = zeros 6, WfdAdvancedFlag = 0, WfdLocalIp = zeros 4\<rparr>"

definition sample_wapi :: wapi_args where
  "sample_wapi = \<lparr>wapi_addr = None, wapi_key_idx = 0, wapi_set_tx = 0, wapi_seq = None, wapi_seq_len = 0, wapi_key_arg = None, wapi_key_len = 0\<rparr>"

definition sample_nl :: nl_plat where
  "sample_nl = \<lparr>nl_env = \<lambda>_ _. 1, stat_replies = \<lambda>_. [Some (\<lambda>a. Some (encode_attr no_statistics a))], chan_replies = \<lambda>_. [],
     nla_fits = \<lambda>_. True, hwaddr_aton = \<lambda>_. Some (zeros 6), os_random = \<lambda>_. 0, wapi_args_at = \<lambda>_. sample_wapi,
     wfd_data_at = \<lambda>_. sample_wfd, wapi_msg_len_at = \<lambda>_. 0, long_bits = 64, sizeof_ptr = 8, sizeof_wfd_data_s = 464,
     P2P_CONCURRENT = 1, MAX_DRV_CMD_SIZE = 248, DRV_NUMBER_SEQUENTIAL_ERRORS = 4, MTK_TC1_FEATURE = True,
     CONFIG_HOTSPOT_MGR_SUPPORT = True, CONFIG_MTK_LTE_COEX = True, CONFIG_WAPI_SUPPORT = True, CONFIG_MTK_WFD_SINK = True,
     CONFIG_MTK_P2P_SIGMA = True\<rparr>"

text \<open>A station on 2437 MHz (channel 6).\<close>

definition sample_sup :: nl_state where
  "sample_sup = \<lparr>
     supp = \<lparr>drv_null = False, ctx_null = False, conf_null = False, ap_mode = False, drv_priv = True, bss_ifname = ''wlan0'',
       first_ifname = ''wlan0'', associated = True, drv_bssid = zeros 6, own_addr = zeros 6, sup_ssid = None, sup_bssid = zeros 6,
       p2p_oper_reg_class = 0, p2p_oper_channel = 0,
       radio_ifs = [\<lparr>current_ssid = Some \<lparr>mode = WPAS_MODE_INFRA, frequency = 2437, p2p_group = False\<rparr>, assoc_freq = 2437, bssid_known = True\<rparr>]\<rparr>,
     p2p = Some \<lparr>dev_capab = 0, op_reg_class = 0, op_channel = 0, p2p_chans = [], cfg_op_channel = 0, cfg_channels = [],
       concurrent_operations = 0, p2p_devices = []\<rparr>,
     ifaces = [], nl_sent = [], drv_errors = 0, reply = zeros 4096, nl_ub = False\<rparr>"

lemma sample_sup_facts: "ready sample_sup" "reply sample_sup \<noteq> []" "length (reply sample_sup) = 4096"
  "used_freqs (radio_ifs (supp sample_sup)) = [2437]" "nl_sent sample_sup = []"
  by (simp_all add: sample_sup_def ready_def zeros_def used_freqs_def map_filter_simps if_freq_def)

lemma sample_nl_facts: "nl_env sample_nl es r = 1" "long_bits sample_nl = 64" "nla_fits sample_nl n" "MAX_DRV_CMD_SIZE sample_nl = 248"
  "hwaddr_aton sample_nl a = Some (zeros 6)" "stat_replies sample_nl es = [Some (\<lambda>a. Some (encode_attr no_statistics a))]"
  "CONFIG_MTK_WFD_SINK sample_nl" "wapi_args_at sample_nl b = sample_wapi" "wfd_data_at sample_nl b = sample_wfd"
  by (simp_all add: sample_nl_def)

theorem p2p_settings_reach_driver_witness:
  "\<exists>b. run_state (wpa_driver_set_p2p_noa sample_nl 255 100 (-3)) sample_sup =
    sends sample_nl 1 28 (P2p_noa 4 0 (ucast (255 :: u8)) (word_of_int 100) (word_of_int (-3))) (sample_sup\<lparr>reply := b\<rparr>)"
  using p2p_settings_reach_driver [of sample_sup sample_nl 100 "-3" 0 0 0 255] sample_sup_facts(1)
  by (simp add: sample_nl_facts int32_def)

theorem driver_cmd_in_bounds_witness:
  "nl_ub (snd (run_state (wpa_driver_nl80211_driver_cmd sample_nl ''MTK-ACS'') sample_sup)) = False"
proof -
  have "in_bounds sample_nl ''MTK-ACS''"
    by (simp add: in_bounds_def no_nul_def sample_nl_facts sample_wapi_def sample_wfd_def is_sep_def)
  then show ?thesis
    using driver_cmd_in_bounds [OF sample_sup_facts(1,2), of sample_nl "''MTK-ACS''"] by (simp add: Let_def sample_sup_def)
qed

lemma sendable_none: "sendable no_statistics"
  by (simp add: sendable_def no_statistics_def zeros_def)

theorem statistics_reported_witness:
  "fst (run_state (wpa_driver_nl80211_driver_cmd sample_nl (''GET_STA_STATISTICS '' @ ''02:00:00:00:00:01'')) sample_sup) =
    int (length (report no_statistics))"
proof -
  have fits: "length (report no_statistics) < 4096" using length_report [OF sendable_none] by simp
  let ?m = "run_state (wpa_driver_nl80211_driver_cmd sample_nl (''GET_STA_STATISTICS '' @ ''02:00:00:00:00:01'')) sample_sup"
  have "if length (report no_statistics) < length (reply sample_sup)
    then fst ?m = int (length (report no_statistics)) \<and> take (length (report no_statistics) + 1) (reply (snd ?m)) = report no_statistics @ [CHR 0x00] \<and>
      nl_sent (snd ?m) = [(Nlmsg_alloc, 1)] @ [(stat_request sample_nl sample_sup (zeros 6), 1)]
    else fst ?m = 0"
    by (rule statistics_reported [where a = "''02:00:00:00:00:01''" and x = 1 and r = 1 and P = sample_nl and m = "zeros 6"])
       (simp_all add: sample_sup_facts sample_nl_facts sendable_none del: append.simps)
  then show ?thesis unfolding sample_sup_facts(3) if_P [OF fits] by blast
qed

theorem rx_filter_reaches_driver_witness:
  "run_state (wpa_driver_nl80211_driver_cmd sample_nl (filter_cmd [0, 0xFE, 0, 0, 0, 0])) sample_sup =
    sends sample_nl 103 32 (Rx_filter 0 0xFE 0 0 0 0) sample_sup"
  using rx_filter_reaches_driver [OF sample_sup_facts(1), of "[0, 0xFE, 0, 0, 0, 0]" sample_nl] by (simp add: sample_nl_facts)

theorem freq_to_channel_round_trip_witness:
  "priv_p2p_freq_to_channel 2437 = Some (81, 6) \<and> standard 81 6"
  using freq_to_channel_round_trip [of 81 6 2437 81 6] by (simp add: channel_freq_def standard_def)

theorem shared_freqs_first_witness:
  "fst (run_state (mtk_get_shared_radio_freqs sample_nl 1) sample_sup) = (1, [2437])"
  using shared_freqs_first [of sample_nl sample_sup 1] by (auto simp: sample_nl_facts sample_sup_facts firsts_def)

theorem group_follows_station_witness:
  "map_option op_channel (p2p (snd (run_state (wpa_driver_nl80211_driver_cmd sample_nl ''p2p_use_mcc=0'') sample_sup))) = Some 6"
proof -
  have "priv_p2p_freq_to_channel (nat 2437) = Some (81, 6)" by (simp add: priv_p2p_freq_to_channel_def)
  moreover obtain q where "p2p sample_sup = Some q" by (simp add: sample_sup_def)
  ultimately show ?thesis
    using group_follows_station [OF sample_sup_facts(1), of sample_nl 2437 "[]" q 81 6] by (auto simp: sample_nl_facts sample_sup_facts)
qed

end
