(* ===== verification/RilEvent.thy ===== *)
theory RilEvent
  imports Prelude "HOL-Library.Monad_Syntax"
begin

text \<open>
  The event loop of the radio interface layer (\<open>src/ril/libril/ril_event.cpp\<close>): up to eight watched
  descriptors, a list of timers sorted by their timeouts and a list of events that are due.  The two
  lists are circular and doubly linked through the events themselves, so the model keeps a store from
  addresses to \<open>struct ril_event\<close> and every assignment through a pointer is an update of the store.
  \<open>None\<close> stands for undefined behaviour: a pointer that leads to no event, a descriptor outside of
  \<open>fd_set\<close>, a callback that is \<open>NULL\<close>, and for a lock that is never obtained.  Loops over the
  lists are \<open>partial_function\<close>s, so a list that is not closed gives \<open>None\<close> as well.
\<close>

section \<open>Times\<close>

datatype timeval = Timeval (tv_sec: int) (tv_usec: int)

definition timeradd :: "timeval \<Rightarrow> timeval \<Rightarrow> timeval" where
  "timeradd t u =
     (let sec = tv_sec t + tv_sec u; usec = tv_usec t + tv_usec u
      in if usec \<ge> 1000000 then Timeval (sec + 1) (usec - 1000000) else Timeval sec usec)"

definition timersub :: "timeval \<Rightarrow> timeval \<Rightarrow> timeval" where
  "timersub t u =
     (let sec = tv_sec t - tv_sec u; usec = tv_usec t - tv_usec u
      in if usec < 0 then Timeval (sec - 1) (usec + 1000000) else Timeval sec usec)"

text \<open>\<open>timercmp(a, b, <)\<close> is the order of the type; \<open>timercmp(a, b, >)\<close> is \<open>b < a\<close>.\<close>

definition timercmp_less :: "timeval \<Rightarrow> timeval \<Rightarrow> bool" where
  "timercmp_less a b = (if tv_sec a = tv_sec b then tv_usec a < tv_usec b else tv_sec a < tv_sec b)"

instantiation timeval :: linorder
begin

definition less_timeval :: "timeval \<Rightarrow> timeval \<Rightarrow> bool" where
  "less_timeval a b = timercmp_less a b"

definition less_eq_timeval :: "timeval \<Rightarrow> timeval \<Rightarrow> bool" where
  "less_eq_timeval a b = (a = b \<or> timercmp_less a b)"

instance
  by standard
    (auto simp: less_timeval_def less_eq_timeval_def timercmp_less_def timeval.expand
       split: if_splits)

end

section \<open>The state\<close>

type_synonym ptr = nat

abbreviation NULL :: ptr where
  "NULL \<equiv> 0"

record ril_event =
  ev_next :: ptr
  ev_prev :: ptr
  ev_fd :: int
  ev_index :: int
  ev_persist :: bool
  ev_timeout :: timeval
  ev_func :: nat
  ev_param :: nat

text \<open>What the library asks of the system, and the callbacks it runs.\<close>

datatype ril_trace =
    Fcntl int
  | Select int "int set" "timeval option"
  | Fire nat int nat

record rilst =
  mem :: "ptr \<Rightarrow> ril_event option"
  readFds :: "int set"
  nfds :: int
  watch_table :: "ptr list"
  locked :: bool
  clock :: "nat \<Rightarrow> int \<times> int"
  clock_reads :: nat
  ril_trace :: "ril_trace list"

definition MAX_FD_EVENTS :: nat where
  "MAX_FD_EVENTS = 8"

definition FD_SETSIZE :: int where
  "FD_SETSIZE = 1024"

text \<open>The static list heads \<open>timer_list\<close> and \<open>pending_list\<close>.\<close>

definition timer_list :: ptr where
  "timer_list = 1"

definition pending_list :: ptr where
  "pending_list = 2"

section \<open>Primitives\<close>

definition load :: "ptr \<Rightarrow> 'a rilst_scheme \<Rightarrow> ril_event option" where
  "load p s = mem s p"

definition store_ev :: "ptr \<Rightarrow> (ril_event \<Rightarrow> ril_event) \<Rightarrow> 'a rilst_scheme \<Rightarrow> 'a rilst_scheme option" where
  "store_ev p f s = (case mem s p of None \<Rightarrow> None | Some e \<Rightarrow> Some (s\<lparr>mem := (mem s)(p \<mapsto> f e)\<rparr>))"

definition guard_c :: "bool \<Rightarrow> unit option" where
  "guard_c b = (if b then Some () else None)"

definition mutex_acquire :: "'a rilst_scheme \<Rightarrow> 'a rilst_scheme option" where
  "mutex_acquire s = (if locked s then None else Some (s\<lparr>locked := True\<rparr>))"

definition mutex_release :: "'a rilst_scheme \<Rightarrow> 'a rilst_scheme" where
  "mutex_release s = s\<lparr>locked := False\<rparr>"

definition fd_ok :: "int \<Rightarrow> bool" where
  "fd_ok fd \<longleftrightarrow> 0 \<le> fd \<and> fd < FD_SETSIZE"

definition FD_SET :: "int \<Rightarrow> 'a rilst_scheme \<Rightarrow> 'a rilst_scheme option" where
  "FD_SET fd s = (if fd_ok fd then Some (s\<lparr>readFds := insert fd (readFds s)\<rparr>) else None)"

definition FD_CLR :: "int \<Rightarrow> 'a rilst_scheme \<Rightarrow> 'a rilst_scheme option" where
  "FD_CLR fd s = (if fd_ok fd then Some (s\<lparr>readFds := readFds s - {fd}\<rparr>) else None)"

definition FD_ISSET :: "int \<Rightarrow> int set \<Rightarrow> bool option" where
  "FD_ISSET fd fds = (if fd_ok fd then Some (fd \<in> fds) else None)"

definition getNow :: "'a rilst_scheme \<Rightarrow> timeval \<times> 'a rilst_scheme" where
  "getNow s = (case clock s (clock_reads s) of (sec, nsec) \<Rightarrow>
     (Timeval sec (nsec div 1000), s\<lparr>clock_reads := Suc (clock_reads s)\<rparr>))"

definition emit :: "ril_trace \<Rightarrow> 'a rilst_scheme \<Rightarrow> 'a rilst_scheme" where
  "emit t s = s\<lparr>ril_trace := ril_trace s @ [t]\<rparr>"

section \<open>Lists\<close>

definition blank_event :: ril_event where
  "blank_event = \<lparr>ev_next = NULL, ev_prev = NULL, ev_fd = 0, ev_index = 0, ev_persist = False,
     ev_timeout = Timeval 0 0, ev_func = 0, ev_param = 0\<rparr>"

definition init_list :: "ptr \<Rightarrow> 'a rilst_scheme \<Rightarrow> 'a rilst_scheme option" where
  "init_list list s = do {
     s \<leftarrow> store_ev list (\<lambda>_. blank_event) s;
     s \<leftarrow> store_ev list (\<lambda>e. e\<lparr>ev_next := list\<rparr>) s;
     s \<leftarrow> store_ev list (\<lambda>e. e\<lparr>ev_prev := list\<rparr>) s;
     store_ev list (\<lambda>e. e\<lparr>ev_fd := -1\<rparr>) s }"

definition addToList :: "ptr \<Rightarrow> ptr \<Rightarrow> 'a rilst_scheme \<Rightarrow> 'a rilst_scheme option" where
  "addToList ev list s = do {
     s \<leftarrow> store_ev ev (\<lambda>e. e\<lparr>ev_next := list\<rparr>) s;
     l \<leftarrow> load list s;
     s \<leftarrow> store_ev ev (\<lambda>e. e\<lparr>ev_prev := ev_prev l\<rparr>) s;
     e \<leftarrow> load ev s;
     s \<leftarrow> store_ev (ev_prev e) (\<lambda>p. p\<lparr>ev_next := ev\<rparr>) s;
     store_ev list (\<lambda>l. l\<lparr>ev_prev := ev\<rparr>) s }"

definition removeFromList :: "ptr \<Rightarrow> 'a rilst_scheme \<Rightarrow> 'a rilst_scheme option" where
  "removeFromList ev s = do {
     e \<leftarrow> load ev s;
     s \<leftarrow> store_ev (ev_next e) (\<lambda>n. n\<lparr>ev_prev := ev_prev e\<rparr>) s;
     e \<leftarrow> load ev s;
     s \<leftarrow> store_ev (ev_prev e) (\<lambda>p. p\<lparr>ev_next := ev_next e\<rparr>) s;
     s \<leftarrow> store_ev ev (\<lambda>e. e\<lparr>ev_next := NULL\<rparr>) s;
     store_ev ev (\<lambda>e. e\<lparr>ev_prev := NULL\<rparr>) s }"

section \<open>Watched descriptors\<close>

text \<open>The loop of \<open>removeWatch\<close> over the table: the largest descriptor left, at least 0.\<close>

fun largest_fd :: "ptr list \<Rightarrow> int \<Rightarrow> 'a rilst_scheme \<Rightarrow> int option" where
  "largest_fd [] n s = Some n"
| "largest_fd (ev # t) n s =
     (if ev \<noteq> NULL
      then do { e \<leftarrow> load ev s; largest_fd t (if ev_fd e > n then ev_fd e else n) s }
      else largest_fd t n s)"

definition removeWatch :: "ptr \<Rightarrow> int \<Rightarrow> 'a rilst_scheme \<Rightarrow> 'a rilst_scheme option" where
  "removeWatch ev index s = do {
     _ \<leftarrow> guard_c (0 \<le> index \<and> index < int (length (watch_table s)));
     s \<leftarrow> Some (s\<lparr>watch_table := (watch_table s)[nat index := NULL]\<rparr>);
     s \<leftarrow> store_ev ev (\<lambda>e. e\<lparr>ev_index := -1\<rparr>) s;
     e \<leftarrow> load ev s;
     s \<leftarrow> FD_CLR (ev_fd e) s;
     if ev_fd e + 1 = nfds s
     then do { n \<leftarrow> largest_fd (watch_table s) 0 s; Some (s\<lparr>nfds := n + 1\<rparr>) }
     else Some s }"

text \<open>The loop of \<open>ril_event_add\<close>: the first free entry of the table, from \<open>i\<close> on.\<close>

fun free_entry :: "ptr list \<Rightarrow> nat \<Rightarrow> nat option" where
  "free_entry [] i = None"
| "free_entry (p # t) i = (if p = NULL then Some i else free_entry t (Suc i))"

definition ril_event_add :: "ptr \<Rightarrow> 'a rilst_scheme \<Rightarrow> 'a rilst_scheme option" where
  "ril_event_add ev s = do {
     s \<leftarrow> mutex_acquire s;
     s \<leftarrow> (case free_entry (watch_table s) 0 of
            None \<Rightarrow> Some s
          | Some i \<Rightarrow> do {
              s \<leftarrow> Some (s\<lparr>watch_table := (watch_table s)[i := ev]\<rparr>);
              s \<leftarrow> store_ev ev (\<lambda>e. e\<lparr>ev_index := int i\<rparr>) s;
              e \<leftarrow> load ev s;
              s \<leftarrow> FD_SET (ev_fd e) s;
              Some (if ev_fd e \<ge> nfds s then s\<lparr>nfds := ev_fd e + 1\<rparr> else s) });
     Some (mutex_release s) }"

definition ril_event_del :: "ptr \<Rightarrow> 'a rilst_scheme \<Rightarrow> 'a rilst_scheme option" where
  "ril_event_del ev s = do {
     s \<leftarrow> mutex_acquire s;
     e \<leftarrow> load ev s;
     if ev_index e < 0 \<or> ev_index e \<ge> int MAX_FD_EVENTS
     then Some (mutex_release s)
     else do {
       s \<leftarrow> removeWatch ev (ev_index e) s;
       Some (mutex_release s) } }"

definition ril_event_set ::
  "ptr \<Rightarrow> int \<Rightarrow> bool \<Rightarrow> nat \<Rightarrow> nat \<Rightarrow> 'a rilst_scheme \<Rightarrow> 'a rilst_scheme option" where
  "ril_event_set ev fd persist func param s = do {
     s \<leftarrow> store_ev ev (\<lambda>_. blank_event) s;
     s \<leftarrow> store_ev ev (\<lambda>e. e\<lparr>ev_fd := fd\<rparr>) s;
     s \<leftarrow> store_ev ev (\<lambda>e. e\<lparr>ev_index := -1\<rparr>) s;
     s \<leftarrow> store_ev ev (\<lambda>e. e\<lparr>ev_persist := persist\<rparr>) s;
     s \<leftarrow> store_ev ev (\<lambda>e. e\<lparr>ev_func := func\<rparr>) s;
     s \<leftarrow> store_ev ev (\<lambda>e. e\<lparr>ev_param := param\<rparr>) s;
     Some (emit (Fcntl fd) s) }"

definition ril_event_init :: "'a rilst_scheme \<Rightarrow> 'a rilst_scheme option" where
  "ril_event_init s = do {
     s \<leftarrow> Some (s\<lparr>locked := False, readFds := {}\<rparr>);
     s \<leftarrow> init_list timer_list s;
     s \<leftarrow> init_list pending_list s;
     Some (s\<lparr>watch_table := replicate MAX_FD_EVENTS NULL\<rparr>) }"

section \<open>Timers\<close>

text \<open>
  The loop of \<open>ril_timer_add\<close>: it looks at the timeout of an entry before it asks whether the entry
  is the head of the list.
\<close>

partial_function (option) later_timer ::
  "ptr \<Rightarrow> timeval \<Rightarrow> 'a rilst_scheme \<Rightarrow> ptr option" where
  "later_timer list t s = do {
     l \<leftarrow> load list s;
     if ev_timeout l < t \<and> list \<noteq> timer_list then later_timer (ev_next l) t s
     else Some list }"

definition ril_timer_add ::
  "ptr \<Rightarrow> timeval option \<Rightarrow> 'a rilst_scheme \<Rightarrow> 'a rilst_scheme option" where
  "ril_timer_add ev tv s = do {
     s \<leftarrow> mutex_acquire s;
     s \<leftarrow> (case tv of
            None \<Rightarrow> Some s
          | Some tv \<Rightarrow> do {
              h \<leftarrow> load timer_list s;
              let list = ev_next h;
              s \<leftarrow> store_ev ev (\<lambda>e. e\<lparr>ev_fd := -1\<rparr>) s;
              let (now, s) = getNow s;
              s \<leftarrow> store_ev ev (\<lambda>e. e\<lparr>ev_timeout := timeradd now tv\<rparr>) s;
              e \<leftarrow> load ev s;
              list \<leftarrow> later_timer list (ev_timeout e) s;
              addToList ev list s });
     Some (mutex_release s) }"

text \<open>The loop of \<open>processTimeouts\<close>: the expired timers become pending.\<close>

partial_function (option) expire_timers ::
  "ptr \<Rightarrow> timeval \<Rightarrow> 'a rilst_scheme \<Rightarrow> 'a rilst_scheme option" where
  "expire_timers tev now s =
     (if tev = timer_list then Some s
      else do {
        e \<leftarrow> load tev s;
        if ev_timeout e < now
        then do {
          s \<leftarrow> removeFromList tev s;
          s \<leftarrow> addToList tev pending_list s;
          expire_timers (ev_next e) now s }
        else Some s })"

definition processTimeouts :: "'a rilst_scheme \<Rightarrow> 'a rilst_scheme option" where
  "processTimeouts s = do {
     s \<leftarrow> mutex_acquire s;
     h \<leftarrow> load timer_list s;
     let (now, s) = getNow s;
     s \<leftarrow> expire_timers (ev_next h) now s;
     Some (mutex_release s) }"

definition calcNextTimeout :: "'a rilst_scheme \<Rightarrow> (timeval option \<times> 'a rilst_scheme) option" where
  "calcNextTimeout s = do {
     h \<leftarrow> load timer_list s;
     let tev = ev_next h;
     let (now, s) = getNow s;
     if tev = timer_list then Some (None, s)
     else do {
       e \<leftarrow> load tev s;
       Some (Some (if now < ev_timeout e then timersub (ev_timeout e) now else Timeval 0 0), s) } }"

section \<open>Events that are due\<close>

text \<open>The loop of \<open>processReadReadies\<close> from entry \<open>i\<close> of the table on, \<open>k\<close> entries left.\<close>

fun ready_entries :: "nat \<Rightarrow> nat \<Rightarrow> int set \<Rightarrow> int \<Rightarrow> 'a rilst_scheme \<Rightarrow> 'a rilst_scheme option" where
  "ready_entries 0 i rfds n s = Some s"
| "ready_entries (Suc k) i rfds n s =
     (if n > 0
      then (if watch_table s ! i \<noteq> NULL
            then do {
              e \<leftarrow> load (watch_table s ! i) s;
              ready \<leftarrow> FD_ISSET (ev_fd e) rfds;
              if ready
              then do {
                let ev = watch_table s ! i;
                s \<leftarrow> addToList ev pending_list s;
                s \<leftarrow> (if \<not> ev_persist e then removeWatch ev (int i) s else Some s);
                ready_entries k (Suc i) rfds (n - 1) s }
              else ready_entries k (Suc i) rfds n s }
            else ready_entries k (Suc i) rfds n s)
      else Some s)"

definition processReadReadies :: "int set \<Rightarrow> int \<Rightarrow> 'a rilst_scheme \<Rightarrow> 'a rilst_scheme option" where
  "processReadReadies rfds n s = do {
     s \<leftarrow> mutex_acquire s;
     s \<leftarrow> ready_entries MAX_FD_EVENTS 0 rfds n s;
     Some (mutex_release s) }"

text \<open>
  A callback is code of the user: a function of its address, the descriptor and its parameter that
  changes the state (it may call the operations above).
\<close>

type_synonym 'a callback = "nat \<Rightarrow> int \<Rightarrow> nat \<Rightarrow> 'a rilst_scheme \<Rightarrow> 'a rilst_scheme option"

partial_function (option) fire_events ::
  "'a callback \<Rightarrow> ptr \<Rightarrow> 'a rilst_scheme \<Rightarrow> 'a rilst_scheme option" where
  "fire_events cb ev s =
     (if ev = pending_list then Some s
      else do {
        e \<leftarrow> load ev s;
        s \<leftarrow> removeFromList ev s;
        s \<leftarrow> cb (ev_func e) (ev_fd e) (ev_param e) (emit (Fire (ev_func e) (ev_fd e) (ev_param e)) s);
        fire_events cb (ev_next e) s })"

definition firePending :: "'a callback \<Rightarrow> 'a rilst_scheme \<Rightarrow> 'a rilst_scheme option" where
  "firePending cb s = do {
     h \<leftarrow> load pending_list s;
     fire_events cb (ev_next h) s }"

section \<open>The loop\<close>

text \<open>
  An answer of \<open>select\<close>: its result, \<open>errno\<close> and the set it leaves.  The loop runs over the answers
  it gets; it returns only when \<open>select\<close> fails for a reason other than a signal.
\<close>

record select_answer =
  sel_n :: int
  sel_errno :: nat
  sel_fds :: "int set"

definition EINTR :: nat where
  "EINTR = 4"

definition serve :: "'a callback \<Rightarrow> select_answer \<Rightarrow> 'a rilst_scheme \<Rightarrow> 'a rilst_scheme option" where
  "serve cb a s = do {
     s \<leftarrow> processTimeouts s;
     s \<leftarrow> processReadReadies (sel_fds a) (sel_n a) s;
     firePending cb s }"

definition ask_select :: "'a rilst_scheme \<Rightarrow> 'a rilst_scheme option" where
  "ask_select s = do {
     let rfds = readFds s;
     (ptv, s) \<leftarrow> calcNextTimeout s;
     Some (emit (Select (nfds s) rfds ptv) s) }"

text \<open>
  While the loop waits in \<open>select\<close> other threads may use the library: \<open>meanwhile c\<close> is what they do,
  as described by \<open>c\<close>.  The flag of the result tells whether the loop has returned.
\<close>

fun ril_event_loop ::
  "'a callback \<Rightarrow> ('b \<Rightarrow> 'a rilst_scheme \<Rightarrow> 'a rilst_scheme option) \<Rightarrow> ('b \<times> select_answer) list \<Rightarrow>
   'a rilst_scheme \<Rightarrow> (bool \<times> 'a rilst_scheme) option" where
  "ril_event_loop cb meanwhile [] s = Some (False, s)"
| "ril_event_loop cb meanwhile ((c, a) # as) s = do {
     s \<leftarrow> ask_select s;
     s \<leftarrow> meanwhile c s;
     if sel_n a < 0
     then (if sel_errno a = EINTR then ril_event_loop cb meanwhile as s else Some (True, s))
     else do {
       s \<leftarrow> serve cb a s;
       ril_event_loop cb meanwhile as s } }"

end
