(* ===== verification/DList.thy ===== *)
theory DList
  imports Main
begin

text \<open>
  Doubly linked lists in a store, given by the two link functions \<open>n\<close> (next) and \<open>p\<close> (previous).
  \<open>seg n p a xs b\<close>: from \<open>a\<close> the links lead through \<open>xs\<close> to \<open>b\<close> and back.  A list with a head \<open>h\<close>
  is the segment from \<open>h\<close> to \<open>h\<close>.
\<close>

fun seg :: "('p \<Rightarrow> 'p) \<Rightarrow> ('p \<Rightarrow> 'p) \<Rightarrow> 'p \<Rightarrow> 'p list \<Rightarrow> 'p \<Rightarrow> bool" where
  "seg n p a [] b = (n a = b \<and> p b = a)"
| "seg n p a (x # xs) b = (n a = x \<and> p x = a \<and> seg n p x xs b)"

named_theorems seg_simps "links of the nodes of a segment"

lemma seg_append [seg_simps]:
  "seg n p a (xs @ y # ys) b \<longleftrightarrow> seg n p a xs y \<and> seg n p y ys b"
  by (induction xs arbitrary: a) auto

lemma seg_cong:
  assumes "\<forall>x \<in> set (a # xs). n' x = n x" and "\<forall>x \<in> set (xs @ [b]). p' x = p x"
  shows "seg n' p' a xs b = seg n p a xs b"
  using assms by (induction xs arbitrary: a) auto

lemma seg_first: "seg n p a xs b \<Longrightarrow> n a = hd (xs @ [b])"
  by (cases xs) auto

lemma seg_last: "seg n p a xs b \<Longrightarrow> p b = last (a # xs)"
  by (induction xs arbitrary: a) auto

text \<open>Around a node inside of a segment.\<close>

lemma seg_next: "seg n p a (xs @ y # ys) b \<Longrightarrow> n y = hd (ys @ [b])"
  using seg_first [of n p y ys b] by (simp add: seg_append)

lemma seg_prev: "seg n p a (xs @ y # ys) b \<Longrightarrow> p y = last (a # xs)"
  using seg_last [of n p a xs y] by (simp add: seg_append)

text \<open>
  Insertion of \<open>e\<close> between \<open>l\<close>, the last node before the gap, and \<open>r\<close>, the first one after it: it
  is enough to know the links of the nodes concerned.
\<close>

lemma seg_insert_first:
  assumes "seg n p a ys b" and "n' a = e" "p' e = a" "n' e = hd (ys @ [b])" "p' (hd (ys @ [b])) = e"
    and "\<forall>x \<in> set ys. n' x = n x" and "\<forall>x \<in> set (tl (ys @ [b])). p' x = p x"
  shows "seg n' p' a (e # ys) b"
proof (cases ys)
  case Nil
  then show ?thesis using assms by simp
next
  case (Cons y zs)
  then have "seg n' p' y zs b = seg n p y zs b"
    by (intro seg_cong) (use assms in auto)
  then show ?thesis using assms Cons by simp
qed

lemma seg_insert:
  assumes "seg n p a (xs @ ys) b" and "distinct (a # xs @ ys)" and "b \<notin> set (xs @ ys)"
    and "l = last (a # xs)" and "r = hd (ys @ [b])"
    and "n' l = e" "p' e = l" "n' e = r" "p' r = e"
    and "\<forall>x \<in> set (a # xs @ ys). x \<noteq> l \<longrightarrow> n' x = n x"
    and "\<forall>x \<in> set (xs @ ys @ [b]). x \<noteq> r \<longrightarrow> p' x = p x"
  shows "seg n' p' a (xs @ e # ys) b"
  using assms
proof (induction xs arbitrary: a)
  case Nil
  then have "\<forall>x \<in> set (tl (ys @ [b])). x \<noteq> r" by (cases ys) auto
  moreover have "\<forall>x \<in> set (tl (ys @ [b])). x \<in> set (ys @ [b])" by (cases ys) auto
  ultimately have "seg n' p' a (e # ys) b"
    using Nil.prems by (intro seg_insert_first [of n p]) auto
  then show ?case by simp
next
  case (Cons x xs)
  have r: "r \<in> set (ys @ [b])" using Cons.prems by (cases ys) auto
  have seg: "seg n p x (xs @ ys) b" and dis: "distinct (x # xs @ ys)" and b: "b \<notin> set (xs @ ys)"
    using Cons.prems(1,2,3) by simp_all
  have l: "l = last (x # xs)" using Cons.prems(4) by simp
  have nx: "\<forall>y \<in> set (x # xs @ ys). y \<noteq> l \<longrightarrow> n' y = n y"
    and px: "\<forall>y \<in> set (xs @ ys @ [b]). y \<noteq> r \<longrightarrow> p' y = p y"
    using Cons.prems(10,11) by simp_all
  have "seg n' p' x (xs @ e # ys) b"
    by (rule Cons.IH [OF seg dis b l Cons.prems(5)]) (fact Cons.prems nx px)+
  moreover have "a \<noteq> l" using Cons.prems(2) l last_in_set [of "x # xs"] by auto
  moreover have "x \<noteq> r" using Cons.prems(2,3) r by auto
  ultimately show ?case using Cons.prems(1) nx px Cons.prems(10,11) by simp
qed

lemma seg_remove:
  assumes "seg n p a (xs @ e # ys) b" and "distinct (a # xs @ e # ys)"
    and "b \<notin> set (xs @ e # ys)" and "l = last (a # xs)" and "r = hd (ys @ [b])"
    and "n' l = r" "p' r = l"
    and "\<forall>x \<in> set (a # xs @ ys). x \<noteq> l \<longrightarrow> n' x = n x"
    and "\<forall>x \<in> set (xs @ ys @ [b]). x \<noteq> r \<longrightarrow> p' x = p x"
  shows "seg n' p' a (xs @ ys) b"
  using assms
proof (induction xs arbitrary: a)
  case Nil
  then have s: "seg n p e ys b" by simp
  show ?case
  proof (cases ys)
    case Nil
    then show ?thesis using Nil.prems by simp
  next
    case (Cons y zs)
    then have "seg n' p' y zs b = seg n p y zs b"
      by (intro seg_cong) (use Nil.prems in auto)
    then show ?thesis using Nil.prems Cons s by simp
  qed
next
  case (Cons x xs)
  have r: "r \<in> set (ys @ [b])" using Cons.prems by (cases ys) auto
  have seg: "seg n p x (xs @ e # ys) b" and dis: "distinct (x # xs @ e # ys)" and b: "b \<notin> set (xs @ e # ys)"
    using Cons.prems(1,2,3) by simp_all
  have l: "l = last (x # xs)" using Cons.prems(4) by simp
  have nx: "\<forall>y \<in> set (x # xs @ ys). y \<noteq> l \<longrightarrow> n' y = n y"
    and px: "\<forall>y \<in> set (xs @ ys @ [b]). y \<noteq> r \<longrightarrow> p' y = p y"
    using Cons.prems(8,9) by simp_all
  have "seg n' p' x (xs @ ys) b"
    by (rule Cons.IH [OF seg dis b l Cons.prems(5)]) (fact Cons.prems nx px)+
  moreover have "a \<noteq> l" using Cons.prems(2) l last_in_set [of "x # xs"] by auto
  moreover have "x \<noteq> r" using Cons.prems(2,3) r by auto
  ultimately show ?case using Cons.prems(1) nx px Cons.prems(8,9) by simp
qed

text \<open>A circular list with a head.\<close>

definition ring :: "('p \<Rightarrow> 'p) \<Rightarrow> ('p \<Rightarrow> 'p) \<Rightarrow> 'p \<Rightarrow> 'p list \<Rightarrow> bool" where
  "ring n p h xs \<longleftrightarrow> distinct (h # xs) \<and> seg n p h xs h"

lemma ring_frame:
  "ring n p h xs \<Longrightarrow> \<forall>x \<in> set (h # xs). n' x = n x \<and> p' x = p x \<Longrightarrow> ring n' p' h xs"
  unfolding ring_def by (subst seg_cong) auto

lemma ring_insert:
  assumes "ring n p h (xs @ ys)" and "e \<notin> set (h # xs @ ys)"
    and "l = last (h # xs)" and "r = hd (ys @ [h])"
  shows "ring (n(e := r, l := e)) (p(e := l, r := e)) h (xs @ e # ys)"
proof -
  have "l \<in> set (h # xs)" using assms(3) last_in_set [of "h # xs"] by simp
  moreover have "r \<in> set (ys @ [h])" using assms(4) by (cases ys) auto
  ultimately have "e \<noteq> l" "e \<noteq> r" using assms(2) by auto
  then have "seg (n(e := r, l := e)) (p(e := l, r := e)) h (xs @ e # ys) h"
    using assms by (intro seg_insert [where l = l and r = r and n = n and p = p])
      (auto simp: ring_def)
  then show ?thesis using assms(1,2) by (auto simp: ring_def)
qed

lemma ring_remove:
  assumes "ring n p h (xs @ e # ys)" and "l = last (h # xs)" and "r = hd (ys @ [h])"
  shows "ring (n(l := r, e := z)) (p(r := l, e := z)) h (xs @ ys)"
proof -
  have d: "distinct (h # xs @ e # ys)" using assms(1) by (simp add: ring_def)
  have "l \<in> set (h # xs)" using assms(2) last_in_set [of "h # xs"] by simp
  moreover have "r \<in> set (ys @ [h])" using assms(3) by (cases ys) auto
  ultimately have ne: "e \<noteq> l" "e \<noteq> r" using d by auto
  moreover have "seg n p h (xs @ e # ys) h" using assms(1) by (simp add: ring_def)
  moreover have "h \<notin> set (xs @ e # ys)" using d by simp
  moreover have "e \<notin> set (h # xs @ ys)" using d by auto
  ultimately have "seg (n(l := r, e := z)) (p(r := l, e := z)) h (xs @ ys) h"
    using d ne
    by (intro seg_remove [where n = n and p = p and e = e, OF _ _ _ assms(2,3)]) auto
  then show ?thesis using d by (auto simp: ring_def)
qed

lemma ring_next: "ring n p h (xs @ y # ys) \<Longrightarrow> n y = hd (ys @ [h])"
  using seg_next [of n p h xs y ys h] by (simp add: ring_def)

lemma ring_prev: "ring n p h (xs @ y # ys) \<Longrightarrow> p y = last (h # xs)"
  using seg_prev [of n p h xs y ys h] by (simp add: ring_def)

lemma ring_first: "ring n p h xs \<Longrightarrow> n h = hd (xs @ [h])"
  using seg_first [of n p h xs h] by (simp add: ring_def)

lemma ring_last: "ring n p h xs \<Longrightarrow> p h = last (h # xs)"
  using seg_last [of n p h xs h] by (simp add: ring_def)

lemma ring_empty: "n h = h \<Longrightarrow> p h = h \<Longrightarrow> ring n p h []"
  by (simp add: ring_def)

end
