(* ===== verification/EventLists.thy ===== *)
theory EventLists
  imports RilEvent DList
begin

text \<open>
  The two lists of the event loop as lists of events: what the pointer operations \<open>addToList\<close> and
  \<open>removeFromList\<close> do to them, and what they leave alone.
\<close>

section \<open>Links and the rest of the events\<close>

definition nx :: "(ptr \<Rightarrow> ril_event option) \<Rightarrow> ptr \<Rightarrow> ptr" where
  "nx m p = ev_next (the (m p))"

definition pv :: "(ptr \<Rightarrow> ril_event option) \<Rightarrow> ptr \<Rightarrow> ptr" where
  "pv m p = ev_prev (the (m p))"

definition payload :: "(ptr \<Rightarrow> ril_event option) \<Rightarrow> ptr \<Rightarrow> ril_event" where
  "payload m p = (the (m p))\<lparr>ev_next := NULL, ev_prev := NULL\<rparr>"

text \<open>\<open>relinked s s'\<close>: at most the links of the events differ.\<close>

definition relinked :: "'a rilst_scheme \<Rightarrow> 'a rilst_scheme \<Rightarrow> bool" where
  "relinked s s' \<longleftrightarrow>
     s' = s\<lparr>mem := mem s'\<rparr> \<and> dom (mem s') = dom (mem s) \<and> payload (mem s') = payload (mem s)"

lemma relinked_refl [simp]: "relinked s s"
  by (simp add: relinked_def)

lemma relinked_trans: "relinked s t \<Longrightarrow> relinked t u \<Longrightarrow> relinked s u"
  unfolding relinked_def by (metis rilst.surjective rilst.update_convs(1))

lemma relinked_fields:
  "relinked s s' \<Longrightarrow>
     readFds s' = readFds s \<and> nfds s' = nfds s \<and> watch_table s' = watch_table s \<and>
     locked s' = locked s \<and> clock s' = clock s \<and> clock_reads s' = clock_reads s \<and> ril_trace s' = ril_trace s \<and>
     rilst.more s' = rilst.more s"
  unfolding relinked_def
  by (metis rilst.select_convs(2-9) rilst.surjective rilst.update_convs(1))

lemma payload_fields:
  assumes "payload m' p = payload m p"
  shows "ev_fd (the (m' p)) = ev_fd (the (m p))" "ev_index (the (m' p)) = ev_index (the (m p))"
    "ev_persist (the (m' p)) = ev_persist (the (m p))"
    "ev_timeout (the (m' p)) = ev_timeout (the (m p))"
    "ev_func (the (m' p)) = ev_func (the (m p))" "ev_param (the (m' p)) = ev_param (the (m p))"
  using assms by (cases "the (m p)"; cases "the (m' p)"; simp add: payload_def)+

lemma addToList_links:
  assumes "ev \<in> dom (mem s)" "list \<in> dom (mem s)" "pv (mem s) list \<in> dom (mem s)"
    and "ev \<noteq> list" "ev \<noteq> pv (mem s) list"
  obtains s' where "addToList ev list s = Some s'" "relinked s s'"
    "nx (mem s') = (nx (mem s))(ev := list, pv (mem s) list := ev)"
    "pv (mem s') = (pv (mem s))(ev := pv (mem s) list, list := ev)"
proof -
  obtain e l p where "mem s ev = Some e" "mem s list = Some l" "mem s (ev_prev l) = Some p"
    using assms by (auto simp: pv_def)
  moreover from this assms have "ev_prev l \<noteq> ev" by (auto simp: pv_def)
  ultimately show ?thesis
    using assms
    by (intro that [of "the (addToList ev list s)"])
      (auto simp: addToList_def store_ev_def load_def relinked_def nx_def pv_def payload_def fun_eq_iff)
qed

lemma removeFromList_links:
  assumes "ev \<in> dom (mem s)" "nx (mem s) ev \<in> dom (mem s)" "pv (mem s) ev \<in> dom (mem s)"
    and "nx (mem s) ev \<noteq> ev" "pv (mem s) ev \<noteq> ev"
  obtains s' where "removeFromList ev s = Some s'" "relinked s s'"
    "nx (mem s') = (nx (mem s))(pv (mem s) ev := nx (mem s) ev, ev := NULL)"
    "pv (mem s') = (pv (mem s))(nx (mem s) ev := pv (mem s) ev, ev := NULL)"
proof -
  obtain e n p where "mem s ev = Some e" "mem s (ev_next e) = Some n" "mem s (ev_prev e) = Some p"
    using assms by (auto simp: pv_def nx_def)
  moreover from this assms have "ev_prev e \<noteq> ev" "ev_next e \<noteq> ev" by (auto simp: pv_def nx_def)
  ultimately show ?thesis
    using assms
    by (intro that [of "the (removeFromList ev s)"])
      (auto simp: removeFromList_def store_ev_def load_def relinked_def nx_def pv_def payload_def
        fun_eq_iff)
qed

section \<open>The two lists\<close>

text \<open>Two disjoint lists with heads \<open>h\<close> and \<open>k\<close>.\<close>

definition rings :: "'a rilst_scheme \<Rightarrow> ptr \<Rightarrow> ptr list \<Rightarrow> ptr \<Rightarrow> ptr list \<Rightarrow> bool" where
  "rings s h ts k ps \<longleftrightarrow>
     ring (nx (mem s)) (pv (mem s)) h ts \<and> ring (nx (mem s)) (pv (mem s)) k ps \<and>
     set (h # ts) \<inter> set (k # ps) = {} \<and> set (h # ts) \<union> set (k # ps) \<subseteq> dom (mem s) \<and>
     mem s NULL = None"

definition ev_lists :: "'a rilst_scheme \<Rightarrow> ptr list \<Rightarrow> ptr list \<Rightarrow> bool" where
  "ev_lists s ts ps \<longleftrightarrow> rings s timer_list ts pending_list ps"

text \<open>An event of the store that is in neither list.\<close>

definition loose :: "'a rilst_scheme \<Rightarrow> ptr list \<Rightarrow> ptr list \<Rightarrow> ptr \<Rightarrow> bool" where
  "loose s ts ps ev \<longleftrightarrow>
     ev \<in> dom (mem s) \<and> ev \<notin> set (timer_list # ts) \<union> set (pending_list # ps)"

lemma rings_swap: "rings s h ts k ps \<Longrightarrow> rings s k ps h ts"
  by (auto simp: rings_def)

lemma heads_differ [simp]: "timer_list \<noteq> pending_list" "timer_list \<noteq> NULL" "pending_list \<noteq> NULL"
  by (simp_all add: timer_list_def pending_list_def)

lemma last_mem: "last (h # xs) \<in> set (h # xs)"
  using last_in_set [of "h # xs"] by simp

lemma hd_mem: "hd (ys @ [h]) \<in> set (h # ys)"
  by (cases ys) auto

lemma rings_insert:
  assumes l: "rings s h (xs @ ys) k ps" and "list = hd (ys @ [h])"
    and f: "ev \<in> dom (mem s)" "ev \<notin> set (h # xs @ ys) \<union> set (k # ps)"
  obtains s' where "addToList ev list s = Some s'" "relinked s s'" "rings s' h (xs @ ev # ys) k ps"
proof -
  have r: "ring (nx (mem s)) (pv (mem s)) h (xs @ ys)"
    and rp: "ring (nx (mem s)) (pv (mem s)) k ps"
    using l by (auto simp: rings_def)
  have prev: "pv (mem s) list = last (h # xs)"
  proof (cases ys)
    case Nil
    then show ?thesis using ring_last [of "nx (mem s)" "pv (mem s)" h xs] r assms(2) by simp
  next
    case (Cons y zs)
    then show ?thesis using ring_prev r assms(2) by fastforce
  qed
  have lm: "list \<in> set (h # xs @ ys)" and pm: "pv (mem s) list \<in> set (h # xs @ ys)"
    using hd_mem [of ys h] last_mem [of h xs] assms(2) prev by auto
  have d: "ev \<in> dom (mem s)" "list \<in> dom (mem s)" "pv (mem s) list \<in> dom (mem s)"
    and ne: "ev \<noteq> list" "ev \<noteq> pv (mem s) list"
    using lm pm l f by (auto simp: rings_def)
  obtain s' where s': "addToList ev list s = Some s'" "relinked s s'"
    "nx (mem s') = (nx (mem s))(ev := list, pv (mem s) list := ev)"
    "pv (mem s') = (pv (mem s))(ev := pv (mem s) list, list := ev)"
    by (rule addToList_links [OF d ne])
  have "ring (nx (mem s')) (pv (mem s')) h (xs @ ev # ys)"
    unfolding s'(3,4) by (rule ring_insert [OF r]) (use f prev assms(2) in auto)
  moreover have "ring (nx (mem s')) (pv (mem s')) k ps"
    unfolding s'(3,4)
    by (rule ring_frame [OF rp]) (use l lm pm f in \<open>auto simp: rings_def\<close>)
  ultimately have "rings s' h (xs @ ev # ys) k ps"
    using l f s'(2) by (auto simp: rings_def relinked_def)
  then show ?thesis using that s' by blast
qed

text \<open>The first event leaves its list.\<close>

lemma first_links:
  assumes "ring n p h (x # xs)"
  shows "n x = hd (xs @ [h])" "p x = h"
  using assms ring_next [of n p h "[]" x xs] ring_prev [of n p h "[]" x xs] by simp_all

lemma rings_pop:
  assumes l: "rings s h (ev # ts) k ps"
  obtains s' where "removeFromList ev s = Some s'" "relinked s s'" "rings s' h ts k ps"
    "ev \<in> dom (mem s')" "ev \<notin> set (h # ts) \<union> set (k # ps)"
proof -
  have r: "ring (nx (mem s)) (pv (mem s)) h (ev # ts)"
    and rp: "ring (nx (mem s)) (pv (mem s)) k ps"
    using l by (auto simp: rings_def)
  have nm: "nx (mem s) ev \<in> set (h # ts)"
    using first_links [OF r] hd_mem [of ts h] by simp
  have dis: "distinct (h # ev # ts)" using r by (simp add: ring_def)
  have d: "ev \<in> dom (mem s)" "nx (mem s) ev \<in> dom (mem s)" "pv (mem s) ev \<in> dom (mem s)"
    and ne: "nx (mem s) ev \<noteq> ev" "pv (mem s) ev \<noteq> ev"
    using l nm first_links [OF r] dis by (auto simp: rings_def)
  obtain s' where s': "removeFromList ev s = Some s'" "relinked s s'"
    "nx (mem s') = (nx (mem s))(pv (mem s) ev := nx (mem s) ev, ev := NULL)"
    "pv (mem s') = (pv (mem s))(nx (mem s) ev := pv (mem s) ev, ev := NULL)"
    by (rule removeFromList_links [OF d ne])
  have "ring (nx (mem s')) (pv (mem s')) h ts"
    unfolding s'(3,4)
    by (rule ring_remove [where xs = "[]", simplified, OF r]) (simp_all add: first_links [OF r])
  moreover have "ring (nx (mem s')) (pv (mem s')) k ps"
    unfolding s'(3,4)
    by (rule ring_frame [OF rp]) (use l nm first_links [OF r] in \<open>auto simp: rings_def\<close>)
  ultimately have "rings s' h ts k ps" "ev \<in> dom (mem s')" "ev \<notin> set (h # ts) \<union> set (k # ps)"
    using l s'(2) dis by (auto simp: rings_def relinked_def)
  then show ?thesis using that s' by blast
qed

text \<open>The same for the list of timers and the list of pending events.\<close>

lemma timers_insert:
  assumes "ev_lists s (xs @ ys) ps" and "loose s (xs @ ys) ps ev" and "list = hd (ys @ [timer_list])"
  obtains s' where "addToList ev list s = Some s'" "relinked s s'" "ev_lists s' (xs @ ev # ys) ps"
  using assms rings_insert [of s timer_list xs ys pending_list ps list ev]
  unfolding ev_lists_def loose_def by metis

lemma pending_append:
  assumes "ev_lists s ts ps" and "loose s ts ps ev"
  obtains s' where "addToList ev pending_list s = Some s'" "relinked s s'" "ev_lists s' ts (ps @ [ev])"
proof -
  have "rings s pending_list (ps @ []) timer_list ts"
    using assms(1) by (simp add: ev_lists_def rings_swap)
  then obtain s' where "addToList ev pending_list s = Some s'" "relinked s s'"
    "rings s' pending_list (ps @ [ev]) timer_list ts"
    using rings_insert [of s pending_list ps "[]" timer_list ts pending_list ev] assms(2)
    by (auto simp: loose_def)
  then show ?thesis using that rings_swap unfolding ev_lists_def by blast
qed

lemma timers_pop:
  assumes "ev_lists s (ev # ts) ps"
  obtains s' where "removeFromList ev s = Some s'" "relinked s s'" "ev_lists s' ts ps" "loose s' ts ps ev"
  using assms rings_pop [of s timer_list ev ts pending_list ps]
  unfolding ev_lists_def loose_def by metis

lemma pending_pop:
  assumes "ev_lists s ts (ev # ps)"
  obtains s' where "removeFromList ev s = Some s'" "relinked s s'" "ev_lists s' ts ps" "loose s' ts ps ev"
  using rings_swap [OF assms [unfolded ev_lists_def]] rings_pop [of s pending_list ev ps timer_list ts]
    rings_swap unfolding ev_lists_def loose_def by (metis Un_commute)

end
