(* ===== verification/EventTable.thy ===== *)
theory EventTable
  imports EventLists
begin

text \<open>
  The table of watched descriptors: \<open>table_ok\<close> says that the entries know their place, watch different
  descriptors, and that \<open>readFds\<close> and \<open>nfds\<close> are what \<open>select\<close> needs for exactly these descriptors.
  Adding and deleting events keep it.
\<close>

abbreviation evt :: "'a rilst_scheme \<Rightarrow> ptr \<Rightarrow> ril_event" where
  "evt s p \<equiv> the (mem s p)"

definition entries :: "'a rilst_scheme \<Rightarrow> ptr set" where
  "entries s = set (watch_table s) - {NULL}"

definition watched_fds :: "'a rilst_scheme \<Rightarrow> int set" where
  "watched_fds s = (\<lambda>p. ev_fd (evt s p)) ` entries s"

text \<open>The entry \<open>i\<close> of the table is an event that knows its place and has a descriptor of \<open>fd_set\<close>.\<close>

definition watch_entry_ok :: "'a rilst_scheme \<Rightarrow> nat \<Rightarrow> ptr \<Rightarrow> bool" where
  "watch_entry_ok s i p \<longleftrightarrow> p \<in> dom (mem s) \<and> p \<noteq> timer_list \<and> p \<noteq> pending_list \<and>
     ev_index (evt s p) = int i \<and> fd_ok (ev_fd (evt s p))"

definition nfds_ok :: "'a rilst_scheme \<Rightarrow> bool" where
  "nfds_ok s \<longleftrightarrow> 0 \<le> nfds s \<and> (\<forall>fd \<in> readFds s. fd < nfds s) \<and>
     (if readFds s = {} then nfds s \<le> 1 else nfds s - 1 \<in> readFds s)"

definition table_ok :: "'a rilst_scheme \<Rightarrow> bool" where
  "table_ok s \<longleftrightarrow> length (watch_table s) = MAX_FD_EVENTS \<and> mem s NULL = None \<and>
     (\<forall>i < MAX_FD_EVENTS. watch_table s ! i \<noteq> NULL \<longrightarrow> watch_entry_ok s i (watch_table s ! i)) \<and>
     inj_on (\<lambda>p. ev_fd (evt s p)) (entries s) \<and> readFds s = watched_fds s \<and> nfds_ok s"

lemma entries_nth:
  "p \<in> entries s \<longleftrightarrow> p \<noteq> NULL \<and> (\<exists>i < length (watch_table s). watch_table s ! i = p)"
  by (auto simp: entries_def in_set_conv_nth)

lemma table_entry:
  assumes "table_ok s" and "p \<in> entries s"
  obtains i where "i < MAX_FD_EVENTS" "watch_table s ! i = p" "p \<noteq> NULL" "watch_entry_ok s i p"
  using assms by (auto simp: table_ok_def entries_nth)

text \<open>Each event has one place in the table.\<close>

lemma table_place:
  assumes "table_ok s" "i < MAX_FD_EVENTS" "j < MAX_FD_EVENTS" "watch_table s ! i \<noteq> NULL"
    and "watch_table s ! j = watch_table s ! i"
  shows "j = i"
proof -
  have "watch_entry_ok s i (watch_table s ! i)" "watch_entry_ok s j (watch_table s ! j)"
    using assms by (auto simp: table_ok_def)
  then show ?thesis using assms(5) by (simp add: watch_entry_ok_def)
qed

lemma entries_remove:
  assumes "table_ok s" "i < MAX_FD_EVENTS" "watch_table s ! i = ev" "ev \<noteq> NULL"
  shows "set ((watch_table s)[i := NULL]) - {NULL} = entries s - {ev}"
proof -
  have len: "length (watch_table s) = MAX_FD_EVENTS" using assms by (simp add: table_ok_def)
  have place: "j = i" if "j < length (watch_table s)" "watch_table s ! j = ev" for j
    using table_place [of s i j] assms that len by simp
  show ?thesis
  proof (intro set_eqI iffI)
    fix p assume "p \<in> set ((watch_table s)[i := NULL]) - {NULL}"
    then obtain j where j: "j < length (watch_table s)" "(watch_table s)[i := NULL] ! j = p" "p \<noteq> NULL"
      by (auto simp: in_set_conv_nth)
    then have "j \<noteq> i" by auto
    then have "j \<noteq> i" "watch_table s ! j = p" using j(2) by simp_all
    then show "p \<in> entries s - {ev}" using j place by (auto simp: entries_nth)
  next
    fix p assume "p \<in> entries s - {ev}"
    then obtain j where j: "j < length (watch_table s)" "watch_table s ! j = p" "p \<noteq> NULL" "p \<noteq> ev"
      by (auto simp: entries_nth)
    then have "j \<noteq> i" using assms(3) by auto
    then have "(watch_table s)[i := NULL] ! j = p" using j(2) by simp
    then show "p \<in> set ((watch_table s)[i := NULL]) - {NULL}"
      using j by (metis DiffI length_list_update nth_mem singletonD)
  qed
qed

lemma free_entry_Some:
  "free_entry t k = Some i \<Longrightarrow> k \<le> i \<and> i - k < length t \<and> t ! (i - k) = NULL"
proof (induction t k rule: free_entry.induct)
  case (2 p t k)
  show ?case
  proof (cases "p = NULL")
    case False
    then have "Suc k \<le> i \<and> i - Suc k < length t \<and> t ! (i - Suc k) = NULL"
      using 2 by simp
    moreover from this have "i - k = Suc (i - Suc k)" by (metis Suc_diff_le diff_Suc_Suc)
    ultimately show ?thesis by simp
  qed (use 2 in auto)
qed simp

lemma free_entry_None: "free_entry t k = None \<longleftrightarrow> NULL \<notin> set t"
  by (induction t k rule: free_entry.induct) auto

lemma entries_add:
  assumes "i < length (watch_table s)" "watch_table s ! i = NULL" "ev \<noteq> NULL"
  shows "set ((watch_table s)[i := ev]) - {NULL} = insert ev (entries s)"
proof (intro set_eqI iffI)
  fix p assume "p \<in> set ((watch_table s)[i := ev]) - {NULL}"
  then show "p \<in> insert ev (entries s)"
    using set_update_subset_insert [of "watch_table s" i ev] by (auto simp: entries_def)
next
  fix p assume p: "p \<in> insert ev (entries s)"
  show "p \<in> set ((watch_table s)[i := ev]) - {NULL}"
  proof (cases "p = ev")
    case True
    then show ?thesis using assms by (simp add: set_update_memI)
  next
    case False
    then obtain j where j: "j < length (watch_table s)" "watch_table s ! j = p" "p \<noteq> NULL"
      using p by (auto simp: entries_nth)
    then have "j \<noteq> i" using assms(2) by auto
    then have "(watch_table s)[i := ev] ! j = p" using j(2) by simp
    then show ?thesis using j by (metis DiffI length_list_update nth_mem singletonD)
  qed
qed

text \<open>What the table operations never touch.\<close>

definition rest_same :: "'a rilst_scheme \<Rightarrow> 'a rilst_scheme \<Rightarrow> bool" where
  "rest_same s s' \<longleftrightarrow> locked s' = locked s \<and> clock s' = clock s \<and> clock_reads s' = clock_reads s \<and>
     ril_trace s' = ril_trace s \<and> rilst.more s' = rilst.more s"

section \<open>Adding an event\<close>

definition addable :: "'a rilst_scheme \<Rightarrow> ptr \<Rightarrow> bool" where
  "addable s ev \<longleftrightarrow> ev \<in> dom (mem s) \<and> ev \<noteq> timer_list \<and> ev \<noteq> pending_list \<and> ev \<notin> entries s \<and>
     fd_ok (ev_fd (evt s ev)) \<and> ev_fd (evt s ev) \<notin> readFds s"

lemma ril_event_add_full:
  assumes "NULL \<notin> set (watch_table s)" "\<not> locked s"
  shows "ril_event_add ev s = Some s"
proof -
  have "free_entry (watch_table s) 0 = None" using assms(1) by (simp add: free_entry_None)
  then show ?thesis
    using assms(2) by (simp add: ril_event_add_def mutex_acquire_def mutex_release_def)
qed

lemma ril_event_add_eq:
  assumes "free_entry (watch_table s) 0 = Some i" "\<not> locked s" "mem s ev = Some e" "fd_ok (ev_fd e)"
  shows "ril_event_add ev s = Some (s\<lparr>mem := (mem s)(ev \<mapsto> e\<lparr>ev_index := int i\<rparr>),
     readFds := insert (ev_fd e) (readFds s),
     nfds := (if ev_fd e \<ge> nfds s then ev_fd e + 1 else nfds s),
     watch_table := (watch_table s)[i := ev]\<rparr>)"
  using assms
  by (simp add: ril_event_add_def mutex_acquire_def mutex_release_def store_ev_def load_def FD_SET_def)

lemma ril_event_add_ok:
  assumes t: "table_ok s" and a: "addable s ev" and l: "\<not> locked s" and n: "NULL \<in> set (watch_table s)"
  obtains i s' where "ril_event_add ev s = Some s'" "table_ok s'" "entries s' = insert ev (entries s)"
    "mem s' = (mem s)(ev \<mapsto> (evt s ev)\<lparr>ev_index := int i\<rparr>)" "i < MAX_FD_EVENTS"
    "watch_table s' ! i = ev" "readFds s' = insert (ev_fd (evt s ev)) (readFds s)"
    "rest_same s s'"
proof -
  obtain e where e: "mem s ev = Some e" using a by (auto simp: addable_def)
  have ev: "ev \<noteq> NULL" using e t by (metis option.distinct(1) table_ok_def)
  obtain i where i: "free_entry (watch_table s) 0 = Some i"
    using n free_entry_None [of "watch_table s" 0] by fastforce
  have len: "length (watch_table s) = MAX_FD_EVENTS" using t by (simp add: table_ok_def)
  have il: "i < length (watch_table s)" "watch_table s ! i = NULL"
    using free_entry_Some [OF i] by simp_all
  define s' where "s' = s\<lparr>mem := (mem s)(ev \<mapsto> e\<lparr>ev_index := int i\<rparr>),
     readFds := insert (ev_fd e) (readFds s),
     nfds := (if ev_fd e \<ge> nfds s then ev_fd e + 1 else nfds s),
     watch_table := (watch_table s)[i := ev]\<rparr>"
  have add: "ril_event_add ev s = Some s'"
    using ril_event_add_eq [OF i l e] a e by (simp add: addable_def s'_def)
  have ent: "entries s' = insert ev (entries s)"
    using entries_add [OF il ev] by (simp add: s'_def entries_def)
  have ev': "evt s' p = (if p = ev then e\<lparr>ev_index := int i\<rparr> else evt s p)" for p
    by (simp add: s'_def)
  have fd': "ev_fd (evt s' p) = ev_fd (evt s p)" for p by (simp add: ev' e)
  have "watch_entry_ok s' j (watch_table s' ! j)" if "j < MAX_FD_EVENTS" "watch_table s' ! j \<noteq> NULL" for j
  proof (cases "j = i")
    case True
    then show ?thesis using a il e by (simp add: watch_entry_ok_def addable_def s'_def)
  next
    case False
    then have j: "watch_entry_ok s j (watch_table s ! j)"
      using that t by (simp add: s'_def table_ok_def)
    moreover have "watch_table s ! j \<in> entries s"
      using that False len by (auto simp: entries_nth s'_def)
    then have "watch_table s ! j \<noteq> ev" using a by (auto simp: addable_def)
    ultimately show ?thesis using False by (simp add: watch_entry_ok_def s'_def)
  qed
  moreover have "inj_on (\<lambda>p. ev_fd (evt s' p)) (entries s')"
    unfolding fd' ent using t a by (auto simp: table_ok_def addable_def watched_fds_def)
  moreover have "readFds s' = watched_fds s'"
    unfolding watched_fds_def ent fd' using t by (simp add: table_ok_def watched_fds_def s'_def e)
  moreover have "nfds_ok s'"
  proof -
    have "nfds_ok s" using t by (simp add: table_ok_def)
    moreover have "0 \<le> ev_fd e" using a e by (simp add: addable_def fd_ok_def)
    ultimately show ?thesis
      unfolding nfds_ok_def by (auto simp: s'_def dest: bspec split: if_splits)
  qed
  ultimately have tab: "table_ok s'"
    using t ev len by (simp add: table_ok_def) (simp add: s'_def)
  show ?thesis
    by (rule that [OF add tab ent, of i]) (use e il len in \<open>simp_all add: s'_def rest_same_def\<close>)
qed

section \<open>Deleting an event\<close>

lemma largest_fd_ok:
  assumes "\<forall>p \<in> set t - {NULL}. p \<in> dom (mem s)"
  obtains m where "largest_fd t n s = Some m" "n \<le> m"
    "\<forall>p \<in> set t - {NULL}. ev_fd (evt s p) \<le> m"
    "m = n \<or> m \<in> (\<lambda>p. ev_fd (evt s p)) ` (set t - {NULL})"
  using assms
proof (induction t arbitrary: n thesis)
  case Nil
  show ?case by (rule Nil.prems(1) [of n]) auto
next
  case (Cons p t)
  show ?case
  proof (cases "p = NULL")
    case True
    obtain m where m: "largest_fd t n s = Some m" "n \<le> m"
      "\<forall>p \<in> set t - {NULL}. ev_fd (evt s p) \<le> m"
      "m = n \<or> m \<in> (\<lambda>p. ev_fd (evt s p)) ` (set t - {NULL})"
      using Cons.IH [of n] Cons.prems(2) by auto
    show ?thesis by (rule Cons.prems(1) [of m]) (use m True in auto)
  next
    case False
    then obtain e where e: "mem s p = Some e" using Cons.prems(2) by auto
    obtain m where m: "largest_fd t (max n (ev_fd e)) s = Some m" "max n (ev_fd e) \<le> m"
      "\<forall>p \<in> set t - {NULL}. ev_fd (evt s p) \<le> m"
      "m = max n (ev_fd e) \<or> m \<in> (\<lambda>p. ev_fd (evt s p)) ` (set t - {NULL})"
      using Cons.IH [of "max n (ev_fd e)"] Cons.prems(2) by auto
    have "(if ev_fd e > n then ev_fd e else n) = max n (ev_fd e)" by (simp add: max_def)
    then have "largest_fd (p # t) n s = Some m" using m(1) False e by (simp add: load_def)
    moreover have "m = n \<or> m = ev_fd e \<or> m \<in> (\<lambda>p. ev_fd (evt s p)) ` (set t - {NULL})"
      using m(4) by (auto simp: max_def split: if_splits)
    moreover from this have "m = n \<or> m \<in> (\<lambda>p. ev_fd (evt s p)) ` (set (p # t) - {NULL})"
      using False e by force
    ultimately show ?thesis by (intro Cons.prems(1) [of m]) (use m False e in auto)
  qed
qed

lemma removeWatch_ok:
  assumes t: "table_ok s" and i: "i < MAX_FD_EVENTS" "watch_table s ! i = ev" "ev \<noteq> NULL"
  obtains s' where "removeWatch ev (int i) s = Some s'" "table_ok s'" "entries s' = entries s - {ev}"
    "mem s' = (mem s)(ev \<mapsto> (evt s ev)\<lparr>ev_index := -1\<rparr>)"
    "watch_table s' = (watch_table s)[i := NULL]"
    "readFds s' = readFds s - {ev_fd (evt s ev)}"
    "rest_same s s'"
proof -
  have len: "length (watch_table s) = MAX_FD_EVENTS" using t by (simp add: table_ok_def)
  have eo: "watch_entry_ok s i ev" using t i by (auto simp: table_ok_def)
  obtain e where e: "mem s ev = Some e" using eo by (auto simp: watch_entry_ok_def)
  have ev: "ev \<in> entries s" using i len by (auto simp: entries_nth)
  have ed_nonneg: "0 \<le> ev_fd (evt s p)" if "p \<in> entries s" for p
    using table_entry [OF t that] by (auto simp: watch_entry_ok_def fd_ok_def)
  define tb where "tb = (watch_table s)[i := NULL]"
  define s1 where "s1 = s\<lparr>watch_table := tb, mem := (mem s)(ev \<mapsto> e\<lparr>ev_index := -1\<rparr>),
     readFds := readFds s - {ev_fd e}\<rparr>"
  have ent: "set tb - {NULL} = entries s - {ev}"
    unfolding tb_def by (rule entries_remove [OF t i])
  have ev': "evt s1 p = (if p = ev then e\<lparr>ev_index := -1\<rparr> else evt s p)" for p
    by (simp add: s1_def)
  have fd': "ev_fd (evt s1 p) = ev_fd (evt s p)" for p by (simp add: ev' e)
  have ed: "p \<in> dom (mem s)" if "p \<in> entries s" for p
    using table_entry [OF t that] by (auto simp: watch_entry_ok_def)
  have "\<forall>p \<in> set tb - {NULL}. p \<in> dom (mem s1)"
    using ed unfolding ent by (simp add: s1_def)
  then obtain m where m: "largest_fd tb 0 s1 = Some m" "0 \<le> m"
    "\<forall>p \<in> entries s - {ev}. ev_fd (evt s p) \<le> m"
    "m = 0 \<or> m \<in> (\<lambda>p. ev_fd (evt s p)) ` (entries s - {ev})"
    using largest_fd_ok [of tb s1 0] unfolding ent fd' by metis
  define s' where "s' = s1\<lparr>nfds := (if ev_fd e + 1 = nfds s then m + 1 else nfds s)\<rparr>"
  have fd: "fd_ok (ev_fd e)" using eo e by (simp add: watch_entry_ok_def)
  have rem: "removeWatch ev (int i) s = Some s'"
    using m(1) e i len fd
    by (simp add: removeWatch_def guard_c_def store_ev_def load_def FD_CLR_def s'_def s1_def
        flip: tb_def)
  have "inj_on (\<lambda>p. ev_fd (evt s p)) (entries s)" "readFds s = watched_fds s"
    using t by (auto simp: table_ok_def)
  then have rd: "readFds s - {ev_fd e} = (\<lambda>p. ev_fd (evt s p)) ` (entries s - {ev})"
    using inj_on_image_set_diff [of "\<lambda>p. ev_fd (evt s p)" "entries s" "entries s" "{ev}"] ev e
    by (simp add: watched_fds_def)
  have "watch_entry_ok s' j (watch_table s' ! j)" if "j < MAX_FD_EVENTS" "watch_table s' ! j \<noteq> NULL" for j
  proof -
    have ji: "j \<noteq> i" using that len i(1) by (auto simp: s'_def s1_def tb_def)
    then have nn: "watch_table s ! j \<noteq> NULL" using that by (simp add: s'_def s1_def tb_def)
    then have "watch_table s ! j \<noteq> ev" using table_place [OF t i(1) that(1)] i(2,3) ji by auto
    moreover have "watch_entry_ok s j (watch_table s ! j)" using t that(1) nn by (simp add: table_ok_def)
    ultimately show ?thesis using ji by (simp add: watch_entry_ok_def s'_def s1_def tb_def)
  qed
  moreover have ent': "entries s' = entries s - {ev}"
    using ent by (simp add: entries_def s'_def s1_def)
  moreover have "inj_on (\<lambda>p. ev_fd (evt s' p)) (entries s')"
    unfolding ent' using t by (auto simp: s'_def fd' table_ok_def intro: inj_on_subset)
  moreover have "readFds s' = watched_fds s'"
    unfolding watched_fds_def ent' using rd by (simp add: s'_def fd') (simp add: s1_def)
  moreover have "nfds_ok s'"
  proof (cases "ev_fd e + 1 = nfds s")
    case True
    then have "nfds s' = m + 1" "readFds s' = (\<lambda>p. ev_fd (evt s p)) ` (entries s - {ev})"
      using rd by (simp_all add: s'_def s1_def)
    moreover have "m \<in> (\<lambda>p. ev_fd (evt s p)) ` (entries s - {ev})" if "entries s - {ev} \<noteq> {}"
    proof (cases "m = 0")
      case True
      have "\<exists>p. p \<in> entries s - {ev}" using that by (metis ex_in_conv)
      then obtain p where p: "p \<in> entries s - {ev}" ..
      then have "ev_fd (evt s p) = m" using m(3) ed_nonneg [of p] True by force
      then show ?thesis using p by blast
    qed (use m(4) in blast)
    moreover have "m = 0" if "entries s - {ev} = {}" using that m(4) by auto
    ultimately show ?thesis using m(2,3) by (auto simp: nfds_ok_def)
  next
    case False
    have "nfds_ok s" using t by (simp add: table_ok_def)
    then have "fd < nfds s" if "fd \<in> readFds s" for fd using that by (simp add: nfds_ok_def)
    moreover have "nfds s - 1 \<in> readFds s - {ev_fd e}" if "readFds s - {ev_fd e} \<noteq> {}"
    proof -
      have "readFds s \<noteq> {}" using that by blast
      then show ?thesis using \<open>nfds_ok s\<close> False by (simp add: nfds_ok_def)
    qed
    moreover have "nfds s \<le> 1" if "readFds s - {ev_fd e} = {}"
      using that \<open>nfds_ok s\<close> False by (auto simp: nfds_ok_def split: if_splits)
    moreover have "0 \<le> nfds s" using \<open>nfds_ok s\<close> by (simp add: nfds_ok_def)
    moreover have "nfds s' = nfds s" "readFds s' = readFds s - {ev_fd e}"
      using False by (simp_all add: s'_def s1_def)
    ultimately show ?thesis unfolding nfds_ok_def by simp
  qed
  ultimately have tab: "table_ok s'"
    using t len eo i(3) by (simp add: table_ok_def) (simp add: s'_def s1_def tb_def)
  show ?thesis
    by (rule that [OF rem tab ent']) (use e in \<open>simp_all add: s'_def s1_def tb_def rest_same_def\<close>)
qed

end
