(* ===== verification/EventLoop.thy ===== *)
theory EventLoop
  imports EventTable
begin

text \<open>
  The event loop as a whole.  \<open>ev_inv s ts ps\<close>: the timers are \<open>ts\<close>, sorted by their timeouts, the
  events that are due are \<open>ps\<close>, and the table is in order.  Each operation keeps it and does to the
  lists what its rule says.
\<close>

definition ev_inv :: "'a rilst_scheme \<Rightarrow> ptr list \<Rightarrow> ptr list \<Rightarrow> bool" where
  "ev_inv s ts ps \<longleftrightarrow> ev_lists s ts ps \<and> sorted (map (\<lambda>p. ev_timeout (evt s p)) ts) \<and> table_ok s \<and>
     set ts \<inter> entries s = {}"

text \<open>What a due event calls.\<close>

definition call_of :: "'a rilst_scheme \<Rightarrow> ptr \<Rightarrow> ril_trace" where
  "call_of s p = Fire (ev_func (evt s p)) (ev_fd (evt s p)) (ev_param (evt s p))"

definition fires :: "'a rilst_scheme \<Rightarrow> ril_trace list" where
  "fires s = filter (\<lambda>t. case t of Fire _ _ _ \<Rightarrow> True | _ \<Rightarrow> False) (ril_trace s)"

section \<open>What does not matter\<close>

lemma lists_links:
  assumes "nx (mem s') = nx (mem s)" "pv (mem s') = pv (mem s)" "dom (mem s') = dom (mem s)"
  shows "ev_lists s' ts ps = ev_lists s ts ps"
proof -
  have "mem s' NULL = None \<longleftrightarrow> mem s NULL = None" using assms(3) by (metis domIff)
  then show ?thesis unfolding ev_lists_def rings_def assms by simp
qed

lemma entries_table: "watch_table s' = watch_table s \<Longrightarrow> entries s' = entries s"
  by (simp add: entries_def)

lemma table_ok_frame:
  assumes "watch_table s' = watch_table s" "readFds s' = readFds s" "nfds s' = nfds s"
    and "dom (mem s') = dom (mem s)"
    and "\<forall>p \<in> entries s. ev_fd (evt s' p) = ev_fd (evt s p) \<and> ev_index (evt s' p) = ev_index (evt s p)"
    and "table_ok s"
  shows "table_ok s'"
proof -
  have ent: "entries s' = entries s" using assms(1) by (rule entries_table)
  have len: "length (watch_table s) = MAX_FD_EVENTS" using assms(6) by (simp add: table_ok_def)
  have "watch_entry_ok s' i (watch_table s ! i)" if "i < MAX_FD_EVENTS" "watch_table s ! i \<noteq> NULL" for i
  proof -
    have "watch_table s ! i \<in> entries s" using that len by (auto simp: entries_nth)
    moreover have "watch_entry_ok s i (watch_table s ! i)" using that assms(6) by (simp add: table_ok_def)
    ultimately show ?thesis using assms(4,5) by (simp add: watch_entry_ok_def)
  qed
  moreover have "mem s' NULL = None"
    using assms(4,6) by (metis domIff table_ok_def)
  moreover have "watched_fds s' = watched_fds s"
    using assms(5) ent by (auto simp: watched_fds_def)
  moreover have "inj_on (\<lambda>p. ev_fd (evt s' p)) (entries s')"
    unfolding ent using assms(5,6) by (auto simp: table_ok_def cong: inj_on_cong)
  moreover have "nfds_ok s' = nfds_ok s"
    unfolding nfds_ok_def assms(2,3) by (rule refl)
  ultimately show ?thesis using assms(1,2,6) by (simp add: table_ok_def)
qed

lemma relinked_evt:
  assumes "relinked s s'"
  shows "ev_fd (evt s' p) = ev_fd (evt s p)" "ev_index (evt s' p) = ev_index (evt s p)"
    "ev_persist (evt s' p) = ev_persist (evt s p)" "ev_timeout (evt s' p) = ev_timeout (evt s p)"
    "ev_func (evt s' p) = ev_func (evt s p)" "ev_param (evt s' p) = ev_param (evt s p)"
  using assms payload_fields [of "mem s'" p "mem s"] by (simp_all add: relinked_def)

lemma relinked_dom: "relinked s s' \<Longrightarrow> dom (mem s') = dom (mem s)"
  unfolding relinked_def by (elim conjE)

lemma relinked_table:
  assumes "relinked s s'" "table_ok s"
  shows "table_ok s'" "entries s' = entries s"
proof -
  have f: "watch_table s' = watch_table s" "readFds s' = readFds s" "nfds s' = nfds s"
    using relinked_fields [OF assms(1)] by blast+
  show "table_ok s'"
    by (rule table_ok_frame [OF f relinked_dom [OF assms(1)] _ assms(2)])
      (use relinked_evt(1,2) [OF assms(1)] in blast)
  show "entries s' = entries s"
    by (rule entries_table [OF f(1)])
qed

lemma relinked_call: "relinked s s' \<Longrightarrow> call_of s' = call_of s"
  using relinked_evt [of s s'] by (simp add: call_of_def fun_eq_iff)

lemma relinked_fires: "relinked s s' \<Longrightarrow> fires s' = fires s"
  using relinked_fields [of s s'] by (simp add: fires_def)

text \<open>The lock, the clock and the trace are not part of the invariant.\<close>

lemma ev_inv_frame:
  assumes "mem s' = mem s" "watch_table s' = watch_table s" "readFds s' = readFds s" "nfds s' = nfds s"
  shows "ev_inv s' ts ps = ev_inv s ts ps"
  using assms
  by (simp add: ev_inv_def ev_lists_def rings_def table_ok_def watch_entry_ok_def entries_def watched_fds_def
      nfds_ok_def)

lemma ev_inv_lock [simp]:
  "ev_inv (mutex_release s) ts ps = ev_inv s ts ps" "ev_inv (s\<lparr>locked := b\<rparr>) ts ps = ev_inv s ts ps"
  by (rule ev_inv_frame; simp add: mutex_release_def)+

lemma relinked_release:
  "relinked (s\<lparr>locked := True\<rparr>) s' \<Longrightarrow> \<not> locked s \<Longrightarrow> relinked s (mutex_release s')"
  by (cases s; cases s') (auto simp: relinked_def mutex_release_def)

lemma timers_not_head: "ev_lists s ts ps \<Longrightarrow> p \<in> set ts \<Longrightarrow> p \<noteq> timer_list"
  by (auto simp: ev_lists_def rings_def ring_def)

lemma lists_dom: "ev_lists s ts ps \<Longrightarrow> p \<in> set (timer_list # ts) \<union> set (pending_list # ps) \<Longrightarrow> p \<in> dom (mem s)"
  unfolding ev_lists_def rings_def by blast

lemma lists_next:
  "ev_lists s (xs @ y # ys) ps \<Longrightarrow> nx (mem s) y = hd (ys @ [timer_list])"
  "ev_lists s xs ps \<Longrightarrow> nx (mem s) timer_list = hd (xs @ [timer_list])"
  "ev_lists s xs (ps @ z # zs) \<Longrightarrow> nx (mem s) z = hd (zs @ [pending_list])"
  "ev_lists s xs ps \<Longrightarrow> nx (mem s) pending_list = hd (ps @ [pending_list])"
  unfolding ev_lists_def rings_def by (auto dest: ring_next ring_first)

section \<open>Adding a timer\<close>

text \<open>A new timer goes before the first one that does not expire earlier.\<close>

definition insert_timer :: "(ptr \<Rightarrow> timeval) \<Rightarrow> timeval \<Rightarrow> ptr \<Rightarrow> ptr list \<Rightarrow> ptr list" where
  "insert_timer f t ev ts = takeWhile (\<lambda>p. f p < t) ts @ ev # dropWhile (\<lambda>p. f p < t) ts"

lemma set_insert_timer [simp]: "set (insert_timer f t ev ts) = insert ev (set ts)"
  unfolding insert_timer_def by (metis Un_insert_right list.simps(15) set_append takeWhile_dropWhile_id)

lemma insert_timer_cong:
  assumes "\<And>p. p \<in> set ts \<Longrightarrow> f p = g p"
  shows "insert_timer f t ev ts = insert_timer g t ev ts"
proof -
  have "takeWhile (\<lambda>p. f p < t) ts = takeWhile (\<lambda>p. g p < t) ts"
    "dropWhile (\<lambda>p. f p < t) ts = dropWhile (\<lambda>p. g p < t) ts"
    using assms by (auto intro!: takeWhile_cong dropWhile_cong)
  then show ?thesis by (simp add: insert_timer_def)
qed

lemma sorted_insert_timer:
  assumes "sorted (map f ts)" "f ev = t"
  shows "sorted (map f (insert_timer f t ev ts))"
proof -
  let ?P = "\<lambda>p. f p < t"
  have eq: "map f ts = map f (takeWhile ?P ts) @ map f (dropWhile ?P ts)"
    by (metis map_append takeWhile_dropWhile_id)
  have "\<forall>x \<in> set (takeWhile ?P ts). f x < t" by (meson set_takeWhileD)
  moreover have "\<forall>x \<in> set (dropWhile ?P ts). t \<le> f x"
  proof (cases "dropWhile ?P ts")
    case Nil
    then show ?thesis by (simp only: Nil list.set ball_empty)
  next
    case (Cons y ys)
    then have "t \<le> f y" using hd_dropWhile [of ?P ts] by (metis list.distinct(1) list.sel(1) not_less)
    moreover have "sorted (map f (y # ys))"
      using assms(1) eq Cons by (metis sorted_append)
    ultimately show ?thesis using Cons by auto
  qed
  moreover have "sorted (map f (takeWhile ?P ts))" "sorted (map f (dropWhile ?P ts))"
    using assms(1) eq by (metis sorted_append)+
  ultimately show ?thesis
    unfolding insert_timer_def using assms(2) by (auto simp: sorted_append) (meson less_le_trans less_imp_le)
qed

lemma later_timer_walk:
  assumes "ev_lists s (zs @ xs @ ys) ps" "\<forall>p \<in> set xs. ev_timeout (evt s p) < t"
    and "ys = [] \<or> \<not> ev_timeout (evt s (hd ys)) < t"
  shows "later_timer (hd (xs @ ys @ [timer_list])) t s = Some (hd (ys @ [timer_list]))"
  using assms
proof (induction xs arbitrary: zs)
  case Nil
  let ?l = "hd (ys @ [timer_list])"
  have "?l \<in> dom (mem s)"
    using Nil.prems(1) by (intro lists_dom) (auto simp: hd_append)
  then show ?case
    using Nil.prems(3)
    by (subst later_timer.simps) (auto simp: load_def hd_append split: if_splits)
next
  case (Cons x xs)
  have x: "x \<in> dom (mem s)" "x \<noteq> timer_list"
    using Cons.prems(1) timers_not_head [OF Cons.prems(1), of x]
    by (auto intro!: lists_dom [OF Cons.prems(1)])
  have nx: "ev_next (evt s x) = hd (xs @ ys @ [timer_list])"
    using lists_next(1) [of s zs x "xs @ ys" ps] Cons.prems(1) by (simp add: nx_def)
  have "later_timer (hd (xs @ ys @ [timer_list])) t s = Some (hd (ys @ [timer_list]))"
    using Cons.IH [of "zs @ [x]"] Cons.prems by simp
  moreover have "hd ((x # xs) @ ys @ [timer_list]) = x" by simp
  ultimately show ?case
    using x nx Cons.prems(2) by (simp add: later_timer.simps [of x] load_def domIff) force
qed

lemma payload_put:
  "m ev = Some e \<Longrightarrow> payload (m(ev \<mapsto> e')) = (payload m)(ev := e'\<lparr>ev_next := NULL, ev_prev := NULL\<rparr>)"
  by (auto simp: payload_def fun_eq_iff)

text \<open>An event that is in no list may be given new data.\<close>

lemma links_put:
  assumes "m ev = Some e" "ev_next e' = ev_next e" "ev_prev e' = ev_prev e"
  shows "nx (m(ev \<mapsto> e')) = nx m" "pv (m(ev \<mapsto> e')) = pv m" "dom (m(ev \<mapsto> e')) = dom m"
  using assms by (auto simp: nx_def pv_def fun_eq_iff)

lemma table_ok_put:
  assumes "table_ok s" "mem s ev = Some e" "ev \<notin> entries s"
  shows "table_ok (s\<lparr>mem := (mem s)(ev \<mapsto> e')\<rparr>)"
  by (rule table_ok_frame [OF _ _ _ _ _ assms(1)]) (use assms in auto)

lemma timeouts_split:
  assumes "sorted (map f ts)"
  shows "dropWhile (\<lambda>p. f p < t) ts = [] \<or> \<not> f (hd (dropWhile (\<lambda>p. f p < t) ts)) < t"
  using hd_dropWhile [of "\<lambda>p. f p < t" ts] by auto

text \<open>The timer gets an absolute timeout and its place in the list; nothing else changes.\<close>

lemma ril_timer_add_ok:
  assumes I: "ev_inv s ts ps" and f: "loose s ts ps ev" and ne: "ev \<notin> entries s" and l: "\<not> locked s"
    and t: "t = timeradd (fst (getNow s)) tv"
  obtains s' where "ril_timer_add ev (Some tv) s = Some s'"
    "ev_inv s' (insert_timer (\<lambda>p. ev_timeout (evt s p)) t ev ts) ps"
    "relinked (s\<lparr>mem := (mem s)(ev \<mapsto> (evt s ev)\<lparr>ev_fd := -1, ev_timeout := t\<rparr>),
       clock_reads := Suc (clock_reads s)\<rparr>) s'"
proof -
  obtain e where e: "mem s ev = Some e" using f by (auto simp: loose_def)
  obtain sec nsec where c: "clock s (clock_reads s) = (sec, nsec)" by (cases "clock s (clock_reads s)") auto
  define s1 where "s1 = s\<lparr>mem := (mem s)(ev \<mapsto> e\<lparr>ev_fd := -1, ev_timeout := t\<rparr>),
     clock_reads := Suc (clock_reads s)\<rparr>"
  define s2 where "s2 = s\<lparr>locked := True, clock_reads := Suc (clock_reads s),
     mem := (mem s)(ev \<mapsto> e\<lparr>ev_fd := -1, ev_timeout := t\<rparr>)\<rparr>"
  have s12: "s2 = s1\<lparr>locked := True\<rparr>" by (simp add: s1_def s2_def)
  have e2: "mem s2 ev = Some (e\<lparr>ev_fd := -1, ev_timeout := t\<rparr>)" by (simp add: s2_def)
  have tt: "timeradd (Timeval sec (nsec div 1000)) tv = t" using t c by (simp add: getNow_def)
  let ?f = "\<lambda>p. ev_timeout (evt s p)" let ?f2 = "\<lambda>p. ev_timeout (evt s2 p)"
  define xs ys where "xs = takeWhile (\<lambda>p. ?f p < t) ts" and "ys = dropWhile (\<lambda>p. ?f p < t) ts"
  have evts: "ev \<notin> set ts" "ev \<noteq> timer_list" using f by (auto simp: loose_def)
  have fs: "?f2 p = ?f p" if "p \<in> set ts" for p using that evts by (auto simp: s2_def s1_def)
  have "ev_lists s2 ts ps = ev_lists s ts ps"
    by (rule lists_links)
      (use links_put [where m = "mem s" and ev = ev and e' = "e\<lparr>ev_fd := -1, ev_timeout := t\<rparr>", OF e]
       in \<open>simp_all add: s2_def s1_def\<close>)
  then have l2: "ev_lists s2 (xs @ ys) ps" using I by (simp add: ev_inv_def xs_def ys_def)
  have f2: "loose s2 (xs @ ys) ps ev"
    using f by (auto simp: loose_def s2_def s1_def xs_def ys_def)
  have "later_timer (hd (xs @ ys @ [timer_list])) t s2 = Some (hd (ys @ [timer_list]))"
  proof (rule later_timer_walk [of s2 "[]"])
    show "ev_lists s2 ([] @ xs @ ys) ps" using l2 by simp
    show "\<forall>p \<in> set xs. ?f2 p < t"
      using fs unfolding xs_def by (metis set_takeWhileD)
    have "ys = [] \<or> hd ys \<in> set ts"
      unfolding ys_def by (metis hd_in_set set_dropWhileD)
    then show "ys = [] \<or> \<not> ?f2 (hd ys) < t"
      using timeouts_split [of ?f ts t] I fs unfolding ys_def ev_inv_def by metis
  qed
  moreover have "ev_next (evt s timer_list) = hd (xs @ ys @ [timer_list])"
    using lists_next(2) [of s ts ps] I by (simp add: ev_inv_def nx_def xs_def ys_def flip: append_assoc)
  moreover obtain h where "mem s timer_list = Some h"
    using I lists_dom [of s ts ps timer_list] by (auto simp: ev_inv_def)
  moreover obtain s3 where s3: "addToList ev (hd (ys @ [timer_list])) s2 = Some s3" "relinked s2 s3"
    "ev_lists s3 (xs @ ev # ys) ps"
    using timers_insert [OF l2 f2 refl] by blast
  ultimately have "ril_timer_add ev (Some tv) s = Some (mutex_release s3)"
    using e l c evts
    by (simp add: ril_timer_add_def mutex_acquire_def load_def store_ev_def getNow_def tt e2 flip: s2_def)
  moreover have "ev_inv (mutex_release s3) (insert_timer ?f t ev ts) ps"
  proof -
    have "table_ok (s\<lparr>mem := (mem s)(ev \<mapsto> e\<lparr>ev_fd := -1, ev_timeout := t\<rparr>)\<rparr>)"
      by (rule table_ok_put) (use I e ne in \<open>simp_all add: ev_inv_def\<close>)
    then have "table_ok s2"
      by (rule table_ok_frame [rotated -1]) (simp_all add: s2_def s1_def)
    then have tab: "table_ok s3" and ent: "entries s3 = entries s"
      using relinked_table [OF s3(2)] by (simp_all add: entries_def s2_def s1_def)
    have f3: "ev_timeout (evt s3 p) = (if p = ev then t else ?f p)" for p
      using relinked_evt(4) [OF s3(2), of p] by (simp add: s2_def s1_def)
    have "insert_timer ?f t ev ts = insert_timer (\<lambda>p. ev_timeout (evt s3 p)) t ev ts"
      by (rule insert_timer_cong) (use f3 evts in auto)
    then have "sorted (map (\<lambda>p. ev_timeout (evt s3 p)) (insert_timer ?f t ev ts))"
    proof -
      have "map (\<lambda>p. ev_timeout (evt s3 p)) ts = map ?f ts"
        by (rule map_cong) (use f3 evts in auto)
      then have "sorted (map (\<lambda>p. ev_timeout (evt s3 p)) ts)" using I by (simp only: ev_inv_def)
      moreover have "ev_timeout (evt s3 ev) = t" by (simp add: f3)
      ultimately show ?thesis
        unfolding \<open>insert_timer ?f t ev ts = _\<close> by (rule sorted_insert_timer)
    qed
    moreover have "ev_lists s3 (insert_timer ?f t ev ts) ps"
      using s3(3) by (simp add: insert_timer_def xs_def ys_def)
    ultimately have "ev_inv s3 (insert_timer ?f t ev ts) ps"
      using tab ent I ne by (simp add: ev_inv_def)
    then show ?thesis by simp
  qed
  moreover have "relinked s1 (mutex_release s3)"
    by (rule relinked_release) (use s3(2) l in \<open>simp_all add: s12, simp_all add: s1_def\<close>)
  ultimately show ?thesis using that e by (simp add: s1_def)
qed

section \<open>Expired timers\<close>

lemma ev_inv_relinked:
  assumes "relinked s s'" "ev_inv s ts ps" "ev_lists s' ts' ps'"
    and "sorted (map (\<lambda>p. ev_timeout (evt s p)) ts')" "set ts' \<inter> entries s = {}"
  shows "ev_inv s' ts' ps'"
  using assms relinked_table [OF assms(1)] relinked_evt(4) [OF assms(1)] by (simp add: ev_inv_def)

lemma expire_timers_ok:
  assumes "ev_inv s ts ps"
  obtains s' where "expire_timers (hd (ts @ [timer_list])) now s = Some s'" "relinked s s'"
    "ev_inv s' (dropWhile (\<lambda>p. ev_timeout (evt s p) < now) ts)
       (ps @ takeWhile (\<lambda>p. ev_timeout (evt s p) < now) ts)"
  using assms
proof (induction ts arbitrary: s ps thesis)
  case Nil
  show ?case
    by (rule Nil.prems(1) [of s]) (use Nil.prems(2) in \<open>simp_all add: expire_timers.simps\<close>)
next
  case (Cons tev ts)
  have L: "ev_lists s (tev # ts) ps" using Cons.prems(2) by (simp add: ev_inv_def)
  obtain e where e: "mem s tev = Some e" using lists_dom [OF L, of tev] by auto
  have ne: "tev \<noteq> timer_list" using timers_not_head [OF L, of tev] by simp
  have nxt: "ev_next e = hd (ts @ [timer_list])"
    using lists_next(1) [of s "[]" tev ts ps] L e by (simp add: nx_def)
  show ?case
  proof (cases "ev_timeout e < now")
    case False
    then show ?thesis
      by (intro Cons.prems(1) [of s]) (use Cons.prems(2) e ne in
        \<open>simp_all add: expire_timers.simps [of tev] load_def\<close>)
  next
    case True
    obtain s1 where s1: "removeFromList tev s = Some s1" "relinked s s1" "ev_lists s1 ts ps"
      "loose s1 ts ps tev"
      using timers_pop [OF L] by blast
    obtain s2 where s2: "addToList tev pending_list s1 = Some s2" "relinked s1 s2"
      "ev_lists s2 ts (ps @ [tev])"
      using pending_append [OF s1(3,4)] by blast
    have R: "relinked s s2" using s1(2) s2(2) by (rule relinked_trans)
    have T: "ev_timeout (evt s2 p) = ev_timeout (evt s p)" for p by (rule relinked_evt [OF R])
    have "ev_inv s2 ts (ps @ [tev])"
      by (rule ev_inv_relinked [OF R Cons.prems(2) s2(3)])
        (use Cons.prems(2) in \<open>simp_all add: ev_inv_def\<close>)
    then obtain s' where s': "expire_timers (hd (ts @ [timer_list])) now s2 = Some s'" "relinked s2 s'"
      "ev_inv s' (dropWhile (\<lambda>p. ev_timeout (evt s2 p) < now) ts)
         ((ps @ [tev]) @ takeWhile (\<lambda>p. ev_timeout (evt s2 p) < now) ts)"
      using Cons.IH [of s2 "ps @ [tev]"] by blast
    show ?thesis
    proof (rule Cons.prems(1) [of s'])
      show "expire_timers (hd ((tev # ts) @ [timer_list])) now s = Some s'"
        using e ne True nxt s1(1) s2(1) s'(1) by (simp add: expire_timers.simps [of tev] load_def)
      show "relinked s s'" using R s'(2) by (rule relinked_trans)
      show "ev_inv s' (dropWhile (\<lambda>p. ev_timeout (evt s p) < now) (tev # ts))
        (ps @ takeWhile (\<lambda>p. ev_timeout (evt s p) < now) (tev # ts))"
        using s'(3) True e unfolding T by simp
    qed
  qed
qed

text \<open>\<open>expired\<close> and \<open>waiting\<close>: the timers before and not before \<open>now\<close>.\<close>

definition expired :: "'a rilst_scheme \<Rightarrow> timeval \<Rightarrow> ptr list \<Rightarrow> ptr list" where
  "expired s now ts = takeWhile (\<lambda>p. ev_timeout (evt s p) < now) ts"

definition waiting :: "'a rilst_scheme \<Rightarrow> timeval \<Rightarrow> ptr list \<Rightarrow> ptr list" where
  "waiting s now ts = dropWhile (\<lambda>p. ev_timeout (evt s p) < now) ts"

text \<open>In a sorted list these are all the timers that have expired, and the others.\<close>

lemma expired_filter:
  assumes "sorted (map (\<lambda>p. ev_timeout (evt s p)) ts)"
  shows "expired s now ts = filter (\<lambda>p. ev_timeout (evt s p) < now) ts"
    "waiting s now ts = filter (\<lambda>p. \<not> ev_timeout (evt s p) < now) ts"
proof -
  have "takeWhile (\<lambda>p. ev_timeout (evt s p) < now) ts = filter (\<lambda>p. ev_timeout (evt s p) < now) ts \<and>
    dropWhile (\<lambda>p. ev_timeout (evt s p) < now) ts = filter (\<lambda>p. \<not> ev_timeout (evt s p) < now) ts"
    using assms
  proof (induction ts)
    case (Cons p ts)
    show ?case
    proof (cases "ev_timeout (evt s p) < now")
      case False
      have "\<forall>q \<in> set ts. \<not> ev_timeout (evt s q) < now"
        using Cons.prems False by (auto simp: not_less intro: order.trans)
      then show ?thesis using False by (simp add: filter_False filter_True)
    qed (use Cons in simp)
  qed simp
  then show "expired s now ts = filter (\<lambda>p. ev_timeout (evt s p) < now) ts"
    "waiting s now ts = filter (\<lambda>p. \<not> ev_timeout (evt s p) < now) ts"
    by (simp_all add: expired_def waiting_def)
qed

lemma processTimeouts_ok:
  assumes I: "ev_inv s ts ps" and l: "\<not> locked s" and now: "now = fst (getNow s)"
  obtains s' where "processTimeouts s = Some s'" "relinked (s\<lparr>clock_reads := Suc (clock_reads s)\<rparr>) s'"
    "ev_inv s' (waiting s now ts) (ps @ expired s now ts)"
proof -
  define s1 where "s1 = s\<lparr>locked := True, clock_reads := Suc (clock_reads s)\<rparr>"
  have I1: "ev_inv s1 ts ps" using I ev_inv_frame [of s1 s ts ps] by (simp add: s1_def)
  then obtain s2 where s2: "expire_timers (hd (ts @ [timer_list])) now s1 = Some s2" "relinked s1 s2"
    "ev_inv s2 (dropWhile (\<lambda>p. ev_timeout (evt s1 p) < now) ts)
       (ps @ takeWhile (\<lambda>p. ev_timeout (evt s1 p) < now) ts)"
    using expire_timers_ok [of s1 ts ps now] by blast
  have L: "ev_lists s ts ps" using I by (simp add: ev_inv_def)
  obtain h where h: "mem s timer_list = Some h" using lists_dom [OF L, of timer_list] by auto
  have "ev_next h = hd (ts @ [timer_list])"
    using lists_next(2) [OF L] h by (simp add: nx_def)
  then have "processTimeouts s = Some (mutex_release s2)"
    using s2(1) l h now
    by (simp add: processTimeouts_def mutex_acquire_def load_def getNow_def s1_def split: prod.splits)
  moreover have "relinked (s\<lparr>clock_reads := Suc (clock_reads s)\<rparr>) (mutex_release s2)"
  proof (rule relinked_release)
    have "s1 = s\<lparr>clock_reads := Suc (clock_reads s), locked := True\<rparr>" by (simp add: s1_def)
    then show "relinked (s\<lparr>clock_reads := Suc (clock_reads s), locked := True\<rparr>) s2" using s2(2) by simp
  qed (use l in simp)
  moreover have "ev_inv (mutex_release s2) (waiting s now ts) (ps @ expired s now ts)"
    using s2(3) by (simp add: waiting_def expired_def s1_def)
  ultimately show ?thesis using that by blast
qed

section \<open>Descriptors that are ready\<close>

text \<open>\<open>ev_kept s s'\<close>: every event still calls the same, at the same time; only links and places change.\<close>

definition ev_kept :: "'a rilst_scheme \<Rightarrow> 'a rilst_scheme \<Rightarrow> bool" where
  "ev_kept s s' \<longleftrightarrow> dom (mem s') = dom (mem s) \<and>
     (\<forall>p. call_of s' p = call_of s p \<and> ev_persist (evt s' p) = ev_persist (evt s p) \<and>
       ev_timeout (evt s' p) = ev_timeout (evt s p)) \<and>
     rest_same s s'"

lemma kept_refl [simp]: "ev_kept s s"
  by (simp add: ev_kept_def rest_same_def)

lemma kept_trans: "ev_kept s t \<Longrightarrow> ev_kept t u \<Longrightarrow> ev_kept s u"
  by (simp add: ev_kept_def rest_same_def)

lemma kept_call: "ev_kept s s' \<Longrightarrow> call_of s' = call_of s"
  by (simp add: ev_kept_def fun_eq_iff)

lemma kept_fires: "ev_kept s s' \<Longrightarrow> fires s' = fires s"
  by (simp add: ev_kept_def fires_def rest_same_def)

lemma relinked_kept: "relinked s s' \<Longrightarrow> ev_kept s s'"
  using relinked_fields [of s s'] relinked_dom [of s s'] relinked_evt [of s s'] relinked_call [of s s']
  by (simp add: ev_kept_def rest_same_def)

text \<open>The events of a part of the table whose descriptors are ready.\<close>

definition ready_in :: "'a rilst_scheme \<Rightarrow> int set \<Rightarrow> ptr list \<Rightarrow> ptr list" where
  "ready_in s rfds t = filter (\<lambda>p. p \<noteq> NULL \<and> ev_fd (evt s p) \<in> rfds) t"

lemma ready_in_kept: "ev_kept s s' \<Longrightarrow> ready_in s' rfds = ready_in s rfds"
  unfolding ready_in_def ev_kept_def call_of_def by (simp add: fun_eq_iff)

lemma remove_entry_ok:
  assumes I: "ev_inv s ts ps" and i: "i < MAX_FD_EVENTS" "watch_table s ! i = ev" "ev \<noteq> NULL"
  obtains s' where "removeWatch ev (int i) s = Some s'" "ev_kept s s'" "ev_inv s' ts ps"
    "entries s' = entries s - {ev}" "watch_table s' = (watch_table s)[i := NULL]"
    "readFds s' = readFds s - {ev_fd (evt s ev)}"
proof -
  have t: "table_ok s" using I by (simp add: ev_inv_def)
  obtain s' where s': "removeWatch ev (int i) s = Some s'" "table_ok s'" "entries s' = entries s - {ev}"
    "mem s' = (mem s)(ev \<mapsto> (evt s ev)\<lparr>ev_index := -1\<rparr>)"
    "watch_table s' = (watch_table s)[i := NULL]"
    "readFds s' = readFds s - {ev_fd (evt s ev)}"
    "rest_same s s'"
    by (rule removeWatch_ok [OF t i])
  have "watch_entry_ok s i ev" using t i by (auto simp: table_ok_def)
  then obtain e where e: "mem s ev = Some e" by (auto simp: watch_entry_ok_def)
  have m: "mem s' = (mem s)(ev \<mapsto> e\<lparr>ev_index := -1\<rparr>)" using s'(4) e by simp
  have "ev_lists s' ts ps = ev_lists s ts ps"
    by (rule lists_links)
      (use links_put [where m = "mem s" and ev = ev and e' = "e\<lparr>ev_index := -1\<rparr>", OF e] m in simp_all)
  moreover have "ev_timeout (evt s' p) = ev_timeout (evt s p)" for p using m e by simp
  ultimately have "ev_inv s' ts ps"
    using I s'(2,3) by (auto simp: ev_inv_def)
  moreover have "ev_kept s s'"
  proof -
    show ?thesis using m e s'(7) by (auto simp: ev_kept_def call_of_def rest_same_def)
  qed
  ultimately show ?thesis using that s' by blast
qed

lemma ready_entries_ok:
  assumes "ev_inv s ts ps" "i + k = MAX_FD_EVENTS"
    and "(set (drop i (watch_table s)) - {NULL}) \<inter> set ps = {}"
  obtains s' where "ready_entries k i rfds n s = Some s'" "ev_kept s s'"
    "ev_inv s' ts (ps @ take (nat n) (ready_in s rfds (drop i (watch_table s))))"
    "entries s' = entries s -
       {p \<in> set (take (nat n) (ready_in s rfds (drop i (watch_table s)))). \<not> ev_persist (evt s p)}"
  using assms
proof (induction k arbitrary: i n s ps thesis)
  case 0
  have "drop i (watch_table s) = []"
    using 0(2,3) by (simp add: ev_inv_def table_ok_def)
  then show ?case by (intro 0(1) [of s]) (use 0(2) in \<open>simp_all add: ready_in_def\<close>)
next
  case (Suc k)
  let ?p = "watch_table s ! i" and ?t = "drop (Suc i) (watch_table s)"
  have T: "table_ok s" using Suc.prems(2) by (simp add: ev_inv_def)
  have i: "i < MAX_FD_EVENTS" and ik: "Suc i + k = MAX_FD_EVENTS" using Suc.prems(3) by simp_all
  have dr: "drop i (watch_table s) = ?p # ?t"
    using T i by (simp add: table_ok_def Cons_nth_drop_Suc)
  have rest: "(set ?t - {NULL}) \<inter> set ps = {}" using Suc.prems(4) dr by auto
  have skip: thesis if "ready_entries (Suc k) i rfds n s = ready_entries k (Suc i) rfds n s"
    "ready_in s rfds (?p # ?t) = ready_in s rfds ?t"
  proof -
    obtain s' where "ready_entries k (Suc i) rfds n s = Some s'" "ev_kept s s'"
      "ev_inv s' ts (ps @ take (nat n) (ready_in s rfds ?t))"
      "entries s' = entries s - {p \<in> set (take (nat n) (ready_in s rfds ?t)). \<not> ev_persist (evt s p)}"
      using Suc.IH [OF _ Suc.prems(2) ik rest, of n] by blast
    then show thesis using that dr by (intro Suc.prems(1) [of s']) simp_all
  qed
  consider "n \<le> 0" | "n > 0" "?p = NULL" | "n > 0" "?p \<noteq> NULL" "ev_fd (evt s ?p) \<notin> rfds"
    | "n > 0" "?p \<noteq> NULL" "ev_fd (evt s ?p) \<in> rfds" by force
  then show thesis
  proof cases
    case 1
    then show thesis by (intro Suc.prems(1) [of s]) (use Suc.prems(2) in simp_all)
  next
    case 2
    then show thesis by (intro skip) (simp_all add: ready_in_def)
  next
    case 3
    then have "watch_entry_ok s i ?p" using T i by (simp add: table_ok_def)
    then show thesis
      using 3 by (intro skip) (auto simp: ready_in_def watch_entry_ok_def load_def FD_ISSET_def)
  next
    case 4
    have eo: "watch_entry_ok s i ?p" using 4 T i by (simp add: table_ok_def)
    then obtain e where e: "mem s ?p = Some e" by (auto simp: watch_entry_ok_def)
    have pe: "?p \<in> entries s" using 4 i T by (auto simp: entries_nth table_ok_def)
    have "loose s ts ps ?p"
      using eo pe Suc.prems(2,4) dr 4 by (auto simp: loose_def watch_entry_ok_def ev_inv_def)
    moreover have "ev_lists s ts ps" using Suc.prems(2) by (simp add: ev_inv_def)
    ultimately obtain s1 where s1: "addToList ?p pending_list s = Some s1" "relinked s s1"
      "ev_lists s1 ts (ps @ [?p])"
      using pending_append by blast
    have I1: "ev_inv s1 ts (ps @ [?p])"
      by (rule ev_inv_relinked [OF s1(2) Suc.prems(2) s1(3)])
        (use Suc.prems(2) in \<open>simp_all add: ev_inv_def\<close>)
    have t1: "watch_table s1 = watch_table s" using relinked_fields [OF s1(2)] by blast
    have e1: "entries s1 = entries s" using t1 by (rule entries_table)
    obtain s2 where s2: "(if \<not> ev_persist e then removeWatch ?p (int i) s1 else Some s1) = Some s2"
      "ev_kept s1 s2" "ev_inv s2 ts (ps @ [?p])" "entries s2 = entries s - (if ev_persist e then {} else {?p})"
      "drop (Suc i) (watch_table s2) = ?t"
    proof (cases "ev_persist e")
      case True
      then show thesis using that [of s1] I1 e1 t1 by simp
    next
      case False
      obtain s2 where "removeWatch ?p (int i) s1 = Some s2" "ev_kept s1 s2" "ev_inv s2 ts (ps @ [?p])"
        "entries s2 = entries s1 - {?p}" "watch_table s2 = (watch_table s1)[i := NULL]"
        using remove_entry_ok [OF I1 i] t1 4(2) by metis
      then show thesis using that [of s2] False e1 t1 by simp
    qed
    have K: "ev_kept s s2" using relinked_kept [OF s1(2)] s2(2) by (rule kept_trans)
    have "?p \<notin> set ?t"
    proof
      assume "?p \<in> set ?t"
      then obtain j where j: "j < length ?t" "?t ! j = ?p" by (meson in_set_conv_nth)
      moreover have "length ?t = MAX_FD_EVENTS - Suc i" using T by (simp add: table_ok_def)
      ultimately have "Suc i + j < MAX_FD_EVENTS" "watch_table s ! (Suc i + j) = ?p"
        using T by (simp_all add: table_ok_def)
      then show False using table_place [OF T i, of "Suc i + j"] 4(2) by simp
    qed
    then have "(set (drop (Suc i) (watch_table s2)) - {NULL}) \<inter> set (ps @ [?p]) = {}"
      using rest s2(5) by auto
    then obtain s' where s': "ready_entries k (Suc i) rfds (n - 1) s2 = Some s'" "ev_kept s2 s'"
      "ev_inv s' ts ((ps @ [?p]) @ take (nat (n - 1)) (ready_in s2 rfds ?t))"
      "entries s' = entries s2 -
        {p \<in> set (take (nat (n - 1)) (ready_in s2 rfds ?t)). \<not> ev_persist (evt s2 p)}"
      using Suc.IH [OF _ s2(3) ik, of "n - 1"] unfolding s2(5) by blast
    have rd: "ready_in s rfds (?p # ?t) = ?p # ready_in s rfds ?t" using 4 by (simp add: ready_in_def)
    have nn: "nat n = Suc (nat (n - 1))" using 4(1) by simp
    have pk: "ev_persist (evt s2 p) = ev_persist (evt s p)" for p using K by (simp add: ev_kept_def)
    show thesis
    proof (rule Suc.prems(1) [of s'])
      show "ready_entries (Suc k) i rfds n s = Some s'"
        using 4 eo e s1(1) s2(1) s'(1) by (simp add: load_def FD_ISSET_def watch_entry_ok_def)
      show "ev_kept s s'" using K s'(2) by (rule kept_trans)
      show "ev_inv s' ts (ps @ take (nat n) (ready_in s rfds (drop i (watch_table s))))"
        using s'(3) unfolding dr rd nn ready_in_kept [OF K] by simp
      show "entries s' = entries s -
        {p \<in> set (take (nat n) (ready_in s rfds (drop i (watch_table s)))). \<not> ev_persist (evt s p)}"
        using s'(4) s2(4) e unfolding dr rd nn ready_in_kept [OF K] pk by auto
    qed
  qed
qed

lemma processReadReadies_ok:
  assumes I: "ev_inv s ts ps" and l: "\<not> locked s" and d: "entries s \<inter> set ps = {}"
  obtains s' where "processReadReadies rfds n s = Some s'" "ev_kept s s'"
    "ev_inv s' ts (ps @ take (nat n) (ready_in s rfds (watch_table s)))"
    "entries s' = entries s -
       {p \<in> set (take (nat n) (ready_in s rfds (watch_table s))). \<not> ev_persist (evt s p)}"
proof -
  define s1 where "s1 = s\<lparr>locked := True\<rparr>"
  have I1: "ev_inv s1 ts ps" using I by (simp add: s1_def)
  have d1: "(set (drop 0 (watch_table s1)) - {NULL}) \<inter> set ps = {}"
    using d by (simp add: s1_def entries_def)
  obtain s' where s': "ready_entries MAX_FD_EVENTS 0 rfds n s1 = Some s'" "ev_kept s1 s'"
    "ev_inv s' ts (ps @ take (nat n) (ready_in s1 rfds (watch_table s1)))"
    "entries s' = entries s1 -
       {p \<in> set (take (nat n) (ready_in s1 rfds (watch_table s1))). \<not> ev_persist (evt s1 p)}"
    using ready_entries_ok [OF I1 _ d1, of MAX_FD_EVENTS rfds n] by auto
  have r: "ready_in s1 rfds (watch_table s1) = ready_in s rfds (watch_table s)"
    by (simp add: s1_def ready_in_def)
  have e: "entries s1 = entries s" "entries (mutex_release s') = entries s'"
    by (simp_all add: s1_def entries_def mutex_release_def)
  show ?thesis
  proof (rule that [of "mutex_release s'"])
    show "processReadReadies rfds n s = Some (mutex_release s')"
      using s'(1) l by (simp add: processReadReadies_def mutex_acquire_def s1_def)
    show "ev_kept s (mutex_release s')"
      using s'(2) l by (simp add: ev_kept_def call_of_def s1_def mutex_release_def rest_same_def)
    show "ev_inv (mutex_release s') ts (ps @ take (nat n) (ready_in s rfds (watch_table s)))"
      using s'(3) r by simp
    show "entries (mutex_release s') = entries s -
       {p \<in> set (take (nat n) (ready_in s rfds (watch_table s))). \<not> ev_persist (evt s p)}"
      using s'(4) r e by (simp add: s1_def)
  qed
qed

end
