(* ===== verification/EventProps.thy ===== *)
theory EventProps
  imports EventLoop
begin

text \<open>
  The operations of the event loop that the library offers, on the abstract lists, and a whole run of
  the loop: the locale \<open>event_client\<close> states what a callback must respect, and its lemmas say which
  callbacks a round runs, in which order, and that a run never goes wrong.
\<close>

section \<open>Initialisation, adding and deleting\<close>

lemma ril_event_init_ok:
  assumes "timer_list \<in> dom (mem s)" "pending_list \<in> dom (mem s)" "mem s NULL = None" "nfds s = 0"
  obtains s' where "ril_event_init s = Some s'" "ev_inv s' [] []" "\<not> locked s'" "entries s' = {}"
    "dom (mem s') = dom (mem s)" "readFds s' = {}"
proof -
  obtain t p where tp: "mem s timer_list = Some t" "mem s pending_list = Some p" using assms by auto
  define s' where "s' = the (ril_event_init s)"
  have s': "ril_event_init s = Some s'"
    using tp by (simp add: s'_def ril_event_init_def init_list_def store_ev_def)
  have f: "watch_table s' = replicate MAX_FD_EVENTS NULL" "readFds s' = {}" "nfds s' = 0" "\<not> locked s'"
    "nx (mem s') timer_list = timer_list" "pv (mem s') timer_list = timer_list"
    "nx (mem s') pending_list = pending_list" "pv (mem s') pending_list = pending_list"
    "dom (mem s') = dom (mem s)" "mem s' NULL = None"
    using tp assms by (auto simp: s'_def ril_event_init_def init_list_def store_ev_def nx_def pv_def)
  have e: "entries s' = {}" using f(1) by (auto simp: entries_def)
  have "ev_lists s' [] []"
    using f assms(1,2) by (simp add: ev_lists_def rings_def ring_empty)
  moreover have "table_ok s'"
    using f e by (simp add: table_ok_def watched_fds_def nfds_ok_def)
  ultimately have "ev_inv s' [] []" by (simp add: ev_inv_def)
  then show ?thesis using that s' f e by blast
qed

text \<open>A cell of the store that the loop does not use may be allocated, written or freed.\<close>

lemma table_ok_outside:
  assumes "table_ok s" "ev \<notin> entries s" "ev \<noteq> NULL" "mem s' = (mem s)(ev := x)"
    and "watch_table s' = watch_table s" "readFds s' = readFds s" "nfds s' = nfds s"
  shows "table_ok s'"
proof -
  have e: "entries s' = entries s" using assms(5) by (rule entries_table)
  have len: "length (watch_table s) = MAX_FD_EVENTS" using assms(1) by (simp add: table_ok_def)
  have m: "mem s' p = mem s p" if "p \<in> entries s" for p using that assms(2,4) by auto
  have "watch_entry_ok s' i (watch_table s ! i)" if "i < MAX_FD_EVENTS" "watch_table s ! i \<noteq> NULL" for i
  proof -
    have "watch_table s ! i \<in> entries s" using that len by (auto simp: entries_nth)
    then show ?thesis using that assms(1) m by (auto simp: table_ok_def watch_entry_ok_def domIff)
  qed
  moreover have "watched_fds s' = watched_fds s" using e m by (simp add: watched_fds_def)
  moreover have "inj_on (\<lambda>p. ev_fd (evt s' p)) (entries s')"
    unfolding e using assms(1) m by (auto simp: table_ok_def cong: inj_on_cong)
  moreover have "nfds_ok s' = nfds_ok s" unfolding nfds_ok_def assms(6,7) by (rule refl)
  ultimately show ?thesis using assms by (simp add: table_ok_def)
qed

lemma ev_inv_outside:
  assumes I: "ev_inv s ts ps" and n: "ev \<notin> set (timer_list # ts) \<union> set (pending_list # ps)"
    and e: "ev \<notin> entries s" "ev \<noteq> NULL" and m: "mem s' = (mem s)(ev := x)"
    and f: "watch_table s' = watch_table s" "readFds s' = readFds s" "nfds s' = nfds s"
  shows "ev_inv s' ts ps"
proof -
  have L: "ev_lists s ts ps" using I by (simp add: ev_inv_def)
  then have r: "ring (nx (mem s)) (pv (mem s)) timer_list ts"
    "ring (nx (mem s)) (pv (mem s)) pending_list ps"
    by (simp_all add: ev_lists_def rings_def)
  have "ring (nx (mem s')) (pv (mem s')) timer_list ts"
    by (rule ring_frame [OF r(1)]) (use n m in \<open>auto simp: nx_def pv_def\<close>)
  moreover have "ring (nx (mem s')) (pv (mem s')) pending_list ps"
    by (rule ring_frame [OF r(2)]) (use n m in \<open>auto simp: nx_def pv_def\<close>)
  moreover have "set (timer_list # ts) \<union> set (pending_list # ps) \<subseteq> dom (mem s')"
    using L n m by (auto simp: ev_lists_def rings_def domIff)
  ultimately have "ev_lists s' ts ps" using L m e(2) by (simp add: ev_lists_def rings_def)
  moreover have "table_ok s'"
    by (rule table_ok_outside [OF _ e m f]) (use I in \<open>simp add: ev_inv_def\<close>)
  moreover have "map (\<lambda>p. ev_timeout (evt s' p)) ts = map (\<lambda>p. ev_timeout (evt s p)) ts"
    using n m by auto
  moreover have "entries s' = entries s" using f(1) by (rule entries_table)
  ultimately show ?thesis using I by (simp only: ev_inv_def)
qed

definition new_event :: "int \<Rightarrow> bool \<Rightarrow> nat \<Rightarrow> nat \<Rightarrow> ril_event" where
  "new_event fd persist func param = blank_event\<lparr>ev_fd := fd, ev_index := -1, ev_persist := persist,
     ev_func := func, ev_param := param\<rparr>"

lemma ril_event_set_eq:
  assumes "mem s ev = Some e"
  shows "ril_event_set ev fd persist func param s =
    Some (emit (Fcntl fd) (s\<lparr>mem := (mem s)(ev \<mapsto> new_event fd persist func param)\<rparr>))"
  using assms by (simp add: ril_event_set_def store_ev_def new_event_def)

lemma ev_inv_emit [simp]: "ev_inv (emit t s) ts ps = ev_inv s ts ps"
  by (rule ev_inv_frame) (simp_all add: emit_def)

lemma ril_event_add_inv:
  assumes "ev_inv s ts ps" "\<not> locked s" "addable s ev" "ev \<notin> set ts" "NULL \<in> set (watch_table s)"
  obtains s' where "ril_event_add ev s = Some s'" "ev_inv s' ts ps" "\<not> locked s'"
    "entries s' = insert ev (entries s)" "readFds s' = insert (ev_fd (evt s ev)) (readFds s)" "ev_kept s s'"
proof -
  have t: "table_ok s" using assms(1) by (simp add: ev_inv_def)
  obtain i s' where s': "ril_event_add ev s = Some s'" "table_ok s'" "entries s' = insert ev (entries s)"
    "mem s' = (mem s)(ev \<mapsto> (evt s ev)\<lparr>ev_index := int i\<rparr>)" "i < MAX_FD_EVENTS"
    "watch_table s' ! i = ev" "readFds s' = insert (ev_fd (evt s ev)) (readFds s)" "rest_same s s'"
    by (rule ril_event_add_ok [OF t assms(3,2,5)])
  obtain e where e: "mem s ev = Some e" using assms(3) by (auto simp: addable_def)
  have m: "mem s' = (mem s)(ev \<mapsto> e\<lparr>ev_index := int i\<rparr>)" using s'(4) e by simp
  have "ev_lists s' ts ps = ev_lists s ts ps"
    by (rule lists_links)
      (use links_put [where m = "mem s" and ev = ev and e' = "e\<lparr>ev_index := int i\<rparr>", OF e] m in simp_all)
  moreover have "ev_timeout (evt s' p) = ev_timeout (evt s p)" for p using m e by simp
  ultimately have "ev_inv s' ts ps" using assms s'(2,3) by (auto simp: ev_inv_def)
  moreover have "ev_kept s s'" using m e s'(8) by (auto simp: ev_kept_def call_of_def)
  moreover have "\<not> locked s'" using s'(8) assms(2) by (simp add: rest_same_def)
  ultimately show ?thesis using that s' by blast
qed

text \<open>Deleting takes a watched event out of the table and leaves every other event alone.\<close>

lemma ril_event_del_watched:
  assumes "ev_inv s ts ps" "\<not> locked s" "ev \<in> entries s"
  obtains s' where "ril_event_del ev s = Some s'" "ev_inv s' ts ps" "\<not> locked s'"
    "entries s' = entries s - {ev}" "readFds s' = readFds s - {ev_fd (evt s ev)}" "ev_kept s s'"
proof -
  define s1 where "s1 = s\<lparr>locked := True\<rparr>"
  have I: "ev_inv s1 ts ps" using assms(1) by (simp add: s1_def)
  have t: "table_ok s" using assms(1) by (simp add: ev_inv_def)
  obtain i where i: "i < MAX_FD_EVENTS" "watch_table s ! i = ev" "ev \<noteq> NULL" "watch_entry_ok s i ev"
    by (rule table_entry [OF t assms(3)])
  obtain e where e: "mem s ev = Some e" "ev_index e = int i" using i(4) by (auto simp: watch_entry_ok_def)
  have tb: "watch_table s1 ! i = ev" using i(2) by (simp add: s1_def)
  obtain s' where s': "removeWatch ev (int i) s1 = Some s'" "ev_kept s1 s'" "ev_inv s' ts ps"
    "entries s' = entries s1 - {ev}" "watch_table s' = (watch_table s1)[i := NULL]"
    "readFds s' = readFds s1 - {ev_fd (evt s1 ev)}"
    by (rule remove_entry_ok [OF I i(1) tb i(3)])
  show ?thesis
  proof (rule that [of "mutex_release s'"])
    show "ril_event_del ev s = Some (mutex_release s')"
      using e i(1) s'(1) assms(2)
      by (simp add: ril_event_del_def mutex_acquire_def load_def s1_def)
    show "ev_kept s (mutex_release s')"
      using s'(2) assms(2) by (simp add: ev_kept_def call_of_def rest_same_def s1_def mutex_release_def)
  qed (use s' in \<open>simp_all add: s1_def entries_def, simp_all add: mutex_release_def\<close>)
qed

lemma ril_event_del_unwatched:
  assumes "\<not> locked s" "mem s ev = Some e" "ev_index e < 0"
  shows "ril_event_del ev s = Some s"
  using assms by (simp add: ril_event_del_def mutex_acquire_def mutex_release_def load_def)

text \<open>
  Corner: a timer whose timeout equals the clock is not fired, yet the time to wait is zero: the loop
  turns without waiting until the clock has moved on.
\<close>

lemma timer_due_now_waits:
  assumes "ev_inv s [t] ps" "ev_timeout (evt s t) = fst (getNow s)"
  shows "calcNextTimeout s = Some (Some (Timeval 0 0), snd (getNow s))"
    "expired s (fst (getNow s)) [t] = []"
proof -
  have L: "ev_lists s [t] ps" using assms(1) by (simp add: ev_inv_def)
  obtain h e where "mem s timer_list = Some h" "mem s t = Some e"
    using lists_dom [OF L, of timer_list] lists_dom [OF L, of t] by auto
  moreover from this have "ev_next h = t" using lists_next(2) [OF L] by (simp add: nx_def)
  moreover have "t \<noteq> timer_list" using timers_not_head [OF L, of t] by simp
  ultimately show "calcNextTimeout s = Some (Some (Timeval 0 0), snd (getNow s))"
    using assms(2) by (simp add: calcNextTimeout_def load_def getNow_def split: prod.splits)
  show "expired s (fst (getNow s)) [t] = []" using assms(2) by (simp add: expired_def)
qed

section \<open>Callbacks\<close>

text \<open>
  The callbacks \<open>cb\<close> of a client of the loop and an invariant \<open>J\<close> over its own state and the two
  lists: a callback is run when its event has left the list, and may add and delete events and timers
  as long as the other due events stay as they are.  For a \<open>event_client\<close> the moves of the loop
  itself keep \<open>J\<close> too.
\<close>

locale event_firing =
  fixes cb :: "'a callback" and J :: "'a rilst_scheme \<Rightarrow> ptr list \<Rightarrow> ptr list \<Rightarrow> bool"
  assumes J_inv: "J s ts ps \<Longrightarrow> ev_inv s ts ps \<and> \<not> locked s"
    and J_call: "J s ts (ev # ps) \<Longrightarrow> removeFromList ev s = Some s1 \<Longrightarrow>
      \<exists>s' ts'. cb (ev_func (evt s ev)) (ev_fd (evt s ev)) (ev_param (evt s ev))
          (emit (call_of s ev) s1) = Some s' \<and> J s' ts' ps \<and>
        (\<forall>p \<in> set ps. call_of s' p = call_of s p) \<and> fires s' = fires s @ [call_of s ev]"
begin

lemma fire_events_all:
  assumes "J s ts ps"
  shows "\<exists>s' ts'. fire_events cb (hd (ps @ [pending_list])) s = Some s' \<and> J s' ts' [] \<and>
    fires s' = fires s @ map (call_of s) ps"
  using assms
proof (induction ps arbitrary: s ts)
  case Nil
  then show ?case by (auto simp: fire_events.simps)
next
  case (Cons ev ps)
  have L: "ev_lists s ts (ev # ps)" using J_inv [OF Cons.prems] by (simp add: ev_inv_def)
  obtain e where e: "mem s ev = Some e" using lists_dom [OF L, of ev] by auto
  have ne: "ev \<noteq> pending_list" using L by (auto simp: ev_lists_def rings_def ring_def)
  have nxt: "ev_next e = hd (ps @ [pending_list])"
    using lists_next(3) [of s ts "[]" ev ps] L e by (simp add: nx_def)
  obtain s1 where s1: "removeFromList ev s = Some s1" using pending_pop [OF L] by metis
  obtain s2 ts2 where s2: "cb (ev_func e) (ev_fd e) (ev_param e) (emit (call_of s ev) s1) = Some s2"
    "J s2 ts2 ps" "\<forall>p \<in> set ps. call_of s2 p = call_of s p" "fires s2 = fires s @ [call_of s ev]"
    using J_call [OF Cons.prems s1] e by auto
  obtain s' ts' where s': "fire_events cb (hd (ps @ [pending_list])) s2 = Some s'" "J s' ts' []"
    "fires s' = fires s2 @ map (call_of s2) ps"
    using Cons.IH [OF s2(2)] by blast
  have "fire_events cb ev s = Some s'"
    using e ne s1 s2(1) s'(1) nxt
    by (simp add: fire_events.simps [of cb ev] load_def call_of_def)
  moreover have "map (call_of s2) ps = map (call_of s) ps" using s2(3) by simp
  ultimately show ?case using s' s2(4) by auto
qed

lemma firePending_all:
  assumes "J s ts ps"
  shows "\<exists>s' ts'. firePending cb s = Some s' \<and> J s' ts' [] \<and> fires s' = fires s @ map (call_of s) ps"
proof -
  have L: "ev_lists s ts ps" using J_inv [OF assms] by (simp add: ev_inv_def)
  obtain h where h: "mem s pending_list = Some h" using lists_dom [OF L, of pending_list] by auto
  then have "ev_next h = hd (ps @ [pending_list])" using lists_next(4) [OF L] by (simp add: nx_def)
  then show ?thesis using fire_events_all [OF assms] h by (simp add: firePending_def load_def)
qed

end

locale event_client = event_firing +
  assumes J_move: "J s ts ps \<Longrightarrow> ev_inv s' ts' ps' \<Longrightarrow> \<not> locked s' \<Longrightarrow> dom (mem s') = dom (mem s) \<Longrightarrow>
      call_of s' = call_of s \<Longrightarrow> rilst.more s' = rilst.more s \<Longrightarrow> entries s' \<subseteq> entries s \<Longrightarrow>
      set ts \<union> set ps \<subseteq> set ts' \<union> set ps' \<Longrightarrow>
      set ts' \<union> set ps' \<subseteq> set ts \<union> set ps \<union> entries s \<Longrightarrow> J s' ts' ps'"
begin

text \<open>What a round finds due: the expired timers, oldest first, and then the ready descriptors.\<close>

lemma collect_due:
  assumes J: "J s ts []"
  obtains s1 s2 where "processTimeouts s = Some s1"
    "processReadReadies (sel_fds a) (sel_n a) s1 = Some s2"
    "J s2 (waiting s (fst (getNow s)) ts) (expired s (fst (getNow s)) ts @
       take (nat (sel_n a)) (ready_in s (sel_fds a) (watch_table s)))"
    "fires s2 = fires s" "call_of s2 = call_of s" "rilst.more s2 = rilst.more s"
proof -
  let ?now = "fst (getNow s)" and ?r = "take (nat (sel_n a)) (ready_in s (sel_fds a) (watch_table s))"
  have I: "ev_inv s ts []" and l: "\<not> locked s" using J_inv [OF J] by simp_all
  let ?s0 = "s\<lparr>clock_reads := Suc (clock_reads s)\<rparr>"
  obtain s1 where s1: "processTimeouts s = Some s1" "relinked ?s0 s1"
    "ev_inv s1 (waiting s ?now ts) ([] @ expired s ?now ts)"
    by (rule processTimeouts_ok [OF I l refl])
  have st: "set (waiting s ?now ts) \<union> set (expired s ?now ts) = set ts"
    unfolding expired_def waiting_def by (metis Un_commute set_append takeWhile_dropWhile_id)
  have k0: "ev_kept ?s0 s1" using s1(2) by (rule relinked_kept)
  have f1: "watch_table s1 = watch_table s" using relinked_fields [OF s1(2)] by simp
  then have e1: "entries s1 = entries s" by (rule entries_table)
  have c1: "call_of s1 = call_of s" using kept_call [OF k0] by (simp add: call_of_def fun_eq_iff)
  have p1: "ev_persist (evt s1 p) = ev_persist (evt s p)" for p using k0 by (simp add: ev_kept_def)
  have "dom (mem s1) = dom (mem s)" "\<not> locked s1" "rilst.more s1 = rilst.more s"
    using k0 l by (simp_all add: ev_kept_def rest_same_def)
  then have J1: "J s1 (waiting s ?now ts) (expired s ?now ts)"
    using J_move [OF J, of s1 "waiting s ?now ts" "expired s ?now ts"] s1(3) c1 e1 st by simp
  have I1: "ev_inv s1 (waiting s ?now ts) (expired s ?now ts)" using s1(3) by simp
  have d: "entries s1 \<inter> set (expired s ?now ts) = {}" using I e1 st by (auto simp: ev_inv_def)
  have r1: "ready_in s1 (sel_fds a) = ready_in s (sel_fds a)"
    using ready_in_kept [OF k0] by (simp add: ready_in_def fun_eq_iff)
  obtain s2 where s2: "processReadReadies (sel_fds a) (sel_n a) s1 = Some s2" "ev_kept s1 s2"
    "ev_inv s2 (waiting s ?now ts) (expired s ?now ts @ ?r)"
    "entries s2 = entries s1 - {p \<in> set ?r. \<not> ev_persist (evt s1 p)}"
    using processReadReadies_ok [OF I1 _ d, of "sel_fds a" "sel_n a"] J_inv [OF J1] r1 f1 by auto
  have re: "set ?r \<subseteq> entries s"
    by (auto simp: ready_in_def entries_def dest: in_set_takeD)
  have "\<not> locked s2" "dom (mem s2) = dom (mem s1)" "rilst.more s2 = rilst.more s1"
    using s2(2) J_inv [OF J1] by (simp_all add: ev_kept_def rest_same_def)
  then have J2: "J s2 (waiting s ?now ts) (expired s ?now ts @ ?r)"
    by (intro J_move [OF J1 s2(3)]) (use kept_call [OF s2(2)] s2(4) e1 re in auto)
  have "fires s2 = fires s" "call_of s2 = call_of s" "rilst.more s2 = rilst.more s"
    using kept_fires [OF s2(2)] kept_fires [OF k0] kept_call [OF s2(2)] c1 s2(2) k0
    by (simp_all add: fires_def ev_kept_def rest_same_def)
  then show ?thesis using that s1(1) s2(1) J2 by blast
qed

lemma serve_round:
  assumes J: "J s ts []"
  shows "\<exists>s' ts'. serve cb a s = Some s' \<and> J s' ts' [] \<and>
    fires s' = fires s @ map (call_of s)
      (expired s (fst (getNow s)) ts @
       take (nat (sel_n a)) (ready_in s (sel_fds a) (watch_table s)))"
proof -
  let ?due = "expired s (fst (getNow s)) ts @ take (nat (sel_n a)) (ready_in s (sel_fds a) (watch_table s))"
  obtain s1 s2 where s2: "processTimeouts s = Some s1"
    "processReadReadies (sel_fds a) (sel_n a) s1 = Some s2" "J s2 (waiting s (fst (getNow s)) ts) ?due"
    "fires s2 = fires s" "call_of s2 = call_of s" "rilst.more s2 = rilst.more s"
    by (rule collect_due [OF J])
  obtain s' ts' where "firePending cb s2 = Some s'" "J s' ts' []" "fires s' = fires s2 @ map (call_of s2) ?due"
    using firePending_all [OF s2(3)] by blast
  then show ?thesis using s2 by (auto simp: serve_def)
qed

text \<open>Before a round the loop asks for exactly the watched descriptors, for ever if no timer waits.\<close>

lemma ask_select_ok:
  assumes J: "J s ts []"
  shows "\<exists>s' tv. ask_select s = Some s' \<and> J s' ts [] \<and> fires s' = fires s \<and>
    ril_trace s' = ril_trace s @ [Select (nfds s) (watched_fds s) tv] \<and> (tv = None \<longleftrightarrow> ts = [])"
proof -
  have I: "ev_inv s ts []" using J_inv [OF J] by simp
  then have L: "ev_lists s ts []" by (simp add: ev_inv_def)
  obtain h where h: "mem s timer_list = Some h" using lists_dom [OF L, of timer_list] by auto
  have hn: "ev_next h = hd (ts @ [timer_list])" using lists_next(2) [OF L] h by (simp add: nx_def)
  have rd: "readFds s = watched_fds s" using I by (simp add: ev_inv_def table_ok_def)
  obtain tv where c: "calcNextTimeout s = Some (tv, snd (getNow s))" "tv = None \<longleftrightarrow> ts = []"
  proof (cases ts)
    case Nil
    then show ?thesis using that [of None] h hn by (simp add: calcNextTimeout_def load_def split: prod.splits)
  next
    case (Cons t ts')
    then have "t \<in> dom (mem s)" "t \<noteq> timer_list"
      using lists_dom [OF L, of t] timers_not_head [OF L, of t] by auto
    then obtain e where "mem s t = Some e" "t \<noteq> timer_list" by auto
    then show ?thesis
      using that [of "Some (if fst (getNow s) < ev_timeout e then timersub (ev_timeout e) (fst (getNow s))
        else Timeval 0 0)"] h hn Cons
      by (simp add: calcNextTimeout_def load_def getNow_def split: prod.splits)
  qed
  define s' where "s' = emit (Select (nfds s) (watched_fds s) tv) (snd (getNow s))"
  have g: "snd (getNow s) = s\<lparr>clock_reads := Suc (clock_reads s)\<rparr>" by (simp add: getNow_def split: prod.splits)
  have "ask_select s = Some s'"
    using c rd by (simp add: ask_select_def s'_def g)
  moreover have m: "mem s' = mem s" "watch_table s' = watch_table s" "readFds s' = readFds s" "nfds s' = nfds s"
    "locked s' = locked s" "rilst.more s' = rilst.more s"
    "ril_trace s' = ril_trace s @ [Select (nfds s) (watched_fds s) tv]"
    by (simp_all add: s'_def g emit_def)
  moreover have "J s' ts []"
    using J_move [OF J, of s' ts "[]"] J_inv [OF J] ev_inv_frame [OF m(1-4)] m
    by (simp add: call_of_def entries_def fun_eq_iff)
  ultimately show ?thesis using c(2) by (auto simp: fires_def)
qed

end

text \<open>
  What the other threads do while the loop waits: \<open>meanwhile c\<close> for the \<open>c\<close> that are \<open>allowed\<close>.
  Then the loop never goes wrong, and returns only when \<open>select\<close> fails for good.
\<close>

definition select_fails :: "select_answer \<Rightarrow> bool" where
  "select_fails a \<longleftrightarrow> sel_n a < 0 \<and> sel_errno a \<noteq> EINTR"

locale event_service = event_client +
  fixes meanwhile :: "'b \<Rightarrow> 'a rilst_scheme \<Rightarrow> 'a rilst_scheme option" and allowed :: "'b \<Rightarrow> bool"
  assumes J_meanwhile: "J s ts [] \<Longrightarrow> allowed c \<Longrightarrow> \<exists>s' ts'. meanwhile c s = Some s' \<and> J s' ts' []"
begin

lemma ril_event_loop_ok:
  assumes "J s ts []" and "\<forall>(c, a) \<in> set as. allowed c"
  shows "\<exists>r s' ts'. ril_event_loop cb meanwhile as s = Some (r, s') \<and> J s' ts' [] \<and>
    (r \<longleftrightarrow> (\<exists>a \<in> set as. select_fails (snd a)))"
  using assms
proof (induction as arbitrary: s ts)
  case (Cons ca as)
  obtain c a where ca: "ca = (c, a)" by (cases ca) auto
  obtain s0 where s0: "ask_select s = Some s0" "J s0 ts []" using ask_select_ok [OF Cons.prems(1)] by blast
  obtain s1 ts1 where s1: "meanwhile c s0 = Some s1" "J s1 ts1 []"
    using J_meanwhile [OF s0(2), of c] Cons.prems(2) ca by auto
  show ?case
  proof (cases "sel_n a < 0")
    case True
    then show ?thesis
      using s0 s1 ca Cons.IH [OF s1(2)] Cons.prems(2) by (auto simp: select_fails_def)
  next
    case False
    obtain s2 ts2 where s2: "serve cb a s1 = Some s2" "J s2 ts2 []" using serve_round [OF s1(2)] by blast
    then show ?thesis
      using s0 s1 ca False Cons.IH [OF s2(2)] Cons.prems(2) by (auto simp: select_fails_def)
  qed
qed auto

end

end
