(* ===== verification/RilTimed.thy ===== *)
theory RilTimed
  imports EventProps
begin

text \<open>
  Timed callbacks and the wake lock of the radio interface layer (\<open>src/ril/libril/ril.cpp\<close>): the
  client of the event loop.  A timed callback is a heap cell \<open>UserCallbackInfo\<close> that holds its timer
  event; the model gives both the same address.  The wake lock is taken with a timed callback that
  gives it back after 200 ms, and that is cancelled by writing into its cell.
\<close>

section \<open>State\<close>

record UserCallbackInfo =
  p_callback :: nat
  userParam :: nat
  p_cid :: int

text \<open>What happens outside: the pipe that wakes the loop, and the queue of the vendor library.\<close>

datatype ril_sys =
    WriteWakeup
  | ReadWakeup
  | Enqueue ptr

type_synonym thread_id = nat

record ThreadProxyId =
  th_cid :: int
  th_pthread :: thread_id

record ril = rilst +
  infos :: "ptr \<Rightarrow> UserCallbackInfo option"
  ril_version :: int
  s_wakelock_count :: int
  s_last_wake_timeout_info :: ptr
  wake_mutex :: bool
  wake_held :: bool
  threadPid :: "ThreadProxyId list"
  pthread_self :: thread_id
  s_tid_dispatch :: thread_id
  ril_sys :: "ril_sys list"

text \<open>Addresses of the callbacks of \<open>ril.cpp\<close>.\<close>

definition userTimerCallback_fn :: nat where
  "userTimerCallback_fn = 1"

definition processWakeupCallback_fn :: nat where
  "processWakeupCallback_fn = 2"

definition wakeTimeoutCallback_fn :: nat where
  "wakeTimeoutCallback_fn = 3"

definition RIL_URC :: int where
  "RIL_URC = 0"

definition TIMEVAL_WAKE_TIMEOUT :: timeval where
  "TIMEVAL_WAKE_TIMEOUT = Timeval 0 200000"

section \<open>The table of threads\<close>

definition MAX_RIL_CHANNELS :: nat where
  "MAX_RIL_CHANNELS = 12"

text \<open>The first loop of \<open>addThreadPid\<close>: the entry of the thread, the first free one, or the end.\<close>

fun thread_entry :: "ThreadProxyId list \<Rightarrow> thread_id \<Rightarrow> nat" where
  "thread_entry [] tid = 0"
| "thread_entry (e # es) tid =
     (if th_pthread e \<noteq> 0 \<and> th_pthread e \<noteq> tid then Suc (thread_entry es tid) else 0)"

text \<open>The second loop: the entries before \<open>j\<close> move down by one.\<close>

fun shift_down :: "nat \<Rightarrow> ThreadProxyId list \<Rightarrow> ThreadProxyId list" where
  "shift_down 0 es = es"
| "shift_down (Suc j) es = shift_down j (es[Suc j := es ! j])"

definition addThreadPid_table :: "int \<Rightarrow> thread_id \<Rightarrow> ThreadProxyId list \<Rightarrow> ThreadProxyId list" where
  "addThreadPid_table cid tid es =
     (let i = thread_entry (take MAX_RIL_CHANNELS es) tid;
          i = (if i = MAX_RIL_CHANNELS then MAX_RIL_CHANNELS - 1 else i)
      in (shift_down i es)[0 := \<lparr>th_cid = cid, th_pthread = tid\<rparr>])"

definition addThreadPid :: "int \<Rightarrow> thread_id \<Rightarrow> ril \<Rightarrow> ril" where
  "addThreadPid cid tid s = s\<lparr>threadPid := addThreadPid_table cid tid (threadPid s)\<rparr>"

section \<open>Timed callbacks\<close>

definition triggerEvLoop :: "ril \<Rightarrow> ril" where
  "triggerEvLoop s =
     (if pthread_self s \<noteq> s_tid_dispatch s then s\<lparr>ril_sys := ril_sys s @ [WriteWakeup]\<rparr> else s)"

text \<open>
  \<open>calloc\<close> is a parameter: from the addresses in use it gives a new one, or \<open>NULL\<close>.
\<close>

definition calloc_ok :: "(ptr set \<Rightarrow> ptr) \<Rightarrow> bool" where
  "calloc_ok calloc \<longleftrightarrow> (\<forall>D. calloc D = NULL \<or> calloc D \<notin> D)"

definition new_info :: "ptr \<Rightarrow> UserCallbackInfo \<Rightarrow> ril \<Rightarrow> ril" where
  "new_info p i s = s\<lparr>mem := (mem s)(p \<mapsto> blank_event), infos := (infos s)(p \<mapsto> i)\<rparr>"

definition internalRequestTimedCallback ::
  "(ptr set \<Rightarrow> ptr) \<Rightarrow> nat \<Rightarrow> nat \<Rightarrow> timeval option \<Rightarrow> int \<Rightarrow> ril \<Rightarrow> (ptr \<times> ril) option" where
  "internalRequestTimedCallback calloc callback param relativeTime cid s =
     (let p_info = calloc (dom (mem s))
      in if p_info = NULL then Some (NULL, s)
      else do {
        let s = new_info p_info \<lparr>p_callback = callback, userParam = param, p_cid = cid\<rparr> s;
        let s = (if cid > -1 then addThreadPid cid (pthread_self s) s else s);
        let myRelativeTime = (case relativeTime of None \<Rightarrow> Timeval 0 0 | Some tv \<Rightarrow> tv);
        s \<leftarrow> ril_event_set p_info (-1) False userTimerCallback_fn p_info s;
        s \<leftarrow> ril_timer_add p_info (Some myRelativeTime) s;
        Some (p_info, triggerEvLoop s) })"

definition RIL_requestTimedCallback ::
  "(ptr set \<Rightarrow> ptr) \<Rightarrow> nat \<Rightarrow> nat \<Rightarrow> timeval option \<Rightarrow> ril \<Rightarrow> ril option" where
  "RIL_requestTimedCallback calloc callback param relativeTime s = do {
     (_, s) \<leftarrow> internalRequestTimedCallback calloc callback param relativeTime (-1) s;
     Some s }"

section \<open>The wake lock\<close>

definition wake_lock_mutex :: "ril \<Rightarrow> ril option" where
  "wake_lock_mutex s = (if wake_mutex s then None else Some (s\<lparr>wake_mutex := True\<rparr>))"

definition wake_unlock_mutex :: "ril \<Rightarrow> ril" where
  "wake_unlock_mutex s = s\<lparr>wake_mutex := False\<rparr>"

text \<open>\<open>s_last_wake_timeout_info->userParam = (void *)1\<close>\<close>

definition cancel_last :: "ril \<Rightarrow> ril option" where
  "cancel_last s =
     (if s_last_wake_timeout_info s \<noteq> NULL
      then (case infos s (s_last_wake_timeout_info s) of
              None \<Rightarrow> None
            | Some i \<Rightarrow> Some (s\<lparr>infos := (infos s)(s_last_wake_timeout_info s \<mapsto> i\<lparr>userParam := 1\<rparr>)\<rparr>))
      else Some s)"

definition grabPartialWakeLock :: "(ptr set \<Rightarrow> ptr) \<Rightarrow> ril \<Rightarrow> ril option" where
  "grabPartialWakeLock calloc s =
     (if ril_version s \<ge> 13
      then do {
        s \<leftarrow> wake_lock_mutex s;
        let s = s\<lparr>wake_held := True\<rparr>;
        (p_info, s) \<leftarrow> internalRequestTimedCallback calloc wakeTimeoutCallback_fn 0
          (Some TIMEVAL_WAKE_TIMEOUT) (-1) s;
        s \<leftarrow> (if p_info = NULL then Some (s\<lparr>wake_held := False\<rparr>)
              else do {
                let s = s\<lparr>s_wakelock_count := s_wakelock_count s + 1\<rparr>;
                s \<leftarrow> cancel_last s;
                Some (s\<lparr>s_last_wake_timeout_info := p_info\<rparr>) });
        Some (wake_unlock_mutex s) }
      else Some (s\<lparr>wake_held := True\<rparr>))"

definition releaseWakeLock :: "ril \<Rightarrow> ril option" where
  "releaseWakeLock s =
     (if ril_version s \<ge> 13
      then do {
        s \<leftarrow> wake_lock_mutex s;
        s \<leftarrow> (if s_wakelock_count s > 1 then Some (s\<lparr>s_wakelock_count := s_wakelock_count s - 1\<rparr>)
              else do {
                let s = s\<lparr>s_wakelock_count := 0, wake_held := False\<rparr>;
                cancel_last s });
        Some (wake_unlock_mutex s) }
      else Some (s\<lparr>wake_held := False\<rparr>))"

definition wakeTimeoutCallback :: "nat \<Rightarrow> ril \<Rightarrow> ril option" where
  "wakeTimeoutCallback param s =
     (if ril_version s \<ge> 13
      then (if param = NULL
            then do {
              s \<leftarrow> wake_lock_mutex s;
              let s = s\<lparr>s_wakelock_count := 0, wake_held := False\<rparr>;
              Some (wake_unlock_mutex s) }
            else Some s)
      else (if param = NULL then releaseWakeLock s else Some s))"

section \<open>Callbacks of the loop\<close>

text \<open>
  A timed callback of the vendor library is outside of the sources: it is given by the calls back into
  this library that it makes.  A response or an indication takes and gives back the wake lock.
\<close>

datatype ril_call =
    RequestTimed nat nat "timeval option"
  | GrabWakeLock
  | ReleaseWakeLock

fun vendor_calls :: "(ptr set \<Rightarrow> ptr) \<Rightarrow> ril_call list \<Rightarrow> ril \<Rightarrow> ril option" where
  "vendor_calls calloc [] s = Some s"
| "vendor_calls calloc (c # cs) s = do {
     s \<leftarrow> (case c of
            RequestTimed f p tv \<Rightarrow> RIL_requestTimedCallback calloc f p tv s
          | GrabWakeLock \<Rightarrow> grabPartialWakeLock calloc s
          | ReleaseWakeLock \<Rightarrow> releaseWakeLock s);
     vendor_calls calloc cs s }"

type_synonym vendor = "nat \<Rightarrow> nat \<Rightarrow> ril_call list"

definition timed_callback :: "vendor \<Rightarrow> (ptr set \<Rightarrow> ptr) \<Rightarrow> nat \<Rightarrow> nat \<Rightarrow> ril \<Rightarrow> ril option" where
  "timed_callback vendor calloc f param s =
     (if f = wakeTimeoutCallback_fn then wakeTimeoutCallback param s
      else vendor_calls calloc (vendor f param) s)"

definition free_info :: "ptr \<Rightarrow> ril \<Rightarrow> ril" where
  "free_info p s = s\<lparr>mem := (mem s)(p := None), infos := (infos s)(p := None)\<rparr>"

definition userTimerCallback :: "vendor \<Rightarrow> (ptr set \<Rightarrow> ptr) \<Rightarrow> nat \<Rightarrow> ril \<Rightarrow> ril option" where
  "userTimerCallback vendor calloc param s = do {
     p_info \<leftarrow> infos s param;
     if p_cid p_info \<ge> RIL_URC then Some (s\<lparr>ril_sys := ril_sys s @ [Enqueue param]\<rparr>)
     else do {
       s \<leftarrow> timed_callback vendor calloc (p_callback p_info) (userParam p_info) s;
       let s = (if s_last_wake_timeout_info s \<noteq> NULL \<and> s_last_wake_timeout_info s = param
                then s\<lparr>s_last_wake_timeout_info := NULL\<rparr> else s);
       Some (free_info param s) } }"

definition processWakeupCallback :: "ril \<Rightarrow> ril option" where
  "processWakeupCallback s = Some (s\<lparr>ril_sys := ril_sys s @ [ReadWakeup]\<rparr>)"

definition ril_callback :: "vendor \<Rightarrow> (ptr set \<Rightarrow> ptr) \<Rightarrow> nat \<Rightarrow> int \<Rightarrow> nat \<Rightarrow> ril \<Rightarrow> ril option" where
  "ril_callback vendor calloc func fd param s =
     (if func = userTimerCallback_fn then userTimerCallback vendor calloc param s
      else if func = processWakeupCallback_fn then processWakeupCallback s
      else None)"

section \<open>The thread of the loop\<close>

definition s_wakeupfd_event :: ptr where
  "s_wakeupfd_event = 3"

definition rilEventAddWakeup :: "ptr \<Rightarrow> ril \<Rightarrow> ril option" where
  "rilEventAddWakeup ev s = do {
     s \<leftarrow> ril_event_add ev s;
     Some (triggerEvLoop s) }"

text \<open>Calls of another thread: its number and what it calls.\<close>

definition thread_calls :: "(ptr set \<Rightarrow> ptr) \<Rightarrow> thread_id \<times> ril_call list \<Rightarrow> ril \<Rightarrow> ril option" where
  "thread_calls calloc c s = do {
     s' \<leftarrow> vendor_calls calloc (snd c) (s\<lparr>pthread_self := fst c\<rparr>);
     Some (s'\<lparr>pthread_self := pthread_self s\<rparr>) }"

text \<open>
  \<open>eventLoop\<close> with the result of \<open>pipe\<close> (the descriptor to read from, if it succeeds).  The flag tells
  whether the loop has returned, after which the process kills itself.
\<close>

definition eventLoop ::
  "vendor \<Rightarrow> (ptr set \<Rightarrow> ptr) \<Rightarrow> int option \<Rightarrow> ((thread_id \<times> ril_call list) \<times> select_answer) list \<Rightarrow>
   ril \<Rightarrow> (bool \<times> ril) option" where
  "eventLoop vendor calloc pipe as s = do {
     s \<leftarrow> ril_event_init s;
     case pipe of
       None \<Rightarrow> Some (False, s)
     | Some s_fdWakeupRead \<Rightarrow> do {
         let s = emit (Fcntl s_fdWakeupRead) s;
         s \<leftarrow> ril_event_set s_wakeupfd_event s_fdWakeupRead True processWakeupCallback_fn NULL s;
         s \<leftarrow> rilEventAddWakeup s_wakeupfd_event s;
         ril_event_loop (ril_callback vendor calloc) (thread_calls calloc) as s } }"

end
