(* ===== verification/RilWake.thy ===== *)
theory RilWake
  imports RilTimed
begin

text \<open>
  The timed callbacks keep the event loop in order, and the wake lock is never held without a timer
  that will give it back.
\<close>

section \<open>The invariant\<close>

definition timer_ev :: "ril \<Rightarrow> ptr \<Rightarrow> bool" where
  "timer_ev s p \<longleftrightarrow> ev_func (evt s p) = userTimerCallback_fn \<and> ev_param (evt s p) = p \<and> infos s p \<noteq> None"

definition wakeup_ev :: "ril \<Rightarrow> ptr \<Rightarrow> bool" where
  "wakeup_ev s p \<longleftrightarrow> ev_func (evt s p) = processWakeupCallback_fn \<and> infos s p = None"

text \<open>The cell \<open>q\<close> is a timeout of the wake lock; \<open>live\<close>: it has not been cancelled.\<close>

definition wake_info :: "ril \<Rightarrow> ptr \<Rightarrow> bool" where
  "wake_info s q \<longleftrightarrow> (\<exists>i. infos s q = Some i \<and> p_callback i = wakeTimeoutCallback_fn \<and> p_cid i < 0)"

definition live :: "ril \<Rightarrow> ptr \<Rightarrow> bool" where
  "live s q \<longleftrightarrow> (\<exists>i. infos s q = Some i \<and> userParam i = 0)"

definition wake_ok :: "ril \<Rightarrow> ptr set \<Rightarrow> bool" where
  "wake_ok s L \<longleftrightarrow>
     (s_last_wake_timeout_info s \<noteq> NULL \<longrightarrow>
        s_last_wake_timeout_info s \<in> L \<and> wake_info s (s_last_wake_timeout_info s)) \<and>
     (\<forall>q \<in> L. \<forall>i. infos s q = Some i \<longrightarrow> p_callback i = wakeTimeoutCallback_fn \<longrightarrow>
        p_cid i < 0 \<and> (q \<noteq> s_last_wake_timeout_info s \<longrightarrow> userParam i \<noteq> 0)) \<and>
     (ril_version s \<ge> 13 \<longrightarrow> wake_held s \<longrightarrow>
        s_last_wake_timeout_info s \<noteq> NULL \<and> live s (s_last_wake_timeout_info s))"

definition ril_base :: "ril \<Rightarrow> ptr list \<Rightarrow> ptr list \<Rightarrow> bool" where
  "ril_base s ts ps \<longleftrightarrow> ev_inv s ts ps \<and> \<not> locked s \<and>
     (\<forall>p \<in> set ts \<union> set ps \<union> entries s. timer_ev s p \<or> wakeup_ev s p) \<and>
     (\<forall>p \<in> entries s. infos s p = None) \<and> dom (infos s) \<subseteq> dom (mem s)"

text \<open>\<open>E\<close> are cells of callbacks that are being run: in no list any more, and not yet freed.\<close>

definition run_inv :: "ril \<Rightarrow> ptr list \<Rightarrow> ptr list \<Rightarrow> ptr set \<Rightarrow> bool" where
  "run_inv s ts ps E \<longleftrightarrow> ril_base s ts ps \<and> \<not> wake_mutex s \<and> wake_ok s (set ts \<union> set ps \<union> E) \<and>
     E \<subseteq> dom (mem s) \<and> E \<inter> (set (timer_list # ts) \<union> set (pending_list # ps) \<union> entries s) = {}"

definition ril_inv :: "ril \<Rightarrow> ptr list \<Rightarrow> ptr list \<Rightarrow> bool" where
  "ril_inv s ts ps \<longleftrightarrow> run_inv s ts ps {}"

text \<open>The vendor library does not know the static function \<open>wakeTimeoutCallback\<close>.\<close>

definition calls_ok :: "ril_call list \<Rightarrow> bool" where
  "calls_ok cs \<longleftrightarrow>
     (\<forall>c \<in> set cs. case c of RequestTimed g q tv \<Rightarrow> g \<noteq> wakeTimeoutCallback_fn | _ \<Rightarrow> True)"

definition vendor_ok :: "vendor \<Rightarrow> bool" where
  "vendor_ok vendor \<longleftrightarrow> (\<forall>f p. calls_ok (vendor f p))"

section \<open>Requesting a timed callback\<close>

text \<open>What of the state of the wake lock a request does not touch.\<close>

definition wake_same :: "ril \<Rightarrow> ril \<Rightarrow> bool" where
  "wake_same s s' \<longleftrightarrow> ril_version s' = ril_version s \<and> s_wakelock_count s' = s_wakelock_count s \<and>
     s_last_wake_timeout_info s' = s_last_wake_timeout_info s \<and> wake_mutex s' = wake_mutex s \<and>
     wake_held s' = wake_held s"

lemma fires_simps [simp]:
  "fires (emit (Fcntl fd) s) = fires s" "fires (emit (Select n fds t) s) = fires s"
  "fires (emit (Fire f fd p) s) = fires s @ [Fire f fd p]"
  by (simp_all add: fires_def emit_def)

lemma request_failed:
  "calloc (dom (mem s)) = NULL \<Longrightarrow>
   internalRequestTimedCallback calloc callback param tv cid s = Some (NULL, s)"
  by (simp add: internalRequestTimedCallback_def)

lemma request_made:
  assumes B: "ril_base s ts ps" and c: "calloc_ok calloc" and p: "calloc (dom (mem s)) = p" "p \<noteq> NULL"
  obtains s' ts' where "internalRequestTimedCallback calloc callback param tv cid s = Some (p, s')"
    "ril_base s' ts' ps" "set ts' = insert p (set ts)" "p \<notin> set ts \<union> set ps"
    "infos s' = (infos s)(p \<mapsto> \<lparr>p_callback = callback, userParam = param, p_cid = cid\<rparr>)"
    "\<forall>q \<in> set ts \<union> set ps \<union> entries s. call_of s' q = call_of s q" "fires s' = fires s"
    "wake_same s s'" "p \<notin> dom (mem s)" "dom (mem s') = insert p (dom (mem s))" "entries s' = entries s"
proof -
  have I: "ev_inv s ts ps" and l: "\<not> locked s" using B by (simp_all add: ril_base_def)
  have L: "ev_lists s ts ps" and T: "table_ok s" using I by (simp_all add: ev_inv_def)
  have fresh: "p \<notin> dom (mem s)" using c p by (metis calloc_ok_def)
  have out: "p \<notin> set (timer_list # ts) \<union> set (pending_list # ps)" using fresh lists_dom [OF L] by blast
  have ed: "q \<in> dom (mem s)" if "q \<in> entries s" for q
    using table_entry [OF T that] by (auto simp: watch_entry_ok_def)
  then have ne: "p \<notin> entries s" using fresh by blast
  let ?i = "\<lparr>p_callback = callback, userParam = param, p_cid = cid\<rparr>"
  define e where "e = new_event (-1) False userTimerCallback_fn p"
  define s0 where "s0 = (let s = new_info p ?i s in
    if cid > -1 then addThreadPid cid (pthread_self s) s else s)"
  have m0: "mem s0 = (mem s)(p \<mapsto> blank_event)"
    by (simp add: s0_def Let_def new_info_def addThreadPid_def)
  define s1 where "s1 = emit (Fcntl (-1)) (s0\<lparr>mem := (mem s)(p \<mapsto> e)\<rparr>)"
  have set1: "ril_event_set p (-1) False userTimerCallback_fn p s0 = Some s1"
    using ril_event_set_eq [of s0 p blank_event] m0 by (simp add: s1_def e_def)
  have m1: "mem s1 = (mem s)(p \<mapsto> e)" and i1: "infos s1 = (infos s)(p \<mapsto> ?i)"
    and f1: "watch_table s1 = watch_table s" "readFds s1 = readFds s" "nfds s1 = nfds s" "locked s1 = locked s"
    and fi1: "fires s1 = fires s" and w1: "wake_same s s1"
    by (simp_all add: s1_def s0_def new_info_def addThreadPid_def emit_def wake_same_def fires_def Let_def)
  have e1: "entries s1 = entries s" using f1(1) by (rule entries_table)
  have I1: "ev_inv s1 ts ps" by (rule ev_inv_outside [OF I out ne p(2) m1 f1(1-3)])
  have lo: "loose s1 ts ps p" using out m1 by (simp add: loose_def)
  let ?tv = "case tv of None \<Rightarrow> Timeval 0 0 | Some tv \<Rightarrow> tv"
  define t where "t = timeradd (fst (getNow s1)) ?tv"
  obtain s2 where s2: "ril_timer_add p (Some ?tv) s1 = Some s2"
    "ev_inv s2 (insert_timer (\<lambda>p. ev_timeout (evt s1 p)) t p ts) ps"
    "relinked (s1\<lparr>mem := (mem s1)(p \<mapsto> (evt s1 p)\<lparr>ev_fd := -1, ev_timeout := t\<rparr>),
       clock_reads := Suc (clock_reads s1)\<rparr>) s2"
    using ril_timer_add_ok [OF I1 lo _ _ t_def] ne e1 f1(4) l by metis
  let ?ts = "insert_timer (\<lambda>p. ev_timeout (evt s1 p)) t p ts"
  have r2: "watch_table s2 = watch_table s" "locked s2 = locked s" "rilst.more s2 = rilst.more s1"
    "fires s2 = fires s"
    using relinked_fields [OF s2(3)] f1 fi1 by (simp_all add: fires_def)
  have e2: "entries s2 = entries s" using r2(1) by (rule entries_table)
  have d2: "dom (mem s2) = insert p (dom (mem s))"
    using relinked_dom [OF s2(3)] m1 by auto
  have c2: "call_of s2 q = (if q = p then Fire userTimerCallback_fn (-1) p else call_of s q)" for q
    using relinked_call [OF s2(3)] m1 by (simp add: call_of_def e_def new_event_def fun_eq_iff)
  have i2: "infos s2 = (infos s)(p \<mapsto> ?i)" and w2: "wake_same s s2"
    using r2(3) i1 w1 by (cases s2; cases s1; simp add: wake_same_def)+
  have k2: "timer_ev s2 q \<or> wakeup_ev s2 q" if "q \<in> insert p (set ts) \<union> set ps \<union> entries s" for q
  proof (cases "q = p")
    case True
    then show ?thesis using c2 [of p] i2 by (simp add: timer_ev_def call_of_def)
  next
    case False
    then show ?thesis
      using that B c2 [of q] i2 by (auto simp: ril_base_def timer_ev_def wakeup_ev_def call_of_def)
  qed
  have "ril_base s2 ?ts ps"
    using s2(2) r2(2) l k2 e2 i2 d2 ne B by (auto simp: ril_base_def)
  moreover have tr: "mem (triggerEvLoop s2) = mem s2" "entries (triggerEvLoop s2) = entries s2"
    "infos (triggerEvLoop s2) = infos s2" "locked (triggerEvLoop s2) = locked s2"
    "fires (triggerEvLoop s2) = fires s2" "wake_same s2 (triggerEvLoop s2)"
    "watch_table (triggerEvLoop s2) = watch_table s2" "readFds (triggerEvLoop s2) = readFds s2"
    "nfds (triggerEvLoop s2) = nfds s2"
    by (simp_all add: triggerEvLoop_def entries_def fires_def wake_same_def)
  ultimately have "ril_base (triggerEvLoop s2) ?ts ps"
    using ev_inv_frame [OF tr(1,7,8,9)]
    by (simp add: ril_base_def timer_ev_def wakeup_ev_def)
  moreover have "internalRequestTimedCallback calloc callback param tv cid s = Some (p, triggerEvLoop s2)"
    using p s2(1) set1 [unfolded s0_def] by (simp add: internalRequestTimedCallback_def Let_def)
  moreover have "call_of (triggerEvLoop s2) = call_of s2" using tr(1) by (simp add: call_of_def fun_eq_iff)
  moreover have "wake_same s (triggerEvLoop s2)" using w2 tr(6) by (simp add: wake_same_def)
  moreover have "\<forall>q \<in> set ts \<union> set ps \<union> entries s. call_of (triggerEvLoop s2) q = call_of s q"
  proof
    fix q assume "q \<in> set ts \<union> set ps \<union> entries s"
    then have "q \<noteq> p" using out ne by auto
    then show "call_of (triggerEvLoop s2) q = call_of s q" using c2 tr(1) by (simp add: call_of_def)
  qed
  ultimately show ?thesis
    using out fresh tr r2(4) i2 d2 e2 by (intro that [of "triggerEvLoop s2" ?ts]) simp_all
qed

section \<open>The wake lock\<close>

text \<open>
  \<open>step_ok m s ps E\<close>: \<open>m\<close>, run in a callback, succeeds, keeps the invariant, and leaves the due events
  and the cells of \<open>E\<close> what they are.
\<close>

definition step_ok :: "ril option \<Rightarrow> ril \<Rightarrow> ptr list \<Rightarrow> ptr set \<Rightarrow> bool" where
  "step_ok m s ps E \<longleftrightarrow> (\<exists>s' ts'. m = Some s' \<and> run_inv s' ts' ps E \<and>
     (\<forall>q \<in> set ps. call_of s' q = call_of s q) \<and> fires s' = fires s \<and>
     (\<forall>q \<in> E. map_option p_callback (infos s' q) = map_option p_callback (infos s q)))"

text \<open>A change of the fields of the wake lock only.\<close>

definition loop_same :: "ril \<Rightarrow> ril \<Rightarrow> bool" where
  "loop_same s s' \<longleftrightarrow> mem s' = mem s \<and> watch_table s' = watch_table s \<and> readFds s' = readFds s \<and>
     nfds s' = nfds s \<and> locked s' = locked s \<and> ril_trace s' = ril_trace s \<and>
     (\<forall>q. map_option p_callback (infos s' q) = map_option p_callback (infos s q))"

lemma infos_None_iff:
  "map_option p_callback (infos s' q) = map_option p_callback (infos s q) \<Longrightarrow>
   infos s' q = None \<longleftrightarrow> infos s q = None"
  by (metis option.map_disc_iff)

lemma loop_same_base:
  assumes "loop_same s s'" "ril_base s ts ps"
  shows "ril_base s' ts ps"
proof -
  have "entries s' = entries s" using assms(1) by (simp add: loop_same_def entries_def)
  moreover have "ev_inv s' ts ps = ev_inv s ts ps"
    by (rule ev_inv_frame) (use assms(1) in \<open>simp_all add: loop_same_def\<close>)
  moreover have "infos s' q = None \<longleftrightarrow> infos s q = None" for q
    by (rule infos_None_iff) (use assms(1) in \<open>simp add: loop_same_def\<close>)
  ultimately show ?thesis
    using assms by (simp add: ril_base_def timer_ev_def wakeup_ev_def loop_same_def dom_def)
qed

lemma loop_same_step:
  assumes "loop_same s s'" "run_inv s ts ps E" "\<not> wake_mutex s'" "wake_ok s' (set ts \<union> set ps \<union> E)"
  shows "step_ok (Some s') s ps E"
proof -
  have "entries s' = entries s" "call_of s' = call_of s" "fires s' = fires s"
    using assms(1) by (simp_all add: loop_same_def entries_def call_of_def fires_def fun_eq_iff)
  moreover have "ril_base s' ts ps" using loop_same_base [OF assms(1)] assms(2) by (simp add: run_inv_def)
  ultimately show ?thesis
    using assms unfolding step_ok_def run_inv_def loop_same_def by auto
qed

lemma cancel_last_eq:
  assumes "s_last_wake_timeout_info s \<noteq> NULL \<Longrightarrow> infos s (s_last_wake_timeout_info s) \<noteq> None"
  obtains s' where "cancel_last s = Some s'" "s' = s\<lparr>infos := infos s'\<rparr>"
    "\<forall>q. q \<noteq> s_last_wake_timeout_info s \<longrightarrow> infos s' q = infos s q"
    "\<forall>q. map_option p_callback (infos s' q) = map_option p_callback (infos s q) \<and>
       map_option p_cid (infos s' q) = map_option p_cid (infos s q)"
    "s_last_wake_timeout_info s \<noteq> NULL \<longrightarrow>
       map_option userParam (infos s' (s_last_wake_timeout_info s)) = Some 1"
proof (cases "s_last_wake_timeout_info s = NULL")
  case True
  then show ?thesis by (intro that [of s]) (simp_all add: cancel_last_def)
next
  case False
  then obtain i where "infos s (s_last_wake_timeout_info s) = Some i"
    using assms by auto
  then show ?thesis using False by (intro that [of "the (cancel_last s)"]) (simp_all add: cancel_last_def)
qed

lemma wake_okD:
  "wake_ok s L \<Longrightarrow> s_last_wake_timeout_info s \<noteq> NULL \<Longrightarrow> s_last_wake_timeout_info s \<in> L"
  "wake_ok s L \<Longrightarrow> s_last_wake_timeout_info s \<noteq> NULL \<Longrightarrow> wake_info s (s_last_wake_timeout_info s)"
  "wake_ok s L \<Longrightarrow> q \<in> L \<Longrightarrow> infos s q = Some i \<Longrightarrow> p_callback i = wakeTimeoutCallback_fn \<Longrightarrow>
     p_cid i < 0 \<and> (q \<noteq> s_last_wake_timeout_info s \<longrightarrow> userParam i \<noteq> 0)"
  unfolding wake_ok_def by blast+

lemma map_option_cid:
  "map_option p_callback x = map_option p_callback y \<Longrightarrow> map_option p_cid x = map_option p_cid y \<Longrightarrow>
   x = Some i \<Longrightarrow> \<exists>j. y = Some j \<and> p_callback j = p_callback i \<and> p_cid j = p_cid i"
  by (cases y) auto

text \<open>After the lock is given back every timeout may be cancelled.\<close>

lemma releaseWakeLock_ok:
  assumes R: "run_inv s ts ps E"
  shows "step_ok (releaseWakeLock s) s ps E"
proof -
  have W: "wake_ok s (set ts \<union> set ps \<union> E)" and m: "\<not> wake_mutex s"
    using R by (simp_all add: run_inv_def)
  show ?thesis
  proof (cases "ril_version s \<ge> 13")
    case False
    let ?s = "s\<lparr>wake_held := False\<rparr>"
    have "step_ok (Some ?s) s ps E"
      by (rule loop_same_step [OF _ R])
        (use W m False in \<open>simp_all add: loop_same_def wake_ok_def wake_info_def live_def\<close>)
    then show ?thesis using False by (simp add: releaseWakeLock_def)
  next
    case True
    show ?thesis
    proof (cases "s_wakelock_count s > 1")
      case c: True
      let ?s = "s\<lparr>s_wakelock_count := s_wakelock_count s - 1\<rparr>"
      have "step_ok (Some ?s) s ps E"
        by (rule loop_same_step [OF _ R])
          (use W m in \<open>simp_all add: loop_same_def wake_ok_def wake_info_def live_def\<close>)
      moreover have "releaseWakeLock s = Some ?s"
        using True c m by (simp add: releaseWakeLock_def wake_lock_mutex_def wake_unlock_mutex_def)
      ultimately show ?thesis by simp
    next
      case c: False
      define t where "t = s\<lparr>wake_mutex := True, s_wakelock_count := 0, wake_held := False\<rparr>"
      have "infos t (s_last_wake_timeout_info t) \<noteq> None" if "s_last_wake_timeout_info t \<noteq> NULL"
        using that W by (auto simp: t_def wake_ok_def wake_info_def)
      then obtain t' where t': "cancel_last t = Some t'" "t' = t\<lparr>infos := infos t'\<rparr>"
        "\<forall>q. q \<noteq> s_last_wake_timeout_info t \<longrightarrow> infos t' q = infos t q"
        "\<forall>q. map_option p_callback (infos t' q) = map_option p_callback (infos t q) \<and>
           map_option p_cid (infos t' q) = map_option p_cid (infos t q)"
        using cancel_last_eq by metis
      let ?s = "wake_unlock_mutex t'"
      have e: "releaseWakeLock s = Some ?s"
        using True c m t'(1) by (simp add: releaseWakeLock_def wake_lock_mutex_def t_def)
      have s: "?s = s\<lparr>s_wakelock_count := 0, wake_held := False, infos := infos t'\<rparr>"
        using m by (subst t'(2)) (simp add: t_def wake_unlock_mutex_def)
      have i: "infos t = infos s" "s_last_wake_timeout_info t = s_last_wake_timeout_info s"
        by (simp_all add: t_def)
      have c4: "map_option p_callback (infos t' q) = map_option p_callback (infos s q)"
        "map_option p_cid (infos t' q) = map_option p_cid (infos s q)" for q
        using t'(4) i by simp_all
      have "wake_info ?s q = wake_info s q" for q
        unfolding s wake_info_def using c4 [of q] by (cases "infos t' q"; cases "infos s q") auto
      moreover have "p_cid j < 0 \<and> (q \<noteq> s_last_wake_timeout_info s \<longrightarrow> userParam j \<noteq> 0)"
        if a: "q \<in> set ts \<union> set ps \<union> E" "infos t' q = Some j" "p_callback j = wakeTimeoutCallback_fn"
        for q j
      proof -
        obtain k where k: "infos s q = Some k" "p_callback k = p_callback j" "p_cid k = p_cid j"
          using map_option_cid [OF c4 a(2)] by blast
        have "infos s q = Some j" if "q \<noteq> s_last_wake_timeout_info s"
          using that t'(3) a(2) i by auto
        then show ?thesis using wake_okD(3) [OF W a(1) k(1)] k a(3) by auto
      qed
      ultimately have "wake_ok ?s (set ts \<union> set ps \<union> E)"
        using W by (simp add: wake_ok_def) (simp add: s)
      then have "step_ok (Some ?s) s ps E"
        by (rule loop_same_step [OF _ R, rotated -1]) (use m t'(4) i in \<open>simp_all add: s loop_same_def\<close>)
      then show ?thesis using e by simp
    qed
  qed
qed

text \<open>A timed callback of the vendor has nothing to do with the wake lock.\<close>

lemma run_inv_request:
  assumes R: "run_inv s ts ps E" and b: "ril_base s' ts' ps" "set ts' = insert p (set ts)"
    "p \<notin> dom (mem s)" "dom (mem s') = insert p (dom (mem s))" "entries s' = entries s" "\<not> wake_mutex s'"
    and w: "wake_ok s' (insert p (set ts \<union> set ps \<union> E))"
  shows "run_inv s' ts' ps E"
proof -
  have "set ts' \<union> set ps \<union> E = insert p (set ts \<union> set ps \<union> E)" using b(2) by auto
  moreover have "p \<notin> E" using R b(3) by (auto simp: run_inv_def)
  ultimately show ?thesis using R b w by (auto simp: run_inv_def)
qed

lemma requestTimed_ok:
  assumes R: "run_inv s ts ps E" and c: "calloc_ok calloc" and f: "f \<noteq> wakeTimeoutCallback_fn"
  shows "step_ok (RIL_requestTimedCallback calloc f param tv s) s ps E"
proof (cases "calloc (dom (mem s)) = NULL")
  case True
  then show ?thesis
    using R by (auto simp: RIL_requestTimedCallback_def request_failed step_ok_def)
next
  case False
  have B: "ril_base s ts ps" and W: "wake_ok s (set ts \<union> set ps \<union> E)" using R by (simp_all add: run_inv_def)
  obtain p where p: "calloc (dom (mem s)) = p" by simp
  obtain s' ts' where s': "internalRequestTimedCallback calloc f param tv (-1) s = Some (p, s')"
    "ril_base s' ts' ps" "set ts' = insert p (set ts)" "p \<notin> set ts \<union> set ps"
    "infos s' = (infos s)(p \<mapsto> \<lparr>p_callback = f, userParam = param, p_cid = -1\<rparr>)"
    "\<forall>q \<in> set ts \<union> set ps \<union> entries s. call_of s' q = call_of s q" "fires s' = fires s"
    "wake_same s s'" "p \<notin> dom (mem s)" "dom (mem s') = insert p (dom (mem s))" "entries s' = entries s"
    using request_made [OF B c p] p False by blast
  have pE: "p \<notin> set ts \<union> set ps \<union> E" using R s'(4,9) by (auto simp: run_inv_def)
  have i: "infos s' q = infos s q" if "q \<noteq> p" for q using that s'(5) by simp
  have "s_last_wake_timeout_info s \<noteq> NULL \<Longrightarrow> s_last_wake_timeout_info s \<noteq> p"
    using wake_okD(1) [OF W] pE by blast
  then have "wake_ok s' (insert p (set ts \<union> set ps \<union> E))"
    using W f s'(8) unfolding wake_ok_def wake_info_def live_def wake_same_def
    by (auto simp: s'(5))
  moreover have "\<not> wake_mutex s'" using R s'(8) by (simp add: run_inv_def wake_same_def)
  ultimately have "run_inv s' ts' ps E"
    using run_inv_request [OF R s'(2,3,9,10,11)] by simp
  moreover have "\<forall>q \<in> E. infos s' q = infos s q"
  proof
    fix q assume "q \<in> E"
    then have "q \<noteq> p" using pE by blast
    then show "infos s' q = infos s q" by (rule i)
  qed
  ultimately show ?thesis
    using s'(1,6,7) unfolding step_ok_def RIL_requestTimedCallback_def by auto
qed

lemma grabPartialWakeLock_ok:
  assumes R: "run_inv s ts ps E" and c: "calloc_ok calloc"
  shows "step_ok (grabPartialWakeLock calloc s) s ps E"
proof (cases "ril_version s \<ge> 13")
  case False
  let ?s = "s\<lparr>wake_held := True\<rparr>"
  have "step_ok (Some ?s) s ps E"
    by (rule loop_same_step [OF _ R])
      (use R False in \<open>simp_all add: loop_same_def run_inv_def wake_ok_def wake_info_def live_def\<close>)
  then show ?thesis using False by (simp add: grabPartialWakeLock_def)
next
  case v: True
  have W: "wake_ok s (set ts \<union> set ps \<union> E)" and m: "\<not> wake_mutex s" and B: "ril_base s ts ps"
    using R by (simp_all add: run_inv_def)
  define s1 where "s1 = s\<lparr>wake_mutex := True, wake_held := True\<rparr>"
  have s1: "mem s1 = mem s" "infos s1 = infos s" "s_last_wake_timeout_info s1 = s_last_wake_timeout_info s"
    "entries s1 = entries s" "call_of s1 = call_of s" "fires s1 = fires s"
    by (simp_all add: s1_def entries_def call_of_def fires_def fun_eq_iff)
  have B1: "ril_base s1 ts ps"
    by (rule loop_same_base [OF _ B]) (simp add: loop_same_def s1_def)
  show ?thesis
  proof (cases "calloc (dom (mem s)) = NULL")
    case True
    let ?s = "s\<lparr>wake_held := False\<rparr>"
    have "step_ok (Some ?s) s ps E"
      by (rule loop_same_step [OF _ R])
        (use W m in \<open>simp_all add: loop_same_def wake_ok_def wake_info_def live_def\<close>)
    moreover have "grabPartialWakeLock calloc s = Some ?s"
      using v m True
      by (simp add: grabPartialWakeLock_def wake_lock_mutex_def request_failed wake_unlock_mutex_def)
    ultimately show ?thesis by simp
  next
    case False
    obtain p where p: "calloc (dom (mem s)) = p" by simp
    let ?i = "\<lparr>p_callback = wakeTimeoutCallback_fn, userParam = 0, p_cid = -1\<rparr>"
    obtain s2 ts' where s2:
      "internalRequestTimedCallback calloc wakeTimeoutCallback_fn 0 (Some TIMEVAL_WAKE_TIMEOUT) (-1) s1
         = Some (p, s2)"
      "ril_base s2 ts' ps" "set ts' = insert p (set ts)" "p \<notin> set ts \<union> set ps"
      "infos s2 = (infos s1)(p \<mapsto> ?i)"
      "\<forall>q \<in> set ts \<union> set ps \<union> entries s1. call_of s2 q = call_of s1 q" "fires s2 = fires s1"
      "wake_same s1 s2" "p \<notin> dom (mem s1)" "dom (mem s2) = insert p (dom (mem s1))"
      "entries s2 = entries s1"
      using request_made [OF B1 c, of p] p False s1(1) by metis
    define t where "t = s2\<lparr>s_wakelock_count := s_wakelock_count s2 + 1\<rparr>"
    have pE: "p \<notin> set ts \<union> set ps \<union> E" using R s2(4,9) s1(1) by (auto simp: run_inv_def)
    have la: "s_last_wake_timeout_info t = s_last_wake_timeout_info s"
      using s2(8) s1(3) by (simp add: t_def wake_same_def)
    have lp: "s_last_wake_timeout_info s \<noteq> NULL \<Longrightarrow> s_last_wake_timeout_info s \<noteq> p"
      using wake_okD(1) [OF W] pE by blast
    have it: "infos t = (infos s)(p \<mapsto> ?i)" using s2(5) s1(2) by (simp add: t_def)
    have hn: "infos t (s_last_wake_timeout_info t) \<noteq> None" if "s_last_wake_timeout_info t \<noteq> NULL"
      using that lp wake_okD(2) [OF W] by (auto simp: la it wake_info_def)
    obtain t' where t': "cancel_last t = Some t'" "t' = t\<lparr>infos := infos t'\<rparr>"
      "\<forall>q. q \<noteq> s_last_wake_timeout_info t \<longrightarrow> infos t' q = infos t q"
      "\<forall>q. map_option p_callback (infos t' q) = map_option p_callback (infos t q) \<and>
         map_option p_cid (infos t' q) = map_option p_cid (infos t q)"
      "s_last_wake_timeout_info t \<noteq> NULL \<longrightarrow>
         map_option userParam (infos t' (s_last_wake_timeout_info t)) = Some 1"
      by (rule cancel_last_eq [OF hn])
    define s' where "s' = t'\<lparr>s_last_wake_timeout_info := p, wake_mutex := False\<rparr>"
    have s': "s' = s2\<lparr>s_wakelock_count := s_wakelock_count s2 + 1, infos := infos t',
       s_last_wake_timeout_info := p, wake_mutex := False\<rparr>"
      unfolding s'_def by (subst t'(2)) (simp add: t_def)
    have g: "grabPartialWakeLock calloc s = Some s'"
      using v m p False s2(1) t'(1)
      by (simp add: grabPartialWakeLock_def wake_lock_mutex_def wake_unlock_mutex_def s1_def t_def s'_def)
    have pn: "p \<noteq> NULL" using p False by simp
    have ip: "infos t' p = Some ?i"
      using t'(3) lp la it pn by (metis fun_upd_same)
    have ls: "loop_same s2 s'"
      using t'(4) it s2(5) s1(2) by (simp add: s' loop_same_def)
    have "p_cid j < 0 \<and> (q \<noteq> p \<longrightarrow> userParam j \<noteq> 0)"
      if a: "q \<in> insert p (set ts \<union> set ps \<union> E)" "infos t' q = Some j" "p_callback j = wakeTimeoutCallback_fn"
      for q j
    proof (cases "q = p")
      case True
      then show ?thesis using ip a(2) by auto
    next
      case qp: False
      have c4: "map_option p_callback (infos t' q) = map_option p_callback (infos s q)"
        "map_option p_cid (infos t' q) = map_option p_cid (infos s q)"
        using t'(4) it qp by simp_all
      obtain k where k: "infos s q = Some k" "p_callback k = p_callback j" "p_cid k = p_cid j"
        using map_option_cid [OF c4 a(2)] by blast
      have qL: "q \<in> set ts \<union> set ps \<union> E" using a(1) qp by simp
      have n: "p_cid k < 0 \<and> (q \<noteq> s_last_wake_timeout_info s \<longrightarrow> userParam k \<noteq> 0)"
        using wake_okD(3) [OF W qL k(1)] k(2) a(3) by simp
      show ?thesis
      proof (cases "q = s_last_wake_timeout_info s")
        case True
        have "q \<noteq> NULL" using k(1) B by (auto simp: ril_base_def ev_inv_def table_ok_def)
        then have "userParam j = 1" using t'(5) True la a(2) by simp
        then show ?thesis using n k(3) by simp
      next
        case False
        then have "infos t' q = infos s q" using t'(3) la it qp by simp
        then show ?thesis using n False k(1) a(2) by simp
      qed
    qed
    then have W': "wake_ok s' (insert p (set ts \<union> set ps \<union> E))"
      using ip pn by (simp add: wake_ok_def wake_info_def live_def s')
    have "ril_base s' ts' ps" by (rule loop_same_base [OF ls s2(2)])
    then have "run_inv s' ts' ps E"
      using run_inv_request [OF R _ s2(3)] W' s2(9-11) s1(1,4) by (simp add: s' entries_def)
    moreover have "\<forall>q \<in> set ps. call_of s' q = call_of s q"
      using s2(6) s1(5) by (simp add: s' call_of_def)
    moreover have "fires s' = fires s" using s2(7) s1(6) by (simp add: s' fires_def)
    moreover have "\<forall>q \<in> E. map_option p_callback (infos s' q) = map_option p_callback (infos s q)"
      using t'(4) it pE by (auto simp: s')
    ultimately show ?thesis using g unfolding step_ok_def by blast
  qed
qed

section \<open>Callbacks\<close>

lemma step_ok_trans:
  assumes "step_ok (f s) s ps E"
    and "\<And>s' ts'. run_inv s' ts' ps E \<Longrightarrow> step_ok (g s') s' ps E"
  shows "step_ok (do { s' \<leftarrow> f s; g s' }) s ps E"
proof -
  obtain t ts where t: "f s = Some t" "run_inv t ts ps E" "\<forall>q \<in> set ps. call_of t q = call_of s q"
    "fires t = fires s" "\<forall>q \<in> E. map_option p_callback (infos t q) = map_option p_callback (infos s q)"
    using assms(1) unfolding step_ok_def by blast
  show ?thesis using t assms(2) [OF t(2)] unfolding step_ok_def by auto
qed

lemma vendor_calls_ok:
  assumes "run_inv s ts ps E" "calloc_ok calloc" and "calls_ok cs"
  shows "step_ok (vendor_calls calloc cs s) s ps E"
  using assms
proof (induction cs arbitrary: s ts)
  case Nil
  then show ?case by (auto simp: step_ok_def)
next
  case (Cons c cs)
  have "step_ok (case c of RequestTimed f p tv \<Rightarrow> RIL_requestTimedCallback calloc f p tv s
      | GrabWakeLock \<Rightarrow> grabPartialWakeLock calloc s | ReleaseWakeLock \<Rightarrow> releaseWakeLock s) s ps E"
    using Cons.prems requestTimed_ok grabPartialWakeLock_ok releaseWakeLock_ok
    by (cases c) (auto simp: calls_ok_def)
  moreover have "calls_ok cs" using Cons.prems(3) by (simp add: calls_ok_def)
  ultimately show ?case
    using Cons by (simp only: vendor_calls.simps) (rule step_ok_trans, auto)
qed

text \<open>The cell of a callback that has run is freed.\<close>

lemma free_info_ok:
  assumes B: "ril_base s ts ps" and W: "wake_ok s (set ts \<union> set ps)" and m: "\<not> wake_mutex s"
    and d: "ev \<in> dom (mem s)" and ne: "ev \<notin> entries s"
    and out: "ev \<notin> set (timer_list # ts) \<union> set (pending_list # ps)"
  shows "ril_inv (free_info ev s) ts ps" "\<forall>q \<in> set ps. call_of (free_info ev s) q = call_of s q"
    "fires (free_info ev s) = fires s"
proof -
  let ?s = "free_info ev s"
  have I: "ev_inv s ts ps" using B by (simp add: ril_base_def)
  have nn: "ev \<noteq> NULL" using d I by (metis domIff ev_inv_def table_ok_def)
  have e: "entries ?s = entries s" by (simp add: free_info_def entries_def)
  have I': "ev_inv ?s ts ps"
    by (rule ev_inv_outside [OF I out ne nn, where x = None]) (simp_all add: free_info_def)
  have same: "mem ?s q = mem s q" "infos ?s q = infos s q" if "q \<noteq> ev" for q
    using that by (simp_all add: free_info_def)
  have k: "timer_ev ?s q \<or> wakeup_ev ?s q" if "q \<in> set ts \<union> set ps \<union> entries s" for q
  proof -
    have "q \<noteq> ev" using that out ne by auto
    then show ?thesis
      using that B same [of q] by (simp add: ril_base_def timer_ev_def wakeup_ev_def)
  qed
  have "ril_base ?s ts ps"
    using I' k e B same ne by (auto simp: ril_base_def free_info_def)
  moreover have "wake_ok ?s (set ts \<union> set ps)"
  proof -
    have "wake_info ?s q = wake_info s q" "live ?s q = live s q" if "q \<noteq> ev" for q
      using same(2) [OF that] by (simp_all add: wake_info_def live_def)
    moreover have "s_last_wake_timeout_info s \<noteq> NULL \<Longrightarrow> s_last_wake_timeout_info s \<noteq> ev"
      using wake_okD(1) [OF W] out by auto
    ultimately show ?thesis
      using W unfolding wake_ok_def by (auto simp: free_info_def split: if_splits)
  qed
  ultimately show "ril_inv ?s ts ps" using m by (simp add: ril_inv_def run_inv_def free_info_def)
  show "\<forall>q \<in> set ps. call_of ?s q = call_of s q"
  proof
    fix q assume "q \<in> set ps"
    then have "q \<noteq> ev" using out by auto
    then show "call_of ?s q = call_of s q" using same(1) by (simp add: call_of_def)
  qed
  show "fires ?s = fires s" by (simp add: fires_def free_info_def)
qed

text \<open>
  The time-out of the wake lock itself: afterwards the lock is not held, or the cell was cancelled and
  is not the one that counts.
\<close>

lemma wakeTimeoutCallback_ok:
  assumes R: "run_inv s ts ps {ev}" and i: "infos s ev = Some i" "p_callback i = wakeTimeoutCallback_fn"
  obtains s' ts' where "wakeTimeoutCallback (userParam i) s = Some s'" "run_inv s' ts' ps {ev}"
    "\<forall>q \<in> set ps. call_of s' q = call_of s q" "fires s' = fires s"
    "ril_version s' \<ge> 13 \<and> wake_held s' \<longrightarrow> s_last_wake_timeout_info s' \<noteq> ev"
proof -
  have W: "wake_ok s (set ts \<union> set ps \<union> {ev})" and m: "\<not> wake_mutex s"
    using R by (simp_all add: run_inv_def)
  consider "userParam i \<noteq> 0" | "userParam i = 0" "ril_version s \<ge> 13"
    | "userParam i = 0" "\<not> ril_version s \<ge> 13" by blast
  then show thesis
  proof cases
    case 1
    have "ril_version s \<ge> 13 \<and> wake_held s \<longrightarrow> s_last_wake_timeout_info s \<noteq> ev"
      using W 1 i by (auto simp: wake_ok_def live_def)
    then show thesis using 1 R by (intro that [of s ts]) (simp_all add: wakeTimeoutCallback_def)
  next
    case 2
    let ?s = "s\<lparr>s_wakelock_count := 0, wake_held := False\<rparr>"
    have "step_ok (Some ?s) s ps {ev}"
      by (rule loop_same_step [OF _ R])
        (use W m in \<open>simp_all add: loop_same_def wake_ok_def wake_info_def live_def\<close>)
    then obtain ts' where "run_inv ?s ts' ps {ev}" "\<forall>q \<in> set ps. call_of ?s q = call_of s q"
      "fires ?s = fires s" by (auto simp: step_ok_def)
    moreover have "wakeTimeoutCallback (userParam i) s = Some ?s"
      using 2 m by (simp add: wakeTimeoutCallback_def wake_lock_mutex_def wake_unlock_mutex_def)
    ultimately show thesis by (intro that [of ?s ts']) simp_all
  next
    case 3
    obtain s' ts' where s': "releaseWakeLock s = Some s'" "run_inv s' ts' ps {ev}"
      "\<forall>q \<in> set ps. call_of s' q = call_of s q" "fires s' = fires s"
      using releaseWakeLock_ok [OF R] by (auto simp: step_ok_def)
    have "s' = s\<lparr>wake_held := False\<rparr>" using s'(1) 3(2) by (simp add: releaseWakeLock_def)
    then show thesis using 3 s' by (intro that [of s' ts']) (simp_all add: wakeTimeoutCallback_def)
  qed
qed

lemma userTimerCallback_ok:
  assumes R: "run_inv s ts ps {ev}" and c: "calloc_ok calloc" and v: "vendor_ok vendor"
    and i: "infos s ev = Some i"
  obtains s' ts' where "userTimerCallback vendor calloc ev s = Some s'" "ril_inv s' ts' ps"
    "\<forall>q \<in> set ps. call_of s' q = call_of s q" "fires s' = fires s"
proof (cases "p_cid i \<ge> RIL_URC")
  case True
  let ?s = "s\<lparr>ril_sys := ril_sys s @ [Enqueue ev]\<rparr>"
  have "ril_base s ts ps" "wake_ok s (set ts \<union> set ps \<union> {ev})" using R by (simp_all add: run_inv_def)
  moreover from this(2) have "s_last_wake_timeout_info s \<noteq> ev \<or> s_last_wake_timeout_info s = NULL"
    using True i by (auto simp: wake_ok_def wake_info_def RIL_URC_def)
  moreover have "ril_base ?s ts ps"
    by (rule loop_same_base [OF _ \<open>ril_base s ts ps\<close>]) (simp add: loop_same_def)
  ultimately have "ril_inv ?s ts ps"
    using R by (auto simp: ril_inv_def run_inv_def wake_ok_def wake_info_def live_def)
  then show ?thesis
    using True i by (intro that [of ?s ts])
      (simp_all add: userTimerCallback_def call_of_def fires_def)
next
  case False
  have m: "\<exists>s1 ts1. timed_callback vendor calloc (p_callback i) (userParam i) s = Some s1 \<and>
    run_inv s1 ts1 ps {ev} \<and> (\<forall>q \<in> set ps. call_of s1 q = call_of s q) \<and> fires s1 = fires s \<and>
    (ril_version s1 \<ge> 13 \<and> wake_held s1 \<longrightarrow> s_last_wake_timeout_info s1 \<noteq> ev)"
  proof (cases "p_callback i = wakeTimeoutCallback_fn")
    case True
    then show ?thesis
      using wakeTimeoutCallback_ok [OF R i True] by (metis timed_callback_def)
  next
    case f: False
    have "step_ok (vendor_calls calloc (vendor (p_callback i) (userParam i)) s) s ps {ev}"
      by (rule vendor_calls_ok [OF R c]) (use v in \<open>simp add: vendor_ok_def\<close>)
    then obtain s1 ts1 where s1: "vendor_calls calloc (vendor (p_callback i) (userParam i)) s = Some s1"
      "run_inv s1 ts1 ps {ev}" "\<forall>q \<in> set ps. call_of s1 q = call_of s q" "fires s1 = fires s"
      "map_option p_callback (infos s1 ev) = map_option p_callback (infos s ev)"
      by (auto simp: step_ok_def)
    have nn: "ev \<noteq> NULL"
      using R by (auto simp: run_inv_def ril_base_def ev_inv_def table_ok_def)
    have "s_last_wake_timeout_info s1 \<noteq> ev"
      using s1(2,5) i f nn by (auto simp: run_inv_def wake_ok_def wake_info_def)
    then show ?thesis using s1 f by (auto simp: timed_callback_def)
  qed
  then obtain s1 ts1 where s1: "timed_callback vendor calloc (p_callback i) (userParam i) s = Some s1"
    "run_inv s1 ts1 ps {ev}" "\<forall>q \<in> set ps. call_of s1 q = call_of s q" "fires s1 = fires s"
    "ril_version s1 \<ge> 13 \<and> wake_held s1 \<longrightarrow> s_last_wake_timeout_info s1 \<noteq> ev"
    by blast
  define s2 where "s2 = (if s_last_wake_timeout_info s1 \<noteq> NULL \<and> s_last_wake_timeout_info s1 = ev
    then s1\<lparr>s_last_wake_timeout_info := NULL\<rparr> else s1)"
  have u: "userTimerCallback vendor calloc ev s = Some (free_info ev s2)"
    using False i s1(1) by (simp add: userTimerCallback_def s2_def)
  have ls: "loop_same s1 s2" by (simp add: loop_same_def s2_def)
  have B1: "ril_base s1 ts1 ps" and W1: "wake_ok s1 (set ts1 \<union> set ps \<union> {ev})"
    and o1: "\<not> wake_mutex s1" "ev \<in> dom (mem s1)" "ev \<notin> entries s1"
      "ev \<notin> set (timer_list # ts1) \<union> set (pending_list # ps)"
    using s1(2) by (auto simp: run_inv_def)
  have nn: "ev \<noteq> NULL" using o1(2) B1 by (metis domIff ev_inv_def ril_base_def table_ok_def)
  have W2: "wake_ok s2 (set ts1 \<union> set ps)"
  proof (cases "s_last_wake_timeout_info s1 = ev")
    case True
    have "q \<noteq> ev" if "q \<in> set ts1 \<union> set ps" for q using that o1(4) by auto
    then show ?thesis
      using True nn W1 s1(5) by (auto simp: s2_def wake_ok_def)
  next
    case False
    then show ?thesis using W1 by (auto simp: s2_def wake_ok_def)
  qed
  have o2: "\<not> wake_mutex s2" "ev \<in> dom (mem s2)" "ev \<notin> entries s2"
    using o1 by (simp_all add: s2_def entries_def)
  note F = free_info_ok [OF loop_same_base [OF ls B1] W2 o2 o1(4)]
  have "call_of s2 = call_of s1" "fires s2 = fires s1" using ls by (simp_all add: s2_def call_of_def fires_def fun_eq_iff)
  then show ?thesis using F s1(3,4) u by (intro that [of "free_info ev s2" ts1]) simp_all
qed

text \<open>The whole state of the client is what \<open>rilst.more\<close> holds.\<close>

lemma more_fields:
  fixes s s' :: ril
  assumes "rilst.more s' = rilst.more s"
  shows "infos s' = infos s" "ril_version s' = ril_version s" "wake_held s' = wake_held s"
    "wake_mutex s' = wake_mutex s" "s_last_wake_timeout_info s' = s_last_wake_timeout_info s"
  using assms by (cases s; cases s'; simp)+

lemma wake_ok_more:
  assumes W: "wake_ok s L" and m: "rilst.more s' = rilst.more s" and sub: "L \<subseteq> L'"
    and new: "\<And>q. q \<in> L' \<Longrightarrow> q \<in> L \<or> infos s q = None"
  shows "wake_ok s' L'"
proof -
  note f = more_fields [OF m]
  have "wake_info s' = wake_info s" "live s' = live s"
    using f(1) by (simp_all add: wake_info_def live_def fun_eq_iff)
  moreover have "p_cid i < 0 \<and> (q \<noteq> s_last_wake_timeout_info s \<longrightarrow> userParam i \<noteq> 0)"
    if "q \<in> L'" "infos s q = Some i" "p_callback i = wakeTimeoutCallback_fn" for q i
    using wake_okD(3) [OF W _ that(2,3)] new [OF that(1)] that(2) by simp
  ultimately show ?thesis using W sub unfolding wake_ok_def f by (auto dest: subsetD)
qed

lemma call_of_timer_ev:
  assumes "call_of s' p = call_of s p" "infos s' = infos s"
  shows "timer_ev s' p = timer_ev s p" "wakeup_ev s' p = wakeup_ev s p"
  using assms by (simp_all add: call_of_def timer_ev_def wakeup_ev_def)

lemma ril_inv_move:
  assumes J: "ril_inv s ts ps" and I: "ev_inv s' ts' ps'" and l: "\<not> locked s'"
    and d: "dom (mem s') = dom (mem s)" and c: "call_of s' = call_of s" and m: "rilst.more s' = rilst.more s"
    and e: "entries s' \<subseteq> entries s" and sub: "set ts \<union> set ps \<subseteq> set ts' \<union> set ps'"
    and sup: "set ts' \<union> set ps' \<subseteq> set ts \<union> set ps \<union> entries s"
  shows "ril_inv s' ts' ps'"
proof -
  note f = more_fields [OF m]
  have B: "ril_base s ts ps" and W: "wake_ok s (set ts \<union> set ps)" and mu: "\<not> wake_mutex s"
    using J by (simp_all add: ril_inv_def run_inv_def)
  have k: "timer_ev s' p \<or> wakeup_ev s' p" if "p \<in> set ts \<union> set ps \<union> entries s" for p
    using B that call_of_timer_ev [of s' p s] c f(1) unfolding ril_base_def by simp
  have "\<forall>p \<in> set ts' \<union> set ps' \<union> entries s'. timer_ev s' p \<or> wakeup_ev s' p" using sup e k by blast
  moreover have "\<forall>p \<in> entries s'. infos s' p = None" using B e f(1) by (auto simp: ril_base_def)
  ultimately have "ril_base s' ts' ps'"
    using I l d B f(1) by (simp add: ril_base_def)
  moreover have "wake_ok s' (set ts' \<union> set ps')"
  proof (rule wake_ok_more [OF W m sub])
    fix q assume "q \<in> set ts' \<union> set ps'"
    then show "q \<in> set ts \<union> set ps \<or> infos s q = None"
      using sup B by (auto simp: ril_base_def)
  qed
  ultimately show ?thesis using mu f(4) by (simp add: ril_inv_def run_inv_def)
qed

text \<open>The state in which a callback runs: its event has left the list of due events.\<close>

lemma popped:
  assumes J: "ril_inv s ts (ev # ps)" and r: "removeFromList ev s = Some s1"
  defines "e \<equiv> emit (call_of s ev) s1"
  shows "ril_base e ts ps" "call_of e = call_of s" "fires e = fires s @ [call_of s ev]"
    "infos e = infos s" "ril_version e = ril_version s" "wake_mutex e = wake_mutex s"
    "s_last_wake_timeout_info e = s_last_wake_timeout_info s" "wake_held e = wake_held s"
    "timer_ev s ev \<Longrightarrow> run_inv e ts ps {ev}"
proof -
  have B: "ril_base s ts (ev # ps)" and W: "wake_ok s (insert ev (set ts \<union> set ps))" and mu: "\<not> wake_mutex s"
    using J by (simp_all add: ril_inv_def run_inv_def)
  have I: "ev_inv s ts (ev # ps)" and L: "ev_lists s ts (ev # ps)" using B by (simp_all add: ril_base_def ev_inv_def)
  obtain s1' where s1': "removeFromList ev s = Some s1'" "relinked s s1'" "ev_lists s1' ts ps" "loose s1' ts ps ev"
    by (rule pending_pop [OF L])
  then have s1: "relinked s s1" "ev_lists s1 ts ps" "loose s1 ts ps ev" using r by simp_all
  have I1: "ev_inv s1 ts ps"
    by (rule ev_inv_relinked [OF s1(1) I s1(2)]) (use I in \<open>simp_all add: ev_inv_def\<close>)
  have Ie: "ev_inv e ts ps" using I1 by (simp add: e_def)
  have f: "watch_table s1 = watch_table s" "locked s1 = locked s" "rilst.more s1 = rilst.more s"
    "ril_trace s1 = ril_trace s"
    using relinked_fields [OF s1(1)] by simp_all
  have me: "mem e = mem s1" "entries e = entries s" "locked e = locked s"
    using f by (simp_all add: e_def emit_def entries_def)
  show ie: "infos e = infos s" and "ril_version e = ril_version s" and we: "wake_mutex e = wake_mutex s"
    and le: "s_last_wake_timeout_info e = s_last_wake_timeout_info s" and "wake_held e = wake_held s"
    using more_fields [OF f(3)] by (simp_all add: e_def emit_def)
  show ce: "call_of e = call_of s"
    using relinked_call [OF s1(1)] by (simp add: e_def call_of_def emit_def fun_eq_iff)
  show "fires e = fires s @ [call_of s ev]"
    using f(4) by (simp add: e_def fires_def emit_def call_of_def)
  have ke: "timer_ev e p = timer_ev s p" "wakeup_ev e p = wakeup_ev s p" for p
    using call_of_timer_ev [of e p s] ce ie by simp_all
  have de: "dom (mem e) = dom (mem s)" using relinked_dom [OF s1(1)] me(1) by simp
  show Be: "ril_base e ts ps"
    using B Ie me ie ke de by (auto simp: ril_base_def)
  show "run_inv e ts ps {ev}" if t: "timer_ev s ev"
  proof -
    have "ev \<notin> entries s" using B t by (auto simp: ril_base_def timer_ev_def)
    moreover have "rilst.more e = rilst.more s" using f(3) by (simp add: e_def emit_def)
    then have "wake_ok e (insert ev (set ts \<union> set ps))"
      using wake_ok_more [OF W] by blast
    ultimately show ?thesis
      using Be mu we me s1(3) by (auto simp: run_inv_def loose_def)
  qed
qed

lemma ril_callback_ok:
  assumes J: "ril_inv s ts (ev # ps)" and c: "calloc_ok calloc" and v: "vendor_ok vendor"
    and r: "removeFromList ev s = Some s1"
  shows "\<exists>s' ts'. ril_callback vendor calloc (ev_func (evt s ev)) (ev_fd (evt s ev)) (ev_param (evt s ev))
      (emit (call_of s ev) s1) = Some s' \<and> ril_inv s' ts' ps \<and>
    (\<forall>p \<in> set ps. call_of s' p = call_of s p) \<and> fires s' = fires s @ [call_of s ev]"
proof -
  let ?e = "emit (call_of s ev) s1"
  note P = popped [OF J r]
  have "timer_ev s ev \<or> wakeup_ev s ev"
    using J by (simp add: ril_inv_def run_inv_def ril_base_def)
  then show ?thesis
  proof
    assume t: "timer_ev s ev"
    then obtain i where i: "infos s ev = Some i" by (auto simp: timer_ev_def)
    obtain s' ts' where s': "userTimerCallback vendor calloc ev ?e = Some s'" "ril_inv s' ts' ps"
      "\<forall>q \<in> set ps. call_of s' q = call_of ?e q" "fires s' = fires ?e"
      using userTimerCallback_ok [OF P(9) [OF t] c v, of i] i P(4) by metis
    moreover have "ril_callback vendor calloc (ev_func (evt s ev)) (ev_fd (evt s ev)) (ev_param (evt s ev)) ?e
      = userTimerCallback vendor calloc ev ?e"
      using t by (simp add: ril_callback_def timer_ev_def)
    ultimately show ?thesis using P(2,3) by auto
  next
    assume w: "wakeup_ev s ev"
    let ?s = "?e\<lparr>ril_sys := ril_sys ?e @ [ReadWakeup]\<rparr>"
    have ls: "loop_same ?e ?s" by (simp add: loop_same_def)
    have "wake_ok s (insert ev (set ts \<union> set ps))" "\<not> wake_mutex s"
      using J by (simp_all add: ril_inv_def run_inv_def)
    then have "wake_ok ?s (set ts \<union> set ps)" "\<not> wake_mutex ?s"
      using w P(4-8) unfolding wake_ok_def wake_info_def live_def by (auto simp: wakeup_ev_def)
    then have "ril_inv ?s ts ps"
      using loop_same_base [OF ls P(1)] by (simp add: ril_inv_def run_inv_def)
    moreover have "ril_callback vendor calloc (ev_func (evt s ev)) (ev_fd (evt s ev)) (ev_param (evt s ev)) ?e
      = Some ?s"
      using w by (simp add: ril_callback_def wakeup_ev_def processWakeupCallback_def
          userTimerCallback_fn_def processWakeupCallback_fn_def)
    moreover have "call_of ?s = call_of s" "fires ?s = fires ?e"
      using P(2) by (simp_all add: call_of_def fires_def fun_eq_iff)
    ultimately show ?thesis using P(3) by auto
  qed
qed

lemma ril_inv_self: "ril_inv (s\<lparr>pthread_self := t\<rparr>) ts ps = ril_inv s ts ps"
proof -
  have "ev_inv (s\<lparr>pthread_self := t\<rparr>) ts ps = ev_inv s ts ps" by (rule ev_inv_frame) simp_all
  then show ?thesis
    by (simp add: ril_inv_def run_inv_def ril_base_def wake_ok_def wake_info_def live_def entries_def
        timer_ev_def wakeup_ev_def)
qed

lemma thread_calls_ok:
  assumes "ril_inv s ts []" "calloc_ok calloc" "calls_ok (snd c)"
  shows "\<exists>s' ts'. thread_calls calloc c s = Some s' \<and> ril_inv s' ts' []"
proof -
  have "run_inv (s\<lparr>pthread_self := fst c\<rparr>) ts [] {}"
    using assms(1) ril_inv_self [where s = s and t = "fst c"] by (simp add: ril_inv_def)
  then obtain s' ts' where "vendor_calls calloc (snd c) (s\<lparr>pthread_self := fst c\<rparr>) = Some s'"
    "run_inv s' ts' [] {}"
    using vendor_calls_ok [OF _ assms(2,3)] unfolding step_ok_def by blast
  then show ?thesis
    using ril_inv_self [where s = s' and t = "pthread_self s"] by (auto simp: thread_calls_def ril_inv_def)
qed

text \<open>
  The callbacks of the library are a client of the event loop, whatever the vendor library asks of it.
\<close>

interpretation ril_loop: event_service "ril_callback vendor calloc"
  "\<lambda>s ts ps. vendor_ok vendor \<and> calloc_ok calloc \<and> ril_inv s ts ps"
  "thread_calls calloc" "\<lambda>c. calls_ok (snd c)" for vendor calloc
proof unfold_locales
  fix s ts ps
  assume "vendor_ok vendor \<and> calloc_ok calloc \<and> ril_inv s ts ps"
  then show "ev_inv s ts ps \<and> \<not> locked s"
    by (simp add: ril_inv_def run_inv_def ril_base_def)
next
  fix s ts ev ps s1
  assume "vendor_ok vendor \<and> calloc_ok calloc \<and> ril_inv s ts (ev # ps)" "removeFromList ev s = Some s1"
  then show "\<exists>s' ts'. ril_callback vendor calloc (ev_func (evt s ev)) (ev_fd (evt s ev))
      (ev_param (evt s ev)) (emit (call_of s ev) s1) = Some s' \<and>
    (vendor_ok vendor \<and> calloc_ok calloc \<and> ril_inv s' ts' ps) \<and>
    (\<forall>p \<in> set ps. call_of s' p = call_of s p) \<and> fires s' = fires s @ [call_of s ev]"
    using ril_callback_ok by blast
next
  fix s ts ps s' ts' ps'
  assume "vendor_ok vendor \<and> calloc_ok calloc \<and> ril_inv s ts ps"
    "ev_inv s' ts' ps'" "\<not> locked s'" "dom (mem s') = dom (mem s)" "call_of s' = call_of s"
    "rilst.more s' = rilst.more s" "entries s' \<subseteq> entries s" "set ts \<union> set ps \<subseteq> set ts' \<union> set ps'"
    "set ts' \<union> set ps' \<subseteq> set ts \<union> set ps \<union> entries s"
  then show "vendor_ok vendor \<and> calloc_ok calloc \<and> ril_inv s' ts' ps'"
    using ril_inv_move by blast
next
  fix s ts and c :: "thread_id \<times> ril_call list"
  assume "vendor_ok vendor \<and> calloc_ok calloc \<and> ril_inv s ts []" "calls_ok (snd c)"
  then show "\<exists>s' ts'. thread_calls calloc c s = Some s' \<and>
    vendor_ok vendor \<and> calloc_ok calloc \<and> ril_inv s' ts' []"
    using thread_calls_ok by blast
qed

section \<open>Without new requests for the wake lock\<close>

definition quiet_vendor :: "vendor \<Rightarrow> bool" where
  "quiet_vendor vendor \<longleftrightarrow> (\<forall>f p. GrabWakeLock \<notin> set (vendor f p))"

definition same_last :: "ril \<Rightarrow> ril \<Rightarrow> bool" where
  "same_last s s' \<longleftrightarrow> ril_version s' = ril_version s \<and> s_last_wake_timeout_info s' = s_last_wake_timeout_info s"

lemma requestTimed_last:
  assumes "run_inv s ts ps E" "calloc_ok calloc" "RIL_requestTimedCallback calloc f param tv s = Some s'"
  shows "same_last s s'"
proof (cases "calloc (dom (mem s)) = NULL")
  case True
  then show ?thesis
    using assms(3) by (simp add: RIL_requestTimedCallback_def request_failed same_last_def)
next
  case False
  have "ril_base s ts ps" using assms(1) by (simp add: run_inv_def)
  then obtain t where "internalRequestTimedCallback calloc f param tv (-1) s = Some (calloc (dom (mem s)), t)"
    "wake_same s t"
    using request_made [OF _ assms(2) refl False] by metis
  then show ?thesis
    using assms(3) by (simp add: RIL_requestTimedCallback_def wake_same_def same_last_def)
qed

lemma cancel_last_last:
  "cancel_last s = Some s' \<Longrightarrow> same_last s s'"
  by (auto simp: cancel_last_def same_last_def split: option.splits if_splits)

lemma releaseWakeLock_last:
  "releaseWakeLock s = Some s' \<Longrightarrow> same_last s s'"
  by (auto simp: releaseWakeLock_def wake_lock_mutex_def wake_unlock_mutex_def bind_eq_Some_conv
      same_last_def Let_def dest!: cancel_last_last split: if_splits)

lemma wakeTimeoutCallback_last:
  "wakeTimeoutCallback param s = Some s' \<Longrightarrow> same_last s s'"
  by (auto simp: wakeTimeoutCallback_def wake_lock_mutex_def wake_unlock_mutex_def bind_eq_Some_conv
      same_last_def dest!: releaseWakeLock_last split: if_splits)

lemma vendor_calls_last:
  assumes "run_inv s ts ps E" "calloc_ok calloc" "calls_ok cs" "GrabWakeLock \<notin> set cs"
    and "vendor_calls calloc cs s = Some s'"
  shows "same_last s s'"
  using assms
proof (induction cs arbitrary: s ts)
  case Nil
  then show ?case by (simp add: same_last_def)
next
  case (Cons c cs)
  obtain t where t: "vendor_calls calloc [c] s = Some t" "vendor_calls calloc cs t = Some s'"
    using Cons.prems(5) by (cases c) (auto simp: bind_eq_Some_conv)
  have cc: "calls_ok [c]" "calls_ok cs" using Cons.prems(3) by (simp_all add: calls_ok_def)
  obtain ts' where "run_inv t ts' ps E"
    using vendor_calls_ok [OF Cons.prems(1,2) cc(1)] t(1) by (auto simp: step_ok_def)
  then have "same_last t s'" using Cons.IH [OF _ Cons.prems(2) cc(2) _ t(2)] Cons.prems(4) by simp
  moreover have "same_last s t"
    using t(1) Cons.prems(1,2,4) requestTimed_last releaseWakeLock_last
    by (cases c) (auto simp: bind_eq_Some_conv)
  ultimately show ?case by (simp add: same_last_def)
qed

lemma userTimerCallback_last:
  assumes R: "run_inv s ts ps {ev}" and c: "calloc_ok calloc" and v: "vendor_ok vendor" "quiet_vendor vendor"
    and i: "infos s ev = Some i" and r: "userTimerCallback vendor calloc ev s = Some s'"
  shows "ril_version s' = ril_version s"
    "s_last_wake_timeout_info s' = (if s_last_wake_timeout_info s = ev then NULL else s_last_wake_timeout_info s)"
proof -
  have nn: "ev \<noteq> NULL"
    using R by (auto simp: run_inv_def ril_base_def ev_inv_def table_ok_def)
  have "ril_version s' = ril_version s \<and>
    s_last_wake_timeout_info s' = (if s_last_wake_timeout_info s = ev then NULL else s_last_wake_timeout_info s)"
  proof (cases "p_cid i \<ge> RIL_URC")
    case True
    have "wake_ok s (set ts \<union> set ps \<union> {ev})" using R by (simp add: run_inv_def)
    then have "s_last_wake_timeout_info s \<noteq> ev"
      using True i nn by (auto simp: wake_ok_def wake_info_def RIL_URC_def)
    then show ?thesis using r i True by (auto simp: userTimerCallback_def)
  next
    case False
    then obtain t where t: "timed_callback vendor calloc (p_callback i) (userParam i) s = Some t"
      "s' = free_info ev (if s_last_wake_timeout_info t \<noteq> NULL \<and> s_last_wake_timeout_info t = ev
         then t\<lparr>s_last_wake_timeout_info := NULL\<rparr> else t)"
      using r i by (auto simp: userTimerCallback_def bind_eq_Some_conv)
    have "same_last s t"
      using t(1) wakeTimeoutCallback_last [of "userParam i" s t] v
        vendor_calls_last [OF R c, of "vendor (p_callback i) (userParam i)" t]
      by (auto simp: timed_callback_def vendor_ok_def quiet_vendor_def split: if_splits)
    then show ?thesis using t(2) nn by (auto simp: same_last_def free_info_def)
  qed
  then show "ril_version s' = ril_version s"
    "s_last_wake_timeout_info s' = (if s_last_wake_timeout_info s = ev then NULL else s_last_wake_timeout_info s)"
    by simp_all
qed

text \<open>
  When the last time-out of the wake lock is due and no callback asks for the lock again, no time-out
  is left when all due events have been fired.
\<close>

definition last_due :: "int \<Rightarrow> ril \<Rightarrow> ptr list \<Rightarrow> bool" where
  "last_due v s ps \<longleftrightarrow> ril_version s = v \<and>
     (s_last_wake_timeout_info s = NULL \<or> s_last_wake_timeout_info s \<in> set ps)"

lemma last_due_call:
  assumes J: "ril_inv s ts (ev # ps)" "last_due v s (ev # ps)" and c: "calloc_ok calloc"
    and vd: "vendor_ok vendor" "quiet_vendor vendor" and r: "removeFromList ev s = Some s1"
    and s': "ril_callback vendor calloc (ev_func (evt s ev)) (ev_fd (evt s ev)) (ev_param (evt s ev))
      (emit (call_of s ev) s1) = Some s'"
  shows "last_due v s' ps"
proof -
  note P = popped [OF J(1) r]
  have "timer_ev s ev \<or> wakeup_ev s ev"
    using J(1) by (simp add: ril_inv_def run_inv_def ril_base_def)
  then show ?thesis
  proof
    assume t: "timer_ev s ev"
    then obtain i where i: "infos s ev = Some i" by (auto simp: timer_ev_def)
    have "userTimerCallback vendor calloc ev (emit (call_of s ev) s1) = Some s'"
      using t s' by (simp add: ril_callback_def timer_ev_def)
    from userTimerCallback_last [OF P(9) [OF t] c vd _ this, of i] show ?thesis
      using i J(2) P(4,5,7) by (auto simp: last_due_def)
  next
    assume w: "wakeup_ev s ev"
    then have "s_last_wake_timeout_info s = NULL \<or> s_last_wake_timeout_info s \<noteq> ev"
      using J(1) by (auto simp: ril_inv_def run_inv_def wake_ok_def wake_info_def wakeup_ev_def)
    moreover have "s' = (emit (call_of s ev) s1)\<lparr>ril_sys := ril_sys (emit (call_of s ev) s1) @ [ReadWakeup]\<rparr>"
      using w s' by (simp add: ril_callback_def wakeup_ev_def processWakeupCallback_def
          userTimerCallback_fn_def processWakeupCallback_fn_def)
    ultimately show ?thesis using J(2) P(5,7) by (auto simp: last_due_def)
  qed
qed

interpretation wake_off: event_firing "ril_callback vendor calloc"
  "\<lambda>s ts ps. vendor_ok vendor \<and> calloc_ok calloc \<and> quiet_vendor vendor \<and> ril_inv s ts ps \<and> last_due v s ps"
  for vendor calloc v
proof unfold_locales
  fix s ts ps
  assume "vendor_ok vendor \<and> calloc_ok calloc \<and> quiet_vendor vendor \<and> ril_inv s ts ps \<and> last_due v s ps"
  then show "ev_inv s ts ps \<and> \<not> locked s"
    by (simp add: ril_inv_def run_inv_def ril_base_def)
next
  fix s ts ev ps s1
  assume "vendor_ok vendor \<and> calloc_ok calloc \<and> quiet_vendor vendor \<and> ril_inv s ts (ev # ps) \<and>
    last_due v s (ev # ps)" "removeFromList ev s = Some s1"
  then show "\<exists>s' ts'. ril_callback vendor calloc (ev_func (evt s ev)) (ev_fd (evt s ev))
      (ev_param (evt s ev)) (emit (call_of s ev) s1) = Some s' \<and>
    (vendor_ok vendor \<and> calloc_ok calloc \<and> quiet_vendor vendor \<and> ril_inv s' ts' ps \<and> last_due v s' ps) \<and>
    (\<forall>p \<in> set ps. call_of s' p = call_of s p) \<and> fires s' = fires s @ [call_of s ev]"
    using ril_callback_ok [of s ts ev ps calloc vendor s1] last_due_call [of s ts ev ps v calloc vendor s1]
    by blast
qed

end
