(* ===== verification/RilProps.thy ===== *)
theory RilProps
  imports RilWake
begin

text \<open>
  What the event loop and the wake lock of the radio interface layer promise, over the interpretation
  of the loop on the callbacks of \<open>ril.cpp\<close>, with examples.
\<close>

section \<open>The thread of the loop from its start\<close>

text \<open>The memory as the thread finds it: the static events, and nothing allocated.\<close>

definition boot_ril :: "ril \<Rightarrow> bool" where
  "boot_ril s \<longleftrightarrow> {timer_list, pending_list, s_wakeupfd_event} \<subseteq> dom (mem s) \<and> mem s NULL = None \<and>
     nfds s = 0 \<and> infos s = Map.empty \<and> s_last_wake_timeout_info s = NULL \<and>
     \<not> wake_mutex s \<and> \<not> wake_held s"

lemma eventLoop_starts:
  assumes b: "boot_ril s" and fd: "fd_ok fd"
  obtains s' where "ril_inv s' [] []" "eventLoop vendor calloc (Some fd) as s =
    ril_event_loop (ril_callback vendor calloc) (thread_calls calloc) as s'"
proof -
  obtain s1 where s1: "ril_event_init s = Some s1" "ev_inv s1 [] []" "\<not> locked s1" "entries s1 = {}"
    "dom (mem s1) = dom (mem s)" "readFds s1 = {}"
    by (rule ril_event_init_ok [of s]) (use b in \<open>auto simp: boot_ril_def\<close>)
  have m1: "rilst.more s1 = rilst.more s"
    using s1(1) by (auto simp: ril_event_init_def init_list_def store_ev_def bind_eq_Some_conv split: option.splits)
  let ?w = "s_wakeupfd_event"
  obtain w where w: "mem s1 ?w = Some w" using b s1(5) by (auto simp: boot_ril_def)
  define s2 where "s2 = emit (Fcntl fd) ((emit (Fcntl fd) s1)\<lparr>mem := (mem s1)(?w \<mapsto>
    new_event fd True processWakeupCallback_fn NULL)\<rparr>)"
  have set: "ril_event_set ?w fd True processWakeupCallback_fn NULL (emit (Fcntl fd) s1) = Some s2"
    using ril_event_set_eq [of "emit (Fcntl fd) s1" ?w w] w by (simp add: s2_def emit_def)
  have wn: "?w \<noteq> timer_list" "?w \<noteq> pending_list" "?w \<noteq> NULL"
    by (simp_all add: s_wakeupfd_event_def timer_list_def pending_list_def)
  have f2: "mem s2 = (mem s1)(?w \<mapsto> new_event fd True processWakeupCallback_fn NULL)"
    "watch_table s2 = watch_table s1" "readFds s2 = readFds s1" "nfds s2 = nfds s1" "locked s2 = locked s1"
    "rilst.more s2 = rilst.more s1"
    by (simp_all add: s2_def emit_def)
  have e2: "entries s2 = {}" using s1(4) f2(2) by (simp add: entries_def)
  have I2: "ev_inv s2 [] []"
    by (rule ev_inv_outside [OF s1(2) _ _ wn(3) f2(1-4)]) (use wn s1(4) in simp_all)
  have A2: "addable s2 ?w"
    using wn f2 fd e2 s1(6) by (simp add: addable_def new_event_def)
  have N2: "NULL \<in> set (watch_table s2)"
    using s1(2,4) f2(2) by (auto simp: entries_def ev_inv_def table_ok_def MAX_FD_EVENTS_def
        subset_singleton_iff)
  have l2: "\<not> locked s2" and nt: "?w \<notin> set []" using s1(3) f2(5) by simp_all
  obtain s3 where s3: "ril_event_add ?w s2 = Some s3" "ev_inv s3 [] []" "\<not> locked s3"
    "entries s3 = insert ?w (entries s2)"
    "readFds s3 = insert (ev_fd (evt s2 ?w)) (readFds s2)" "ev_kept s2 s3"
    by (rule ril_event_add_inv [OF I2 l2 A2 nt N2])
  define s' where "s' = triggerEvLoop s3"
  have more3: "rilst.more s3 = rilst.more s"
    using s3(6) f2(6) m1 by (simp add: ev_kept_def rest_same_def)
  note F = more_fields [OF more3]
  have s': "mem s' = mem s3" "watch_table s' = watch_table s3" "readFds s' = readFds s3" "nfds s' = nfds s3"
    "locked s' = locked s3" "infos s' = infos s3" "wake_held s' = wake_held s3" "wake_mutex s' = wake_mutex s3"
    "s_last_wake_timeout_info s' = s_last_wake_timeout_info s3"
    by (simp_all add: s'_def triggerEvLoop_def)
  have "ev_inv s' [] []" using ev_inv_frame [OF s'(1-4)] s3(2) by simp
  moreover have "entries s' = {?w}" using s3(4) e2 entries_table [OF s'(2)] by simp
  moreover have "wakeup_ev s' ?w"
    using kept_call [OF s3(6)] f2(1) F(1) b s'(1,6)
    by (auto simp: wakeup_ev_def call_of_def fun_eq_iff boot_ril_def new_event_def dest: spec [of _ ?w])
  ultimately have "ril_inv s' [] []"
    using s3(3) F b s'
    by (simp add: ril_inv_def run_inv_def ril_base_def wake_ok_def boot_ril_def)
  moreover have "eventLoop vendor calloc (Some fd) as s =
    ril_event_loop (ril_callback vendor calloc) (thread_calls calloc) as s'"
    using s1(1) set s3(1) by (simp add: eventLoop_def rilEventAddWakeup_def s'_def)
  ultimately show ?thesis using that by blast
qed

lemma eventLoop_run:
  assumes "boot_ril s" "fd_ok fd" "vendor_ok vendor" "calloc_ok calloc"
    and "\<forall>(c, a) \<in> set as. calls_ok (snd c)"
  obtains r s' ts' where "eventLoop vendor calloc (Some fd) as s = Some (r, s')" "ril_inv s' ts' []"
    "r \<longleftrightarrow> (\<exists>a \<in> set as. select_fails (snd a))"
proof -
  obtain s0 where s0: "ril_inv s0 [] []" "eventLoop vendor calloc (Some fd) as s =
    ril_event_loop (ril_callback vendor calloc) (thread_calls calloc) as s0"
    by (rule eventLoop_starts [OF assms(1,2)])
  show ?thesis
    using ril_loop.ril_event_loop_ok [of vendor calloc s0 "[]" as] s0 assms that by auto
qed

section \<open>An example\<close>

definition ril0 :: ril where
  "ril0 = \<lparr>mem = [timer_list \<mapsto> blank_event, pending_list \<mapsto> blank_event, s_wakeupfd_event \<mapsto> blank_event],
     readFds = {}, nfds = 0, watch_table = [], locked = False, clock = (\<lambda>k. (100, 0)), clock_reads = 0,
     ril_trace = [], infos = Map.empty, ril_version = 15, s_wakelock_count = 0,
     s_last_wake_timeout_info = NULL, wake_mutex = False, wake_held = False,
     threadPid = replicate MAX_RIL_CHANNELS \<lparr>th_cid = 0, th_pthread = 0\<rparr>, pthread_self = 1,
     s_tid_dispatch = 1, ril_sys = []\<rparr>"

definition calloc0 :: "ptr set \<Rightarrow> ptr" where
  "calloc0 D = (if 10 \<notin> D then 10 else if 11 \<notin> D then 11 else NULL)"

definition vendor0 :: vendor where
  "vendor0 f p = (if f = 20 then [RequestTimed 21 5 None, GrabWakeLock] else [])"

lemma boot_ril0: "boot_ril ril0"
  by (simp add: boot_ril_def ril0_def timer_list_def pending_list_def s_wakeupfd_event_def)

lemma calloc0_ok: "calloc_ok calloc0"
  by (simp add: calloc_ok_def calloc0_def)

lemma vendor0_ok: "vendor_ok vendor0"
  by (simp add: vendor_ok_def calls_ok_def vendor0_def wakeTimeoutCallback_fn_def)

definition answer :: "int \<Rightarrow> int set \<Rightarrow> select_answer" where
  "answer n fds = \<lparr>sel_n = n, sel_errno = 0, sel_fds = fds\<rparr>"

lemmas run_defs = eventLoop_def ril_event_init_def init_list_def store_ev_def load_def ril0_def
  timer_list_def pending_list_def s_wakeupfd_event_def blank_event_def emit_def ril_event_set_def
  rilEventAddWakeup_def ril_event_add_def mutex_acquire_def mutex_release_def MAX_FD_EVENTS_def
  FD_SET_def fd_ok_def FD_SETSIZE_def triggerEvLoop_def ask_select_def calcNextTimeout_def getNow_def
  thread_calls_def RIL_requestTimedCallback_def internalRequestTimedCallback_def calloc0_def new_info_def
  addThreadPid_def ril_timer_add_def later_timer.simps addToList_def removeFromList_def timeradd_def
  less_timeval_def timercmp_less_def grabPartialWakeLock_def wake_lock_mutex_def wake_unlock_mutex_def
  cancel_last_def TIMEVAL_WAKE_TIMEOUT_def serve_def processTimeouts_def expire_timers.simps
  processReadReadies_def eval_nat_numeral FD_ISSET_def firePending_def fire_events.simps
  ril_callback_def userTimerCallback_fn_def processWakeupCallback_fn_def wakeTimeoutCallback_fn_def
  processWakeupCallback_def userTimerCallback_def timed_callback_def vendor0_def free_info_def
  wakeTimeoutCallback_def answer_def RIL_URC_def

lemma fd5: "fd_ok 5"
  by (simp add: fd_ok_def FD_SETSIZE_def)

lemma started_example:
  "\<exists>s. eventLoop vendor0 calloc0 (Some 5) [] ril0 = Some (False, s) \<and>
     watch_table s = [s_wakeupfd_event, 0, 0, 0, 0, 0, 0, 0] \<and>
     call_of s s_wakeupfd_event = Fire processWakeupCallback_fn 5 NULL"
  by (simp add: run_defs call_of_def)

text \<open>A clock that advances by a second at each reading, and a \<open>select\<close> that is interrupted.\<close>

definition ril1 :: ril where
  "ril1 = ril0\<lparr>clock := (\<lambda>k. (100 + int k, 0))\<rparr>"

definition interrupted :: select_answer where
  "interrupted = \<lparr>sel_n = -1, sel_errno = EINTR, sel_fds = {}\<rparr>"

definition vendor1 :: vendor where
  "vendor1 f p = []"

lemma boot_ril1: "boot_ril ril1"
  using boot_ril0 by (simp add: boot_ril_def ril1_def)

lemma vendor1_ok: "vendor_ok vendor1" "quiet_vendor vendor1"
  by (simp_all add: vendor_ok_def calls_ok_def vendor1_def quiet_vendor_def)

lemma due_example:
  "\<exists>s. eventLoop vendor1 calloc0 (Some 5) [((7, [GrabWakeLock]), interrupted)] ril1 = Some (False, s) \<and>
     wake_held s \<and> ril_version s = 15 \<and>
     ev_timeout (evt s (s_last_wake_timeout_info s)) < fst (getNow s)"
  by (simp add: run_defs ril1_def interrupted_def EINTR_def)

section \<open>Properties\<close>

text \<open>
  C12.  The thread of the event loop never goes wrong: whatever \<open>select\<close> answers, whatever the other
  threads and the callbacks of the vendor library ask for while it runs, no pointer leads nowhere, no
  freed cell is used and no lock is taken twice; and it returns only when \<open>select\<close> fails for a
  reason other than a signal.
\<close>

theorem event_loop_safe:
  assumes "boot_ril s" "fd_ok fd" "vendor_ok vendor" "calloc_ok calloc"
    and "\<forall>(c, a) \<in> set as. calls_ok (snd c)"
  shows "\<exists>r s'. eventLoop vendor calloc (Some fd) as s = Some (r, s') \<and> \<not> locked s' \<and>
    (r \<longleftrightarrow> (\<exists>a \<in> set as. select_fails (snd a)))"
proof -
  obtain r s' ts' where "eventLoop vendor calloc (Some fd) as s = Some (r, s')" "ril_inv s' ts' []"
    "r \<longleftrightarrow> (\<exists>a \<in> set as. select_fails (snd a))"
    by (rule eventLoop_run [OF assms])
  then show ?thesis by (auto simp: ril_inv_def run_inv_def ril_base_def)
qed

theorem event_loop_safe_witness:
  "\<exists>r s'. eventLoop vendor0 calloc0 (Some 5)
     [((7, [RequestTimed 20 0 None, GrabWakeLock]), answer 1 {5}), ((8, []), answer 0 {})] ril0 =
     Some (r, s') \<and> \<not> locked s'"
  using event_loop_safe [OF boot_ril0 _ vendor0_ok calloc0_ok, of 5
      "[((7, [RequestTimed 20 0 None, GrabWakeLock]), answer 1 {5}), ((8, []), answer 0 {})]"]
  by (auto simp: fd_ok_def FD_SETSIZE_def calls_ok_def wakeTimeoutCallback_fn_def)

text \<open>
  C13.  The wake lock is never forgotten: whenever the loop is between two rounds and the lock is held
  (by a vendor library of version 13 or later), a timer is waiting whose callback gives the lock back
  and has not been cancelled.
\<close>

theorem wake_lock_has_timer:
  assumes "boot_ril s" "fd_ok fd" "vendor_ok vendor" "calloc_ok calloc"
    and "\<forall>(c, a) \<in> set as. calls_ok (snd c)"
    and "eventLoop vendor calloc (Some fd) as s = Some (r, s')" "ril_version s' \<ge> 13" "wake_held s'"
  shows "\<exists>ts p i. ev_inv s' ts [] \<and> p \<in> set ts \<and> ev_func (evt s' p) = userTimerCallback_fn \<and>
    ev_param (evt s' p) = p \<and> infos s' p = Some i \<and> p_callback i = wakeTimeoutCallback_fn \<and> userParam i = 0"
proof -
  obtain r1 s1 ts where "eventLoop vendor calloc (Some fd) as s = Some (r1, s1)" "ril_inv s1 ts []"
    by (rule eventLoop_run [OF assms(1-5)])
  then have J: "ril_inv s' ts []" using assms(6) by simp
  let ?l = "s_last_wake_timeout_info s'"
  have W: "wake_ok s' (set ts)" and B: "ril_base s' ts []" using J by (simp_all add: ril_inv_def run_inv_def)
  have l: "?l \<noteq> NULL" "live s' ?l" using W assms(7,8) by (simp_all add: wake_ok_def)
  have "?l \<in> set ts" "wake_info s' ?l" using wake_okD(1,2) [OF W l(1)] by simp_all
  moreover have "timer_ev s' ?l"
    using B calculation by (auto simp: ril_base_def wakeup_ev_def wake_info_def)
  ultimately obtain i where "infos s' ?l = Some i" "p_callback i = wakeTimeoutCallback_fn" "userParam i = 0"
    "?l \<in> set ts" "ev_func (evt s' ?l) = userTimerCallback_fn" "ev_param (evt s' ?l) = ?l"
    using l(2) by (auto simp: wake_info_def live_def timer_ev_def)
  moreover have "ev_inv s' ts []" using B by (simp add: ril_base_def)
  ultimately show ?thesis by blast
qed

lemma held_example:
  "\<exists>s'. eventLoop vendor0 calloc0 (Some 5) [((7, [GrabWakeLock]), answer 1 {5})] ril0 = Some (False, s') \<and>
     ril_version s' = 15 \<and> wake_held s'"
  by (simp add: run_defs)

theorem wake_lock_has_timer_witness:
  "\<exists>s' ts p. eventLoop vendor0 calloc0 (Some 5) [((7, [GrabWakeLock]), answer 1 {5})] ril0 = Some (False, s') \<and>
     ev_inv s' ts [] \<and> p \<in> set ts \<and> infos s' p \<noteq> None"
proof -
  obtain s' where s': "eventLoop vendor0 calloc0 (Some 5) [((7, [GrabWakeLock]), answer 1 {5})] ril0 = Some (False, s')"
    "ril_version s' = 15" "wake_held s'" using held_example by blast
  have "fd_ok 5" "\<forall>(c, a) \<in> set [((7::nat, [GrabWakeLock]), answer 1 {5})]. calls_ok (snd c)"
    by (simp_all add: fd5 calls_ok_def)
  then obtain ts p i where "ev_inv s' ts []" "p \<in> set ts" "infos s' p = Some i"
    using wake_lock_has_timer [OF boot_ril0 _ vendor0_ok calloc0_ok _ s'(1)] s'(2,3) by auto
  then show ?thesis using s'(1) by blast
qed

text \<open>
  C14.  A round of the loop runs each callback that is due exactly once: first those of the timers whose
  timeout is before the clock, in the order of the timeouts, then those of the descriptors that
  \<open>select\<close> has found ready, in the order of the table.
\<close>

theorem round_fires_due:
  assumes "ril_inv s ts []" "vendor_ok vendor" "calloc_ok calloc"
  shows "\<exists>s' ts'. serve (ril_callback vendor calloc) a s = Some s' \<and> ril_inv s' ts' [] \<and>
    fires s' = fires s @
      map (call_of s) (filter (\<lambda>p. ev_timeout (evt s p) < fst (getNow s)) ts) @
      map (call_of s) (take (nat (sel_n a))
        (filter (\<lambda>p. p \<noteq> NULL \<and> ev_fd (evt s p) \<in> sel_fds a) (watch_table s)))"
proof -
  have "sorted (map (\<lambda>p. ev_timeout (evt s p)) ts)"
    using assms(1) by (simp add: ril_inv_def run_inv_def ril_base_def ev_inv_def)
  note E = expired_filter(1) [OF this, of "fst (getNow s)"]
  show ?thesis
    using ril_loop.serve_round [of vendor calloc s ts a] assms
    unfolding E ready_in_def map_append by auto
qed

theorem round_fires_due_witness:
  "\<exists>s ts s'. ril_inv s ts [] \<and> serve (ril_callback vendor0 calloc0) (answer 1 {5}) s = Some s' \<and>
     fires s' = fires s @ [Fire processWakeupCallback_fn 5 NULL]"
proof -
  obtain s where s: "eventLoop vendor0 calloc0 (Some 5) [] ril0 = Some (False, s)"
    "watch_table s = [s_wakeupfd_event, 0, 0, 0, 0, 0, 0, 0]"
    "call_of s s_wakeupfd_event = Fire processWakeupCallback_fn 5 NULL"
    using started_example by blast
  then obtain ts where J: "ril_inv s ts []" "ts = []"
    using eventLoop_starts [OF boot_ril0 fd5, of vendor0 calloc0 "[]"] by auto
  have "ev_fd (evt s s_wakeupfd_event) = 5" "s_wakeupfd_event \<noteq> NULL"
    using s(3) by (simp_all add: call_of_def s_wakeupfd_event_def)
  then show ?thesis
    using round_fires_due [OF J(1) vendor0_ok calloc0_ok, of "answer 1 {5}"] s(2,3) J
    by (auto simp: answer_def)
qed

text \<open>
  C15.  The wake lock is given back in time: when the timeout of the timer that guards it is before the
  clock at the start of a round, and no callback of the vendor library asks for the lock again, the
  lock is not held after the round.
\<close>

theorem wake_lock_released:
  assumes J: "ril_inv s ts []" and vd: "vendor_ok vendor" "quiet_vendor vendor" and c: "calloc_ok calloc"
    and ver: "ril_version s \<ge> 13"
    and due: "ev_timeout (evt s (s_last_wake_timeout_info s)) < fst (getNow s)"
  shows "\<exists>s'. serve (ril_callback vendor calloc) a s = Some s' \<and> \<not> wake_held s'"
proof -
  let ?now = "fst (getNow s)" and ?l = "s_last_wake_timeout_info s"
  let ?due = "expired s ?now ts @ take (nat (sel_n a)) (ready_in s (sel_fds a) (watch_table s))"
  obtain s1 s2 where s2: "processTimeouts s = Some s1"
    "processReadReadies (sel_fds a) (sel_n a) s1 = Some s2"
    "vendor_ok vendor \<and> calloc_ok calloc \<and> ril_inv s2 (waiting s ?now ts) ?due"
    "rilst.more s2 = rilst.more s"
    using ril_loop.collect_due [of vendor calloc s ts a] J vd(1) c by metis
  have W: "wake_ok s (set ts)" and "sorted (map (\<lambda>p. ev_timeout (evt s p)) ts)"
    using J by (simp_all add: ril_inv_def run_inv_def ril_base_def ev_inv_def)
  note E = expired_filter(1) [OF this(2), of ?now]
  have "?l \<in> set (expired s ?now ts)" if "?l \<noteq> NULL"
    using wake_okD(1) [OF W that] due unfolding E by simp
  then have "last_due (ril_version s) s2 ?due"
    using more_fields [OF s2(4)] by (auto simp: last_due_def)
  then obtain s' ts' where s': "firePending (ril_callback vendor calloc) s2 = Some s'" "ril_inv s' ts' []"
    "last_due (ril_version s) s' []"
    using wake_off.firePending_all [of vendor calloc s2 "waiting s ?now ts" ?due "ril_version s"] s2(3) vd(2)
    by blast
  have "\<not> wake_held s'"
    using s'(2,3) ver by (auto simp: last_due_def ril_inv_def run_inv_def wake_ok_def)
  moreover have "serve (ril_callback vendor calloc) a s = Some s'"
    using s2(1,2) s'(1) by (simp add: serve_def)
  ultimately show ?thesis by blast
qed

theorem wake_lock_released_witness:
  "\<exists>s s'. eventLoop vendor1 calloc0 (Some 5) [((7, [GrabWakeLock]), interrupted)] ril1 = Some (False, s) \<and>
     wake_held s \<and> serve (ril_callback vendor1 calloc0) (answer 0 {}) s = Some s' \<and> \<not> wake_held s'"
proof -
  obtain s where s: "eventLoop vendor1 calloc0 (Some 5) [((7, [GrabWakeLock]), interrupted)] ril1 = Some (False, s)"
    "wake_held s" "ril_version s = 15" "ev_timeout (evt s (s_last_wake_timeout_info s)) < fst (getNow s)"
    using due_example by blast
  have ok: "\<forall>(c, a) \<in> set [((7::nat, [GrabWakeLock]), interrupted)]. calls_ok (snd c)"
    by (simp add: calls_ok_def)
  obtain r s1 ts where "eventLoop vendor1 calloc0 (Some 5) [((7, [GrabWakeLock]), interrupted)] ril1 = Some (r, s1)"
    "ril_inv s1 ts []"
    by (rule eventLoop_run [OF boot_ril1 fd5 vendor1_ok(1) calloc0_ok ok])
  then have "ril_inv s ts []" using s(1) by simp
  then show ?thesis
    using wake_lock_released [OF _ vendor1_ok calloc0_ok, of s ts "answer 0 {}"] s by auto
qed

section \<open>Timers and descriptors\<close>

text \<open>
  C23.  Adding a timer refines the insertion into a sorted list: the timer gets the clock plus the
  relative time as its timeout and stands before the first timer that does not expire earlier, and the
  rest of the event loop stays as it is.
\<close>

theorem timer_added_in_order:
  assumes "ev_inv s ts ps" "loose s ts ps ev" "ev \<notin> entries s" "\<not> locked s"
  shows "\<exists>s'. ril_timer_add ev (Some tv) s = Some s' \<and> \<not> locked s' \<and>
    ev_inv s' (insert_timer (\<lambda>p. ev_timeout (evt s p)) (timeradd (fst (getNow s)) tv) ev ts) ps \<and>
    ev_timeout (evt s' ev) = timeradd (fst (getNow s)) tv \<and> readFds s' = readFds s"
proof -
  let ?t = "timeradd (fst (getNow s)) tv"
  obtain s' where s': "ril_timer_add ev (Some tv) s = Some s'"
    "ev_inv s' (insert_timer (\<lambda>p. ev_timeout (evt s p)) ?t ev ts) ps"
    "relinked (s\<lparr>mem := (mem s)(ev \<mapsto> (evt s ev)\<lparr>ev_fd := -1, ev_timeout := ?t\<rparr>),
       clock_reads := Suc (clock_reads s)\<rparr>) s'"
    by (rule ril_timer_add_ok [OF assms refl])
  have "ev_timeout (evt s' ev) = ?t" using relinked_evt(4) [OF s'(3), of ev] by simp
  moreover have "locked s' = locked s" "readFds s' = readFds s" using relinked_fields [OF s'(3)] by simp_all
  ultimately show ?thesis using s'(1,2) assms(4) by simp
qed

lemma init_example:
  obtains s where "ev_inv (s :: ril) [] []" "\<not> locked s" "entries s = {}" "readFds s = {}"
    "mem s s_wakeupfd_event = Some blank_event" "NULL \<in> set (watch_table s)"
proof -
  have "\<exists>s. ril_event_init ril0 = Some s \<and> mem s s_wakeupfd_event = Some blank_event \<and>
    NULL \<in> set (watch_table s)"
    by (simp add: run_defs)
  moreover obtain s where "ril_event_init ril0 = Some s" "ev_inv s [] []" "\<not> locked s" "entries s = {}"
    "readFds s = {}"
    using boot_ril0 by (auto simp: boot_ril_def intro: ril_event_init_ok [of ril0])
  ultimately show ?thesis using that by auto
qed

theorem timer_added_in_order_witness:
  "\<exists>(s :: ril) s'. ril_timer_add s_wakeupfd_event (Some (Timeval 1 5)) s = Some s' \<and>
     ev_inv s' [s_wakeupfd_event] []"
proof -
  obtain s :: ril where s: "ev_inv s [] []" "\<not> locked s" "entries s = {}"
    "mem s s_wakeupfd_event = Some blank_event" using init_example by metis
  have "loose s [] [] s_wakeupfd_event"
    using s(4) by (auto simp: loose_def s_wakeupfd_event_def timer_list_def pending_list_def)
  from timer_added_in_order [OF s(1) this _ s(2), of "Timeval 1 5"] s(3) show ?thesis
    by (auto simp: insert_timer_def)
qed

text \<open>
  C24.  Deleting an event undoes its addition: the set of descriptors given to \<open>select\<close> is again what it
  was, its bound \<open>nfds\<close> is right for it, and timers and due events stay as they are.
\<close>

theorem event_add_del:
  assumes "ev_inv s ts ps" "\<not> locked s" "addable s ev" "ev \<notin> set ts" "NULL \<in> set (watch_table s)"
  shows "\<exists>s1 s2. ril_event_add ev s = Some s1 \<and> readFds s1 = insert (ev_fd (evt s ev)) (readFds s) \<and>
    ril_event_del ev s1 = Some s2 \<and> readFds s2 = readFds s \<and> nfds_ok s2 \<and> ev_inv s2 ts ps"
proof -
  obtain s1 where s1: "ril_event_add ev s = Some s1" "ev_inv s1 ts ps" "\<not> locked s1"
    "entries s1 = insert ev (entries s)" "readFds s1 = insert (ev_fd (evt s ev)) (readFds s)" "ev_kept s s1"
    by (rule ril_event_add_inv [OF assms])
  have "ev \<in> entries s1" using s1(4) by simp
  from ril_event_del_watched [OF s1(2,3) this] obtain s2 where s2: "ril_event_del ev s1 = Some s2"
    "ev_inv s2 ts ps" "readFds s2 = readFds s1 - {ev_fd (evt s1 ev)}" by metis
  have "ev_fd (evt s1 ev) = ev_fd (evt s ev)" using kept_call [OF s1(6)] by (simp add: call_of_def fun_eq_iff)
  then have "readFds s2 = readFds s" using s2(3) s1(5) assms(3) by (auto simp: addable_def)
  moreover have "nfds_ok s2" using s2(2) by (simp add: ev_inv_def table_ok_def)
  ultimately show ?thesis using s1(1,5) s2(1,2) by blast
qed

theorem event_add_del_witness:
  "\<exists>(s :: ril) s1 s2. ril_event_add s_wakeupfd_event s = Some s1 \<and> readFds s1 = {0} \<and>
     ril_event_del s_wakeupfd_event s1 = Some s2 \<and> readFds s2 = {}"
proof -
  obtain s :: ril where s: "ev_inv s [] []" "\<not> locked s" "entries s = {}" "readFds s = {}"
    "mem s s_wakeupfd_event = Some blank_event" "NULL \<in> set (watch_table s)" using init_example by metis
  have "addable s s_wakeupfd_event"
    using s(3-5) by (simp add: addable_def fd_ok_def FD_SETSIZE_def blank_event_def s_wakeupfd_event_def
        timer_list_def pending_list_def domIff)
  from event_add_del [OF s(1,2) this _ s(6)] s(4,5) show ?thesis by (auto simp: blank_event_def)
qed

end
