(* ===== verification/RilThreads.thy ===== *)
theory RilThreads
  imports RilTimed
begin

text \<open>
  The table of threads and channels: \<open>addThreadPid\<close>, written with two loops over a fixed array,
  remembers the last twelve threads, the most recent one first; \<open>RIL_myProxyIdByThread\<close> looks a thread up.
\<close>

text \<open>
  The loop of the look-up tests the entry before the index, so it reads one entry past the table when
  the table is full of other threads (\<open>None\<close>).  Its result is not used: the number that the vendor
  library gives, \<open>query\<close>, is returned.
\<close>

fun thread_index :: "ThreadProxyId list \<Rightarrow> thread_id \<Rightarrow> nat \<Rightarrow> nat option" where
  "thread_index [] self i = None"
| "thread_index (e # es) self i = (if th_pthread e \<noteq> self then thread_index es self (Suc i) else Some i)"

definition RIL_myProxyIdByThread :: "int \<Rightarrow> ril \<Rightarrow> int option" where
  "RIL_myProxyIdByThread query s = do {
     _ \<leftarrow> thread_index (threadPid s) (pthread_self s) 0;
     Some query }"

section \<open>The loops\<close>

lemma shift_down_eq:
  "i < length es \<Longrightarrow> (shift_down i es)[0 := x] = x # take i es @ drop (Suc i) es"
proof (induction i arbitrary: es)
  case 0
  then show ?case by (cases es) auto
next
  case (Suc j)
  let ?e = "es[Suc j := es ! j]"
  have "(shift_down (Suc j) es)[0 := x] = x # take j ?e @ drop (Suc j) ?e"
    using Suc.IH [of ?e] Suc.prems by simp
  moreover have "drop (Suc j) ?e = es ! j # drop (Suc (Suc j)) es"
    using Suc.prems by (simp add: Cons_nth_drop_Suc [symmetric] drop_update_cancel)
  moreover have "take (Suc j) es = take j es @ [es ! j]" using Suc.prems by (simp add: take_Suc_conv_app_nth)
  ultimately show ?case by simp
qed

text \<open>The entries in use, and the cleared ones behind them.\<close>

definition free_thread :: ThreadProxyId where
  "free_thread = \<lparr>th_cid = 0, th_pthread = 0\<rparr>"

definition thread_table :: "ThreadProxyId list \<Rightarrow> ThreadProxyId list" where
  "thread_table us = us @ replicate (MAX_RIL_CHANNELS - length us) free_thread"

definition threads_ok :: "ThreadProxyId list \<Rightarrow> bool" where
  "threads_ok us \<longleftrightarrow> length us \<le> MAX_RIL_CHANNELS \<and> distinct (map th_pthread us) \<and>
     (\<forall>u \<in> set us. th_pthread u \<noteq> 0)"

definition remember :: "int \<Rightarrow> thread_id \<Rightarrow> ThreadProxyId list \<Rightarrow> ThreadProxyId list" where
  "remember cid tid us =
     take MAX_RIL_CHANNELS (\<lparr>th_cid = cid, th_pthread = tid\<rparr> # filter (\<lambda>u. th_pthread u \<noteq> tid) us)"

lemma thread_entry_known:
  "\<forall>u \<in> set us. th_pthread u \<noteq> 0 \<and> th_pthread u \<noteq> tid \<Longrightarrow> th_pthread e = tid \<or> th_pthread e = 0 \<Longrightarrow>
   thread_entry (us @ e # vs) tid = length us"
  by (induction us) auto

lemma thread_entry_full:
  "\<forall>u \<in> set us. th_pthread u \<noteq> 0 \<and> th_pthread u \<noteq> tid \<Longrightarrow> thread_entry us tid = length us"
  by (induction us) auto

lemma others:
  assumes "distinct (map th_pthread (us @ e # vs))"
  shows "\<forall>u \<in> set us \<union> set vs. th_pthread u \<noteq> th_pthread e"
proof
  fix u assume "u \<in> set us \<union> set vs"
  then have "th_pthread u \<in> th_pthread ` set us \<union> th_pthread ` set vs" by blast
  moreover have "th_pthread e \<notin> th_pthread ` set us \<union> th_pthread ` set vs" using assms by simp
  ultimately show "th_pthread u \<noteq> th_pthread e" by metis
qed

lemma filter_other:
  assumes "distinct (map th_pthread (us @ e # vs))"
  shows "filter (\<lambda>u. th_pthread u \<noteq> th_pthread e) (us @ e # vs) = us @ vs"
  using others [OF assms] by (simp add: filter_True)

text \<open>
  C25.  \<open>addThreadPid\<close> equals its description on lists: the thread comes to the front with its new
  channel, its old entry goes, the others keep their order, and the oldest of twelve is dropped.
\<close>

theorem addThreadPid_remembers:
  assumes ok: "threads_ok us" and tid: "tid \<noteq> 0"
  shows "addThreadPid_table cid tid (thread_table us) = thread_table (remember cid tid us) \<and>
    threads_ok (remember cid tid us)"
proof
  let ?x = "\<lparr>th_cid = cid, th_pthread = tid\<rparr>" and ?N = MAX_RIL_CHANNELS
  have N: "0 < ?N" by (simp add: MAX_RIL_CHANNELS_def)
  have len: "length (thread_table us) = ?N" using ok by (simp add: thread_table_def threads_ok_def)
  have add: "addThreadPid_table cid tid (thread_table us) =
    ?x # take i (thread_table us) @ drop (Suc i) (thread_table us)"
    if "i = (if thread_entry (thread_table us) tid = ?N then ?N - 1 else thread_entry (thread_table us) tid)"
      "i < ?N" for i
    using that len by (simp add: addThreadPid_table_def shift_down_eq Let_def)
  show "addThreadPid_table cid tid (thread_table us) = thread_table (remember cid tid us)"
  proof (cases "\<exists>u \<in> set us. th_pthread u = tid")
    case True
    then obtain ys e zs where us: "us = ys @ e # zs" "th_pthread e = tid" by (meson split_list)
    have d: "distinct (map th_pthread (ys @ e # zs))" using ok us(1) by (simp add: threads_ok_def)
    have "\<forall>u \<in> set ys. th_pthread u \<noteq> 0 \<and> th_pthread u \<noteq> tid"
      using ok us others [OF d] by (simp add: threads_ok_def)
    then have "thread_entry (thread_table us) tid = length ys"
      using thread_entry_known [of ys tid e] us by (simp add: thread_table_def)
    moreover have "length ys < ?N" using ok us(1) by (simp add: threads_ok_def)
    ultimately have "addThreadPid_table cid tid (thread_table us) =
      ?x # ys @ zs @ replicate (?N - length us) free_thread"
      using add [of "length ys"] us(1) by (simp add: thread_table_def)
    moreover have "filter (\<lambda>u. th_pthread u \<noteq> tid) us = ys @ zs"
      using filter_other [OF d] us by simp
    moreover have "length (ys @ zs) < ?N" using ok us(1) by (simp add: threads_ok_def)
    ultimately show ?thesis using us(1) by (simp add: remember_def thread_table_def)
  next
    case False
    then have new: "\<forall>u \<in> set us. th_pthread u \<noteq> 0 \<and> th_pthread u \<noteq> tid" using ok by (auto simp: threads_ok_def)
    then have f: "filter (\<lambda>u. th_pthread u \<noteq> tid) us = us" by (simp add: filter_id_conv)
    show ?thesis
    proof (cases "length us < ?N")
      case True
      then obtain k where k: "?N - length us = Suc k" by (metis Suc_diff_Suc)
      have "thread_entry (thread_table us) tid = length us"
        using thread_entry_known [OF new, of free_thread] k by (simp add: thread_table_def free_thread_def)
      then have "addThreadPid_table cid tid (thread_table us) = ?x # us @ replicate k free_thread"
        using add [of "length us"] True k by (simp add: thread_table_def)
      moreover have "?N - Suc (length us) = k" using k by simp
      ultimately show ?thesis using True f by (simp add: remember_def thread_table_def)
    next
      case False
      then have full: "length us = ?N" using ok by (simp add: threads_ok_def)
      then have tt: "thread_table us = us" by (simp add: thread_table_def)
      have "thread_entry us tid = ?N" using thread_entry_full [OF new] full by simp
      then have "addThreadPid_table cid tid us = ?x # take (?N - 1) us"
        using add [of "?N - 1"] N full tt by simp
      moreover have "take ?N (?x # us) = ?x # take (?N - 1) us" using N by (simp add: take_Cons')
      ultimately show ?thesis using f full N tt by (simp add: remember_def thread_table_def)
    qed
  qed
  have "distinct (map th_pthread (filter (\<lambda>u. th_pthread u \<noteq> tid) us))"
    using ok by (simp add: threads_ok_def distinct_map_filter)
  then have "distinct (map th_pthread (?x # filter (\<lambda>u. th_pthread u \<noteq> tid) us))" by auto
  moreover have "\<forall>u \<in> set (?x # filter (\<lambda>u. th_pthread u \<noteq> tid) us). th_pthread u \<noteq> 0"
    using ok tid by (auto simp: threads_ok_def)
  ultimately show "threads_ok (remember cid tid us)"
    unfolding threads_ok_def remember_def
    by (metis (no_types, lifting) distinct_take in_set_takeD length_take min.cobounded2 take_map)
qed

theorem addThreadPid_remembers_witness:
  "addThreadPid_table 4 7 (thread_table [\<lparr>th_cid = 1, th_pthread = 9\<rparr>, \<lparr>th_cid = 2, th_pthread = 7\<rparr>]) =
   thread_table [\<lparr>th_cid = 4, th_pthread = 7\<rparr>, \<lparr>th_cid = 1, th_pthread = 9\<rparr>]"
  using addThreadPid_remembers [of "[\<lparr>th_cid = 1, th_pthread = 9\<rparr>, \<lparr>th_cid = 2, th_pthread = 7\<rparr>]" 7 4]
  by (simp add: threads_ok_def remember_def MAX_RIL_CHANNELS_def)

lemma thread_index_unknown:
  "\<forall>e \<in> set es. th_pthread e \<noteq> self \<Longrightarrow> thread_index es self i = None"
  by (induction es arbitrary: i) auto

text \<open>With twelve other threads in the table the look-up reads behind it.\<close>

lemma lookup_reads_past_table:
  assumes "length us = MAX_RIL_CHANNELS" "\<forall>u \<in> set us. th_pthread u \<noteq> pthread_self s" "threadPid s = thread_table us"
  shows "RIL_myProxyIdByThread query s = None"
  using assms thread_index_unknown [of us "pthread_self s" 0]
  by (simp add: RIL_myProxyIdByThread_def thread_table_def)

end
