(* ===== verification/Spec2Isabelle.thy ===== *)
theory Spec2Isabelle
  imports Boot Session JournalRun RadioStore LoaderRun DriverProps RilProps RilThreads
begin

text \<open>
  A verification development for the C programs of the MediaTek vendor tree: the NVRAM library
  (\<open>src/nvram/libnvram.c\<close> with its headers), the Bluetooth radio module that configures the chip from
  an NVRAM record (\<open>src/hidl/bluetooth\<close>), the loader of the connectivity chip (\<open>src/combo_loader\<close>),
  the private commands of \<open>wpa_supplicant\<close> (\<open>src/wlan/wpa_supplicant_8_lib\<close>), and the event loop of the
  radio interface layer with its timed callbacks (\<open>ril_event.cpp\<close> and \<open>ril.cpp\<close> in \<open>src/ril/libril\<close>).

  \<^bold>\<open>The program.\<close>  The NVRAM library keeps the calibration files of a device, one per lid of a table
  that the product links in.  A file may carry two check bytes; a version file records the layout of
  every file; changed files are counted, collected into one backup with a checksum, and restored from
  it or from a raw region; on an update of the software the stored files are converted.  Clients open a
  file by its lid, read and write the descriptor, and close it.  One of them, the radio module, reads
  the record of the Bluetooth address and sends its fields to the chip as HCI commands, from a thread
  that waits for the answer to each one, while the HAL cuts the stream of the chip into packets and
  dispatches its events.  The other programs are independent of these and of
  each other.

  \<^bold>\<open>The machine.\<close>  \<open>Prelude\<close> has the byte strings and the encodings of integers (\<open>char list\<close>, \<open>'a word\<close>).
  \<open>Posix\<close> is the operating system: a \<open>world\<close> holds the files, the descriptors with their offsets, the
  held mutexes, the number of live heap blocks, a trace of undefined behaviour, the global variables of
  the program (\<open>gl\<close>) and a list \<open>faults\<close>.  Every system call takes the next entry of \<open>faults\<close>, which
  may make it fail or stop short; so a theorem without a hypothesis on \<open>faults\<close> holds for every pattern
  of failures.  C code is translated into the state monad (\<open>'g, 'a) io\<close>, one definition per function,
  with every return path a branch.  \<open>NvTypes\<close> has the data of the library and the record \<open>plat\<close> of
  what it links against and this repository does not hold: file tables, converters, lists of the
  product library, the platform callback, the fstab reader, the signedness of \<open>char\<close>, and what fresh
  memory holds.  Three layers of rules carry the proofs: \<open>Running\<close> (the collection \<open>run\<close>: what a call
  does when it is not made to fail), \<open>Resources\<close> (the collection \<open>rs\<close>: \<open>rspec\<close> and \<open>neutral\<close>, the balance
  of descriptors, heap blocks and mutexes) and \<open>Faulty\<close> (the collection \<open>wps\<close>: weakest preconditions over
  all failures).  \<open>Samples\<close> has the concrete platforms and disks of the witnesses.

  \<^bold>\<open>The NVRAM library\<close>, by function of \<open>libnvram.c\<close>:
  \<^item> \<open>CheckNo\<close>: \<open>NVM_ComputeCheckNo\<close>, \<open>NVM_CheckFileSize\<close>, \<open>NVM_CheckFile\<close>, \<open>NVM_SetCheckNo\<close>.  The check
    byte is an instance of the locale \<open>alternating\<close> of \<open>Checksum\<close> (a fold that changes its operation at
    every element), as is the checksum of \<open>AllFile\<close>; a single changed element changes either.
  \<^item> \<open>Device\<close>: \<open>NVM_GetDeviceInfo\<close>, \<open>NVM_EraseDeviceBlock\<close>, \<open>open_file_with_dirs\<close> and its helpers.
  \<^item> \<open>BackupFlag\<close>: \<open>NVM_AddBackupNum\<close>, \<open>NVM_AddBackupFileNum\<close>, \<open>NVM_GetBackupFileNum\<close>.
  \<^item> \<open>FileVer\<close>, \<open>VerTable\<close>, \<open>VerStore\<close>: \<open>NVM_GenerateFileVer\<close>, \<open>NVM_CheckVerFile\<close>, \<open>NVM_CmpFileVerNo\<close> and
    the modes of \<open>NVM_UpdateFileVerNo\<close>.  \<open>VerTable\<close> reads the file as a list of records of 74 bytes
    (\<open>Blocks\<close>); the locale \<open>version_store\<close> holds the laws the other parts use (which files are current
    after an update), interpreted on the model in \<open>VerStore\<close>.
  \<^item> \<open>AllFile\<close>, \<open>RestoreFiles\<close>, \<open>RestoreRun\<close>, \<open>RestoreProps\<close>: \<open>NVM_ComputeCheckSum\<close> (and the routine kept
    under \<open>#if 0\<close> as its reference), \<open>NVM_SetCheckSum\<close>, \<open>NVM_GetCheckSum\<close>, \<open>NVM_RestoreFromFiles_OneFile\<close>
    with its header layouts, \<open>NVM_CheckData_OneFile\<close>.
  \<^item> \<open>BinRegion\<close>, \<open>BinRun\<close>: \<open>NVM_RestoreFromBinRegion_OneFile\<close>, the bitmap of bad blocks and the two files
    it rebuilds.
  \<^item> \<open>Reset\<close>: \<open>NVM_ResetFileToDefault\<close>, \<open>NVM_ProtectDataFile\<close>.
  \<^item> \<open>VerConvert\<close>, \<open>ConvertRun\<close>: \<open>NVM_DataVerConvert\<close>, \<open>NVM_DataVerConvertAll\<close>, \<open>NVM_CheckFileNum\<close>.
  \<^item> \<open>Access\<close>, \<open>OpenClose\<close>, \<open>Session\<close>: \<open>NVM_CheckFileID\<close>, \<open>NVM_GetFileVersion\<close>, \<open>NVM_GetFileDesc\<close>,
    \<open>NVM_CloseFileDesc\<close> and their parts.  \<open>Session\<close> is the abstract specification of the library: the
    calls of a client are a step relation \<open>nv_step\<close>, and \<open>store_step\<close> is a store of one byte array per
    file; the locale \<open>simulation\<close> of \<open>Runs\<close> lifts the simulation of single calls to runs.
  \<^item> \<open>Journal\<close>, \<open>JournalRun\<close>: \<open>NVM_GetSequenceNum\<close>, \<open>NVM_IncSequenceNum\<close>, \<open>NVM_HistoryLog\<close>,
    \<open>NVM_HistoryLog_Time\<close>, \<open>NVM_HistoryLog_add_file\<close> and the three functions of the misc journal.
  \<^item> \<open>Boot\<close>: \<open>read_fstab\<close>, the partition paths, \<open>NVM_Init\<close>, \<open>NVM_GetLIDByName\<close> and the checks at boot.

  \<^bold>\<open>The Bluetooth module.\<close>
  \<^item> \<open>Hci\<close>: \<open>HciPacketizer::OnDataReady\<close> (\<open>hci_packetizer.cc\<close>) and \<open>H4Protocol::OnDataReady\<close>
    (\<open>h4_protocol.cc\<close>); the sizes of the reads are a parameter, an abort is \<open>None\<close>.
  \<^item> \<open>Radiomod\<close>: \<open>radiomod.c\<close> and the outstanding command of \<open>vendor_interface.cc\<close>.  The state \<open>bt_state\<close>
    has the globals, the place of the init thread (\<open>pc\<close>), the outstanding command, and what has been
    sent, forwarded and reported.  \<open>bt_step\<close> interleaves the thread, the events and the clean-up; each
    critical section of the mutex is one step.
  \<^item> \<open>RadioRun\<close>: what holds of every run: form and order of the commands, and the end of the thread.
  \<^item> \<open>RadioStore\<close>: the composition with the NVRAM library, what the clean-up does to a start, and the
    instances.

  \<^bold>\<open>The loader of the connectivity chip.\<close>
  \<^item> \<open>Loader\<close>: \<open>loader.c\<close> with the functions of \<open>load_fm.c\<close>, \<open>load_ant.c\<close>, \<open>load_wifi.c\<close> and
    \<open>loader_pwr.c\<close>.  The state has the properties of the system, the descriptor of the device and the
    requests made so far with their answers; the kernel is a function \<open>env\<close> of these.
  \<^item> \<open>LoaderRun\<close>: rules \<open>lwp\<close> for the requests of a run; the power of the external chip over the trace,
    the run as waiting, detection and conclusion, and the property as the memory between two starts.

  \<^bold>\<open>The private commands of the supplicant.\<close>
  \<^item> \<open>CText\<close>: comparison of texts, and numbers printed and read (\<open>printf\<close>, \<open>strtol\<close>, \<open>strtoul\<close>, \<open>atoi\<close>)
    with their round trip; the loader uses it too.
  \<^item> \<open>WpaData\<close>: the messages and attributes of \<open>mediatek_driver_nl80211.h\<close> and the two handlers that store
    the attributes of an answer.
  \<^item> \<open>DriverCmd\<close>: the functions of \<open>mediatek_driver_cmd_nl80211.c\<close> for single commands, over the state
    \<open>nl_state\<close> (P2P data, interfaces, requests made, buffer for the answer, a flag for undefined
    behaviour).  \<open>Dispatch\<close>: \<open>wpa_driver_nl80211_driver_cmd\<close> and its entries for the supplicant.
  \<^item> \<open>DriverRun\<close>: the words of a command against a specification, the way of numbers through a command,
    and the bounds of all commands (\<open>calm\<close>).  \<open>DriverProps\<close>: statistics, receive filter and channels.

  \<^bold>\<open>The event loop of the radio interface layer.\<close>
  \<^item> \<open>RilEvent\<close>: every function of \<open>ril_event.cpp\<close>.  The timers and the events that are due are circular
    lists linked through the events themselves, so the state \<open>rilst\<close> has a store from addresses to
    \<open>struct ril_event\<close> beside the watch table, and each assignment through a pointer updates the store.
    \<open>None\<close> is undefined behaviour or a lock that is never obtained.  The clock and the answers of \<open>select\<close>
    are parameters; other threads add and delete events while the loop waits in \<open>select\<close>.
  \<^item> \<open>DList\<close> (doubly linked segments over two link functions), \<open>EventLists\<close> (what the pointer operations
    do to the lists), \<open>EventTable\<close> (the table and the descriptor set agree), \<open>EventLoop\<close> (the invariant
    \<open>ev_inv\<close> and every operation as an operation on lists).
  \<^item> \<open>EventProps\<close>: the interface between the loop and its callbacks, as the locales \<open>event_firing\<close>,
    \<open>event_client\<close> and \<open>event_service\<close>, each extending the one before: which laws a callback keeps, and
    what rounds and whole runs of the loop do then.
  \<^item> \<open>RilTimed\<close>: the client in \<open>ril.cpp\<close>: timed callbacks, the wake lock with its timeout, \<open>eventLoop\<close>.
    The vendor library is a parameter, the list of calls that each of its callbacks makes; so is
    \<open>calloc\<close>.  \<open>RilWake\<close> has the invariant \<open>ril_inv\<close> and interprets the locales on these callbacks
    (\<open>ril_loop\<close>, \<open>wake_off\<close>); \<open>RilProps\<close> has the properties.  \<open>RilThreads\<close>: the table of the last
    threads and their channels.

  \<^bold>\<open>What the lemmas show.\<close>  Each component has the functional behaviour of its operations when no call
  fails (the \<open>*Run\<close> theories and the \<open>run_*\<close> lemmas), the balance of its resources under every failure
  (the \<open>neutral_*\<close> and \<open>*_gives_back\<close> lemmas), and its properties, each marked with its number.  The
  invariant of a device is \<open>kept\<close>: no failure is pending, the version file is a table in the order of
  the lids, and no mutex of the version file is held.  Lemmas under the heading "Corners" show how the
  code behaves where it departs from its purpose.

  \<^bold>\<open>Bounds and fuel.\<close>  Loops over blocks, titles and records are structural recursions on a count the
  code computes or on the remaining input.  Two loops of the loader have no bound in the code and carry
  fuel: \<open>loader_completes\<close> shows that one attempt more than the kernel needs to create the device node
  is enough, and \<open>missing_module_never_ends\<close> that none is for a missing module.  \<open>nvram_ready\<close> looks at
  the property ten times, as the code does.  The init thread makes at most 39 steps: four for each of its
  nine commands, one for the start, one for the last test, one for the end.  The loops over the
  linked lists of events are partial functions, and the rules of \<open>EventLoop\<close> show that they return; a run
  of the event loop is one round for each answer of \<open>select\<close>.  Integers of 32 bits that
  the code computes from file contents are words; sizes of the tables are \<open>int\<close> cut to 32 bits by
  \<open>to_int32\<close> where C does it.

  \<^bold>\<open>Not modelled.\<close>  Log output.  The libraries \<open>libcustom_nvram\<close>, \<open>libnvram_platform\<close>, \<open>fs_mgr\<close>, the property
  service and the kernel are parameters or the machine above.  Of the Bluetooth HAL: the watcher thread,
  the low-power timer, the binder interface and \<open>MctProtocol\<close> (never chosen: one descriptor).  Of
  the supplicant: libnl, \<open>hwaddr_aton\<close> and its structures are parameters.  Of \<open>libril\<close>: the rest of
  \<open>ril.cpp\<close> (registration, the lists of pending and queued requests, responses) and the HIDL classes
  \<open>ril_service.cpp\<close> and \<open>sap_service.cpp\<close>.  The other programs of the tree are not modelled: \<open>rild\<close> and
  the thermal daemon, which start closed libraries; the Wi-Fi HAL, the other HIDL services, the
  compatibility symbols and \<open>init\<close>, which are C++ over interfaces of Android; build files and policies.
\<close>

end
